(* ===== verification/Prelude.thy ===== *)
theory Prelude
  imports Main "HOL-Library.Word"
begin

text \<open>
  The prelude of the development: names for the C integer types, ranges of 64-bit
  addresses and when their end wraps, the little-endian reading and writing of byte
  strings, and the collections of facts the component proofs use.
\<close>

unbundle bit_operations_syntax

named_theorems boot_defs \<open>definitions of the monad operations\<close>
named_theorems wp \<open>rules for Hoare triples of loader code\<close>

subsection \<open>C integer types\<close>

type_synonym u8 = "8 word"
type_synonym u16 = "16 word"
type_synonym u32 = "32 word"
type_synonym u64 = "64 word"
type_synonym bytes = "8 word list"

subsection \<open>Words and addresses\<close>

lemma unat_of_nat64 [simp]: "n < 18446744073709551616 \<Longrightarrow> unat (of_nat n :: u64) = n"
  by (simp add: unat_of_nat)

lemma unat_of_nat32 [simp]: "n < 4294967296 \<Longrightarrow> unat (of_nat n :: u32) = n"
  by (simp add: unat_of_nat)

lemma unat64_lt [simp]: "unat (x :: u64) < 18446744073709551616"
  using unsigned_less [of x, where 'a = nat] by simp

lemma unat32_lt [simp]: "unat (x :: u32) < 4294967296"
  using unsigned_less [of x, where 'a = nat] by simp

lemma unat8_lt [simp]: "unat (x :: u8) < 256"
  using unsigned_less [of x, where 'a = nat] by simp

lemma unat_ucast_32_64 [simp]: "unat (ucast (x :: u32) :: u64) = unat x"
  using unat32_lt [of x] by (simp add: unsigned_ucast_eq take_bit_eq_mod del: unat32_lt)

lemma unat_ucast_64_32: "unat (ucast (x :: u64) :: u32) = unat x mod 4294967296"
  by (simp add: unsigned_ucast_eq take_bit_eq_mod)

lemma unat_minus_less: "y \<noteq> 0 \<Longrightarrow> y \<le> x \<Longrightarrow> unat (x - y) < unat x" for x y :: "'a::len word"
  using unat_gt_0 [of y] by (simp add: unat_sub word_le_nat_alt)

text \<open>The 64-bit sum does not wrap exactly when it is not below its first operand.\<close>

lemma no_wrap_iff: "a \<le> a + b \<longleftrightarrow> unat a + unat b < 2 ^ 64" for a b :: u64
proof -
  have *: "unat (a + b) = (unat a + unat b) mod 2 ^ 64"
    by (simp add: unat_word_ariths)
  have a: "unat a < 2 ^ 64" and b: "unat b < 2 ^ 64"
    by simp_all
  show ?thesis
  proof (cases "unat a + unat b < 2 ^ 64")
    case True
    then show ?thesis using * by (simp add: word_le_nat_alt)
  next
    case False
    then have "(unat a + unat b) mod 2 ^ 64 = (unat a + unat b - 2 ^ 64) mod 2 ^ 64"
      by (simp add: le_mod_geq linorder_not_less)
    also have "\<dots> = unat a + unat b - 2 ^ 64"
      using a b by (intro mod_less) linarith
    finally have "unat (a + b) < unat a" using * False a b by linarith
    with False show ?thesis by (simp add: word_le_nat_alt)
  qed
qed

lemma unat_add_nowrap: "a \<le> a + b \<Longrightarrow> unat (a + b) = unat a + unat b" for a b :: u64
  by (simp add: no_wrap_iff unat_word_ariths)

lemma in_range_offset:
  "unat (x - a) < n \<longleftrightarrow> (\<exists>i < n. x = a + of_nat i)" if "n \<le> 2 ^ 64" for x a :: u64
proof
  assume "unat (x - a) < n"
  moreover have "x = a + of_nat (unat (x - a))" by simp
  ultimately show "\<exists>i<n. x = a + of_nat i" by blast
next
  assume "\<exists>i<n. x = a + of_nat i"
  then obtain i where "i < n" and "x = a + of_nat i" by blast
  with that show "unat (x - a) < n" by simp
qed

text \<open>An address is in the half-open range \<open>[start, start + sz)\<close>.\<close>

definition in_range :: "u64 \<Rightarrow> u64 \<Rightarrow> u64 \<Rightarrow> bool" where
  "in_range start sz x \<longleftrightarrow> unat (x - start) < unat sz"

lemma in_range_iff:
  "start \<le> start + sz \<Longrightarrow>
   in_range start sz x \<longleftrightarrow> unat start \<le> unat x \<and> unat x < unat start + unat sz"
proof -
  assume *: "start \<le> start + sz"
  then have lim: "unat start + unat sz < 2 ^ 64" by (simp add: no_wrap_iff)
  show ?thesis
  proof (cases "start \<le> x")
    case True
    then have "unat (x - start) = unat x - unat start" by (rule unat_sub)
    with True show ?thesis by (auto simp: in_range_def word_le_nat_alt)
  next
    case False
    then have lt: "unat x < unat start" by (simp add: word_le_nat_alt)
    have "unat (x - start) = 2 ^ 64 + unat x - unat start"
      using lt by (simp add: unat_sub_if')
    then have "\<not> unat (x - start) < unat sz" using lim lt by simp
    with lt show ?thesis by (simp add: in_range_def)
  qed
qed

lemma in_range_mono:
  assumes "wstart \<le> start" and "start + sz \<le> wstart + wsz"
    and "start \<le> start + sz" and "wstart \<le> wstart + wsz"
    and "in_range start sz x"
  shows "in_range wstart wsz x"
proof -
  have "unat wstart \<le> unat start"
    using assms(1) by (simp add: word_le_nat_alt)
  moreover have "unat start + unat sz \<le> unat wstart + unat wsz"
    using assms(2) unat_add_nowrap [OF assms(3)] unat_add_nowrap [OF assms(4)]
    by (simp add: word_le_nat_alt)
  ultimately show ?thesis
    using assms(5) by (simp add: in_range_iff [OF assms(3)] in_range_iff [OF assms(4)])
qed

subsection \<open>Little-endian byte strings\<close>

fun le_bytes :: "nat \<Rightarrow> nat \<Rightarrow> bytes" where
  "le_bytes 0 v = []"
| "le_bytes (Suc n) v = of_nat (v mod 256) # le_bytes n (v div 256)"

fun le_nat :: "bytes \<Rightarrow> nat" where
  "le_nat [] = 0"
| "le_nat (b # bs) = unat b + 256 * le_nat bs"

lemma length_le_bytes [simp]: "length (le_bytes n v) = n"
  by (induction n arbitrary: v) auto

lemma le_nat_le_bytes: "le_nat (le_bytes n v) = v mod 256 ^ n"
proof (induction n arbitrary: v)
  case 0
  then show ?case by simp
next
  case (Suc n)
  have "unat (of_nat (v mod 256) :: u8) = v mod 256"
    by (simp add: unat_of_nat)
  then show ?case
    using Suc [of "v div 256"] by (simp add: mod_mult2_eq)
qed

lemma le_nat_bound: "le_nat bs < 256 ^ length bs"
proof (induction bs)
  case Nil
  then show ?case by simp
next
  case (Cons b bs)
  have "unat b < 256" by simp
  then have "unat b + 256 * le_nat bs < 256 * Suc (le_nat bs)" by simp
  also have "\<dots> \<le> 256 * 256 ^ length bs" using Cons by (intro mult_le_mono2) simp
  finally show ?case by simp
qed

lemma le_bytes_le_nat: "le_bytes (length bs) (le_nat bs) = bs"
proof (induction bs)
  case Nil
  then show ?case by simp
next
  case (Cons b bs)
  have "unat b < 256" by simp
  with Cons show ?case by simp
qed

subsection \<open>Lists\<close>

lemma take_drop_append_split:
  "m \<le> n \<Longrightarrow> take m (drop i xs) @ take (n - m) (drop (i + m) xs) = take n (drop i xs)"
  by (metis add.commute drop_drop le_add_diff_inverse take_add)

lemma nth_list_update_all:
  "i < length xs \<Longrightarrow> (\<forall>x \<in> set (xs[i := v]). P x) \<longleftrightarrow>
     P v \<and> (\<forall>j < length xs. j \<noteq> i \<longrightarrow> P (xs ! j))"
  by (auto simp: all_set_conv_all_nth nth_list_update)

end
