(* ===== verification/Boot_Monad.thy ===== *)
theory Boot_Monad
  imports Prelude
begin

text \<open>
  The computations of the boot loader. \<^verbatim>\<open>BL_VERIFY\<close> and \<^verbatim>\<open>BL_ERR_FATAL\<close>
  (Include/api/boot/boot_error_if.h) call the error handler, which never returns: a
  computation ends in a fault or in a value, and in both cases in a state, so that
  safety properties also speak about boots that stop half way. A C access outside an
  object or through a null pointer is the fault \<open>Undefined_behaviour\<close>, a failed
  \<^verbatim>\<open>ASSERT\<close> the fault \<open>Assertion_failed\<close>, and a loop given too few steps the fault
  \<open>Out_of_fuel\<close>, which the theorems about those loops exclude. \<open>Target_reset\<close> and
  \<open>Restarted\<close> end a run that resets the target or starts its image again.
\<close>

datatype fault = Bl_err u32 | Assertion_failed | Undefined_behaviour | Out_of_fuel | Target_reset | Restarted

type_synonym ('s, 'a) boot = "'s \<Rightarrow> (fault + 'a) \<times> 's"

subsection \<open>Error codes of boot\_error\_if.h\<close>

definition bl_err :: "u32 \<Rightarrow> u32 \<Rightarrow> fault" where
  "bl_err err grp = Bl_err (err OR grp)"

abbreviation (input) "BL_ERROR_GROUP_BOOT \<equiv> (0x01000000 :: u32)"
abbreviation (input) "BL_ERROR_GROUP_CRYPTO \<equiv> (0x06000000 :: u32)"
abbreviation (input) "BL_ERROR_GROUP_DAL \<equiv> (0x07000000 :: u32)"
abbreviation (input) "BL_ERROR_GROUP_SECIMG \<equiv> (0x26000000 :: u32)"
abbreviation (input) "BL_ERROR_GROUP_SECURITY \<equiv> (0x37000000 :: u32)"
abbreviation (input) "BL_ERROR_GROUP_STORAGE \<equiv> (0x38000000 :: u32)"

abbreviation (input) "BL_ERR_NONE \<equiv> (0 :: u32)"
abbreviation (input) "BL_ERR_NULL_PTR_PASSED \<equiv> (0x0001 :: u32)"
abbreviation (input) "BL_ERR_BUFFER_SIZE_TOO_SMALL \<equiv> (0x0003 :: u32)"
abbreviation (input) "BL_ERR_AUTH_DISABLED \<equiv> (0x0007 :: u32)"
abbreviation (input) "BL_ERR_HASH_TBL_AUTH_FAIL \<equiv> (0x0008 :: u32)"
abbreviation (input) "BL_ERR_CLOBBER_PROTECTION_VIOLATION \<equiv> (0x0014 :: u32)"
abbreviation (input) "BL_ERR_FLASH_READ_FAIL \<equiv> (0x0015 :: u32)"
abbreviation (input) "BL_ERR_IMG_SIZE_TOO_BIG \<equiv> (0x0016 :: u32)"
abbreviation (input) "BL_ERR_SDC_INVALID_SIZE \<equiv> (0x0017 :: u32)"
abbreviation (input) "BL_ERR_SDC_INVALID_PARTI \<equiv> (0x0020 :: u32)"
abbreviation (input) "BL_ERR_ELF_HASH_MISMATCH \<equiv> (0x0022 :: u32)"
abbreviation (input) "BL_ERR_INVALID_HASH_PTR \<equiv> (0x0023 :: u32)"
abbreviation (input) "BL_ERR_TPM_HASH_BLK_STR_FAIL \<equiv> (0x0024 :: u32)"
abbreviation (input) "BL_ERR_FAILED_TO_COPY_IMG_HDR \<equiv> (0x0034 :: u32)"
abbreviation (input) "BL_ERR_ELF_HDR_READ_FAIL \<equiv> (0x0035 :: u32)"
abbreviation (input) "BL_ERR_IMGID_NOT_FOUND \<equiv> (0x0038 :: u32)"
abbreviation (input) "BL_ERR_IMG_NOT_FOUND \<equiv> (0x0041 :: u32)"
abbreviation (input) "BL_ERR_RESOURCE_NOT_AVAILABLE \<equiv> (0x0043 :: u32)"
abbreviation (input) "BL_ERR_EFS_CLOSE_FAIL \<equiv> (0x0056 :: u32)"
abbreviation (input) "BL_ERR_EFS_INVALID_HANDLE \<equiv> (0x0057 :: u32)"
abbreviation (input) "BL_ERR_HOTPLUG \<equiv> (0x0058 :: u32)"
abbreviation (input) "BL_ERR_UNSUPPORTED_IMG \<equiv> (0x0063 :: u32)"
abbreviation (input) "BL_ERR_IMG_SECURITY_FAIL \<equiv> (0x0065 :: u32)"
abbreviation (input) "BL_ERR_UNSUPPORTED_HASH_ALGO \<equiv> (0x0066 :: u32)"
abbreviation (input) "BL_ERR_SDCC_TRANS_INTERFACE_NOT_FOUND \<equiv> (0x0068 :: u32)"
abbreviation (input) "BL_ERR_INVALID_SECTOR_SIZE \<equiv> (0x0070 :: u32)"
abbreviation (input) "BL_ERR_INTEGER_OVERFLOW \<equiv> (0x0074 :: u32)"

subsection \<open>The operations\<close>

definition ret :: "'a \<Rightarrow> ('s, 'a) boot" where
  [boot_defs]: "ret x = (\<lambda>s. (Inr x, s))"

definition fatal :: "fault \<Rightarrow> ('s, 'a) boot" where
  [boot_defs]: "fatal e = (\<lambda>s. (Inl e, s))"

definition bnd :: "('s, 'a) boot \<Rightarrow> ('a \<Rightarrow> ('s, 'b) boot) \<Rightarrow> ('s, 'b) boot" where
  [boot_defs]: "bnd m f = (\<lambda>s. case m s of (Inl e, t) \<Rightarrow> (Inl e, t) | (Inr x, t) \<Rightarrow> f x t)"

definition thn :: "('s, 'a) boot \<Rightarrow> ('s, 'b) boot \<Rightarrow> ('s, 'b) boot" where
  [boot_defs]: "thn m n = bnd m (\<lambda>_. n)"

definition gets :: "('s \<Rightarrow> 'a) \<Rightarrow> ('s, 'a) boot" where
  [boot_defs]: "gets f = (\<lambda>s. (Inr (f s), s))"

definition modify :: "('s \<Rightarrow> 's) \<Rightarrow> ('s, unit) boot" where
  [boot_defs]: "modify f = (\<lambda>s. (Inr (), f s))"

definition bl_verify :: "bool \<Rightarrow> fault \<Rightarrow> ('s, unit) boot" where
  [boot_defs]: "bl_verify c e = (if c then ret () else fatal e)"

definition assert_c :: "bool \<Rightarrow> ('s, unit) boot" where
  [boot_defs]: "assert_c c = (if c then ret () else fatal Assertion_failed)"

definition whenb :: "bool \<Rightarrow> ('s, unit) boot \<Rightarrow> ('s, unit) boot" where
  [boot_defs]: "whenb c m = (if c then m else ret ())"

primrec for_each :: "'a list \<Rightarrow> ('a \<Rightarrow> ('s, unit) boot) \<Rightarrow> ('s, unit) boot" where
  "for_each [] f = ret ()"
| "for_each (x # xs) f = thn (f x) (for_each xs f)"

text \<open>The fault and the final state of a run, and the successful ones.\<close>

abbreviation final :: "('s, 'a) boot \<Rightarrow> 's \<Rightarrow> 's" where
  "final m s \<equiv> snd (m s)"

abbreviation result :: "('s, 'a) boot \<Rightarrow> 's \<Rightarrow> fault + 'a" where
  "result m s \<equiv> fst (m s)"

lemma bnd_ret [simp]: "bnd (ret x) f = f x"
  by (simp add: boot_defs)

lemma ret_bnd [simp]: "bnd m ret = m"
  by (auto simp: boot_defs fun_eq_iff split: prod.splits sum.splits)

lemma bnd_assoc: "bnd (bnd m f) g = bnd m (\<lambda>x. bnd (f x) g)"
  by (auto simp: boot_defs fun_eq_iff split: prod.splits sum.splits)

lemma bnd_fatal [simp]: "bnd (fatal e) f = fatal e"
  by (simp add: boot_defs)

lemma thn_ret [simp]: "thn (ret x) m = m"
  by (simp add: thn_def)

lemma thn_fatal [simp]: "thn (fatal e) m = fatal e"
  by (simp add: thn_def)

lemma bl_verify_simps [simp]: "bl_verify True e = ret ()" "bl_verify False e = fatal e"
  by (simp_all add: bl_verify_def)

lemma assert_c_simps [simp]: "assert_c True = ret ()" "assert_c False = fatal Assertion_failed"
  by (simp_all add: assert_c_def)

lemma whenb_simps [simp]: "whenb True m = m" "whenb False m = ret ()"
  by (simp_all add: whenb_def)

lemma ret_app: "ret x s = (Inr x, s)"
  by (simp add: ret_def)

lemma fatal_app: "fatal e s = (Inl e, s)"
  by (simp add: fatal_def)

lemma bnd_gets_app [simp]: "bnd (gets f) g s = g (f s) s"
  by (simp add: boot_defs)

lemma thn_modify_app [simp]: "thn (modify f) m s = m (f s)"
  by (simp add: boot_defs)

lemma modify_app [simp]: "modify f s = (Inr (), f s)"
  by (simp add: modify_def)

lemma gets_app [simp]: "gets f s = (Inr (f s), s)"
  by (simp add: gets_def)

lemma bnd_Inr: "m s = (Inr x, t) \<Longrightarrow> bnd m f s = f x t"
  by (simp add: bnd_def)

lemma bnd_Inl: "m s = (Inl e, t) \<Longrightarrow> bnd m f s = (Inl e, t)"
  by (simp add: bnd_def)

lemma thn_Inr: "m s = (Inr x, t) \<Longrightarrow> thn m n s = n t"
  by (simp add: thn_def bnd_def)

lemma thn_Inl: "m s = (Inl e, t) \<Longrightarrow> thn m n s = (Inl e, t)"
  by (simp add: thn_def bnd_def)

lemma bnd_app: "bnd m f s = (case m s of (Inl e, t) \<Rightarrow> (Inl e, t) | (Inr x, t) \<Rightarrow> f x t)"
  by (simp add: bnd_def)

lemma thn_app: "thn m n s = (case m s of (Inl e, t) \<Rightarrow> (Inl e, t) | (Inr x, t) \<Rightarrow> n t)"
  by (simp add: thn_def bnd_def)

lemma bnd_InrE:
  assumes "bnd m f s = (Inr y, u)"
  obtains x t where "m s = (Inr x, t)" and "f x t = (Inr y, u)"
  using assms by (auto simp: bnd_def split: prod.splits sum.splits)

lemma thn_InrE:
  assumes "thn m n s = (Inr y, u)"
  obtains x t where "m s = (Inr x, t)" and "n t = (Inr y, u)"
  using assms unfolding thn_def by (rule bnd_InrE)

lemma bl_verify_InrE:
  assumes "bl_verify c e s = (Inr y, u)"
  obtains "c" and "u = s"
  using assms by (auto simp: bl_verify_def ret_app fatal_app split: if_splits)

subsection \<open>Hoare triples\<close>

text \<open>
  \<open>triple P m Q E\<close>: from a state satisfying \<open>P\<close>, \<open>m\<close> ends with a value and a state
  in \<open>Q\<close> or with a fault and a state in \<open>E\<close>.
\<close>

definition triple ::
  "('s \<Rightarrow> bool) \<Rightarrow> ('s, 'a) boot \<Rightarrow> ('a \<Rightarrow> 's \<Rightarrow> bool) \<Rightarrow> (fault \<Rightarrow> 's \<Rightarrow> bool) \<Rightarrow> bool" where
  "triple P m Q E \<longleftrightarrow>
     (\<forall>s. P s \<longrightarrow> (case m s of (Inr x, t) \<Rightarrow> Q x t | (Inl e, t) \<Rightarrow> E e t))"

lemma triple_weaken:
  "triple P' m Q' E' \<Longrightarrow> (\<And>s. P s \<Longrightarrow> P' s) \<Longrightarrow> (\<And>x s. Q' x s \<Longrightarrow> Q x s) \<Longrightarrow>
   (\<And>e s. E' e s \<Longrightarrow> E e s) \<Longrightarrow> triple P m Q E"
  by (fastforce simp: triple_def split: prod.splits sum.splits)

lemma triple_ret [wp]: "triple (Q x) (ret x) Q E"
  by (simp add: triple_def ret_app fatal_app)

lemma triple_fatal [wp]: "triple (E e) (fatal e) Q E"
  by (simp add: triple_def ret_app fatal_app)

lemma triple_gets [wp]: "triple (\<lambda>s. Q (f s) s) (gets f) Q E"
  by (simp add: triple_def)

lemma triple_modify [wp]: "triple (\<lambda>s. Q () (f s)) (modify f) Q E"
  by (simp add: triple_def)

lemma triple_bnd: "triple P m R E \<Longrightarrow> (\<And>x. triple (R x) (f x) Q E) \<Longrightarrow> triple P (bnd m f) Q E"
  by (fastforce simp: triple_def bnd_def split: prod.splits sum.splits)

lemma triple_thn: "triple P m (\<lambda>_. R) E \<Longrightarrow> triple R n Q E \<Longrightarrow> triple P (thn m n) Q E"
  unfolding thn_def by (rule triple_bnd)

lemma triple_bl_verify [wp]:
  "triple (\<lambda>s. if c then Q () s else E e s) (bl_verify c e) Q E"
  by (simp add: triple_def bl_verify_def ret_app fatal_app)

lemma triple_whenb:
  "(c \<Longrightarrow> triple P m Q E) \<Longrightarrow> (\<And>s. \<not> c \<Longrightarrow> P s \<Longrightarrow> Q () s) \<Longrightarrow> triple P (whenb c m) Q E"
  by (auto simp: triple_def whenb_def ret_app)

lemma triple_for_each:
  assumes "\<And>x. x \<in> set xs \<Longrightarrow> triple I (f x) (\<lambda>_. I) E"
  shows "triple I (for_each xs f) (\<lambda>_. I) E"
  using assms
proof (induction xs)
  case Nil
  then show ?case by (simp add: triple_def ret_app)
next
  case (Cons x xs)
  then have "triple I (f x) (\<lambda>_. I) E" and "triple I (for_each xs f) (\<lambda>_. I) E"
    by simp_all
  then show ?case by (simp add: triple_thn)
qed

text \<open>A counting loop whose body does not fault keeps an indexed invariant and ends.\<close>

lemma for_each_upt_from:
  assumes "\<And>i s. k \<le> i \<Longrightarrow> i < k + n \<Longrightarrow> I i s \<Longrightarrow> \<exists>t. f i s = (Inr (), t) \<and> I (Suc i) t"
    and "I k s"
  shows "\<exists>t. for_each [k..<k + n] f s = (Inr (), t) \<and> I (k + n) t"
  using assms
proof (induction n arbitrary: k s)
  case 0
  then show ?case by (simp add: ret_app)
next
  case (Suc n)
  from Suc.prems(1) [of k s] Suc.prems(2) obtain t where t: "f k s = (Inr (), t)" "I (Suc k) t"
    by auto
  have "\<exists>u. for_each [Suc k..<Suc k + n] f t = (Inr (), u) \<and> I (Suc k + n) u"
    using Suc.prems(1) t(2) by (intro Suc.IH) auto
  then show ?case using t(1) by (simp add: upt_conv_Cons thn_Inr del: upt_Suc)
qed

lemmas for_each_upt = for_each_upt_from [of 0, simplified]

text \<open>A counting loop that ends without a fault keeps an invariant of its steps.\<close>

lemma for_each_upt_Inr:
  assumes "for_each [k..<k + n] f s = (Inr (), t)" and "I k s"
    and "\<And>i s t. k \<le> i \<Longrightarrow> i < k + n \<Longrightarrow> I i s \<Longrightarrow> f i s = (Inr (), t) \<Longrightarrow> I (Suc i) t"
  shows "I (k + n) t"
  using assms
proof (induction n arbitrary: k s)
  case 0
  then show ?case by (simp add: ret_app)
next
  case (Suc n)
  from Suc.prems(1) obtain u where u: "f k s = (Inr (), u)" "for_each [Suc k..<Suc k + n] f u = (Inr (), t)"
    by (auto simp: upt_conv_Cons simp del: upt_Suc elim!: thn_InrE)
  have "I (Suc k) u" using Suc.prems(2,3) u(1) by simp
  then have "I (Suc k + n) t" using Suc.prems(3) by (intro Suc.IH [OF u(2)]) simp_all
  then show ?case by simp
qed

lemma triple_InrD: "triple P m Q E \<Longrightarrow> P s \<Longrightarrow> m s = (Inr x, t) \<Longrightarrow> Q x t"
  by (fastforce simp: triple_def)

lemma triple_InlD: "triple P m Q E \<Longrightarrow> P s \<Longrightarrow> m s = (Inl e, t) \<Longrightarrow> E e t"
  by (fastforce simp: triple_def)

subsection \<open>Frames\<close>

text \<open>
  \<open>keeps R m\<close>: whatever the outcome of \<open>m\<close>, a fault included, its final state is
  related to its initial state by \<open>R\<close>. For a reflexive and transitive \<open>R\<close> this is
  closed under every way the loader composes computations; the locale proves that once.
\<close>

definition keeps :: "('s \<Rightarrow> 's \<Rightarrow> bool) \<Rightarrow> ('s, 'a) boot \<Rightarrow> bool" where
  "keeps R m \<longleftrightarrow> (\<forall>s. R s (final m s))"

lemma keepsD: "keeps R m \<Longrightarrow> R s (final m s)"
  by (simp add: keeps_def)

lemma keepsI: "(\<And>s. R s (final m s)) \<Longrightarrow> keeps R m"
  by (simp add: keeps_def)

lemma keeps_mono: "keeps R m \<Longrightarrow> (\<And>s t. R s t \<Longrightarrow> R' s t) \<Longrightarrow> keeps R' m"
  by (simp add: keeps_def)

lemma keeps_option: "(x = None \<Longrightarrow> keeps R m) \<Longrightarrow> (\<And>y. x = Some y \<Longrightarrow> keeps R (f y)) \<Longrightarrow> keeps R (case x of None \<Rightarrow> m | Some y \<Rightarrow> f y)"
  by (cases x) simp_all

lemma keeps_if: "(c \<Longrightarrow> keeps R m) \<Longrightarrow> (\<not> c \<Longrightarrow> keeps R n) \<Longrightarrow> keeps R (if c then m else n)"
  by simp

locale frame =
  fixes R :: "'s \<Rightarrow> 's \<Rightarrow> bool"
  assumes rel_refl: "R s s"
    and rel_trans: "R s t \<Longrightarrow> R t u \<Longrightarrow> R s u"
begin

lemma keeps_ret [simp, intro]: "keeps R (ret x)"
  by (simp add: keeps_def rel_refl ret_app fatal_app)

lemma keeps_fatal [simp, intro]: "keeps R (fatal e)"
  by (simp add: keeps_def rel_refl ret_app fatal_app)

lemma keeps_gets [simp, intro]: "keeps R (gets f)"
  by (simp add: keeps_def rel_refl)

lemma keeps_bl_verify [simp, intro]: "keeps R (bl_verify c e)"
  by (simp add: bl_verify_def)

lemma keeps_assert_c [simp, intro]: "keeps R (assert_c c)"
  by (simp add: assert_c_def)

lemma keeps_modify: "(\<And>s. R s (f s)) \<Longrightarrow> keeps R (modify f)"
  by (simp add: keeps_def)

lemma keeps_bnd: "keeps R m \<Longrightarrow> (\<And>x. keeps R (f x)) \<Longrightarrow> keeps R (bnd m f)"
  by (auto simp: keeps_def bnd_def split: prod.split sum.split)
     (metis rel_trans snd_conv)+

lemma keeps_thn: "keeps R m \<Longrightarrow> keeps R n \<Longrightarrow> keeps R (thn m n)"
  by (simp add: thn_def keeps_bnd)

lemma keeps_whenb: "(c \<Longrightarrow> keeps R m) \<Longrightarrow> keeps R (whenb c m)"
  by (simp add: whenb_def)

lemma keeps_for_each: "(\<And>x. x \<in> set xs \<Longrightarrow> keeps R (f x)) \<Longrightarrow> keeps R (for_each xs f)"
  by (induction xs) (auto intro: keeps_thn)

lemmas keeps_intros = keeps_bnd keeps_thn keeps_whenb keeps_for_each keeps_modify

end

end
