(* ===== verification/Boot_Util.thy ===== *)
theory Boot_Util
  imports Prelude
begin

text \<open>
  Memory and the utilities of boot\_util.c. A memory is a total function from 64-bit
  addresses to bytes; multi-byte accesses are little-endian. The loops of the file are
  functions by recursion on the remaining length; \<^verbatim>\<open>boot_strlen\<close>, which runs for ever when
  no terminator is found, is a partial function. The lemmas show that the word-at-a-time
  \<^verbatim>\<open>qmemset\<close> and the aligned \<^verbatim>\<open>bLoad8\<close> and \<^verbatim>\<open>bStor8\<close> are the byte operations they
  replace, and that \<^verbatim>\<open>bByteCompare\<close> finds the first difference.
\<close>

unbundle bit_operations_syntax

type_synonym mem = "u64 \<Rightarrow> u8"

record mem_state =
  memory :: mem

subsection \<open>Byte strings in memory\<close>

definition mem_write :: "u64 \<Rightarrow> bytes \<Rightarrow> mem \<Rightarrow> mem" where
  "mem_write a bs m = (\<lambda>x. if unat (x - a) < length bs then bs ! unat (x - a) else m x)"

definition mem_read :: "u64 \<Rightarrow> nat \<Rightarrow> mem \<Rightarrow> bytes" where
  "mem_read a n m = map (\<lambda>i. m (a + of_nat i)) [0..<n]"

definition load32 :: "u64 \<Rightarrow> mem \<Rightarrow> u32" where
  "load32 a m = of_nat (le_nat (mem_read a 4 m))"

definition store32 :: "u64 \<Rightarrow> u32 \<Rightarrow> mem \<Rightarrow> mem" where
  "store32 a v = mem_write a (le_bytes 4 (unat v))"

definition load64 :: "u64 \<Rightarrow> mem \<Rightarrow> u64" where
  "load64 a m = of_nat (le_nat (mem_read a 8 m))"

definition store64 :: "u64 \<Rightarrow> u64 \<Rightarrow> mem \<Rightarrow> mem" where
  "store64 a v = mem_write a (le_bytes 8 (unat v))"

subsection \<open>The functions of boot\_util.c\<close>

partial_function (option) boot_strlen_loop :: "u64 \<Rightarrow> mem \<Rightarrow> u64 option" where
  "boot_strlen_loop ptr m = (if m ptr = 0 then Some ptr else boot_strlen_loop (ptr + 1) m)"

definition boot_strlen :: "u64 \<Rightarrow> mem \<Rightarrow> u32 option" where
  "boot_strlen str m = map_option (\<lambda>ptr. ucast (ptr - str)) (boot_strlen_loop str m)"

definition bLoad8 :: "u64 \<Rightarrow> mem \<Rightarrow> u32" where
  "bLoad8 p m =
     (let aligned_p = p AND NOT 3; index = p AND 3
      in drop_bit (unat (push_bit 3 index)) (load32 aligned_p m) AND 0xFF)"

definition bStor8 :: "u64 \<Rightarrow> u32 \<Rightarrow> mem \<Rightarrow> mem" where
  "bStor8 p val m =
     (let aligned_p = p AND NOT 3; index = p AND 3;
          current_value = ucast (load64 aligned_p m) :: u32;
          sh = unat (push_bit 3 index)
      in store32 aligned_p ((current_value AND NOT (push_bit sh 0xFF)) OR push_bit sh val) m)"

function bByteCompare_loop :: "int \<Rightarrow> int \<Rightarrow> u64 \<Rightarrow> u64 \<Rightarrow> mem \<Rightarrow> u32" where
  "bByteCompare_loop i byte_len p1 p2 m =
     (if i < byte_len then
        if bLoad8 p1 m \<noteq> bLoad8 p2 m then of_int (i + 1)
        else bByteCompare_loop (i + 1) byte_len (p1 + 1) (p2 + 1) m
      else 0)"
  by pat_completeness auto
termination by (relation "measure (\<lambda>(i, byte_len, _). nat (byte_len - i))") auto

declare bByteCompare_loop.simps [simp del]

definition bByteCompare :: "u64 \<Rightarrow> u64 \<Rightarrow> u32 \<Rightarrow> mem \<Rightarrow> u32" where
  "bByteCompare value1_ptr value2_ptr byte_len m =
     bByteCompare_loop 0 (sint byte_len) value1_ptr value2_ptr m"

text \<open>
  \<^verbatim>\<open>memscpy\<close> is the C library's bounded copy: it copies the smaller of the two sizes.
\<close>

definition memscpy :: "u64 \<Rightarrow> nat \<Rightarrow> u64 \<Rightarrow> nat \<Rightarrow> mem \<Rightarrow> mem" where
  "memscpy dst dst_size src src_size m = mem_write dst (mem_read src (min dst_size src_size) m) m"

definition qmemcpy :: "u64 \<Rightarrow> u64 \<Rightarrow> u32 \<Rightarrow> mem \<Rightarrow> mem" where
  "qmemcpy destination_ptr source_ptr len =
     memscpy destination_ptr (unat len) source_ptr (unat len)"

definition qmemscpy :: "u64 \<Rightarrow> u32 \<Rightarrow> u64 \<Rightarrow> u32 \<Rightarrow> mem \<Rightarrow> mem" where
  "qmemscpy destination_ptr dst_size source_ptr src_size =
     memscpy destination_ptr (unat dst_size) source_ptr (unat src_size)"

lemma and_pred_less: "x \<noteq> 0 \<Longrightarrow> unat (x AND (x - 1)) < unat x" for x :: "'a::len word"
proof -
  assume x: "x \<noteq> 0"
  have "x AND (x - 1) \<le> x - 1" by (rule word_and_le1)
  moreover have "x - 1 < x" using x by (metis word_less_1 word_less_sub1 less_one linorder_neqE measure_unat word_gt_0 word_less_nat_alt)
  ultimately show ?thesis by (simp add: word_less_nat_alt word_le_nat_alt)
qed

function boot_count_set_bits_loop :: "u32 \<Rightarrow> u32 \<Rightarrow> u32" where
  "boot_count_set_bits_loop input_val count =
     (if input_val \<noteq> 0 then boot_count_set_bits_loop (input_val AND (input_val - 1)) (count + 1)
      else count)"
  by pat_completeness auto
termination by (relation "measure (\<lambda>(v, _). unat v)") (auto simp: and_pred_less)

declare boot_count_set_bits_loop.simps [simp del]

definition boot_count_set_bits :: "u32 \<Rightarrow> u32" where
  "boot_count_set_bits input_val = boot_count_set_bits_loop input_val 0"

text \<open>The three loops of \<^verbatim>\<open>qmemset\<close>, by 8, 4 and 1 bytes.\<close>

function qmemset_loop64 :: "u64 \<Rightarrow> u64 \<Rightarrow> u32 \<Rightarrow> mem \<Rightarrow> u64 \<times> u32 \<times> mem" where
  "qmemset_loop64 p v len m =
     (if len \<ge> 8 then qmemset_loop64 (p + 8) v (len - 8) (store64 p v m) else (p, len, m))"
  by pat_completeness auto
termination by (relation "measure (\<lambda>(_, _, len, _). unat len)")
  (auto simp: word_le_nat_alt unat_sub)

function qmemset_loop32 :: "u64 \<Rightarrow> u32 \<Rightarrow> u32 \<Rightarrow> mem \<Rightarrow> u64 \<times> u32 \<times> mem" where
  "qmemset_loop32 p v len m =
     (if len \<ge> 4 then qmemset_loop32 (p + 4) v (len - 4) (store32 p v m) else (p, len, m))"
  by pat_completeness auto
termination by (relation "measure (\<lambda>(_, _, len, _). unat len)")
  (auto simp: word_le_nat_alt unat_sub)

function qmemset_loop8 :: "u64 \<Rightarrow> u32 \<Rightarrow> u32 \<Rightarrow> mem \<Rightarrow> mem" where
  "qmemset_loop8 p val len m =
     (if len > 0 then qmemset_loop8 (p + 1) val (len - 1) (m(p := ucast val)) else m)"
  by pat_completeness auto
termination by (relation "measure (\<lambda>(_, _, len, _). unat len)")
  (auto simp: word_less_nat_alt unat_sub word_le_nat_alt Suc_leI)

declare qmemset_loop64.simps [simp del] qmemset_loop32.simps [simp del] qmemset_loop8.simps [simp del]

definition value32_of :: "u32 \<Rightarrow> u32" where
  "value32_of val = push_bit 24 val OR push_bit 16 val OR push_bit 8 val OR val"

definition value64_of :: "u32 \<Rightarrow> u64" where
  "value64_of val = push_bit 32 (ucast (value32_of val)) OR ucast (value32_of val)"

definition qmemset :: "u64 \<Rightarrow> u32 \<Rightarrow> u32 \<Rightarrow> mem \<Rightarrow> mem" where
  "qmemset dst_ptr val len m =
     (if dst_ptr AND 7 = 0 \<and> len \<ge> 8 then
        (let (p, len', m') = qmemset_loop64 dst_ptr (value64_of val) len m
         in qmemset_loop8 p val len' m')
      else if dst_ptr AND 3 = 0 \<and> len \<ge> 4 then
        (let (p, len', m') = qmemset_loop32 dst_ptr (value32_of val) len m
         in qmemset_loop8 p val len' m')
      else qmemset_loop8 dst_ptr val len m)"

text \<open>The number of one bits of a natural number, by halving.\<close>

fun pop_count_nat :: "nat \<Rightarrow> nat" where
  "pop_count_nat n = (if n = 0 then 0 else n mod 2 + pop_count_nat (n div 2))"

declare pop_count_nat.simps [simp del]

subsection \<open>Lemmas\<close>

subsubsection \<open>Reading and writing byte strings\<close>

lemma length_mem_read [simp]: "length (mem_read a n m) = n"
  by (simp add: mem_read_def)

lemma nth_mem_read [simp]: "i < n \<Longrightarrow> mem_read a n m ! i = m (a + of_nat i)"
  by (simp add: mem_read_def)

lemma mem_write_Nil [simp]: "mem_write a [] m = m"
  by (simp add: mem_write_def)

lemma mem_write_outside: "\<not> unat (x - a) < length bs \<Longrightarrow> mem_write a bs m x = m x"
  by (simp add: mem_write_def)

lemma mem_write_inside: "i < length bs \<Longrightarrow> i < 18446744073709551616 \<Longrightarrow> mem_write a bs m (a + of_nat i) = bs ! i"
  by (simp add: mem_write_def)

lemma mem_read_write: "length bs \<le> 18446744073709551616 \<Longrightarrow> mem_read a (length bs) (mem_write a bs m) = bs"
  by (rule nth_equalityI) (simp_all add: mem_write_inside)

lemma mem_read_write_outside:
  assumes "\<And>i. i < n \<Longrightarrow> \<not> unat (b + of_nat i - a) < length bs"
  shows "mem_read b n (mem_write a bs m) = mem_read b n m"
  by (rule nth_equalityI) (simp_all add: assms mem_write_outside)

lemma mem_write_append:
  assumes "length xs + length ys \<le> 18446744073709551616"
  shows "mem_write a (xs @ ys) m = mem_write (a + of_nat (length xs)) ys (mem_write a xs m)"
proof
  fix x
  let ?k = "unat (x - a)" and ?n = "length xs"
  show "mem_write a (xs @ ys) m x = mem_write (a + of_nat ?n) ys (mem_write a xs m) x"
  proof (cases "ys = []")
    case False
    then have n: "?n < 18446744073709551616" using assms by (cases ys) auto
    have *: "unat (x - (a + of_nat ?n)) = (if ?n \<le> ?k then ?k - ?n else ?k + 2 ^ 64 - ?n)"
      using unat_sub_if' [of "x - a" "of_nat ?n"] n by (simp add: diff_diff_eq)
    show ?thesis
      using assms n by (auto simp: mem_write_def * nth_append)
  qed simp
qed

lemma mem_read_append:
  "mem_read a (n + k) m = mem_read a n m @ mem_read (a + of_nat n) k m"
  by (rule nth_equalityI) (auto simp: nth_append add.assoc simp flip: of_nat_add)

lemma mem_read_sub:
  "off + k \<le> n \<Longrightarrow> mem_read (a + of_nat off) k m = take k (drop off (mem_read a n m))"
  by (rule nth_equalityI) (auto simp: add.assoc simp flip: of_nat_add)

lemma bit_lt_256: "v < 256 \<Longrightarrow> bit v n \<Longrightarrow> n < 8" for v :: u32
proof (rule ccontr)
  assume "v < 256" and b: "bit v n" and "\<not> n < 8"
  then have v: "take_bit 8 v = v"
    by (simp add: take_bit_eq_mod word_mod_less_divisor mod_word_less)
  have "\<not> bit (take_bit 8 v) n" using \<open>\<not> n < 8\<close> by (simp add: bit_take_bit_iff)
  with b show False by (simp add: v)
qed

lemma unat_drop_bit_div: "unat (drop_bit n w) = unat w div 2 ^ n" for w :: "'a::len word"
  by (simp only: unat_drop_bit_eq) (simp only: drop_bit_eq_div)

lemma le_nat_nth: "i < length bs \<Longrightarrow> le_nat bs div 256 ^ i mod 256 = unat (bs ! i)"
proof (induction bs arbitrary: i)
  case (Cons b bs)
  have b: "unat b < 256" by simp
  then have "(unat b + 256 * le_nat bs) div 256 = le_nat bs" by simp
  with Cons b show ?case
    by (cases i) (simp_all add: div_mult2_eq)
qed simp

lemma le_bytes_nth: "i < n \<Longrightarrow> le_bytes n v ! i = of_nat (v div 256 ^ i mod 256)"
proof (induction n arbitrary: v i)
  case (Suc n)
  then show ?case by (cases i) (simp_all add: div_mult2_eq)
qed simp

lemma of_nat_byte: "of_nat (n mod 256) = (of_nat n :: u8)"
  by (simp add: word_of_nat_eq_iff take_bit_eq_mod)

lemma le_bytes_byte: "i < n \<Longrightarrow> le_bytes n (unat w) ! i = ucast (drop_bit (8 * i) w)" for w :: "'a::len word"
proof -
  assume "i < n"
  then have "le_bytes n (unat w) ! i = of_nat (unat w div 256 ^ i)"
    by (simp add: le_bytes_nth of_nat_byte)
  also have "\<dots> = of_nat (drop_bit (8 * i) (unat w))"
    by (simp add: drop_bit_eq_div power_mult)
  also have "\<dots> = of_nat (unat (drop_bit (8 * i) w))"
    by (simp add: unat_drop_bit_eq)
  finally show ?thesis by simp
qed

lemma load32_byte:
  assumes "i < 4"
  shows "ucast (drop_bit (8 * i) (load32 a m)) = m (a + of_nat i)"
proof -
  let ?bs = "mem_read a 4 m"
  have lt: "le_nat ?bs < 2 ^ 32" using le_nat_bound [of ?bs] by simp
  have "ucast (drop_bit (8 * i) (load32 a m)) = (of_nat (unat (drop_bit (8 * i) (load32 a m))) :: u8)"
    by simp
  also have "unat (drop_bit (8 * i) (load32 a m)) = le_nat ?bs div 256 ^ i"
    using lt by (simp add: load32_def unat_drop_bit_div power_mult)
  also have "of_nat (le_nat ?bs div 256 ^ i) = (of_nat (unat (?bs ! i)) :: u8)"
    using le_nat_nth [of i ?bs] assms by (metis length_mem_read of_nat_byte)
  finally show ?thesis using assms by simp
qed

lemma bit_load32: "i < 4 \<Longrightarrow> j < 8 \<Longrightarrow> bit (load32 a m) (8 * i + j) = bit (m (a + of_nat i)) j"
  by (simp flip: load32_byte add: bit_simps)

lemma align4: "unat (p AND 3) < 4" "(p AND NOT 3) + of_nat (unat (p AND 3)) = p" for p :: u64
proof -
  have "p AND 3 = take_bit 2 p" by (simp add: take_bit_eq_mask mask_eq_exp_minus_1)
  then show "unat (p AND 3) < 4" using take_bit_nat_less_exp [of 2 "unat p"] by (simp add: unsigned_take_bit_eq)
  have "(p AND NOT 3) + (p AND 3) = (p AND NOT 3) OR (p AND 3)"
    by (rule disjunctive_add_eq_or) (simp add: bit_eq_iff bit_simps)
  also have "\<dots> = p" by (simp flip: bit.conj_disj_distrib)
  finally show "(p AND NOT 3) + of_nat (unat (p AND 3)) = p" by simp
qed

lemma bLoad8_byte: "bLoad8 p m = ucast (m p)"
proof -
  let ?i = "unat (p AND 3)"
  have sh: "unat (push_bit 3 (p AND 3)) = 8 * ?i"
    using align4(1) [of p] by (simp add: push_bit_eq_mult unat_word_ariths)
  have FF: "(0xFF :: u32) = mask 8" by (simp add: mask_eq_exp_minus_1)
  have "bLoad8 p m = ucast (ucast (drop_bit (8 * ?i) (load32 (p AND NOT 3) m)) :: u8)"
    unfolding bLoad8_def Let_def sh FF by (auto simp: bit_eq_iff bit_simps)
  also have "ucast (drop_bit (8 * ?i) (load32 (p AND NOT 3) m)) = m p"
    using align4 [of p] by (simp add: load32_byte)
  finally show ?thesis .
qed


lemma ucast_load64: "ucast (load64 a m) = load32 a m"
proof -
  have "le_nat (mem_read a 8 m) = le_nat (mem_read a 4 m) + 2 ^ 32 * le_nat (mem_read (a + 4) 4 m)"
    using mem_read_append [of a 4 4 m] by (simp add: mem_read_def upt_rec)
  moreover have "(of_nat (x + 2 ^ 32 * y) :: u32) = of_nat x" for x y
    by (subst word_of_nat_eq_iff) (simp add: take_bit_eq_mod)
  ultimately have "of_nat (le_nat (mem_read a 8 m)) = (of_nat (le_nat (mem_read a 4 m)) :: u32)"
    by (simp only:)
  moreover have "(ucast (of_nat n :: u64) :: u32) = of_nat n" for n
    by (simp add: bit_eq_iff bit_simps)
  ultimately show ?thesis by (simp add: load64_def load32_def)
qed

lemma bStor8_byte:
  assumes "val < 256"
  shows "bStor8 p val m = m(p := ucast val)"
proof -
  let ?i = "unat (p AND 3)" and ?a = "p AND NOT 3"
  let ?w = "(load32 ?a m AND NOT (push_bit (8 * ?i) 0xFF)) OR push_bit (8 * ?i) val"
  have sh: "unat (push_bit 3 (p AND 3)) = 8 * ?i"
    using align4(1) [of p] by (simp add: push_bit_eq_mult unat_word_ariths)
  have FF: "(0xFF :: u32) = mask 8" by (simp add: mask_eq_exp_minus_1)
  have byte: "ucast (drop_bit (8 * k) ?w) = (if k = ?i then ucast val else m (?a + of_nat k))"
    if "k < 4" for k
  proof (rule bit_word_eqI)
    fix j assume "j < LENGTH(8)"
    then have j: "j < 8" and kj: "8 * k + j < 32" using that by simp_all
    have le: "8 * ?i \<le> 8 * k + j \<and> 8 * k + j - 8 * ?i < 8 \<longleftrightarrow> k = ?i" using j by auto
    show "bit (ucast (drop_bit (8 * k) ?w) :: u8) j = bit (if k = ?i then ucast val else m (?a + of_nat k)) j"
      using that j kj le bit_lt_256 [OF assms, of "8 * k + j - 8 * ?i"]
      unfolding FF by (auto simp: bit_simps bit_load32)
  qed
  show ?thesis
  proof
    fix x
    have i: "?i < 4" and d: "p - ?a = p AND 3"
      using align4 [of p] by (simp_all add: diff_eq_eq add.commute)
    show "bStor8 p val m x = (m(p := ucast val)) x"
    proof (cases "unat (x - ?a) < 4")
      case True
      let ?k = "unat (x - ?a)"
      have x: "x = ?a + of_nat ?k" by simp
      have "bStor8 p val m x = ucast (drop_bit (8 * ?k) ?w)"
        using True unfolding bStor8_def Let_def sh ucast_load64 store32_def mem_write_def
        by (simp add: le_bytes_byte)
      moreover have "x = p \<longleftrightarrow> ?k = ?i"
        using d by (metis diff_add_cancel unsigned_word_eqI)
      ultimately show ?thesis using byte [OF True] x by simp
    next
      case False
      then have "x \<noteq> p" using i d by auto
      with False show ?thesis
        unfolding bStor8_def Let_def store32_def by (simp add: mem_write_def)
    qed
  qed
qed

subsubsection \<open>qmemset\<close>

lemma bit_value32_of:
  assumes "val < 256" and "i < 4" and "j < 8"
  shows "bit (value32_of val) (8 * i + j) = bit val j"
proof -
  have "i = 0 \<or> i = 1 \<or> i = 2 \<or> i = 3" using assms(2) by auto
  with assms(3) bit_lt_256 [OF assms(1)] show ?thesis
    by (fastforce simp: value32_of_def bit_simps)
qed

lemma le_bytes_value32:
  assumes "val < 256"
  shows "le_bytes 4 (unat (value32_of val)) = replicate 4 (ucast val)"
  using assms by (intro nth_equalityI)
    (simp_all add: le_bytes_byte bit_eq_iff bit_simps bit_value32_of)

lemma bit_value64_of:
  assumes "val < 256" and "i < 8" and "j < 8"
  shows "bit (value64_of val) (8 * i + j) = bit val j"
proof (cases "i < 4")
  case True
  with assms show ?thesis
    by (simp add: value64_of_def bit_simps bit_value32_of)
next
  case False
  then obtain k where i: "i = k + 4" using le_Suc_ex [of 4 i] by (auto simp: add.commute)
  have big: "\<not> bit (value32_of val) (8 * (k + 4) + j)"
    by (rule impossible_bit) simp
  have "8 * (k + 4) + j - 32 = 8 * k + j" by simp
  with big assms show ?thesis
    by (simp add: value64_of_def bit_simps bit_value32_of i)
qed

lemma le_bytes_value64:
  "val < 256 \<Longrightarrow> le_bytes 8 (unat (value64_of val)) = replicate 8 (ucast val)"
  by (intro nth_equalityI)
    (simp_all add: le_bytes_byte bit_eq_iff bit_simps bit_value64_of)

lemma mem_write_replicate_add:
  assumes "n + k \<le> 18446744073709551616"
  shows "mem_write (a + of_nat n) (replicate k b) (mem_write a (replicate n b) m)
    = mem_write a (replicate (n + k) b) m"
  using mem_write_append [of "replicate n b" "replicate k b" a m] assms
  by (simp add: replicate_add)

lemma qmemset_loop8_fill:
  "qmemset_loop8 p val len m = mem_write p (replicate (unat len) (ucast val)) m"
proof (induction p val len m rule: qmemset_loop8.induct)
  case (1 p val len m)
  show ?case
  proof (cases "len > 0")
    case True
    then have *: "unat len = 1 + unat (len - 1)"
      by (simp add: unat_sub word_less_nat_alt word_le_nat_alt Suc_leI)
    have "m(p := ucast val) = mem_write p (replicate 1 (ucast val)) m"
      by (auto simp: mem_write_def fun_eq_iff unat_eq_zero)
    then show ?thesis
      using 1 True mem_write_replicate_add [of 1 "unat (len - 1)" p "ucast val" m] *
        unat32_lt [of len]
      by (subst qmemset_loop8.simps) (simp del: unat32_lt replicate.simps)
  next
    case False
    then have "len = 0" by (simp add: word_gt_0)
    then show ?thesis by (subst qmemset_loop8.simps) simp
  qed
qed

lemma qmemset_loop64_fill:
  assumes "val < 256"
  shows "qmemset_loop64 p (value64_of val) len m = (p', len', m') \<Longrightarrow>
    \<exists>n. unat len = n + unat len' \<and> p' = p + of_nat n \<and>
        m' = mem_write p (replicate n (ucast val)) m"
proof (induction p "value64_of val" len m arbitrary: p' len' m' rule: qmemset_loop64.induct)
  case (1 p len m)
  show ?case
  proof (cases "len \<ge> 8")
    case True
    then have len: "unat len = 8 + unat (len - 8)"
      by (simp add: unat_sub word_le_nat_alt)
    have st: "store64 p (value64_of val) m = mem_write p (replicate 8 (ucast val)) m"
      by (simp add: store64_def le_bytes_value64 [OF assms])
    from 1 True obtain n where n: "unat (len - 8) = n + unat len'" "p' = p + 8 + of_nat n"
      "m' = mem_write (p + 8) (replicate n (ucast val)) (store64 p (value64_of val) m)"
      by (metis qmemset_loop64.simps)
    have "8 + n \<le> 18446744073709551616" using len n(1) unat32_lt [of len] by linarith
    then have "m' = mem_write p (replicate (8 + n) (ucast val)) m"
      using n(3) mem_write_replicate_add [of 8 n p "ucast val" m] by (simp add: st)
    with len n(1,2) show ?thesis by (intro exI [of _ "8 + n"]) simp
  next
    case False
    with 1(2) show ?thesis by (intro exI [of _ 0]) (simp add: qmemset_loop64.simps)
  qed
qed

lemma qmemset_loop32_fill:
  assumes "val < 256"
  shows "qmemset_loop32 p (value32_of val) len m = (p', len', m') \<Longrightarrow>
    \<exists>n. unat len = n + unat len' \<and> p' = p + of_nat n \<and>
        m' = mem_write p (replicate n (ucast val)) m"
proof (induction p "value32_of val" len m arbitrary: p' len' m' rule: qmemset_loop32.induct)
  case (1 p len m)
  show ?case
  proof (cases "len \<ge> 4")
    case True
    then have len: "unat len = 4 + unat (len - 4)"
      by (simp add: unat_sub word_le_nat_alt)
    have st: "store32 p (value32_of val) m = mem_write p (replicate 4 (ucast val)) m"
      by (simp add: store32_def le_bytes_value32 [OF assms])
    from 1 True obtain n where n: "unat (len - 4) = n + unat len'" "p' = p + 4 + of_nat n"
      "m' = mem_write (p + 4) (replicate n (ucast val)) (store32 p (value32_of val) m)"
      by (metis qmemset_loop32.simps)
    have "4 + n \<le> 18446744073709551616" using len n(1) unat32_lt [of len] by linarith
    then have "m' = mem_write p (replicate (4 + n) (ucast val)) m"
      using n(3) mem_write_replicate_add [of 4 n p "ucast val" m] by (simp add: st)
    with len n(1,2) show ?thesis by (intro exI [of _ "4 + n"]) simp
  next
    case False
    with 1(2) show ?thesis by (intro exI [of _ 0]) (simp add: qmemset_loop32.simps)
  qed
qed

lemma fill_then_bytes:
  assumes "unat (len :: u32) = n + unat len'"
  shows "qmemset_loop8 (p + of_nat n) val len' (mem_write p (replicate n (ucast val)) m)
    = mem_write p (replicate (unat len) (ucast val)) m"
proof -
  have "n + unat len' \<le> 18446744073709551616" using assms unat32_lt [of len] by linarith
  then show ?thesis
    using assms by (simp add: qmemset_loop8_fill mem_write_replicate_add)
qed

lemma qmemset_fill:
  assumes "val < 256"
  shows "qmemset dst_ptr val len m = mem_write dst_ptr (replicate (unat len) (ucast val)) m"
  using qmemset_loop64_fill [OF assms, of dst_ptr len m] qmemset_loop32_fill [OF assms, of dst_ptr len m]
  by (auto simp: qmemset_def qmemset_loop8_fill fill_then_bytes split: prod.splits)
    (metis fill_then_bytes qmemset_loop8_fill)+


subsubsection \<open>bByteCompare, boot\_strlen and boot\_count\_set\_bits\<close>

lemma unat_ucast_8_32 [simp]: "unat (ucast (x :: u8) :: u32) = unat x"
  using unat8_lt [of x] by (simp add: unsigned_ucast_eq take_bit_eq_mod del: unat8_lt)

lemma bLoad8_eq_iff: "bLoad8 p m = bLoad8 q m \<longleftrightarrow> m p = m q"
proof -
  have "(ucast (x :: u8) :: u32) = ucast y \<longleftrightarrow> x = y" for x y
    by (metis unat_ucast_8_32 unsigned_word_eqI)
  then show ?thesis by (simp add: bLoad8_byte)
qed

lemma bByteCompare_loop_equal:
  "bByteCompare_loop i (i + int n) p q m = 0" if "\<forall>k < n. m (p + of_nat k) = m (q + of_nat k)"
  using that
proof (induction n arbitrary: i p q)
  case 0
  then show ?case by (simp add: bByteCompare_loop.simps)
next
  case (Suc n)
  have "m p = m q" using Suc.prems [rule_format, of 0] by simp
  moreover have "\<forall>k < n. m (p + 1 + of_nat k) = m (q + 1 + of_nat k)"
    using Suc.prems [rule_format, of "Suc k" for k] by (simp add: add.assoc)
  ultimately show ?case
    using Suc.IH [of "p + 1" "q + 1" "i + 1"]
    by (subst bByteCompare_loop.simps) (simp add: bLoad8_eq_iff add.assoc)
qed

lemma bByteCompare_loop_differ:
  assumes "\<forall>k < d. m (p + of_nat k) = m (q + of_nat k)"
    and "m (p + of_nat d) \<noteq> m (q + of_nat d)" and "d < n"
  shows "bByteCompare_loop i (i + int n) p q m = of_int (i + int d + 1)"
  using assms
proof (induction d arbitrary: i p q n)
  case 0
  then show ?case
    by (subst bByteCompare_loop.simps) (simp add: bLoad8_eq_iff)
next
  case (Suc d)
  have "m p = m q" using Suc.prems(1) [rule_format, of 0] by simp
  moreover have "\<forall>k < d. m (p + 1 + of_nat k) = m (q + 1 + of_nat k)"
    using Suc.prems(1) [rule_format, of "Suc k" for k] by (simp add: add.assoc)
  moreover have "m (p + 1 + of_nat d) \<noteq> m (q + 1 + of_nat d)"
    using Suc.prems(2) by (simp add: add.assoc)
  moreover obtain n' where "n = Suc n'" "d < n'" using Suc.prems(3) by (cases n) auto
  ultimately show ?case
    using Suc.IH [of "p + 1" "q + 1" n' "i + 1"]
    by (subst bByteCompare_loop.simps) (simp add: bLoad8_eq_iff algebra_simps)
qed

lemma boot_strlen_loop_found:
  assumes "\<forall>k < n. m (p + of_nat k) \<noteq> 0" and "m (p + of_nat n) = 0"
  shows "boot_strlen_loop p m = Some (p + of_nat n)"
  using assms
proof (induction n arbitrary: p)
  case 0
  then show ?case by (simp add: boot_strlen_loop.simps)
next
  case (Suc n)
  have "m p \<noteq> 0" using Suc.prems(1) [rule_format, of 0] by simp
  moreover have "\<forall>k < n. m (p + 1 + of_nat k) \<noteq> 0"
    using Suc.prems(1) [rule_format, of "Suc k" for k] by (simp add: add.assoc)
  ultimately show ?case
    using Suc.IH [of "p + 1"] Suc.prems(2)
    by (subst boot_strlen_loop.simps) (simp add: add.assoc)
qed

lemma pop_count_nat_and_pred: "0 < n \<Longrightarrow> pop_count_nat n = Suc (pop_count_nat (n AND (n - 1)))"
proof (induction n rule: less_induct)
  case (less n)
  show ?case
  proof (cases "even n")
    case True
    then obtain k where n: "n = 2 * k" by blast
    with less.prems have k: "0 < k" "k < n" by simp_all
    have "n - 1 = 1 + 2 * (k - 1)" using n k by simp
    then have "n AND (n - 1) = 2 * (k AND (k - 1))"
      using n and_rec [of "2 * k" "1 + 2 * (k - 1)"] by simp
    then show ?thesis
      using less.IH [OF k(2,1)] n k by (simp add: pop_count_nat.simps [of n] pop_count_nat.simps [of 0]
        pop_count_nat.simps [of "2 * x" for x])
  next
    case False
    then obtain k where n: "n = 2 * k + 1" by (auto elim: oddE)
    then have "n AND (n - 1) = 2 * k"
      using and_rec [of "2 * k + 1" "2 * k"] by simp
    moreover have "pop_count_nat (2 * k) = pop_count_nat k"
      by (simp add: pop_count_nat.simps [of "2 * k"] pop_count_nat.simps [of 0])
    moreover have "pop_count_nat n = Suc (pop_count_nat k)"
      using n by (subst pop_count_nat.simps) simp
    ultimately show ?thesis by simp
  qed
qed

lemma pop_count_nat_card: "pop_count_nat n = card {i. bit n i} \<and> finite {i. bit n i}"
proof (induction n rule: less_induct)
  case (less n)
  show ?case
  proof (cases "n = 0")
    case True
    then show ?thesis by (simp add: pop_count_nat.simps)
  next
    case False
    then have IH: "pop_count_nat (n div 2) = card {i. bit (n div 2) i}" "finite {i. bit (n div 2) i}"
      using less [of "n div 2"] by simp_all
    have split: "{i. bit n i} = (if odd n then {0} else {}) \<union> Suc ` {i. bit (n div 2) i}"
      by (auto simp: image_iff bit_Suc bit_0 gr0_conv_Suc) (metis bit_0 bit_Suc not0_implies_Suc)+
    have "card (Suc ` {i. bit (n div 2) i}) = card {i. bit (n div 2) i}"
      by (simp add: card_image)
    moreover have "n mod 2 = (if odd n then 1 else 0)" by presburger
    ultimately show ?thesis
      using False IH by (subst pop_count_nat.simps) (auto simp: split card_insert_if)
  qed
qed

lemma boot_count_set_bits_loop_pop:
  "boot_count_set_bits_loop v c = c + of_nat (pop_count_nat (unat v))"
proof (induction v c rule: boot_count_set_bits_loop.induct)
  case (1 v c)
  show ?case
  proof (cases "v = 0")
    case True
    then show ?thesis by (simp add: boot_count_set_bits_loop.simps pop_count_nat.simps)
  next
    case False
    then have "unat (v AND (v - 1)) = unat v AND (unat v - 1)"
      by (simp add: unsigned_and_eq unat_sub word_le_nat_alt Suc_leI unat_gt_0)
    with 1 False pop_count_nat_and_pred [of "unat v"] show ?thesis
      by (subst boot_count_set_bits_loop.simps) (simp add: unat_gt_0)
  qed
qed

subsection \<open>Correctness of the utilities\<close>

text \<open>
  \<^verbatim>\<open>qmemset\<close> fills in words of 8 or 4 bytes when the destination is aligned and finishes
  with bytes; for every byte value it writes exactly the \<^verbatim>\<open>len\<close> bytes from \<^verbatim>\<open>dst_ptr\<close> on.
\<close>

theorem qmemset_correct:
  assumes "val < 256"
  shows "qmemset dst_ptr val len m = mem_write dst_ptr (replicate (unat len) (ucast val)) m"
  by (rule qmemset_fill [OF assms])

theorem qmemset_correct_witness:
  "qmemset 0x1000 0xAB 13 (\<lambda>_. 0) =
     mem_write 0x1000 (replicate (unat (13 :: u32)) (ucast (0xAB :: u32))) (\<lambda>_. 0)"
  by (rule qmemset_correct) simp

text \<open>
  \<^verbatim>\<open>bByteCompare\<close> on a length that fits a signed 32-bit integer returns 0 when the
  buffers agree and otherwise one more than the index of the first difference.
\<close>

theorem bByteCompare_correct:
  assumes "unat byte_len < 2 ^ 31"
  shows "bByteCompare p q byte_len m =
    (case find (\<lambda>k. m (p + of_nat k) \<noteq> m (q + of_nat k)) [0..<unat byte_len] of
       None \<Rightarrow> 0 | Some k \<Rightarrow> of_nat (k + 1))"
proof -
  have sint: "sint byte_len = int (unat byte_len)"
  proof -
    have "uint byte_len < 2 ^ 31" using of_nat_less_iff [where 'a = int, THEN iffD2, OF assms] by simp
    moreover have "- (2 ^ 31) \<le> uint byte_len" by (rule order_trans [of _ 0]) simp_all
    ultimately have "signed_take_bit 31 (uint byte_len) = uint byte_len"
      by (intro signed_take_bit_int_eq_self)
    then show ?thesis by (simp add: sint_uint)
  qed
  show ?thesis
  proof (cases "find (\<lambda>k. m (p + of_nat k) \<noteq> m (q + of_nat k)) [0..<unat byte_len]")
    case None
    then have "\<forall>k < unat byte_len. m (p + of_nat k) = m (q + of_nat k)"
      by (auto simp: find_None_iff)
    then show ?thesis
      using bByteCompare_loop_equal [of "unat byte_len" m p q 0] None
      by (simp add: bByteCompare_def sint)
  next
    case (Some d)
    then have "d < unat byte_len" "\<forall>k < d. m (p + of_nat k) = m (q + of_nat k)"
      "m (p + of_nat d) \<noteq> m (q + of_nat d)"
      by (auto simp: find_Some_iff)
    then show ?thesis
      using bByteCompare_loop_differ [of d m p q "unat byte_len" 0] Some
      by (simp add: bByteCompare_def sint)
  qed
qed

theorem bByteCompare_correct_witness:
  "bByteCompare 0x100 0x200 3 (\<lambda>a. if a = 0x202 then 1 else 0) =
    (case find (\<lambda>k. (if 0x100 + of_nat k = (0x202 :: u64) then 1 else 0 :: u8) \<noteq>
                     (if 0x200 + of_nat k = (0x202 :: u64) then 1 else 0)) [0..<unat (3 :: u32)] of
       None \<Rightarrow> 0 | Some k \<Rightarrow> of_nat (k + 1))"
  by (rule bByteCompare_correct) simp

text \<open>
  The length is compared as a signed integer: from 2 GB on no byte is looked at and the
  buffers count as equal.
\<close>

lemma bByteCompare_signed_length:
  assumes "2 ^ 31 \<le> unat byte_len"
  shows "bByteCompare p q byte_len m = 0"
proof -
  have "bit byte_len 31"
  proof (rule ccontr)
    assume "\<not> bit byte_len 31"
    then have "n < 31" if "bit byte_len n" for n
      using that bit_imp_le_length [OF that] by (cases "n = 31") simp_all
    then have "take_bit 31 byte_len = byte_len"
      by (auto simp: bit_eq_iff bit_simps)
    then have "unat byte_len = take_bit 31 (unat byte_len)"
      by (metis unsigned_take_bit_eq)
    then show False using assms take_bit_nat_less_exp [of 31 "unat byte_len"] by simp
  qed
  then have "sint byte_len < 0"
    by (simp add: sint_uint signed_take_bit_negative_iff bit_uint_iff)
  then show ?thesis by (simp add: bByteCompare_def bByteCompare_loop.simps)
qed

text \<open>
  A byte stored by \<^verbatim>\<open>bStor8\<close> through its aligned 32-bit word is the one \<^verbatim>\<open>bLoad8\<close>
  returns, and no other byte of memory changes.
\<close>

theorem bStor8_bLoad8:
  assumes "val < 256"
  shows "bLoad8 q (bStor8 p val m) = (if q = p then val else bLoad8 q m)"
proof -
  have "ucast (ucast val :: u8) = val"
    using bit_lt_256 [OF assms] by (auto simp: bit_eq_iff bit_simps)
  then show ?thesis by (simp add: bStor8_byte [OF assms] bLoad8_byte)
qed

theorem bStor8_bLoad8_witness:
  "bLoad8 0x1003 (bStor8 0x1002 0x7F (\<lambda>_. 1)) =
     (if (0x1003 :: u64) = 0x1002 then 0x7F else bLoad8 0x1003 (\<lambda>_. 1))"
  by (rule bStor8_bLoad8) simp

text \<open>\<^verbatim>\<open>boot_count_set_bits\<close> ends on every input and counts the one bits.\<close>

theorem boot_count_set_bits_correct:
  "boot_count_set_bits input_val = of_nat (card {i. bit input_val i})"
proof -
  have "{i. bit (unat input_val) i} = {i. bit input_val i}"
    by (auto simp: bit_unsigned_iff dest: bit_imp_le_length)
  then show ?thesis
    by (simp add: boot_count_set_bits_def boot_count_set_bits_loop_pop pop_count_nat_card)
qed

text \<open>
  \<^verbatim>\<open>boot_strlen\<close> returns on a terminated string, with the number of bytes before the
  terminator, reduced to 32 bits.
\<close>

theorem boot_strlen_correct:
  assumes "\<forall>k < n. m (str + of_nat k) \<noteq> 0" and "m (str + of_nat n) = 0"
  shows "boot_strlen str m = Some (ucast (of_nat n :: u64))"
  by (simp add: boot_strlen_def boot_strlen_loop_found [OF assms])

theorem boot_strlen_correct_witness:
  "boot_strlen 8 (\<lambda>a. if a = 8 \<or> a = 9 then 65 else 0) = Some (ucast (of_nat 2 :: u64))"
  by (rule boot_strlen_correct) (simp_all add: less_2_cases_iff)

end
