(* ===== verification/Whitelist.thy ===== *)
theory Whitelist
  imports Boot_Monad Boot_Util
begin

text \<open>
  The whitelist protection of boot\_whitelist\_prot.c: two static tables of address
  ranges, one for image bodies and one for header and meta data, against which every
  destination of a flash read is checked. The two groups of operations share a contract,
  stated as a locale and interpreted on both; the check is shown to be inclusion in a
  range of the active table. A caller's table is the list of the entries of its array
  object; reading behind the array is the fault of undefined behaviour.
\<close>

record whitelst_tbl_entry =
  start_addr :: u64
  entry_size :: u64

record whitelist_table =
  num_valid_entries :: u64
  entries :: "whitelst_tbl_entry list"

record whl_state = mem_state +
  curr_image_whitelst_tbl :: whitelist_table
  hdr_meta_whitelst_tbl :: whitelist_table

type_synonym buffer_type = u32

abbreviation (input) IMAGE_BODY_TYPE :: buffer_type where "IMAGE_BODY_TYPE \<equiv> 1"
abbreviation (input) HDR_META_INFO_TYPE :: buffer_type where "HDR_META_INFO_TYPE \<equiv> 2"

abbreviation MAX_WHITELIST_TABLE_ENTRIES :: u64 where "MAX_WHITELIST_TABLE_ENTRIES \<equiv> 20"

definition zero_entry :: whitelst_tbl_entry where
  "zero_entry = \<lparr>start_addr = 0, entry_size = 0\<rparr>"

definition zero_table :: whitelist_table where
  "zero_table = \<lparr>num_valid_entries = 0, entries = replicate 20 zero_entry\<rparr>"

definition put_entry :: "u64 \<Rightarrow> u64 \<Rightarrow> u64 \<Rightarrow> whitelist_table \<Rightarrow> whitelist_table" where
  "put_entry i a z t =
     t\<lparr>entries := (entries t)[unat i := \<lparr>start_addr = a, entry_size = z\<rparr>]\<rparr>"

subsection \<open>The image whitelist\<close>

definition boot_invalidate_img_whitelist :: "('a whl_state_scheme, unit) boot" where
  "boot_invalidate_img_whitelist = modify (\<lambda>s. s\<lparr>curr_image_whitelst_tbl := zero_table\<rparr>)"

fun set_active_img_loop :: "whitelst_tbl_entry list \<Rightarrow> u64 \<Rightarrow> ('a whl_state_scheme, bool) boot" where
  "set_active_img_loop [] entry_num = fatal Undefined_behaviour"
| "set_active_img_loop (e # es) entry_num =
     (if entry_size e = 0 \<or> entry_num \<ge> MAX_WHITELIST_TABLE_ENTRIES then
        (if entry_num > 0 then
           thn (modify (curr_image_whitelst_tbl_update
                  (\<lambda>t. t\<lparr>num_valid_entries := entry_num\<rparr>))) (ret True)
         else ret False)
      else if start_addr e + entry_size e < start_addr e then
        thn boot_invalidate_img_whitelist (ret False)
      else
        thn (modify (curr_image_whitelst_tbl_update
               (put_entry entry_num (start_addr e) (entry_size e))))
          (set_active_img_loop es (entry_num + 1)))"

definition boot_set_active_img_whitelist_table ::
  "whitelst_tbl_entry list option \<Rightarrow> ('a whl_state_scheme, bool) boot" where
  "boot_set_active_img_whitelist_table whtlst_tbl_array_ptr =
     (case whtlst_tbl_array_ptr of
        None \<Rightarrow> ret False
      | Some tbl \<Rightarrow> thn boot_invalidate_img_whitelist (set_active_img_loop tbl 0))"

definition boot_set_entry_as_img_whitelist :: "u64 \<Rightarrow> u64 \<Rightarrow> ('a whl_state_scheme, bool) boot" where
  "boot_set_entry_as_img_whitelist a sz =
     (if sz = 0 \<or> a + sz < a then ret False
      else boot_set_active_img_whitelist_table
             (Some [\<lparr>start_addr = a, entry_size = sz\<rparr>, \<lparr>start_addr = 0, entry_size = 0\<rparr>]))"

definition boot_add_entry_to_active_img_whtlst :: "u64 \<Rightarrow> u64 \<Rightarrow> ('a whl_state_scheme, bool) boot" where
  "boot_add_entry_to_active_img_whtlst a sz =
     bnd (gets (\<lambda>s. num_valid_entries (curr_image_whitelst_tbl s))) (\<lambda>n.
       if sz = 0 \<or> a + sz < a \<or> n \<ge> MAX_WHITELIST_TABLE_ENTRIES then ret False
       else thn (modify (curr_image_whitelst_tbl_update
              (\<lambda>t. (put_entry n a sz t)\<lparr>num_valid_entries := n + 1\<rparr>))) (ret True))"

subsection \<open>The header and meta data whitelist\<close>

definition boot_invalidate_hdr_meta_whitelist :: "('a whl_state_scheme, unit) boot" where
  "boot_invalidate_hdr_meta_whitelist = modify (\<lambda>s. s\<lparr>hdr_meta_whitelst_tbl := zero_table\<rparr>)"

fun set_active_hdr_meta_loop :: "whitelst_tbl_entry list \<Rightarrow> u64 \<Rightarrow> ('a whl_state_scheme, bool) boot" where
  "set_active_hdr_meta_loop [] entry_num = fatal Undefined_behaviour"
| "set_active_hdr_meta_loop (e # es) entry_num =
     (if start_addr e = 0 \<or> entry_size e = 0 \<or> entry_num \<ge> MAX_WHITELIST_TABLE_ENTRIES then
        (if entry_num > 0 then
           thn (modify (hdr_meta_whitelst_tbl_update
                  (\<lambda>t. t\<lparr>num_valid_entries := entry_num\<rparr>))) (ret True)
         else ret False)
      else if start_addr e + entry_size e < start_addr e then
        thn boot_invalidate_hdr_meta_whitelist (ret False)
      else
        thn (modify (hdr_meta_whitelst_tbl_update
               (put_entry entry_num (start_addr e) (entry_size e))))
          (set_active_hdr_meta_loop es (entry_num + 1)))"

definition boot_set_active_hdr_meta_whitelist_table ::
  "whitelst_tbl_entry list option \<Rightarrow> ('a whl_state_scheme, bool) boot" where
  "boot_set_active_hdr_meta_whitelist_table whtlst_tbl_array_ptr =
     (case whtlst_tbl_array_ptr of
        None \<Rightarrow> ret False
      | Some tbl \<Rightarrow> thn boot_invalidate_hdr_meta_whitelist (set_active_hdr_meta_loop tbl 0))"

definition boot_set_entry_as_hdr_meta_whitelist :: "u64 \<Rightarrow> u64 \<Rightarrow> ('a whl_state_scheme, bool) boot" where
  "boot_set_entry_as_hdr_meta_whitelist a sz =
     (if a = 0 \<or> sz = 0 \<or> a + sz < a then ret False
      else boot_set_active_hdr_meta_whitelist_table
             (Some [\<lparr>start_addr = a, entry_size = sz\<rparr>, \<lparr>start_addr = 0, entry_size = 0\<rparr>]))"

definition boot_add_entry_to_hdr_meta_whtlst :: "u64 \<Rightarrow> u64 \<Rightarrow> ('a whl_state_scheme, bool) boot" where
  "boot_add_entry_to_hdr_meta_whtlst a sz =
     bnd (gets (\<lambda>s. num_valid_entries (hdr_meta_whitelst_tbl s))) (\<lambda>n.
       if a = 0 \<or> sz = 0 \<or> a + sz < a \<or> n \<ge> MAX_WHITELIST_TABLE_ENTRIES then ret False
       else thn (modify (hdr_meta_whitelst_tbl_update
              (\<lambda>t. (put_entry n a sz t)\<lparr>num_valid_entries := n + 1\<rparr>))) (ret True))"

subsection \<open>The check\<close>

definition entry_covers :: "u64 \<Rightarrow> u64 \<Rightarrow> whitelst_tbl_entry \<Rightarrow> bool" where
  "entry_covers a sz e \<longleftrightarrow>
     start_addr e \<le> a \<and> a \<le> start_addr e + entry_size e \<and> a + sz \<le> start_addr e + entry_size e"

text \<open>
  The loop over the first \<^verbatim>\<open>num_valid_entries\<close> entries; \<open>None\<close> when it would read behind the
  array.
\<close>

fun check_range_loop :: "u64 \<Rightarrow> u64 \<Rightarrow> nat \<Rightarrow> whitelst_tbl_entry list \<Rightarrow> bool option" where
  "check_range_loop a sz 0 es = Some False"
| "check_range_loop a sz (Suc n) [] = None"
| "check_range_loop a sz (Suc n) (e # es) =
     (if entry_covers a sz e then Some True else check_range_loop a sz n es)"

definition check_range_against_whtlst :: "u64 \<Rightarrow> u64 \<Rightarrow> whitelist_table \<Rightarrow> bool option" where
  "check_range_against_whtlst a sz whitelist =
     (if sz = 0 \<or> a + sz < a then Some False
      else if num_valid_entries whitelist > 0 then
        check_range_loop a sz (unat (num_valid_entries whitelist)) (entries whitelist)
      else Some False)"

definition boot_whitelist_address_range_check ::
  "u64 \<Rightarrow> u64 \<Rightarrow> buffer_type \<Rightarrow> ('a whl_state_scheme, bool) boot" where
  "boot_whitelist_address_range_check a sz buf_typ =
     (if sz = 0 \<or> a + sz < a then ret False
      else bnd (gets (\<lambda>s.
             if buf_typ = IMAGE_BODY_TYPE then
               check_range_against_whtlst a sz (curr_image_whitelst_tbl s)
             else if buf_typ = HDR_META_INFO_TYPE then
               check_range_against_whtlst a sz (hdr_meta_whitelst_tbl s)
             else Some False))
           (case_option (fatal Undefined_behaviour) ret))"

subsection \<open>Well-formed tables and the ranges they allow\<close>

definition img_admissible :: "u64 \<Rightarrow> u64 \<Rightarrow> bool" where
  "img_admissible a sz \<longleftrightarrow> sz \<noteq> 0 \<and> a \<le> a + sz"

definition hdr_admissible :: "u64 \<Rightarrow> u64 \<Rightarrow> bool" where
  "hdr_admissible a sz \<longleftrightarrow> a \<noteq> 0 \<and> sz \<noteq> 0 \<and> a \<le> a + sz"

definition active :: "whitelist_table \<Rightarrow> whitelst_tbl_entry list" where
  "active t = take (unat (num_valid_entries t)) (entries t)"

definition table_ok :: "(u64 \<Rightarrow> u64 \<Rightarrow> bool) \<Rightarrow> whitelist_table \<Rightarrow> bool" where
  "table_ok adm t \<longleftrightarrow> length (entries t) = 20 \<and> unat (num_valid_entries t) \<le> 20 \<and>
     (\<forall>e \<in> set (active t). adm (start_addr e) (entry_size e))"

definition covers :: "whitelist_table \<Rightarrow> u64 \<Rightarrow> u64 \<Rightarrow> bool" where
  "covers t a sz \<longleftrightarrow> (\<exists>e \<in> set (active t). entry_covers a sz e)"

definition allowed :: "whitelist_table \<Rightarrow> u64 \<Rightarrow> bool" where
  "allowed t x \<longleftrightarrow> (\<exists>e \<in> set (active t). in_range (start_addr e) (entry_size e) x)"

text \<open>The entries a caller's table contributes: those before its terminator, at most 20.\<close>

definition img_prefix :: "whitelst_tbl_entry list \<Rightarrow> whitelst_tbl_entry list" where
  "img_prefix tbl = take 20 (takeWhile (\<lambda>e. entry_size e \<noteq> 0) tbl)"

definition hdr_prefix :: "whitelst_tbl_entry list \<Rightarrow> whitelst_tbl_entry list" where
  "hdr_prefix tbl = take 20 (takeWhile (\<lambda>e. start_addr e \<noteq> 0 \<and> entry_size e \<noteq> 0) tbl)"

definition whitelists_ok :: "'a whl_state_scheme \<Rightarrow> bool" where
  "whitelists_ok s \<longleftrightarrow> table_ok img_admissible (curr_image_whitelst_tbl s) \<and>
     table_ok hdr_admissible (hdr_meta_whitelst_tbl s)"

definition buffer_table :: "buffer_type \<Rightarrow> 'a whl_state_scheme \<Rightarrow> whitelist_table" where
  "buffer_table bt s =
     (if bt = IMAGE_BODY_TYPE then curr_image_whitelst_tbl s
      else if bt = HDR_META_INFO_TYPE then hdr_meta_whitelst_tbl s
      else zero_table)"

definition filled :: "whitelst_tbl_entry list \<Rightarrow> whitelist_table" where
  "filled p = \<lparr>num_valid_entries = of_nat (length p),
               entries = p @ replicate (20 - length p) zero_entry\<rparr>"

definition appended :: "u64 \<Rightarrow> u64 \<Rightarrow> whitelist_table \<Rightarrow> whitelist_table" where
  "appended a sz t = (put_entry (num_valid_entries t) a sz t)
     \<lparr>num_valid_entries := num_valid_entries t + 1\<rparr>"

text \<open>
  The states the whitelist code can reach from the zero-initialised statics, whatever
  operations are called in whatever order, also past a fault.
\<close>

inductive whl_reach :: "'a whl_state_scheme \<Rightarrow> bool" where
  init: "curr_image_whitelst_tbl s = zero_table \<Longrightarrow> hdr_meta_whitelst_tbl s = zero_table \<Longrightarrow>
    whl_reach s"
| set_img: "whl_reach s \<Longrightarrow> whl_reach (final (boot_set_active_img_whitelist_table t) s)"
| set_img_entry: "whl_reach s \<Longrightarrow> whl_reach (final (boot_set_entry_as_img_whitelist a z) s)"
| add_img: "whl_reach s \<Longrightarrow> whl_reach (final (boot_add_entry_to_active_img_whtlst a z) s)"
| inv_img: "whl_reach s \<Longrightarrow> whl_reach (final boot_invalidate_img_whitelist s)"
| set_hdr: "whl_reach s \<Longrightarrow> whl_reach (final (boot_set_active_hdr_meta_whitelist_table t) s)"
| set_hdr_entry: "whl_reach s \<Longrightarrow> whl_reach (final (boot_set_entry_as_hdr_meta_whitelist a z) s)"
| add_hdr: "whl_reach s \<Longrightarrow> whl_reach (final (boot_add_entry_to_hdr_meta_whtlst a z) s)"
| inv_hdr: "whl_reach s \<Longrightarrow> whl_reach (final boot_invalidate_hdr_meta_whitelist s)"
| other: "whl_reach s \<Longrightarrow> curr_image_whitelst_tbl t = curr_image_whitelst_tbl s \<Longrightarrow>
    hdr_meta_whitelst_tbl t = hdr_meta_whitelst_tbl s \<Longrightarrow> whl_reach t"

subsection \<open>Lemmas on tables\<close>

lemma zero_table_filled: "zero_table = filled []"
  by (simp add: zero_table_def filled_def)

lemma active_filled [simp]: "length p \<le> 20 \<Longrightarrow> active (filled p) = p"
  by (simp add: active_def filled_def)

lemma active_zero [simp]: "active zero_table = []"
  by (simp add: zero_table_filled)

lemma table_ok_filled:
  "length p \<le> 20 \<Longrightarrow> table_ok adm (filled p) \<longleftrightarrow> (\<forall>e \<in> set p. adm (start_addr e) (entry_size e))"
  by (simp add: table_ok_def) (simp add: filled_def)

lemma active_appended:
  assumes "table_ok adm t" and "num_valid_entries t < 20"
  shows "active (appended a sz t) = active t @ [\<lparr>start_addr = a, entry_size = sz\<rparr>]"
proof -
  have n: "unat (num_valid_entries t) < 20" "length (entries t) = 20"
    using assms by (simp_all add: table_ok_def word_less_nat_alt)
  then have "unat (num_valid_entries t + 1) = Suc (unat (num_valid_entries t))"
    by (simp add: unat_word_ariths)
  with n show ?thesis
    by (simp add: active_def appended_def put_entry_def take_Suc_conv_app_nth)
qed

lemma table_ok_appended:
  assumes "table_ok adm t" and "num_valid_entries t < 20" and "adm a sz"
  shows "table_ok adm (appended a sz t)"
proof -
  have n: "unat (num_valid_entries t) < 20" "length (entries t) = 20"
    using assms by (simp_all add: table_ok_def word_less_nat_alt)
  then have "unat (num_valid_entries t + 1) = Suc (unat (num_valid_entries t))"
    by (simp add: unat_word_ariths)
  with n assms show ?thesis
    unfolding table_ok_def active_appended [OF assms(1,2)]
    by (simp add: appended_def put_entry_def table_ok_def)
qed

lemma put_entry_filled:
  assumes "length p < 20"
  shows "put_entry (of_nat (length p)) (start_addr e) (entry_size e) ((filled p)\<lparr>num_valid_entries := 0\<rparr>)
    = (filled (p @ [e]))\<lparr>num_valid_entries := 0\<rparr>"
proof -
  obtain k where k: "20 - length p = Suc k" using assms by (cases "20 - length p") auto
  then have "20 - Suc (length p) = k" by simp
  with k assms show ?thesis
    by (cases e) (simp add: put_entry_def filled_def list_update_append)
qed

lemma check_range_loop_Some:
  "n \<le> length es \<Longrightarrow> check_range_loop a sz n es = Some (\<exists>e \<in> set (take n es). entry_covers a sz e)"
  by (induction a sz n es rule: check_range_loop.induct) auto

lemma check_range_covers:
  assumes "table_ok adm t"
  shows "check_range_against_whtlst a sz t = Some (sz \<noteq> 0 \<and> a \<le> a + sz \<and> covers t a sz)"
proof -
  have "active t = []" if "\<not> num_valid_entries t > 0"
    using that by (simp add: active_def word_gt_0)
  with assms show ?thesis
    by (auto simp: check_range_against_whtlst_def check_range_loop_Some table_ok_def covers_def
        active_def not_le not_less)
qed

lemma covers_allowed:
  assumes "table_ok adm t" and "\<And>a z. adm a z \<Longrightarrow> a \<le> a + z"
    and "covers t a sz" and "a \<le> a + sz" and "in_range a sz x"
  shows "allowed t x"
proof -
  obtain e where e: "e \<in> set (active t)" "entry_covers a sz e"
    using assms(3) by (auto simp: covers_def)
  moreover have "start_addr e \<le> start_addr e + entry_size e"
    using assms(1,2) e(1) by (simp add: table_ok_def)
  ultimately have "in_range (start_addr e) (entry_size e) x"
    using assms(4,5) in_range_mono [of "start_addr e" a sz "entry_size e" x]
    by (simp add: entry_covers_def)
  with e show ?thesis by (auto simp: allowed_def)
qed

subsection \<open>The contract of the two whitelists\<close>

locale whitelist_iface =
  fixes tbl :: "'s \<Rightarrow> whitelist_table" and put :: "whitelist_table \<Rightarrow> 's \<Rightarrow> 's"
    and adm :: "u64 \<Rightarrow> u64 \<Rightarrow> bool"
    and prefix :: "whitelst_tbl_entry list \<Rightarrow> whitelst_tbl_entry list"
    and invalidate :: "('s, unit) boot"
    and add_entry :: "u64 \<Rightarrow> u64 \<Rightarrow> ('s, bool) boot"
    and set_table :: "whitelst_tbl_entry list option \<Rightarrow> ('s, bool) boot"
    and set_entry :: "u64 \<Rightarrow> u64 \<Rightarrow> ('s, bool) boot"
  assumes tbl_put [simp]: "tbl (put t s) = t"
    and adm_range: "adm a z \<Longrightarrow> z \<noteq> 0 \<and> a \<le> a + z"
    and prefix_le: "length (prefix es) \<le> 20"
    and invalidate_law: "invalidate s = (Inr (), put zero_table s)"
    and add_law: "add_entry a z s =
      (if adm a z \<and> num_valid_entries (tbl s) < 20 then (Inr True, put (appended a z (tbl s)) s)
       else (Inr False, s))"
    and set_None: "set_table None s = (Inr False, s)"
    and set_wrap: "\<not> (\<forall>e \<in> set (prefix es). adm (start_addr e) (entry_size e)) \<Longrightarrow>
      set_table (Some es) s = (Inr False, put zero_table s)"
    and set_good: "(\<forall>e \<in> set (prefix es). adm (start_addr e) (entry_size e)) \<Longrightarrow>
      length (prefix es) < length es \<Longrightarrow>
      set_table (Some es) s = (Inr (prefix es \<noteq> []), put (filled (prefix es)) s)"
    and set_over: "(\<forall>e \<in> set (prefix es). adm (start_addr e) (entry_size e)) \<Longrightarrow>
      length (prefix es) \<ge> length es \<Longrightarrow>
      set_table (Some es) s = (Inl Undefined_behaviour, put ((filled (prefix es))\<lparr>num_valid_entries := 0\<rparr>) s)"
    and set_entry_law: "set_entry a z s = (if adm a z then
       (Inr True, put (filled [\<lparr>start_addr = a, entry_size = z\<rparr>]) s) else (Inr False, s))"
begin

abbreviation ok :: "'s \<Rightarrow> bool" where "ok s \<equiv> table_ok adm (tbl s)"

lemma ok_zero: "table_ok adm zero_table"
  by (simp add: zero_table_filled table_ok_filled)

lemma ok_invalidate: "ok (final invalidate s)"
  by (simp add: invalidate_law ok_zero)

lemma ok_add: "ok s \<Longrightarrow> ok (final (add_entry a z) s)"
  by (simp add: add_law table_ok_appended)

lemma ok_set_table: "ok s \<Longrightarrow> ok (final (set_table t) s)"
proof (cases t)
  case None
  assume "ok s"
  then show ?thesis by (simp add: None set_None)
next
  case (Some es)
  let ?good = "\<forall>e \<in> set (prefix es). adm (start_addr e) (entry_size e)"
  have "table_ok adm (filled (prefix es)\<lparr>num_valid_entries := 0\<rparr>)"
    using prefix_le [of es] by (simp add: table_ok_def active_def filled_def)
  then show ?thesis
    using set_wrap [of es s] set_good [of es s] set_over [of es s] prefix_le [of es]
    by (cases ?good; cases "length (prefix es) < length es")
      (simp_all add: Some ok_zero table_ok_filled)
qed

lemma ok_set_entry: "ok s \<Longrightarrow> ok (final (set_entry a z) s)"
  by (simp add: set_entry_law table_ok_filled)

lemmas ok_intros = ok_invalidate ok_add ok_set_table ok_set_entry

lemma add_active:
  "ok s \<Longrightarrow> add_entry a z s = (Inr True, t) \<Longrightarrow>
   active (tbl t) = active (tbl s) @ [\<lparr>start_addr = a, entry_size = z\<rparr>]"
  by (auto simp: add_law active_appended split: if_splits)

lemma add_refused: "add_entry a z s = (Inr False, t) \<Longrightarrow> t = s"
  by (auto simp: add_law split: if_splits)

lemma add_succeeds_iff:
  "result (add_entry a z) s = Inr True \<longleftrightarrow> adm a z \<and> num_valid_entries (tbl s) < 20"
  by (simp add: add_law)

lemma set_active:
  "set_table (Some es) s = (Inr True, t) \<Longrightarrow> active (tbl t) = prefix es"
  using set_wrap [of es s] set_good [of es s] set_over [of es s] prefix_le [of es]
  by (cases "\<forall>e \<in> set (prefix es). adm (start_addr e) (entry_size e)";
      cases "length (prefix es) < length es") auto

text \<open>A table that is refused leaves no range allowed: the whitelist fails closed.\<close>

lemma set_fails_closed:
  "set_table (Some es) s = (r, t) \<Longrightarrow> r \<noteq> Inr True \<Longrightarrow> active (tbl t) = []"
  using set_wrap [of es s] set_good [of es s] set_over [of es s] prefix_le [of es]
  by (cases "\<forall>e \<in> set (prefix es). adm (start_addr e) (entry_size e)";
      cases "length (prefix es) < length es") (auto simp: active_def filled_def zero_table_def)

lemma check_sound:
  "ok s \<Longrightarrow> check_range_against_whtlst a sz (tbl s) = Some True \<Longrightarrow> in_range a sz x \<Longrightarrow>
   allowed (tbl s) x"
  using covers_allowed [of adm "tbl s" a sz x] adm_range
  by (auto simp: check_range_covers)

lemma set_entry_allowed:
  "set_entry a z s = (Inr True, t) \<Longrightarrow> allowed (tbl t) x \<longleftrightarrow> in_range a z x"
  by (auto simp: set_entry_law allowed_def split: if_splits)

end


lemma img_loop_run:
  assumes "length d \<le> 20"
  defines "q \<equiv> \<lambda>es. take (20 - length d) (takeWhile (\<lambda>e. entry_size e \<noteq> 0) es)"
  shows "set_active_img_loop es (of_nat (length d)) (s\<lparr>curr_image_whitelst_tbl := (filled d)\<lparr>num_valid_entries := 0\<rparr>\<rparr>) =
    (if \<not> (\<forall>e \<in> set (q es). img_admissible (start_addr e) (entry_size e)) then
       (Inr False, s\<lparr>curr_image_whitelst_tbl := zero_table\<rparr>)
     else if length (q es) < length es then
       (Inr (d @ q es \<noteq> []), s\<lparr>curr_image_whitelst_tbl := filled (d @ q es)\<rparr>)
     else (Inl Undefined_behaviour, s\<lparr>curr_image_whitelst_tbl := (filled (d @ q es))\<lparr>num_valid_entries := 0\<rparr>\<rparr>))"
  using assms(1) unfolding q_def
proof (induction es arbitrary: d)
  case Nil
  then show ?case by (simp add: fatal_app)
next
  case (Cons e es)
  let ?stop = "\<not> (entry_size e \<noteq> 0) \<or> length d = 20"
  have num: "of_nat (length d) \<ge> (20 :: u64) \<longleftrightarrow> length d = 20" "(of_nat (length d) :: u64) > 0 \<longleftrightarrow> d \<noteq> []"
    using Cons.prems by (auto simp: word_le_nat_alt word_less_nat_alt)
  have set_num: "(filled d)\<lparr>num_valid_entries := of_nat (length d)\<rparr> = filled d"
    by (simp add: filled_def)
  have empty: "(filled [])\<lparr>num_valid_entries := 0\<rparr> = filled []"
    by (simp add: filled_def)
  show ?case
  proof (cases ?stop)
    case True
    then show ?thesis
      using set_num empty num by (auto simp: ret_app)
  next
    case False
    then have len: "length d < 20" using Cons.prems by simp
    have q: "take (20 - length d) (takeWhile (\<lambda>e. entry_size e \<noteq> 0) (e # es))
      = e # take (20 - length (d @ [e])) (takeWhile (\<lambda>e. entry_size e \<noteq> 0) es)"
      using False len by (simp add: take_Cons' Suc_diff_Suc)
    show ?thesis
    proof (cases "start_addr e \<le> start_addr e + entry_size e")
      case True
      have "set_active_img_loop (e # es) (of_nat (length d))
          (s\<lparr>curr_image_whitelst_tbl := (filled d)\<lparr>num_valid_entries := 0\<rparr>\<rparr>) =
        set_active_img_loop es (of_nat (length (d @ [e])))
          (s\<lparr>curr_image_whitelst_tbl := (filled (d @ [e]))\<lparr>num_valid_entries := 0\<rparr>\<rparr>)"
        using leD [OF True] False num(1)
        by (simp add: put_entry_filled [OF len] comp_def add.commute [of 1])
      moreover have "img_admissible (start_addr e) (entry_size e)"
        using True False by (simp add: img_admissible_def)
      ultimately show ?thesis
        using Cons.IH [of "d @ [e]"] len unfolding q by simp
    next
      case wrap: False
      then show ?thesis
        using False num unfolding q by (simp add: img_admissible_def boot_invalidate_img_whitelist_def ret_app not_le)
    qed
  qed
qed

lemma img_set_run:
  "boot_set_active_img_whitelist_table (Some es) s =
    (if \<not> (\<forall>e \<in> set (img_prefix es). img_admissible (start_addr e) (entry_size e)) then
       (Inr False, s\<lparr>curr_image_whitelst_tbl := zero_table\<rparr>)
     else if length (img_prefix es) < length es then
       (Inr (img_prefix es \<noteq> []), s\<lparr>curr_image_whitelst_tbl := filled (img_prefix es)\<rparr>)
     else (Inl Undefined_behaviour,
           s\<lparr>curr_image_whitelst_tbl := (filled (img_prefix es))\<lparr>num_valid_entries := 0\<rparr>\<rparr>))"
proof -
  have "zero_table = (filled [])\<lparr>num_valid_entries := 0\<rparr>"
    by (simp add: zero_table_filled filled_def)
  then show ?thesis
    using img_loop_run [of "[]" es s]
    unfolding boot_set_active_img_whitelist_table_def boot_invalidate_img_whitelist_def img_prefix_def
    by (simp only: option.case thn_modify_app list.size of_nat_0 diff_zero append_Nil) simp
qed

interpretation img: whitelist_iface curr_image_whitelst_tbl
  "\<lambda>t s. s\<lparr>curr_image_whitelst_tbl := t\<rparr>" img_admissible img_prefix
  boot_invalidate_img_whitelist boot_add_entry_to_active_img_whtlst
  boot_set_active_img_whitelist_table boot_set_entry_as_img_whitelist
proof (unfold_locales, goal_cases)
  case (5 a z s)
  then show ?case
    by (auto simp: boot_add_entry_to_active_img_whtlst_def img_admissible_def appended_def ret_app not_le not_less)
next
  case (10 a z s)
  then show ?case 
    by (auto simp: boot_set_entry_as_img_whitelist_def img_set_run img_prefix_def img_admissible_def ret_app not_less)
qed (simp_all add: img_set_run, simp_all add: img_admissible_def img_prefix_def boot_invalidate_img_whitelist_def boot_set_active_img_whitelist_table_def ret_app)

lemma hdr_loop_run:
  assumes "length d \<le> 20"
  defines "q \<equiv> \<lambda>es. take (20 - length d) (takeWhile (\<lambda>e. start_addr e \<noteq> 0 \<and> entry_size e \<noteq> 0) es)"
  shows "set_active_hdr_meta_loop es (of_nat (length d)) (s\<lparr>hdr_meta_whitelst_tbl := (filled d)\<lparr>num_valid_entries := 0\<rparr>\<rparr>) =
    (if \<not> (\<forall>e \<in> set (q es). hdr_admissible (start_addr e) (entry_size e)) then
       (Inr False, s\<lparr>hdr_meta_whitelst_tbl := zero_table\<rparr>)
     else if length (q es) < length es then
       (Inr (d @ q es \<noteq> []), s\<lparr>hdr_meta_whitelst_tbl := filled (d @ q es)\<rparr>)
     else (Inl Undefined_behaviour, s\<lparr>hdr_meta_whitelst_tbl := (filled (d @ q es))\<lparr>num_valid_entries := 0\<rparr>\<rparr>))"
  using assms(1) unfolding q_def
proof (induction es arbitrary: d)
  case Nil
  then show ?case by (simp add: fatal_app)
next
  case (Cons e es)
  let ?stop = "\<not> (start_addr e \<noteq> 0 \<and> entry_size e \<noteq> 0) \<or> length d = 20"
  have num: "of_nat (length d) \<ge> (20 :: u64) \<longleftrightarrow> length d = 20" "(of_nat (length d) :: u64) > 0 \<longleftrightarrow> d \<noteq> []"
    using Cons.prems by (auto simp: word_le_nat_alt word_less_nat_alt)
  have set_num: "(filled d)\<lparr>num_valid_entries := of_nat (length d)\<rparr> = filled d"
    by (simp add: filled_def)
  have empty: "(filled [])\<lparr>num_valid_entries := 0\<rparr> = filled []"
    by (simp add: filled_def)
  show ?case
  proof (cases ?stop)
    case True
    then show ?thesis
      using set_num empty num by (auto simp: ret_app)
  next
    case False
    then have len: "length d < 20" using Cons.prems by simp
    have q: "take (20 - length d) (takeWhile (\<lambda>e. start_addr e \<noteq> 0 \<and> entry_size e \<noteq> 0) (e # es))
      = e # take (20 - length (d @ [e])) (takeWhile (\<lambda>e. start_addr e \<noteq> 0 \<and> entry_size e \<noteq> 0) es)"
      using False len by (simp add: take_Cons' Suc_diff_Suc)
    show ?thesis
    proof (cases "start_addr e \<le> start_addr e + entry_size e")
      case True
      have "set_active_hdr_meta_loop (e # es) (of_nat (length d))
          (s\<lparr>hdr_meta_whitelst_tbl := (filled d)\<lparr>num_valid_entries := 0\<rparr>\<rparr>) =
        set_active_hdr_meta_loop es (of_nat (length (d @ [e])))
          (s\<lparr>hdr_meta_whitelst_tbl := (filled (d @ [e]))\<lparr>num_valid_entries := 0\<rparr>\<rparr>)"
        using leD [OF True] False num(1)
        by (simp add: put_entry_filled [OF len] comp_def add.commute [of 1])
      moreover have "hdr_admissible (start_addr e) (entry_size e)"
        using True False by (simp add: hdr_admissible_def)
      ultimately show ?thesis
        using Cons.IH [of "d @ [e]"] len unfolding q by simp
    next
      case wrap: False
      then show ?thesis
        using False num unfolding q by (simp add: hdr_admissible_def boot_invalidate_hdr_meta_whitelist_def ret_app not_le)
    qed
  qed
qed

lemma hdr_set_run:
  "boot_set_active_hdr_meta_whitelist_table (Some es) s =
    (if \<not> (\<forall>e \<in> set (hdr_prefix es). hdr_admissible (start_addr e) (entry_size e)) then
       (Inr False, s\<lparr>hdr_meta_whitelst_tbl := zero_table\<rparr>)
     else if length (hdr_prefix es) < length es then
       (Inr (hdr_prefix es \<noteq> []), s\<lparr>hdr_meta_whitelst_tbl := filled (hdr_prefix es)\<rparr>)
     else (Inl Undefined_behaviour,
           s\<lparr>hdr_meta_whitelst_tbl := (filled (hdr_prefix es))\<lparr>num_valid_entries := 0\<rparr>\<rparr>))"
proof -
  have "zero_table = (filled [])\<lparr>num_valid_entries := 0\<rparr>"
    by (simp add: zero_table_filled filled_def)
  then show ?thesis
    using hdr_loop_run [of "[]" es s]
    unfolding boot_set_active_hdr_meta_whitelist_table_def boot_invalidate_hdr_meta_whitelist_def hdr_prefix_def
    by (simp only: option.case thn_modify_app list.size of_nat_0 diff_zero append_Nil) simp
qed

interpretation hdr: whitelist_iface hdr_meta_whitelst_tbl
  "\<lambda>t s. s\<lparr>hdr_meta_whitelst_tbl := t\<rparr>" hdr_admissible hdr_prefix
  boot_invalidate_hdr_meta_whitelist boot_add_entry_to_hdr_meta_whtlst
  boot_set_active_hdr_meta_whitelist_table boot_set_entry_as_hdr_meta_whitelist
proof (unfold_locales, goal_cases)
  case (5 a z s)
  then show ?case
    by (auto simp: boot_add_entry_to_hdr_meta_whtlst_def hdr_admissible_def appended_def ret_app not_le not_less)
next
  case (10 a z s)
  then show ?case 
    by (auto simp: boot_set_entry_as_hdr_meta_whitelist_def hdr_set_run hdr_prefix_def hdr_admissible_def ret_app not_less)
qed (simp_all add: hdr_set_run, simp_all add: hdr_admissible_def hdr_prefix_def boot_invalidate_hdr_meta_whitelist_def boot_set_active_hdr_meta_whitelist_table_def ret_app)


subsection \<open>Each operation changes its own table only\<close>

lemma img_keeps_hdr [simp]:
  "hdr_meta_whitelst_tbl (final boot_invalidate_img_whitelist s) = hdr_meta_whitelst_tbl s"
  "hdr_meta_whitelst_tbl (final (boot_add_entry_to_active_img_whtlst a z) s) = hdr_meta_whitelst_tbl s"
  "hdr_meta_whitelst_tbl (final (boot_set_entry_as_img_whitelist a z) s) = hdr_meta_whitelst_tbl s"
  by (simp_all add: img.invalidate_law img.add_law img.set_entry_law)

lemma img_set_keeps_hdr [simp]:
  "hdr_meta_whitelst_tbl (final (boot_set_active_img_whitelist_table t) s) = hdr_meta_whitelst_tbl s"
  by (cases t) (simp_all add: img.set_None img_set_run)

lemma hdr_keeps_img [simp]:
  "curr_image_whitelst_tbl (final boot_invalidate_hdr_meta_whitelist s) = curr_image_whitelst_tbl s"
  "curr_image_whitelst_tbl (final (boot_add_entry_to_hdr_meta_whtlst a z) s) = curr_image_whitelst_tbl s"
  "curr_image_whitelst_tbl (final (boot_set_entry_as_hdr_meta_whitelist a z) s) = curr_image_whitelst_tbl s"
  by (simp_all add: hdr.invalidate_law hdr.add_law hdr.set_entry_law)

lemma hdr_set_keeps_img [simp]:
  "curr_image_whitelst_tbl (final (boot_set_active_hdr_meta_whitelist_table t) s) = curr_image_whitelst_tbl s"
  by (cases t) (simp_all add: hdr.set_None hdr_set_run)

lemma img_ops_memory [simp]:
  "memory (final boot_invalidate_img_whitelist s) = memory s"
  "memory (final (boot_add_entry_to_active_img_whtlst a z) s) = memory s"
  "memory (final (boot_set_entry_as_img_whitelist a z) s) = memory s"
  by (simp_all add: img.invalidate_law img.add_law img.set_entry_law)

lemma set_tables_memory [simp]:
  "memory (final (boot_set_active_img_whitelist_table t) s) = memory s"
  "memory (final (boot_set_active_hdr_meta_whitelist_table t) s) = memory s"
  by (cases t; simp add: img.set_None hdr.set_None img_set_run hdr_set_run)+

lemma reach_ok: "whl_reach s \<Longrightarrow> whitelists_ok s"
proof (induction rule: whl_reach.induct)
  case (init s)
  then show ?case by (simp add: whitelists_ok_def img.ok_zero hdr.ok_zero)
qed (simp_all add: whitelists_ok_def img.ok_intros hdr.ok_intros)

lemma entry_covers_nat:
  assumes "a \<le> a + sz" and "start_addr e \<le> start_addr e + entry_size e"
  shows "entry_covers a sz e \<longleftrightarrow>
    unat (start_addr e) \<le> unat a \<and>
    unat a + unat sz \<le> unat (start_addr e) + unat (entry_size e)"
  using unat_add_nowrap [OF assms(1)] unat_add_nowrap [OF assms(2)]
  by (auto simp: entry_covers_def word_le_nat_alt)

lemma range_check_run:
  assumes "whitelists_ok s"
  shows "boot_whitelist_address_range_check a sz bt s =
    (Inr (sz \<noteq> 0 \<and> a \<le> a + sz \<and> covers (buffer_table bt s) a sz), s)"
  using assms check_range_covers [of img_admissible "curr_image_whitelst_tbl s" a sz]
    check_range_covers [of hdr_admissible "hdr_meta_whitelst_tbl s" a sz]
  by (auto simp: boot_whitelist_address_range_check_def whitelists_ok_def buffer_table_def ret_app
      covers_def not_le not_less)

lemma buffer_table_ok: "whitelists_ok s \<Longrightarrow> table_ok img_admissible (buffer_table bt s)"
  by (cases "bt = IMAGE_BODY_TYPE \<or> bt = HDR_META_INFO_TYPE")
    (auto simp: whitelists_ok_def buffer_table_def img.ok_zero
      table_ok_def [of _ "hdr_meta_whitelst_tbl s"] table_ok_def [of _ "curr_image_whitelst_tbl s"]
      hdr_admissible_def img_admissible_def)

lemma range_check_True:
  assumes "whitelists_ok s" and "boot_whitelist_address_range_check a sz bt s = (Inr True, t)"
  shows "t = s" and "in_range a sz x \<Longrightarrow> allowed (buffer_table bt s) x"
proof -
  from assms have *: "a \<le> a + sz" "covers (buffer_table bt s) a sz" and t: "t = s"
    by (auto simp: range_check_run)
  show "t = s" by (rule t)
  show "allowed (buffer_table bt s) x" if "in_range a sz x"
    by (rule covers_allowed [OF buffer_table_ok [OF assms(1)] _ *(2,1) that])
       (simp add: img_admissible_def)
qed

subsection \<open>Correctness of the whitelists\<close>

text \<open>
  (C19) In every reachable state the range check decides exactly whether the range is not
  empty, does not wrap and lies inside one active entry of the table its buffer type
  selects, the ends compared as unbounded numbers; it never reads behind a table and
  changes nothing.
\<close>

theorem whitelist_check_correct:
  assumes "whl_reach s"
  shows "boot_whitelist_address_range_check a sz bt s =
    (Inr (sz \<noteq> 0 \<and> unat a + unat sz < 2 ^ 64 \<and>
          (\<exists>e \<in> set (active (buffer_table bt s)).
             unat (start_addr e) \<le> unat a \<and>
             unat a + unat sz \<le> unat (start_addr e) + unat (entry_size e))), s)"
proof -
  have ok: "whitelists_ok s" by (rule reach_ok [OF assms])
  have "start_addr e \<le> start_addr e + entry_size e" if "e \<in> set (active (buffer_table bt s))" for e
    using buffer_table_ok [OF ok] that by (auto simp: table_ok_def img_admissible_def)
  then show ?thesis
    by (auto simp: range_check_run [OF ok] covers_def no_wrap_iff entry_covers_nat
        simp del: unat_of_nat64)
qed

definition example_state :: whl_state where
  "example_state = \<lparr>memory = (\<lambda>_. 0),
     curr_image_whitelst_tbl = filled [\<lparr>start_addr = 0x80000000, entry_size = 0x1000\<rparr>],
     hdr_meta_whitelst_tbl = zero_table\<rparr>"

lemma example_state_reach: "whl_reach example_state"
proof -
  let ?s = "\<lparr>memory = (\<lambda>_. 0), curr_image_whitelst_tbl = zero_table, hdr_meta_whitelst_tbl = zero_table\<rparr>"
  have "whl_reach (final (boot_set_entry_as_img_whitelist 0x80000000 0x1000) ?s)"
    by (intro whl_reach.set_img_entry whl_reach.init) simp_all
  then show ?thesis
    by (simp add: img.set_entry_law img_admissible_def example_state_def)
qed

theorem whitelist_check_correct_witness:
  "result (boot_whitelist_address_range_check 0x80000F00 0x100 IMAGE_BODY_TYPE) example_state = Inr True \<and>
   result (boot_whitelist_address_range_check 0x80000F01 0x100 IMAGE_BODY_TYPE) example_state = Inr False"
  by (simp add: whitelist_check_correct [OF example_state_reach])
    (simp add: buffer_table_def example_state_def)

text \<open>
  (C24) Whatever sequence of calls has built them, the tables hold at most 20 entries, none
  empty and none wrapping around the address space, and no header entry starts at 0.
\<close>

theorem whitelist_invariant:
  assumes "whl_reach s"
  shows "table_ok img_admissible (curr_image_whitelst_tbl s) \<and>
    table_ok hdr_admissible (hdr_meta_whitelst_tbl s)"
  using reach_ok [OF assms] by (simp_all add: whitelists_ok_def)

theorem whitelist_invariant_witness:
  "table_ok img_admissible (curr_image_whitelst_tbl example_state) \<and>
   table_ok hdr_admissible (hdr_meta_whitelst_tbl example_state)"
  by (rule whitelist_invariant [OF example_state_reach])

text \<open>
  Installing an image table makes exactly its entries before the terminator, at most
  20 of them, the active ones; a table that is refused, and one that makes the code read
  behind it, leaves no address allowed.
\<close>

theorem set_active_img_table_correct:
  assumes "boot_set_active_img_whitelist_table (Some tbl) s = (r, t)"
  shows "active (curr_image_whitelst_tbl t) = (if r = Inr True then img_prefix tbl else [])"
  using img.set_active [of tbl s t] img.set_fails_closed [of tbl s r t] assms by auto

theorem set_active_img_table_correct_witness:
  "active (curr_image_whitelst_tbl (final (boot_set_active_img_whitelist_table
     (Some [\<lparr>start_addr = 0x1000, entry_size = 0x10\<rparr>, \<lparr>start_addr = 0, entry_size = 0\<rparr>])) example_state))
   = [\<lparr>start_addr = 0x1000, entry_size = 0x10\<rparr>]"
  by (subst set_active_img_table_correct [OF prod.collapse [symmetric]])
    (simp add: img_set_run img_prefix_def img_admissible_def)

end
