(* ===== verification/Coldplug_Device.thy ===== *)
theory Coldplug_Device
  imports Whitelist
begin

text \<open>
  The static pools of the coldplug storage library (ColdplugLib/src/coldplug\_device.c):
  devices, slots, logical units, partitions and handles, each a fixed array with an
  in-use flag and a magic number, linked by pointers into the array above it. A pointer
  into a pool is an index, \<open>None\<close> is the null pointer; following a null pointer is the
  fault of undefined behaviour. The lemmas are about the well-formedness of the links,
  which allocation and the cascading frees keep.
\<close>

subsection \<open>Data\<close>

type_synonym cptr = "nat option"

abbreviation (input) "COLDPLUG_DEVICE_DEVNULL \<equiv> (0 :: nat)"
abbreviation (input) "COLDPLUG_DEVICE_SD \<equiv> (1 :: nat)"
abbreviation (input) "COLDPLUG_DEVICE_UFS \<equiv> (2 :: nat)"
abbreviation (input) "COLDPLUG_DEVICE_SPI_NOR \<equiv> (3 :: nat)"
abbreviation (input) "COLDPLUG_DEVICE_MAX \<equiv> (4 :: nat)"

abbreviation (input) "COLDPLUG_DEVICE_MAGIC \<equiv> (0x76656463 :: u32)"
abbreviation (input) "COLDPLUG_SLOT_MAGIC \<equiv> (0x746F6C73 :: u32)"
abbreviation (input) "COLDPLUG_LUN_MAGIC \<equiv> (0x6E756C63 :: u32)"
abbreviation (input) "COLDPLUG_PARTI_MAGIC \<equiv> (0x74726170 :: u32)"
abbreviation (input) "COLDPLUG_HANDLE_MAGIC \<equiv> (0x6C646863 :: u32)"

abbreviation (input) "COLDPLUG_MAX_DEVICES \<equiv> (3 :: nat)"
abbreviation (input) "COLDPLUG_MAX_SLOTS \<equiv> (5 :: nat)"
abbreviation (input) "COLDPLUG_MAX_LUNS \<equiv> (9 :: nat)"
abbreviation (input) "COLDPLUG_MAX_PARTITIONS \<equiv> (128 :: nat)"
abbreviation (input) "COLDPLUG_MAX_HANDLES \<equiv> (5 :: nat)"
abbreviation (input) "COLDPLUG_MAX_PARTITION_NAME_LEN \<equiv> (6 :: nat)"

abbreviation (input) "COLDPLUG_PARTITION_TYPE_INVALID \<equiv> (0 :: nat)"
abbreviation (input) "COLDPLUG_PARTITION_TYPE_RAW \<equiv> (1 :: nat)"
abbreviation (input) "COLDPLUG_PARTITION_TYPE_GPT \<equiv> (2 :: nat)"
abbreviation (input) "COLDPLUG_PARTITION_TYPE_MBR \<equiv> (3 :: nat)"
abbreviation (input) "COLDPLUG_PARTITION_TYPE_FAT \<equiv> (4 :: nat)"

datatype bdev_ops_ptr = Devnull_ops | Sd_ops | Ufs_ops

record coldplug_device =
  dev_in_use :: int
  dev_magic :: u32
  device_type :: nat
  bdev_ops :: "bdev_ops_ptr option"
  max_slots :: u32
  max_luns :: u32
  boot_lun_no :: u32

record coldplug_slot =
  slot_in_use :: int
  slot_magic :: u32
  slot_cdev :: cptr
  slot_no :: u32
  is_embedded_device :: int
  is_boot_lun_initialized :: int
  resolved_boot_lun_no :: u32
  boot_lun :: cptr
  boot_luns_count :: int
  user_luns_count :: int

record coldplug_lun =
  lun_in_use :: int
  lun_magic :: u32
  lun_cslot :: cptr
  lun_no :: u32
  is_boot_lun :: int
  bdev_hdl :: u64
  lba_size :: u32
  lun_total_lba :: u64

record coldplug_partition_in_ram =
  partition_type :: nat
  mbr_id :: u32
  type_guid :: bytes

record coldplug_partition =
  parti_in_use :: int
  parti_magic :: u32
  parti_clun :: cptr
  parti_info :: coldplug_partition_in_ram
  start_lba :: u64
  total_lba :: u64
  is_bootable :: int
  parti_name :: string

record coldplug_handle =
  hdl_in_use :: int
  hdl_magic :: u32
  hdl_cparti :: cptr

record cp_pools = whl_state +
  coldplug_devices :: "coldplug_device list"
  coldplug_slots :: "coldplug_slot list"
  coldplug_luns :: "coldplug_lun list"
  coldplug_partitions :: "coldplug_partition list"
  coldplug_handles :: "coldplug_handle list"

definition zero_device :: coldplug_device where
  "zero_device = \<lparr>dev_in_use = 0, dev_magic = 0, device_type = 0, bdev_ops = None,
     max_slots = 0, max_luns = 0, boot_lun_no = 0\<rparr>"

definition zero_slot :: coldplug_slot where
  "zero_slot = \<lparr>slot_in_use = 0, slot_magic = 0, slot_cdev = None, slot_no = 0,
     is_embedded_device = 0, is_boot_lun_initialized = 0, resolved_boot_lun_no = 0,
     boot_lun = None, boot_luns_count = 0, user_luns_count = 0\<rparr>"

definition zero_lun :: coldplug_lun where
  "zero_lun = \<lparr>lun_in_use = 0, lun_magic = 0, lun_cslot = None, lun_no = 0, is_boot_lun = 0,
     bdev_hdl = 0, lba_size = 0, lun_total_lba = 0\<rparr>"

definition zero_parti_info :: coldplug_partition_in_ram where
  "zero_parti_info = \<lparr>partition_type = COLDPLUG_PARTITION_TYPE_INVALID, mbr_id = 0,
     type_guid = replicate 16 0\<rparr>"

definition zero_partition :: coldplug_partition where
  "zero_partition = \<lparr>parti_in_use = 0, parti_magic = 0, parti_clun = None,
     parti_info = zero_parti_info, start_lba = 0, total_lba = 0, is_bootable = 0, parti_name = []\<rparr>"

definition zero_handle :: coldplug_handle where
  "zero_handle = \<lparr>hdl_in_use = 0, hdl_magic = 0, hdl_cparti = None\<rparr>"

subsection \<open>Pointers into a pool, and its search loops\<close>

text \<open>
  \<open>deref sel p f\<close> continues with the object \<open>p\<close> points to; \<open>scan P i xs\<close> is the loop that
  returns the first index from \<open>i\<close> on whose object satisfies \<open>P\<close>.
\<close>

definition deref :: "('s \<Rightarrow> 'r list) \<Rightarrow> cptr \<Rightarrow> ('r \<Rightarrow> ('s, 'b) boot) \<Rightarrow> ('s, 'b) boot" where
  "deref sel p f = (\<lambda>s. case p of None \<Rightarrow> (Inl Undefined_behaviour, s)
     | Some i \<Rightarrow> if i < length (sel s) then f (sel s ! i) s else (Inl Undefined_behaviour, s))"

fun scan :: "('r \<Rightarrow> bool) \<Rightarrow> nat \<Rightarrow> 'r list \<Rightarrow> nat option" where
  "scan P i [] = None"
| "scan P i (x # xs) = (if P x then Some i else scan P (i + 1) xs)"

text \<open>Decimal digits, for \<^verbatim>\<open>snprintf\<close> with \<^verbatim>\<open>%d\<close> of a small number.\<close>

fun decimal :: "nat \<Rightarrow> string" where
  "decimal n = (if n < 10 then [char_of (48 + n)] else decimal (n div 10) @ [char_of (48 + n mod 10)])"

declare decimal.simps [simp del]

definition partition_name :: "nat \<Rightarrow> string" where
  "partition_name i = take (COLDPLUG_MAX_PARTITION_NAME_LEN - 1) (''p-'' @ decimal i)"

definition upd_device :: "nat \<Rightarrow> (coldplug_device \<Rightarrow> coldplug_device) \<Rightarrow> ('a cp_pools_scheme, unit) boot" where
  "upd_device i f = modify (\<lambda>s. s\<lparr>coldplug_devices := (coldplug_devices s)[i := f (coldplug_devices s ! i)]\<rparr>)"

definition upd_slot :: "nat \<Rightarrow> (coldplug_slot \<Rightarrow> coldplug_slot) \<Rightarrow> ('a cp_pools_scheme, unit) boot" where
  "upd_slot i f = modify (\<lambda>s. s\<lparr>coldplug_slots := (coldplug_slots s)[i := f (coldplug_slots s ! i)]\<rparr>)"

definition upd_lun :: "nat \<Rightarrow> (coldplug_lun \<Rightarrow> coldplug_lun) \<Rightarrow> ('a cp_pools_scheme, unit) boot" where
  "upd_lun i f = modify (\<lambda>s. s\<lparr>coldplug_luns := (coldplug_luns s)[i := f (coldplug_luns s ! i)]\<rparr>)"

definition upd_partition ::
  "nat \<Rightarrow> (coldplug_partition \<Rightarrow> coldplug_partition) \<Rightarrow> ('a cp_pools_scheme, unit) boot" where
  "upd_partition i f = modify (\<lambda>s. s\<lparr>coldplug_partitions := (coldplug_partitions s)[i := f (coldplug_partitions s ! i)]\<rparr>)"

definition upd_handle :: "nat \<Rightarrow> (coldplug_handle \<Rightarrow> coldplug_handle) \<Rightarrow> ('a cp_pools_scheme, unit) boot" where
  "upd_handle i f = modify (\<lambda>s. s\<lparr>coldplug_handles := (coldplug_handles s)[i := f (coldplug_handles s ! i)]\<rparr>)"

subsection \<open>The functions of coldplug\_device.c\<close>

definition coldplug_device_init :: "('a cp_pools_scheme, unit) boot" where
  "coldplug_device_init = modify (\<lambda>s. s\<lparr>
     coldplug_devices := replicate COLDPLUG_MAX_DEVICES zero_device,
     coldplug_slots := replicate COLDPLUG_MAX_SLOTS zero_slot,
     coldplug_luns := replicate COLDPLUG_MAX_LUNS zero_lun,
     coldplug_partitions := replicate COLDPLUG_MAX_PARTITIONS zero_partition,
     coldplug_handles := replicate COLDPLUG_MAX_HANDLES zero_handle\<rparr>)"

text \<open>
  \<^verbatim>\<open>coldplug_bdev_ops_get\<close>: the build enables SD/eMMC and UFS (ColdplugLib.inf), for SPI-NOR
  the operations are null and the null device is used.
\<close>

definition coldplug_bdev_ops_get :: "nat \<Rightarrow> ('s, bdev_ops_ptr) boot" where
  "coldplug_bdev_ops_get dev_type =
     (if dev_type = COLDPLUG_DEVICE_DEVNULL then ret Devnull_ops
      else if dev_type = COLDPLUG_DEVICE_SD then ret Sd_ops
      else if dev_type = COLDPLUG_DEVICE_UFS then ret Ufs_ops
      else if dev_type = COLDPLUG_DEVICE_SPI_NOR then ret Devnull_ops
      else fatal Assertion_failed)"

definition coldplug_device_alloc :: "nat \<Rightarrow> ('a cp_pools_scheme, cptr) boot" where
  "coldplug_device_alloc dev_type =
     bnd (gets (\<lambda>s. scan (\<lambda>d. dev_in_use d = 0) 0 (coldplug_devices s))) (\<lambda>p.
       case p of None \<Rightarrow> ret None
       | Some i \<Rightarrow>
         thn (upd_device i (\<lambda>_. zero_device\<lparr>dev_in_use := 1, dev_magic := COLDPLUG_DEVICE_MAGIC,
                device_type := dev_type\<rparr>))
           (bnd (coldplug_bdev_ops_get dev_type) (\<lambda>ops.
             thn (upd_device i (bdev_ops_update (\<lambda>_. Some ops))) (ret (Some i)))))"

definition coldplug_device_validate :: "cptr \<Rightarrow> ('a cp_pools_scheme, unit) boot" where
  "coldplug_device_validate cdev =
     thn (assert_c (cdev \<noteq> None)) (deref coldplug_devices cdev (\<lambda>d.
       thn (assert_c (dev_in_use d = 1))
         (thn (assert_c (dev_magic d = COLDPLUG_DEVICE_MAGIC))
           (assert_c (bdev_ops d \<noteq> None)))))"

definition coldplug_device_find :: "nat \<Rightarrow> ('a cp_pools_scheme, cptr) boot" where
  "coldplug_device_find dev_type =
     bnd (gets (\<lambda>s. scan (\<lambda>d. dev_in_use d \<noteq> 0 \<and> device_type d = dev_type) 0 (coldplug_devices s)))
       (\<lambda>p. case p of None \<Rightarrow> ret None
            | Some i \<Rightarrow> thn (coldplug_device_validate (Some i)) (ret (Some i)))"

definition coldplug_slot_validate :: "cptr \<Rightarrow> ('a cp_pools_scheme, unit) boot" where
  "coldplug_slot_validate cslot =
     thn (assert_c (cslot \<noteq> None)) (deref coldplug_slots cslot (\<lambda>x.
       thn (assert_c (slot_in_use x = 1))
         (thn (assert_c (slot_magic x = COLDPLUG_SLOT_MAGIC))
           (assert_c (slot_cdev x \<noteq> None)))))"

definition coldplug_slot_alloc :: "cptr \<Rightarrow> u32 \<Rightarrow> int \<Rightarrow> ('a cp_pools_scheme, cptr) boot" where
  "coldplug_slot_alloc cdev no embedded =
     bnd (gets (\<lambda>s. scan (\<lambda>x. slot_in_use x = 0) 0 (coldplug_slots s))) (\<lambda>p.
       case p of None \<Rightarrow> ret None
       | Some i \<Rightarrow>
         thn (upd_slot i (\<lambda>_. zero_slot\<lparr>slot_in_use := 1, slot_magic := COLDPLUG_SLOT_MAGIC,
                slot_no := no, slot_cdev := cdev, is_embedded_device := embedded\<rparr>))
           (ret (Some i)))"

definition coldplug_slot_find :: "cptr \<Rightarrow> u32 \<Rightarrow> int \<Rightarrow> ('a cp_pools_scheme, cptr) boot" where
  "coldplug_slot_find cdev no embedded =
     bnd (gets (\<lambda>s. scan (\<lambda>x. slot_in_use x \<noteq> 0 \<and> slot_cdev x = cdev \<and> slot_no x = no \<and>
                is_embedded_device x = embedded) 0 (coldplug_slots s)))
       (\<lambda>p. case p of None \<Rightarrow> ret None
            | Some i \<Rightarrow> thn (coldplug_slot_validate (Some i)) (ret (Some i)))"

definition coldplug_lun_validate :: "cptr \<Rightarrow> ('a cp_pools_scheme, unit) boot" where
  "coldplug_lun_validate clun =
     thn (assert_c (clun \<noteq> None)) (deref coldplug_luns clun (\<lambda>x.
       thn (assert_c (lun_in_use x = 1))
         (thn (assert_c (lun_magic x = COLDPLUG_LUN_MAGIC))
           (thn (assert_c (lun_cslot x \<noteq> None))
             (coldplug_slot_validate (lun_cslot x))))))"

definition coldplug_lun_alloc :: "cptr \<Rightarrow> u32 \<Rightarrow> ('a cp_pools_scheme, cptr) boot" where
  "coldplug_lun_alloc cslot no =
     bnd (gets (\<lambda>s. scan (\<lambda>x. lun_in_use x = 0) 0 (coldplug_luns s))) (\<lambda>p.
       case p of None \<Rightarrow> ret None
       | Some i \<Rightarrow>
         thn (upd_lun i (\<lambda>_. zero_lun\<lparr>lun_in_use := 1, lun_magic := COLDPLUG_LUN_MAGIC,
                lun_cslot := cslot, lun_no := no\<rparr>))
           (ret (Some i)))"

definition coldplug_lun_find :: "cptr \<Rightarrow> u32 \<Rightarrow> ('a cp_pools_scheme, cptr) boot" where
  "coldplug_lun_find cslot no =
     bnd (gets (\<lambda>s. scan (\<lambda>x. lun_in_use x \<noteq> 0 \<and> lun_cslot x = cslot \<and> lun_no x = no) 0
                (coldplug_luns s)))
       (\<lambda>p. case p of None \<Rightarrow> ret None
            | Some i \<Rightarrow> thn (coldplug_lun_validate (Some i)) (ret (Some i)))"

definition coldplug_partition_alloc :: "cptr \<Rightarrow> ('a cp_pools_scheme, cptr) boot" where
  "coldplug_partition_alloc clun =
     thn (coldplug_lun_validate clun)
       (bnd (gets (\<lambda>s. scan (\<lambda>x. parti_in_use x = 0) 0 (coldplug_partitions s))) (\<lambda>p.
         case p of None \<Rightarrow> ret None
         | Some i \<Rightarrow>
           thn (upd_partition i (\<lambda>_. zero_partition\<lparr>parti_in_use := 1,
                  parti_magic := COLDPLUG_PARTI_MAGIC, parti_clun := clun,
                  parti_name := partition_name i\<rparr>))
             (ret (Some i))))"

definition coldplug_partition_validate :: "cptr \<Rightarrow> ('a cp_pools_scheme, unit) boot" where
  "coldplug_partition_validate cparti =
     thn (assert_c (cparti \<noteq> None)) (deref coldplug_partitions cparti (\<lambda>x.
       thn (assert_c (parti_in_use x = 1))
         (thn (assert_c (parti_magic x = COLDPLUG_PARTI_MAGIC))
           (coldplug_lun_validate (parti_clun x)))))"

definition coldplug_handle_validate :: "cptr \<Rightarrow> ('a cp_pools_scheme, unit) boot" where
  "coldplug_handle_validate chdl =
     thn (assert_c (chdl \<noteq> None)) (deref coldplug_handles chdl (\<lambda>x.
       thn (assert_c (hdl_in_use x = 1))
         (assert_c (hdl_magic x = COLDPLUG_HANDLE_MAGIC))))"

definition coldplug_handle_alloc :: "cptr \<Rightarrow> ('a cp_pools_scheme, cptr) boot" where
  "coldplug_handle_alloc cparti =
     thn (coldplug_partition_validate cparti)
       (bnd (gets (\<lambda>s. scan (\<lambda>x. hdl_in_use x = 0) 0 (coldplug_handles s))) (\<lambda>p.
         case p of None \<Rightarrow> ret None
         | Some i \<Rightarrow>
           thn (upd_handle i (\<lambda>_. zero_handle\<lparr>hdl_in_use := 1,
                  hdl_magic := COLDPLUG_HANDLE_MAGIC, hdl_cparti := cparti\<rparr>))
             (ret (Some i))))"

definition coldplug_handle_free :: "nat \<Rightarrow> ('a cp_pools_scheme, unit) boot" where
  "coldplug_handle_free chdl =
     thn (coldplug_handle_validate (Some chdl)) (upd_handle chdl (\<lambda>_. zero_handle))"

definition coldplug_is_handle_valid :: "cptr \<Rightarrow> ('a cp_pools_scheme, int) boot" where
  "coldplug_is_handle_valid chdl =
     (if chdl = None then ret (-1)
      else deref coldplug_handles chdl (\<lambda>x.
        if hdl_in_use x = 0 then ret (-1)
        else if hdl_magic x \<noteq> COLDPLUG_HANDLE_MAGIC then ret (-1)
        else ret 0))"

definition coldplug_handle_invalidate :: "nat \<Rightarrow> ('a cp_pools_scheme, unit) boot" where
  "coldplug_handle_invalidate chdl =
     thn (coldplug_handle_validate (Some chdl)) (upd_handle chdl (hdl_cparti_update (\<lambda>_. None)))"

text \<open>The frees, each releasing first what points to the object.\<close>

definition coldplug_partition_free :: "nat \<Rightarrow> ('a cp_pools_scheme, unit) boot" where
  "coldplug_partition_free cparti =
     thn (coldplug_partition_validate (Some cparti))
       (thn (for_each [0..<COLDPLUG_MAX_HANDLES] (\<lambda>i.
               deref coldplug_handles (Some i) (\<lambda>x.
                 whenb (hdl_in_use x \<noteq> 0 \<and> hdl_cparti x = Some cparti) (coldplug_handle_invalidate i))))
         (upd_partition cparti (\<lambda>_. zero_partition)))"

definition coldplug_lun_free :: "nat \<Rightarrow> ('a cp_pools_scheme, unit) boot" where
  "coldplug_lun_free clun =
     thn (coldplug_lun_validate (Some clun))
       (thn (for_each [0..<COLDPLUG_MAX_PARTITIONS] (\<lambda>i.
               deref coldplug_partitions (Some i) (\<lambda>x.
                 whenb (parti_in_use x \<noteq> 0 \<and> parti_clun x = Some clun) (coldplug_partition_free i))))
         (upd_lun clun (\<lambda>_. zero_lun)))"

definition coldplug_slot_free :: "nat \<Rightarrow> ('a cp_pools_scheme, unit) boot" where
  "coldplug_slot_free cslot =
     thn (for_each [0..<COLDPLUG_MAX_LUNS] (\<lambda>i.
            deref coldplug_luns (Some i) (\<lambda>x.
              whenb (lun_in_use x \<noteq> 0 \<and> lun_cslot x = Some cslot) (coldplug_lun_free i))))
       (upd_slot cslot (\<lambda>_. zero_slot))"

definition coldplug_device_free :: "nat \<Rightarrow> ('a cp_pools_scheme, unit) boot" where
  "coldplug_device_free cdev =
     thn (for_each [0..<COLDPLUG_MAX_SLOTS] (\<lambda>i.
            deref coldplug_slots (Some i) (\<lambda>x.
              whenb (slot_in_use x \<noteq> 0 \<and> slot_cdev x = Some cdev) (coldplug_slot_free i))))
       (upd_device cdev (\<lambda>_. zero_device))"

definition coldplug_partition_get_info :: "cptr \<Rightarrow> ('a cp_pools_scheme, coldplug_partition) boot" where
  "coldplug_partition_get_info chdl =
     thn (coldplug_handle_validate chdl)
       (deref coldplug_handles chdl (\<lambda>h.
         thn (assert_c (hdl_cparti h \<noteq> None)) (deref coldplug_partitions (hdl_cparti h) ret)))"

subsection \<open>Links\<close>

definition all_live :: "('r \<Rightarrow> bool) \<Rightarrow> ('r \<Rightarrow> bool) \<Rightarrow> 'r list \<Rightarrow> bool" where
  "all_live used live xs \<longleftrightarrow> (\<forall>x \<in> set xs. used x \<longrightarrow> live x)"

definition all_linked ::
  "('c \<Rightarrow> bool) \<Rightarrow> ('c \<Rightarrow> cptr) \<Rightarrow> bool \<Rightarrow> ('p \<Rightarrow> bool) \<Rightarrow> 'c list \<Rightarrow> 'p list \<Rightarrow> bool" where
  "all_linked cused up nullable pused cs ps \<longleftrightarrow> (\<forall>c \<in> set cs. cused c \<longrightarrow>
     (nullable \<and> up c = None) \<or> (\<exists>i < length ps. up c = Some i \<and> pused (ps ! i)))"

subsection \<open>Well-formed pools\<close>

abbreviation device_used :: "coldplug_device \<Rightarrow> bool" where "device_used d \<equiv> dev_in_use d \<noteq> 0"
abbreviation slot_used :: "coldplug_slot \<Rightarrow> bool" where "slot_used x \<equiv> slot_in_use x \<noteq> 0"
abbreviation lun_used :: "coldplug_lun \<Rightarrow> bool" where "lun_used x \<equiv> lun_in_use x \<noteq> 0"
abbreviation partition_used :: "coldplug_partition \<Rightarrow> bool" where "partition_used x \<equiv> parti_in_use x \<noteq> 0"
abbreviation handle_used :: "coldplug_handle \<Rightarrow> bool" where "handle_used x \<equiv> hdl_in_use x \<noteq> 0"

definition device_live :: "coldplug_device \<Rightarrow> bool" where
  "device_live d \<longleftrightarrow> dev_in_use d = 1 \<and> dev_magic d = COLDPLUG_DEVICE_MAGIC \<and> bdev_ops d \<noteq> None"

definition slot_live :: "coldplug_slot \<Rightarrow> bool" where
  "slot_live x \<longleftrightarrow> slot_in_use x = 1 \<and> slot_magic x = COLDPLUG_SLOT_MAGIC"

definition lun_live :: "coldplug_lun \<Rightarrow> bool" where
  "lun_live x \<longleftrightarrow> lun_in_use x = 1 \<and> lun_magic x = COLDPLUG_LUN_MAGIC"

definition partition_live :: "coldplug_partition \<Rightarrow> bool" where
  "partition_live x \<longleftrightarrow> parti_in_use x = 1 \<and> parti_magic x = COLDPLUG_PARTI_MAGIC"

definition handle_live :: "coldplug_handle \<Rightarrow> bool" where
  "handle_live x \<longleftrightarrow> hdl_in_use x = 1 \<and> hdl_magic x = COLDPLUG_HANDLE_MAGIC"

text \<open>
  Every object in use carries its magic number and points to an object in use; only a
  handle may point nowhere, after its partition was freed.
\<close>

definition pools_ok :: "'a cp_pools_scheme \<Rightarrow> bool" where
  "pools_ok s \<longleftrightarrow>
     length (coldplug_devices s) = COLDPLUG_MAX_DEVICES \<and>
     length (coldplug_slots s) = COLDPLUG_MAX_SLOTS \<and>
     length (coldplug_luns s) = COLDPLUG_MAX_LUNS \<and>
     length (coldplug_partitions s) = COLDPLUG_MAX_PARTITIONS \<and>
     length (coldplug_handles s) = COLDPLUG_MAX_HANDLES \<and>
     all_live device_used device_live (coldplug_devices s) \<and>
     all_live slot_used slot_live (coldplug_slots s) \<and>
     all_live lun_used lun_live (coldplug_luns s) \<and>
     all_live partition_used partition_live (coldplug_partitions s) \<and>
     all_live handle_used handle_live (coldplug_handles s) \<and>
     all_linked slot_used slot_cdev False device_used (coldplug_slots s) (coldplug_devices s) \<and>
     all_linked lun_used lun_cslot False slot_used (coldplug_luns s) (coldplug_slots s) \<and>
     all_linked partition_used parti_clun False lun_used (coldplug_partitions s) (coldplug_luns s) \<and>
     all_linked handle_used hdl_cparti True partition_used (coldplug_handles s) (coldplug_partitions s)"

text \<open>What is left of a state without the pools below a level.\<close>

definition but_handles :: "'a cp_pools_scheme \<Rightarrow> 'a cp_pools_scheme" where
  "but_handles s = s\<lparr>coldplug_handles := []\<rparr>"

definition but_partitions :: "'a cp_pools_scheme \<Rightarrow> 'a cp_pools_scheme" where
  "but_partitions s = s\<lparr>coldplug_partitions := [], coldplug_handles := []\<rparr>"

definition but_luns :: "'a cp_pools_scheme \<Rightarrow> 'a cp_pools_scheme" where
  "but_luns s = s\<lparr>coldplug_luns := [], coldplug_partitions := [], coldplug_handles := []\<rparr>"

definition but_slots :: "'a cp_pools_scheme \<Rightarrow> 'a cp_pools_scheme" where
  "but_slots s = s\<lparr>coldplug_slots := [], coldplug_luns := [], coldplug_partitions := [], coldplug_handles := []\<rparr>"

definition but_devices :: "'a cp_pools_scheme \<Rightarrow> 'a cp_pools_scheme" where
  "but_devices s = s\<lparr>coldplug_devices := [], coldplug_slots := [], coldplug_luns := [],
     coldplug_partitions := [], coldplug_handles := []\<rparr>"

subsection \<open>Search loops\<close>

lemma scan_Some:
  "scan P k xs = Some i \<Longrightarrow> k \<le> i \<and> i - k < length xs \<and> P (xs ! (i - k))"
proof (induction P k xs rule: scan.induct)
  case (2 P k x xs)
  show ?case
  proof (cases "P x")
    case False
    with 2 have *: "k + 1 \<le> i" "i - (k + 1) < length xs" "P (xs ! (i - (k + 1)))" by auto
    then have "i - k = Suc (i - (k + 1))" by simp
    with * show ?thesis by simp
  qed (use 2 in auto)
qed simp

lemma scan_None: "scan P k xs = None \<longleftrightarrow> (\<forall>x \<in> set xs. \<not> P x)"
  by (induction P k xs rule: scan.induct) auto

lemma scan_first: "scan P k xs = Some i \<Longrightarrow> j < i - k \<Longrightarrow> \<not> P (xs ! j)"
proof (induction P k xs arbitrary: j rule: scan.induct)
  case (2 P k x xs)
  then show ?case
    by (cases j) (auto split: if_splits)
qed simp

lemma deref_Some [simp]: "i < length (sel s) \<Longrightarrow> deref sel (Some i) f s = f (sel s ! i) s"
  by (simp add: deref_def)

lemma deref_None [simp]: "deref sel None f s = (Inl Undefined_behaviour, s)"
  by (simp add: deref_def)

subsection \<open>Pools and the links between them\<close>

locale pool =
  fixes used :: "'r \<Rightarrow> bool" and live :: "'r \<Rightarrow> bool" and blank :: 'r
  assumes blank_unused: "\<not> used blank"
    and live_used: "live x \<Longrightarrow> used x"
begin

abbreviation good :: "'r list \<Rightarrow> bool" where "good \<equiv> all_live used live"

lemma good_nth: "good xs \<Longrightarrow> i < length xs \<Longrightarrow> used (xs ! i) \<Longrightarrow> live (xs ! i)"
  by (simp add: all_live_def)

lemma good_update: "good xs \<Longrightarrow> (used x \<Longrightarrow> live x) \<Longrightarrow> good (xs[i := x])"
  using set_update_subset_insert [of xs i x] by (auto simp: all_live_def)

lemma good_blank: "good xs \<Longrightarrow> good (xs[i := blank])"
  by (rule good_update) (simp_all add: blank_unused)

lemma good_replicate: "good (replicate n blank)"
  by (auto simp: all_live_def blank_unused)

lemma good_map: "good xs \<Longrightarrow> (\<And>x. used (f x) \<Longrightarrow> used x) \<Longrightarrow> (\<And>x. live x \<Longrightarrow> live (f x)) \<Longrightarrow> good (map f xs)"
  by (auto simp: all_live_def)

end

text \<open>
  A pool whose objects point into another one: every object in use points to an object in
  use, or nowhere where \<open>nullable\<close> allows it.
\<close>

locale pool_link = child: pool cused clive cblank + parent: pool pused plive pblank
  for cused :: "'c \<Rightarrow> bool" and clive and cblank and pused :: "'p \<Rightarrow> bool" and plive and pblank +
  fixes up :: "'c \<Rightarrow> cptr" and nullable :: bool
begin

abbreviation linked :: "'c list \<Rightarrow> 'p list \<Rightarrow> bool" where
  "linked \<equiv> all_linked cused up nullable pused"

lemma linked_child:
  assumes "linked cs ps"
    and "cused c \<Longrightarrow> (nullable \<and> up c = None) \<or> (\<exists>i < length ps. up c = Some i \<and> pused (ps ! i))"
  shows "linked (cs[k := c]) ps"
  using assms set_update_subset_insert [of cs k c] by (auto simp: all_linked_def)

lemma linked_child_blank: "linked cs ps \<Longrightarrow> linked (cs[k := cblank]) ps"
  by (rule linked_child) (simp_all add: child.blank_unused)

lemma linked_parent: "linked cs ps \<Longrightarrow> pused p \<Longrightarrow> linked cs (ps[k := p])"
  unfolding all_linked_def by (metis length_list_update nth_list_update_eq nth_list_update_neq)

lemma linked_parent_free:
  assumes "linked cs ps" and "\<And>c. c \<in> set cs \<Longrightarrow> cused c \<Longrightarrow> up c \<noteq> Some k"
  shows "linked cs (ps[k := p])"
  using assms by (fastforce simp: all_linked_def nth_list_update)

lemma linked_replicate: "linked (replicate n cblank) ps"
  by (simp add: all_linked_def child.blank_unused)

lemma linked_nth:
  assumes "linked cs ps" and "i < length cs" and "cused (cs ! i)"
  obtains "nullable" "up (cs ! i) = None"
  | j where "j < length ps" "up (cs ! i) = Some j" "pused (ps ! j)"
  using assms unfolding all_linked_def by (meson nth_mem)

end


subsection \<open>The five pools and their four links\<close>

interpretation devices: pool device_used device_live zero_device
  by unfold_locales (simp_all add: zero_device_def device_live_def)

interpretation slots: pool_link slot_used slot_live zero_slot device_used device_live zero_device slot_cdev False
  by unfold_locales (simp_all add: zero_slot_def slot_live_def)

interpretation luns: pool_link lun_used lun_live zero_lun slot_used slot_live zero_slot lun_cslot False
  by unfold_locales (simp_all add: zero_lun_def lun_live_def)

interpretation partitions: pool_link partition_used partition_live zero_partition lun_used lun_live zero_lun parti_clun False
  by unfold_locales (simp_all add: zero_partition_def partition_live_def)

interpretation handles: pool_link handle_used handle_live zero_handle partition_used partition_live zero_partition hdl_cparti True
  by unfold_locales (simp_all add: zero_handle_def handle_live_def)

lemma pools_ok_length:
  assumes "pools_ok s"
  shows "length (coldplug_devices s) = COLDPLUG_MAX_DEVICES" "length (coldplug_slots s) = COLDPLUG_MAX_SLOTS"
    "length (coldplug_luns s) = COLDPLUG_MAX_LUNS" "length (coldplug_partitions s) = COLDPLUG_MAX_PARTITIONS"
    "length (coldplug_handles s) = COLDPLUG_MAX_HANDLES"
  using assms by (simp_all add: pools_ok_def)

lemma slot_parent:
  assumes "pools_ok s" "i < COLDPLUG_MAX_SLOTS" "slot_used (coldplug_slots s ! i)"
  obtains j where "j < COLDPLUG_MAX_DEVICES" "slot_cdev (coldplug_slots s ! i) = Some j"
    "device_used (coldplug_devices s ! j)"
  using assms slots.linked_nth [of "coldplug_slots s" "coldplug_devices s" i]
  by (auto simp: pools_ok_def)

lemma lun_parent:
  assumes "pools_ok s" "i < COLDPLUG_MAX_LUNS" "lun_used (coldplug_luns s ! i)"
  obtains j where "j < COLDPLUG_MAX_SLOTS" "lun_cslot (coldplug_luns s ! i) = Some j"
    "slot_used (coldplug_slots s ! j)"
  using assms luns.linked_nth [of "coldplug_luns s" "coldplug_slots s" i]
  by (auto simp: pools_ok_def)

lemma partition_parent:
  assumes "pools_ok s" "i < COLDPLUG_MAX_PARTITIONS" "partition_used (coldplug_partitions s ! i)"
  obtains j where "j < COLDPLUG_MAX_LUNS" "parti_clun (coldplug_partitions s ! i) = Some j"
    "lun_used (coldplug_luns s ! j)"
  using assms partitions.linked_nth [of "coldplug_partitions s" "coldplug_luns s" i]
  by (auto simp: pools_ok_def)

text \<open>On well-formed pools the validations pass and change nothing.\<close>

lemma device_validate_ok:
  assumes "pools_ok s" "i < COLDPLUG_MAX_DEVICES" "device_used (coldplug_devices s ! i)"
  shows "coldplug_device_validate (Some i) s = (Inr (), s)"
  using assms devices.good_nth [of "coldplug_devices s" i]
  by (simp add: coldplug_device_validate_def pools_ok_def device_live_def ret_app)

lemma slot_validate_ok:
  assumes "pools_ok s" "i < COLDPLUG_MAX_SLOTS" "slot_used (coldplug_slots s ! i)"
  shows "coldplug_slot_validate (Some i) s = (Inr (), s)"
proof -
  obtain j where "slot_cdev (coldplug_slots s ! i) = Some j" by (rule slot_parent [OF assms])
  then show ?thesis
    using assms slots.child.good_nth [of "coldplug_slots s" i]
    by (simp add: coldplug_slot_validate_def pools_ok_def slot_live_def ret_app)
qed

lemma lun_validate_ok:
  assumes "pools_ok s" "i < COLDPLUG_MAX_LUNS" "lun_used (coldplug_luns s ! i)"
  shows "coldplug_lun_validate (Some i) s = (Inr (), s)"
proof -
  obtain j where "j < COLDPLUG_MAX_SLOTS" "lun_cslot (coldplug_luns s ! i) = Some j"
    "slot_used (coldplug_slots s ! j)" by (rule lun_parent [OF assms])
  then show ?thesis
    using assms luns.child.good_nth [of "coldplug_luns s" i] slot_validate_ok [of s j]
    by (simp add: coldplug_lun_validate_def pools_ok_def lun_live_def ret_app)
qed

lemma partition_validate_ok:
  assumes "pools_ok s" "i < COLDPLUG_MAX_PARTITIONS" "partition_used (coldplug_partitions s ! i)"
  shows "coldplug_partition_validate (Some i) s = (Inr (), s)"
proof -
  obtain j where "j < COLDPLUG_MAX_LUNS" "parti_clun (coldplug_partitions s ! i) = Some j"
    "lun_used (coldplug_luns s ! j)" by (rule partition_parent [OF assms])
  then show ?thesis
    using assms partitions.child.good_nth [of "coldplug_partitions s" i] lun_validate_ok [of s j]
    by (simp add: coldplug_partition_validate_def pools_ok_def partition_live_def ret_app)
qed

lemma handle_validate_ok:
  assumes "pools_ok s" "i < COLDPLUG_MAX_HANDLES" "handle_used (coldplug_handles s ! i)"
  shows "coldplug_handle_validate (Some i) s = (Inr (), s)"
  using assms handles.child.good_nth [of "coldplug_handles s" i]
  by (simp add: coldplug_handle_validate_def pools_ok_def handle_live_def ret_app)

lemma handle_valid_iff:
  assumes "pools_ok s" "i < COLDPLUG_MAX_HANDLES"
  shows "coldplug_is_handle_valid (Some i) s =
    (Inr (if handle_used (coldplug_handles s ! i) then 0 else -1), s)"
  using assms handles.child.good_nth [of "coldplug_handles s" i]
  by (auto simp: coldplug_is_handle_valid_def pools_ok_def handle_live_def ret_app)

lemmas validate_ok = device_validate_ok slot_validate_ok lun_validate_ok partition_validate_ok
  handle_validate_ok


subsection \<open>Allocation\<close>

lemma scan_index:
  assumes "scan P 0 xs = Some i"
  shows "i < length xs" and "P (xs ! i)"
  using scan_Some [OF assms] by simp_all

lemma bdev_ops_get_ret: "dev_type < COLDPLUG_DEVICE_MAX \<Longrightarrow> coldplug_bdev_ops_get dev_type =
    ret (if dev_type = COLDPLUG_DEVICE_SD then Sd_ops
         else if dev_type = COLDPLUG_DEVICE_UFS then Ufs_ops else Devnull_ops)"
  by (auto simp: coldplug_bdev_ops_get_def)

lemma device_alloc_run:
  assumes "pools_ok s" and "dev_type < COLDPLUG_DEVICE_MAX"
    and "coldplug_device_alloc dev_type s = (r, t)"
  shows "pools_ok t" and
    "(r = Inr None \<and> t = s \<and> (\<forall>d \<in> set (coldplug_devices s). device_used d)) \<or>
     (\<exists>i ops. r = Inr (Some i) \<and> i < COLDPLUG_MAX_DEVICES \<and> \<not> device_used (coldplug_devices s ! i) \<and>
        t = s\<lparr>coldplug_devices := (coldplug_devices s)[i := zero_device\<lparr>dev_in_use := 1,
          dev_magic := COLDPLUG_DEVICE_MAGIC, device_type := dev_type, bdev_ops := Some ops\<rparr>]\<rparr>)"
proof -
  have len: "length (coldplug_devices s) = COLDPLUG_MAX_DEVICES" by (rule pools_ok_length [OF assms(1)])
  show *: "(r = Inr None \<and> t = s \<and> (\<forall>d \<in> set (coldplug_devices s). device_used d)) \<or>
     (\<exists>i ops. r = Inr (Some i) \<and> i < COLDPLUG_MAX_DEVICES \<and> \<not> device_used (coldplug_devices s ! i) \<and>
        t = s\<lparr>coldplug_devices := (coldplug_devices s)[i := zero_device\<lparr>dev_in_use := 1,
          dev_magic := COLDPLUG_DEVICE_MAGIC, device_type := dev_type, bdev_ops := Some ops\<rparr>]\<rparr>)"
  proof (cases "scan (\<lambda>d. dev_in_use d = 0) 0 (coldplug_devices s)")
    case None
    with assms(3) show ?thesis
      by (auto simp: coldplug_device_alloc_def ret_app scan_None)
  next
    case (Some i)
    let ?ops = "if dev_type = COLDPLUG_DEVICE_SD then Sd_ops
      else if dev_type = COLDPLUG_DEVICE_UFS then Ufs_ops else Devnull_ops"
    from scan_index [OF Some] len have i: "i < COLDPLUG_MAX_DEVICES" "\<not> device_used (coldplug_devices s ! i)"
      by simp_all
    have "r = Inr (Some i) \<and> t = s\<lparr>coldplug_devices := (coldplug_devices s)[i := zero_device\<lparr>dev_in_use := 1,
        dev_magic := COLDPLUG_DEVICE_MAGIC, device_type := dev_type, bdev_ops := Some ?ops\<rparr>]\<rparr>"
      using Some assms(2,3) i(1) len
      by (simp add: coldplug_device_alloc_def upd_device_def bdev_ops_get_ret ret_app comp_def)
    with i show ?thesis by blast
  qed
  from * assms(1) show "pools_ok t"
    by (auto simp: pools_ok_def device_live_def intro!: devices.good_update slots.linked_parent)
qed

lemma slot_alloc_run:
  assumes "pools_ok s" and "j < COLDPLUG_MAX_DEVICES" and "device_used (coldplug_devices s ! j)"
    and "coldplug_slot_alloc (Some j) no emb s = (r, t)"
  shows "pools_ok t" and
    "(r = Inr None \<and> t = s \<and> (\<forall>x \<in> set (coldplug_slots s). slot_used x)) \<or>
     (\<exists>i. r = Inr (Some i) \<and> i < COLDPLUG_MAX_SLOTS \<and> \<not> slot_used (coldplug_slots s ! i) \<and>
        t = s\<lparr>coldplug_slots := (coldplug_slots s)[i := zero_slot\<lparr>slot_in_use := 1,
          slot_magic := COLDPLUG_SLOT_MAGIC, slot_no := no, slot_cdev := Some j,
          is_embedded_device := emb\<rparr>]\<rparr>)"
proof -
  have len: "length (coldplug_slots s) = COLDPLUG_MAX_SLOTS" by (rule pools_ok_length [OF assms(1)])
  show *: "(r = Inr None \<and> t = s \<and> (\<forall>x \<in> set (coldplug_slots s). slot_used x)) \<or>
     (\<exists>i. r = Inr (Some i) \<and> i < COLDPLUG_MAX_SLOTS \<and> \<not> slot_used (coldplug_slots s ! i) \<and>
        t = s\<lparr>coldplug_slots := (coldplug_slots s)[i := zero_slot\<lparr>slot_in_use := 1,
          slot_magic := COLDPLUG_SLOT_MAGIC, slot_no := no, slot_cdev := Some j,
          is_embedded_device := emb\<rparr>]\<rparr>)"
    using assms(4) len scan_index [of "\<lambda>x. slot_in_use x = 0" "coldplug_slots s"]
    by (cases "scan (\<lambda>x. slot_in_use x = 0) 0 (coldplug_slots s)")
      (auto simp: coldplug_slot_alloc_def upd_slot_def ret_app scan_None)
  from * assms(1-3) show "pools_ok t"
    by (auto simp: pools_ok_def slot_live_def
        intro!: slots.child.good_update slots.linked_child luns.linked_parent)
qed

lemma lun_alloc_run:
  assumes "pools_ok s" and "j < COLDPLUG_MAX_SLOTS" and "slot_used (coldplug_slots s ! j)"
    and "coldplug_lun_alloc (Some j) no s = (r, t)"
  shows "pools_ok t" and
    "(r = Inr None \<and> t = s \<and> (\<forall>x \<in> set (coldplug_luns s). lun_used x)) \<or>
     (\<exists>i. r = Inr (Some i) \<and> i < COLDPLUG_MAX_LUNS \<and> \<not> lun_used (coldplug_luns s ! i) \<and>
        t = s\<lparr>coldplug_luns := (coldplug_luns s)[i := zero_lun\<lparr>lun_in_use := 1,
          lun_magic := COLDPLUG_LUN_MAGIC, lun_cslot := Some j, lun_no := no\<rparr>]\<rparr>)"
proof -
  have len: "length (coldplug_luns s) = COLDPLUG_MAX_LUNS" by (rule pools_ok_length [OF assms(1)])
  show *: "(r = Inr None \<and> t = s \<and> (\<forall>x \<in> set (coldplug_luns s). lun_used x)) \<or>
     (\<exists>i. r = Inr (Some i) \<and> i < COLDPLUG_MAX_LUNS \<and> \<not> lun_used (coldplug_luns s ! i) \<and>
        t = s\<lparr>coldplug_luns := (coldplug_luns s)[i := zero_lun\<lparr>lun_in_use := 1,
          lun_magic := COLDPLUG_LUN_MAGIC, lun_cslot := Some j, lun_no := no\<rparr>]\<rparr>)"
    using assms(4) len scan_index [of "\<lambda>x. lun_in_use x = 0" "coldplug_luns s"]
    by (cases "scan (\<lambda>x. lun_in_use x = 0) 0 (coldplug_luns s)")
      (auto simp: coldplug_lun_alloc_def upd_lun_def ret_app scan_None)
  from * assms(1-3) show "pools_ok t"
    by (auto simp: pools_ok_def lun_live_def
        intro!: luns.child.good_update luns.linked_child partitions.linked_parent)
qed

lemma partition_alloc_run:
  assumes "pools_ok s" and "j < COLDPLUG_MAX_LUNS" and "lun_used (coldplug_luns s ! j)"
    and "coldplug_partition_alloc (Some j) s = (r, t)"
  shows "pools_ok t" and
    "(r = Inr None \<and> t = s \<and> (\<forall>x \<in> set (coldplug_partitions s). partition_used x)) \<or>
     (\<exists>i. r = Inr (Some i) \<and> i < COLDPLUG_MAX_PARTITIONS \<and> \<not> partition_used (coldplug_partitions s ! i) \<and>
        t = s\<lparr>coldplug_partitions := (coldplug_partitions s)[i := zero_partition\<lparr>parti_in_use := 1,
          parti_magic := COLDPLUG_PARTI_MAGIC, parti_clun := Some j, parti_name := partition_name i\<rparr>]\<rparr>)"
proof -
  have len: "length (coldplug_partitions s) = COLDPLUG_MAX_PARTITIONS" by (rule pools_ok_length [OF assms(1)])
  show *: "(r = Inr None \<and> t = s \<and> (\<forall>x \<in> set (coldplug_partitions s). partition_used x)) \<or>
     (\<exists>i. r = Inr (Some i) \<and> i < COLDPLUG_MAX_PARTITIONS \<and> \<not> partition_used (coldplug_partitions s ! i) \<and>
        t = s\<lparr>coldplug_partitions := (coldplug_partitions s)[i := zero_partition\<lparr>parti_in_use := 1,
          parti_magic := COLDPLUG_PARTI_MAGIC, parti_clun := Some j, parti_name := partition_name i\<rparr>]\<rparr>)"
    using assms(4) len scan_index [of "\<lambda>x. parti_in_use x = 0" "coldplug_partitions s"]
    by (cases "scan (\<lambda>x. parti_in_use x = 0) 0 (coldplug_partitions s)")
      (auto simp: coldplug_partition_alloc_def upd_partition_def ret_app scan_None
        thn_app [of "coldplug_lun_validate (Some j)"] lun_validate_ok [OF assms(1-3)])
  from * assms(1-3) show "pools_ok t"
    by (auto simp: pools_ok_def partition_live_def
        intro!: partitions.child.good_update partitions.linked_child handles.linked_parent)
qed

lemma handle_alloc_run:
  assumes "pools_ok s" and "j < COLDPLUG_MAX_PARTITIONS" and "partition_used (coldplug_partitions s ! j)"
    and "coldplug_handle_alloc (Some j) s = (r, t)"
  shows "pools_ok t" and
    "(r = Inr None \<and> t = s \<and> (\<forall>x \<in> set (coldplug_handles s). handle_used x)) \<or>
     (\<exists>i. r = Inr (Some i) \<and> i < COLDPLUG_MAX_HANDLES \<and> \<not> handle_used (coldplug_handles s ! i) \<and>
        t = s\<lparr>coldplug_handles := (coldplug_handles s)[i := zero_handle\<lparr>hdl_in_use := 1,
          hdl_magic := COLDPLUG_HANDLE_MAGIC, hdl_cparti := Some j\<rparr>]\<rparr>)"
proof -
  have len: "length (coldplug_handles s) = COLDPLUG_MAX_HANDLES" by (rule pools_ok_length [OF assms(1)])
  show *: "(r = Inr None \<and> t = s \<and> (\<forall>x \<in> set (coldplug_handles s). handle_used x)) \<or>
     (\<exists>i. r = Inr (Some i) \<and> i < COLDPLUG_MAX_HANDLES \<and> \<not> handle_used (coldplug_handles s ! i) \<and>
        t = s\<lparr>coldplug_handles := (coldplug_handles s)[i := zero_handle\<lparr>hdl_in_use := 1,
          hdl_magic := COLDPLUG_HANDLE_MAGIC, hdl_cparti := Some j\<rparr>]\<rparr>)"
    using assms(4) len scan_index [of "\<lambda>x. hdl_in_use x = 0" "coldplug_handles s"]
    by (cases "scan (\<lambda>x. hdl_in_use x = 0) 0 (coldplug_handles s)")
      (auto simp: coldplug_handle_alloc_def upd_handle_def ret_app scan_None
        thn_app [of "coldplug_partition_validate (Some j)"] partition_validate_ok [OF assms(1-3)])
  from * assms(1-3) show "pools_ok t"
    by (auto simp: pools_ok_def handle_live_def
        intro!: handles.child.good_update handles.linked_child)
qed


subsection \<open>The cascading frees\<close>

lemma handle_invalidate_run:
  assumes "pools_ok s" and "i < COLDPLUG_MAX_HANDLES" and "handle_used (coldplug_handles s ! i)"
  shows "\<exists>hs. coldplug_handle_invalidate i s = (Inr (), s\<lparr>coldplug_handles := (coldplug_handles s)[i := hs]\<rparr>) \<and>
    handle_live hs \<and> hdl_cparti hs = None \<and> pools_ok (s\<lparr>coldplug_handles := (coldplug_handles s)[i := hs]\<rparr>)"
proof -
  let ?h = "(coldplug_handles s ! i)\<lparr>hdl_cparti := None\<rparr>"
  have live: "handle_live ?h"
    using assms handles.child.good_nth [of "coldplug_handles s" i] by (simp add: pools_ok_def handle_live_def)
  then have "pools_ok (s\<lparr>coldplug_handles := (coldplug_handles s)[i := ?h]\<rparr>)"
    using assms(1) by (auto simp: pools_ok_def intro!: handles.child.good_update handles.linked_child)
  with live show ?thesis
    using handle_validate_ok [OF assms]
    by (intro exI [of _ ?h]) (simp add: coldplug_handle_invalidate_def thn_app upd_handle_def)
qed

lemma pools_ok_free_partition:
  assumes "pools_ok s" and "\<forall>j < COLDPLUG_MAX_HANDLES. handle_used (coldplug_handles s ! j) \<longrightarrow> hdl_cparti (coldplug_handles s ! j) \<noteq> Some k"
  shows "pools_ok (s\<lparr>coldplug_partitions := (coldplug_partitions s)[k := zero_partition]\<rparr>)"
  using assms by (auto simp: pools_ok_def in_set_conv_nth
      intro!: partitions.child.good_blank partitions.linked_child_blank handles.linked_parent_free)

lemma pools_ok_free_lun:
  assumes "pools_ok s" and "\<forall>j < COLDPLUG_MAX_PARTITIONS. partition_used (coldplug_partitions s ! j) \<longrightarrow> parti_clun (coldplug_partitions s ! j) \<noteq> Some k"
  shows "pools_ok (s\<lparr>coldplug_luns := (coldplug_luns s)[k := zero_lun]\<rparr>)"
  using assms by (auto simp: pools_ok_def in_set_conv_nth
      intro!: luns.child.good_blank luns.linked_child_blank partitions.linked_parent_free)

lemma pools_ok_free_slot:
  assumes "pools_ok s" and "\<forall>j < COLDPLUG_MAX_LUNS. lun_used (coldplug_luns s ! j) \<longrightarrow> lun_cslot (coldplug_luns s ! j) \<noteq> Some k"
  shows "pools_ok (s\<lparr>coldplug_slots := (coldplug_slots s)[k := zero_slot]\<rparr>)"
  using assms by (auto simp: pools_ok_def in_set_conv_nth
      intro!: slots.child.good_blank slots.linked_child_blank luns.linked_parent_free)

lemma pools_ok_free_device:
  assumes "pools_ok s" and "\<forall>j < COLDPLUG_MAX_SLOTS. slot_used (coldplug_slots s ! j) \<longrightarrow> slot_cdev (coldplug_slots s ! j) \<noteq> Some k"
  shows "pools_ok (s\<lparr>coldplug_devices := (coldplug_devices s)[k := zero_device]\<rparr>)"
  using assms by (auto simp: pools_ok_def in_set_conv_nth
      intro!: devices.good_blank slots.linked_parent_free)

lemma but_handles_D: "but_handles t = but_handles s \<Longrightarrow>
    coldplug_partitions t = coldplug_partitions s \<and> but_partitions t = but_partitions s"
  by (cases s, cases t) (simp add: but_handles_def but_partitions_def)

lemma but_partitions_D: "but_partitions t = but_partitions s \<Longrightarrow>
    coldplug_luns t = coldplug_luns s \<and> but_luns t = but_luns s"
  by (cases s, cases t) (simp add: but_partitions_def but_luns_def)

lemma but_luns_D: "but_luns t = but_luns s \<Longrightarrow>
    coldplug_slots t = coldplug_slots s \<and> but_slots t = but_slots s"
  by (cases s, cases t) (simp add: but_luns_def but_slots_def)

lemma but_slots_D: "but_slots t = but_slots s \<Longrightarrow>
    coldplug_devices t = coldplug_devices s \<and> but_devices t = but_devices s"
  by (cases s, cases t) (simp add: but_slots_def but_devices_def)

lemma partition_free_run:
  assumes "pools_ok s" and "k < COLDPLUG_MAX_PARTITIONS" and "partition_used (coldplug_partitions s ! k)"
  shows "\<exists>t. coldplug_partition_free k s = (Inr (), t) \<and> pools_ok t \<and>
    coldplug_partitions t = (coldplug_partitions s)[k := zero_partition] \<and>
    but_partitions t = but_partitions s"
proof -
  let ?I = "\<lambda>i u. pools_ok u \<and> but_handles u = but_handles s \<and>
    (\<forall>j < i. handle_used (coldplug_handles u ! j) \<longrightarrow> hdl_cparti (coldplug_handles u ! j) \<noteq> Some k)"
  let ?f = "\<lambda>i. deref coldplug_handles (Some i) (\<lambda>x.
    whenb (hdl_in_use x \<noteq> 0 \<and> hdl_cparti x = Some k) (coldplug_handle_invalidate i))"
  have "\<exists>u. for_each [0..<COLDPLUG_MAX_HANDLES] ?f s = (Inr (), u) \<and> ?I COLDPLUG_MAX_HANDLES u"
  proof (rule for_each_upt)
    fix i u assume i: "i < COLDPLUG_MAX_HANDLES" and I: "?I i u"
    then have len: "length (coldplug_handles u) = COLDPLUG_MAX_HANDLES" by (simp add: pools_ok_length)
    show "\<exists>t. ?f i u = (Inr (), t) \<and> ?I (Suc i) t"
    proof (cases "handle_used (coldplug_handles u ! i) \<and> hdl_cparti (coldplug_handles u ! i) = Some k")
      case True
      then obtain h where "coldplug_handle_invalidate i u = (Inr (), u\<lparr>coldplug_handles := (coldplug_handles u)[i := h]\<rparr>)"
        "hdl_cparti h = None" "pools_ok (u\<lparr>coldplug_handles := (coldplug_handles u)[i := h]\<rparr>)"
        using handle_invalidate_run [of u i] I i by blast
      with True I i len show ?thesis by (auto simp: nth_list_update less_Suc_eq but_handles_def)
    next
      case False
      with I i len show ?thesis by (auto simp: ret_app less_Suc_eq)
    qed
  qed (use assms(1) in simp_all)
  then obtain u where u: "for_each [0..<COLDPLUG_MAX_HANDLES] ?f s = (Inr (), u)" "pools_ok u"
    "but_handles u = but_handles s"
    "\<forall>j < COLDPLUG_MAX_HANDLES. handle_used (coldplug_handles u ! j) \<longrightarrow> hdl_cparti (coldplug_handles u ! j) \<noteq> Some k"
    by blast
  have "coldplug_partition_free k s = (Inr (), u\<lparr>coldplug_partitions := (coldplug_partitions u)[k := zero_partition]\<rparr>)"
    using partition_validate_ok [OF assms] u(1)
    by (simp add: coldplug_partition_free_def thn_app upd_partition_def)
  with pools_ok_free_partition [OF u(2,4)] but_handles_D [OF u(3)] show ?thesis
    by (simp add: but_partitions_def)
qed

lemma lun_free_run:
  assumes "pools_ok s" and "k < COLDPLUG_MAX_LUNS" and "lun_used (coldplug_luns s ! k)"
  shows "\<exists>t. coldplug_lun_free k s = (Inr (), t) \<and> pools_ok t \<and>
    coldplug_luns t = (coldplug_luns s)[k := zero_lun] \<and>
    but_luns t = but_luns s"
proof -
  let ?I = "\<lambda>i u. pools_ok u \<and> coldplug_luns u = coldplug_luns s \<and> but_luns u = but_luns s \<and>
    (\<forall>j < i. partition_used (coldplug_partitions u ! j) \<longrightarrow> parti_clun (coldplug_partitions u ! j) \<noteq> Some k)"
  let ?f = "\<lambda>i. deref coldplug_partitions (Some i) (\<lambda>x.
    whenb (partition_used x \<and> parti_clun x = Some k) (coldplug_partition_free i))"
  have "\<exists>u. for_each [0..<COLDPLUG_MAX_PARTITIONS] ?f s = (Inr (), u) \<and> ?I COLDPLUG_MAX_PARTITIONS u"
  proof (rule for_each_upt)
    fix i u assume i: "i < COLDPLUG_MAX_PARTITIONS" and I: "?I i u"
    then have len: "length (coldplug_partitions u) = COLDPLUG_MAX_PARTITIONS" by (simp add: pools_ok_length)
    show "\<exists>t. ?f i u = (Inr (), t) \<and> ?I (Suc i) t"
    proof (cases "partition_used (coldplug_partitions u ! i) \<and> parti_clun (coldplug_partitions u ! i) = Some k")
      case True
      then obtain t where "coldplug_partition_free i u = (Inr (), t)" "pools_ok t"
        "coldplug_partitions t = (coldplug_partitions u)[i := zero_partition]" "but_partitions t = but_partitions u"
        using partition_free_run [of u i] I i by blast
      with True I i len show ?thesis
        by (auto simp: nth_list_update less_Suc_eq zero_partition_def dest: but_partitions_D)
    next
      case False
      with I i len show ?thesis by (auto simp: ret_app less_Suc_eq)
    qed
  qed (use assms(1) in simp_all)
  then obtain u where u: "for_each [0..<COLDPLUG_MAX_PARTITIONS] ?f s = (Inr (), u)" "pools_ok u"
    "coldplug_luns u = coldplug_luns s" "but_luns u = but_luns s"
    "\<forall>j < COLDPLUG_MAX_PARTITIONS. partition_used (coldplug_partitions u ! j) \<longrightarrow> parti_clun (coldplug_partitions u ! j) \<noteq> Some k"
    by blast
  have "coldplug_lun_free k s = (Inr (), u\<lparr>coldplug_luns := (coldplug_luns u)[k := zero_lun]\<rparr>)"
    using lun_validate_ok [OF assms] u(1)
    by (simp add: coldplug_lun_free_def thn_app upd_lun_def)
  with pools_ok_free_lun [OF u(2,5)] u(3,4) show ?thesis
    by (simp add: but_luns_def)
qed

lemma slot_free_run:
  assumes "pools_ok s" and "k < COLDPLUG_MAX_SLOTS" and "slot_used (coldplug_slots s ! k)"
  shows "\<exists>t. coldplug_slot_free k s = (Inr (), t) \<and> pools_ok t \<and>
    coldplug_slots t = (coldplug_slots s)[k := zero_slot] \<and>
    but_slots t = but_slots s"
proof -
  let ?I = "\<lambda>i u. pools_ok u \<and> coldplug_slots u = coldplug_slots s \<and> but_slots u = but_slots s \<and>
    (\<forall>j < i. lun_used (coldplug_luns u ! j) \<longrightarrow> lun_cslot (coldplug_luns u ! j) \<noteq> Some k)"
  let ?f = "\<lambda>i. deref coldplug_luns (Some i) (\<lambda>x.
    whenb (lun_used x \<and> lun_cslot x = Some k) (coldplug_lun_free i))"
  have "\<exists>u. for_each [0..<COLDPLUG_MAX_LUNS] ?f s = (Inr (), u) \<and> ?I COLDPLUG_MAX_LUNS u"
  proof (rule for_each_upt)
    fix i u assume i: "i < COLDPLUG_MAX_LUNS" and I: "?I i u"
    then have len: "length (coldplug_luns u) = COLDPLUG_MAX_LUNS" by (simp add: pools_ok_length)
    show "\<exists>t. ?f i u = (Inr (), t) \<and> ?I (Suc i) t"
    proof (cases "lun_used (coldplug_luns u ! i) \<and> lun_cslot (coldplug_luns u ! i) = Some k")
      case True
      then obtain t where "coldplug_lun_free i u = (Inr (), t)" "pools_ok t"
        "coldplug_luns t = (coldplug_luns u)[i := zero_lun]" "but_luns t = but_luns u"
        using lun_free_run [of u i] I i by blast
      with True I i len show ?thesis
        by (auto simp: nth_list_update less_Suc_eq zero_lun_def dest: but_luns_D)
    next
      case False
      with I i len show ?thesis by (auto simp: ret_app less_Suc_eq)
    qed
  qed (use assms(1) in simp_all)
  then obtain u where u: "for_each [0..<COLDPLUG_MAX_LUNS] ?f s = (Inr (), u)" "pools_ok u"
    "coldplug_slots u = coldplug_slots s" "but_slots u = but_slots s"
    "\<forall>j < COLDPLUG_MAX_LUNS. lun_used (coldplug_luns u ! j) \<longrightarrow> lun_cslot (coldplug_luns u ! j) \<noteq> Some k"
    by blast
  have "coldplug_slot_free k s = (Inr (), u\<lparr>coldplug_slots := (coldplug_slots u)[k := zero_slot]\<rparr>)"
    using  u(1)
    by (simp add: coldplug_slot_free_def thn_app upd_slot_def)
  with pools_ok_free_slot [OF u(2,5)] u(3,4) show ?thesis
    by (simp add: but_slots_def)
qed

lemma device_free_run:
  assumes "pools_ok s" and "k < COLDPLUG_MAX_DEVICES" and "device_used (coldplug_devices s ! k)"
  shows "\<exists>t. coldplug_device_free k s = (Inr (), t) \<and> pools_ok t \<and>
    coldplug_devices t = (coldplug_devices s)[k := zero_device] \<and>
    but_devices t = but_devices s"
proof -
  let ?I = "\<lambda>i u. pools_ok u \<and> coldplug_devices u = coldplug_devices s \<and> but_devices u = but_devices s \<and>
    (\<forall>j < i. slot_used (coldplug_slots u ! j) \<longrightarrow> slot_cdev (coldplug_slots u ! j) \<noteq> Some k)"
  let ?f = "\<lambda>i. deref coldplug_slots (Some i) (\<lambda>x.
    whenb (slot_used x \<and> slot_cdev x = Some k) (coldplug_slot_free i))"
  have "\<exists>u. for_each [0..<COLDPLUG_MAX_SLOTS] ?f s = (Inr (), u) \<and> ?I COLDPLUG_MAX_SLOTS u"
  proof (rule for_each_upt)
    fix i u assume i: "i < COLDPLUG_MAX_SLOTS" and I: "?I i u"
    then have len: "length (coldplug_slots u) = COLDPLUG_MAX_SLOTS" by (simp add: pools_ok_length)
    show "\<exists>t. ?f i u = (Inr (), t) \<and> ?I (Suc i) t"
    proof (cases "slot_used (coldplug_slots u ! i) \<and> slot_cdev (coldplug_slots u ! i) = Some k")
      case True
      then obtain t where "coldplug_slot_free i u = (Inr (), t)" "pools_ok t"
        "coldplug_slots t = (coldplug_slots u)[i := zero_slot]" "but_slots t = but_slots u"
        using slot_free_run [of u i] I i by blast
      with True I i len show ?thesis
        by (auto simp: nth_list_update less_Suc_eq zero_slot_def dest: but_slots_D)
    next
      case False
      with I i len show ?thesis by (auto simp: ret_app less_Suc_eq)
    qed
  qed (use assms(1) in simp_all)
  then obtain u where u: "for_each [0..<COLDPLUG_MAX_SLOTS] ?f s = (Inr (), u)" "pools_ok u"
    "coldplug_devices u = coldplug_devices s" "but_devices u = but_devices s"
    "\<forall>j < COLDPLUG_MAX_SLOTS. slot_used (coldplug_slots u ! j) \<longrightarrow> slot_cdev (coldplug_slots u ! j) \<noteq> Some k"
    by blast
  have "coldplug_device_free k s = (Inr (), u\<lparr>coldplug_devices := (coldplug_devices u)[k := zero_device]\<rparr>)"
    using  u(1)
    by (simp add: coldplug_device_free_def thn_app upd_device_def)
  with pools_ok_free_device [OF u(2,5)] u(3,4) show ?thesis
    by (simp add: but_devices_def)
qed


subsection \<open>Correctness of the pools\<close>

text \<open>
  (C33) Freeing a device releases everything below it: on well-formed pools
  \<^verbatim>\<open>coldplug_device_free\<close> ends without a failed assertion or a null access, the device entry
  is blank again, no slot in use points to it any more, the links stay well-formed, and
  nothing but the five pools changes.
\<close>

theorem device_free_correct:
  assumes "pools_ok s" and "k < COLDPLUG_MAX_DEVICES" and "device_used (coldplug_devices s ! k)"
  shows "\<exists>t. coldplug_device_free k s = (Inr (), t) \<and> pools_ok t \<and>
    coldplug_devices t = (coldplug_devices s)[k := zero_device] \<and>
    (\<forall>x \<in> set (coldplug_slots t). slot_used x \<longrightarrow> slot_cdev x \<noteq> Some k) \<and>
    but_devices t = but_devices s"
proof -
  from device_free_run [OF assms] obtain t where t: "coldplug_device_free k s = (Inr (), t)" "pools_ok t"
    "coldplug_devices t = (coldplug_devices s)[k := zero_device]" "but_devices t = but_devices s" by blast
  have "slot_cdev (coldplug_slots t ! i) \<noteq> Some k"
    if i: "i < COLDPLUG_MAX_SLOTS" "slot_used (coldplug_slots t ! i)" for i
  proof -
    obtain j where "slot_cdev (coldplug_slots t ! i) = Some j" "device_used (coldplug_devices t ! j)"
      using slot_parent [OF t(2) i] by blast
    then show ?thesis using assms(1,2) t(3) by (auto simp: zero_device_def pools_ok_length)
  qed
  with t show ?thesis by (auto simp: in_set_conv_nth pools_ok_length)
qed

definition example_pools :: cp_pools where
  "example_pools = \<lparr>memory = (\<lambda>_. 0), curr_image_whitelst_tbl = zero_table,
     hdr_meta_whitelst_tbl = zero_table,
     coldplug_devices = zero_device\<lparr>dev_in_use := 1, dev_magic := COLDPLUG_DEVICE_MAGIC,
       device_type := COLDPLUG_DEVICE_UFS, bdev_ops := Some Ufs_ops\<rparr> # replicate 2 zero_device,
     coldplug_slots = zero_slot\<lparr>slot_in_use := 1, slot_magic := COLDPLUG_SLOT_MAGIC,
       slot_cdev := Some 0\<rparr> # replicate 4 zero_slot,
     coldplug_luns = zero_lun\<lparr>lun_in_use := 1, lun_magic := COLDPLUG_LUN_MAGIC,
       lun_cslot := Some 0, bdev_hdl := 1, lba_size := 4, lun_total_lba := 16\<rparr> # replicate 8 zero_lun,
     coldplug_partitions = zero_partition\<lparr>parti_in_use := 1, parti_magic := COLDPLUG_PARTI_MAGIC,
       parti_clun := Some 0, start_lba := 2, total_lba := 8\<rparr> # replicate 127 zero_partition,
     coldplug_handles = zero_handle\<lparr>hdl_in_use := 1, hdl_magic := COLDPLUG_HANDLE_MAGIC,
       hdl_cparti := Some 0\<rparr> # replicate 4 zero_handle\<rparr>"

lemmas blanks = zero_device_def zero_slot_def zero_lun_def zero_partition_def zero_handle_def

lemmas lives = device_live_def slot_live_def lun_live_def partition_live_def handle_live_def

lemma example_pools_ok: "pools_ok example_pools"
  by (simp add: pools_ok_def example_pools_def all_live_def all_linked_def blanks lives)

theorem device_free_correct_witness:
  "\<exists>t. coldplug_device_free 0 example_pools = (Inr (), t) \<and> pools_ok t \<and>
    coldplug_devices t = (coldplug_devices example_pools)[0 := zero_device] \<and>
    (\<forall>x \<in> set (coldplug_slots t). slot_used x \<longrightarrow> slot_cdev x \<noteq> Some 0) \<and>
    but_devices t = but_devices example_pools"
  by (rule device_free_correct [OF example_pools_ok]) (simp_all add: example_pools_def)

text \<open>
  Allocation never hands out an object in use: on well-formed pools a partition entry
  is either found unused and initialised for its logical unit, everything else unchanged,
  or the pool is full and the state unchanged; there is no other outcome.
\<close>

theorem partition_alloc_correct:
  assumes "pools_ok s" and "j < COLDPLUG_MAX_LUNS" and "lun_used (coldplug_luns s ! j)"
  shows "(\<exists>i < COLDPLUG_MAX_PARTITIONS. \<not> partition_used (coldplug_partitions s ! i) \<and>
      coldplug_partition_alloc (Some j) s = (Inr (Some i),
        s\<lparr>coldplug_partitions := (coldplug_partitions s)[i := zero_partition\<lparr>parti_in_use := 1,
          parti_magic := COLDPLUG_PARTI_MAGIC, parti_clun := Some j, parti_name := partition_name i\<rparr>]\<rparr>)) \<or>
    (coldplug_partition_alloc (Some j) s = (Inr None, s) \<and>
      (\<forall>x \<in> set (coldplug_partitions s). partition_used x))"
  using partition_alloc_run(2) [OF assms, of "fst (coldplug_partition_alloc (Some j) s)"
      "snd (coldplug_partition_alloc (Some j) s)"]
  by (metis prod.collapse)

theorem partition_alloc_correct_witness:
  "(\<exists>i < COLDPLUG_MAX_PARTITIONS. \<not> partition_used (coldplug_partitions example_pools ! i) \<and>
      coldplug_partition_alloc (Some 0) example_pools = (Inr (Some i),
        example_pools\<lparr>coldplug_partitions := (coldplug_partitions example_pools)[i := zero_partition\<lparr>parti_in_use := 1,
          parti_magic := COLDPLUG_PARTI_MAGIC, parti_clun := Some 0, parti_name := partition_name i\<rparr>]\<rparr>)) \<or>
    (coldplug_partition_alloc (Some 0) example_pools = (Inr None, example_pools) \<and>
      (\<forall>x \<in> set (coldplug_partitions example_pools). partition_used x))"
  by (rule partition_alloc_correct [OF example_pools_ok]) (simp_all add: example_pools_def)

end
