(* ===== verification/Coldplug_Bdev.thy ===== *)
theory Coldplug_Bdev
  imports Coldplug_Device
begin

text \<open>
  The block devices under the coldplug library (coldplug\_bdev\_ufs.c, coldplug\_bdev\_sd.c,
  coldplug\_bdev\_devnull.c, coldplug\_bdev\_ops.c) and its error log (coldplug\_debug.c). The
  UFS and SDCC drivers move data with the hardware; they are a parameter, a record of
  functions on a driver state of any type. The wrappers translate status codes, log
  failures in a ring of 50 entries and narrow their 64-bit arguments to the width of the
  driver's.
\<close>

abbreviation (input) "COLDPLUG_RESULT_SUCCESS \<equiv> (0 :: int)"
abbreviation (input) "COLDPLUG_RESULT_INVALID_ARG \<equiv> (-1 :: int)"
abbreviation (input) "COLDPLUG_RESULT_NOT_SUPPORTED \<equiv> (-2 :: int)"
abbreviation (input) "COLDPLUG_RESULT_ENODEV \<equiv> (-3 :: int)"
abbreviation (input) "COLDPLUG_RESULT_ENOMEM \<equiv> (-4 :: int)"
abbreviation (input) "COLDPLUG_RESULT_DEVICE_ERROR \<equiv> (-5 :: int)"
abbreviation (input) "COLDPLUG_RESULT_INVALID_HANDLE \<equiv> (-6 :: int)"
abbreviation (input) "COLDPLUG_RESULT_ERANGE \<equiv> (-7 :: int)"
abbreviation (input) "COLDPLUG_RESULT_UNKNOWN \<equiv> (-10 :: int)"

abbreviation (input) "UFS_EOK \<equiv> (0 :: int)"
abbreviation (input) "UFS_WLUN_BOOT \<equiv> (0xB0 :: u32)"
abbreviation (input) "SDCC_NO_ERROR \<equiv> (0 :: int)"

datatype coldplug_debug_id = DEBUG_ID_OPEN | DEBUG_ID_CLOSE | DEBUG_ID_READ | DEBUG_ID_WRITE
  | DEBUG_ID_GET_INFO | DEBUG_ID_SET_PON_WP | DEBUG_ID_ERASE | DEBUG_ID_FORMAT | DEBUG_ID_SET_BOOTABLE

record coldplug_debug_info_type =
  dbg_dev_type :: nat
  debug_id :: "coldplug_debug_id option"
  dbg_result :: int
  dbg_val1 :: u32
  dbg_val2 :: u32

record coldplug_device_info =
  info_is_embedded :: int
  bytes_per_lba :: u32
  total_lba_count :: u64
  manufacturer_id :: u32
  oem_id :: u32
  product_rev :: u32
  product_serial_number :: u32
  product_serial_number_string :: bytes
  product_name :: bytes
  manufactured_date :: bytes

record ufs_info_type =
  bLUN :: u8
  wManufacturerID :: u16
  bMinAddrBlockSize :: u8
  dLuTotalBlocks :: u32
  iSerialNumber :: u8

record sdcc_mem_info_type =
  sd_is_embedded :: int
  block_len :: u32
  card_size_in_sectors :: u32
  mfr_id :: u16
  sd_oem_id :: u16
  prod_name :: bytes
  prod_rev :: u8
  prod_serial_num :: u32
  mfr_date :: bytes

text \<open>
  The drivers. A handle is an address, 0 the null pointer. A read returns the status and
  the bytes it put into the buffer, a write gets the bytes of the buffer as a function of
  the offset.
\<close>

record 'd drivers =
  ufs_open :: "u32 \<Rightarrow> u32 \<Rightarrow> 'd \<Rightarrow> u64 \<times> 'd"
  ufs_close :: "u64 \<Rightarrow> 'd \<Rightarrow> int \<times> 'd"
  ufs_read :: "u64 \<Rightarrow> u32 \<Rightarrow> u32 \<Rightarrow> 'd \<Rightarrow> (int \<times> bytes) \<times> 'd"
  ufs_write :: "u64 \<Rightarrow> u32 \<Rightarrow> u32 \<Rightarrow> (nat \<Rightarrow> u8) \<Rightarrow> 'd \<Rightarrow> int \<times> 'd"
  ufs_get_device_info :: "u64 \<Rightarrow> 'd \<Rightarrow> (int \<times> ufs_info_type) \<times> 'd"
  ufs_get_device_info_str :: "u64 \<Rightarrow> u8 \<Rightarrow> 'd \<Rightarrow> (int \<times> bytes) \<times> 'd"
  ufs_set_pon_write_protect :: "u64 \<Rightarrow> 'd \<Rightarrow> int \<times> 'd"
  ufs_unmap :: "u64 \<Rightarrow> u32 \<Rightarrow> u32 \<Rightarrow> 'd \<Rightarrow> int \<times> 'd"
  ufs_format :: "u64 \<Rightarrow> 'd \<Rightarrow> int \<times> 'd"
  ufs_set_bootable :: "u64 \<Rightarrow> u8 \<Rightarrow> 'd \<Rightarrow> int \<times> 'd"
  ufs_background_init_start :: "u32 \<Rightarrow> u32 \<Rightarrow> 'd \<Rightarrow> int \<times> 'd"
  ufs_background_init_finish :: "u32 \<Rightarrow> u32 \<Rightarrow> 'd \<Rightarrow> int \<times> 'd"
  sdcc_get_config_info :: "'d \<Rightarrow> (int \<times> u32) \<times> 'd"
  sdcc_slot_has_support :: "u32 \<Rightarrow> 'd \<Rightarrow> bool \<times> 'd"
  sdcc_handle_open :: "u32 \<Rightarrow> u32 \<Rightarrow> 'd \<Rightarrow> u64 \<times> 'd"
  sdcc_handle_close :: "u64 \<Rightarrow> 'd \<Rightarrow> int \<times> 'd"
  sdcc_handle_read :: "u64 \<Rightarrow> u32 \<Rightarrow> u16 \<Rightarrow> 'd \<Rightarrow> (int \<times> bytes) \<times> 'd"
  sdcc_handle_write :: "u64 \<Rightarrow> u32 \<Rightarrow> u16 \<Rightarrow> (nat \<Rightarrow> u8) \<Rightarrow> 'd \<Rightarrow> int \<times> 'd"
  sdcc_handle_mem_get_device_info :: "u64 \<Rightarrow> 'd \<Rightarrow> (int \<times> sdcc_mem_info_type) \<times> 'd"
  sdcc_set_power_on_write_protection :: "u64 \<Rightarrow> u32 \<Rightarrow> u32 \<Rightarrow> 'd \<Rightarrow> int \<times> 'd"
  sdcc_handle_erase :: "u64 \<Rightarrow> u32 \<Rightarrow> u32 \<Rightarrow> 'd \<Rightarrow> int \<times> 'd"
  sdcc_set_active_bootable_partition :: "u64 \<Rightarrow> 'd \<Rightarrow> int \<times> 'd"

record 'd cp_bdev = cp_pools +
  drv :: 'd
  coldplug_debug_info :: "coldplug_debug_info_type list"
  coldplug_debug_info_idx :: nat

text \<open>A call of a driver function.\<close>

definition call :: "('d \<Rightarrow> 'r \<times> 'd) \<Rightarrow> (('d, 'a) cp_bdev_scheme, 'r) boot" where
  "call f = (\<lambda>s. case f (drv s) of (r, d) \<Rightarrow> (Inr r, s\<lparr>drv := d\<rparr>))"

subsection \<open>coldplug\_debug.c\<close>

definition zero_debug :: coldplug_debug_info_type where
  "zero_debug = \<lparr>dbg_dev_type = 0, debug_id = None, dbg_result = 0, dbg_val1 = 0, dbg_val2 = 0\<rparr>"

definition coldplug_debug_init :: "(('d, 'a) cp_bdev_scheme, unit) boot" where
  "coldplug_debug_init =
     modify (\<lambda>s. s\<lparr>coldplug_debug_info_idx := 0, coldplug_debug_info := replicate 50 zero_debug\<rparr>)"

definition coldplug_debug_add :: "coldplug_debug_info_type \<Rightarrow> (('d, 'a) cp_bdev_scheme, unit) boot" where
  "coldplug_debug_add info =
     modify (\<lambda>s. let idx = (if coldplug_debug_info_idx s \<ge> 50 then 0 else coldplug_debug_info_idx s)
       in s\<lparr>coldplug_debug_info := (coldplug_debug_info s)[idx := info],
            coldplug_debug_info_idx := idx + 1\<rparr>)"

definition coldplug_bdev_ufs_debug_add ::
  "coldplug_debug_id \<Rightarrow> int \<Rightarrow> u32 \<Rightarrow> u32 \<Rightarrow> (('d, 'a) cp_bdev_scheme, unit) boot" where
  "coldplug_bdev_ufs_debug_add i res v1 v2 = coldplug_debug_add
     \<lparr>dbg_dev_type = COLDPLUG_DEVICE_UFS, debug_id = Some i, dbg_result = res, dbg_val1 = v1, dbg_val2 = v2\<rparr>"

definition coldplug_bdev_sd_debug_add ::
  "coldplug_debug_id \<Rightarrow> int \<Rightarrow> u32 \<Rightarrow> u32 \<Rightarrow> (('d, 'a) cp_bdev_scheme, unit) boot" where
  "coldplug_bdev_sd_debug_add i res v1 v2 = coldplug_debug_add
     \<lparr>dbg_dev_type = COLDPLUG_DEVICE_SD, debug_id = Some i, dbg_result = res, dbg_val1 = v1, dbg_val2 = v2\<rparr>"

subsection \<open>coldplug\_bdev\_ufs.c\<close>

definition coldplug_bdev_ufs_ops_get_slot_and_lun_config :: "int \<times> (u32 \<times> u32 \<times> u32) option" where
  "coldplug_bdev_ufs_ops_get_slot_and_lun_config = (0, Some (1, 8, UFS_WLUN_BOOT))"

definition coldplug_bdev_ufs_ops_open ::
  "('d, 'p) drivers_scheme \<Rightarrow> u32 \<Rightarrow> u32 \<Rightarrow> (('d, 'a) cp_bdev_scheme, int \<times> u64) boot" where
  "coldplug_bdev_ufs_ops_open E slot lun =
     bnd (call (ufs_open E slot lun)) (\<lambda>ufs_hdl.
       if ufs_hdl = 0 then
         thn (coldplug_bdev_ufs_debug_add DEBUG_ID_OPEN 0 slot lun) (ret (COLDPLUG_RESULT_ENODEV, 0))
       else ret (COLDPLUG_RESULT_SUCCESS, ufs_hdl))"

definition coldplug_bdev_ufs_ops_close :: "('d, 'p) drivers_scheme \<Rightarrow> u64 \<Rightarrow> (('d, 'a) cp_bdev_scheme, int) boot" where
  "coldplug_bdev_ufs_ops_close E hdl =
     thn (assert_c (hdl \<noteq> 0)) (bnd (call (ufs_close E hdl)) (\<lambda>result.
       if result \<noteq> 0 then thn (coldplug_bdev_ufs_debug_add DEBUG_ID_CLOSE 0 0 0) (ret result)
       else ret COLDPLUG_RESULT_SUCCESS))"

definition coldplug_bdev_ufs_ops_read ::
  "('d, 'p) drivers_scheme \<Rightarrow> u64 \<Rightarrow> u64 \<Rightarrow> u64 \<Rightarrow> u64 \<Rightarrow> (('d, 'a) cp_bdev_scheme, int) boot" where
  "coldplug_bdev_ufs_ops_read E hdl start_lba_arg count_arg buff =
     thn (assert_c (hdl \<noteq> 0))
       (let lba = ucast start_lba_arg; count = ucast count_arg
        in bnd (call (ufs_read E hdl lba count)) (\<lambda>(ufs_result, bs).
             thn (modify (memory_update (mem_write buff bs)))
               (if ufs_result \<noteq> 0 then
                  thn (coldplug_bdev_ufs_debug_add DEBUG_ID_READ 0 lba count) (ret COLDPLUG_RESULT_ENODEV)
                else ret COLDPLUG_RESULT_SUCCESS)))"

definition coldplug_bdev_ufs_ops_write ::
  "('d, 'p) drivers_scheme \<Rightarrow> u64 \<Rightarrow> u64 \<Rightarrow> u64 \<Rightarrow> u64 \<Rightarrow> (('d, 'a) cp_bdev_scheme, int) boot" where
  "coldplug_bdev_ufs_ops_write E hdl start_lba_arg count_arg buff =
     thn (assert_c (hdl \<noteq> 0))
       (let lba = ucast start_lba_arg; count = ucast count_arg
        in bnd (gets (\<lambda>s i. memory s (buff + of_nat i))) (\<lambda>src.
             bnd (call (ufs_write E hdl lba count src)) (\<lambda>ufs_result.
               if ufs_result \<noteq> 0 then
                 thn (coldplug_bdev_ufs_debug_add DEBUG_ID_WRITE ufs_result lba count)
                   (ret COLDPLUG_RESULT_ENODEV)
               else ret COLDPLUG_RESULT_SUCCESS)))"

definition coldplug_bdev_ufs_ops_get_size ::
  "('d, 'p) drivers_scheme \<Rightarrow> u64 \<Rightarrow> (('d, 'a) cp_bdev_scheme, int \<times> (u32 \<times> u64) option) boot" where
  "coldplug_bdev_ufs_ops_get_size E hdl =
     thn (assert_c (hdl \<noteq> 0)) (bnd (call (ufs_get_device_info E hdl)) (\<lambda>(ufs_result, info).
       if ufs_result \<noteq> UFS_EOK then
         thn (coldplug_bdev_ufs_debug_add DEBUG_ID_GET_INFO ufs_result 0 0) (ret (COLDPLUG_RESULT_ENODEV, None))
       else ret (COLDPLUG_RESULT_SUCCESS,
         Some (ucast (bMinAddrBlockSize info) * 512, ucast (dLuTotalBlocks info)))))"

definition zero_device_info :: coldplug_device_info where
  "zero_device_info = \<lparr>info_is_embedded = 0, bytes_per_lba = 0, total_lba_count = 0, manufacturer_id = 0,
     oem_id = 0, product_rev = 0, product_serial_number = 0,
     product_serial_number_string = replicate 258 0, product_name = replicate 32 0,
     manufactured_date = replicate 16 0\<rparr>"

definition coldplug_bdev_ufs_ops_get_info ::
  "('d, 'p) drivers_scheme \<Rightarrow> u64 \<Rightarrow> coldplug_device_info \<Rightarrow> (('d, 'a) cp_bdev_scheme, int \<times> coldplug_device_info) boot" where
  "coldplug_bdev_ufs_ops_get_info E hdl dev_info =
     thn (assert_c (hdl \<noteq> 0)) (bnd (call (ufs_get_device_info E hdl)) (\<lambda>(ufs_result, info).
       if ufs_result \<noteq> UFS_EOK then
         thn (coldplug_bdev_ufs_debug_add DEBUG_ID_GET_INFO ufs_result 0 0) (ret (COLDPLUG_RESULT_ENODEV, dev_info))
       else
         (let out = zero_device_info\<lparr>info_is_embedded := 1,
                     manufacturer_id := ucast (wManufacturerID info),
                     bytes_per_lba := ucast (bMinAddrBlockSize info) * 512,
                     total_lba_count := ucast (dLuTotalBlocks info)\<rparr>
          in bnd (call (ufs_get_device_info_str E hdl (iSerialNumber info))) (\<lambda>(r, str).
               let out' = out\<lparr>product_serial_number_string := str\<rparr>
               in if r \<noteq> UFS_EOK then
                    thn (coldplug_bdev_ufs_debug_add DEBUG_ID_GET_INFO r 0 0) (ret (COLDPLUG_RESULT_ENODEV, out'))
                  else ret (COLDPLUG_RESULT_SUCCESS, out')))))"

definition coldplug_bdev_ufs_ops_set_pon_wp ::
  "('d, 'p) drivers_scheme \<Rightarrow> u64 \<Rightarrow> u64 \<Rightarrow> u64 \<Rightarrow> (('d, 'a) cp_bdev_scheme, int) boot" where
  "coldplug_bdev_ufs_ops_set_pon_wp E hdl start cnt =
     thn (assert_c (hdl \<noteq> 0)) (bnd (call (ufs_set_pon_write_protect E hdl)) (\<lambda>r.
       if r \<noteq> UFS_EOK then
         thn (coldplug_bdev_ufs_debug_add DEBUG_ID_SET_PON_WP r (ucast start) (ucast cnt)) (ret COLDPLUG_RESULT_ENODEV)
       else ret COLDPLUG_RESULT_SUCCESS))"

definition coldplug_bdev_ufs_ops_erase ::
  "('d, 'p) drivers_scheme \<Rightarrow> u64 \<Rightarrow> u64 \<Rightarrow> u64 \<Rightarrow> (('d, 'a) cp_bdev_scheme, int) boot" where
  "coldplug_bdev_ufs_ops_erase E hdl start cnt =
     thn (assert_c (hdl \<noteq> 0)) (bnd (call (ufs_unmap E hdl (ucast start) (ucast cnt))) (\<lambda>r.
       if r \<noteq> UFS_EOK then
         thn (coldplug_bdev_ufs_debug_add DEBUG_ID_ERASE r (ucast start) (ucast cnt)) (ret COLDPLUG_RESULT_ENODEV)
       else ret COLDPLUG_RESULT_SUCCESS))"

definition coldplug_bdev_ufs_ops_format :: "('d, 'p) drivers_scheme \<Rightarrow> u64 \<Rightarrow> (('d, 'a) cp_bdev_scheme, int) boot" where
  "coldplug_bdev_ufs_ops_format E hdl =
     thn (assert_c (hdl \<noteq> 0)) (bnd (call (ufs_format E hdl)) (\<lambda>r.
       if r \<noteq> UFS_EOK then
         thn (coldplug_bdev_ufs_debug_add DEBUG_ID_FORMAT r 0 0) (ret COLDPLUG_RESULT_ENODEV)
       else ret COLDPLUG_RESULT_SUCCESS))"

definition coldplug_bdev_ufs_ops_set_bootable_partition ::
  "('d, 'p) drivers_scheme \<Rightarrow> u64 \<Rightarrow> (('d, 'a) cp_bdev_scheme, int) boot" where
  "coldplug_bdev_ufs_ops_set_bootable_partition E hdl =
     thn (assert_c (hdl \<noteq> 0)) (bnd (call (ufs_get_device_info E hdl)) (\<lambda>(ufs_result, info).
       if ufs_result \<noteq> UFS_EOK then
         thn (coldplug_bdev_ufs_debug_add DEBUG_ID_GET_INFO ufs_result 0 0) (ret COLDPLUG_RESULT_ENODEV)
       else if bLUN info = 0 then ret COLDPLUG_RESULT_ENODEV
       else bnd (call (ufs_set_bootable E hdl (bLUN info))) (\<lambda>r.
         if r \<noteq> UFS_EOK then
           thn (coldplug_bdev_ufs_debug_add DEBUG_ID_SET_BOOTABLE r 0 0) (ret COLDPLUG_RESULT_ENODEV)
         else ret COLDPLUG_RESULT_SUCCESS)))"

definition coldplug_bdev_background_init_start ::
  "('d, 'p) drivers_scheme \<Rightarrow> u32 \<Rightarrow> u32 \<Rightarrow> (('d, 'a) cp_bdev_scheme, int) boot" where
  "coldplug_bdev_background_init_start E slot ctxt =
     bnd (call (ufs_background_init_start E slot ctxt)) (\<lambda>r.
       ret (if r \<noteq> 0 then COLDPLUG_RESULT_ENODEV else r))"

definition coldplug_bdev_background_init_finish ::
  "('d, 'p) drivers_scheme \<Rightarrow> u32 \<Rightarrow> u32 \<Rightarrow> (('d, 'a) cp_bdev_scheme, int) boot" where
  "coldplug_bdev_background_init_finish E slot ctxt =
     bnd (call (ufs_background_init_finish E slot ctxt)) (\<lambda>r.
       ret (if r \<noteq> 0 then COLDPLUG_RESULT_ENODEV else r))"

subsection \<open>coldplug\_bdev\_sd.c\<close>

abbreviation (input) "SDCC_ERR_FEATURE_UNSUPPORTED \<equiv> (22 :: int)"
abbreviation (input) "SDCC_ERR_CARD_INIT \<equiv> (26 :: int)"

definition coldplug_bdev_sd_ops_get_slot_and_lun_config :: "int \<times> (u32 \<times> u32 \<times> u32) option" where
  "coldplug_bdev_sd_ops_get_slot_and_lun_config = (0, Some (4, 8, -1))"

definition coldplug_bdev_sd_ops_open ::
  "('d, 'p) drivers_scheme \<Rightarrow> u32 \<Rightarrow> u32 \<Rightarrow> (('d, 'a) cp_bdev_scheme, int \<times> u64) boot" where
  "coldplug_bdev_sd_ops_open E slot lun =
     bnd (call (sdcc_get_config_info E)) (\<lambda>(sdcc_res, num_slots).
       if sdcc_res \<noteq> SDCC_NO_ERROR then
         thn (coldplug_bdev_sd_debug_add DEBUG_ID_OPEN sdcc_res slot lun) (ret (COLDPLUG_RESULT_ENODEV, 0))
       else if slot \<ge> num_slots then
         thn (coldplug_bdev_sd_debug_add DEBUG_ID_OPEN SDCC_ERR_FEATURE_UNSUPPORTED slot lun)
           (ret (COLDPLUG_RESULT_ENODEV, 0))
       else bnd (call (sdcc_slot_has_support E slot)) (\<lambda>is_valid_slot.
         if \<not> is_valid_slot then
           thn (coldplug_bdev_sd_debug_add DEBUG_ID_OPEN SDCC_ERR_FEATURE_UNSUPPORTED slot lun)
             (ret (COLDPLUG_RESULT_ENODEV, 0))
         else bnd (call (sdcc_handle_open E slot lun)) (\<lambda>sd_hdl.
           if sd_hdl = 0 then
             thn (coldplug_bdev_sd_debug_add DEBUG_ID_OPEN SDCC_ERR_CARD_INIT slot lun)
               (ret (COLDPLUG_RESULT_ENODEV, 0))
           else ret (COLDPLUG_RESULT_SUCCESS, sd_hdl))))"

definition coldplug_bdev_sd_ops_close :: "('d, 'p) drivers_scheme \<Rightarrow> u64 \<Rightarrow> (('d, 'a) cp_bdev_scheme, int) boot" where
  "coldplug_bdev_sd_ops_close E hdl =
     thn (assert_c (hdl \<noteq> 0)) (bnd (call (sdcc_handle_close E hdl)) (\<lambda>r.
       if r \<noteq> SDCC_NO_ERROR then
         thn (coldplug_bdev_sd_debug_add DEBUG_ID_CLOSE r 0 0) (ret COLDPLUG_RESULT_ENODEV)
       else ret COLDPLUG_RESULT_SUCCESS))"

definition coldplug_bdev_sd_ops_read ::
  "('d, 'p) drivers_scheme \<Rightarrow> u64 \<Rightarrow> u64 \<Rightarrow> u64 \<Rightarrow> u64 \<Rightarrow> (('d, 'a) cp_bdev_scheme, int) boot" where
  "coldplug_bdev_sd_ops_read E hdl lba_arg count_arg buff =
     thn (assert_c (hdl \<noteq> 0))
       (let lba = ucast lba_arg; count = ucast count_arg
        in bnd (call (sdcc_handle_read E hdl lba count)) (\<lambda>(sd_result, bs).
             thn (modify (memory_update (mem_write buff bs)))
               (if sd_result \<noteq> SDCC_NO_ERROR then
                  thn (coldplug_bdev_sd_debug_add DEBUG_ID_READ sd_result lba (ucast count))
                    (ret COLDPLUG_RESULT_ENODEV)
                else ret COLDPLUG_RESULT_SUCCESS)))"

definition coldplug_bdev_sd_ops_write ::
  "('d, 'p) drivers_scheme \<Rightarrow> u64 \<Rightarrow> u64 \<Rightarrow> u64 \<Rightarrow> u64 \<Rightarrow> (('d, 'a) cp_bdev_scheme, int) boot" where
  "coldplug_bdev_sd_ops_write E hdl lba_arg count_arg buff =
     thn (assert_c (hdl \<noteq> 0))
       (let lba = ucast lba_arg; count = ucast count_arg
        in bnd (gets (\<lambda>s i. memory s (buff + of_nat i))) (\<lambda>src.
             bnd (call (sdcc_handle_write E hdl lba count src)) (\<lambda>sd_result.
               if sd_result \<noteq> SDCC_NO_ERROR then
                 thn (coldplug_bdev_sd_debug_add DEBUG_ID_WRITE sd_result lba (ucast count))
                   (ret COLDPLUG_RESULT_ENODEV)
               else ret COLDPLUG_RESULT_SUCCESS)))"

definition coldplug_bdev_sd_ops_get_size ::
  "('d, 'p) drivers_scheme \<Rightarrow> u64 \<Rightarrow> (('d, 'a) cp_bdev_scheme, int \<times> (u32 \<times> u64) option) boot" where
  "coldplug_bdev_sd_ops_get_size E hdl =
     thn (assert_c (hdl \<noteq> 0)) (bnd (call (sdcc_handle_mem_get_device_info E hdl)) (\<lambda>(sd_result, info).
       if sd_result \<noteq> SDCC_NO_ERROR then
         thn (coldplug_bdev_sd_debug_add DEBUG_ID_GET_INFO sd_result 1 1) (ret (COLDPLUG_RESULT_ENODEV, None))
       else ret (COLDPLUG_RESULT_SUCCESS, Some (block_len info, ucast (card_size_in_sectors info)))))"

definition coldplug_bdev_sd_ops_get_info ::
  "('d, 'p) drivers_scheme \<Rightarrow> u64 \<Rightarrow> coldplug_device_info \<Rightarrow> (('d, 'a) cp_bdev_scheme, int \<times> coldplug_device_info) boot" where
  "coldplug_bdev_sd_ops_get_info E hdl dev_info =
     thn (assert_c (hdl \<noteq> 0)) (bnd (call (sdcc_handle_mem_get_device_info E hdl)) (\<lambda>(sd_result, info).
       if sd_result \<noteq> SDCC_NO_ERROR then
         thn (coldplug_bdev_sd_debug_add DEBUG_ID_GET_INFO sd_result 0 0) (ret (COLDPLUG_RESULT_ENODEV, dev_info))
       else ret (COLDPLUG_RESULT_SUCCESS, dev_info\<lparr>info_is_embedded := sd_is_embedded info,
         bytes_per_lba := block_len info, total_lba_count := ucast (card_size_in_sectors info),
         manufacturer_id := ucast (mfr_id info), oem_id := ucast (sd_oem_id info),
         product_rev := ucast (prod_rev info), product_serial_number := prod_serial_num info,
         product_name := take 32 (prod_name info) @ drop (length (prod_name info)) (product_name dev_info),
         manufactured_date := take 16 (mfr_date info) @ drop (length (mfr_date info)) (manufactured_date dev_info)\<rparr>)))"

definition coldplug_bdev_sd_ops_set_pon_wp ::
  "('d, 'p) drivers_scheme \<Rightarrow> u64 \<Rightarrow> u64 \<Rightarrow> u64 \<Rightarrow> (('d, 'a) cp_bdev_scheme, int) boot" where
  "coldplug_bdev_sd_ops_set_pon_wp E hdl start cnt =
     thn (assert_c (hdl \<noteq> 0))
       (bnd (call (sdcc_set_power_on_write_protection E hdl (ucast start) (ucast cnt))) (\<lambda>r.
         if r \<noteq> SDCC_NO_ERROR then
           thn (coldplug_bdev_sd_debug_add DEBUG_ID_SET_PON_WP r (ucast start) (ucast cnt))
             (ret COLDPLUG_RESULT_ENODEV)
         else ret COLDPLUG_RESULT_SUCCESS))"

definition coldplug_bdev_sd_ops_erase ::
  "('d, 'p) drivers_scheme \<Rightarrow> u64 \<Rightarrow> u64 \<Rightarrow> u64 \<Rightarrow> (('d, 'a) cp_bdev_scheme, int) boot" where
  "coldplug_bdev_sd_ops_erase E hdl start cnt =
     thn (assert_c (hdl \<noteq> 0)) (bnd (call (sdcc_handle_erase E hdl (ucast start) (ucast cnt))) (\<lambda>r.
       if r \<noteq> SDCC_NO_ERROR then
         thn (coldplug_bdev_sd_debug_add DEBUG_ID_ERASE r (ucast start) (ucast cnt)) (ret COLDPLUG_RESULT_ENODEV)
       else ret COLDPLUG_RESULT_SUCCESS))"

definition coldplug_bdev_sd_ops_format :: "u64 \<Rightarrow> (('d, 'a) cp_bdev_scheme, int) boot" where
  "coldplug_bdev_sd_ops_format hdl = thn (assert_c (hdl \<noteq> 0)) (ret COLDPLUG_RESULT_SUCCESS)"

definition coldplug_bdev_sd_ops_set_bootable_partition ::
  "('d, 'p) drivers_scheme \<Rightarrow> u64 \<Rightarrow> (('d, 'a) cp_bdev_scheme, int) boot" where
  "coldplug_bdev_sd_ops_set_bootable_partition E hdl =
     thn (assert_c (hdl \<noteq> 0)) (bnd (call (sdcc_set_active_bootable_partition E hdl)) (\<lambda>r.
       if r \<noteq> SDCC_NO_ERROR then
         thn (coldplug_bdev_sd_debug_add DEBUG_ID_SET_BOOTABLE r 0 0) (ret COLDPLUG_RESULT_ENODEV)
       else ret COLDPLUG_RESULT_SUCCESS))"

subsection \<open>The operation tables\<close>

text \<open>
  The calls through \<^verbatim>\<open>struct coldplug_bdev_ops\<close>, by the table the pointer names; every
  operation of the null device (coldplug\_bdev\_devnull.c) returns that there is no device.
\<close>

definition bdev_get_slot_and_lun_config :: "bdev_ops_ptr \<Rightarrow> int \<times> (u32 \<times> u32 \<times> u32) option" where
  "bdev_get_slot_and_lun_config ops = (case ops of
     Devnull_ops \<Rightarrow> (COLDPLUG_RESULT_ENODEV, None)
   | Sd_ops \<Rightarrow> coldplug_bdev_sd_ops_get_slot_and_lun_config
   | Ufs_ops \<Rightarrow> coldplug_bdev_ufs_ops_get_slot_and_lun_config)"

definition bdev_open ::
  "('d, 'p) drivers_scheme \<Rightarrow> bdev_ops_ptr \<Rightarrow> u32 \<Rightarrow> u32 \<Rightarrow> (('d, 'a) cp_bdev_scheme, int \<times> u64) boot" where
  "bdev_open E ops slot lun = (case ops of
     Devnull_ops \<Rightarrow> ret (COLDPLUG_RESULT_ENODEV, 0)
   | Sd_ops \<Rightarrow> coldplug_bdev_sd_ops_open E slot lun
   | Ufs_ops \<Rightarrow> coldplug_bdev_ufs_ops_open E slot lun)"

definition bdev_close ::
  "('d, 'p) drivers_scheme \<Rightarrow> bdev_ops_ptr \<Rightarrow> u64 \<Rightarrow> (('d, 'a) cp_bdev_scheme, int) boot" where
  "bdev_close E ops hdl = (case ops of
     Devnull_ops \<Rightarrow> ret COLDPLUG_RESULT_ENODEV
   | Sd_ops \<Rightarrow> coldplug_bdev_sd_ops_close E hdl
   | Ufs_ops \<Rightarrow> coldplug_bdev_ufs_ops_close E hdl)"

definition bdev_read ::
  "('d, 'p) drivers_scheme \<Rightarrow> bdev_ops_ptr \<Rightarrow> u64 \<Rightarrow> u64 \<Rightarrow> u64 \<Rightarrow> u64 \<Rightarrow> (('d, 'a) cp_bdev_scheme, int) boot" where
  "bdev_read E ops hdl lba count buff = (case ops of
     Devnull_ops \<Rightarrow> ret COLDPLUG_RESULT_ENODEV
   | Sd_ops \<Rightarrow> coldplug_bdev_sd_ops_read E hdl lba count buff
   | Ufs_ops \<Rightarrow> coldplug_bdev_ufs_ops_read E hdl lba count buff)"

definition bdev_write ::
  "('d, 'p) drivers_scheme \<Rightarrow> bdev_ops_ptr \<Rightarrow> u64 \<Rightarrow> u64 \<Rightarrow> u64 \<Rightarrow> u64 \<Rightarrow> (('d, 'a) cp_bdev_scheme, int) boot" where
  "bdev_write E ops hdl lba count buff = (case ops of
     Devnull_ops \<Rightarrow> ret COLDPLUG_RESULT_ENODEV
   | Sd_ops \<Rightarrow> coldplug_bdev_sd_ops_write E hdl lba count buff
   | Ufs_ops \<Rightarrow> coldplug_bdev_ufs_ops_write E hdl lba count buff)"

definition bdev_get_info ::
  "('d, 'p) drivers_scheme \<Rightarrow> bdev_ops_ptr \<Rightarrow> u64 \<Rightarrow> coldplug_device_info \<Rightarrow>
   (('d, 'a) cp_bdev_scheme, int \<times> coldplug_device_info) boot" where
  "bdev_get_info E ops hdl dev_info = (case ops of
     Devnull_ops \<Rightarrow> ret (COLDPLUG_RESULT_ENODEV, dev_info)
   | Sd_ops \<Rightarrow> coldplug_bdev_sd_ops_get_info E hdl dev_info
   | Ufs_ops \<Rightarrow> coldplug_bdev_ufs_ops_get_info E hdl dev_info)"

definition bdev_background_init_start ::
  "('d, 'p) drivers_scheme \<Rightarrow> bdev_ops_ptr \<Rightarrow> u32 \<Rightarrow> u32 \<Rightarrow> (('d, 'a) cp_bdev_scheme, int) boot" where
  "bdev_background_init_start E ops slot ctxt = (case ops of
     Devnull_ops \<Rightarrow> ret COLDPLUG_RESULT_ENODEV
   | Sd_ops \<Rightarrow> ret COLDPLUG_RESULT_NOT_SUPPORTED
   | Ufs_ops \<Rightarrow> coldplug_bdev_background_init_start E slot ctxt)"

definition bdev_background_init_finish ::
  "('d, 'p) drivers_scheme \<Rightarrow> bdev_ops_ptr \<Rightarrow> u32 \<Rightarrow> u32 \<Rightarrow> (('d, 'a) cp_bdev_scheme, int) boot" where
  "bdev_background_init_finish E ops slot ctxt = (case ops of
     Devnull_ops \<Rightarrow> ret COLDPLUG_RESULT_ENODEV
   | Sd_ops \<Rightarrow> ret COLDPLUG_RESULT_NOT_SUPPORTED
   | Ufs_ops \<Rightarrow> coldplug_bdev_background_init_finish E slot ctxt)"

subsection \<open>What is relied on of the UFS driver\<close>

text \<open>
  The contract of the driver on one open unit. The medium is a sequence of blocks of a
  fixed size that the driver state determines. A read never changes the medium and never
  puts more than the requested blocks into the buffer, and a successful one puts exactly
  these; a write changes no block but those it names, and a successful one stores its buffer
  in these.
\<close>

definition medium_blocks :: "(nat \<Rightarrow> bytes) \<Rightarrow> nat \<Rightarrow> nat \<Rightarrow> bytes" where
  "medium_blocks medium lba n = concat (map medium [lba..<lba + n])"

definition ufs_media :: "('d, 'p) drivers_scheme \<Rightarrow> u64 \<Rightarrow> nat \<Rightarrow> ('d \<Rightarrow> nat \<Rightarrow> bytes) \<Rightarrow> bool" where
  "ufs_media E h bs media \<longleftrightarrow>
     (\<forall>d lba. length (media d lba) = bs) \<and>
     (\<forall>d lba n r out d'. ufs_read E h lba n d = ((r, out), d') \<longrightarrow>
        media d' = media d \<and> length out \<le> unat n * bs \<and>
        (r = 0 \<longrightarrow> out = medium_blocks (media d) (unat lba) (unat n))) \<and>
     (\<forall>d lba n src r d'. ufs_write E h lba n src d = (r, d') \<longrightarrow>
        (\<forall>k. if unat lba \<le> k \<and> k < unat lba + unat n
             then r = 0 \<longrightarrow> media d' k = map (\<lambda>j. src ((k - unat lba) * bs + j)) [0..<bs]
             else media d' k = media d k))"

lemma ufs_media_len: "ufs_media E h bs media \<Longrightarrow> length (media d lba) = bs"
  by (simp add: ufs_media_def)

lemma ufs_media_read:
  assumes "ufs_media E h bs media" and "ufs_read E h lba n d = ((r, out), d')"
  shows "media d' = media d \<and> length out \<le> unat n * bs \<and>
    (r = 0 \<longrightarrow> out = medium_blocks (media d) (unat lba) (unat n))"
  using assms unfolding ufs_media_def by blast

lemma ufs_media_write:
  assumes "ufs_media E h bs media" and "ufs_write E h lba n src d = (r, d')"
  shows "if unat lba \<le> k \<and> k < unat lba + unat n
    then r = 0 \<longrightarrow> media d' k = map (\<lambda>j. src ((k - unat lba) * bs + j)) [0..<bs]
    else media d' k = media d k"
  using assms unfolding ufs_media_def by blast

lemma length_blocks: "(\<And>k. length (medium k) = bs) \<Longrightarrow> length (medium_blocks medium lba n) = n * bs"
  by (simp add: medium_blocks_def length_concat comp_def sum_list_triv)

lemma blocks_0 [simp]: "medium_blocks medium lba 0 = []"
  by (simp add: medium_blocks_def)

lemma blocks_split:
  "medium_blocks medium lba (a + b) = medium_blocks medium lba a @ medium_blocks medium (lba + a) b"
  using upt_add_eq_append [of lba "lba + a" b] by (simp add: medium_blocks_def add.assoc)

lemma blocks_Suc: "medium_blocks medium lba (Suc n) = medium lba @ medium_blocks medium (Suc lba) n"
  by (simp add: medium_blocks_def upt_conv_Cons del: upt_Suc)

lemma blocks_nth:
  assumes "\<And>k. length (medium k) = bs" and "i < n"
  shows "take bs (drop (i * bs) (medium_blocks medium lba n)) = medium (lba + i)"
proof -
  have "n - i = Suc (n - Suc i)" using assms(2) by simp
  then have "medium_blocks medium lba n = medium_blocks medium lba i @ medium (lba + i) @ medium_blocks medium (Suc (lba + i)) (n - Suc i)"
    using blocks_split [of medium lba i "n - i"] assms(2) by (simp add: blocks_Suc)
  then show ?thesis
    using length_blocks [of medium bs lba i] assms(1) by simp
qed

text \<open>What one block reads as after a run of blocks was written to memory.\<close>

lemma mem_read_written:
  assumes "off + k \<le> length bs" and "length bs < 18446744073709551616"
  shows "mem_read (a + of_nat off) k (mem_write a bs m) = take k (drop off bs)"
  using assms by (intro nth_equalityI) (auto simp: mem_write_def add.assoc simp flip: of_nat_add)

text \<open>A driver whose reads all succeed.\<close>

definition ufs_reliable :: "('d, 'p) drivers_scheme \<Rightarrow> u64 \<Rightarrow> bool" where
  "ufs_reliable E h \<longleftrightarrow> (\<forall>lba n d. fst (fst (ufs_read E h lba n d)) = 0)"

lemma ufs_ops_read_run:
  assumes "h \<noteq> 0" and "ufs_media E h bs media" and "coldplug_bdev_ufs_ops_read E h lba n buf s = (r, t)"
    and "unat lba < 4294967296" and "unat n < 4294967296"
  shows "\<exists>out x. r = Inr x \<and> memory t = mem_write buf out (memory s) \<and>
    media (drv t) = media (drv s) \<and> length out \<le> unat n * bs \<and>
    (x = 0 \<longrightarrow> out = medium_blocks (media (drv s)) (unat lba) (unat n)) \<and>
    (ufs_reliable E h \<longrightarrow> x = 0) \<and>
    t = s\<lparr>memory := memory t, drv := drv t, coldplug_debug_info := coldplug_debug_info t,
      coldplug_debug_info_idx := coldplug_debug_info_idx t\<rparr>"
proof -
  obtain res out d where rd: "ufs_read E h (ucast lba) (ucast n) (drv s) = ((res, out), d)"
    by (metis surj_pair)
  have "unat (ucast lba :: u32) = unat lba" "unat (ucast n :: u32) = unat n"
    using assms(4,5) by (simp_all add: unat_ucast_64_32)
  then have "media d = media (drv s)" "length out \<le> unat n * bs"
    "res = 0 \<Longrightarrow> out = medium_blocks (media (drv s)) (unat lba) (unat n)"
    using ufs_media_read [OF assms(2) rd] by simp_all
  moreover have "res = 0" if "ufs_reliable E h"
    using that [unfolded ufs_reliable_def, rule_format, of "ucast lba" "ucast n" "drv s"] rd by simp
  moreover have "r = Inr (if res = 0 then 0 else COLDPLUG_RESULT_ENODEV) \<and> memory t = mem_write buf out (memory s) \<and>
      drv t = d \<and> t = s\<lparr>memory := memory t, drv := drv t, coldplug_debug_info := coldplug_debug_info t,
      coldplug_debug_info_idx := coldplug_debug_info_idx t\<rparr>"
    using assms(1,3) rd
    by (auto simp: coldplug_bdev_ufs_ops_read_def call_def bnd_app Let_def ret_app thn_app
        coldplug_bdev_ufs_debug_add_def coldplug_debug_add_def split: if_splits)
  ultimately show ?thesis by (intro exI [of _ out] exI [of _ "if res = 0 then 0 else COLDPLUG_RESULT_ENODEV"]) auto
qed

lemma ufs_ops_write_run:
  assumes "h \<noteq> 0" and "ufs_media E h bs media" and "coldplug_bdev_ufs_ops_write E h lba n buf s = (r, t)"
    and "unat lba < 4294967296" and "unat n < 4294967296"
  shows "\<exists>x. r = Inr x \<and> memory t = memory s \<and>
    (\<forall>k. if unat lba \<le> k \<and> k < unat lba + unat n
       then x = 0 \<longrightarrow> media (drv t) k = mem_read (buf + of_nat ((k - unat lba) * bs)) bs (memory s)
       else media (drv t) k = media (drv s) k) \<and>
    t = s\<lparr>drv := drv t, coldplug_debug_info := coldplug_debug_info t,
      coldplug_debug_info_idx := coldplug_debug_info_idx t\<rparr>"
proof -
  let ?src = "\<lambda>i. memory s (buf + of_nat i)"
  obtain res d where wr: "ufs_write E h (ucast lba) (ucast n) ?src (drv s) = (res, d)"
    by (metis surj_pair)
  have u: "unat (ucast lba :: u32) = unat lba" "unat (ucast n :: u32) = unat n"
    using assms(4,5) by (simp_all add: unat_ucast_64_32)
  have "mem_read (buf + of_nat q) bs (memory s) = map (\<lambda>j. ?src (q + j)) [0..<bs]" for q
    by (simp add: mem_read_def add.assoc)
  then have "\<forall>k. if unat lba \<le> k \<and> k < unat lba + unat n
       then res = 0 \<longrightarrow> media d k = mem_read (buf + of_nat ((k - unat lba) * bs)) bs (memory s)
       else media d k = media (drv s) k"
    using ufs_media_write [OF assms(2) wr] unfolding u by (auto simp del: of_nat_mult)
  moreover have "r = Inr (if res = 0 then 0 else COLDPLUG_RESULT_ENODEV) \<and> memory t = memory s \<and>
      drv t = d \<and> t = s\<lparr>drv := drv t, coldplug_debug_info := coldplug_debug_info t,
      coldplug_debug_info_idx := coldplug_debug_info_idx t\<rparr>"
    using assms(1,3) wr
    by (auto simp: coldplug_bdev_ufs_ops_write_def call_def bnd_app Let_def ret_app thn_app
        coldplug_bdev_ufs_debug_add_def coldplug_debug_add_def split: if_splits)
  ultimately show ?thesis
    by (intro exI [of _ "if res = 0 then 0 else COLDPLUG_RESULT_ENODEV"]) auto
qed

text \<open>Blocks that hold consecutive stretches of memory hold the memory.\<close>

lemma medium_blocks_mem:
  assumes "\<And>k. a \<le> k \<Longrightarrow> k < a + n \<Longrightarrow> medium k = mem_read (src + of_nat ((k - a) * bs)) bs m"
  shows "medium_blocks medium a n = mem_read src (n * bs) m"
  using assms
proof (induction n)
  case 0
  then show ?case by (simp add: mem_read_def)
next
  case (Suc n)
  have "medium_blocks medium (a + n) 1 = medium (a + n)" by (simp add: medium_blocks_def)
  also have "\<dots> = mem_read (src + of_nat (n * bs)) bs m" using Suc.prems [of "a + n"] by simp
  finally show ?case
    using Suc.IH Suc.prems blocks_split [of medium a n 1] mem_read_append [of src "n * bs" bs m]
    by (simp add: add.commute)
qed

subsection \<open>A driver that meets the contract\<close>

text \<open>
  A unit held in memory, one byte per offset: it shows that the contract can be met and is
  the driver of the concrete runs.
\<close>

definition ram_medium :: "nat \<Rightarrow> (nat \<Rightarrow> u8) \<Rightarrow> nat \<Rightarrow> bytes" where
  "ram_medium bs d lba = map (\<lambda>j. d (lba * bs + j)) [0..<bs]"

definition ram_write :: "nat \<Rightarrow> nat \<Rightarrow> nat \<Rightarrow> (nat \<Rightarrow> u8) \<Rightarrow> (nat \<Rightarrow> u8) \<Rightarrow> nat \<Rightarrow> u8" where
  "ram_write bs lba n src d = (\<lambda>a. if lba * bs \<le> a \<and> a < (lba + n) * bs then src (a - lba * bs) else d a)"

definition ram_ufs :: "nat \<Rightarrow> (nat \<Rightarrow> u8) drivers" where
  "ram_ufs bs = \<lparr>ufs_open = (\<lambda>_ _ d. (1, d)), ufs_close = (\<lambda>_ d. (0, d)),
     ufs_read = (\<lambda>_ lba n d. ((0, medium_blocks (ram_medium bs d) (unat lba) (unat n)), d)),
     ufs_write = (\<lambda>_ lba n src d. (0, ram_write bs (unat lba) (unat n) src d)),
     ufs_get_device_info = (\<lambda>_ d. ((0, \<lparr>bLUN = 0, wManufacturerID = 0, bMinAddrBlockSize = 8,
       dLuTotalBlocks = 16, iSerialNumber = 0\<rparr>), d)),
     ufs_get_device_info_str = (\<lambda>_ _ d. ((0, replicate 258 0), d)),
     ufs_set_pon_write_protect = (\<lambda>_ d. (0, d)), ufs_unmap = (\<lambda>_ _ _ d. (0, d)),
     ufs_format = (\<lambda>_ d. (0, d)), ufs_set_bootable = (\<lambda>_ _ d. (0, d)),
     ufs_background_init_start = (\<lambda>_ _ d. (0, d)), ufs_background_init_finish = (\<lambda>_ _ d. (0, d)),
     sdcc_get_config_info = (\<lambda>d. ((-1, 0), d)), sdcc_slot_has_support = (\<lambda>_ d. (False, d)),
     sdcc_handle_open = (\<lambda>_ _ d. (0, d)), sdcc_handle_close = (\<lambda>_ d. (-1, d)),
     sdcc_handle_read = (\<lambda>_ _ _ d. ((-1, []), d)), sdcc_handle_write = (\<lambda>_ _ _ _ d. (-1, d)),
     sdcc_handle_mem_get_device_info = (\<lambda>_ d. ((-1, \<lparr>sd_is_embedded = 0, block_len = 0,
       card_size_in_sectors = 0, mfr_id = 0, sd_oem_id = 0, prod_name = [], prod_rev = 0,
       prod_serial_num = 0, mfr_date = []\<rparr>), d)),
     sdcc_set_power_on_write_protection = (\<lambda>_ _ _ d. (-1, d)), sdcc_handle_erase = (\<lambda>_ _ _ d. (-1, d)),
     sdcc_set_active_bootable_partition = (\<lambda>_ d. (-1, d))\<rparr>"

lemma ram_medium_write:
  "ram_medium bs (ram_write bs lba n src d) k =
     (if lba \<le> k \<and> k < lba + n then map (\<lambda>j. src ((k - lba) * bs + j)) [0..<bs] else ram_medium bs d k)"
proof -
  have "(lba * bs \<le> k * bs + j \<and> k * bs + j < (lba + n) * bs) = (lba \<le> k \<and> k < lba + n)" if "j < bs" for j
  proof -
    have *: "(k * bs + j < m * bs) = (k < m)" for m
    proof
      assume "k * bs + j < m * bs"
      then have "k * bs < m * bs" by linarith
      then show "k < m" by simp
    next
      assume "k < m"
      then have "Suc k * bs \<le> m * bs" by (intro mult_le_mono1) simp
      then show "k * bs + j < m * bs" using that by simp
    qed
    from * [of lba] * [of "lba + n"] show ?thesis by (simp add: not_less [symmetric])
  qed
  moreover have "lba \<le> k \<Longrightarrow> k * bs + j - lba * bs = (k - lba) * bs + j" for j
    using mult_le_mono1 [of lba k bs] by (simp add: diff_mult_distrib)
  ultimately show ?thesis by (auto simp: ram_medium_def ram_write_def)
qed

lemma ram_ufs_media: "ufs_media (ram_ufs bs) h bs (ram_medium bs)"
  using length_blocks [of "ram_medium bs d" bs for d]
  by (auto simp: ufs_media_def ram_ufs_def ram_medium_write) (simp_all add: ram_medium_def)

lemma ram_ufs_reliable: "ufs_reliable (ram_ufs bs) h"
  by (simp add: ufs_reliable_def ram_ufs_def)

end
