(* ===== verification/Coldplug_Pcache.thy ===== *)
theory Coldplug_Pcache
  imports Coldplug_Bdev
begin

text \<open>
  The block cache the partition parsers read through (coldplug\_pcache.c). There is one
  cache; its buffer lies in memory, at the address the static buffer variable holds. A
  returned pointer is an address, \<open>None\<close> the null pointer.
\<close>

abbreviation (input) "COLDPLUG_LBA_SIZE_IN_BYTES \<equiv> (4096 :: u32)"
abbreviation (input) "COLDPLUG_PCACHE_SIZE_IN_BYTES \<equiv> (4096 :: u32)"

record coldplug_pcache_data =
  pc_clun :: cptr
  block_size_bytes :: u32
  block_count :: u32
  pc_buffer :: u64
  buffer_size_blocks :: u32
  is_valid :: int
  cache_size_blocks :: u32
  first_cached_lba :: u64

record 'd cp_cache = "'d cp_bdev" +
  pcache_inst :: coldplug_pcache_data
  pcache_data_buffer :: u64
  pcache_data_buffer_size :: u32

definition zero_pcache :: coldplug_pcache_data where
  "zero_pcache = \<lparr>pc_clun = None, block_size_bytes = 0, block_count = 0, pc_buffer = 0,
     buffer_size_blocks = 0, is_valid = 0, cache_size_blocks = 0, first_cached_lba = 0\<rparr>"

definition coldplug_pcache_get_block_size :: "(('d, 'a) cp_cache_scheme, u32) boot" where
  "coldplug_pcache_get_block_size = gets (\<lambda>s. block_size_bytes (pcache_inst s))"

definition coldplug_pcache_get_block_count :: "(('d, 'a) cp_cache_scheme, u32) boot" where
  "coldplug_pcache_get_block_count = gets (\<lambda>s. block_count (pcache_inst s))"

text \<open>\<^verbatim>\<open>clun->cslot->cdev->bdev_ops\<close>, with the unit itself for its driver handle.\<close>

definition lun_ops ::
  "cptr \<Rightarrow> (coldplug_lun \<Rightarrow> bdev_ops_ptr \<Rightarrow> ('a cp_pools_scheme, 'r) boot) \<Rightarrow> ('a cp_pools_scheme, 'r) boot" where
  "lun_ops clun f =
     deref coldplug_luns clun (\<lambda>l. deref coldplug_slots (lun_cslot l) (\<lambda>sl.
       deref coldplug_devices (slot_cdev sl) (\<lambda>d.
         case bdev_ops d of None \<Rightarrow> fatal Undefined_behaviour | Some ops \<Rightarrow> f l ops)))"

definition coldplug_pcache_read_i :: "('d, 'p) drivers_scheme \<Rightarrow> u64 \<Rightarrow> u32 \<Rightarrow> (('d, 'a) cp_cache_scheme, u64 option) boot" where
  "coldplug_pcache_read_i E lba blk_cnt0 =
     thn (assert_c (blk_cnt0 \<noteq> 0))
      (bnd (gets pcache_inst) (\<lambda>dc.
        let blk_cnt1 = (if blk_cnt0 > buffer_size_blocks dc then buffer_size_blocks dc else blk_cnt0);
            dev_size_blocks = block_count dc
        in if lba \<ge> ucast dev_size_blocks then ret None
           else
             let max_blk_cnt = dev_size_blocks - ucast lba;
                 blk_cnt = (if blk_cnt1 > max_blk_cnt then max_blk_cnt else blk_cnt1)
             in thn (modify (pcache_inst_update (cache_size_blocks_update (\<lambda>_. 0))))
                 (lun_ops (pc_clun dc) (\<lambda>l ops.
                   bnd (bdev_read E ops (bdev_hdl l) (ucast (ucast lba :: u32)) (ucast blk_cnt) (pc_buffer dc)) (\<lambda>result.
                     if result \<noteq> 0 then ret None
                     else thn (modify (pcache_inst_update (\<lambda>c. c\<lparr>first_cached_lba := lba,
                            cache_size_blocks := blk_cnt, is_valid := 1\<rparr>)))
                       (ret (Some (pc_buffer dc))))))))"

definition coldplug_pcache_change_cache :: "u64 \<Rightarrow> u64 \<Rightarrow> u32 \<Rightarrow> (('d, 'a) cp_cache_scheme, unit) boot" where
  "coldplug_pcache_change_cache static_buffer new_buffer buf_size =
     (if new_buffer = 0 \<or> buf_size = 0 then
        modify (\<lambda>s. s\<lparr>pcache_data_buffer := static_buffer,
          pcache_data_buffer_size := COLDPLUG_PCACHE_SIZE_IN_BYTES\<rparr>)
      else modify (\<lambda>s. s\<lparr>pcache_data_buffer := new_buffer, pcache_data_buffer_size := buf_size\<rparr>))"

definition coldplug_pcache_init :: "(('d, 'a) cp_cache_scheme, unit) boot" where
  "coldplug_pcache_init = modify (\<lambda>s. s\<lparr>pcache_inst := zero_pcache\<rparr>)"

text \<open>The result tells whether a cache was set up: the pointer returned is the one instance.\<close>

definition coldplug_pcache_init_for_lun :: "nat \<Rightarrow> (('d, 'a) cp_cache_scheme, bool) boot" where
  "coldplug_pcache_init_for_lun clun =
     deref coldplug_luns (Some clun) (\<lambda>l.
       if lba_size l > COLDPLUG_LBA_SIZE_IN_BYTES \<or> lba_size l = 0 \<or> lun_total_lba l = 0 then ret False
       else thn (modify (\<lambda>s.
              let bsb = pcache_data_buffer_size s div lba_size l;
                  bsb' = (if ucast bsb > lun_total_lba l then ucast (lun_total_lba l) else bsb)
              in s\<lparr>pcache_inst := zero_pcache\<lparr>pc_clun := Some clun, block_size_bytes := lba_size l,
                     block_count := ucast (lun_total_lba l), pc_buffer := pcache_data_buffer s,
                     buffer_size_blocks := bsb'\<rparr>\<rparr>))
            (ret True))"

definition coldplug_pcache_check_cache :: "u64 \<Rightarrow> (('d, 'a) cp_cache_scheme, u64 option) boot" where
  "coldplug_pcache_check_cache lba = gets (\<lambda>s.
     let dc = pcache_inst s
     in if is_valid dc = 0 then None
        else if first_cached_lba dc \<le> lba then
          let lba_offset = lba - first_cached_lba dc;
              cached_cnt = (ucast (cache_size_blocks dc) :: u64) AND 0xFFFFFFFF
          in if cached_cnt > lba_offset then
               Some (pc_buffer dc + lba_offset * ucast (block_size_bytes dc))
             else None
        else None)"

definition coldplug_pcache_read :: "('d, 'p) drivers_scheme \<Rightarrow> u64 \<Rightarrow> u32 \<Rightarrow> (('d, 'a) cp_cache_scheme, u64 option) boot" where
  "coldplug_pcache_read E lba read_ahead_hint =
     bnd (coldplug_pcache_check_cache lba) (\<lambda>buffer.
       case buffer of Some b \<Rightarrow> ret (Some b)
       | None \<Rightarrow> bnd (coldplug_pcache_read_i E lba read_ahead_hint) (\<lambda>b.
           if b = None then ret None else coldplug_pcache_check_cache lba))"

subsection \<open>The cache is coherent with the medium\<close>

text \<open>
  The invariant: the block geometry fits the 4096-byte buffer, and a valid cache holds the
  blocks of the medium from its first block on.
\<close>

definition cache_ok :: "(nat \<Rightarrow> bytes) \<Rightarrow> nat \<Rightarrow> ('d, 'a) cp_cache_scheme \<Rightarrow> bool" where
  "cache_ok medium bs s \<longleftrightarrow>
     (let dc = pcache_inst s in
        unat (block_size_bytes dc) = bs \<and> 0 < bs \<and> buffer_size_blocks dc \<noteq> 0 \<and>
        unat (buffer_size_blocks dc) * bs \<le> 4096 \<and>
        (is_valid dc \<noteq> 0 \<longrightarrow>
           cache_size_blocks dc \<le> buffer_size_blocks dc \<and>
           (\<forall>i < unat (cache_size_blocks dc).
              mem_read (pc_buffer dc + of_nat (i * bs)) bs (memory s) = medium (unat (first_cached_lba dc) + i))))"

lemma mask32_ucast: "(ucast (x :: u32) :: u64) AND 0xFFFFFFFF = ucast x"
proof -
  have "(0xFFFFFFFF :: u64) = mask 32" by (simp add: mask_eq_exp_minus_1)
  then show ?thesis by (simp only:) (auto simp: bit_eq_iff bit_simps dest: bit_imp_le_length)
qed

lemma check_cache_run:
  assumes "cache_ok medium bs s"
  shows "\<exists>x. coldplug_pcache_check_cache lba s = (Inr x, s) \<and>
    (\<forall>p. x = Some p \<longrightarrow> mem_read p bs (memory s) = medium (unat lba) \<and>
      unat (p - pc_buffer (pcache_inst s)) + bs \<le> 4096)"
proof -
  let ?dc = "pcache_inst s"
  have "mem_read p bs (memory s) = medium (unat lba) \<and> unat (p - pc_buffer ?dc) + bs \<le> 4096"
    if v: "is_valid ?dc \<noteq> 0" and le: "first_cached_lba ?dc \<le> lba"
      and lt: "lba - first_cached_lba ?dc < ucast (cache_size_blocks ?dc) AND 0xFFFFFFFF"
      and p: "p = pc_buffer ?dc + (lba - first_cached_lba ?dc) * ucast (block_size_bytes ?dc)" for p
  proof -
    let ?i = "unat (lba - first_cached_lba ?dc)"
    have i: "?i < unat (cache_size_blocks ?dc)" using lt by (simp add: word_less_nat_alt mask32_ucast)
    moreover have "unat (cache_size_blocks ?dc) \<le> unat (buffer_size_blocks ?dc)"
      using assms v by (simp add: cache_ok_def Let_def word_le_nat_alt)
    ultimately have "Suc ?i \<le> unat (buffer_size_blocks ?dc)" by linarith
    then have "Suc ?i * bs \<le> unat (buffer_size_blocks ?dc) * bs" by (rule mult_le_mono1)
    then have lim: "?i * bs + bs \<le> 4096" using assms by (simp add: cache_ok_def Let_def)
    have "(ucast (block_size_bytes ?dc) :: u64) = of_nat bs"
      using assms by (simp add: cache_ok_def Let_def) (metis unat_ucast_32_64 word_unat_eq_iff unat_of_nat64 unat64_lt)
    then have p': "p = pc_buffer ?dc + of_nat (?i * bs)" using p by simp
    have "unat (first_cached_lba ?dc) + ?i = unat lba" using le by (simp add: unat_sub word_le_nat_alt)
    then have "mem_read p bs (memory s) = medium (unat lba)"
      using assms v i p' by (simp add: cache_ok_def Let_def del: of_nat_mult)
    moreover have "unat (p - pc_buffer ?dc) = ?i * bs" using lim p' by (simp del: of_nat_mult)
    ultimately show ?thesis using lim by simp
  qed
  then show ?thesis by (auto simp: coldplug_pcache_check_cache_def Let_def)
qed


text \<open>The unit under the cache is a UFS unit in use with the given driver handle.\<close>

definition cache_on_ufs :: "u64 \<Rightarrow> ('d, 'a) cp_cache_scheme \<Rightarrow> bool" where
  "cache_on_ufs h s \<longleftrightarrow> pools_ok s \<and> h \<noteq> 0 \<and>
     (\<exists>j < COLDPLUG_MAX_LUNS. pc_clun (pcache_inst s) = Some j \<and> lun_used (coldplug_luns s ! j) \<and>
        bdev_hdl (coldplug_luns s ! j) = h \<and>
        the (bdev_ops (coldplug_devices s ! the (slot_cdev (coldplug_slots s !
          the (lun_cslot (coldplug_luns s ! j)))))) = Ufs_ops)"

lemma lun_ops_run:
  assumes "pools_ok s" and "j < COLDPLUG_MAX_LUNS" and "lun_used (coldplug_luns s ! j)"
  shows "lun_ops (Some j) f s = f (coldplug_luns s ! j) (the (bdev_ops (coldplug_devices s !
     the (slot_cdev (coldplug_slots s ! the (lun_cslot (coldplug_luns s ! j))))))) s"
proof -
  obtain a where a: "a < COLDPLUG_MAX_SLOTS" "lun_cslot (coldplug_luns s ! j) = Some a"
    "slot_used (coldplug_slots s ! a)" by (rule lun_parent [OF assms])
  obtain d where d: "d < COLDPLUG_MAX_DEVICES" "slot_cdev (coldplug_slots s ! a) = Some d"
    "device_used (coldplug_devices s ! d)" by (rule slot_parent [OF assms(1) a(1,3)])
  have "bdev_ops (coldplug_devices s ! d) \<noteq> None"
    using assms(1) d devices.good_nth [of "coldplug_devices s" d]
    by (simp add: pools_ok_def device_live_def)
  with a d assms(2) pools_ok_length [OF assms(1)] show ?thesis
    by (auto simp: lun_ops_def)
qed

text \<open>The states before and after a read through the cache.\<close>

definition cache_step :: "('d \<Rightarrow> nat \<Rightarrow> bytes) \<Rightarrow> nat \<Rightarrow> ('d, 'a) cp_cache_scheme \<Rightarrow> ('d, 'a) cp_cache_scheme \<Rightarrow> bool" where
  "cache_step media bs s t \<longleftrightarrow>
     cache_ok (media (drv t)) bs t \<and> media (drv t) = media (drv s) \<and>
     pc_buffer (pcache_inst t) = pc_buffer (pcache_inst s) \<and>
     pc_clun (pcache_inst t) = pc_clun (pcache_inst s) \<and>
     block_count (pcache_inst t) = block_count (pcache_inst s) \<and>
     (\<forall>x. memory t x \<noteq> memory s x \<longrightarrow> unat (x - pc_buffer (pcache_inst s)) < 4096) \<and>
     t = s\<lparr>memory := memory t, drv := drv t, coldplug_debug_info := coldplug_debug_info t,
       coldplug_debug_info_idx := coldplug_debug_info_idx t, pcache_inst := pcache_inst t\<rparr>"

lemma cache_step_refl: "cache_ok (media (drv s)) bs s \<Longrightarrow> cache_step media bs s s"
  by (simp add: cache_step_def)

lemma pools_frame:
  assumes "t = s\<lparr>memory := m, drv := d, coldplug_debug_info := i, coldplug_debug_info_idx := k, pcache_inst := p\<rparr>"
  shows "pools_ok t = pools_ok s" "coldplug_luns t = coldplug_luns s" "coldplug_slots t = coldplug_slots s"
    "coldplug_devices t = coldplug_devices s"
  using assms by (simp_all add: pools_ok_def)

lemma cache_frame_trans:
  assumes "t = s\<lparr>memory := m, drv := d, coldplug_debug_info := i, coldplug_debug_info_idx := k, pcache_inst := p\<rparr>"
    and "u = t\<lparr>memory := m', drv := d', coldplug_debug_info := i', coldplug_debug_info_idx := k', pcache_inst := p'\<rparr>"
  shows "u = s\<lparr>memory := m', drv := d', coldplug_debug_info := i', coldplug_debug_info_idx := k', pcache_inst := p'\<rparr>"
  using assms by simp

lemma cache_step_trans: "cache_step media bs s t \<Longrightarrow> cache_step media bs t u \<Longrightarrow> cache_step media bs s u"
proof -
  assume s: "cache_step media bs s t" and t: "cache_step media bs t u"
  have "t = s\<lparr>memory := memory t, drv := drv t, coldplug_debug_info := coldplug_debug_info t,
       coldplug_debug_info_idx := coldplug_debug_info_idx t, pcache_inst := pcache_inst t\<rparr>"
    using s unfolding cache_step_def by blast
  moreover have "u = t\<lparr>memory := memory u, drv := drv u, coldplug_debug_info := coldplug_debug_info u,
       coldplug_debug_info_idx := coldplug_debug_info_idx u, pcache_inst := pcache_inst u\<rparr>"
    using t unfolding cache_step_def by blast
  ultimately have "u = s\<lparr>memory := memory u, drv := drv u, coldplug_debug_info := coldplug_debug_info u,
       coldplug_debug_info_idx := coldplug_debug_info_idx u, pcache_inst := pcache_inst u\<rparr>"
    by (rule cache_frame_trans)
  then show ?thesis using s t unfolding cache_step_def by metis
qed

lemma cache_on_ufs_step: "cache_step media bs s t \<Longrightarrow> cache_on_ufs h s \<Longrightarrow> cache_on_ufs h t"
proof -
  assume step: "cache_step media bs s t" and on: "cache_on_ufs h s"
  have pc: "pc_clun (pcache_inst t) = pc_clun (pcache_inst s)" using step unfolding cache_step_def by blast
  from step have "t = s\<lparr>memory := memory t, drv := drv t, coldplug_debug_info := coldplug_debug_info t,
       coldplug_debug_info_idx := coldplug_debug_info_idx t, pcache_inst := pcache_inst t\<rparr>"
    unfolding cache_step_def by blast
  from pools_frame [OF this] pc show ?thesis using on unfolding cache_on_ufs_def by metis
qed

text \<open>
  A miss: the number of blocks the refill asks for, and the run of the refill over the
  UFS driver with that count.
\<close>

definition refill_count :: "coldplug_pcache_data \<Rightarrow> u64 \<Rightarrow> u32 \<Rightarrow> u32" where
  "refill_count dc lba hint =
     (let b = (if hint > buffer_size_blocks dc then buffer_size_blocks dc else hint);
          mx = block_count dc - ucast lba
      in if b > mx then mx else b)"

abbreviation forget_cache :: "('d, 'a) cp_cache_scheme \<Rightarrow> ('d, 'a) cp_cache_scheme" where
  "forget_cache \<equiv> pcache_inst_update (cache_size_blocks_update (\<lambda>_. 0))"

lemma refill_count_le: "refill_count dc lba hint \<le> buffer_size_blocks dc"
  by (auto simp: refill_count_def Let_def not_less)

lemma refill_count_pos:
  assumes "lba < ucast (block_count dc)" and "hint \<noteq> 0" and "buffer_size_blocks dc \<noteq> 0"
  shows "refill_count dc lba hint \<noteq> 0"
proof -
  have "unat lba < unat (block_count dc)" using assms(1) by (simp add: word_less_nat_alt)
  then have "unat (ucast lba :: u32) < unat (block_count dc)"
    by (simp add: unat_ucast_64_32 le_less_trans [OF mod_less_eq_dividend])
  then have "ucast lba \<noteq> block_count dc" by auto
  then show ?thesis using assms(2,3) by (auto simp: refill_count_def Let_def)
qed

lemma read_i_eq:
  assumes "cache_on_ufs h s" and "hint \<noteq> 0" and lt: "lba < ucast (block_count (pcache_inst s))"
    and rd: "coldplug_bdev_ufs_ops_read E h lba (ucast (refill_count (pcache_inst s) lba hint))
      (pc_buffer (pcache_inst s)) (forget_cache s) = (Inr x, t)"
  shows "coldplug_pcache_read_i E lba hint s = (if x \<noteq> 0 then (Inr None, t)
    else (Inr (Some (pc_buffer (pcache_inst s))),
      pcache_inst_update (\<lambda>c. c\<lparr>first_cached_lba := lba,
        cache_size_blocks := refill_count (pcache_inst s) lba hint, is_valid := 1\<rparr>) t))"
proof -
  let ?dc = "pcache_inst s"
  obtain j where j: "pools_ok s" "j < COLDPLUG_MAX_LUNS" "pc_clun ?dc = Some j" "lun_used (coldplug_luns s ! j)"
    "bdev_hdl (coldplug_luns s ! j) = h"
    "the (bdev_ops (coldplug_devices s ! the (slot_cdev (coldplug_slots s ! the (lun_cslot (coldplug_luns s ! j)))))) = Ufs_ops"
    using assms(1) by (auto simp: cache_on_ufs_def)
  define s1 where "s1 = forget_cache s"
  have "unat lba < 4294967296" using lt unat32_lt [of "block_count ?dc"]
    by (simp add: word_less_nat_alt del: unat32_lt)
  then have uu: "(ucast (ucast lba :: u32) :: u64) = lba"
    by (metis unat_ucast_32_64 unat_ucast_64_32 mod_less word_unat_eq_iff)
  have "pools_ok s1" using j(1) by (simp add: s1_def pools_ok_def)
  then have "lun_ops (Some j) F s1 = F (coldplug_luns s ! j) Ufs_ops s1" for F :: "_ \<Rightarrow> _ \<Rightarrow> (_, u64 option) boot"
    using lun_ops_run [of s1 j F] j(2,4,6) by (simp add: s1_def)
  then show ?thesis
    using assms(2) lt rd j(3,5) uu
    by (cases "x = 0") (simp_all add: coldplug_pcache_read_i_def Let_def bdev_read_def bnd_app ret_app
        not_le refill_count_def flip: s1_def)
qed

text \<open>The state after the driver has filled the buffer with the given bytes.\<close>

lemma refill_step:
  assumes "cache_ok (media (drv s)) bs s" and media: "ufs_media E h bs media"
    and mem: "memory t = mem_write (pc_buffer (pcache_inst s)) out (memory s)"
    and drv: "media (drv t) = media (drv s)" and len: "length out \<le> unat n * bs"
    and n: "n \<le> buffer_size_blocks (pcache_inst s)"
    and t: "t = s\<lparr>memory := memory t, drv := drv t, coldplug_debug_info := coldplug_debug_info t,
        coldplug_debug_info_idx := coldplug_debug_info_idx t, pcache_inst := pcache_inst t\<rparr>"
    and inst: "pcache_inst t = (pcache_inst s)\<lparr>cache_size_blocks := 0\<rparr> \<or>
      pcache_inst t = (pcache_inst s)\<lparr>first_cached_lba := lba, cache_size_blocks := n, is_valid := 1\<rparr> \<and>
      out = medium_blocks (media (drv s)) (unat lba) (unat n)"
  shows "cache_step media bs s t"
proof -
  let ?dc = "pcache_inst s"
  have geom: "unat (buffer_size_blocks ?dc) * bs \<le> 4096" using assms(1) by (simp add: cache_ok_def Let_def)
  moreover have "unat n * bs \<le> unat (buffer_size_blocks ?dc) * bs"
    using n by (intro mult_le_mono1) (simp add: word_le_nat_alt)
  ultimately have lim: "unat n * bs \<le> 4096" by linarith
  have mem': "memory t x \<noteq> memory s x \<Longrightarrow> unat (x - pc_buffer ?dc) < 4096" for x
    using mem len lim by (auto simp: mem_write_def split: if_splits)
  have blk: "mem_read (pc_buffer ?dc + of_nat (i * bs)) bs (memory t) = media (drv s) (unat lba + i)"
    if o: "out = medium_blocks (media (drv s)) (unat lba) (unat n)" and i: "i < unat n" for i
  proof -
    have "length out = unat n * bs" using length_blocks [OF ufs_media_len [OF media]] o by simp
    moreover have "i * bs + bs \<le> unat n * bs" using i mult_le_mono1 [of "Suc i" "unat n" bs] by simp
    ultimately show ?thesis
      using mem_read_written [of "i * bs" bs out "pc_buffer ?dc" "memory s"] mem lim o
        blocks_nth [OF ufs_media_len [OF media] i] by simp
  qed
  have "cache_ok (media (drv t)) bs t"
    using inst assms(1) blk drv n by (auto simp: cache_ok_def Let_def simp del: of_nat_mult)
  then show ?thesis using mem' drv inst t unfolding cache_step_def by fastforce
qed

lemma read_i_run:
  assumes "cache_on_ufs h s" and "cache_ok (media (drv s)) bs s" and "ufs_media E h bs media"
    and "hint \<noteq> 0" and "coldplug_pcache_read_i E lba hint s = (r, t)"
  shows "(\<exists>x. r = Inr x) \<and> cache_step media bs s t \<and>
    (lba < ucast (block_count (pcache_inst s)) \<and> ufs_reliable E h \<longrightarrow>
      r \<noteq> Inr None \<and> fst (coldplug_pcache_check_cache lba t) \<noteq> Inr None)"
proof (cases "lba < ucast (block_count (pcache_inst s))")
  case False
  then show ?thesis
    using assms(2,4,5) by (auto simp: coldplug_pcache_read_i_def Let_def ret_app not_less cache_step_refl)
next
  case True
  let ?n = "refill_count (pcache_inst s) lba hint" and ?b = "pc_buffer (pcache_inst s)"
  obtain r1 t1 where rd: "coldplug_bdev_ufs_ops_read E h lba (ucast ?n) ?b (forget_cache s) = (r1, t1)"
    by fastforce
  have h: "h \<noteq> 0" using assms(1) by (simp add: cache_on_ufs_def)
  have "unat lba < 4294967296" using True unat32_lt [of "block_count (pcache_inst s)"]
    by (simp add: word_less_nat_alt del: unat32_lt)
  from ufs_ops_read_run [OF h assms(3) rd this] obtain out x where out: "r1 = Inr x"
    "memory t1 = mem_write ?b out (memory s)" "media (drv t1) = media (drv s)" "length out \<le> unat ?n * bs"
    "x = 0 \<longrightarrow> out = medium_blocks (media (drv s)) (unat lba) (unat ?n)" "ufs_reliable E h \<longrightarrow> x = 0"
    "t1 = (forget_cache s)\<lparr>memory := memory t1, drv := drv t1, coldplug_debug_info := coldplug_debug_info t1,
      coldplug_debug_info_idx := coldplug_debug_info_idx t1\<rparr>" by auto
  have p1: "pcache_inst t1 = (pcache_inst s)\<lparr>cache_size_blocks := 0\<rparr>" by (subst out(7)) simp
  have run: "(r, t) = (if x \<noteq> 0 then (Inr None, t1) else (Inr (Some ?b),
      pcache_inst_update (\<lambda>c. c\<lparr>first_cached_lba := lba, cache_size_blocks := ?n, is_valid := 1\<rparr>) t1))"
    using read_i_eq [OF assms(1,4) True rd [unfolded out(1)]] assms(5) by simp
  have t: "t = s\<lparr>memory := memory t, drv := drv t, coldplug_debug_info := coldplug_debug_info t,
        coldplug_debug_info_idx := coldplug_debug_info_idx t, pcache_inst := pcache_inst t\<rparr>"
    using run p1 by (cases "x = 0") (simp, (subst out(7), rule cp_cache.equality; simp))+
  have step: "cache_step media bs s t"
    using run p1 out(2-5)
    by (intro refill_step [OF assms(2,3) _ _ _ refill_count_le t, where out = out and lba = lba])
       (auto split: if_splits)
  have "?n \<noteq> 0" using refill_count_pos [OF True assms(4)] assms(2) by (simp add: cache_ok_def Let_def)
  moreover have "x = 0" if "ufs_reliable E h" using out(6) that by simp
  ultimately show ?thesis using step run True p1
    by (auto simp: coldplug_pcache_check_cache_def Let_def mask32_ucast word_less_nat_alt unat_eq_0 split: if_splits)
qed

text \<open>A cache set up for a unit meets the invariant, whatever the medium.\<close>

lemma init_for_lun_run:
  assumes "pools_ok s" and "j < COLDPLUG_MAX_LUNS" and "pcache_data_buffer_size s = COLDPLUG_PCACHE_SIZE_IN_BYTES"
  shows "\<exists>b t. coldplug_pcache_init_for_lun j s = (Inr b, t) \<and>
    (b \<longrightarrow> cache_ok medium (unat (lba_size (coldplug_luns s ! j))) t \<and>
      pc_clun (pcache_inst t) = Some j \<and> pc_buffer (pcache_inst t) = pcache_data_buffer s)"
proof -
  let ?l = "coldplug_luns s ! j" and ?q = "4096 div lba_size (coldplug_luns s ! j)"
  have q: "?q \<noteq> 0" "unat ?q * unat (lba_size ?l) \<le> 4096" if "lba_size ?l \<le> 4096" "lba_size ?l \<noteq> 0"
  proof -
    have u: "unat ?q = 4096 div unat (lba_size ?l)" by (simp add: unat_div)
    moreover have "0 < unat (lba_size ?l)" "unat (lba_size ?l) \<le> 4096"
      using that by (simp_all add: word_le_nat_alt unat_gt_0)
    ultimately have "0 < unat ?q" by (simp add: div_greater_zero_iff)
    then show "?q \<noteq> 0" by auto
    show "unat ?q * unat (lba_size ?l) \<le> 4096" using u by simp
  qed
  have t: "ucast (lun_total_lba ?l) \<noteq> (0 :: u32) \<and> unat (ucast (lun_total_lba ?l) :: u32) * unat (lba_size ?l) \<le> 4096"
    if "lba_size ?l \<le> 4096" "lba_size ?l \<noteq> 0" "lun_total_lba ?l \<noteq> 0" "lun_total_lba ?l < ucast ?q"
  proof -
    have lt: "unat (lun_total_lba ?l) < unat ?q" using that(4) by (simp add: word_less_nat_alt)
    then have "unat (lun_total_lba ?l) < 4294967296" using unat32_lt [of ?q] by linarith
    then have e: "unat (ucast (lun_total_lba ?l) :: u32) = unat (lun_total_lba ?l)" by (simp add: unat_ucast_64_32)
    moreover have "unat (lun_total_lba ?l) \<noteq> 0" using that(3) by (simp add: unat_eq_0)
    ultimately have "ucast (lun_total_lba ?l) \<noteq> (0 :: u32)" by (metis unat_0)
    moreover have "unat (lun_total_lba ?l) * unat (lba_size ?l) \<le> 4096"
      using q(2) [OF that(1,2)] lt by (meson le_trans less_imp_le mult_le_mono1)
    ultimately show ?thesis using e by simp
  qed
  show ?thesis
  proof (cases "lba_size ?l > 4096 \<or> lba_size ?l = 0 \<or> lun_total_lba ?l = 0")
    case True
    then show ?thesis
      using assms(2) pools_ok_length [OF assms(1)] by (auto simp: coldplug_pcache_init_for_lun_def ret_app)
  next
    case False
    then have c: "lba_size ?l \<le> 4096" "lba_size ?l \<noteq> 0" "lun_total_lba ?l \<noteq> 0" by auto
    define n where "n = (if ucast ?q > lun_total_lba ?l then ucast (lun_total_lba ?l) else ?q)"
    have n: "n \<noteq> 0" "unat n * unat (lba_size ?l) \<le> 4096"
      using q [OF c(1,2)] t [OF c] by (auto simp: n_def)
    have "coldplug_pcache_init_for_lun j s = (Inr True, s\<lparr>pcache_inst := zero_pcache\<lparr>pc_clun := Some j,
        block_size_bytes := lba_size ?l, block_count := ucast (lun_total_lba ?l),
        pc_buffer := pcache_data_buffer s, buffer_size_blocks := n\<rparr>\<rparr>)"
      using False assms(2,3) pools_ok_length [OF assms(1)]
      by (simp add: coldplug_pcache_init_for_lun_def ret_app Let_def n_def)
    then show ?thesis using n c(2) by (auto simp: cache_ok_def Let_def zero_pcache_def unat_gt_0)
  qed
qed

lemma pcache_read_run:
  assumes "cache_on_ufs h s" and "cache_ok (media (drv s)) bs s" and "ufs_media E h bs media" and "hint \<noteq> 0"
    and "coldplug_pcache_read E lba hint s = (r, t)"
  shows "cache_step media bs s t \<and> (\<exists>x. r = Inr x \<and>
     (\<forall>p. x = Some p \<longrightarrow> mem_read p bs (memory t) = media (drv s) (unat lba) \<and>
        unat (p - pc_buffer (pcache_inst s)) + bs \<le> 4096) \<and>
     (lba < ucast (block_count (pcache_inst s)) \<and> ufs_reliable E h \<longrightarrow> x \<noteq> None))"
proof -
  obtain x where x: "coldplug_pcache_check_cache lba s = (Inr x, s)"
    "\<forall>p. x = Some p \<longrightarrow> mem_read p bs (memory s) = media (drv s) (unat lba) \<and>
      unat (p - pc_buffer (pcache_inst s)) + bs \<le> 4096"
    using check_cache_run [OF assms(2)] by blast
  show ?thesis
  proof (cases x)
    case None
    obtain r1 t1 where rd: "coldplug_pcache_read_i E lba hint s = (r1, t1)" by fastforce
    from read_i_run [OF assms(1-4) rd] obtain y where y: "r1 = Inr y" "cache_step media bs s t1"
      "lba < ucast (block_count (pcache_inst s)) \<and> ufs_reliable E h \<longrightarrow>
        r1 \<noteq> Inr None \<and> fst (coldplug_pcache_check_cache lba t1) \<noteq> Inr None" by blast
    then have ok: "cache_ok (media (drv t1)) bs t1" "media (drv t1) = media (drv s)"
      "pc_buffer (pcache_inst t1) = pc_buffer (pcache_inst s)" unfolding cache_step_def by blast+
    then show ?thesis using assms(5) x(1) None rd y check_cache_run [OF ok(1), of lba]
      by (auto simp: coldplug_pcache_read_def bnd_app ret_app split: if_splits)
  next
    case (Some p)
    then show ?thesis using assms(2,5) x by (auto simp: coldplug_pcache_read_def bnd_app ret_app cache_step_refl)
  qed
qed

text \<open>
  (C32) A read through the block cache is coherent. Over a unit of the UFS driver, with the
  cache in order, it never faults; a pointer it returns lies with its whole block inside
  the 4096-byte buffer and the memory there holds exactly the requested block of the
  medium; only buffer bytes change, the medium does not, and the cache is in order again.
  When the driver's reads succeed every block of the unit is returned.
\<close>

theorem pcache_read_correct:
  assumes "cache_on_ufs h s" and "cache_ok (media (drv s)) bs s" and "ufs_media E h bs media" and "hint \<noteq> 0"
  shows "\<exists>x t. coldplug_pcache_read E lba hint s = (Inr x, t) \<and>
     cache_ok (media (drv t)) bs t \<and> cache_on_ufs h t \<and> media (drv t) = media (drv s) \<and>
     (\<forall>a. memory t a \<noteq> memory s a \<longrightarrow> unat (a - pc_buffer (pcache_inst s)) < 4096) \<and>
     (\<forall>p. x = Some p \<longrightarrow> mem_read p bs (memory t) = media (drv s) (unat lba) \<and>
        unat (p - pc_buffer (pcache_inst s)) + bs \<le> 4096) \<and>
     (lba < ucast (block_count (pcache_inst s)) \<and> ufs_reliable E h \<longrightarrow> x \<noteq> None)"
proof -
  obtain r t where rd: "coldplug_pcache_read E lba hint s = (r, t)" by fastforce
  note run = pcache_read_run [OF assms rd]
  then have step: "cache_step media bs s t" by blast
  from cache_on_ufs_step [OF this assms(1)] step run rd show ?thesis unfolding cache_step_def by blast
qed

text \<open>A cache over the first unit of the example pools, with blocks of four bytes.\<close>

definition example_cache :: "(nat \<Rightarrow> u8) cp_cache" where
  "example_cache = cp_pools.extend example_pools
     \<lparr>drv = of_nat, coldplug_debug_info = replicate 50 zero_debug, coldplug_debug_info_idx = 0,
      pcache_inst = zero_pcache\<lparr>pc_clun := Some 0, block_size_bytes := 4, block_count := 16,
        pc_buffer := 4096, buffer_size_blocks := 16\<rparr>,
      pcache_data_buffer = 4096, pcache_data_buffer_size = 4096\<rparr>"

lemma example_cache_pools: "pools_ok example_cache"
  using example_pools_ok by (simp add: example_cache_def pools_ok_def cp_pools.defs)

lemma example_cache_ok: "cache_on_ufs 1 example_cache" "cache_ok medium 4 example_cache"
  using example_cache_pools
  by (auto simp: cache_on_ufs_def cache_ok_def example_cache_def example_pools_def cp_pools.defs zero_pcache_def
      blanks intro!: exI [of _ 0])

theorem pcache_read_correct_witness:
  "\<exists>x t. coldplug_pcache_read (ram_ufs 4) 3 1 example_cache = (Inr x, t) \<and>
     cache_ok (ram_medium 4 (drv t)) 4 t \<and> cache_on_ufs 1 t \<and> ram_medium 4 (drv t) = ram_medium 4 (drv example_cache) \<and>
     (\<forall>a. memory t a \<noteq> memory example_cache a \<longrightarrow> unat (a - pc_buffer (pcache_inst example_cache)) < 4096) \<and>
     (\<forall>p. x = Some p \<longrightarrow> mem_read p 4 (memory t) = ram_medium 4 (drv example_cache) (unat (3 :: u64)) \<and>
        unat (p - pc_buffer (pcache_inst example_cache)) + 4 \<le> 4096) \<and>
     ((3 :: u64) < ucast (block_count (pcache_inst example_cache)) \<and> ufs_reliable (ram_ufs 4) 1 \<longrightarrow> x \<noteq> None)"
  by (rule pcache_read_correct [OF example_cache_ok ram_ufs_media]) simp

end
