(* ===== verification/Coldplug_Mbr.thy ===== *)
theory Coldplug_Mbr
  imports Coldplug_Pcache
begin

text \<open>
  The MBR and FAT boot sector parsers (coldplug\_mbr.c, coldplug\_fat.c). The packed
  structures are read from memory at the byte offsets of their fields. The chain of
  extended boot records is followed at most until the partition limit of the unit is
  reached, so the loops are recursions on the number of partitions that may still be added.
\<close>

subsection \<open>The MBR layout\<close>

abbreviation (input) "COLDPLUG_PARTITION_ID_GPT \<equiv> (0xEE :: u8)"
abbreviation (input) "COLDPLUG_MBR_DOS_EXTENDED_PARTITION \<equiv> (0x05 :: u8)"
abbreviation (input) "COLDPLUG_MBR_WIN_EXTENDED_PARTITION \<equiv> (0x0F :: u8)"
abbreviation (input) "COLDPLUG_MAX_PARTITIONS_PER_LUN \<equiv> (128 :: nat)"

record coldplug_mbr_partition_data =
  bootable :: u8
  mbr_partition_type :: u8
  mbr_start_lba :: u32
  size_in_blocks :: u32

record coldplug_mbr_iter =
  next_ext_sector :: u32
  start_ext_partition :: u32
  parsing_extended :: u8
  current_index :: u8
  next_index :: u8
  mbr_sector :: u64
  partition_data :: coldplug_mbr_partition_data

record 'd cp_mbr = "'d cp_cache" +
  mbr_iter :: coldplug_mbr_iter

definition mbr_record_at :: "u64 \<Rightarrow> nat \<Rightarrow> u64" where
  "mbr_record_at mbr i = mbr + 446 + 16 * of_nat i"

definition mbr_record :: "u64 \<Rightarrow> nat \<Rightarrow> mem \<Rightarrow> coldplug_mbr_partition_data" where
  "mbr_record mbr i m =
     (let a = mbr_record_at mbr i
      in \<lparr>bootable = m a, mbr_partition_type = m (a + 4), mbr_start_lba = load32 (a + 8) m,
          size_in_blocks = load32 (a + 12) m\<rparr>)"

definition mbr_has_signature :: "u64 \<Rightarrow> mem \<Rightarrow> bool" where
  "mbr_has_signature mbr m \<longleftrightarrow> m (mbr + 510) = 0x55 \<and> m (mbr + 511) = 0xAA"

definition looks_like_fat :: "u64 \<Rightarrow> mem \<Rightarrow> bool" where
  "looks_like_fat mbr m \<longleftrightarrow> m (mbr + 11) = 0x00 \<and> m (mbr + 12) = 0x02"

subsection \<open>coldplug\_mbr.c\<close>

text \<open>
  The start addresses of the records in use; \<open>None\<close> as soon as one is 0 or behind the
  device.
\<close>

fun mbr_start_lba_list :: "u32 \<Rightarrow> coldplug_mbr_partition_data list \<Rightarrow> u32 list option" where
  "mbr_start_lba_list blocks [] = Some []"
| "mbr_start_lba_list blocks (r # rs) =
     (if mbr_partition_type r \<noteq> 0 \<and> size_in_blocks r > 0 then
        if mbr_start_lba r = 0 \<or> mbr_start_lba r > blocks then None
        else map_option ((#) (mbr_start_lba r)) (mbr_start_lba_list blocks rs)
      else mbr_start_lba_list blocks rs)"

text \<open>The double loop that looks for two equal start addresses.\<close>

fun all_unique :: "u32 list \<Rightarrow> bool" where
  "all_unique [] = True"
| "all_unique (x # xs) = (\<not> list_ex (\<lambda>y. x = y) xs \<and> all_unique xs)"

definition check_mbr_signature :: "('d, 'p) drivers_scheme \<Rightarrow> (('d, 'a) cp_cache_scheme, int) boot" where
  "check_mbr_signature E =
     bnd coldplug_pcache_get_block_count (\<lambda>total_card_block_count.
     bnd (coldplug_pcache_read E 0 1) (\<lambda>buffer.
       case buffer of None \<Rightarrow> ret (-1)
       | Some mbr \<Rightarrow> gets (\<lambda>s.
           let m = memory s
           in if \<not> mbr_has_signature mbr m then -1
              else if looks_like_fat mbr m then
                (case mbr_start_lba_list total_card_block_count (map (\<lambda>i. mbr_record mbr i m) [0..<4]) of
                   None \<Rightarrow> -1
                 | Some lbas \<Rightarrow> if lbas = [] then -1 else if all_unique lbas then 0 else -1)
              else 0)))"

definition gpt_check_protective_mbr :: "('d, 'p) drivers_scheme \<Rightarrow> (('d, 'a) cp_cache_scheme, int \<times> u32 option) boot" where
  "gpt_check_protective_mbr E =
     bnd (coldplug_pcache_read E 0 1) (\<lambda>buffer.
       case buffer of None \<Rightarrow> ret (-1, None)
       | Some mbr \<Rightarrow> gets (\<lambda>s.
           case find (\<lambda>r. mbr_partition_type r = COLDPLUG_PARTITION_ID_GPT)
                  (map (\<lambda>i. mbr_record mbr i (memory s)) [0..<4]) of
             None \<Rightarrow> (-1, None)
           | Some r \<Rightarrow> (0, Some (size_in_blocks r))))"

definition coldplug_mbr_parse_open :: "('d, 'p) drivers_scheme \<Rightarrow> (('d, 'a) cp_mbr_scheme, bool) boot" where
  "coldplug_mbr_parse_open E =
     bnd (check_mbr_signature E) (\<lambda>result.
       if result \<noteq> 0 then ret False
       else thn (modify (mbr_iter_update (\<lambda>it. it\<lparr>mbr_sector := 0, current_index := 0, next_index := 0\<rparr>)))
              (ret True))"

text \<open>The first used record from an index on.\<close>

definition mbr_next_used :: "u64 \<Rightarrow> nat \<Rightarrow> mem \<Rightarrow> nat option" where
  "mbr_next_used mbr index m =
     find (\<lambda>i. mbr_partition_type (mbr_record mbr i m) \<noteq> 0) [index..<4]"

definition coldplug_mbr_read_primary ::
  "('d, 'p) drivers_scheme \<Rightarrow> (('d, 'a) cp_mbr_scheme, coldplug_mbr_partition_data option) boot" where
  "coldplug_mbr_read_primary E =
     bnd (gets mbr_iter) (\<lambda>it.
       if next_index it \<ge> 4 then ret None
       else bnd (coldplug_pcache_read E (mbr_sector it) 1) (\<lambda>buffer.
         case buffer of None \<Rightarrow> ret None
         | Some mbr \<Rightarrow>
           bnd (gets memory) (\<lambda>m.
             case mbr_next_used mbr (unat (next_index it)) m of None \<Rightarrow> ret None
             | Some i \<Rightarrow>
               thn (modify (mbr_iter_update (\<lambda>it. it\<lparr>current_index := of_nat i,
                      next_index := of_nat i + 1, partition_data := mbr_record mbr i m\<rparr>)))
                 (ret (Some (mbr_record mbr i m))))))"

definition coldplug_mbr_check_extended :: "('d, 'p) drivers_scheme \<Rightarrow> (('d, 'a) cp_mbr_scheme, int) boot" where
  "coldplug_mbr_check_extended E =
     thn (modify (mbr_iter_update (parsing_extended_update (\<lambda>_. 0))))
       (bnd (gets mbr_iter) (\<lambda>it.
         if current_index it \<ge> 4 then ret (-1)
         else bnd (coldplug_pcache_read E (mbr_sector it) 1) (\<lambda>buffer.
           case buffer of None \<Rightarrow> ret (-1)
           | Some mbr \<Rightarrow>
             bnd (gets (\<lambda>s. mbr_record mbr (unat (current_index it)) (memory s))) (\<lambda>r.
               if mbr_partition_type r \<noteq> COLDPLUG_MBR_DOS_EXTENDED_PARTITION \<and>
                  mbr_partition_type r \<noteq> COLDPLUG_MBR_WIN_EXTENDED_PARTITION then ret (-1)
               else thn (modify (mbr_iter_update (\<lambda>it. it\<lparr>next_ext_sector := mbr_start_lba r,
                        start_ext_partition := mbr_start_lba r, parsing_extended := 1\<rparr>)))
                      (ret 0)))))"

definition coldplug_mbr_read_extended ::
  "('d, 'p) drivers_scheme \<Rightarrow> (('d, 'a) cp_mbr_scheme, coldplug_mbr_partition_data option) boot" where
  "coldplug_mbr_read_extended E =
     (let done_parsing = thn (modify (mbr_iter_update (parsing_extended_update (\<lambda>_. 0)))) (ret None)
      in bnd (gets mbr_iter) (\<lambda>it.
        if parsing_extended it = 0 then ret None
        else bnd (coldplug_pcache_read E (ucast (next_ext_sector it)) 1) (\<lambda>buffer.
          case buffer of None \<Rightarrow> done_parsing
          | Some ebr \<Rightarrow>
            bnd (gets memory) (\<lambda>m.
              let r0 = mbr_record ebr 0 m; r1 = mbr_record ebr 1 m;
                  data = r0\<lparr>mbr_start_lba := mbr_start_lba r0 + next_ext_sector it\<rparr>
              in if \<not> mbr_has_signature ebr m then done_parsing
                 else if mbr_partition_type r0 = 0 \<or> size_in_blocks r0 = 0 then done_parsing
                 else thn (modify (mbr_iter_update (\<lambda>it.
                        if size_in_blocks r1 = 0 \<or> mbr_partition_type r1 \<noteq> COLDPLUG_MBR_DOS_EXTENDED_PARTITION
                        then it\<lparr>partition_data := data, parsing_extended := 0\<rparr>
                        else it\<lparr>partition_data := data,
                          next_ext_sector := mbr_start_lba r1 + start_ext_partition it\<rparr>)))
                   (ret (Some data))))))"

definition coldplug_add_mbr_partition ::
  "nat \<Rightarrow> coldplug_mbr_partition_data \<Rightarrow> ('a cp_pools_scheme, int) boot" where
  "coldplug_add_mbr_partition clun e =
     bnd (coldplug_partition_alloc (Some clun)) (\<lambda>p.
       case p of None \<Rightarrow> ret COLDPLUG_RESULT_ENOMEM
       | Some i \<Rightarrow>
         thn (upd_partition i (\<lambda>x. x\<lparr>is_bootable := int (unat (bootable e)),
                parti_info := (parti_info x)\<lparr>partition_type := COLDPLUG_PARTITION_TYPE_MBR,
                  mbr_id := ucast (mbr_partition_type e)\<rparr>,
                start_lba := ucast (mbr_start_lba e), total_lba := ucast (size_in_blocks e)\<rparr>))
           (ret 0))"

text \<open>
  The inner loop over the extended boot records; the argument and the result are the number
  of partitions that may still be added to the unit.
\<close>

fun mbr_extended_loop :: "('d, 'p) drivers_scheme \<Rightarrow> nat \<Rightarrow> nat \<Rightarrow> (('d, 'a) cp_mbr_scheme, nat) boot" where
  "mbr_extended_loop E clun n =
     bnd (coldplug_mbr_read_extended E) (\<lambda>entry.
       case entry of None \<Rightarrow> ret n
       | Some e \<Rightarrow>
         (case n of 0 \<Rightarrow> ret 0
          | Suc n' \<Rightarrow> bnd (coldplug_add_mbr_partition clun e) (\<lambda>result.
              if result \<noteq> 0 then ret n else mbr_extended_loop E clun n')))"

declare mbr_extended_loop.simps [simp del]

text \<open>
  The outer loop over the four primary records. The fuel is one more than the records that
  are left: the index of the next record grows with every entry read.
\<close>

fun mbr_primary_loop :: "('d, 'p) drivers_scheme \<Rightarrow> nat \<Rightarrow> nat \<Rightarrow> nat \<Rightarrow> (('d, 'a) cp_mbr_scheme, unit) boot" where
  "mbr_primary_loop E clun 0 n = fatal Out_of_fuel"
| "mbr_primary_loop E clun (Suc fuel) n =
     bnd (coldplug_mbr_read_primary E) (\<lambda>entry.
       case entry of None \<Rightarrow> ret ()
       | Some e \<Rightarrow> bnd (coldplug_add_mbr_partition clun e) (\<lambda>result.
           if result \<noteq> 0 then ret ()
           else bnd (coldplug_mbr_check_extended E) (\<lambda>ext.
             bnd (if ext = 0 then mbr_extended_loop E clun (n - 1) else ret (n - 1)) (\<lambda>n'.
               if n' = 0 then ret () else mbr_primary_loop E clun fuel n'))))"

definition coldplug_mbr_parse :: "('d, 'p) drivers_scheme \<Rightarrow> nat \<Rightarrow> (('d, 'a) cp_mbr_scheme, int) boot" where
  "coldplug_mbr_parse E clun =
     bnd (coldplug_mbr_parse_open E) (\<lambda>found.
       if \<not> found then ret (-1)
       else thn (mbr_primary_loop E clun 5 COLDPLUG_MAX_PARTITIONS_PER_LUN) (ret 0))"

text \<open>
  The search for a partition of a given identifier on a device of a given type, and the
  handle opened on the first one found.
\<close>

definition parti_device ::
  "coldplug_partition \<Rightarrow> (coldplug_slot \<Rightarrow> coldplug_device \<Rightarrow> ('a cp_pools_scheme, 'r) boot) \<Rightarrow> ('a cp_pools_scheme, 'r) boot" where
  "parti_device p f =
     deref coldplug_luns (parti_clun p) (\<lambda>l. deref coldplug_slots (lun_cslot l) (\<lambda>sl.
       deref coldplug_devices (slot_cdev sl) (\<lambda>d. f sl d)))"

fun open_mbr_loop :: "nat \<Rightarrow> int \<Rightarrow> u32 \<Rightarrow> nat list \<Rightarrow> ('a cp_pools_scheme, cptr) boot" where
  "open_mbr_loop dev_type emb wanted [] = ret None"
| "open_mbr_loop dev_type emb wanted (i # is) =
     deref coldplug_partitions (Some i) (\<lambda>p.
       if parti_in_use p = 0 then open_mbr_loop dev_type emb wanted is
       else if partition_type (parti_info p) \<noteq> COLDPLUG_PARTITION_TYPE_MBR then
         open_mbr_loop dev_type emb wanted is
       else parti_device p (\<lambda>sl d.
         if device_type d = dev_type \<and> is_embedded_device sl = emb \<and> wanted = mbr_id (parti_info p)
         then coldplug_handle_alloc (Some i)
         else open_mbr_loop dev_type emb wanted is))"

definition coldplug_open_mbr_partition_i :: "nat \<Rightarrow> int \<Rightarrow> u32 \<Rightarrow> ('a cp_pools_scheme, cptr) boot" where
  "coldplug_open_mbr_partition_i dev_type emb wanted =
     open_mbr_loop dev_type emb wanted [0..<COLDPLUG_MAX_PARTITIONS]"

definition coldplug_mbr_partition_is_fat :: "nat \<Rightarrow> ('a cp_pools_scheme, int) boot" where
  "coldplug_mbr_partition_is_fat cparti =
     thn (coldplug_partition_validate (Some cparti))
       (deref coldplug_partitions (Some cparti) (\<lambda>p.
         thn (assert_c (partition_type (parti_info p) = COLDPLUG_PARTITION_TYPE_MBR))
           (ret (if mbr_id (parti_info p) \<in> {0x01, 0x04, 0x06, 0x0B, 0x0C, 0x0E} then 1 else 0))))"

subsection \<open>coldplug\_fat.c\<close>

definition check_fat_signature :: "('d, 'p) drivers_scheme \<Rightarrow> (('d, 'a) cp_cache_scheme, int) boot" where
  "check_fat_signature E =
     bnd (coldplug_pcache_read E 0 1) (\<lambda>buffer.
       case buffer of None \<Rightarrow> ret (-1)
       | Some mbr \<Rightarrow> gets (\<lambda>s.
           if \<not> mbr_has_signature mbr (memory s) then -1
           else if looks_like_fat mbr (memory s) then 0 else -1))"

definition coldplug_add_fat_partition :: "nat \<Rightarrow> ('a cp_pools_scheme, int) boot" where
  "coldplug_add_fat_partition clun =
     bnd (coldplug_partition_alloc (Some clun)) (\<lambda>p.
       case p of None \<Rightarrow> ret COLDPLUG_RESULT_ENOMEM
       | Some i \<Rightarrow> deref coldplug_luns (Some clun) (\<lambda>l.
         thn (upd_partition i (\<lambda>x. x\<lparr>is_bootable := 0,
                parti_info := (parti_info x)\<lparr>partition_type := COLDPLUG_PARTITION_TYPE_FAT\<rparr>,
                start_lba := 0, total_lba := lun_total_lba l\<rparr>))
           (ret 0)))"

definition coldplug_fat_parse :: "('d, 'p) drivers_scheme \<Rightarrow> nat \<Rightarrow> (('d, 'a) cp_cache_scheme, int) boot" where
  "coldplug_fat_parse E clun =
     bnd (check_fat_signature E) (\<lambda>r. if r = 0 then coldplug_add_fat_partition clun else ret (-1))"

end
