(* ===== verification/Crc32.thy ===== *)
theory Crc32
  imports Prelude
begin

text \<open>
  The CRC32 of the GPT parser (coldplug\_gpt.c): the table of 256 words and the byte loop
  over it. The reference is the bit-serial division by the reflected polynomial of the
  UEFI specification; the table is shown to hold its remainders, the table loop to compute
  it, and the seed to chain calculations.
\<close>

definition crc32_table :: "u32 list" where
  "crc32_table = [
    0x00000000, 0x77073096, 0xEE0E612C, 0x990951BA, 0x076DC419, 0x706AF48F,
    0xE963A535, 0x9E6495A3, 0x0EDB8832, 0x79DCB8A4, 0xE0D5E91E, 0x97D2D988,
    0x09B64C2B, 0x7EB17CBD, 0xE7B82D07, 0x90BF1D91, 0x1DB71064, 0x6AB020F2,
    0xF3B97148, 0x84BE41DE, 0x1ADAD47D, 0x6DDDE4EB, 0xF4D4B551, 0x83D385C7,
    0x136C9856, 0x646BA8C0, 0xFD62F97A, 0x8A65C9EC, 0x14015C4F, 0x63066CD9,
    0xFA0F3D63, 0x8D080DF5, 0x3B6E20C8, 0x4C69105E, 0xD56041E4, 0xA2677172,
    0x3C03E4D1, 0x4B04D447, 0xD20D85FD, 0xA50AB56B, 0x35B5A8FA, 0x42B2986C,
    0xDBBBC9D6, 0xACBCF940, 0x32D86CE3, 0x45DF5C75, 0xDCD60DCF, 0xABD13D59,
    0x26D930AC, 0x51DE003A, 0xC8D75180, 0xBFD06116, 0x21B4F4B5, 0x56B3C423,
    0xCFBA9599, 0xB8BDA50F, 0x2802B89E, 0x5F058808, 0xC60CD9B2, 0xB10BE924,
    0x2F6F7C87, 0x58684C11, 0xC1611DAB, 0xB6662D3D, 0x76DC4190, 0x01DB7106,
    0x98D220BC, 0xEFD5102A, 0x71B18589, 0x06B6B51F, 0x9FBFE4A5, 0xE8B8D433,
    0x7807C9A2, 0x0F00F934, 0x9609A88E, 0xE10E9818, 0x7F6A0DBB, 0x086D3D2D,
    0x91646C97, 0xE6635C01, 0x6B6B51F4, 0x1C6C6162, 0x856530D8, 0xF262004E,
    0x6C0695ED, 0x1B01A57B, 0x8208F4C1, 0xF50FC457, 0x65B0D9C6, 0x12B7E950,
    0x8BBEB8EA, 0xFCB9887C, 0x62DD1DDF, 0x15DA2D49, 0x8CD37CF3, 0xFBD44C65,
    0x4DB26158, 0x3AB551CE, 0xA3BC0074, 0xD4BB30E2, 0x4ADFA541, 0x3DD895D7,
    0xA4D1C46D, 0xD3D6F4FB, 0x4369E96A, 0x346ED9FC, 0xAD678846, 0xDA60B8D0,
    0x44042D73, 0x33031DE5, 0xAA0A4C5F, 0xDD0D7CC9, 0x5005713C, 0x270241AA,
    0xBE0B1010, 0xC90C2086, 0x5768B525, 0x206F85B3, 0xB966D409, 0xCE61E49F,
    0x5EDEF90E, 0x29D9C998, 0xB0D09822, 0xC7D7A8B4, 0x59B33D17, 0x2EB40D81,
    0xB7BD5C3B, 0xC0BA6CAD, 0xEDB88320, 0x9ABFB3B6, 0x03B6E20C, 0x74B1D29A,
    0xEAD54739, 0x9DD277AF, 0x04DB2615, 0x73DC1683, 0xE3630B12, 0x94643B84,
    0x0D6D6A3E, 0x7A6A5AA8, 0xE40ECF0B, 0x9309FF9D, 0x0A00AE27, 0x7D079EB1,
    0xF00F9344, 0x8708A3D2, 0x1E01F268, 0x6906C2FE, 0xF762575D, 0x806567CB,
    0x196C3671, 0x6E6B06E7, 0xFED41B76, 0x89D32BE0, 0x10DA7A5A, 0x67DD4ACC,
    0xF9B9DF6F, 0x8EBEEFF9, 0x17B7BE43, 0x60B08ED5, 0xD6D6A3E8, 0xA1D1937E,
    0x38D8C2C4, 0x4FDFF252, 0xD1BB67F1, 0xA6BC5767, 0x3FB506DD, 0x48B2364B,
    0xD80D2BDA, 0xAF0A1B4C, 0x36034AF6, 0x41047A60, 0xDF60EFC3, 0xA867DF55,
    0x316E8EEF, 0x4669BE79, 0xCB61B38C, 0xBC66831A, 0x256FD2A0, 0x5268E236,
    0xCC0C7795, 0xBB0B4703, 0x220216B9, 0x5505262F, 0xC5BA3BBE, 0xB2BD0B28,
    0x2BB45A92, 0x5CB36A04, 0xC2D7FFA7, 0xB5D0CF31, 0x2CD99E8B, 0x5BDEAE1D,
    0x9B64C2B0, 0xEC63F226, 0x756AA39C, 0x026D930A, 0x9C0906A9, 0xEB0E363F,
    0x72076785, 0x05005713, 0x95BF4A82, 0xE2B87A14, 0x7BB12BAE, 0x0CB61B38,
    0x92D28E9B, 0xE5D5BE0D, 0x7CDCEFB7, 0x0BDBDF21, 0x86D3D2D4, 0xF1D4E242,
    0x68DDB3F8, 0x1FDA836E, 0x81BE16CD, 0xF6B9265B, 0x6FB077E1, 0x18B74777,
    0x88085AE6, 0xFF0F6A70, 0x66063BCA, 0x11010B5C, 0x8F659EFF, 0xF862AE69,
    0x616BFFD3, 0x166CCF45, 0xA00AE278, 0xD70DD2EE, 0x4E048354, 0x3903B3C2,
    0xA7672661, 0xD06016F7, 0x4969474D, 0x3E6E77DB, 0xAED16A4A, 0xD9D65ADC,
    0x40DF0B66, 0x37D83BF0, 0xA9BCAE53, 0xDEBB9EC5, 0x47B2CF7F, 0x30B5FFE9,
    0xBDBDF21C, 0xCABAC28A, 0x53B39330, 0x24B4A3A6, 0xBAD03605, 0xCDD70693,
    0x54DE5729, 0x23D967BF, 0xB3667A2E, 0xC4614AB8, 0x5D681B02, 0x2A6F2B94,
    0xB40BBE37, 0xC30C8EA1, 0x5A05DF1B, 0x2D02EF8D]"

definition crc32_step :: "u32 \<Rightarrow> u8 \<Rightarrow> u32" where
  "crc32_step crc b = drop_bit 8 crc XOR (crc32_table ! unat ((ucast crc :: u8) XOR b))"

text \<open>
  \<^verbatim>\<open>gpt_calc_crc32\<close> on the bytes of its buffer, which is never null in its calls.
\<close>

definition gpt_calc_crc32 :: "bytes \<Rightarrow> u32 \<Rightarrow> u32" where
  "gpt_calc_crc32 data seed =
     (if data = [] then 0
      else foldl crc32_step (0xFFFFFFFF XOR seed) data XOR 0xFFFFFFFF)"

subsection \<open>The reference\<close>

text \<open>One step of the division, then one byte, least significant bit first.\<close>

definition crc_bit :: "u32 \<Rightarrow> u32" where
  "crc_bit c = (if bit c 0 then drop_bit 1 c XOR 0xEDB88320 else drop_bit 1 c)"

definition crc_byte :: "u32 \<Rightarrow> u8 \<Rightarrow> u32" where
  "crc_byte c b = (crc_bit ^^ 8) (c XOR ucast b)"

definition crc32_ref :: "bytes \<Rightarrow> u32" where
  "crc32_ref data = NOT (foldl crc_byte (NOT 0) data)"

text \<open>The remainder of one byte, and a table of remainders doubled by one more bit.\<close>

definition crc_of :: "nat \<Rightarrow> u32" where
  "crc_of n = (crc_bit ^^ 8) (of_nat n)"

definition doubled :: "u32 list \<Rightarrow> u32 \<Rightarrow> u32 list" where
  "doubled xs b = xs @ map (\<lambda>x. x XOR b) xs"

subsection \<open>The table\<close>

lemma crc_bit_xor: "crc_bit (x XOR y) = crc_bit x XOR crc_bit y"
  by (auto simp: crc_bit_def bit_eq_iff bit_simps)

lemma crc_bits_xor: "(crc_bit ^^ n) (x XOR y) = (crc_bit ^^ n) x XOR (crc_bit ^^ n) y"
  by (induction n) (simp_all add: crc_bit_xor)

lemma crc_bits_high: "(\<And>i. i < n \<Longrightarrow> \<not> bit x i) \<Longrightarrow> (crc_bit ^^ n) x = drop_bit n x"
proof (induction n)
  case (Suc n)
  then have "(crc_bit ^^ n) x = drop_bit n x" by simp
  moreover have "\<not> bit (drop_bit n x) 0" using Suc.prems [of n] by (simp add: bit_simps)
  ultimately have "(crc_bit ^^ Suc n) x = drop_bit 1 (drop_bit n x)" by (simp add: crc_bit_def [of "drop_bit n x"])
  then show ?case by (simp add: drop_bit_drop_bit)
qed simp

lemma crc_bit_chain:
  "crc_bit 0x80 = 0x40" "crc_bit 0x40 = 0x20" "crc_bit 0x20 = 0x10" "crc_bit 0x10 = 0x8" "crc_bit 0x8
  = 0x4" "crc_bit 0x4 = 0x2" "crc_bit 0x2 = 1" "crc_bit 1 = 0xedb88320" "crc_bit 0xedb88320 =
  0x76dc4190" "crc_bit 0x76dc4190 = 0x3b6e20c8" "crc_bit 0x3b6e20c8 = 0x1db71064" "crc_bit 0x1db71064
  = 0xedb8832" "crc_bit 0xedb8832 = 0x76dc419" "crc_bit 0x76dc419 = 0xee0e612c" "crc_bit 0xee0e612c =
  0x77073096"
  by (simp_all add: crc_bit_def)

lemma crc_bits8: "(crc_bit ^^ 8) x =
    crc_bit (crc_bit (crc_bit (crc_bit (crc_bit (crc_bit (crc_bit (crc_bit x)))))))"
  by (simp add: eval_nat_numeral)

lemma crc_of_basis:
  "crc_of 1 = 0x77073096" "crc_of 2 = 0xEE0E612C" "crc_of 4 = 0x076DC419" "crc_of 8 = 0x0EDB8832"
  "crc_of 16 = 0x1DB71064" "crc_of 32 = 0x3B6E20C8" "crc_of 64 = 0x76DC4190" "crc_of 128 = 0xEDB88320"
  by (simp_all add: crc_of_def crc_bits8 crc_bit_chain)

lemma crc_of_double:
  assumes "n < 2 ^ k"
  shows "crc_of (2 ^ k + n) = crc_of n XOR crc_of (2 ^ k)"
proof -
  have "\<not> bit n k" using assms by (simp add: bit_iff_odd)
  then have "2 ^ k AND n = 0" by (intro bit_eqI) (auto simp: bit_simps)
  then have "2 ^ k + n = n XOR 2 ^ k"
    by (metis disjunctive_add_eq_or disjunctive_xor_eq_or xor.commute)
  then show ?thesis by (simp only: crc_of_def of_nat_xor_eq crc_bits_xor)
qed

lemma crc_of_list:
  "map crc_of [0..<2 * 2 ^ k] = doubled (map crc_of [0..<2 ^ k]) (crc_of (2 ^ k))"
proof -
  have "[0..<2 * 2 ^ k] = [0..<2 ^ k] @ map (\<lambda>i. i + 2 ^ k) [0..<2 ^ k]"
    using upt_add_eq_append [of 0 "2 ^ k" "2 ^ k"] map_add_upt [of "2 ^ k" "2 ^ k"]
    by (simp only: mult_2 add_0)
  then show ?thesis by (simp add: crc_of_double [unfolded add.commute [of "2 ^ k" for k]] doubled_def)
qed

lemma crc_table_0: "map crc_of [0..<1] = [0]"
  by (simp add: crc_of_def crc_bits8 crc_bit_def)

lemma crc_table_rec:
  "map crc_of [0..<2] = doubled (map crc_of [0..<1]) (crc_of 1)"
  "map crc_of [0..<4] = doubled (map crc_of [0..<2]) (crc_of 2)"
  "map crc_of [0..<8] = doubled (map crc_of [0..<4]) (crc_of 4)"
  "map crc_of [0..<16] = doubled (map crc_of [0..<8]) (crc_of 8)"
  "map crc_of [0..<32] = doubled (map crc_of [0..<16]) (crc_of 16)"
  "map crc_of [0..<64] = doubled (map crc_of [0..<32]) (crc_of 32)"
  "map crc_of [0..<128] = doubled (map crc_of [0..<64]) (crc_of 64)"
  "map crc_of [0..<256] = doubled (map crc_of [0..<128]) (crc_of 128)"
  using crc_of_list [of 0] crc_of_list [of 1] crc_of_list [of 2] crc_of_list [of 3] crc_of_list [of 4]
    crc_of_list [of 5] crc_of_list [of 6] crc_of_list [of 7]
  by (simp_all del: upt_Suc upt_rec_numeral)

lemma crc_table: "crc32_table = map crc_of [0..<256]"
  unfolding crc_table_rec crc_table_0 crc_of_basis
  by (simp add: doubled_def crc32_table_def)


subsection \<open>The table loop computes the reference\<close>

lemma crc32_step_byte: "crc32_step c b = crc_byte c b"
proof -
  let ?lo = "ucast ((ucast c :: u8) XOR b) :: u32"
  let ?hi = "push_bit 8 (drop_bit 8 c)"
  have "c XOR ucast b = ?hi XOR ?lo"
    by (auto simp: bit_eq_iff bit_simps)
  then have "crc_byte c b = (crc_bit ^^ 8) ?hi XOR (crc_bit ^^ 8) ?lo"
    by (simp only: crc_byte_def crc_bits_xor)
  moreover have "(crc_bit ^^ 8) ?hi = drop_bit 8 c"
    by (subst crc_bits_high) (auto simp: bit_simps bit_eq_iff dest: bit_imp_le_length)
  moreover have "(crc_bit ^^ 8) ?lo = crc32_table ! unat ((ucast c :: u8) XOR b)"
    by (simp add: crc_table crc_of_def del: upt_rec_numeral)
  ultimately show ?thesis by (simp add: crc32_step_def)
qed

lemma foldl_crc32_step: "foldl crc32_step c data = foldl crc_byte c data"
  by (induction data arbitrary: c) (simp_all add: crc32_step_byte)

lemma not_xor_ones: "x XOR 0xFFFFFFFF = NOT x" "0xFFFFFFFF XOR x = NOT x" for x :: u32
proof -
  have "(0xFFFFFFFF :: u32) = NOT 0" by simp
  then show "x XOR 0xFFFFFFFF = NOT x" "0xFFFFFFFF XOR x = NOT x" by (auto simp: bit_eq_iff bit_simps)
qed

text \<open>
  Extending a checksum by the bytes of a buffer; unlike the function of the code it leaves
  the seed for no bytes, and started with 0 it is the reference on every string.
\<close>

definition crc32_extend :: "bytes \<Rightarrow> u32 \<Rightarrow> u32" where
  "crc32_extend data seed = (if data = [] then seed else gpt_calc_crc32 data seed)"

lemma crc32_extend_Nil [simp]: "crc32_extend [] seed = seed"
  by (simp add: crc32_extend_def)

lemma crc32_extend_append: "crc32_extend (xs @ ys) seed = crc32_extend ys (crc32_extend xs seed)"
  by (simp add: crc32_extend_def gpt_calc_crc32_def not_xor_ones)

lemma crc32_extend_calc: "data \<noteq> [] \<Longrightarrow> gpt_calc_crc32 data seed = crc32_extend data seed"
  by (simp add: crc32_extend_def)

lemma crc32_extend_ref: "crc32_extend data 0 = crc32_ref data"
proof -
  have "(0xFFFFFFFF :: u32) XOR 0 = NOT 0" by (simp only: not_xor_ones)
  then show ?thesis
    by (auto simp: crc32_extend_def gpt_calc_crc32_def crc32_ref_def foldl_crc32_step not_xor_ones(1)
        simp del: xor.right_neutral)
qed

subsection \<open>Correctness of the checksum\<close>

text \<open>
  (C40) The table-driven \<^verbatim>\<open>gpt_calc_crc32\<close> started with \<^verbatim>\<open>CRC32_SEED\<close> is the bit-serial CRC32 with
  the reflected polynomial 0xEDB88320, initial value and final complement of all ones, on
  every non-empty buffer.
\<close>

theorem gpt_calc_crc32_correct:
  assumes "data \<noteq> []"
  shows "gpt_calc_crc32 data 0 = crc32_ref data"
  using crc32_extend_ref [of data] crc32_extend_calc [OF assms, of 0] by simp

theorem gpt_calc_crc32_correct_witness:
  "gpt_calc_crc32 [0x31, 0x32, 0x33] 0 = crc32_ref [0x31, 0x32, 0x33]"
  by (rule gpt_calc_crc32_correct) simp

text \<open>
  The seed chains calculations: the checksum of a buffer read in pieces is that of the
  pieces in turn, each seeded with the one before.
\<close>

theorem gpt_calc_crc32_chain:
  assumes "xs \<noteq> []" and "ys \<noteq> []"
  shows "gpt_calc_crc32 (xs @ ys) seed = gpt_calc_crc32 ys (gpt_calc_crc32 xs seed)"
  using assms by (simp add: gpt_calc_crc32_def not_xor_ones)

theorem gpt_calc_crc32_chain_witness:
  "gpt_calc_crc32 ([1, 2] @ [3]) 0 = gpt_calc_crc32 [3] (gpt_calc_crc32 [1, 2] 0)"
  by (rule gpt_calc_crc32_chain) simp_all

end
