(* ===== verification/Coldplug_Gpt.thy ===== *)
theory Coldplug_Gpt
  imports Coldplug_Mbr Crc32
begin

text \<open>
  The GPT parser (coldplug\_gpt.c). The header and the entries are read from the cache
  buffer in memory at the offsets of the packed structures; the iterator is the one static
  instance. Dividing by a block size of 0 is undefined behaviour.
\<close>

record coldplug_gpt_iter =
  it_block_size_bytes :: u32
  remaining_entries :: u32
  curr_entry_array_lba :: u64
  last_entry_array_lba :: u64
  size_of_partition_entry :: u32
  current_entry_offset :: u32

record 'd cp_gpt = "'d cp_mbr" +
  gpt_iter :: coldplug_gpt_iter

record coldplug_gpt_header =
  gh_signature :: bytes
  header_crc32 :: u32
  my_lba :: u64
  alternate_lba :: u64
  partition_entry_lba :: u64
  number_of_partition_entries :: u32
  gh_size_of_partition_entry :: u32
  partition_entries_crc32 :: u32

record coldplug_gpt_partition =
  gp_type_guid :: bytes
  gp_start_lba :: u64
  gp_end_lba :: u64
  gp_attributes :: u64

definition gpt_header_at :: "u64 \<Rightarrow> mem \<Rightarrow> coldplug_gpt_header" where
  "gpt_header_at a m = \<lparr>gh_signature = mem_read a 8 m, header_crc32 = load32 (a + 16) m,
     my_lba = load64 (a + 24) m, alternate_lba = load64 (a + 32) m,
     partition_entry_lba = load64 (a + 72) m, number_of_partition_entries = load32 (a + 80) m,
     gh_size_of_partition_entry = load32 (a + 84) m, partition_entries_crc32 = load32 (a + 88) m\<rparr>"

definition gpt_partition_at :: "u64 \<Rightarrow> mem \<Rightarrow> coldplug_gpt_partition" where
  "gpt_partition_at a m = \<lparr>gp_type_guid = mem_read a 16 m, gp_start_lba = load64 (a + 32) m,
     gp_end_lba = load64 (a + 40) m, gp_attributes = load64 (a + 48) m\<rparr>"

text \<open>The bytes of \<^verbatim>\<open>EFI PART\<close>.\<close>

definition GPT_SIGNATURE :: bytes where
  "GPT_SIGNATURE = [0x45, 0x46, 0x49, 0x20, 0x50, 0x41, 0x52, 0x54]"

definition COLDPLUG_GPT_GUID_DATA_PARTITION :: bytes where
  "COLDPLUG_GPT_GUID_DATA_PARTITION =
     [0xA2, 0xA0, 0xD0, 0xEB, 0xE5, 0xB9, 0x33, 0x44, 0x87, 0xC0, 0x68, 0xB6, 0xB7, 0x26, 0x99, 0xC7]"

text \<open>
  The loop over the blocks of the entry array; \<open>bs\<close> is the block size, \<open>left\<close> the bytes not
  yet covered. It stops early, with the checksum so far, when a block cannot be read.
\<close>

function gpt_entries_crc_loop ::
  "('d, 'p) drivers_scheme \<Rightarrow> u32 \<Rightarrow> u64 \<Rightarrow> u64 \<Rightarrow> u32 \<Rightarrow> u32 \<Rightarrow> (('d, 'a) cp_cache_scheme, u32) boot" where
  "gpt_entries_crc_loop E bs last_lba entries_lba left crc =
     (if left = 0 \<or> bs = 0 then ret crc
      else bnd (coldplug_pcache_read E entries_lba (ucast (last_lba - entries_lba + 1))) (\<lambda>buffer.
        case buffer of None \<Rightarrow> ret crc
        | Some b \<Rightarrow>
          bnd (gets (\<lambda>s. gpt_calc_crc32 (mem_read b (unat (min bs left)) (memory s)) crc)) (\<lambda>crc'.
            gpt_entries_crc_loop E bs last_lba (entries_lba + 1) (left - min bs left) crc')))"
  by pat_completeness auto
termination
proof (relation "measure (\<lambda>(E, bs, last_lba, lba, left, crc). unat left)", goal_cases)
  case (2 E bs last_lba entries_lba left)
  then have "min bs left \<le> left" "min bs left \<noteq> 0" by (auto simp: min_def)
  then have "unat (left - min bs left) = unat left - unat (min bs left)"
      "0 < unat (min bs left)" "unat (min bs left) \<le> unat left"
    by (simp_all add: unat_sub unat_gt_0 word_le_nat_alt del: min.cobounded2)
  then have "unat (left - min bs left) < unat left" by linarith
  then show ?case by simp
qed simp

declare gpt_entries_crc_loop.simps [simp del]

definition gpt_check_header :: "('d, 'p) drivers_scheme \<Rightarrow> u64 \<Rightarrow> (('d, 'a) cp_gpt_scheme, int) boot" where
  "gpt_check_header E gpt_lba =
     bnd (coldplug_pcache_read E gpt_lba 1) (\<lambda>buffer.
       case buffer of None \<Rightarrow> ret (-1)
       | Some b \<Rightarrow>
         bnd (gets (\<lambda>s. gpt_header_at b (memory s))) (\<lambda>h.
         if gh_signature h \<noteq> GPT_SIGNATURE then ret (-1)
         else
           thn (modify (memory_update (store32 (b + 16) 0)))
            (bnd (gets (\<lambda>s. gpt_calc_crc32 (mem_read b 92 (memory s)) 0)) (\<lambda>crc.
             thn (modify (memory_update (store32 (b + 16) (header_crc32 h))))
              (if crc \<noteq> header_crc32 h then ret (-1)
               else if gpt_lba \<noteq> my_lba h then ret (-1)
               else if number_of_partition_entries h = 0 then ret (-1)
               else if gh_size_of_partition_entry h = 0 \<or> gh_size_of_partition_entry h mod 128 \<noteq> 0 then ret (-1)
               else
                 bnd (gets (\<lambda>s. it_block_size_bytes (gpt_iter s))) (\<lambda>bs.
                 if bs = 0 then fatal Undefined_behaviour
                 else
                   let entry_array_size_bytes = number_of_partition_entries h * gh_size_of_partition_entry h;
                       entry_lba_count = (entry_array_size_bytes - 1) div bs + 1;
                       last_lba = partition_entry_lba h + ucast entry_lba_count - 1
                   in thn (modify (gpt_iter_update (\<lambda>it. it\<lparr>
                            remaining_entries := number_of_partition_entries h,
                            current_entry_offset := 0,
                            size_of_partition_entry := gh_size_of_partition_entry h,
                            curr_entry_array_lba := partition_entry_lba h,
                            last_entry_array_lba := last_lba\<rparr>)))
                     (bnd coldplug_pcache_get_block_count (\<lambda>dev_size_blocks.
                       if last_lba < partition_entry_lba h \<or> last_lba > ucast dev_size_blocks then ret (-1)
                       else
                         bnd (gpt_entries_crc_loop E bs last_lba (partition_entry_lba h) entry_array_size_bytes 0) (\<lambda>crc2.
                           ret (if crc2 = partition_entries_crc32 h then 0 else -1))))))))))"

definition coldplug_gpt_parse_open :: "('d, 'p) drivers_scheme \<Rightarrow> nat \<Rightarrow> (('d, 'a) cp_gpt_scheme, bool) boot" where
  "coldplug_gpt_parse_open E clun =
     bnd (check_mbr_signature E) (\<lambda>mbr_sig.
     bnd (if mbr_sig = 0 then gpt_check_protective_mbr E else ret (0, None)) (\<lambda>(result, total).
       if result \<noteq> 0 then ret False
       else deref coldplug_luns (Some clun) (\<lambda>l.
         thn (if is_boot_lun l \<noteq> 0 then
                let total_lba = case_option 0 id total
                in thn (upd_lun clun (lun_total_lba_update (\<lambda>_. ucast total_lba)))
                     (modify (pcache_inst_update (block_count_update (\<lambda>_. total_lba))))
              else ret ())
          (bnd coldplug_pcache_get_block_size (\<lambda>bs.
            thn (modify (gpt_iter_update (it_block_size_bytes_update (\<lambda>_. bs))))
             (bnd (gpt_check_header E 1) (\<lambda>r1.
               if r1 = 0 then ret True
               else bnd coldplug_pcache_get_block_count (\<lambda>block_cnt.
                 bnd (gpt_check_header E (ucast (block_cnt - 1))) (\<lambda>r2. ret (r2 = 0))))))))))"

text \<open>
  \<^verbatim>\<open>gpt_is_entry_valid\<close>: 0 when the type GUID is all zero, -1 as soon as one of its four words
  is not.
\<close>

fun guid_words_loop :: "bytes \<Rightarrow> int" where
  "guid_words_loop (a # b # c # d # rest) =
     (if le_nat [a, b, c, d] \<noteq> 0 then -1 else guid_words_loop rest)"
| "guid_words_loop _ = 0"

definition gpt_is_entry_valid :: "coldplug_gpt_partition \<Rightarrow> int" where
  "gpt_is_entry_valid e = guid_words_loop (gp_type_guid e)"

definition gpt_get_next_partition_entry ::
  "('d, 'p) drivers_scheme \<Rightarrow> (('d, 'a) cp_gpt_scheme, coldplug_gpt_partition option) boot" where
  "gpt_get_next_partition_entry E =
     bnd (gets gpt_iter) (\<lambda>it.
       if remaining_entries it = 0 then ret None
       else bnd (coldplug_pcache_read E (curr_entry_array_lba it)
                   (ucast (last_entry_array_lba it - curr_entry_array_lba it + 1))) (\<lambda>buffer.
         case buffer of None \<Rightarrow> ret None
         | Some b \<Rightarrow>
           if it_block_size_bytes it = 0 then fatal Undefined_behaviour
           else
             let bs = it_block_size_bytes it;
                 off = current_entry_offset it + size_of_partition_entry it
             in thn (modify (gpt_iter_update (\<lambda>i. i\<lparr>
                      remaining_entries := remaining_entries it - 1,
                      curr_entry_array_lba := (if off \<ge> bs then curr_entry_array_lba it + ucast (off div bs)
                                               else curr_entry_array_lba it),
                      current_entry_offset := (if off \<ge> bs then off mod bs else off)\<rparr>)))
                  (gets (\<lambda>s. Some (gpt_partition_at (b + ucast (current_entry_offset it)) (memory s))))))"

text \<open>The loop that skips unused entries, with at least one step more than entries are left.\<close>

fun gpt_parse_read_loop ::
  "('d, 'p) drivers_scheme \<Rightarrow> nat \<Rightarrow> (('d, 'a) cp_gpt_scheme, coldplug_gpt_partition option) boot" where
  "gpt_parse_read_loop E 0 = fatal Out_of_fuel"
| "gpt_parse_read_loop E (Suc fuel) =
     bnd (gpt_get_next_partition_entry E) (\<lambda>entry.
       case entry of None \<Rightarrow> ret None
       | Some e \<Rightarrow> if gpt_is_entry_valid e = 0 then gpt_parse_read_loop E fuel else ret (Some e))"

definition coldplug_gpt_parse_read ::
  "('d, 'p) drivers_scheme \<Rightarrow> (('d, 'a) cp_gpt_scheme, coldplug_gpt_partition option) boot" where
  "coldplug_gpt_parse_read E =
     bnd (gets (\<lambda>s. Suc (unat (remaining_entries (gpt_iter s))))) (gpt_parse_read_loop E)"

definition coldplug_add_gpt_partition ::
  "nat \<Rightarrow> coldplug_gpt_partition \<Rightarrow> ('a cp_pools_scheme, int) boot" where
  "coldplug_add_gpt_partition clun e =
     bnd (coldplug_partition_alloc (Some clun)) (\<lambda>p.
       case p of None \<Rightarrow> ret (-1)
       | Some i \<Rightarrow>
         thn (upd_partition i (\<lambda>x. x\<lparr>
                is_bootable := int (unat (drop_bit 2 (gp_attributes e) AND 1)),
                parti_info := (parti_info x)\<lparr>partition_type := COLDPLUG_PARTITION_TYPE_GPT,
                  type_guid := gp_type_guid e\<rparr>,
                start_lba := ucast (ucast (gp_start_lba e) :: u32),
                total_lba := ucast (1 + (ucast (gp_end_lba e - gp_start_lba e) :: u32))\<rparr>))
           (ret 0))"

text \<open>The argument is the number of partitions that may still be added.\<close>

fun gpt_parse_loop :: "('d, 'p) drivers_scheme \<Rightarrow> nat \<Rightarrow> nat \<Rightarrow> (('d, 'a) cp_gpt_scheme, unit) boot" where
  "gpt_parse_loop E clun 0 = ret ()"
| "gpt_parse_loop E clun (Suc n) =
     bnd (coldplug_gpt_parse_read E) (\<lambda>entry.
       case entry of None \<Rightarrow> ret ()
       | Some e \<Rightarrow> bnd (coldplug_add_gpt_partition clun e) (\<lambda>result.
           if result \<noteq> 0 then ret () else gpt_parse_loop E clun n))"

definition coldplug_gpt_parse :: "('d, 'p) drivers_scheme \<Rightarrow> nat \<Rightarrow> (('d, 'a) cp_gpt_scheme, int) boot" where
  "coldplug_gpt_parse E clun =
     bnd (coldplug_gpt_parse_open E clun) (\<lambda>found.
       if \<not> found then ret (-1)
       else thn (gpt_parse_loop E clun COLDPLUG_MAX_PARTITIONS_PER_LUN) (ret 0))"

fun open_gpt_loop :: "nat \<Rightarrow> int \<Rightarrow> bytes \<Rightarrow> nat list \<Rightarrow> ('a cp_pools_scheme, cptr) boot" where
  "open_gpt_loop dev_type emb guid [] = ret None"
| "open_gpt_loop dev_type emb guid (i # is) =
     deref coldplug_partitions (Some i) (\<lambda>p.
       if parti_in_use p = 0 then open_gpt_loop dev_type emb guid is
       else if partition_type (parti_info p) \<noteq> COLDPLUG_PARTITION_TYPE_GPT then
         open_gpt_loop dev_type emb guid is
       else parti_device p (\<lambda>sl d.
         if device_type d = dev_type \<and> is_embedded_device sl = emb \<and> type_guid (parti_info p) = guid
         then coldplug_handle_alloc (Some i)
         else open_gpt_loop dev_type emb guid is))"

definition coldplug_open_gpt_partition_i :: "nat \<Rightarrow> int \<Rightarrow> bytes \<Rightarrow> ('a cp_pools_scheme, cptr) boot" where
  "coldplug_open_gpt_partition_i dev_type emb guid =
     open_gpt_loop dev_type emb guid [0..<COLDPLUG_MAX_PARTITIONS]"

definition coldplug_gpt_partition_is_fat :: "nat \<Rightarrow> ('a cp_pools_scheme, int) boot" where
  "coldplug_gpt_partition_is_fat cparti =
     thn (coldplug_partition_validate (Some cparti))
       (deref coldplug_partitions (Some cparti) (\<lambda>p.
         thn (assert_c (partition_type (parti_info p) = COLDPLUG_PARTITION_TYPE_GPT))
           (ret (if type_guid (parti_info p) = COLDPLUG_GPT_GUID_DATA_PARTITION then 1 else 0))))"

text \<open>\<^verbatim>\<open>coldplug_partition_is_fat\<close> of coldplug\_device.c, which calls both parsers.\<close>

definition coldplug_partition_is_fat :: "nat \<Rightarrow> ('a cp_pools_scheme, int) boot" where
  "coldplug_partition_is_fat cparti =
     thn (coldplug_partition_validate (Some cparti))
       (deref coldplug_partitions (Some cparti) (\<lambda>p.
         let t = partition_type (parti_info p)
         in if t = COLDPLUG_PARTITION_TYPE_RAW then ret 0
            else if t = COLDPLUG_PARTITION_TYPE_GPT then coldplug_gpt_partition_is_fat cparti
            else if t = COLDPLUG_PARTITION_TYPE_MBR then coldplug_mbr_partition_is_fat cparti
            else if t = COLDPLUG_PARTITION_TYPE_FAT then ret 1
            else fatal Assertion_failed))"

subsection \<open>The checksum of the entry array\<close>

text \<open>A cache in order over a UFS unit, with blocks that can hold a GPT header.\<close>

definition gpt_cache :: "('d \<Rightarrow> nat \<Rightarrow> bytes) \<Rightarrow> u64 \<Rightarrow> nat \<Rightarrow> ('d, 'a) cp_cache_scheme \<Rightarrow> bool" where
  "gpt_cache media h bs s \<longleftrightarrow> cache_on_ufs h s \<and> cache_ok (media (drv s)) bs s \<and> 92 \<le> bs"

lemma gpt_cache_read:
  assumes "gpt_cache media h bs s" and "ufs_media E h bs media" and "hint \<noteq> 0"
  shows "\<exists>x t. coldplug_pcache_read E lba hint s = (Inr x, t) \<and> cache_step media bs s t \<and> gpt_cache media h bs t \<and>
    (\<forall>p. x = Some p \<longrightarrow> mem_read p bs (memory t) = media (drv s) (unat lba) \<and>
        unat (p - pc_buffer (pcache_inst s)) + bs \<le> 4096) \<and>
    (lba < ucast (block_count (pcache_inst s)) \<and> ufs_reliable E h \<longrightarrow> x \<noteq> None)"
proof -
  obtain r t where rd: "coldplug_pcache_read E lba hint s = (r, t)" by fastforce
  have a: "cache_on_ufs h s" "cache_ok (media (drv s)) bs s" using assms(1) by (simp_all add: gpt_cache_def)
  note run = pcache_read_run [OF a assms(2,3) rd]
  then have step: "cache_step media bs s t" by blast
  then have "gpt_cache media h bs t"
    using cache_on_ufs_step [OF step a(1)] assms(1) unfolding cache_step_def gpt_cache_def by metis
  with run step rd show ?thesis by blast
qed

definition crc_result :: "('d, 'p) drivers_scheme \<Rightarrow> u64 \<Rightarrow> (nat \<Rightarrow> bytes) \<Rightarrow> u32 \<Rightarrow> u64 \<Rightarrow> u64 \<Rightarrow> nat \<Rightarrow> u32 \<Rightarrow> u32 \<Rightarrow> bool" where
  "crc_result E h medium count last_lba lba left crc crc' \<longleftrightarrow>
     (\<exists>m \<le> left. crc' = crc32_extend (take m (medium_blocks medium (unat lba) left)) crc \<and>
        (ufs_reliable E h \<and> last_lba < ucast count \<longrightarrow> m = left))"

lemma take_medium_blocks:
  assumes "\<And>k. length (medium k) = bs" and "m \<le> n * bs" and "n \<le> n'"
  shows "take m (medium_blocks medium lba n') = take m (medium_blocks medium lba n)"
  using assms blocks_split [of medium lba n "n' - n"] length_blocks [of medium bs lba n] by simp

text \<open>One block after another: the next block's bytes, then those of the rest.\<close>

lemma crc_result_step:
  assumes len: "\<And>k. length (medium k) = bs" and "0 < bs" and "left \<noteq> 0"
    and rest: "bs < left \<Longrightarrow> unat (lba + 1) = unat lba + 1"
    and res: "crc_result E h medium count last_lba (lba + 1) (left - min bs left)
      (crc32_extend (take (min bs left) (medium (unat lba))) crc) crc'"
  shows "crc_result E h medium count last_lba lba left crc crc'"
proof -
  let ?k = "min bs left"
  obtain m where m: "m \<le> left - ?k" "ufs_reliable E h \<and> last_lba < ucast count \<longrightarrow> m = left - ?k"
    "crc' = crc32_extend (take m (medium_blocks medium (unat (lba + 1)) (left - ?k)))
      (crc32_extend (take ?k (medium (unat lba))) crc)"
    using res by (auto simp: crc_result_def)
  have suc: "medium_blocks medium (unat lba) left = medium (unat lba) @ medium_blocks medium (Suc (unat lba)) (left - 1)"
    using assms(3) blocks_Suc [of medium "unat lba" "left - 1"] by simp
  have "take (?k + m) (medium_blocks medium (unat lba) left) =
      take ?k (medium (unat lba)) @ take m (medium_blocks medium (unat (lba + 1)) (left - ?k))"
  proof (cases "bs < left")
    case True
    have "left - bs \<le> (left - bs) * bs" using assms(2) by (metis mult.right_neutral mult_le_mono2 Suc_leI One_nat_def)
    moreover have "m \<le> left - bs" using m(1) True by simp
    ultimately have "m \<le> (left - bs) * bs" by (rule order_trans [rotated])
    moreover have "left - bs \<le> left - 1" using assms(2) by simp
    ultimately show ?thesis
      using suc len rest [OF True] True take_medium_blocks [of medium bs m "left - bs" "left - 1" "Suc (unat lba)"] by simp
  next
    case False
    then show ?thesis using suc len m(1) by simp
  qed
  then have "crc' = crc32_extend (take (?k + m) (medium_blocks medium (unat lba) left)) crc"
    using m(3) by (simp add: crc32_extend_append)
  then show ?thesis using m(1,2) unfolding crc_result_def by (intro exI [of _ "?k + m"]) auto
qed

lemma gpt_entries_crc_run:
  assumes "ufs_media E h bs media" and "unat b32 = bs"
    and "gpt_cache media h bs s"
    and "left \<noteq> 0 \<Longrightarrow> unat lba + (unat left - 1) div bs = unat last_lba"
  shows "\<exists>crc' t. gpt_entries_crc_loop E b32 last_lba lba left crc s = (Inr crc', t) \<and>
    gpt_cache media h bs t \<and> cache_step media bs s t \<and>
    crc_result E h (media (drv s)) (block_count (pcache_inst s)) last_lba lba (unat left) crc crc'"
  using assms(3,4)
proof (induction "unat left" arbitrary: lba left crc s rule: less_induct)
  case less
  let ?md = "media (drv s)"
  have bs: "92 \<le> bs" using less.prems(1) by (simp add: gpt_cache_def)
  then have b0: "b32 \<noteq> 0" using assms(2) by auto
  have ok: "cache_ok ?md bs s" using less.prems(1) by (simp add: gpt_cache_def)
  show ?case
  proof (cases "left = 0")
    case True
    then show ?thesis
      using less.prems(1) cache_step_refl [of media s bs] ok
      by (simp add: gpt_entries_crc_loop.simps ret_app crc_result_def gpt_cache_def)
  next
    case False
    let ?hint = "ucast (last_lba - lba + 1) :: u32"
    have l: "unat lba + (unat left - 1) div bs = unat last_lba" by (rule less.prems(2) [OF False])
    then have le: "lba \<le> last_lba" by (simp add: word_le_nat_alt)
    have "unat (last_lba - lba) = (unat left - 1) div bs" using l le by (simp add: unat_sub)
    moreover have "(unat left - 1) div bs < 4294967295"
    proof -
      have "(unat left - 1) div bs \<le> unat left - 1" by simp
      then show ?thesis using unat32_lt [of left] by linarith
    qed
    ultimately have "unat (last_lba - lba + 1) = (unat left - 1) div bs + 1" "(unat left - 1) div bs + 1 < 4294967296"
      by (simp_all add: unat_word_ariths)
    then have "unat ?hint = (unat left - 1) div bs + 1" by (simp add: unat_ucast_64_32)
    then have "?hint \<noteq> 0" by auto
    obtain x t where rd: "coldplug_pcache_read E lba ?hint s = (Inr x, t)" "cache_step media bs s t" "gpt_cache media h bs t"
      "\<forall>p. x = Some p \<longrightarrow> mem_read p bs (memory t) = ?md (unat lba) \<and> unat (p - pc_buffer (pcache_inst s)) + bs \<le> 4096"
      "lba < ucast (block_count (pcache_inst s)) \<and> ufs_reliable E h \<longrightarrow> x \<noteq> None"
      using gpt_cache_read [OF less.prems(1) assms(1) \<open>?hint \<noteq> 0\<close>] by blast
    show ?thesis
    proof (cases x)
      case None
      then have "\<not> (ufs_reliable E h \<and> last_lba < ucast (block_count (pcache_inst s)))"
        using rd(5) le by auto
      then show ?thesis using False b0 rd(1-3) None
        by (auto simp: gpt_entries_crc_loop.simps [of E b32] bnd_app ret_app crc_result_def intro!: exI [of _ 0])
    next
      case (Some p)
      let ?k = "min b32 left"
      have k: "unat ?k = min bs (unat left)" using assms(2) by (simp add: min_def word_le_nat_alt)
      have left': "unat (left - ?k) = unat left - min bs (unat left)"
        using unat_sub [of ?k left] k by simp
      have pos: "0 < unat left" using False by (simp add: unat_gt_0)
      have rest: "unat (lba + 1) = unat lba + 1" "unat lba + 1 + (unat left - bs - 1) div bs = unat last_lba" if "bs < unat left"
      proof -
        have "(unat left - 1) div bs = (unat left - bs - 1) div bs + 1"
          using that bs by (simp add: le_div_geq)
        with l show "unat lba + 1 + (unat left - bs - 1) div bs = unat last_lba" by simp
        then have "unat lba + 1 < 18446744073709551616" using unat64_lt [of last_lba] by linarith
        then show "unat (lba + 1) = unat lba + 1" by (simp add: unat_word_ariths)
      qed
      have bytes: "mem_read p (unat ?k) (memory t) = take (min bs (unat left)) (?md (unat lba))"
      proof -
        have "mem_read p (unat ?k) (memory t) = take (unat ?k) (mem_read p bs (memory t))"
          using k by (simp add: mem_read_def take_map)
        then show ?thesis using rd(4) Some k by simp
      qed
      moreover have "take (min bs (unat left)) (?md (unat lba)) \<noteq> []"
        using pos bs ufs_media_len [OF assms(1), of "drv s" "unat lba"] by auto
      ultimately have crc1: "gpt_calc_crc32 (mem_read p (unat ?k) (memory t)) crc =
          crc32_extend (take (min bs (unat left)) (?md (unat lba))) crc" by (simp add: crc32_extend_calc)
      have side: "unat (lba + 1) + (unat (left - ?k) - 1) div bs = unat last_lba" if "left - ?k \<noteq> 0"
      proof -
        have "unat (left - ?k) \<noteq> 0" using that by (simp add: unat_eq_0)
        then have "bs < unat left" using left' by simp
        with rest [OF this] left' show ?thesis by simp
      qed
      have "unat (left - ?k) < unat left" using left' bs pos by simp
      from less.hyps [OF this rd(3) side, where crc = "crc32_extend (take (min bs (unat left)) (?md (unat lba))) crc"]
      obtain crc' u where u: "gpt_entries_crc_loop E b32 last_lba (lba + 1) (left - ?k)
          (crc32_extend (take (min bs (unat left)) (?md (unat lba))) crc) t = (Inr crc', u)"
        "gpt_cache media h bs u" "cache_step media bs t u"
        "crc_result E h (media (drv t)) (block_count (pcache_inst t)) last_lba (lba + 1) (unat (left - ?k))
          (crc32_extend (take (min bs (unat left)) (?md (unat lba))) crc) crc'"
        by blast
      have same: "media (drv t) = ?md" "block_count (pcache_inst t) = block_count (pcache_inst s)"
        using rd(2) by (simp_all add: cache_step_def)
      have "crc_result E h ?md (block_count (pcache_inst s)) last_lba lba (unat left) crc crc'"
        using crc_result_step [OF ufs_media_len [OF assms(1)], of "unat left" lba] bs pos rest(1) u(4) same left' by simp
      moreover have "gpt_entries_crc_loop E b32 last_lba lba left crc s = (Inr crc', u)"
        using False b0 rd(1) Some crc1 u(1) by (simp add: gpt_entries_crc_loop.simps [of E b32 last_lba lba left] bnd_app)
      ultimately show ?thesis using u(2) cache_step_trans [OF rd(2) u(3)] by blast
    qed
  qed
qed


subsection \<open>A header that is accepted\<close>

text \<open>The header as a function of the bytes of its block.\<close>

definition le32_at :: "nat \<Rightarrow> bytes \<Rightarrow> u32" where
  "le32_at off bs = of_nat (le_nat (take 4 (drop off bs)))"

definition le64_at :: "nat \<Rightarrow> bytes \<Rightarrow> u64" where
  "le64_at off bs = of_nat (le_nat (take 8 (drop off bs)))"

definition gpt_header_of :: "bytes \<Rightarrow> coldplug_gpt_header" where
  "gpt_header_of bs = \<lparr>gh_signature = take 8 bs, header_crc32 = le32_at 16 bs,
     my_lba = le64_at 24 bs, alternate_lba = le64_at 32 bs,
     partition_entry_lba = le64_at 72 bs, number_of_partition_entries = le32_at 80 bs,
     gh_size_of_partition_entry = le32_at 84 bs, partition_entries_crc32 = le32_at 88 bs\<rparr>"

lemma gpt_header_at_bytes: "gpt_header_at a m = gpt_header_of (mem_read a 92 m)"
  using mem_read_sub [of 0 8 92 a m] mem_read_sub [of 16 4 92 a m] mem_read_sub [of 24 8 92 a m]
    mem_read_sub [of 32 8 92 a m] mem_read_sub [of 72 8 92 a m] mem_read_sub [of 80 4 92 a m]
    mem_read_sub [of 84 4 92 a m] mem_read_sub [of 88 4 92 a m]
  by (simp add: gpt_header_at_def gpt_header_of_def le32_at_def le64_at_def load32_def load64_def)

text \<open>The header with its checksum field cleared.\<close>

definition clear_crc :: "bytes \<Rightarrow> bytes" where
  "clear_crc bs = take 16 bs @ [0, 0, 0, 0] @ drop 20 bs"

lemma mem_read_clear_crc:
  "mem_read a 92 (store32 (a + 16) 0 m) = clear_crc (mem_read a 92 m)"
proof (rule nth_equalityI)
  fix i assume "i < length (mem_read a 92 (store32 (a + 16) 0 m))"
  then have i: "i < 92" by simp
  have d: "unat (a + of_nat i - (a + 16)) = (if 16 \<le> i then i - 16 else 18446744073709551600 + i)"
  proof (cases "16 \<le> i")
    case True
    then have e: "a + of_nat i - (a + 16) = of_nat (i - 16)" by (simp add: of_nat_diff)
    have "unat (of_nat (i - 16) :: u64) = i - 16" using i by (intro unat_of_nat64) simp
    then show ?thesis using True unfolding e by simp
  next
    case False
    then have e: "a + of_nat i - (a + 16) = of_nat (18446744073709551600 + i)" by simp
    have "unat (of_nat (18446744073709551600 + i) :: u64) = 18446744073709551600 + i"
      using False by (intro unat_of_nat64) simp
    then show ?thesis using False unfolding e by simp
  qed
  have z: "(0 # 0 # 0 # 0 # ys) ! j = (0 :: u8)" if "j < 4" for j ys
    using that by (auto simp: nth_Cons')
  have "le_bytes 4 0 = [0, 0, 0, 0]" by code_simp
  then have st: "store32 (a + 16) 0 m (a + of_nat i) =
      (if unat (a + of_nat i - (a + 16)) < 4 then 0 else m (a + of_nat i))"
    using z by (simp add: store32_def mem_write_def)
  have "store32 (a + 16) 0 m (a + of_nat i) = (if 16 \<le> i \<and> i < 20 then 0 else m (a + of_nat i))"
    unfolding st d by auto
  moreover have "clear_crc (mem_read a 92 m) ! i = (if 16 \<le> i \<and> i < 20 then 0 else m (a + of_nat i))"
  proof -
    consider "i < 16" | "16 \<le> i" "i < 20" | "20 \<le> i" by linarith
    then show ?thesis using i z [of "i - 16" "drop 20 (mem_read a 92 m)"] by cases (simp_all add: clear_crc_def nth_append)
  qed
  ultimately show "mem_read a 92 (store32 (a + 16) 0 m) ! i = clear_crc (mem_read a 92 m) ! i"
    using i by simp
qed (simp add: clear_crc_def)

lemma store32_restore: "store32 a (load32 a m) (store32 a v m) = m"
proof -
  have "le_nat (mem_read a 4 m) < 4294967296" using le_nat_bound [of "mem_read a 4 m"] by simp
  then have "le_bytes 4 (unat (load32 a m)) = mem_read a 4 m"
    using le_bytes_le_nat [of "mem_read a 4 m"] by (simp add: load32_def)
  then show ?thesis by (auto simp: store32_def mem_write_def fun_eq_iff)
qed


lemma gpt_cache_iter [simp]: "gpt_cache media h bs (gpt_iter_update f s) = gpt_cache media h bs s"
  by (simp add: gpt_cache_def cache_on_ufs_def cache_ok_def pools_ok_def)

lemma memory_gpt_iter: "memory (gpt_iter_update f s) = memory s"
  by simp

lemma gpt_iter_frame:
  "t = s\<lparr>memory := m, drv := d, coldplug_debug_info := i, coldplug_debug_info_idx := k, pcache_inst := p\<rparr> \<Longrightarrow>
   gpt_iter t = gpt_iter s"
  by simp

text \<open>
  The checks on the header itself, the last block of its entry array as the code computes
  it, and the iterator the code sets from the header.
\<close>

definition header_checks :: "u64 \<Rightarrow> bytes \<Rightarrow> bool" where
  "header_checks lba H \<longleftrightarrow>
     (let gh = gpt_header_of H
      in gh_signature gh = GPT_SIGNATURE \<and> crc32_ref (clear_crc H) = header_crc32 gh \<and> lba = my_lba gh \<and>
         number_of_partition_entries gh \<noteq> 0 \<and> gh_size_of_partition_entry gh \<noteq> 0 \<and>
         gh_size_of_partition_entry gh mod 128 = 0)"

definition header_size :: "coldplug_gpt_header \<Rightarrow> u32" where
  "header_size gh = number_of_partition_entries gh * gh_size_of_partition_entry gh"

definition header_last :: "coldplug_gpt_header \<Rightarrow> u32 \<Rightarrow> u64" where
  "header_last gh b32 = partition_entry_lba gh + ucast ((header_size gh - 1) div b32 + 1) - 1"

definition header_iter :: "coldplug_gpt_header \<Rightarrow> u32 \<Rightarrow> coldplug_gpt_iter \<Rightarrow> coldplug_gpt_iter" where
  "header_iter gh b32 it = it\<lparr>remaining_entries := number_of_partition_entries gh, current_entry_offset := 0,
     size_of_partition_entry := gh_size_of_partition_entry gh, curr_entry_array_lba := partition_entry_lba gh,
     last_entry_array_lba := header_last gh b32\<rparr>"

text \<open>What a successful check of the header at a block gives, with the iterator it sets.\<close>

definition header_ok ::
  "('d, 'p) drivers_scheme \<Rightarrow> u64 \<Rightarrow> nat \<Rightarrow> (nat \<Rightarrow> bytes) \<Rightarrow> u32 \<Rightarrow> u64 \<Rightarrow> coldplug_gpt_iter \<Rightarrow> bool" where
  "header_ok E h bs medium count lba it \<longleftrightarrow>
     (let H = take 92 (medium (unat lba)); gh = gpt_header_of H
      in gh_signature gh = GPT_SIGNATURE \<and> header_crc32 gh = crc32_ref (clear_crc H) \<and> my_lba gh = lba \<and>
         number_of_partition_entries gh \<noteq> 0 \<and> gh_size_of_partition_entry gh \<noteq> 0 \<and>
         gh_size_of_partition_entry gh mod 128 = 0 \<and>
         remaining_entries it = number_of_partition_entries gh \<and> current_entry_offset it = 0 \<and>
         size_of_partition_entry it = gh_size_of_partition_entry gh \<and>
         curr_entry_array_lba it = partition_entry_lba gh \<and>
         unat (last_entry_array_lba it) = unat (partition_entry_lba gh) + unat (header_size gh - 1) div bs \<and>
         last_entry_array_lba it \<le> ucast count \<and>
         crc_result E h medium count (last_entry_array_lba it) (partition_entry_lba gh) (unat (header_size gh)) 0
           (partition_entries_crc32 gh))"

lemma last_lba_no_wrap:
  assumes "unat b32 = bs" and "92 \<le> bs" and "\<not> e + ucast ((n - 1) div b32 + 1) - 1 < (e :: u64)"
  shows "unat (e + ucast ((n - 1 :: u32) div b32 + 1) - 1) = unat e + unat (n - 1) div bs"
proof -
  have q: "unat ((n - 1) div b32) = unat (n - 1) div bs" using assms(1) by (simp add: unat_div)
  have "unat (n - 1) div bs \<le> unat (n - 1) div 92" using assms(2) by (rule div_le_mono2 [rotated]) simp
  also have "\<dots> < 4294967295" using unat32_lt [of "n - 1"] by linarith
  finally have lt: "unat (n - 1) div bs < 4294967295" .
  then have q1: "unat ((n - 1) div b32 + 1) = unat (n - 1) div bs + 1" using q by (simp add: unat_word_ariths)
  have "unat (of_nat (unat (n - 1) div bs + 1) :: u64) = unat (n - 1) div bs + 1"
    using lt by (intro unat_of_nat64) linarith
  then have "(ucast ((n - 1) div b32 + 1) :: u64) = of_nat (unat (n - 1) div bs + 1)"
    using q1 by (simp only: word_unat_eq_iff unat_ucast_32_64)
  then have e: "e + ucast ((n - 1) div b32 + 1) - 1 = e + of_nat (unat (n - 1) div bs)" by simp
  have "unat (n - 1) div bs \<le> unat (n - 1)" by simp
  then have "unat (n - 1) div bs < 18446744073709551616" using unat32_lt [of "n - 1"] by linarith
  then show ?thesis
    using assms(3) unat_add_nowrap [of e "of_nat (unat (n - 1) div bs)"] unfolding e by (simp add: not_less)
qed

lemma gpt_check_header_eq:
  assumes rd: "coldplug_pcache_read E lba 1 s = (Inr (Some p), t)" and H: "mem_read p 92 (memory t) = H"
    and it: "it_block_size_bytes (gpt_iter t) = b32" and "b32 \<noteq> 0"
  shows "gpt_check_header E lba s =
    (let gh = gpt_header_of H; u = gpt_iter_update (header_iter gh b32) t
     in if \<not> header_checks lba H then (Inr (-1), t)
        else if header_last gh b32 < partition_entry_lba gh \<or> header_last gh b32 > ucast (block_count (pcache_inst t))
        then (Inr (-1), u)
        else bnd (gpt_entries_crc_loop E b32 (header_last gh b32) (partition_entry_lba gh) (header_size gh) 0)
          (\<lambda>crc2. ret (if crc2 = partition_entries_crc32 gh then 0 else -1)) u)"
proof -
  have gh: "gpt_header_at p (memory t) = gpt_header_of H" using H by (simp add: gpt_header_at_bytes)
  have "header_crc32 (gpt_header_at p (memory t)) = load32 (p + 16) (memory t)" by (simp add: gpt_header_at_def)
  then have c: "header_crc32 (gpt_header_of H) = load32 (p + 16) (memory t)" unfolding gh .
  have R: "memory_update (store32 (p + 16) (header_crc32 (gpt_header_of H))) (memory_update (store32 (p + 16) 0) t) = t"
    by (simp add: c store32_restore o_def)
  have crc: "gpt_calc_crc32 (mem_read p 92 (store32 (p + 16) 0 (memory t))) 0 = crc32_ref (clear_crc H)"
    using mem_read_clear_crc [of p "memory t"] H crc32_extend_calc [of "clear_crc H" 0] crc32_extend_ref [of "clear_crc H"]
    by (simp add: clear_crc_def)
  define u where "u = gpt_iter_update (header_iter (gpt_header_of H) b32) t"
  have uc: "block_count (pcache_inst u) = block_count (pcache_inst t)" by (simp add: u_def)
  have u2: "gpt_iter_update (\<lambda>it. it\<lparr>remaining_entries := number_of_partition_entries (gpt_header_of H),
      current_entry_offset := 0, size_of_partition_entry := gh_size_of_partition_entry (gpt_header_of H),
      curr_entry_array_lba := partition_entry_lba (gpt_header_of H),
      last_entry_array_lba := partition_entry_lba (gpt_header_of H) + ucast ((number_of_partition_entries (gpt_header_of H) *
        gh_size_of_partition_entry (gpt_header_of H) - 1) div b32 + 1) - 1\<rparr>) t = u"
    unfolding u_def header_iter_def header_last_def header_size_def ..
  show ?thesis
    using it assms(4) uc
    by (simp add: gpt_check_header_def bnd_Inr [where m = "coldplug_pcache_read E lba 1" and s = s, OF rd] gh crc R
        Let_def header_checks_def header_size_def ret_app if_distrib [of "\<lambda>f. f t"] coldplug_pcache_get_block_count_def
        header_last_def u_def [symmetric] u2
        del: if_split)
qed

text \<open>The end of the check: the entries of an array that was found to lie on the unit.\<close>

lemma header_entries_run:
  assumes "gpt_cache media h bs u" and "ufs_media E h bs media" and b32: "unat b32 = bs"
    and "\<not> header_last gh b32 < partition_entry_lba gh"
  shows "unat (header_last gh b32) = unat (partition_entry_lba gh) + unat (header_size gh - 1) div bs"
    and "\<exists>crc t. gpt_entries_crc_loop E b32 (header_last gh b32) (partition_entry_lba gh) (header_size gh) 0 u = (Inr crc, t) \<and>
      gpt_cache media h bs t \<and> cache_step media bs u t \<and> gpt_iter t = gpt_iter u \<and>
      crc_result E h (media (drv u)) (block_count (pcache_inst u)) (header_last gh b32) (partition_entry_lba gh)
        (unat (header_size gh)) 0 crc"
proof -
  have "92 \<le> bs" using assms(1) by (simp add: gpt_cache_def)
  with assms(4) show last: "unat (header_last gh b32) = unat (partition_entry_lba gh) + unat (header_size gh - 1) div bs"
    unfolding header_last_def by (intro last_lba_no_wrap [OF b32])
  have side: "unat (partition_entry_lba gh) + (unat (header_size gh) - 1) div bs = unat (header_last gh b32)"
    if "header_size gh \<noteq> 0"
    using last unat_minus_one [OF that] by simp
  from gpt_entries_crc_run [OF assms(2) b32 assms(1) side, where crc = 0] obtain crc t where
    v: "gpt_entries_crc_loop E b32 (header_last gh b32) (partition_entry_lba gh) (header_size gh) 0 u = (Inr crc, t)"
    "gpt_cache media h bs t" "cache_step media bs u t" "crc_result E h (media (drv u)) (block_count (pcache_inst u))
      (header_last gh b32) (partition_entry_lba gh) (unat (header_size gh)) 0 crc"
    by blast
  from v(3) have "t = u\<lparr>memory := memory t, drv := drv t, coldplug_debug_info := coldplug_debug_info t,
       coldplug_debug_info_idx := coldplug_debug_info_idx t, pcache_inst := pcache_inst t\<rparr>"
    unfolding cache_step_def by blast
  then have "gpt_iter t = gpt_iter u" by (rule gpt_iter_frame)
  with v show "\<exists>crc t. gpt_entries_crc_loop E b32 (header_last gh b32) (partition_entry_lba gh) (header_size gh) 0 u = (Inr crc, t) \<and>
      gpt_cache media h bs t \<and> cache_step media bs u t \<and> gpt_iter t = gpt_iter u \<and>
      crc_result E h (media (drv u)) (block_count (pcache_inst u)) (header_last gh b32) (partition_entry_lba gh)
        (unat (header_size gh)) 0 crc" by blast
qed

lemma header_block_read:
  assumes "gpt_cache media h bs s" and "ufs_media E h bs media"
  shows "\<exists>x t. coldplug_pcache_read E lba 1 s = (Inr x, t) \<and> gpt_cache media h bs t \<and> media (drv t) = media (drv s) \<and>
    pc_buffer (pcache_inst t) = pc_buffer (pcache_inst s) \<and> block_count (pcache_inst t) = block_count (pcache_inst s) \<and>
    (\<forall>a. memory t a \<noteq> memory s a \<longrightarrow> unat (a - pc_buffer (pcache_inst s)) < 4096) \<and> gpt_iter t = gpt_iter s \<and>
    (\<forall>p. x = Some p \<longrightarrow> mem_read p 92 (memory t) = take 92 (media (drv s) (unat lba)))"
proof -
  have "(1 :: u32) \<noteq> 0" by simp
  from gpt_cache_read [OF assms this, of lba] obtain x t where
    rd: "coldplug_pcache_read E lba 1 s = (Inr x, t)" "cache_step media bs s t" "gpt_cache media h bs t"
    "\<forall>p. x = Some p \<longrightarrow> mem_read p bs (memory t) = media (drv s) (unat lba)" by blast
  have "t = s\<lparr>memory := memory t, drv := drv t, coldplug_debug_info := coldplug_debug_info t,
       coldplug_debug_info_idx := coldplug_debug_info_idx t, pcache_inst := pcache_inst t\<rparr>"
    using rd(2) unfolding cache_step_def by blast
  then have "gpt_iter t = gpt_iter s" by (rule gpt_iter_frame)
  moreover have "mem_read p 92 (memory t) = take 92 (media (drv s) (unat lba))" if "x = Some p" for p
    using rd(3,4) that mem_read_sub [of 0 92 bs p "memory t"] by (simp add: gpt_cache_def)
  ultimately show ?thesis using rd unfolding cache_step_def by blast
qed


text \<open>A unit of 16 blocks of 128 bytes under the parser.\<close>

definition example_gpt :: "(nat \<Rightarrow> u8) cp_gpt" where
  "example_gpt = cp_cache.extend (example_cache\<lparr>pcache_inst := zero_pcache\<lparr>pc_clun := Some 0, block_size_bytes := 128, block_count := 16,
         pc_buffer := 4096, buffer_size_blocks := 16\<rparr>\<rparr>)
     \<lparr>mbr_iter = \<lparr>next_ext_sector = 0, start_ext_partition = 0, parsing_extended = 0, current_index = 0,
        next_index = 0, mbr_sector = 0, partition_data = \<lparr>bootable = 0, mbr_partition_type = 0,
        mbr_start_lba = 0, size_in_blocks = 0\<rparr>\<rparr>,
      gpt_iter = \<lparr>it_block_size_bytes = 128, remaining_entries = 0, curr_entry_array_lba = 0,
        last_entry_array_lba = 0, size_of_partition_entry = 0, current_entry_offset = 0\<rparr>\<rparr>"

lemma example_gpt_cache: "gpt_cache (ram_medium 128) 1 128 example_gpt"
  using example_cache_pools
  by (simp add: gpt_cache_def cache_on_ufs_def cache_ok_def example_gpt_def cp_cache.defs example_cache_def
      cp_pools.defs example_pools_def zero_pcache_def pools_ok_def)


end
