(* ===== verification/Coldplug_Api.thy ===== *)
theory Coldplug_Api
  imports Coldplug_Gpt
begin

text \<open>
  The programming interface of the coldplug library: the parse of a logical unit
  (coldplug\_parse.c), opening and closing devices and partitions, reading and writing
  through a handle (coldplug\_api.c), the partition iterators (coldplug\_iter.c) and the
  partition query of coldplug\_priv.c.
\<close>

record coldplug_iter_record =
  rec_parti_name :: string
  rec_start_lba :: u64
  rec_total_lba :: u64

record coldplug_iter =
  iter_in_use :: int
  iter_dev_type :: nat
  iter_embedded :: int
  only_fat_partitions :: int
  cur_parti_idx :: nat
  citer_rec :: coldplug_iter_record

record 'd cp_state = "'d cp_gpt" +
  coldplug_init_done :: int
  coldplug_device_info_inst :: coldplug_device_info
  coldplug_iters :: "coldplug_iter list"

subsection \<open>coldplug\_parse.c\<close>

definition coldplug_parse_lun :: "('d, 'p) drivers_scheme \<Rightarrow> nat \<Rightarrow> (('d, 'a) cp_gpt_scheme, int) boot" where
  "coldplug_parse_lun E clun =
     thn (coldplug_lun_validate (Some clun))
      (bnd (coldplug_partition_alloc (Some clun)) (\<lambda>p.
        case p of None \<Rightarrow> ret COLDPLUG_RESULT_ENOMEM
        | Some i \<Rightarrow> deref coldplug_luns (Some clun) (\<lambda>l.
          thn (upd_partition i (\<lambda>x. x\<lparr>start_lba := 0, total_lba := lun_total_lba l,
                 parti_info := (parti_info x)\<lparr>partition_type := COLDPLUG_PARTITION_TYPE_RAW\<rparr>\<rparr>))
           (bnd (coldplug_pcache_init_for_lun clun) (\<lambda>cache.
             if \<not> cache then ret COLDPLUG_RESULT_ENOMEM
             else bnd (coldplug_gpt_parse E clun) (\<lambda>r1.
               if r1 = 0 then ret r1
               else bnd (coldplug_mbr_parse E clun) (\<lambda>r2.
                 if r2 = 0 then ret r2 else coldplug_fat_parse E clun)))))))"

subsection \<open>Opening and closing devices\<close>

definition coldplug_init :: "(('d, 'a) cp_state_scheme, int) boot" where
  "coldplug_init =
     thn (modify (coldplug_init_done_update (\<lambda>n. n + 1)))
      (thn coldplug_debug_init (thn coldplug_device_init (thn coldplug_pcache_init
        (ret COLDPLUG_RESULT_SUCCESS))))"

definition coldplug_device_alloc_helper :: "nat \<Rightarrow> ('a cp_pools_scheme, cptr) boot" where
  "coldplug_device_alloc_helper dev_type =
     bnd (coldplug_device_find dev_type) (\<lambda>p.
       if p \<noteq> None then ret p else coldplug_device_alloc dev_type)"

definition coldplug_slot_alloc_helper :: "cptr \<Rightarrow> u32 \<Rightarrow> int \<Rightarrow> ('a cp_pools_scheme, cptr) boot" where
  "coldplug_slot_alloc_helper cdev no emb =
     bnd (coldplug_slot_find cdev no emb) (\<lambda>p.
       if p \<noteq> None then ret p else coldplug_slot_alloc cdev no emb)"

definition coldplug_lun_alloc_helper :: "cptr \<Rightarrow> u32 \<Rightarrow> int \<Rightarrow> ('a cp_pools_scheme, cptr) boot" where
  "coldplug_lun_alloc_helper cslot no is_boot =
     thn (assert_c (cslot \<noteq> None))
      (bnd (coldplug_lun_find cslot no) (\<lambda>found.
        thn (assert_c (found = None))
         (bnd (coldplug_lun_alloc cslot no) (\<lambda>p.
           case p of None \<Rightarrow> ret None
           | Some i \<Rightarrow> thn (upd_lun i (is_boot_lun_update (\<lambda>_. is_boot))) (ret (Some i))))))"

text \<open>
  The body of the inner loop of \<^verbatim>\<open>coldplug_open_device\<close>; the result is the error that ends the
  function, or the number of units parsed so far.
\<close>

definition open_device_lun ::
  "('d, 'p) drivers_scheme \<Rightarrow> bdev_ops_ptr \<Rightarrow> nat \<Rightarrow> u32 \<Rightarrow> u32 \<Rightarrow> (('d, 'a) cp_state_scheme, int + u32) boot" where
  "open_device_lun E ops cslot lun good =
     deref coldplug_slots (Some cslot) (\<lambda>sl.
     bnd (bdev_open E ops (slot_no sl) lun) (\<lambda>(result, hdl).
       if result \<noteq> 0 then ret (Inr good)
       else thn (modify (\<lambda>s. s\<lparr>coldplug_device_info_inst := zero_device_info\<rparr>))
        (bnd (bdev_get_info E ops hdl zero_device_info) (\<lambda>(result, info).
         thn (modify (\<lambda>s. s\<lparr>coldplug_device_info_inst := info\<rparr>))
          (if result \<noteq> 0 then thn (bdev_close E ops hdl) (ret (Inr good))
           else bnd (coldplug_lun_alloc_helper (Some cslot) lun 0) (\<lambda>clun.
             case clun of
               None \<Rightarrow> thn (bdev_close E ops hdl) (ret (Inl COLDPLUG_RESULT_ENOMEM))
             | Some l \<Rightarrow>
               thn (upd_lun l (\<lambda>x. x\<lparr>bdev_hdl := hdl\<rparr>))
                (thn (upd_slot cslot (\<lambda>x. x\<lparr>is_embedded_device := info_is_embedded info\<rparr>))
                 (thn (upd_lun l (\<lambda>x. x\<lparr>lba_size := bytes_per_lba info, lun_total_lba := total_lba_count info\<rparr>))
                  (bnd (coldplug_parse_lun E l) (\<lambda>result.
                    if result = 0 then
                      thn (upd_slot cslot (user_luns_count_update (\<lambda>n. n + 1))) (ret (Inr (good + 1)))
                    else ret (Inr good)))))))))))"

text \<open>A counting loop from 0 whose body may end the function.\<close>

fun count_loop :: "nat \<Rightarrow> nat \<Rightarrow> (u32 \<Rightarrow> 'r \<Rightarrow> ('s, 'e + 'r) boot) \<Rightarrow> 'r \<Rightarrow> ('s, 'e + 'r) boot" where
  "count_loop i 0 body r = ret (Inr r)"
| "count_loop i (Suc n) body r =
     bnd (body (of_nat i) r) (\<lambda>x. case x of Inl e \<Rightarrow> ret (Inl e) | Inr r' \<Rightarrow> count_loop (Suc i) n body r')"

definition coldplug_open_device :: "('d, 'p) drivers_scheme \<Rightarrow> nat \<Rightarrow> int \<Rightarrow> (('d, 'a) cp_state_scheme, int) boot" where
  "coldplug_open_device E dev_type emb =
     bnd (coldplug_device_alloc_helper dev_type) (\<lambda>cdev.
       case cdev of None \<Rightarrow> ret COLDPLUG_RESULT_ENOMEM
       | Some d \<Rightarrow>
         thn (upd_device d (\<lambda>x. x\<lparr>max_slots := 0, max_luns := 0, boot_lun_no := 0\<rparr>))
          (deref coldplug_devices (Some d) (\<lambda>dev.
           case bdev_ops dev of None \<Rightarrow> fatal Undefined_behaviour
           | Some ops \<Rightarrow>
             (case bdev_get_slot_and_lun_config ops of (res, cfg) \<Rightarrow>
               thn (upd_device d (\<lambda>x. case cfg of None \<Rightarrow> x
                      | Some (sl, lu, bo) \<Rightarrow> x\<lparr>max_slots := sl, max_luns := lu, boot_lun_no := bo\<rparr>))
                (if res \<noteq> 0 then ret COLDPLUG_RESULT_ENODEV
                 else deref coldplug_devices (Some d) (\<lambda>dev.
                   thn (assert_c (max_slots dev > 0))
                    (thn (assert_c (max_luns dev > 0))
                     (bnd (count_loop 0 (unat (max_slots dev)) (\<lambda>slot good.
                       bnd (coldplug_slot_alloc_helper (Some d) slot emb) (\<lambda>cslot.
                         case cslot of None \<Rightarrow> ret (Inl COLDPLUG_RESULT_ENOMEM)
                         | Some sl \<Rightarrow> count_loop 0 (unat (max_luns dev)) (open_device_lun E ops sl) good)) 0)
                      (\<lambda>x. case x of Inl e \<Rightarrow> ret e
                           | Inr good \<Rightarrow> ret (if good > 0 then COLDPLUG_RESULT_SUCCESS else COLDPLUG_RESULT_ENODEV))))))))))"

definition coldplug_open_boot_device :: "('d, 'p) drivers_scheme \<Rightarrow> nat \<Rightarrow> int \<Rightarrow> (('d, 'a) cp_state_scheme, int) boot" where
  "coldplug_open_boot_device E dev_type emb =
     bnd (coldplug_device_alloc_helper dev_type) (\<lambda>cdev.
       case cdev of None \<Rightarrow> ret COLDPLUG_RESULT_ENOMEM
       | Some d \<Rightarrow>
         thn (upd_device d (\<lambda>x. x\<lparr>max_slots := 0, max_luns := 0, boot_lun_no := 0\<rparr>))
          (deref coldplug_devices (Some d) (\<lambda>dev.
           case bdev_ops dev of None \<Rightarrow> fatal Undefined_behaviour
           | Some ops \<Rightarrow>
             (case bdev_get_slot_and_lun_config ops of (res, cfg) \<Rightarrow>
               thn (upd_device d (\<lambda>x. case cfg of None \<Rightarrow> x
                      | Some (sl, lu, bo) \<Rightarrow> x\<lparr>max_slots := sl, max_luns := lu, boot_lun_no := bo\<rparr>))
                (if res \<noteq> 0 then ret COLDPLUG_RESULT_ENODEV
                 else deref coldplug_devices (Some d) (\<lambda>dev.
                   if boot_lun_no dev = -1 then ret COLDPLUG_RESULT_NOT_SUPPORTED
                   else bnd (count_loop 0 (unat (max_slots dev)) (\<lambda>slot good.
                     bnd (coldplug_slot_alloc_helper (Some d) slot emb) (\<lambda>cslot.
                       case cslot of None \<Rightarrow> ret (Inl COLDPLUG_RESULT_ENOMEM)
                       | Some sl \<Rightarrow> deref coldplug_slots (Some sl) (\<lambda>slx.
                         bnd (bdev_open E ops (slot_no slx) (boot_lun_no dev)) (\<lambda>(result, hdl).
                           if result \<noteq> 0 then ret (Inl COLDPLUG_RESULT_DEVICE_ERROR)
                           else bnd (coldplug_lun_alloc_helper (Some sl) (boot_lun_no dev) 1) (\<lambda>clun.
                             case clun of
                               None \<Rightarrow> thn (bdev_close E ops hdl) (ret (Inl COLDPLUG_RESULT_ENOMEM))
                             | Some l \<Rightarrow>
                               thn (upd_lun l (\<lambda>x. x\<lparr>bdev_hdl := hdl, lba_size := COLDPLUG_LBA_SIZE_IN_BYTES,
                                      lun_total_lba := 1\<rparr>))
                                (thn (upd_slot sl (boot_lun_update (\<lambda>_. Some l)))
                                 (bnd (coldplug_parse_lun E l) (\<lambda>result.
                                   if result = 0 then
                                     thn (upd_slot sl (boot_luns_count_update (\<lambda>n. n + 1))) (ret (Inr (good + 1)))
                                   else ret (Inr good)))))))))
                       (0 :: u32))
                     (\<lambda>x. case x of Inl e \<Rightarrow> ret e
                          | Inr good \<Rightarrow> ret (if good > 0 then COLDPLUG_RESULT_SUCCESS else COLDPLUG_RESULT_ENODEV))))))))"

definition coldplug_close_device :: "nat \<Rightarrow> ('a cp_pools_scheme, int) boot" where
  "coldplug_close_device dev_type =
     bnd (coldplug_device_find dev_type) (\<lambda>cdev.
       case cdev of None \<Rightarrow> ret COLDPLUG_RESULT_ENODEV
       | Some d \<Rightarrow> thn (coldplug_device_free d) (ret 0))"

subsection \<open>Partitions and handles\<close>

definition coldplug_open_gpt_partition :: "nat \<Rightarrow> int \<Rightarrow> bytes option \<Rightarrow> ('a cp_pools_scheme, cptr) boot" where
  "coldplug_open_gpt_partition dev_type emb guid =
     (if dev_type \<le> COLDPLUG_DEVICE_DEVNULL \<or> dev_type \<ge> COLDPLUG_DEVICE_MAX then ret None
      else if emb \<noteq> 0 \<and> emb \<noteq> 1 then ret None
      else case guid of None \<Rightarrow> ret None | Some g \<Rightarrow> coldplug_open_gpt_partition_i dev_type emb g)"

definition coldplug_open_mbr_partition :: "nat \<Rightarrow> int \<Rightarrow> u32 \<Rightarrow> ('a cp_pools_scheme, cptr) boot" where
  "coldplug_open_mbr_partition dev_type emb wanted =
     (if dev_type \<le> COLDPLUG_DEVICE_DEVNULL \<or> dev_type \<ge> COLDPLUG_DEVICE_MAX then ret None
      else if emb \<noteq> 0 \<and> emb \<noteq> 1 then ret None
      else coldplug_open_mbr_partition_i dev_type emb wanted)"

definition coldplug_open_partition :: "string \<Rightarrow> ('a cp_pools_scheme, cptr) boot" where
  "coldplug_open_partition name =
     bnd (gets (\<lambda>s. scan (\<lambda>p. parti_in_use p \<noteq> 0 \<and> parti_name p = name) 0 (coldplug_partitions s)))
       (\<lambda>p. case p of None \<Rightarrow> ret None | Some i \<Rightarrow> coldplug_handle_alloc (Some i))"

definition coldplug_close_partition :: "cptr \<Rightarrow> ('a cp_pools_scheme, int) boot" where
  "coldplug_close_partition chdl =
     bnd (coldplug_is_handle_valid chdl) (\<lambda>v.
       if v \<noteq> 0 then ret COLDPLUG_RESULT_INVALID_HANDLE
       else thn (coldplug_handle_validate chdl)
         (thn (case chdl of None \<Rightarrow> fatal Undefined_behaviour | Some i \<Rightarrow> upd_handle i (\<lambda>_. zero_handle))
           (ret 0)))"

text \<open>\<^verbatim>\<open>chdl->cparti\<close> and \<^verbatim>\<open>cparti->clun\<close> with the operations of the device.\<close>

definition handle_target ::
  "cptr \<Rightarrow> (coldplug_partition \<Rightarrow> coldplug_lun \<Rightarrow> bdev_ops_ptr \<Rightarrow> ('a cp_pools_scheme, 'r) boot) \<Rightarrow>
   ('a cp_pools_scheme, 'r) boot" where
  "handle_target chdl f =
     deref coldplug_handles chdl (\<lambda>h. deref coldplug_partitions (hdl_cparti h) (\<lambda>p.
       lun_ops (parti_clun p) (f p)))"

definition coldplug_read ::
  "('d, 'p) drivers_scheme \<Rightarrow> cptr \<Rightarrow> u64 \<Rightarrow> u64 \<Rightarrow> u64 \<Rightarrow> (('d, 'a) cp_bdev_scheme, int) boot" where
  "coldplug_read E chdl lba lba_count buf =
     bnd (coldplug_is_handle_valid chdl) (\<lambda>v.
       if v \<noteq> 0 then ret COLDPLUG_RESULT_INVALID_HANDLE
       else if buf = 0 then ret COLDPLUG_RESULT_INVALID_ARG
       else thn (coldplug_handle_validate chdl)
         (handle_target chdl (\<lambda>p l ops.
           if lba + lba_count < lba \<or> lba + lba_count > total_lba p then ret COLDPLUG_RESULT_ERANGE
           else bdev_read E ops (bdev_hdl l) (lba + start_lba p) lba_count buf)))"

definition coldplug_write ::
  "('d, 'p) drivers_scheme \<Rightarrow> cptr \<Rightarrow> u64 \<Rightarrow> u64 \<Rightarrow> u64 \<Rightarrow> (('d, 'a) cp_bdev_scheme, int) boot" where
  "coldplug_write E chdl lba lba_count buf =
     bnd (coldplug_is_handle_valid chdl) (\<lambda>v.
       if v \<noteq> 0 then ret COLDPLUG_RESULT_INVALID_HANDLE
       else if buf = 0 then ret COLDPLUG_RESULT_INVALID_ARG
       else thn (coldplug_handle_validate chdl)
         (handle_target chdl (\<lambda>p l ops.
           if lba + lba_count < lba \<or> lba + lba_count > total_lba p then ret COLDPLUG_RESULT_ERANGE
           else bdev_write E ops (bdev_hdl l) (lba + start_lba p) lba_count buf)))"

text \<open>The out parameters are part of the result; their pointers are not null in any call.\<close>

definition coldplug_get_size :: "cptr \<Rightarrow> ('a cp_pools_scheme, int \<times> (u32 \<times> u64) option) boot" where
  "coldplug_get_size chdl =
     bnd (coldplug_is_handle_valid chdl) (\<lambda>v.
       if v \<noteq> 0 then ret (COLDPLUG_RESULT_INVALID_HANDLE, None)
       else thn (coldplug_handle_validate chdl)
         (deref coldplug_handles chdl (\<lambda>h. deref coldplug_partitions (hdl_cparti h) (\<lambda>p.
           deref coldplug_luns (parti_clun p) (\<lambda>l.
             ret (COLDPLUG_RESULT_SUCCESS, Some (lba_size l, total_lba p)))))))"

definition coldplug_get_start_lba :: "cptr \<Rightarrow> ('a cp_pools_scheme, int \<times> u64 option) boot" where
  "coldplug_get_start_lba chdl =
     bnd (coldplug_is_handle_valid chdl) (\<lambda>v.
       if v \<noteq> 0 then ret (-1, None)
       else thn (coldplug_handle_validate chdl)
         (deref coldplug_handles chdl (\<lambda>h. deref coldplug_partitions (hdl_cparti h) (\<lambda>p.
           ret (0, Some (start_lba p))))))"

definition coldplug_get_device_info ::
  "('d, 'p) drivers_scheme \<Rightarrow> cptr \<Rightarrow> coldplug_device_info \<Rightarrow> (('d, 'a) cp_bdev_scheme, int \<times> coldplug_device_info) boot" where
  "coldplug_get_device_info E chdl cdev_info =
     bnd (coldplug_is_handle_valid chdl) (\<lambda>v.
       if v \<noteq> 0 then ret (COLDPLUG_RESULT_INVALID_HANDLE, cdev_info)
       else thn (coldplug_handle_validate chdl)
         (handle_target chdl (\<lambda>p l ops. bdev_get_info E ops (bdev_hdl l) cdev_info)))"

definition coldplug_get_partition_info :: "cptr \<Rightarrow> ('a cp_pools_scheme, coldplug_partition_in_ram) boot" where
  "coldplug_get_partition_info chdl =
     thn (coldplug_handle_validate chdl)
       (deref coldplug_handles chdl (\<lambda>h. deref coldplug_partitions (hdl_cparti h) (\<lambda>p. ret (parti_info p))))"

subsection \<open>Background initialisation\<close>

fun background_loop ::
  "(u32 \<Rightarrow> ('a cp_pools_scheme, int) boot) \<Rightarrow> nat \<Rightarrow> int \<Rightarrow> nat \<Rightarrow> nat \<Rightarrow> int \<Rightarrow> ('a cp_pools_scheme, int) boot" where
  "background_loop op d emb i 0 res = ret res"
| "background_loop op d emb i (Suc n) res =
     bnd (coldplug_slot_find (Some d) (of_nat i) emb) (\<lambda>cslot.
       if cslot = None then background_loop op d emb (Suc i) n res
       else bnd (op (of_nat i)) (\<lambda>r.
         if r \<noteq> 0 then ret r else background_loop op d emb (Suc i) n r))"

definition coldplug_background_init_start ::
  "('d, 'p) drivers_scheme \<Rightarrow> nat \<Rightarrow> int \<Rightarrow> u32 \<Rightarrow> (('d, 'a) cp_bdev_scheme, int) boot" where
  "coldplug_background_init_start E dev_type emb ctxt =
     bnd (coldplug_device_find dev_type) (\<lambda>cdev.
       case cdev of None \<Rightarrow> ret COLDPLUG_RESULT_ENODEV
       | Some d \<Rightarrow> thn (coldplug_device_validate (Some d)) (deref coldplug_devices (Some d) (\<lambda>dev.
           case bdev_ops dev of None \<Rightarrow> fatal Undefined_behaviour
           | Some ops \<Rightarrow> background_loop (\<lambda>slot. bdev_background_init_start E ops slot ctxt) d emb 0
               (unat (max_slots dev)) COLDPLUG_RESULT_NOT_SUPPORTED)))"

definition coldplug_background_init_finish ::
  "('d, 'p) drivers_scheme \<Rightarrow> nat \<Rightarrow> int \<Rightarrow> u32 \<Rightarrow> (('d, 'a) cp_bdev_scheme, int) boot" where
  "coldplug_background_init_finish E dev_type emb ctxt =
     bnd (coldplug_device_find dev_type) (\<lambda>cdev.
       case cdev of None \<Rightarrow> ret COLDPLUG_RESULT_ENODEV
       | Some d \<Rightarrow> thn (coldplug_device_validate (Some d)) (deref coldplug_devices (Some d) (\<lambda>dev.
           case bdev_ops dev of None \<Rightarrow> fatal Undefined_behaviour
           | Some ops \<Rightarrow> background_loop (\<lambda>slot. bdev_background_init_finish E ops slot ctxt) d emb 0
               (unat (max_slots dev)) COLDPLUG_RESULT_NOT_SUPPORTED)))"

subsection \<open>coldplug\_iter.c\<close>

definition zero_iter :: coldplug_iter where
  "zero_iter = \<lparr>iter_in_use = 0, iter_dev_type = 0, iter_embedded = 0, only_fat_partitions = 0,
     cur_parti_idx = 0, citer_rec = \<lparr>rec_parti_name = [], rec_start_lba = 0, rec_total_lba = 0\<rparr>\<rparr>"

definition upd_iter :: "nat \<Rightarrow> (coldplug_iter \<Rightarrow> coldplug_iter) \<Rightarrow> (('d, 'a) cp_state_scheme, unit) boot" where
  "upd_iter i f = modify (\<lambda>s. s\<lparr>coldplug_iters := (coldplug_iters s)[i := f (coldplug_iters s ! i)]\<rparr>)"

definition coldplug_iter_init :: "(('d, 'a) cp_state_scheme, unit) boot" where
  "coldplug_iter_init = modify (\<lambda>s. s\<lparr>coldplug_iters := replicate 2 zero_iter\<rparr>)"

definition coldplug_iter_alloc :: "(('d, 'a) cp_state_scheme, cptr) boot" where
  "coldplug_iter_alloc =
     bnd (gets (\<lambda>s. scan (\<lambda>x. iter_in_use x = 0) 0 (coldplug_iters s))) (\<lambda>p.
       case p of None \<Rightarrow> ret None
       | Some i \<Rightarrow> thn (upd_iter i (iter_in_use_update (\<lambda>_. 1))) (ret (Some i)))"

definition coldplug_iter_open :: "nat \<Rightarrow> int \<Rightarrow> int \<Rightarrow> (('d, 'a) cp_state_scheme, cptr) boot" where
  "coldplug_iter_open dev_type emb only_fat =
     bnd coldplug_iter_alloc (\<lambda>p.
       case p of None \<Rightarrow> ret None
       | Some i \<Rightarrow> thn (upd_iter i (\<lambda>x. x\<lparr>iter_dev_type := dev_type, iter_embedded := emb,
                        only_fat_partitions := only_fat\<rparr>)) (ret (Some i)))"

text \<open>
  The loop over the partitions that are left; the index is advanced before an entry is
  looked at.
\<close>

fun iter_next_loop :: "nat \<Rightarrow> nat \<Rightarrow> (('d, 'a) cp_state_scheme, coldplug_iter_record option) boot" where
  "iter_next_loop citer 0 = ret None"
| "iter_next_loop citer (Suc n) =
     deref coldplug_iters (Some citer) (\<lambda>it.
       thn (upd_iter citer (cur_parti_idx_update (\<lambda>k. k + 1)))
        (deref coldplug_partitions (Some (cur_parti_idx it)) (\<lambda>p.
          if parti_in_use p = 0 then iter_next_loop citer n
          else parti_device p (\<lambda>sl d.
            if device_type d \<noteq> iter_dev_type it then iter_next_loop citer n
            else if is_embedded_device sl \<noteq> iter_embedded it then iter_next_loop citer n
            else bnd (if only_fat_partitions it \<noteq> 0 then coldplug_partition_is_fat (cur_parti_idx it) else ret 1) (\<lambda>fat.
              if fat = 0 then iter_next_loop citer n
              else
                let r = \<lparr>rec_parti_name = take 5 (parti_name p), rec_start_lba = start_lba p, rec_total_lba = total_lba p\<rparr>
                in thn (upd_iter citer (citer_rec_update (\<lambda>_. r))) (ret (Some r)))))))"

definition coldplug_iter_next :: "cptr \<Rightarrow> (('d, 'a) cp_state_scheme, coldplug_iter_record option) boot" where
  "coldplug_iter_next citer =
     thn (assert_c (citer \<noteq> None)) (deref coldplug_iters citer (\<lambda>it.
       thn (assert_c (iter_in_use it = 1))
         (case citer of None \<Rightarrow> fatal Undefined_behaviour
          | Some i \<Rightarrow> iter_next_loop i (COLDPLUG_MAX_PARTITIONS - cur_parti_idx it))))"

definition coldplug_iter_close :: "cptr \<Rightarrow> (('d, 'a) cp_state_scheme, int) boot" where
  "coldplug_iter_close citer =
     thn (assert_c (citer \<noteq> None)) (deref coldplug_iters citer (\<lambda>it.
       thn (assert_c (iter_in_use it = 1))
         (case citer of None \<Rightarrow> fatal Undefined_behaviour
          | Some i \<Rightarrow> thn (upd_iter i (\<lambda>_. zero_iter)) (ret 0))))"

subsection \<open>Reading and writing through a handle\<close>

text \<open>The partition, the unit and the operations behind a handle.\<close>

definition handle_partition :: "nat \<Rightarrow> 'a cp_pools_scheme \<Rightarrow> coldplug_partition" where
  "handle_partition i s = coldplug_partitions s ! the (hdl_cparti (coldplug_handles s ! i))"

definition handle_lun :: "nat \<Rightarrow> 'a cp_pools_scheme \<Rightarrow> coldplug_lun" where
  "handle_lun i s = coldplug_luns s ! the (parti_clun (handle_partition i s))"

definition handle_ops :: "nat \<Rightarrow> 'a cp_pools_scheme \<Rightarrow> bdev_ops_ptr" where
  "handle_ops i s = the (bdev_ops (coldplug_devices s !
     the (slot_cdev (coldplug_slots s ! the (lun_cslot (handle_lun i s))))))"

lemma handle_parent:
  assumes "pools_ok s" "i < COLDPLUG_MAX_HANDLES" "handle_used (coldplug_handles s ! i)"
    "hdl_cparti (coldplug_handles s ! i) \<noteq> None"
  obtains k where "k < COLDPLUG_MAX_PARTITIONS" "hdl_cparti (coldplug_handles s ! i) = Some k"
    "partition_used (coldplug_partitions s ! k)"
proof -
  have "handles.linked (coldplug_handles s) (coldplug_partitions s)" "i < length (coldplug_handles s)"
    using assms(1,2) by (simp_all add: pools_ok_def)
  then show thesis
    using assms(3,4) pools_ok_length [OF assms(1)] that by (elim handles.linked_nth) auto
qed

lemma handle_target_run:
  assumes "pools_ok s" and "i < COLDPLUG_MAX_HANDLES" and "handle_used (coldplug_handles s ! i)"
    and "hdl_cparti (coldplug_handles s ! i) \<noteq> None"
  shows "handle_target (Some i) f s = f (handle_partition i s) (handle_lun i s) (handle_ops i s) s"
proof -
  obtain k where k: "k < COLDPLUG_MAX_PARTITIONS" "hdl_cparti (coldplug_handles s ! i) = Some k"
    "partition_used (coldplug_partitions s ! k)" by (rule handle_parent [OF assms])
  obtain j where j: "j < COLDPLUG_MAX_LUNS" "parti_clun (coldplug_partitions s ! k) = Some j"
    "lun_used (coldplug_luns s ! j)" by (rule partition_parent [OF assms(1) k(1,3)])
  show ?thesis
    using lun_ops_run [OF assms(1) j(1,3)] k j assms(2) pools_ok_length [OF assms(1)]
    by (simp add: handle_target_def handle_partition_def handle_lun_def handle_ops_def)
qed

lemma coldplug_read_run:
  assumes "pools_ok s" and "i < COLDPLUG_MAX_HANDLES" and "handle_used (coldplug_handles s ! i)"
    and "hdl_cparti (coldplug_handles s ! i) \<noteq> None"
  shows "coldplug_read E (Some i) lba n buf s =
    (if buf = 0 then (Inr COLDPLUG_RESULT_INVALID_ARG, s)
     else if lba + n < lba \<or> lba + n > total_lba (handle_partition i s) then (Inr COLDPLUG_RESULT_ERANGE, s)
     else bdev_read E (handle_ops i s) (bdev_hdl (handle_lun i s)) (lba + start_lba (handle_partition i s)) n buf s)"
  using handle_valid_iff [OF assms(1,2)] handle_validate_ok [OF assms(1-3)] assms(3)
  by (simp add: coldplug_read_def bnd_app thn_app ret_app handle_target_run [OF assms])

lemma coldplug_write_run:
  assumes "pools_ok s" and "i < COLDPLUG_MAX_HANDLES" and "handle_used (coldplug_handles s ! i)"
    and "hdl_cparti (coldplug_handles s ! i) \<noteq> None"
  shows "coldplug_write E (Some i) lba n buf s =
    (if buf = 0 then (Inr COLDPLUG_RESULT_INVALID_ARG, s)
     else if lba + n < lba \<or> lba + n > total_lba (handle_partition i s) then (Inr COLDPLUG_RESULT_ERANGE, s)
     else bdev_write E (handle_ops i s) (bdev_hdl (handle_lun i s)) (lba + start_lba (handle_partition i s)) n buf s)"
  using handle_valid_iff [OF assms(1,2)] handle_validate_ok [OF assms(1-3)] assms(3)
  by (simp add: coldplug_write_def bnd_app thn_app ret_app handle_target_run [OF assms])

lemma overflow_range:
  "\<not> (lba + n < lba \<or> lba + n > total) \<longleftrightarrow> unat lba + unat n \<le> unat total" for lba n total :: u64
proof
  assume "\<not> (lba + n < lba \<or> lba + n > total)"
  then have "lba \<le> lba + n" "lba + n \<le> total" by auto
  then show "unat lba + unat n \<le> unat total"
    using unat_add_nowrap [of lba n] by (simp add: word_le_nat_alt)
next
  assume *: "unat lba + unat n \<le> unat total"
  then have "unat lba + unat n < 18446744073709551616" using unat64_lt [of total] by linarith
  then have "lba \<le> lba + n" by (simp add: no_wrap_iff)
  with * show "\<not> (lba + n < lba \<or> lba + n > total)"
    using unat_add_nowrap [of lba n] by (simp add: not_less word_le_nat_alt)
qed

text \<open>
  A handle on a partition of a UFS unit that is open with the given driver handle and whose
  partition ends below block \<open>2 ^ 32\<close>, the range of the driver's block numbers.
\<close>

definition ufs_handle :: "u64 \<Rightarrow> nat \<Rightarrow> 'a cp_pools_scheme \<Rightarrow> bool" where
  "ufs_handle h i s \<longleftrightarrow> pools_ok s \<and> i < COLDPLUG_MAX_HANDLES \<and> handle_used (coldplug_handles s ! i) \<and>
     hdl_cparti (coldplug_handles s ! i) \<noteq> None \<and> handle_ops i s = Ufs_ops \<and> bdev_hdl (handle_lun i s) = h \<and>
     h \<noteq> 0 \<and> unat (start_lba (handle_partition i s)) + unat (total_lba (handle_partition i s)) < 4294967296"

definition parti_start :: "nat \<Rightarrow> 'a cp_pools_scheme \<Rightarrow> nat" where
  "parti_start i s = unat (start_lba (handle_partition i s))"

definition parti_blocks :: "nat \<Rightarrow> 'a cp_pools_scheme \<Rightarrow> nat" where
  "parti_blocks i s = unat (total_lba (handle_partition i s))"

lemma ufs_handle_range:
  assumes "ufs_handle h i s" and "unat lba + unat n \<le> parti_blocks i s"
  shows "unat (lba + start_lba (handle_partition i s)) = parti_start i s + unat lba"
    "unat (lba + start_lba (handle_partition i s)) < 4294967296" "unat n < 4294967296"
proof -
  have "unat lba + unat (start_lba (handle_partition i s)) < 4294967296"
    using assms by (simp add: ufs_handle_def parti_blocks_def)
  then show "unat (lba + start_lba (handle_partition i s)) = parti_start i s + unat lba"
    "unat (lba + start_lba (handle_partition i s)) < 4294967296"
    by (simp_all add: unat_word_ariths parti_start_def)
  show "unat n < 4294967296" using assms by (simp add: ufs_handle_def parti_blocks_def)
qed

lemma ufs_read_run:
  assumes h: "ufs_handle h i s" and media: "ufs_media E h bs media" and "buf \<noteq> 0"
    and rd: "coldplug_read E (Some i) lba n buf s = (r, t)"
  shows "(\<not> unat lba + unat n \<le> parti_blocks i s \<longrightarrow> r = Inr COLDPLUG_RESULT_ERANGE \<and> t = s) \<and>
    (unat lba + unat n \<le> parti_blocks i s \<longrightarrow> (\<exists>x out. r = Inr x \<and>
       memory t = mem_write buf out (memory s) \<and> media (drv t) = media (drv s) \<and> length out \<le> unat n * bs \<and>
       (x = 0 \<longrightarrow> out = medium_blocks (media (drv s)) (parti_start i s + unat lba) (unat n)) \<and>
       (ufs_reliable E h \<longrightarrow> x = 0) \<and>
       t = s\<lparr>memory := memory t, drv := drv t, coldplug_debug_info := coldplug_debug_info t,
         coldplug_debug_info_idx := coldplug_debug_info_idx t\<rparr>))"
proof (cases "unat lba + unat n \<le> parti_blocks i s")
  case True
  note u = ufs_handle_range [OF h True]
  have "h \<noteq> 0" and "coldplug_bdev_ufs_ops_read E h (lba + start_lba (handle_partition i s)) n buf s = (r, t)"
    using h rd assms(3) True overflow_range [of lba n "total_lba (handle_partition i s)"]
    by (auto simp: ufs_handle_def coldplug_read_run bdev_read_def parti_blocks_def)
  from ufs_ops_read_run [OF this(1) media this(2) u(2,3)] True show ?thesis unfolding u(1) by blast
next
  case False
  then show ?thesis
    using h rd assms(3) overflow_range [of lba n "total_lba (handle_partition i s)"]
    by (auto simp: ufs_handle_def coldplug_read_run parti_blocks_def)
qed

lemma ufs_write_run:
  assumes h: "ufs_handle h i s" and media: "ufs_media E h bs media" and "buf \<noteq> 0"
    and wr: "coldplug_write E (Some i) lba n buf s = (r, t)"
  shows "(\<not> unat lba + unat n \<le> parti_blocks i s \<longrightarrow> r = Inr COLDPLUG_RESULT_ERANGE \<and> t = s) \<and>
    (unat lba + unat n \<le> parti_blocks i s \<longrightarrow> (\<exists>x. r = Inr x \<and> memory t = memory s \<and>
       (\<forall>k. if parti_start i s + unat lba \<le> k \<and> k < parti_start i s + unat lba + unat n
          then x = 0 \<longrightarrow> media (drv t) k = mem_read (buf + of_nat ((k - (parti_start i s + unat lba)) * bs)) bs (memory s)
          else media (drv t) k = media (drv s) k) \<and>
       t = s\<lparr>drv := drv t, coldplug_debug_info := coldplug_debug_info t,
         coldplug_debug_info_idx := coldplug_debug_info_idx t\<rparr>))"
proof (cases "unat lba + unat n \<le> parti_blocks i s")
  case True
  note u = ufs_handle_range [OF h True]
  have "h \<noteq> 0" and "coldplug_bdev_ufs_ops_write E h (lba + start_lba (handle_partition i s)) n buf s = (r, t)"
    using h wr assms(3) True overflow_range [of lba n "total_lba (handle_partition i s)"]
    by (auto simp: ufs_handle_def coldplug_write_run bdev_write_def parti_blocks_def)
  from ufs_ops_write_run [OF this(1) media this(2) u(2,3)] True show ?thesis unfolding u(1) by blast
next
  case False
  then show ?thesis
    using h wr assms(3) overflow_range [of lba n "total_lba (handle_partition i s)"]
    by (auto simp: ufs_handle_def coldplug_write_run parti_blocks_def)
qed

text \<open>The driver calls leave the pools alone, so a handle stays open across them.\<close>

lemma ufs_handle_frame:
  "t = s\<lparr>memory := m, drv := d, coldplug_debug_info := l, coldplug_debug_info_idx := k\<rparr> \<Longrightarrow>
   ufs_handle h i t = ufs_handle h i s \<and> parti_start i t = parti_start i s \<and> parti_blocks i t = parti_blocks i s"
  by (simp add: ufs_handle_def parti_start_def parti_blocks_def handle_partition_def handle_lun_def handle_ops_def pools_ok_def)




lemma example_handle: "ufs_handle 1 0 example_cache"
  using example_cache_pools
  by (simp add: ufs_handle_def handle_partition_def handle_lun_def handle_ops_def example_cache_def
      example_pools_def cp_pools.defs)

lemma example_parti: "parti_start 0 example_cache = 2" "parti_blocks 0 example_cache = 8"
  by (simp_all add: parti_start_def parti_blocks_def handle_partition_def example_cache_def example_pools_def cp_pools.defs)



lemma example_calls:
  "\<exists>t. coldplug_write (ram_ufs 4) (Some 0) 1 3 0x8000 example_cache = (Inr 0, t) \<and> ufs_handle 1 0 t \<and>
     (\<exists>u. coldplug_read (ram_ufs 4) (Some 0) 1 3 0x9000 t = (Inr 0, u))"
proof -
  have "\<exists>t. coldplug_write (ram_ufs 4) (Some 0) 1 3 0x8000 example_cache = (Inr 0, t)"
    using example_handle
    by (simp add: ufs_handle_def coldplug_write_run bdev_write_def coldplug_bdev_ufs_ops_write_def call_def bnd_app
        thn_app ret_app ram_ufs_def handle_partition_def handle_lun_def example_cache_def example_pools_def cp_pools.defs)
  then obtain t where t: "coldplug_write (ram_ufs 4) (Some 0) 1 3 0x8000 example_cache = (Inr 0, t)" ..
  have "t = example_cache\<lparr>memory := memory example_cache, drv := drv t,
      coldplug_debug_info := coldplug_debug_info t, coldplug_debug_info_idx := coldplug_debug_info_idx t\<rparr>"
    using ufs_write_run [OF example_handle ram_ufs_media _ t] example_parti(2) by auto
  from ufs_handle_frame [OF this] have h: "ufs_handle 1 0 t" "parti_blocks 0 t = 8"
    using example_handle example_parti(2) by auto
  obtain r u where "coldplug_read (ram_ufs 4) (Some 0) 1 3 0x9000 t = (r, u)" by fastforce
  with ufs_read_run [OF h(1) ram_ufs_media _ this] h ram_ufs_reliable t show ?thesis by auto
qed




end
