(* ===== verification/Sdcc.thy ===== *)
theory Sdcc
  imports Coldplug_Api
begin

text \<open>
  Images on block storage (boot\_sdcc\_coldplug.c): which partition holds which image, opening
  and closing it, and reading and writing bytes at any offset through whole blocks. The
  calls go through the one-line wrappers of boot\_extern\_coldplug\_interface.c. The
  unaligned head and tail of a transfer go through a static block buffer, whose address,
  fixed by the linker, is part of the platform.
\<close>

abbreviation (input) "MAX_SECTOR_SIZE \<equiv> (4096 :: u32)"
abbreviation (input) "INVALID_FILE_HANDLE \<equiv> (-1 :: int)"
abbreviation (input) "EFS_SUCCESS \<equiv> (0 :: int)"
abbreviation (input) "EFS_ERROR \<equiv> (-1 :: int)"
abbreviation (input) "IMAGE_NUMBERS \<equiv> (13 :: nat)"
abbreviation (input) "NONE_IMG \<equiv> (0 :: nat)"
abbreviation (input) "GEN_IMG \<equiv> (27 :: nat)"

datatype boot_flash_type = NO_FLASH | NOR_FLASH | NAND_FLASH | ONENAND_FLASH | SDC_FLASH
  | MMC_FLASH | SPI_FLASH | PCIE_FLASH | UFS_FLASH | RESERVED_0_FLASH | RESERVED_1_FLASH | USB_FLASH

record boot_coldplug_partition =
  sp_chdl :: cptr
  blksz :: u32
  blkcnt :: u64

record 'd platform = "'d drivers" +
  dev_sdcc_buf_unalign :: u64

text \<open>
  \<open>flash_shared_type\<close> is the flash type in the data the primary boot loader left, \<open>None\<close> when
  its pointer is null.
\<close>

record 'd sdcc_state = "'d cp_state" +
  flash_shared_type :: "boot_flash_type option"
  poll_done :: bool
  image_partition_id :: "bytes list"
  sbl_partitions :: "boot_coldplug_partition list"

subsection \<open>boot\_extern\_coldplug\_interface.c\<close>

definition boot_coldplug_open_gpt_partition :: "nat \<Rightarrow> int \<Rightarrow> bytes option \<Rightarrow> ('a cp_pools_scheme, cptr) boot" where
  "boot_coldplug_open_gpt_partition dev_type emb guid = coldplug_open_gpt_partition dev_type emb guid"

definition boot_coldplug_open_mbr_partition :: "nat \<Rightarrow> int \<Rightarrow> u32 \<Rightarrow> ('a cp_pools_scheme, cptr) boot" where
  "boot_coldplug_open_mbr_partition dev_type emb mbr = coldplug_open_mbr_partition dev_type emb mbr"

definition boot_coldplug_close_partition :: "cptr \<Rightarrow> ('a cp_pools_scheme, int) boot" where
  "boot_coldplug_close_partition chdl = coldplug_close_partition chdl"

definition boot_coldplug_read ::
  "('d, 'p) drivers_scheme \<Rightarrow> cptr \<Rightarrow> u64 \<Rightarrow> u64 \<Rightarrow> u64 \<Rightarrow> (('d, 'a) cp_bdev_scheme, int) boot" where
  "boot_coldplug_read E chdl lba lba_count buf = coldplug_read E chdl lba lba_count buf"

definition boot_coldplug_write ::
  "('d, 'p) drivers_scheme \<Rightarrow> cptr \<Rightarrow> u64 \<Rightarrow> u64 \<Rightarrow> u64 \<Rightarrow> (('d, 'a) cp_bdev_scheme, int) boot" where
  "boot_coldplug_write E chdl lba lba_count buf = coldplug_write E chdl lba lba_count buf"

definition boot_coldplug_init :: "(('d, 'a) cp_state_scheme, unit) boot" where
  "boot_coldplug_init = thn coldplug_init (ret ())"

definition boot_coldplug_get_size :: "cptr \<Rightarrow> ('a cp_pools_scheme, int \<times> (u32 \<times> u64) option) boot" where
  "boot_coldplug_get_size chdl = coldplug_get_size chdl"

definition boot_coldplug_background_init_start ::
  "('d, 'p) drivers_scheme \<Rightarrow> nat \<Rightarrow> int \<Rightarrow> u32 \<Rightarrow> (('d, 'a) cp_bdev_scheme, int) boot" where
  "boot_coldplug_background_init_start E dev_type emb ctxt = coldplug_background_init_start E dev_type emb ctxt"

definition boot_coldplug_background_init_finish ::
  "('d, 'p) drivers_scheme \<Rightarrow> nat \<Rightarrow> int \<Rightarrow> u32 \<Rightarrow> (('d, 'a) cp_bdev_scheme, int) boot" where
  "boot_coldplug_background_init_finish E dev_type emb ctxt = coldplug_background_init_finish E dev_type emb ctxt"

definition boot_coldplug_open_boot_device ::
  "('d, 'p) drivers_scheme \<Rightarrow> nat \<Rightarrow> int \<Rightarrow> (('d, 'a) cp_state_scheme, int) boot" where
  "boot_coldplug_open_boot_device E dev_type emb = coldplug_open_boot_device E dev_type emb"

definition boot_coldplug_open_device ::
  "('d, 'p) drivers_scheme \<Rightarrow> nat \<Rightarrow> int \<Rightarrow> (('d, 'a) cp_state_scheme, int) boot" where
  "boot_coldplug_open_device E dev_type emb = coldplug_open_device E dev_type emb"

subsection \<open>Images and partitions\<close>

text \<open>The entries start with the given byte, the rest of the 20 bytes is 0.\<close>

definition initial_partition_id :: "bytes list" where
  "initial_partition_id = map (\<lambda>b. b # replicate 19 0)
     [0x4D, 0x45, 0x46, 0x47, 0x49, 0x48, 0x4A, 0x4B, 0x50, 0x4C, 0x51, 0x5D, 0, 0]"

definition path_id :: "int list" where
  "path_id = [-1, -1, 4, -1, -1, 9, 5, -1, -1, -1, 0, 2, -1, -1, -1, -1, 6, 7, 8, -1, -1, -1, 10, 3, 1, 2, 11, 12]"

text \<open>\<^verbatim>\<open>path_id[image_id]\<close>, undefined for an image type behind the table.\<close>

definition path_of :: "nat \<Rightarrow> ('s, int) boot" where
  "path_of image_id = (if image_id < length path_id then ret (path_id ! image_id) else fatal Undefined_behaviour)"

definition boot_coldplug_set_general_partition_id :: "u64 \<Rightarrow> (('d, 'a) sdcc_state_scheme, unit) boot" where
  "boot_coldplug_set_general_partition_id partition_id =
     thn (bl_verify (partition_id \<noteq> 0) (bl_err BL_ERR_NULL_PTR_PASSED BL_ERROR_GROUP_BOOT))
       (modify (\<lambda>s. s\<lparr>image_partition_id := (image_partition_id s)[12 := mem_read partition_id 20 (memory s)]\<rparr>))"

definition boot_coldplug_check_partition_id_is_mbr :: "bytes \<Rightarrow> bool" where
  "boot_coldplug_check_partition_id_is_mbr partition_id = list_all (\<lambda>b. b = 0) (drop 1 partition_id)"

definition boot_pbl_get_flash_type :: "(('d, 'a) sdcc_state_scheme, boot_flash_type) boot" where
  "boot_pbl_get_flash_type = bnd (gets flash_shared_type) (\<lambda>t.
     case t of None \<Rightarrow> fatal (Bl_err BL_ERR_NULL_PTR_PASSED) | Some f \<Rightarrow> ret f)"

definition hotplug_ok :: "int \<Rightarrow> (('d, 'a) sdcc_state_scheme, unit) boot" where
  "hotplug_ok status = bl_verify (status = COLDPLUG_RESULT_SUCCESS \<or> status = COLDPLUG_RESULT_NOT_SUPPORTED)
     (bl_err BL_ERR_HOTPLUG BL_ERROR_GROUP_BOOT)"

text \<open>The device that is polled on the first call.\<close>

definition poll_device :: "('d, 'p) drivers_scheme \<Rightarrow> nat \<Rightarrow> int \<Rightarrow> (('d, 'a) sdcc_state_scheme, unit) boot" where
  "poll_device E dev_type dev_loc =
     bnd (gets poll_done) (\<lambda>p. whenb (\<not> p)
       (bnd (boot_coldplug_open_boot_device E dev_type dev_loc) (\<lambda>r1. thn (hotplug_ok r1)
        (bnd (boot_coldplug_background_init_start E dev_type dev_loc 0) (\<lambda>r2. thn (hotplug_ok r2)
         (bnd (boot_coldplug_background_init_finish E dev_type dev_loc 0) (\<lambda>r3. thn (hotplug_ok r3)
          (bnd (boot_coldplug_open_device E dev_type dev_loc) (\<lambda>r4.
           thn (bl_verify (r4 = COLDPLUG_RESULT_SUCCESS) (bl_err BL_ERR_HOTPLUG BL_ERROR_GROUP_BOOT))
             (modify (\<lambda>s. s\<lparr>poll_done := True\<rparr>)))))))))))"

definition upd_sbl_partition ::
  "nat \<Rightarrow> (boot_coldplug_partition \<Rightarrow> boot_coldplug_partition) \<Rightarrow> (('d, 'a) sdcc_state_scheme, unit) boot" where
  "upd_sbl_partition i f = modify (\<lambda>s. s\<lparr>sbl_partitions := (sbl_partitions s)[i := f (sbl_partitions s ! i)]\<rparr>)"

text \<open>
  The end of \<^verbatim>\<open>boot_get_coldplug_dev_handle\<close>: the partition with the image's identifier is opened
  and its size recorded.
\<close>

definition open_image_partition ::
  "nat \<Rightarrow> int \<Rightarrow> nat \<Rightarrow> (('d, 'a) sdcc_state_scheme, int) boot" where
  "open_image_partition dev_type dev_loc idx =
     deref image_partition_id (Some idx) (\<lambda>pid.
       bnd (if boot_coldplug_check_partition_id_is_mbr pid
            then boot_coldplug_open_mbr_partition dev_type dev_loc (of_nat (le_nat (take 4 pid)))
            else boot_coldplug_open_gpt_partition dev_type dev_loc (Some (take 16 pid))) (\<lambda>chdl.
         thn (upd_sbl_partition idx (sp_chdl_update (\<lambda>_. chdl)))
           (if chdl = None then ret INVALID_FILE_HANDLE
            else bnd (boot_coldplug_get_size chdl) (\<lambda>(status, size).
              thn (upd_sbl_partition idx (\<lambda>p. case size of None \<Rightarrow> p | Some (b, c) \<Rightarrow> p\<lparr>blksz := b, blkcnt := c\<rparr>))
               (thn (bl_verify (status = COLDPLUG_RESULT_SUCCESS) (bl_err BL_ERR_HOTPLUG BL_ERROR_GROUP_BOOT))
                (deref sbl_partitions (Some idx) (\<lambda>p.
                  thn (bl_verify (blkcnt p \<noteq> 0 \<or> blksz p \<noteq> 0) (bl_err BL_ERR_SDC_INVALID_SIZE BL_ERROR_GROUP_BOOT))
                    (ret (int idx)))))))))"

text \<open>The place and type of the device for a flash type.\<close>

definition flash_device :: "boot_flash_type \<Rightarrow> (int \<times> nat) option" where
  "flash_device f =
     (if f = MMC_FLASH then Some (1, COLDPLUG_DEVICE_SD)
      else if f = SDC_FLASH then Some (0, COLDPLUG_DEVICE_SD)
      else if f = UFS_FLASH then Some (1, COLDPLUG_DEVICE_UFS)
      else if f = SPI_FLASH then Some (1, COLDPLUG_DEVICE_SPI_NOR)
      else None)"

definition boot_get_coldplug_dev_handle :: "('d, 'p) drivers_scheme \<Rightarrow> nat \<Rightarrow> (('d, 'a) sdcc_state_scheme, int) boot" where
  "boot_get_coldplug_dev_handle E image_id =
     thn (bl_verify (image_id \<noteq> NONE_IMG) (bl_err BL_ERR_IMGID_NOT_FOUND BL_ERROR_GROUP_BOOT))
      (bnd boot_pbl_get_flash_type (\<lambda>f.
        if f = USB_FLASH then ret INVALID_FILE_HANDLE
        else case flash_device f of
          None \<Rightarrow> fatal (Bl_err BL_ERROR_GROUP_STORAGE)
        | Some (dev_loc, dev_type) \<Rightarrow>
            thn (poll_device E dev_type dev_loc)
             (bnd (path_of image_id) (\<lambda>coldplug_id.
               thn (bl_verify (coldplug_id \<noteq> INVALID_FILE_HANDLE) (bl_err BL_ERR_IMG_NOT_FOUND BL_ERROR_GROUP_BOOT))
                (thn (bl_verify (coldplug_id < int IMAGE_NUMBERS) (bl_err BL_ERR_IMG_NOT_FOUND BL_ERROR_GROUP_BOOT))
                  (open_image_partition dev_type dev_loc (nat coldplug_id)))))))"

subsection \<open>Reading bytes\<close>

text \<open>Copying with \<^verbatim>\<open>qmemcpy\<close>.\<close>

definition copy_bytes :: "u64 \<Rightarrow> u64 \<Rightarrow> u32 \<Rightarrow> ('a mem_state_scheme, unit) boot" where
  "copy_bytes dst src n = modify (memory_update (qmemcpy dst src n))"

text \<open>
  The loop over whole blocks, at most 65535 in one call. The result is the sector and the
  address it ended at, \<open>None\<close> when a read failed.
\<close>

function sdcc_read_loop ::
  "('d, 'p) drivers_scheme \<Rightarrow> cptr \<Rightarrow> u32 \<Rightarrow> u32 \<Rightarrow> u32 \<Rightarrow> u64 \<Rightarrow> (('d, 'a) sdcc_state_scheme, (u32 \<times> u64) option) boot" where
  "sdcc_read_loop E chdl sector_size num start dest =
     (if num = 0 then ret (Some (start, dest))
      else
        let block_count = (if num > 0xFFFF then 0xFFFF else num)
        in bnd (boot_coldplug_read E chdl (ucast start) (ucast block_count) dest) (\<lambda>r.
             if r \<noteq> COLDPLUG_RESULT_SUCCESS then ret None
             else sdcc_read_loop E chdl sector_size (num - block_count) (start + block_count)
                    (dest + ucast (block_count * sector_size))))"
  by pat_completeness auto
termination
proof (relation "measure (\<lambda>(E, chdl, ss, num, start, dest). unat num)", goal_cases)
  case (2 E chdl ss num start dest bc r)
  have "bc \<noteq> 0" "bc \<le> num" using 2(1,2) by (auto split: if_splits)
  then have "unat (num - bc) < unat num" by (rule unat_minus_less)
  then show ?case by simp
qed simp

declare sdcc_read_loop.simps [simp del]

text \<open>
  The head of a read that does not start at a block boundary. \<open>Inl\<close> ends the function with
  its result, \<open>Inr\<close> goes on with the destination, the number of sectors and the sector.
\<close>

definition sdcc_read_head ::
  "('d, 'p) platform_scheme \<Rightarrow> cptr \<Rightarrow> u32 \<Rightarrow> u32 \<Rightarrow> u32 \<Rightarrow> u32 \<Rightarrow> u32 \<Rightarrow> u32 \<Rightarrow> u32 \<Rightarrow> u64 \<Rightarrow>
   (('d, 'a) sdcc_state_scheme, bool + (u64 \<times> u32 \<times> u32)) boot" where
  "sdcc_read_head E chdl sector_size start_sector end_sector leading_pad trailing_length num_sectors bytes_to_read dest =
     (if leading_pad > 0 then
        bnd (boot_coldplug_read E chdl (ucast start_sector) 1 (dev_sdcc_buf_unalign E)) (\<lambda>r.
          if r \<noteq> COLDPLUG_RESULT_SUCCESS then ret (Inl False)
          else if end_sector = start_sector \<and> trailing_length \<noteq> 0 then
            thn (copy_bytes dest (dev_sdcc_buf_unalign E + ucast leading_pad) bytes_to_read) (ret (Inl True))
          else
            thn (copy_bytes dest (dev_sdcc_buf_unalign E + ucast leading_pad) (sector_size - leading_pad))
              (ret (Inr (dest + ucast (sector_size - leading_pad),
                 if num_sectors > 0 then num_sectors - 1 else num_sectors, start_sector + 1))))
      else ret (Inr (dest, num_sectors, start_sector)))"

definition sdcc_read_rest ::
  "('d, 'p) platform_scheme \<Rightarrow> cptr \<Rightarrow> u32 \<Rightarrow> u32 \<Rightarrow> u64 \<times> u32 \<times> u32 \<Rightarrow> (('d, 'a) sdcc_state_scheme, bool) boot" where
  "sdcc_read_rest E chdl sector_size trailing_length = (\<lambda>(dest, num_sectors, start_sector).
     let num = (if trailing_length \<noteq> 0 \<and> num_sectors > 0 then num_sectors - 1 else num_sectors)
     in bnd (sdcc_read_loop E chdl sector_size num start_sector dest) (\<lambda>x.
          case x of None \<Rightarrow> ret False
          | Some (start, dest) \<Rightarrow>
            if trailing_length \<noteq> 0 then
              bnd (boot_coldplug_read E chdl (ucast start) 1 (dev_sdcc_buf_unalign E)) (\<lambda>r.
                if r \<noteq> COLDPLUG_RESULT_SUCCESS then ret False
                else thn (copy_bytes dest (dev_sdcc_buf_unalign E) trailing_length) (ret True))
            else ret True))"

definition dev_sdcc_read_bytes ::
  "('d, 'p) platform_scheme \<Rightarrow> u64 \<Rightarrow> u64 \<Rightarrow> u32 \<Rightarrow> u32 \<Rightarrow> (('d, 'a) sdcc_state_scheme, bool) boot" where
  "dev_sdcc_read_bytes E ram_addr src_offset bytes_to_read parti_id =
     deref sbl_partitions (Some (unat parti_id)) (\<lambda>dev.
       if sp_chdl dev = None then ret False
       else if blksz dev = 0 then ret False
       else thn (bl_verify (blksz dev \<le> MAX_SECTOR_SIZE) (bl_err BL_ERR_INVALID_SECTOR_SIZE BL_ERROR_GROUP_BOOT))
        (let ss = blksz dev;
             start_sector = ucast (src_offset div ucast ss);
             leading_pad = ucast (src_offset mod ucast ss);
             end_sector_bytes = src_offset + ucast bytes_to_read;
             end_sector = ucast (end_sector_bytes div ucast ss);
             trailing_length = ucast (end_sector_bytes mod ucast ss);
             num_sectors = (if trailing_length \<noteq> 0 then end_sector - start_sector + 1
                            else end_sector - start_sector)
         in bnd (sdcc_read_head E (sp_chdl dev) ss start_sector end_sector leading_pad trailing_length
                   num_sectors bytes_to_read ram_addr) (\<lambda>x.
              case x of Inl b \<Rightarrow> ret b
              | Inr y \<Rightarrow> sdcc_read_rest E (sp_chdl dev) ss trailing_length y)))"

subsection \<open>Closing, writing, sizes\<close>

definition close_sbl_partition :: "nat \<Rightarrow> (('d, 'a) sdcc_state_scheme, int) boot" where
  "close_sbl_partition idx =
     deref sbl_partitions (Some idx) (\<lambda>p.
       if sp_chdl p \<noteq> None then
         bnd (boot_coldplug_close_partition (sp_chdl p)) (\<lambda>status.
           thn (bl_verify (status = EFS_SUCCESS) (bl_err BL_ERR_EFS_CLOSE_FAIL BL_ERROR_GROUP_BOOT)) (ret status))
       else ret EFS_ERROR)"

definition boot_coldplug_close_device_by_image_type :: "nat \<Rightarrow> (('d, 'a) sdcc_state_scheme, int) boot" where
  "boot_coldplug_close_device_by_image_type image_id =
     thn (bl_verify (image_id < 28) (bl_err BL_ERR_IMG_NOT_FOUND BL_ERROR_GROUP_BOOT))
      (bnd (path_of image_id) (\<lambda>coldplug_id.
        thn (bl_verify (coldplug_id \<noteq> INVALID_FILE_HANDLE) (bl_err BL_ERR_IMG_NOT_FOUND BL_ERROR_GROUP_BOOT))
         (thn (bl_verify (coldplug_id < int IMAGE_NUMBERS) (bl_err BL_ERR_IMG_NOT_FOUND BL_ERROR_GROUP_BOOT))
           (close_sbl_partition (nat coldplug_id)))))"

definition boot_coldplug_close_device_by_handle :: "u32 \<Rightarrow> (('d, 'a) sdcc_state_scheme, int) boot" where
  "boot_coldplug_close_device_by_handle file_handle =
     thn (bl_verify (unat file_handle < IMAGE_NUMBERS) (bl_err BL_ERR_EFS_INVALID_HANDLE BL_ERROR_GROUP_BOOT))
       (close_sbl_partition (unat file_handle))"

function sdcc_write_loop ::
  "('d, 'p) drivers_scheme \<Rightarrow> cptr \<Rightarrow> u32 \<Rightarrow> u32 \<Rightarrow> u32 \<Rightarrow> u64 \<Rightarrow> (('d, 'a) sdcc_state_scheme, (u32 \<times> u64) option) boot" where
  "sdcc_write_loop E chdl sector_size start end_sector buf =
     (if start < end_sector then
        let block_count = (if end_sector - start > 0xFFFF then 0xFFFF else end_sector - start)
        in bnd (boot_coldplug_write E chdl (ucast start) (ucast block_count) buf) (\<lambda>r.
             if r \<noteq> COLDPLUG_RESULT_SUCCESS then ret None
             else sdcc_write_loop E chdl sector_size (start + block_count) end_sector
                    (buf + ucast (block_count * sector_size)))
      else ret (Some (start, buf)))"
  by pat_completeness auto
termination
proof (relation "measure (\<lambda>(E, chdl, ss, start, end_sector, buf). unat (end_sector - start))", goal_cases)
  case (2 E chdl ss start end_sector buf bc r)
  have "bc \<noteq> 0" "bc \<le> end_sector - start" using 2(1,2) by (auto split: if_splits)
  then have "unat (end_sector - start - bc) < unat (end_sector - start)" by (rule unat_minus_less)
  then show ?case by (simp add: diff_diff_eq)
qed simp

declare sdcc_write_loop.simps [simp del]

definition sdcc_write_head ::
  "('d, 'p) platform_scheme \<Rightarrow> cptr \<Rightarrow> u32 \<Rightarrow> u32 \<Rightarrow> u32 \<Rightarrow> u32 \<Rightarrow> u32 \<Rightarrow> u64 \<Rightarrow>
   (('d, 'a) sdcc_state_scheme, bool + (u32 \<times> u64)) boot" where
  "sdcc_write_head E chdl sector_size start_sector end_sector leading_length bytes_to_write buf =
     (if leading_length > 0 then
        bnd (boot_coldplug_read E chdl (ucast start_sector) 1 (dev_sdcc_buf_unalign E)) (\<lambda>r.
          if r \<noteq> COLDPLUG_RESULT_SUCCESS then ret (Inl False)
          else if end_sector = start_sector then
            (if bytes_to_write + leading_length \<le> sector_size then
               thn (copy_bytes (dev_sdcc_buf_unalign E + ucast leading_length) buf bytes_to_write)
                (bnd (boot_coldplug_write E chdl (ucast start_sector) 1 (dev_sdcc_buf_unalign E)) (\<lambda>w.
                  ret (Inl (w = COLDPLUG_RESULT_SUCCESS))))
             else ret (Inl False))
          else
            thn (copy_bytes (dev_sdcc_buf_unalign E + ucast leading_length) buf (sector_size - leading_length))
             (bnd (boot_coldplug_write E chdl (ucast start_sector) 1 (dev_sdcc_buf_unalign E)) (\<lambda>w.
               if w \<noteq> COLDPLUG_RESULT_SUCCESS then ret (Inl False)
               else ret (Inr (start_sector + 1, buf + ucast (sector_size - leading_length))))))
      else ret (Inr (start_sector, buf)))"

definition sdcc_write_rest ::
  "('d, 'p) platform_scheme \<Rightarrow> cptr \<Rightarrow> u32 \<Rightarrow> u32 \<Rightarrow> u32 \<Rightarrow> u32 \<times> u64 \<Rightarrow> (('d, 'a) sdcc_state_scheme, bool) boot" where
  "sdcc_write_rest E chdl sector_size end_sector trailing_length = (\<lambda>(start_sector, buf).
     bnd (sdcc_write_loop E chdl sector_size start_sector end_sector buf) (\<lambda>x.
       case x of None \<Rightarrow> ret False
       | Some (start, buf) \<Rightarrow>
         if start \<noteq> end_sector then ret False
         else if trailing_length > 0 then
           bnd (boot_coldplug_read E chdl (ucast end_sector) 1 (dev_sdcc_buf_unalign E)) (\<lambda>r.
             if r \<noteq> COLDPLUG_RESULT_SUCCESS then ret False
             else thn (copy_bytes (dev_sdcc_buf_unalign E) buf trailing_length)
               (bnd (boot_coldplug_write E chdl (ucast end_sector) 1 (dev_sdcc_buf_unalign E)) (\<lambda>w.
                 ret (w = COLDPLUG_RESULT_SUCCESS))))
         else ret True))"

text \<open>Unlike the other functions this one does not check the image type before it uses the tables.\<close>

definition dev_sdcc_write_bytes ::
  "('d, 'p) platform_scheme \<Rightarrow> u64 \<Rightarrow> u64 \<Rightarrow> u32 \<Rightarrow> nat \<Rightarrow> (('d, 'a) sdcc_state_scheme, bool) boot" where
  "dev_sdcc_write_bytes E ram_addr dst_offset bytes_to_write image_id =
     bnd (path_of image_id) (\<lambda>coldplug_id.
       if coldplug_id < 0 then fatal Undefined_behaviour
       else deref sbl_partitions (Some (nat coldplug_id)) (\<lambda>dev.
         let ss = blksz dev
         in thn (bl_verify (ss \<noteq> 0 \<and> ss \<le> MAX_SECTOR_SIZE) (bl_err BL_ERR_INVALID_SECTOR_SIZE BL_ERROR_GROUP_BOOT))
          (let start_sector = ucast (dst_offset div ucast ss);
               leading_length = ucast (dst_offset mod ucast ss)
           in thn (bl_verify (leading_length < ss) (bl_err BL_ERR_INVALID_SECTOR_SIZE BL_ERROR_GROUP_BOOT))
            (let end_sector = ucast ((dst_offset + ucast bytes_to_write) div ucast ss);
                 trailing_length = ucast ((dst_offset + ucast bytes_to_write) mod ucast ss)
             in if bytes_to_write = 0 then ret True
                else if sp_chdl dev = None then ret False
                else bnd (sdcc_write_head E (sp_chdl dev) ss start_sector end_sector leading_length
                            bytes_to_write ram_addr) (\<lambda>x.
                  case x of Inl b \<Rightarrow> ret b
                  | Inr y \<Rightarrow> sdcc_write_rest E (sp_chdl dev) ss end_sector trailing_length y)))))"

definition boot_coldplug_get_partition_size_by_image_id :: "nat \<Rightarrow> (('d, 'a) sdcc_state_scheme, u64) boot" where
  "boot_coldplug_get_partition_size_by_image_id image_id =
     thn (bl_verify (image_id < 28) (bl_err BL_ERR_IMG_NOT_FOUND BL_ERROR_GROUP_BOOT))
      (bnd (path_of image_id) (\<lambda>coldplug_id.
        thn (bl_verify (coldplug_id \<noteq> INVALID_FILE_HANDLE) (bl_err BL_ERR_IMG_NOT_FOUND BL_ERROR_GROUP_BOOT))
         (thn (bl_verify (coldplug_id < int IMAGE_NUMBERS) (bl_err BL_ERR_IMG_NOT_FOUND BL_ERROR_GROUP_BOOT))
          (deref sbl_partitions (Some (nat coldplug_id)) (\<lambda>p.
            if sp_chdl p = None then ret 0
            else bnd (boot_coldplug_get_size (sp_chdl p)) (\<lambda>(status, size).
              ret (if status = COLDPLUG_RESULT_SUCCESS
                   then (case size of None \<Rightarrow> 0 | Some (b, c) \<Rightarrow> c * ucast b)
                   else 0)))))))"

end
