(* ===== verification/Sdcc_Read.thy ===== *)
theory Sdcc_Read
  imports Sdcc
begin

text \<open>
  Reading bytes of a partition at any offset (\<^verbatim>\<open>dev_sdcc_read_bytes\<close>): the bytes of the medium
  behind a partition, what one call of the block layer and one copy out of the block buffer
  do, the loop over whole blocks, the unaligned head and tail, and the function as a whole.
\<close>

subsection \<open>Steps of device traffic\<close>

text \<open>Only memory, the device and the debug log may differ.\<close>

definition io_step :: "('d, 'a) cp_bdev_scheme \<Rightarrow> ('d, 'a) cp_bdev_scheme \<Rightarrow> bool" where
  "io_step s t \<longleftrightarrow> (\<exists>m d l k. t = s\<lparr>memory := m, drv := d, coldplug_debug_info := l, coldplug_debug_info_idx := k\<rparr>)"

lemma io_stepI: "t = s\<lparr>memory := m, drv := d, coldplug_debug_info := l, coldplug_debug_info_idx := k\<rparr> \<Longrightarrow> io_step s t"
  unfolding io_step_def by (intro exI)

lemma io_step_refl [simp]: "io_step s s"
  by (rule io_stepI [where m = "memory s" and d = "drv s" and l = "coldplug_debug_info s" and k = "coldplug_debug_info_idx s"]) simp

lemma io_step_trans:
  assumes "io_step s t" and "io_step t u"
  shows "io_step s u"
proof -
  obtain m d l k where t: "t = s\<lparr>memory := m, drv := d, coldplug_debug_info := l, coldplug_debug_info_idx := k\<rparr>"
    using assms(1) unfolding io_step_def by (elim exE)
  obtain m' d' l' k' where "u = t\<lparr>memory := m', drv := d', coldplug_debug_info := l', coldplug_debug_info_idx := k'\<rparr>"
    using assms(2) unfolding io_step_def by (elim exE)
  then have "u = s\<lparr>memory := m', drv := d', coldplug_debug_info := l', coldplug_debug_info_idx := k'\<rparr>"
    unfolding t by simp
  then show ?thesis by (rule io_stepI)
qed

lemma io_step_handle:
  "io_step s t \<Longrightarrow> ufs_handle h i t = ufs_handle h i s \<and> parti_start i t = parti_start i s \<and> parti_blocks i t = parti_blocks i s"
  unfolding io_step_def by (elim exE) (rule ufs_handle_frame)

lemma io_step_sbl: "io_step s t \<Longrightarrow> sbl_partitions t = sbl_partitions s" for s t :: "('d, 'a) sdcc_state_scheme"
  by (auto simp: io_step_def)

lemma io_step_memory: "io_step s (s\<lparr>memory := m\<rparr>)"
  by (rule io_stepI [where m = m and d = "drv s" and l = "coldplug_debug_info s" and k = "coldplug_debug_info_idx s"]) simp

subsection \<open>The bytes of a medium\<close>

text \<open>The \<open>n\<close> bytes from offset \<open>off\<close> of the block \<open>a\<close> on.\<close>

definition medium_bytes :: "nat \<Rightarrow> (nat \<Rightarrow> bytes) \<Rightarrow> nat \<Rightarrow> nat \<Rightarrow> nat \<Rightarrow> bytes" where
  "medium_bytes bs med a off n = map (\<lambda>k. med (a + (off + k) div bs) ! ((off + k) mod bs)) [0..<n]"

lemma length_medium_bytes [simp]: "length (medium_bytes bs med a off n) = n"
  by (simp add: medium_bytes_def)

lemma medium_bytes_append:
  "medium_bytes bs med a off (n + m) = medium_bytes bs med a off n @ medium_bytes bs med a (off + n) m"
  by (rule nth_equalityI) (auto simp: medium_bytes_def nth_append add.assoc)

lemma medium_bytes_sub:
  "p + k \<le> n \<Longrightarrow> take k (drop p (medium_bytes bs med a off n)) = medium_bytes bs med a (off + p) k"
  by (rule nth_equalityI) (auto simp: medium_bytes_def add.assoc)

lemma medium_bytes_blocks:
  assumes "\<And>k. length (med k) = bs" and "0 < bs"
  shows "medium_blocks med (a + lba) n = medium_bytes bs med a (lba * bs) (n * bs)"
proof (induction n)
  case 0
  then show ?case by (simp add: medium_bytes_def)
next
  case (Suc n)
  have "medium_blocks med (a + lba + n) 1 = medium_bytes bs med a (lba * bs + n * bs) bs"
  proof (rule nth_equalityI)
    fix j assume "j < length (medium_blocks med (a + lba + n) 1)"
    then have "j < bs" by (simp add: medium_blocks_def assms)
    then show "medium_blocks med (a + lba + n) 1 ! j = medium_bytes bs med a (lba * bs + n * bs) bs ! j"
      using assms(2) by (simp add: medium_blocks_def medium_bytes_def add.assoc flip: add_mult_distrib)
  qed (simp add: medium_blocks_def assms)
  with Suc show ?case
    using blocks_split [of med "a + lba" n 1] medium_bytes_append [of bs med a "lba * bs" "n * bs" bs]
    by (simp add: add.commute)
qed

lemma shift_range:
  fixes x d :: u64
  assumes "n + m < 18446744073709551616" and "unat (x - (d + of_nat n)) < m"
  shows "unat (x - d) < n + m" "n \<le> unat (x - d)"
proof -
  obtain j where j: "j < m" "x = d + of_nat n + of_nat j"
    using assms in_range_offset [of m x "d + of_nat n"] by auto
  then have "x - d = of_nat (n + j)" by simp
  then have "unat (x - d) = n + j" using assms(1) j(1) by (simp only: unat_of_nat64)
  then show "unat (x - d) < n + m" "n \<le> unat (x - d)" using j by simp_all
qed

text \<open>
  \<open>fetched\<close>: from \<open>s\<close> to \<open>t\<close> only device traffic happened, the medium is unchanged and memory
  changed at most in the \<open>n\<close> bytes at \<open>dest\<close> and in the block buffer at \<open>U\<close>.
\<close>

definition fetched ::
  "('d \<Rightarrow> nat \<Rightarrow> bytes) \<Rightarrow> nat \<Rightarrow> u64 \<Rightarrow> u64 \<Rightarrow> nat \<Rightarrow> ('d, 'a) cp_bdev_scheme \<Rightarrow> ('d, 'a) cp_bdev_scheme \<Rightarrow> bool" where
  "fetched media bs U dest n s t \<longleftrightarrow> io_step s t \<and> media (drv t) = media (drv s) \<and>
     (\<forall>x. memory t x \<noteq> memory s x \<longrightarrow> unat (x - dest) < n \<or> unat (x - U) < bs)"

definition holds :: "('d \<Rightarrow> nat \<Rightarrow> bytes) \<Rightarrow> nat \<Rightarrow> nat \<Rightarrow> u64 \<Rightarrow> nat \<Rightarrow> nat \<Rightarrow> ('d, 'a) cp_bdev_scheme \<Rightarrow> bool" where
  "holds media bs i dest off n t \<longleftrightarrow>
     mem_read dest n (memory t) = medium_bytes bs (media (drv t)) (parti_start i t) off n"

lemma fetched_refl [simp]: "fetched media bs U dest 0 s s"
  by (simp add: fetched_def)

lemma fetched_append:
  assumes "fetched media bs U dest n s t" and "fetched media bs U (dest + of_nat n) m t u"
    and "n + m < 18446744073709551616"
  shows "fetched media bs U dest (n + m) s u"
  using assms shift_range(1) [OF assms(3), of _ dest]
  by (auto simp: fetched_def intro: io_step_trans) (metis trans_less_add1)

lemma holds_append:
  assumes "holds media bs i dest off n t" and "fetched media bs U (dest + of_nat n) m t u"
    and "holds media bs i (dest + of_nat n) (off + n) m u" and "n + m < 18446744073709551616"
    and "\<And>k. k < n \<Longrightarrow> \<not> unat (dest + of_nat k - U) < bs"
  shows "holds media bs i dest off (n + m) u"
proof -
  have "mem_read dest n (memory u) = mem_read dest n (memory t)"
  proof (rule nth_equalityI)
    fix k assume "k < length (mem_read dest n (memory u))"
    then have k: "k < n" by simp
    have "\<not> unat (dest + of_nat k - (dest + of_nat n)) < m"
      using shift_range(2) [OF assms(4), of "dest + of_nat k" dest] k assms(4) by auto
    then show "mem_read dest n (memory u) ! k = mem_read dest n (memory t) ! k"
      using assms(2,5) k by (auto simp: fetched_def)
  qed simp
  moreover have "media (drv u) = media (drv t)" "parti_start i u = parti_start i t"
    using assms(2) io_step_handle by (auto simp: fetched_def)
  ultimately show ?thesis
    using assms(1,3) mem_read_append [of dest n m "memory u"] by (simp add: holds_def medium_bytes_append)
qed


subsection \<open>The block layer\<close>

lemma boot_read_blocks:
  assumes "ufs_handle h i s" and "ufs_media E h bs media" and "0 < bs" and "bs \<le> 4096"
  obtains x t where "boot_coldplug_read E (Some i) lba n buf s = (Inr x, t)" and "ufs_handle h i t"
    and "io_step s t" and "media (drv t) = media (drv s)"
    and "\<And>a. memory t a \<noteq> memory s a \<Longrightarrow> unat (a - buf) < unat n * bs"
    and "x = 0 \<Longrightarrow> holds media bs i buf (unat lba * bs) (unat n * bs) t"
    and "ufs_reliable E h \<Longrightarrow> buf \<noteq> 0 \<Longrightarrow> unat lba + unat n \<le> parti_blocks i s \<Longrightarrow> x = 0"
proof (cases "buf \<noteq> 0 \<and> unat lba + unat n \<le> parti_blocks i s")
  case False
  have "\<exists>x. boot_coldplug_read E (Some i) lba n buf s = (Inr x, s) \<and> x \<noteq> 0"
    using False assms(1) overflow_range [of lba n "total_lba (handle_partition i s)"]
    by (auto simp: boot_coldplug_read_def ufs_handle_def coldplug_read_run parti_blocks_def)
  then show thesis using that [of _ s] False assms(1) by auto
next
  case True
  then have bl: "buf \<noteq> 0" "unat lba + unat n \<le> parti_blocks i s" by auto
  obtain r t where rd: "coldplug_read E (Some i) lba n buf s = (r, t)" by fastforce
  from ufs_read_run [OF assms(1,2) bl(1) this] bl obtain x out where out: "r = Inr x"
    "memory t = mem_write buf out (memory s)" "media (drv t) = media (drv s)" "length out \<le> unat n * bs"
    "x = 0 \<longrightarrow> out = medium_blocks (media (drv s)) (parti_start i s + unat lba) (unat n)"
    "ufs_reliable E h \<longrightarrow> x = 0"
    "t = s\<lparr>memory := memory t, drv := drv t, coldplug_debug_info := coldplug_debug_info t,
         coldplug_debug_info_idx := coldplug_debug_info_idx t\<rparr>" by blast
  have step: "io_step s t" using out(7) by (rule io_stepI)
  have "unat n * bs \<le> 4294967296 * 4096"
    using ufs_handle_range(3) [OF assms(1) bl(2)] assms(4) by (intro mult_le_mono) simp_all
  then have "mem_read buf (unat n * bs) (memory t) = out" if "x = 0"
    using out(2,5) that mem_read_write [of out buf "memory s"] length_blocks [OF ufs_media_len [OF assms(2)]] by simp
  then have "holds media bs i buf (unat lba * bs) (unat n * bs) t" if "x = 0"
    using that out(3,5) io_step_handle [OF step] medium_bytes_blocks [OF ufs_media_len [OF assms(2)] assms(3)]
    by (simp add: holds_def)
  moreover have "unat (a - buf) < unat n * bs" if "memory t a \<noteq> memory s a" for a
    using out(2,4) that by (auto simp: mem_write_def split: if_splits)
  ultimately show thesis
    using that rd out(1,3,6) step io_step_handle [OF step] assms(1) by (auto simp: boot_coldplug_read_def)
qed

lemma copy_bytes_app [simp]: "copy_bytes dst src n s = (Inr (), s\<lparr>memory := qmemcpy dst src n (memory s)\<rparr>)"
  by (simp add: copy_bytes_def)

text \<open>One block read into the buffer and a part of it copied out.\<close>

lemma buffered_read:
  assumes "ufs_handle h i s" and "ufs_media E h bs media" and "0 < bs" and "bs \<le> 4096" and "U \<noteq> 0"
    and "p + unat n \<le> bs"
  obtains x t where "boot_coldplug_read E (Some i) (ucast (start :: u32)) 1 U s = (Inr x, t)" and "ufs_handle h i t"
    and "fetched media bs U dest 0 s t" and "ufs_reliable E h \<Longrightarrow> unat start < parti_blocks i s \<Longrightarrow> x = 0"
    and "x = 0 \<Longrightarrow> fetched media bs U dest (unat n) s (t\<lparr>memory := qmemcpy dest (U + of_nat p) n (memory t)\<rparr>)"
    and "x = 0 \<Longrightarrow> holds media bs i dest (unat start * bs + p) (unat n)
           (t\<lparr>memory := qmemcpy dest (U + of_nat p) n (memory t)\<rparr>)"
    and "ufs_handle h i (t\<lparr>memory := qmemcpy dest (U + of_nat p) n (memory t)\<rparr>)"
proof -
  from boot_read_blocks [OF assms(1-4), where buf = U and lba = "ucast start" and n = 1] obtain x t where t:
    "boot_coldplug_read E (Some i) (ucast start) 1 U s = (Inr x, t)" "ufs_handle h i t"
    "io_step s t" "media (drv t) = media (drv s)" "\<And>a. memory t a \<noteq> memory s a \<Longrightarrow> unat (a - U) < bs"
    "x = 0 \<Longrightarrow> holds media bs i U (unat start * bs) bs t"
    "ufs_reliable E h \<Longrightarrow> unat start < parti_blocks i s \<Longrightarrow> x = 0"
    using assms(5) by (auto simp: mult.commute Suc_le_eq)
  let ?u = "t\<lparr>memory := qmemcpy dest (U + of_nat p) n (memory t)\<rparr>"
  have step: "io_step t ?u" by (rule io_step_memory)
  have c: "memory ?u = mem_write dest (mem_read (U + of_nat p) (unat n) (memory t)) (memory t)"
    by (simp add: qmemcpy_def memscpy_def)
  have n: "unat n \<le> 18446744073709551616" using unat32_lt [of n] by linarith
  have "holds media bs i dest (unat start * bs + p) (unat n) ?u" if "x = 0"
    using t(6) [OF that] mem_read_sub [OF assms(6), of U "memory t"] medium_bytes_sub [OF assms(6)]
      io_step_handle [OF step] mem_read_write [of "mem_read (U + of_nat p) (unat n) (memory t)" dest "memory t"] n
    unfolding holds_def c by simp
  moreover have "unat (a - dest) < unat n \<or> unat (a - U) < bs" if "memory ?u a \<noteq> memory s a" for a
    using that t(5) [of a] unfolding c by (auto simp: mem_write_def split: if_splits)
  ultimately show thesis
    using that t io_step_trans [OF t(3) step] io_step_handle [OF step] by (auto simp: fetched_def)
qed

lemma unat_mult_small: "unat a * unat b < 4294967296 \<Longrightarrow> unat (a * b) = unat a * unat b" for a b :: u32
  by (simp add: unat_word_ariths)

lemma unat_add_small: "unat a + n < 18446744073709551616 \<Longrightarrow> unat (a + of_nat n) = unat a + n" for a :: u64
  by (simp add: unat_word_ariths unat_of_nat)

lemma ucast_of_nat: "ucast (w :: u32) = (of_nat (unat w) :: u64)"
  by (rule word_unat_eq_iff [THEN iffD2]) simp

text \<open>The chunks of the loops: at most 65535 blocks, which fit the 32-bit byte count.\<close>

lemma chunk_facts:
  fixes num ss :: u32
  assumes "bc = (if num > 0xFFFF then 0xFFFF else num)" and "num \<noteq> 0" and "unat ss \<le> 4096"
  shows "0 < unat bc" "unat bc \<le> unat num" "unat (bc * ss) = unat bc * unat ss" "unat (num - bc) = unat num - unat bc"
proof -
  have b: "unat bc \<le> 65535" "bc \<le> num" using assms(1) by (auto simp: word_less_nat_alt word_le_nat_alt)
  show "0 < unat bc" using assms(1,2) by (auto simp: unat_gt_0)
  show "unat bc \<le> unat num" using b(2) by (simp add: word_le_nat_alt)
  have "unat bc * unat ss \<le> 65535 * 4096" using b(1) assms(3) by (intro mult_le_mono)
  then show "unat (bc * ss) = unat bc * unat ss" by (intro unat_mult_small) simp
  show "unat (num - bc) = unat num - unat bc" using b(2) by (rule unat_sub)
qed

lemma sdcc_read_loop_run:
  assumes "ufs_media E h bs media" and "0 < bs" and "bs \<le> 4096" and "unat ss = bs"
    and "ufs_handle h i s" and "unat start + unat num < 4294967296"
    and "unat dest + unat num * bs < 18446744073709551616"
    and "\<And>k. k < unat num * bs \<Longrightarrow> \<not> unat (dest + of_nat k - U) < bs"
  shows "\<exists>x t. sdcc_read_loop E (Some i) ss num start dest s = (Inr x, t) \<and> ufs_handle h i t \<and>
    fetched media bs U dest (unat num * bs) s t \<and>
    (ufs_reliable E h \<and> dest \<noteq> 0 \<and> unat start + unat num \<le> parti_blocks i s \<longrightarrow> x \<noteq> None) \<and>
    (\<forall>p. x = Some p \<longrightarrow> p = (start + num, dest + of_nat (unat num * bs)) \<and>
       holds media bs i dest (unat start * bs) (unat num * bs) t)"
  using assms(5-8)
proof (induction "unat num" arbitrary: num start dest s rule: less_induct)
  case less
  show ?case
  proof (cases "num = 0")
    case True
    then show ?thesis using less.prems by (simp add: sdcc_read_loop.simps [of _ _ _ 0] ret_app holds_def medium_bytes_def mem_read_def)
  next
    case False
    define bc where "bc = (if num > 0xFFFF then 0xFFFF else num)"
    note ch = chunk_facts [OF bc_def False, of ss, unfolded assms(4), OF assms(3)]
    let ?d = "dest + of_nat (unat bc * bs)" and ?n = "unat (num - bc)"
    have split: "unat num * bs = unat bc * bs + ?n * bs" using ch by (simp flip: add_mult_distrib)
    have d: "dest + ucast (bc * ss) = ?d"
      using ch(3) by (simp add: ucast_of_nat del: of_nat_mult)
    from boot_read_blocks [OF less.prems(1) assms(1-3), where buf = dest and lba = "ucast start" and n = "ucast bc"] obtain r t where t:
      "boot_coldplug_read E (Some i) (ucast start) (ucast bc) dest s = (Inr r, t)" "ufs_handle h i t"
      "io_step s t" "media (drv t) = media (drv s)" "\<And>a. memory t a \<noteq> memory s a \<Longrightarrow> unat (a - dest) < unat bc * bs"
      "r = 0 \<Longrightarrow> holds media bs i dest (unat start * bs) (unat bc * bs) t"
      "ufs_reliable E h \<Longrightarrow> dest \<noteq> 0 \<Longrightarrow> unat start + unat bc \<le> parti_blocks i s \<Longrightarrow> r = 0"
      by auto
    have f1: "fetched media bs U dest (unat bc * bs) s t" using t by (auto simp: fetched_def)
    have rest: "sdcc_read_loop E (Some i) ss num start dest s =
        (if r \<noteq> 0 then (Inr None, t) else sdcc_read_loop E (Some i) ss (num - bc) (start + bc) ?d t)"
      using False t(1) d by (subst sdcc_read_loop.simps) (simp add: Let_def bnd_app ret_app flip: bc_def)
    have lim: "unat bc * bs + ?n * bs < 18446744073709551616" using less.prems(3) split by linarith
    show ?thesis
    proof (cases "r = 0")
      case False
      have "fetched media bs U dest (unat num * bs) s t"
        using f1 split by (auto simp: fetched_def)
      moreover have "\<not> ufs_reliable E h \<or> dest = 0 \<or> \<not> unat start + unat num \<le> parti_blocks i s"
        using t(7) False ch(2) by auto
      ultimately show ?thesis using rest False t(2) by auto
    next
      case True
      have st: "unat (start + bc) = unat start + unat bc"
        using less.prems(2) ch(2) by (simp add: unat_word_ariths)
      have lt: "?n < unat num" using ch by simp
      have d1: "unat ?d = unat dest + unat bc * bs" using less.prems(3) split by (intro unat_add_small) linarith
      have pb: "parti_blocks i t = parti_blocks i s" using io_step_handle [OF t(3)] by simp
      have p1: "unat (start + bc) + ?n < 4294967296" using less.prems(2) ch st by simp
      have p2: "?d \<noteq> 0" if "dest \<noteq> 0" using d1 that unat_gt_0 [of dest] by (metis add_is_0 not_gr0 unat_0)
      have p3: "unat ?d + ?n * bs < 18446744073709551616" using d1 less.prems(3) split by linarith
      have p4: "\<not> unat (?d + of_nat k - U) < bs" if "k < ?n * bs" for k
        using less.prems(4) [of "unat bc * bs + k"] that split by (simp add: add.assoc)
      from less.hyps [OF lt t(2) p1 p3 p4] obtain x u where u:
        "sdcc_read_loop E (Some i) ss (num - bc) (start + bc) ?d t = (Inr x, u)" "ufs_handle h i u"
        "fetched media bs U ?d (?n * bs) t u"
        "ufs_reliable E h \<and> ?d \<noteq> 0 \<and> unat (start + bc) + ?n \<le> parti_blocks i t \<longrightarrow> x \<noteq> None"
        "\<And>p. x = Some p \<Longrightarrow> p = (start + bc + (num - bc), ?d + of_nat (?n * bs)) \<and>
           holds media bs i ?d (unat (start + bc) * bs) (?n * bs) u" by auto
      have "holds media bs i dest (unat start * bs) (unat num * bs) u" if "x \<noteq> None"
        using holds_append [OF t(6) [OF True] u(3)] u(5) that st less.prems(4) split lim
        by (auto simp: add_mult_distrib)
      moreover have "?d + of_nat (?n * bs) = dest + of_nat (unat num * bs)" using split by simp
      ultimately show ?thesis
        using rest True u fetched_append [OF f1 u(3) lim] split st ch pb p2 by auto
    qed
  qed
qed


lemma sdcc_read_rest_run:
  assumes "ufs_media E h bs media" and "0 < bs" and "bs \<le> 4096" and "unat ss = bs"
    and "ufs_handle h i s" and "unat start + unat num < 4294967296"
    and "dev_sdcc_buf_unalign E = U" and "U \<noteq> 0" and "unat tr < bs" and "tr \<noteq> 0 \<Longrightarrow> num \<noteq> 0"
    and num: "unat num = N + (if tr = 0 then 0 else 1)"
    and "unat dest + (N * bs + unat tr) < 18446744073709551616"
    and dis: "\<And>k. k < N * bs + unat tr \<Longrightarrow> \<not> unat (dest + of_nat k - U) < bs"
  shows "\<exists>b t. sdcc_read_rest E (Some i) ss tr (dest, num, start) s = (Inr b, t) \<and> ufs_handle h i t \<and>
    fetched media bs U dest (N * bs + unat tr) s t \<and>
    (ufs_reliable E h \<and> dest \<noteq> 0 \<and> unat start + unat num \<le> parti_blocks i s \<longrightarrow> b) \<and>
    (b \<longrightarrow> holds media bs i dest (unat start * bs) (N * bs + unat tr) t)"
proof -
  define num' where "num' = (if tr \<noteq> 0 \<and> num > 0 then num - 1 else num)"
  have "1 \<le> num" if "num \<noteq> 0" using that unat_gt_0 [of num] by (simp add: word_le_nat_alt)
  then have n': "unat num' = N" using num assms(10) word_neq_0_conv [of num] by (auto simp: num'_def unat_sub)
  have p1: "unat start + unat num' < 4294967296" using assms(6) n' num by (simp split: if_splits)
  have p2: "unat dest + unat num' * bs < 18446744073709551616" using assms(12) n' by simp
  have p3: "\<not> unat (dest + of_nat k - U) < bs" if "k < unat num' * bs" for k using dis that n' by simp
  from sdcc_read_loop_run [OF assms(1-5) p1 p2 p3] obtain x t where t:
    "sdcc_read_loop E (Some i) ss num' start dest s = (Inr x, t)" "ufs_handle h i t"
    "fetched media bs U dest (N * bs) s t"
    "ufs_reliable E h \<and> dest \<noteq> 0 \<and> unat start + N \<le> parti_blocks i s \<longrightarrow> x \<noteq> None"
    "\<And>p. x = Some p \<Longrightarrow> p = (start + num', dest + of_nat (N * bs)) \<and> holds media bs i dest (unat start * bs) (N * bs) t"
    unfolding n' by blast
  have run: "sdcc_read_rest E (Some i) ss tr (dest, num, start) s =
    (case x of None \<Rightarrow> ret False
     | Some (start, dest) \<Rightarrow>
       if tr \<noteq> 0 then
         bnd (boot_coldplug_read E (Some i) (ucast start) 1 U) (\<lambda>r.
           if r \<noteq> 0 then ret False else thn (copy_bytes dest U tr) (ret True))
       else ret True) t"
    unfolding sdcc_read_rest_def assms(7) by (simp add: Let_def bnd_app t(1) flip: num'_def)
  have lim: "N * bs + unat tr < 18446744073709551616" using assms(12) by linarith
  show ?thesis
  proof (cases x)
    case None
    have "fetched media bs U dest (N * bs + unat tr) s t" using t(3) by (auto simp: fetched_def)
    moreover have "\<not> ufs_reliable E h \<or> dest = 0 \<or> \<not> unat start + unat num \<le> parti_blocks i s" using t(4) None num by auto
    ultimately show ?thesis using t(2) None by (auto simp: run ret_app)
  next
    case (Some p)
    then have p: "p = (start + num', dest + of_nat (N * bs))" "holds media bs i dest (unat start * bs) (N * bs) t"
      using t(5) by auto
    show ?thesis
    proof (cases "tr = 0")
      case True
      have r: "sdcc_read_rest E (Some i) ss tr (dest, num, start) s = (Inr True, t)"
        unfolding run using True Some p(1) by (simp add: ret_app)
      show ?thesis unfolding r using True t(2,3) p(2) by auto
    next
      case False
      have st: "unat (start + num') = unat start + N"
        using p1 n' by (simp add: unat_word_ariths)
      have pb: "parti_blocks i t = parti_blocks i s" using t(3) io_step_handle by (auto simp: fetched_def)
      have q2: "0 + unat tr \<le> bs" using assms(9) by simp
      have z: "U + of_nat 0 = U" "unat (start + num') * bs + 0 = unat (start + num') * bs" by simp_all
      from buffered_read [OF t(2) assms(1-3,8) q2, of "start + num'" "dest + of_nat (N * bs)"] obtain y u where u:
        "boot_coldplug_read E (Some i) (ucast (start + num')) 1 U t = (Inr y, u)" "ufs_handle h i u"
        "fetched media bs U (dest + of_nat (N * bs)) 0 t u"
        "ufs_reliable E h \<Longrightarrow> unat (start + num') < parti_blocks i t \<Longrightarrow> y = 0"
        "y = 0 \<Longrightarrow> fetched media bs U (dest + of_nat (N * bs)) (unat tr) t
          (u\<lparr>memory := qmemcpy (dest + of_nat (N * bs)) U tr (memory u)\<rparr>)"
        "y = 0 \<Longrightarrow> holds media bs i (dest + of_nat (N * bs)) (unat (start + num') * bs) (unat tr)
          (u\<lparr>memory := qmemcpy (dest + of_nat (N * bs)) U tr (memory u)\<rparr>)"
        "ufs_handle h i (u\<lparr>memory := qmemcpy (dest + of_nat (N * bs)) U tr (memory u)\<rparr>)"
        unfolding z by blast
      show ?thesis
      proof (cases "y = 0")
        case True
        note f = fetched_append [OF t(3) u(5) [OF True] lim]
        have "holds media bs i dest (unat start * bs) (N * bs + unat tr)
            (u\<lparr>memory := qmemcpy (dest + of_nat (N * bs)) U tr (memory u)\<rparr>)"
          using holds_append [OF p(2) u(5) [OF True] _ lim] u(6) [OF True] st dis by (simp add: add_mult_distrib)
        then show ?thesis using f u(1,7) True False Some p(1) by (auto simp: run bnd_app thn_app ret_app simp del: of_nat_mult)
      next
        case f: False
        have "fetched media bs U dest (N * bs + unat tr) s u"
          using fetched_append [OF t(3) u(3)] lim by (auto simp: fetched_def)
        moreover have "\<not> ufs_reliable E h \<or> dest = 0 \<or> \<not> unat start + unat num \<le> parti_blocks i s"
          using u(4) f st pb num False by auto
        ultimately show ?thesis using u(1,2) f False Some p(1) by (auto simp: run bnd_app thn_app ret_app)
      qed
    qed
  qed
qed


lemma quot_facts:
  fixes off n bs m :: nat
  assumes "0 < bs" and "(off + n) div bs < K"
  defines "S \<equiv> off div bs" and "P \<equiv> off mod bs" and "Z \<equiv> (off + n) div bs" and "T \<equiv> (off + n) mod bs"
  shows "S \<le> Z" "off + n \<le> m * bs \<Longrightarrow> Z \<le> m" "off + n \<le> m * bs \<Longrightarrow> T \<noteq> 0 \<Longrightarrow> Z < m" "P < bs" "T < bs" "off = S * bs + P" "off + n = Z * bs + T"
    "Z = S \<Longrightarrow> P + n = T" "Z \<noteq> S \<Longrightarrow> n = (bs - P) + ((Z - Suc S) * bs + T)"
    "P = 0 \<Longrightarrow> n = (Z - S) * bs + T"
proof -
  show le: "S \<le> Z" by (simp add: S_def Z_def div_le_mono)
  have "Z \<le> m * bs div bs" if "off + n \<le> m * bs" unfolding Z_def using that by (rule div_le_mono)
  then show zm: "Z \<le> m" if "off + n \<le> m * bs" using that assms(1) by simp
  show P: "P < bs" and "T < bs" using assms(1) by (simp_all add: P_def T_def)
  show o: "off = S * bs + P" by (simp add: S_def P_def)
  show z: "off + n = Z * bs + T" by (simp add: Z_def T_def)
  show "Z < m" if "off + n \<le> m * bs" "T \<noteq> 0"
  proof (rule ccontr)
    assume "\<not> Z < m"
    with zm [OF that(1)] have "Z = m" by simp
    with z that show False by simp
  qed
  show "Z = S \<Longrightarrow> P + n = T" using o z by simp
  show "n = (Z - S) * bs + T" if "P = 0"
  proof -
    have "Z * bs = (Z - S) * bs + S * bs" using le by (simp flip: add_mult_distrib)
    then show ?thesis using o z that by simp
  qed
  show "n = (bs - P) + ((Z - Suc S) * bs + T)" if "Z \<noteq> S"
  proof -
    have "Z = (Z - Suc S) + Suc S" using le that by simp
    then have "Z * bs = (Z - Suc S) * bs + (S * bs + bs)" by (metis add.commute add_mult_distrib mult_Suc)
    then show ?thesis using o z P by simp
  qed
qed

text \<open>The quantities the code computes from the offset and the length.\<close>

lemma sector_facts:
  fixes off :: u64 and n ss :: u32
  assumes "(unat off + unat n) div bs < 4294967296" and "0 < bs" and "bs \<le> 4096" and "unat ss = bs"
  shows "unat (ucast (off div ucast ss) :: u32) = unat off div bs"
    "unat (ucast (off mod ucast ss) :: u32) = unat off mod bs"
    "unat (ucast ((off + ucast n) div ucast ss) :: u32) = (unat off + unat n) div bs"
    "unat (ucast ((off + ucast n) mod ucast ss) :: u32) = (unat off + unat n) mod bs"
proof -
  note q = quot_facts [OF assms(2,1)]
  have "(unat off + unat n) div bs * bs \<le> 4294967295 * 4096" using assms(1,3) by (intro mult_le_mono) simp_all
  then have "unat off + unat n < 18446744073709551616" using q(5,7) assms(3) by linarith
  then have e: "unat (off + ucast n) = unat off + unat n" by (simp add: unat_word_ariths)
  have "unat off mod bs < 4294967296" "(unat off + unat n) mod bs < 4294967296"
    using q(4,5) assms(3) by linarith+
  moreover have "unat off div bs < 4294967296" "(unat off + unat n) div bs < 4294967296"
    using q(1) assms(1) by linarith+
  ultimately show "unat (ucast (off div ucast ss) :: u32) = unat off div bs"
    "unat (ucast (off mod ucast ss) :: u32) = unat off mod bs"
    "unat (ucast ((off + ucast n) div ucast ss) :: u32) = (unat off + unat n) div bs"
    "unat (ucast ((off + ucast n) mod ucast ss) :: u32) = (unat off + unat n) mod bs"
    by (simp_all add: unat_ucast_64_32 unat_div unat_mod assms(4) e)
qed


lemma sdcc_read_head_run:
  assumes "ufs_media E h bs media" and "0 < bs" and "bs \<le> 4096" and "unat ss = bs"
    and "ufs_handle h i s" and "dev_sdcc_buf_unalign E = U" and "U \<noteq> 0"
    and "unat lead < bs" and "lead \<noteq> 0"
    and "Z = start \<longrightarrow> trail \<noteq> 0 \<and> unat lead + unat n \<le> bs"
  shows "\<exists>x t. sdcc_read_head E (Some i) ss start Z lead trail num n dest s = (Inr x, t) \<and> ufs_handle h i t \<and>
    (ufs_reliable E h \<and> unat start < parti_blocks i s \<longrightarrow> x \<noteq> Inl False) \<and>
    (case x of
       Inl b \<Rightarrow> fetched media bs U dest (if Z = start then unat n else 0) s t \<and>
         (b \<longrightarrow> Z = start \<and> holds media bs i dest (unat start * bs + unat lead) (unat n) t)
     | Inr y \<Rightarrow> Z \<noteq> start \<and> fetched media bs U dest (bs - unat lead) s t \<and>
         holds media bs i dest (unat start * bs + unat lead) (bs - unat lead) t \<and>
         y = (dest + of_nat (bs - unat lead), if num > 0 then num - 1 else num, start + 1))"
proof -
  define k where "k = (if Z = start then n else ss - lead)"
  have sub: "unat (ss - lead) = bs - unat lead" using assms(4,8) by (simp add: unat_sub word_le_nat_alt)
  have k: "unat lead + unat k \<le> bs" using assms(8,10) sub by (simp add: k_def)
  from buffered_read [OF assms(5,1-3,7) this, of start dest] obtain r t where t:
    "boot_coldplug_read E (Some i) (ucast start) 1 U s = (Inr r, t)" "ufs_handle h i t"
    "fetched media bs U dest 0 s t"
    "ufs_reliable E h \<Longrightarrow> unat start < parti_blocks i s \<Longrightarrow> r = 0"
    "r = 0 \<Longrightarrow> fetched media bs U dest (unat k) s (t\<lparr>memory := qmemcpy dest (U + of_nat (unat lead)) k (memory t)\<rparr>)"
    "r = 0 \<Longrightarrow> holds media bs i dest (unat start * bs + unat lead) (unat k)
       (t\<lparr>memory := qmemcpy dest (U + of_nat (unat lead)) k (memory t)\<rparr>)"
    "ufs_handle h i (t\<lparr>memory := qmemcpy dest (U + of_nat (unat lead)) k (memory t)\<rparr>)" by blast
  have run: "sdcc_read_head E (Some i) ss start Z lead trail num n dest s =
    (if r \<noteq> 0 then (Inr (Inl False), t)
     else (Inr (if Z = start then Inl True
         else Inr (dest + of_nat (bs - unat lead), if num > 0 then num - 1 else num, start + 1)),
       t\<lparr>memory := qmemcpy dest (U + of_nat (unat lead)) k (memory t)\<rparr>))"
  proof -
    have "0 < lead" using assms(9) by (simp add: word_neq_0_conv)
    moreover have "dest + ucast (ss - lead) = dest + of_nat (bs - unat lead)" using ucast_of_nat [of "ss - lead"] sub by simp
    ultimately show ?thesis
      unfolding sdcc_read_head_def assms(6) using assms(10) t(1)
      by (cases "Z = start"; cases "r = 0") (simp_all add: bnd_app thn_app ret_app k_def)
  qed
  show ?thesis
  proof (cases "r = 0")
    case True
    then show ?thesis using t(5-7) k_def sub by (auto simp: run)
  next
    case False
    then have "\<not> (ufs_reliable E h \<and> unat start < parti_blocks i s)" using t(4) by blast
    moreover have "fetched media bs U dest m s t" for m using t(3) by (simp add: fetched_def)
    ultimately show ?thesis using t(2) False by (simp add: run)
  qed
qed

text \<open>
  \<open>transfer\<close>: a computation that from \<open>s\<close> on fetches the \<open>n\<close> bytes from \<open>off\<close> on to \<open>dest\<close>, or
  reports that it could not.
\<close>

definition transfer ::
  "('d, 'p) drivers_scheme \<Rightarrow> u64 \<Rightarrow> ('d \<Rightarrow> nat \<Rightarrow> bytes) \<Rightarrow> nat \<Rightarrow> u64 \<Rightarrow> nat \<Rightarrow> u64 \<Rightarrow> nat \<Rightarrow> nat \<Rightarrow>
   ('d, 'a) cp_bdev_scheme \<Rightarrow> (fault + bool) \<times> ('d, 'a) cp_bdev_scheme \<Rightarrow> bool" where
  "transfer E h media bs U i dest off n s r \<longleftrightarrow> (\<exists>b t. r = (Inr b, t) \<and> ufs_handle h i t \<and>
     fetched media bs U dest n s t \<and> (b \<longrightarrow> holds media bs i dest off n t) \<and>
     (ufs_reliable E h \<and> dest \<noteq> 0 \<and> off + n \<le> parti_blocks i s * bs \<longrightarrow> b))"

lemma transferI:
  "r = (Inr b, t) \<Longrightarrow> ufs_handle h i t \<Longrightarrow> fetched media bs U dest n s t \<Longrightarrow>
   (b \<Longrightarrow> holds media bs i dest off n t) \<Longrightarrow>
   (ufs_reliable E h \<Longrightarrow> dest \<noteq> 0 \<Longrightarrow> off + n \<le> parti_blocks i s * bs \<Longrightarrow> b) \<Longrightarrow> transfer E h media bs U i dest off n s r"
  by (auto simp: transfer_def)

text \<open>After the first \<open>m\<close> bytes, up to a block boundary, the rest of the function does the others.\<close>

lemma sdcc_read_rest_transfer:
  assumes "ufs_media E h bs media" and bs: "0 < bs" "bs \<le> 4096" and "unat ss = bs"
    and U: "dev_sdcc_buf_unalign E = U" "U \<noteq> 0"
    and t: "ufs_handle h i t" "fetched media bs U dest m s t" "m = 0 \<or> holds media bs i dest off m t"
    and pos: "off + m = unat start * bs" "n = m + ((Z - unat start) * bs + unat T)" "unat start \<le> Z"
      "unat num = Z - unat start + (if T = 0 then 0 else 1)"
    and lim: "unat T < bs" "Z < 4294967295"
    and dest: "unat dest + n < 18446744073709551616"
      "\<And>k. k < n \<Longrightarrow> \<not> unat (dest + of_nat k - U) < bs"
  shows "transfer E h media bs U i dest off n s
    (sdcc_read_rest E (Some i) ss T (dest + of_nat m, num, start) t)"
proof -
  let ?N = "Z - unat start" and ?d = "dest + of_nat m"
  have pt: "parti_blocks i t = parti_blocks i s" using t(2) io_step_handle by (auto simp: fetched_def)
  have r1: "unat start + unat num < 4294967296" using pos(3,4) lim(2) by (auto split: if_splits)
  have "Z * bs = (Z - unat start) * bs + unat start * bs" using pos(3) by (simp flip: add_mult_distrib)
  then have e: "off + n = Z * bs + unat T" using pos(1,2) by linarith
  have dm: "unat ?d = unat dest + m" using dest(1) pos(2) by (intro unat_add_small) linarith
  have r2: "?d \<noteq> 0" if "dest \<noteq> 0" using dm that unat_gt_0 [of dest] by (metis add_is_0 not_gr0 unat_0)
  have r3: "T \<noteq> 0 \<Longrightarrow> num \<noteq> 0" using pos(4) by auto
  have r4: "unat ?d + (?N * bs + unat T) < 18446744073709551616" using dm dest(1) pos(2) by linarith
  have r5: "\<not> unat (?d + of_nat k - U) < bs" if "k < ?N * bs + unat T" for k
    using dest(2) [of "m + k"] that pos(2) by (simp add: add.assoc)
  from sdcc_read_rest_run [OF assms(1-4) t(1) r1 U lim(1) r3 pos(4) r4 r5]
  obtain b u where u: "sdcc_read_rest E (Some i) ss T (?d, num, start) t = (Inr b, u)" "ufs_handle h i u"
    "fetched media bs U ?d (?N * bs + unat T) t u"
    "ufs_reliable E h \<and> ?d \<noteq> 0 \<and> unat start + unat num \<le> parti_blocks i t \<longrightarrow> b"
    "b \<longrightarrow> holds media bs i ?d (unat start * bs) (?N * bs + unat T) u" by blast
  have lim: "m + (?N * bs + unat T) < 18446744073709551616" using dest(1) pos(2) by linarith
  have "holds media bs i dest off n u" if b
    using t(3)
  proof
    assume "m = 0"
    then show ?thesis using u(5) that pos(1,2) by simp
  next
    assume "holds media bs i dest off m t"
    from holds_append [OF this u(3) _ lim] u(5) that pos(1,2) dest(2) show ?thesis by simp
  qed
  moreover have "unat start + unat num \<le> parti_blocks i t" if "off + n \<le> parti_blocks i s * bs"
  proof (cases "T = 0")
    case True
    have "Z * bs \<le> parti_blocks i s * bs" using that e by linarith
    then show ?thesis using bs(1) True pos(3,4) pt by simp
  next
    case False
    then have "0 < unat T" by (simp add: unat_gt_0)
    then have "Z * bs < parti_blocks i s * bs" using that e by linarith
    then show ?thesis using False pos(3,4) pt by simp
  qed
  ultimately show ?thesis
    using u(1,2,4) fetched_append [OF t(2) u(3) lim] pos(2) r2 by (intro transferI [of _ b u]) auto
qed

text \<open>The transfer, over the block numbers and remainders that the code computes.\<close>

lemma sdcc_read_transfer:
  assumes "ufs_media E h bs media" and bs: "0 < bs" "bs \<le> 4096" and "unat ss = bs" and "ufs_handle h i s"
    and U: "dev_sdcc_buf_unalign E = U" "U \<noteq> 0" and "(off + unat n) div bs < 4294967295"
    and S: "unat S = off div bs" and P: "unat P = off mod bs"
    and Z: "unat Z = (off + unat n) div bs" and T: "unat T = (off + unat n) mod bs"
    and num: "unat num = unat Z - unat S + (if T = 0 then 0 else 1)"
    and dest: "unat dest + unat n < 18446744073709551616"
      "\<And>k. k < unat n \<Longrightarrow> \<not> unat (dest + of_nat k - U) < bs"
  shows "transfer E h media bs U i dest off (unat n) s
    (bnd (sdcc_read_head E (Some i) ss S Z P T num n dest) (\<lambda>x.
      case x of Inl b \<Rightarrow> ret b | Inr y \<Rightarrow> sdcc_read_rest E (Some i) ss T y) s)"
proof -
  note q = quot_facts [OF bs(1) assms(8), folded S P Z T]
  have Z': "unat Z < 4294967295" using assms(8) Z by simp
  show ?thesis
  proof (cases "P = 0")
    case True
    have pos: "off + 0 = unat S * bs" "unat n = 0 + ((unat Z - unat S) * bs + unat T)" using q(6,10) True by simp_all
    from sdcc_read_rest_transfer [OF assms(1-4) U assms(5) fetched_refl _ pos q(1) num q(5) Z' dest] True
    show ?thesis by (simp add: sdcc_read_head_def)
  next
    case False
    have P0: "0 < unat P" using False by (simp add: unat_gt_0)
    then have "unat T \<noteq> 0" if "unat Z = unat S" using q(8) [OF that] by linarith
    then have Sb: "unat S < parti_blocks i s" if "off + unat n \<le> parti_blocks i s * bs"
      using q(1) q(2,3) [OF that] by (cases "unat Z = unat S") auto
    have c: "Z = S \<longrightarrow> T \<noteq> 0 \<and> unat P + unat n \<le> bs" using q(5,8) P0 by auto
    from sdcc_read_head_run [OF assms(1-5) U q(4) False c, where num = num and dest = dest] obtain x t where x:
      "sdcc_read_head E (Some i) ss S Z P T num n dest s = (Inr x, t)" "ufs_handle h i t"
      "ufs_reliable E h \<and> unat S < parti_blocks i s \<longrightarrow> x \<noteq> Inl False"
      "case x of Inl b \<Rightarrow> fetched media bs U dest (if Z = S then unat n else 0) s t \<and>
         (b \<longrightarrow> Z = S \<and> holds media bs i dest off (unat n) t)
       | Inr y \<Rightarrow> Z \<noteq> S \<and> fetched media bs U dest (bs - unat P) s t \<and>
         holds media bs i dest off (bs - unat P) t \<and>
         y = (dest + of_nat (bs - unat P), if num > 0 then num - 1 else num, S + 1)"
      using q(6) by metis
    show ?thesis
    proof (cases x)
      case (Inl b)
      then show ?thesis
        using x Sb by (intro transferI [of _ b t]) (auto simp: bnd_app ret_app fetched_def split: if_splits)
    next
      case (Inr y)
      then have y: "Z \<noteq> S" "fetched media bs U dest (bs - unat P) s t"
        "bs - unat P = 0 \<or> holds media bs i dest off (bs - unat P) t"
        "y = (dest + of_nat (bs - unat P), if num > 0 then num - 1 else num, S + 1)" using x(4) by auto
      have lt: "unat S < unat Z" using q(1) y(1) by (metis le_neq_implies_less word_unat_eq_iff)
      then have "unat S + 1 < 4294967296" using unat32_lt [of Z] by linarith
      then have S1: "unat (S + 1) = unat S + 1" by (simp add: unat_word_ariths)
      have n0: "0 < num" using num lt by (simp add: word_less_nat_alt)
      have pos: "off + (bs - unat P) = unat (S + 1) * bs"
        "unat n = bs - unat P + ((unat Z - unat (S + 1)) * bs + unat T)" "unat (S + 1) \<le> unat Z"
        "unat (num - 1) = unat Z - unat (S + 1) + (if T = 0 then 0 else 1)"
        using q(4,6,9) num lt S1 n0 unat_gt_0 [of num] by (simp_all add: unat_sub word_le_nat_alt)
      from sdcc_read_rest_transfer [OF assms(1-4) U x(2) y(2,3) pos q(5) Z' dest] show ?thesis
        using x(1) Inr y(4) n0 by (simp add: bnd_app)
    qed
  qed
qed

subsection \<open>The function\<close>

text \<open>
  Entry \<open>k\<close> of the partition table is open, its handle is on a UFS unit and the recorded block
  size is that of the medium, at most the size of the block buffer.
\<close>

definition sdcc_partition :: "u64 \<Rightarrow> nat \<Rightarrow> nat \<Rightarrow> nat \<Rightarrow> ('d, 'a) sdcc_state_scheme \<Rightarrow> bool" where
  "sdcc_partition h k i bs s \<longleftrightarrow> ufs_handle h i s \<and> k < length (sbl_partitions s) \<and>
     sp_chdl (sbl_partitions s ! k) = Some i \<and> unat (blksz (sbl_partitions s ! k)) = bs \<and> 0 < bs \<and> bs \<le> 4096"

lemma sdcc_partition_step: "io_step s t \<Longrightarrow> sdcc_partition h k i bs t = sdcc_partition h k i bs s"
  using io_step_handle [of s t] io_step_sbl [of s t] by (auto simp: sdcc_partition_def)

lemma sector_count:
  fixes Z S T :: u32
  assumes "unat S \<le> unat Z" and "unat T \<noteq> 0 \<Longrightarrow> unat Z < 4294967295"
  shows "unat (if T \<noteq> 0 then Z - S + 1 else Z - S) = unat Z - unat S + (if T = 0 then 0 else 1)"
proof -
  have zs: "unat (Z - S) = unat Z - unat S" using assms(1) by (simp add: unat_sub word_le_nat_alt)
  moreover have "unat (Z - S) + 1 < 4294967296" if "T \<noteq> 0"
    using assms(2) that zs by (simp add: unat_eq_0)
  ultimately show ?thesis by (simp add: unat_word_ariths)
qed

lemma dev_sdcc_read_bytes_transfer:
  assumes dev: "sdcc_partition h (unat parti_id) i bs s" and media: "ufs_media E h bs media"
    and U: "dev_sdcc_buf_unalign E = U" "U \<noteq> 0" and range: "(unat off + unat n) div bs < 4294967295"
    and dest: "unat dest + unat n < 18446744073709551616"
      "\<And>k. k < unat n \<Longrightarrow> \<not> unat (dest + of_nat k - U) < bs"
  shows "transfer E h media bs U i dest (unat off) (unat n) s (dev_sdcc_read_bytes E dest off n parti_id s)"
proof -
  define ss where "ss = blksz (sbl_partitions s ! unat parti_id)"
  have d: "ufs_handle h i s" "unat ss = bs" "0 < bs" "bs \<le> 4096" "unat parti_id < length (sbl_partitions s)"
    "sp_chdl (sbl_partitions s ! unat parti_id) = Some i"
    using dev by (auto simp: sdcc_partition_def ss_def)
  have "(unat off + unat n) div bs < 4294967296" using range by simp
  note w = sector_facts [OF this d(3,4,2)]
  note q = quot_facts [OF d(3) range, folded w]
  have "ss \<noteq> 0" "ss \<le> 4096" using d(2-4) by (auto simp: word_le_nat_alt)
  then have "dev_sdcc_read_bytes E dest off n parti_id s =
    bnd (sdcc_read_head E (Some i) ss (ucast (off div ucast ss)) (ucast ((off + ucast n) div ucast ss))
       (ucast (off mod ucast ss)) (ucast ((off + ucast n) mod ucast ss))
       (if ucast ((off + ucast n) mod ucast ss) \<noteq> (0 :: u32)
        then ucast ((off + ucast n) div ucast ss) - ucast (off div ucast ss) + 1
        else ucast ((off + ucast n) div ucast ss) - ucast (off div ucast ss)) n dest) (\<lambda>x.
      case x of Inl b \<Rightarrow> ret b | Inr y \<Rightarrow> sdcc_read_rest E (Some i) ss (ucast ((off + ucast n) mod ucast ss)) y) s"
    using d(5,6) unfolding dev_sdcc_read_bytes_def by (simp add: Let_def flip: ss_def)
  also have "transfer E h media bs U i dest (unat off) (unat n) s \<dots>"
    by (rule sdcc_read_transfer [OF media d(3,4,2,1) U range w(1,2,3,4) sector_count dest])
       (use q(1) range w(3) in auto)
  finally show ?thesis .
qed

text \<open>
  (C27) Reading bytes of an image's partition. The transfer ends with a value. It leaves the
  medium alone and changes memory at most in the destination and in the block buffer, and
  when it reports success the destination holds exactly the bytes of the partition at the
  given offset, however the range lies over the blocks; with a reliable driver it succeeds
  on every range that lies in the partition, unless the destination is the null pointer. The range may lie outside it; only its end has
  to be below block \<open>2 ^ 32 - 1\<close>, the width of the code's sector numbers.
\<close>

theorem dev_sdcc_read_bytes_correct:
  assumes "sdcc_partition h (unat parti_id) i bs s" and "ufs_media E h bs media"
    and "dev_sdcc_buf_unalign E = U" and "U \<noteq> 0"
    and "(unat off + unat n) div bs < 2 ^ 32 - 1"
    and "unat dest + unat n < 2 ^ 64"
    and "\<forall>k < unat n. \<not> unat (dest + of_nat k - U) < bs"
  shows "\<exists>b t. dev_sdcc_read_bytes E dest off n parti_id s = (Inr b, t) \<and> sdcc_partition h (unat parti_id) i bs t \<and>
    media (drv t) = media (drv s) \<and>
    (\<forall>x. memory t x \<noteq> memory s x \<longrightarrow> unat (x - dest) < unat n \<or> unat (x - U) < bs) \<and>
    (b \<longrightarrow> mem_read dest (unat n) (memory t) = medium_bytes bs (media (drv s)) (parti_start i s) (unat off) (unat n)) \<and>
    (ufs_reliable E h \<and> dest \<noteq> 0 \<and> unat off + unat n \<le> parti_blocks i s * bs \<longrightarrow> b)"
proof -
  have "transfer E h media bs U i dest (unat off) (unat n) s (dev_sdcc_read_bytes E dest off n parti_id s)"
    using assms by (intro dev_sdcc_read_bytes_transfer) auto
  then obtain b t where t: "dev_sdcc_read_bytes E dest off n parti_id s = (Inr b, t)"
    "fetched media bs U dest (unat n) s t" "b \<Longrightarrow> holds media bs i dest (unat off) (unat n) t"
    "ufs_reliable E h \<Longrightarrow> dest \<noteq> 0 \<Longrightarrow> unat off + unat n \<le> parti_blocks i s * bs \<Longrightarrow> b"
    by (auto simp: transfer_def)
  then show ?thesis
    using io_step_handle [of s t h i] sdcc_partition_step [of s t] assms(1) by (auto simp: fetched_def holds_def)
qed

subsection \<open>A concrete state\<close>

definition example_platform :: "(nat \<Rightarrow> u8) platform" where
  "example_platform = drivers.extend (ram_ufs 4) \<lparr>dev_sdcc_buf_unalign = 0x1000\<rparr>"

definition zero_sbl_partition :: boot_coldplug_partition where
  "zero_sbl_partition = \<lparr>sp_chdl = None, blksz = 0, blkcnt = 0\<rparr>"

definition example_sdcc :: "(nat \<Rightarrow> u8) sdcc_state" where
  "example_sdcc = cp_gpt.extend example_gpt
     \<lparr>coldplug_init_done = 1, coldplug_device_info_inst = \<lparr>info_is_embedded = 1, bytes_per_lba = 4, total_lba_count = 16,
        manufacturer_id = 0, oem_id = 0, product_rev = 0, product_serial_number = 0, product_serial_number_string = [], product_name = [], manufactured_date = []\<rparr>,
      coldplug_iters = replicate 2 zero_iter,
      flash_shared_type = Some UFS_FLASH, poll_done = True, image_partition_id = initial_partition_id,
      sbl_partitions = (replicate 13 zero_sbl_partition)[1 := \<lparr>sp_chdl = Some 0, blksz = 4, blkcnt = 8\<rparr>]\<rparr>"

lemma example_platform_media: "ufs_media example_platform h 4 (ram_medium 4)"
  using ram_ufs_media [of 4 h] by (simp add: ufs_media_def example_platform_def drivers.defs)

lemma example_sdcc_handle: "ufs_handle h i example_sdcc = ufs_handle h i example_cache"
  "parti_start i example_sdcc = parti_start i example_cache"
  "parti_blocks i example_sdcc = parti_blocks i example_cache"
  by (simp_all add: ufs_handle_def parti_start_def parti_blocks_def handle_partition_def handle_lun_def
      handle_ops_def pools_ok_def example_sdcc_def example_gpt_def cp_gpt.defs cp_cache.defs)

lemma example_sdcc_partition: "sdcc_partition 1 1 0 4 example_sdcc"
  using example_handle
  by (simp add: sdcc_partition_def example_sdcc_handle) (simp add: example_sdcc_def cp_gpt.defs)

theorem dev_sdcc_read_bytes_correct_witness:
  "\<exists>b t. dev_sdcc_read_bytes example_platform 0x8000 6 5 1 example_sdcc = (Inr b, t) \<and> sdcc_partition 1 1 0 4 t \<and>
    ram_medium 4 (drv t) = ram_medium 4 (drv example_sdcc) \<and>
    (\<forall>x. memory t x \<noteq> memory example_sdcc x \<longrightarrow> unat (x - 0x8000) < 5 \<or> unat (x - 0x1000) < 4) \<and>
    (b \<longrightarrow> mem_read 0x8000 5 (memory t) = medium_bytes 4 (ram_medium 4 (drv example_sdcc)) 2 6 5) \<and>
    (ufs_reliable example_platform 1 \<longrightarrow> b)"
proof -
  have d: "\<forall>k < unat (5 :: u32). \<not> unat (0x8000 + of_nat k - 0x1000 :: u64) < 4"
  proof (intro allI impI)
    fix k assume "k < unat (5 :: u32)"
    then have "unat (0x8000 + of_nat k - 0x1000 :: u64) = 0x7000 + k"
      using unat_of_nat64 [of "0x7000 + k"] by simp
    then show "\<not> unat (0x8000 + of_nat k - 0x1000 :: u64) < 4" by simp
  qed
  from dev_sdcc_read_bytes_correct [where parti_id = 1 and U = "0x1000" and dest = "0x8000" and off = 6 and n = 5,
      OF _ example_platform_media _ _ _ _ this, where h = 1 and i = 0 and s = example_sdcc] show ?thesis
    using example_sdcc_partition by (simp add: example_sdcc_handle example_parti example_platform_def drivers.defs)
qed

end
