(* ===== verification/Flash.thy ===== *)
theory Flash
  imports Sdcc_Read
begin

text \<open>
  The flash layer between the image loaders and the block device. A transport
  (boot\_flash\_trans\_sdcc.c) is an open image: a handle that the factory hands out from a
  pool of one. The flash device (boot\_flash\_dev\_sdcc.c) opens and closes images and is
  reached through two registered singletons (boot\_singleton.h). Every read of an image
  goes through \<^verbatim>\<open>boot_flash_trans_read\<close> (boot\_flash\_trans\_if.h), which asks the whitelists
  first and keeps the counters of boot\_statistics.c. The virtual tables have the entries of
  these files only. The theorem is about that read: whatever the caller asks for, memory
  changes only in ranges the selected whitelist allows and in the block buffer.
\<close>

abbreviation (input) "BOOT_FLASH_TRANS_MAX_INSTANCES \<equiv> (1 :: nat)"
abbreviation (input) "RAW_PARTI \<equiv> (0 :: u32)"
abbreviation (input) "FAT_PARTI \<equiv> (1 :: u32)"

record boot_flash_trans_sdcc =
  trans_parti_id :: u32
  trans_parti_type :: u32
  copy_callback_func :: u64
  copy_callback_data :: u64

text \<open>
  The clock and the code behind a copy callback are not loader code. A callback may write
  memory, which it gets and returns.
\<close>

record 'd board = "'d platform" +
  time_count :: "'d \<Rightarrow> u32 \<times> 'd"
  copy_callback :: "u64 \<Rightarrow> u64 \<Rightarrow> u64 \<Rightarrow> u32 \<Rightarrow> mem \<times> 'd \<Rightarrow> mem \<times> 'd"

record 'd flash_state = "'d sdcc_state" +
  flash_timer_start_timetick :: u32
  flash_total_time_us :: u32
  flash_total_bytes_read :: u32
  flash_byte_counter :: u32
  trans_priv :: "boot_flash_trans_sdcc list"
  trans_priv_inuse :: "bool list"
  trans_init_done :: bool
  trans_fact_if :: bool
  dev_if_singleton :: bool
  dev_if_locked :: bool
  dev_sdcc_if_singleton :: bool
  dev_sdcc_if_locked :: bool

subsection \<open>boot\_statistics.c\<close>

definition CALCULATE_TIMESTAMP :: "u32 \<Rightarrow> u32" where
  "CALCULATE_TIMESTAMP count = count * 30 + count div 2"

definition boot_statistics_flash_read_start :: "('d, 'p) board_scheme \<Rightarrow> (('d, 'a) flash_state_scheme, unit) boot" where
  "boot_statistics_flash_read_start E =
     bnd (call (time_count E)) (\<lambda>t. modify (\<lambda>s. s\<lparr>flash_timer_start_timetick := t\<rparr>))"

definition boot_statistics_flash_read_stop ::
  "('d, 'p) board_scheme \<Rightarrow> u32 \<Rightarrow> (('d, 'a) flash_state_scheme, unit) boot" where
  "boot_statistics_flash_read_stop E bytes_read =
     bnd (call (time_count E)) (\<lambda>t. modify (\<lambda>s.
       s\<lparr>flash_total_time_us := flash_total_time_us s + CALCULATE_TIMESTAMP (t - flash_timer_start_timetick s),
         flash_total_bytes_read := flash_total_bytes_read s + bytes_read,
         flash_byte_counter := flash_byte_counter s + bytes_read\<rparr>))"

text \<open>The number \<^verbatim>\<open>boot_statistics_log_flash\<close> prints.\<close>

definition flash_kb_per_second :: "('d, 'a) flash_state_scheme \<Rightarrow> u32" where
  "flash_kb_per_second s =
     (if flash_total_bytes_read s \<noteq> 0 \<and> flash_total_time_us s \<noteq> 0
      then flash_total_bytes_read s div flash_total_time_us s * 1000000 div 1000 else 0)"

definition boot_statistics_reset_flash_byte_counter :: "(('d, 'a) flash_state_scheme, unit) boot" where
  "boot_statistics_reset_flash_byte_counter = modify (\<lambda>s. s\<lparr>flash_byte_counter := 0\<rparr>)"

definition boot_statistics_get_flash_byte_counter :: "(('d, 'a) flash_state_scheme, u32) boot" where
  "boot_statistics_get_flash_byte_counter = gets flash_byte_counter"

subsection \<open>The singletons\<close>

definition boot_flash_dev_if_register_singleton :: "(('d, 'a) flash_state_scheme, unit) boot" where
  "boot_flash_dev_if_register_singleton =
     bnd (gets dev_if_locked) (\<lambda>l. thn (bl_verify (\<not> l) (bl_err BL_ERR_NULL_PTR_PASSED BL_ERROR_GROUP_BOOT))
       (modify (\<lambda>s. s\<lparr>dev_if_singleton := True\<rparr>)))"

definition boot_flash_dev_if_get_singleton :: "(('d, 'a) flash_state_scheme, unit) boot" where
  "boot_flash_dev_if_get_singleton =
     bnd (gets dev_if_singleton) (\<lambda>r. bl_verify r (bl_err BL_ERR_NULL_PTR_PASSED BL_ERROR_GROUP_BOOT))"

definition boot_flash_dev_if_lock_singleton :: "(('d, 'a) flash_state_scheme, unit) boot" where
  "boot_flash_dev_if_lock_singleton =
     bnd (gets dev_if_singleton) (\<lambda>r. thn (bl_verify r (bl_err BL_ERR_NULL_PTR_PASSED BL_ERROR_GROUP_BOOT))
       (modify (\<lambda>s. s\<lparr>dev_if_locked := True\<rparr>)))"

definition boot_flash_dev_sdcc_if_register_singleton :: "(('d, 'a) flash_state_scheme, unit) boot" where
  "boot_flash_dev_sdcc_if_register_singleton =
     bnd (gets dev_sdcc_if_locked) (\<lambda>l. thn (bl_verify (\<not> l) (bl_err BL_ERR_NULL_PTR_PASSED BL_ERROR_GROUP_BOOT))
       (modify (\<lambda>s. s\<lparr>dev_sdcc_if_singleton := True\<rparr>)))"

definition boot_flash_dev_sdcc_if_get_singleton :: "(('d, 'a) flash_state_scheme, unit) boot" where
  "boot_flash_dev_sdcc_if_get_singleton =
     bnd (gets dev_sdcc_if_singleton) (\<lambda>r. bl_verify r (bl_err BL_ERR_NULL_PTR_PASSED BL_ERROR_GROUP_BOOT))"

subsection \<open>The device\<close>

definition dev_sdcc_read ::
  "('d, 'p) platform_scheme \<Rightarrow> u64 \<Rightarrow> u32 \<Rightarrow> u32 \<Rightarrow> u32 \<Rightarrow> u32 \<Rightarrow> (('d, 'a) sdcc_state_scheme, bool) boot" where
  "dev_sdcc_read E ram_addr src_offset bytes_to_read parti_id parti_type =
     (if parti_type = RAW_PARTI then dev_sdcc_read_bytes E ram_addr (ucast src_offset) bytes_to_read parti_id
      else fatal (bl_err BL_ERR_SDC_INVALID_PARTI BL_ERROR_GROUP_BOOT))"

definition dev_sdcc_read_segment ::
  "('d, 'p) platform_scheme \<Rightarrow> u64 \<Rightarrow> u32 \<Rightarrow> u32 \<Rightarrow> u32 \<Rightarrow> u32 \<Rightarrow> (('d, 'a) sdcc_state_scheme, bool) boot" where
  "dev_sdcc_read_segment E ram_addr src_offset bytes_to_read parti_id parti_type =
     (if parti_type = RAW_PARTI then dev_sdcc_read_bytes E ram_addr (ucast src_offset) bytes_to_read parti_id
      else fatal (bl_err BL_ERR_SDC_INVALID_PARTI BL_ERROR_GROUP_BOOT))"

definition dev_sdcc_configure_partition_id :: "u64 \<Rightarrow> (('d, 'a) sdcc_state_scheme, unit) boot" where
  "dev_sdcc_configure_partition_id partition_id = boot_coldplug_set_general_partition_id partition_id"

definition dev_sdcc_close_file_by_image_type :: "nat \<Rightarrow> (('d, 'a) sdcc_state_scheme, unit) boot" where
  "dev_sdcc_close_file_by_image_type image_id =
     thn (bl_verify (image_id \<noteq> NONE_IMG) (bl_err BL_ERR_IMGID_NOT_FOUND BL_ERROR_GROUP_BOOT))
      (bnd (boot_coldplug_close_device_by_image_type image_id) (\<lambda>status.
        bl_verify (status = EFS_SUCCESS) (bl_err BL_ERR_EFS_CLOSE_FAIL BL_ERROR_GROUP_BOOT)))"

definition dev_sdcc_close_file_by_handle :: "u16 \<Rightarrow> (('d, 'a) sdcc_state_scheme, unit) boot" where
  "dev_sdcc_close_file_by_handle file_handle =
     thn (bl_verify (sint file_handle \<noteq> INVALID_FILE_HANDLE) (bl_err BL_ERR_EFS_INVALID_HANDLE BL_ERROR_GROUP_BOOT))
      (bnd (boot_coldplug_close_device_by_handle (scast file_handle)) (\<lambda>status.
        bl_verify (status = EFS_SUCCESS) (bl_err BL_ERR_EFS_CLOSE_FAIL BL_ERROR_GROUP_BOOT)))"

definition dev_sdcc_open_partition :: "(('d, 'a) sdcc_state_scheme, cptr) boot" where
  "dev_sdcc_open_partition = ret None"

definition dev_sdcc_load_mibib_header :: "(('d, 'a) sdcc_state_scheme, bool) boot" where
  "dev_sdcc_load_mibib_header = ret False"

text \<open>The calls through the second singleton (boot\_flash\_dev\_sdcc\_if.h).\<close>

definition boot_flash_dev_sdcc_read_sdcc ::
  "('d, 'p) platform_scheme \<Rightarrow> u64 \<Rightarrow> u32 \<Rightarrow> u32 \<Rightarrow> u32 \<Rightarrow> u32 \<Rightarrow> (('d, 'a) flash_state_scheme, bool) boot" where
  "boot_flash_dev_sdcc_read_sdcc E ram_addr flash_addr n parti_id part_type =
     thn boot_flash_dev_sdcc_if_get_singleton (dev_sdcc_read E ram_addr flash_addr n parti_id part_type)"

definition boot_flash_dev_sdcc_close_file :: "u16 \<Rightarrow> (('d, 'a) flash_state_scheme, unit) boot" where
  "boot_flash_dev_sdcc_close_file file_handle =
     thn boot_flash_dev_sdcc_if_get_singleton (dev_sdcc_close_file_by_handle file_handle)"

definition boot_flash_dev_sdcc_close_file_by_image_type :: "nat \<Rightarrow> (('d, 'a) flash_state_scheme, unit) boot" where
  "boot_flash_dev_sdcc_close_file_by_image_type image_id =
     thn boot_flash_dev_sdcc_if_get_singleton (dev_sdcc_close_file_by_image_type image_id)"

subsection \<open>Transports\<close>

definition boot_flash_trans_sdcc_read ::
  "('d, 'p) board_scheme \<Rightarrow> cptr \<Rightarrow> u64 \<Rightarrow> u32 \<Rightarrow> u32 \<Rightarrow> (('d, 'a) flash_state_scheme, bool) boot" where
  "boot_flash_trans_sdcc_read E trans_if dest_addr byte_offset n =
     (if trans_if = None then ret False
      else deref trans_priv trans_if (\<lambda>tp.
        bnd (if n > 0
             then boot_flash_dev_sdcc_read_sdcc E dest_addr byte_offset n (trans_parti_id tp) (trans_parti_type tp)
             else ret True) (\<lambda>status.
          thn (whenb (copy_callback_func tp \<noteq> 0) (modify (\<lambda>s.
                 case copy_callback E (copy_callback_func tp) (copy_callback_data tp) dest_addr n (memory s, drv s) of
                   (m, d) \<Rightarrow> s\<lparr>memory := m, drv := d\<rparr>)))
            (ret status))))"

definition boot_flash_trans_sdcc_init :: "cptr \<Rightarrow> u32 \<Rightarrow> u32 \<Rightarrow> (('d, 'a) flash_state_scheme, unit) boot" where
  "boot_flash_trans_sdcc_init tp fhandle parti_type =
     thn (bl_verify (tp \<noteq> None) (bl_err BL_ERR_NULL_PTR_PASSED BL_ERROR_GROUP_BOOT))
       (modify (\<lambda>s. s\<lparr>trans_priv := (trans_priv s)[the tp := \<lparr>trans_parti_id = fhandle, trans_parti_type = parti_type,
          copy_callback_func = 0, copy_callback_data = 0\<rparr>]\<rparr>))"

definition boot_flash_trans_sdcc_factory_open :: "u32 \<Rightarrow> u32 \<Rightarrow> (('d, 'a) flash_state_scheme, cptr) boot" where
  "boot_flash_trans_sdcc_factory_open f_handle parti_type =
     bnd (gets (\<lambda>s. scan (\<lambda>b. \<not> b) 0 (trans_priv_inuse s))) (\<lambda>p.
       thn (case p of None \<Rightarrow> ret ()
            | Some i \<Rightarrow> modify (\<lambda>s. s\<lparr>trans_priv_inuse := (trans_priv_inuse s)[i := True]\<rparr>))
        (thn (bl_verify (p \<noteq> None) (bl_err BL_ERR_RESOURCE_NOT_AVAILABLE BL_ERROR_GROUP_BOOT))
          (thn (boot_flash_trans_sdcc_init p f_handle parti_type) (ret p))))"

text \<open>
  A pointer that is not a transport's is in no entry of the pool. A file's transport closes
  its handle, a partition's transport the general image, whichever image it was opened for.
\<close>

definition boot_flash_trans_sdcc_factory_close :: "cptr \<Rightarrow> (('d, 'a) flash_state_scheme, cptr) boot" where
  "boot_flash_trans_sdcc_factory_close trans_if =
     (case trans_if of
        None \<Rightarrow> fatal (bl_err BL_ERR_SDCC_TRANS_INTERFACE_NOT_FOUND BL_ERROR_GROUP_BOOT)
      | Some i \<Rightarrow>
         if i < BOOT_FLASH_TRANS_MAX_INSTANCES then
           deref trans_priv_inuse (Some i) (\<lambda>u.
             thn (bl_verify u (bl_err BL_ERR_RESOURCE_NOT_AVAILABLE BL_ERROR_GROUP_BOOT))
              (deref trans_priv (Some i) (\<lambda>tp.
                thn (whenb (trans_parti_type tp = FAT_PARTI) (boot_flash_dev_sdcc_close_file (ucast (trans_parti_id tp))))
                 (thn (whenb (trans_parti_type tp = RAW_PARTI) (boot_flash_dev_sdcc_close_file_by_image_type GEN_IMG))
                   (thn (modify (\<lambda>s. s\<lparr>trans_priv_inuse := (trans_priv_inuse s)[i := False]\<rparr>)) (ret None))))))
         else fatal (bl_err BL_ERR_SDCC_TRANS_INTERFACE_NOT_FOUND BL_ERROR_GROUP_BOOT))"

definition boot_flash_trans_sdcc_factory_init :: "(('d, 'a) flash_state_scheme, bool) boot" where
  "boot_flash_trans_sdcc_factory_init =
     bnd (gets trans_init_done) (\<lambda>d.
       thn (whenb (\<not> d) (modify (\<lambda>s. s\<lparr>trans_priv_inuse := replicate BOOT_FLASH_TRANS_MAX_INSTANCES False,
              trans_init_done := True\<rparr>))) (ret True))"

definition dev_sdcc_open_image :: "('d, 'p) drivers_scheme \<Rightarrow> nat \<Rightarrow> (('d, 'a) flash_state_scheme, cptr) boot" where
  "dev_sdcc_open_image E image_id =
     thn (bl_verify (image_id \<noteq> NONE_IMG) (bl_err BL_ERR_IMGID_NOT_FOUND BL_ERROR_GROUP_BOOT))
      (bnd (boot_get_coldplug_dev_handle E image_id) (\<lambda>handle.
        if handle = INVALID_FILE_HANDLE then ret None
        else bnd (gets trans_fact_if) (\<lambda>f.
          if f then boot_flash_trans_sdcc_factory_open (of_int handle) RAW_PARTI else fatal Undefined_behaviour)))"

definition dev_sdcc_close_image :: "cptr \<Rightarrow> (('d, 'a) flash_state_scheme, cptr) boot" where
  "dev_sdcc_close_image trans_if = bnd (gets trans_fact_if) (\<lambda>f.
     if f then boot_flash_trans_sdcc_factory_close trans_if else fatal Undefined_behaviour)"

subsection \<open>The calls through the device interface\<close>

definition boot_flash_dev_open_image :: "('d, 'p) drivers_scheme \<Rightarrow> nat \<Rightarrow> (('d, 'a) flash_state_scheme, cptr) boot" where
  "boot_flash_dev_open_image E image_id = thn boot_flash_dev_if_get_singleton (dev_sdcc_open_image E image_id)"

definition boot_flash_dev_close_image :: "cptr \<Rightarrow> (('d, 'a) flash_state_scheme, cptr) boot" where
  "boot_flash_dev_close_image trans_if = thn boot_flash_dev_if_get_singleton (dev_sdcc_close_image trans_if)"

definition boot_flash_dev_close_file :: "nat \<Rightarrow> (('d, 'a) flash_state_scheme, unit) boot" where
  "boot_flash_dev_close_file image_id =
     thn boot_flash_dev_if_get_singleton (dev_sdcc_close_file_by_image_type image_id)"

definition boot_flash_configure_target_image :: "u64 \<Rightarrow> (('d, 'a) flash_state_scheme, unit) boot" where
  "boot_flash_configure_target_image partition_id =
     thn boot_flash_dev_if_get_singleton (dev_sdcc_configure_partition_id partition_id)"

text \<open>The registration of the device, after the parameters for the SD driver are set.\<close>

definition boot_flash_dev_sdcc_init_and_register :: "(('d, 'a) flash_state_scheme, unit) boot" where
  "boot_flash_dev_sdcc_init_and_register =
     thn boot_coldplug_init
      (thn boot_flash_dev_if_register_singleton
       (thn boot_flash_dev_sdcc_if_register_singleton
        (bnd boot_flash_trans_sdcc_factory_init (\<lambda>f.
          thn (modify (\<lambda>s. s\<lparr>trans_fact_if := f\<rparr>))
            (bl_verify f (bl_err BL_ERR_NULL_PTR_PASSED BL_ERROR_GROUP_BOOT))))))"

definition boot_flash_trans_read ::
  "('d, 'p) board_scheme \<Rightarrow> cptr \<Rightarrow> u64 \<Rightarrow> u32 \<Rightarrow> u32 \<Rightarrow> buffer_type \<Rightarrow> (('d, 'a) flash_state_scheme, bool) boot" where
  "boot_flash_trans_read E trans_if dest_addr byte_offset n bf_type =
     bnd (boot_whitelist_address_range_check dest_addr (ucast n) bf_type) (\<lambda>ok.
       if \<not> ok then ret False
       else thn (boot_statistics_flash_read_start E)
        (bnd (if trans_if = None then fatal Undefined_behaviour
              else boot_flash_trans_sdcc_read E trans_if dest_addr byte_offset n) (\<lambda>result.
          thn (whenb result (boot_statistics_flash_read_stop E n)) (ret result))))"

subsection \<open>Reads of an open image\<close>

text \<open>The frame of a read: memory, the device, the debug log and the statistics may differ.\<close>

definition flash_step :: "('d, 'a) flash_state_scheme \<Rightarrow> ('d, 'a) flash_state_scheme \<Rightarrow> bool" where
  "flash_step s t \<longleftrightarrow> (\<exists>m d l k a b c e. t = s\<lparr>memory := m, drv := d, coldplug_debug_info := l,
     coldplug_debug_info_idx := k, flash_timer_start_timetick := a, flash_total_time_us := b,
     flash_total_bytes_read := c, flash_byte_counter := e\<rparr>)"

lemma flash_stepI:
  "t = s\<lparr>memory := m, drv := d, coldplug_debug_info := l, coldplug_debug_info_idx := k,
     flash_timer_start_timetick := a, flash_total_time_us := b, flash_total_bytes_read := c,
     flash_byte_counter := e\<rparr> \<Longrightarrow> flash_step s t"
  unfolding flash_step_def by (intro exI)

lemma flash_step_trans:
  assumes "flash_step s t" and "flash_step t u"
  shows "flash_step s u"
proof -
  obtain m d l k a b c e where t: "t = s\<lparr>memory := m, drv := d, coldplug_debug_info := l,
     coldplug_debug_info_idx := k, flash_timer_start_timetick := a, flash_total_time_us := b,
     flash_total_bytes_read := c, flash_byte_counter := e\<rparr>"
    using assms(1) unfolding flash_step_def by (elim exE)
  obtain m' d' l' k' a' b' c' e' where "u = t\<lparr>memory := m', drv := d', coldplug_debug_info := l',
     coldplug_debug_info_idx := k', flash_timer_start_timetick := a', flash_total_time_us := b',
     flash_total_bytes_read := c', flash_byte_counter := e'\<rparr>"
    using assms(2) unfolding flash_step_def by (elim exE)
  then have "u = s\<lparr>memory := m', drv := d', coldplug_debug_info := l',
     coldplug_debug_info_idx := k', flash_timer_start_timetick := a', flash_total_time_us := b',
     flash_total_bytes_read := c', flash_byte_counter := e'\<rparr>"
    unfolding t by simp
  then show ?thesis by (rule flash_stepI)
qed

lemma flash_step_io:
  assumes "io_step s t"
  shows "flash_step s t"
proof -
  obtain m d l k where "t = s\<lparr>memory := m, drv := d, coldplug_debug_info := l, coldplug_debug_info_idx := k\<rparr>"
    using assms unfolding io_step_def by (elim exE)
  then have "t = s\<lparr>memory := m, drv := d, coldplug_debug_info := l, coldplug_debug_info_idx := k,
     flash_timer_start_timetick := flash_timer_start_timetick s, flash_total_time_us := flash_total_time_us s,
     flash_total_bytes_read := flash_total_bytes_read s, flash_byte_counter := flash_byte_counter s\<rparr>"
    by simp
  then show ?thesis by (rule flash_stepI)
qed

lemmas flash_step_refl [simp] = flash_step_io [OF io_step_refl]

text \<open>Transport \<open>p\<close> is open on a partition of a UFS unit, and the whitelists are well-formed.\<close>

definition open_transport :: "u64 \<Rightarrow> nat \<Rightarrow> nat \<Rightarrow> nat \<Rightarrow> ('d, 'a) flash_state_scheme \<Rightarrow> bool" where
  "open_transport h p i bs s \<longleftrightarrow> whitelists_ok s \<and> dev_sdcc_if_singleton s \<and> p < length (trans_priv s) \<and>
     trans_parti_type (trans_priv s ! p) = RAW_PARTI \<and> copy_callback_func (trans_priv s ! p) = 0 \<and>
     sdcc_partition h (unat (trans_parti_id (trans_priv s ! p))) i bs s"

lemma flash_step_frame:
  assumes "flash_step s t"
  shows "open_transport h p i bs t = open_transport h p i bs s" and "buffer_table bt t = buffer_table bt s"
    and "parti_start i t = parti_start i s" and "parti_blocks i t = parti_blocks i s"
    and "ufs_handle h i t = ufs_handle h i s" and "sdcc_partition h k i bs t = sdcc_partition h k i bs s"
proof -
  obtain m d l k a b c e where t: "t = s\<lparr>memory := m, drv := d, coldplug_debug_info := l,
     coldplug_debug_info_idx := k, flash_timer_start_timetick := a, flash_total_time_us := b,
     flash_total_bytes_read := c, flash_byte_counter := e\<rparr>"
    using assms unfolding flash_step_def by (elim exE)
  let ?u = "s\<lparr>memory := m, drv := d, coldplug_debug_info := l, coldplug_debug_info_idx := k\<rparr>"
  have u: "ufs_handle h i ?u = ufs_handle h i s \<and> parti_start i ?u = parti_start i s \<and> parti_blocks i ?u = parti_blocks i s"
    for h by (rule ufs_handle_frame) simp
  have tu: "ufs_handle h i t = ufs_handle h i ?u" "parti_start i t = parti_start i ?u" "parti_blocks i t = parti_blocks i ?u"
    for h by (simp_all add: t ufs_handle_def parti_start_def parti_blocks_def handle_partition_def handle_lun_def
        handle_ops_def pools_ok_def)
  show p: "parti_start i t = parti_start i s" "parti_blocks i t = parti_blocks i s"
    and h: "ufs_handle h i t = ufs_handle h i s"
    using u tu by auto
  show "buffer_table bt t = buffer_table bt s" by (simp add: t buffer_table_def)
  show sd: "sdcc_partition h k i bs t = sdcc_partition h k i bs s" for k
    using h by (simp add: sdcc_partition_def) (simp add: t)
  show "open_transport h p i bs t = open_transport h p i bs s"
    using sd by (simp add: open_transport_def) (simp add: t whitelists_ok_def)
qed


text \<open>What is relied on of the platform: the driver's contract, and that reading the clock leaves the medium alone.\<close>

definition board_media :: "('d, 'p) board_scheme \<Rightarrow> u64 \<Rightarrow> nat \<Rightarrow> ('d \<Rightarrow> nat \<Rightarrow> bytes) \<Rightarrow> bool" where
  "board_media E h bs media \<longleftrightarrow> ufs_media E h bs media \<and> (\<forall>d. media (snd (time_count E d)) = media d)"

lemma read_start_run:
  assumes "board_media E h bs media"
  obtains t where "boot_statistics_flash_read_start E s = (Inr (), t)" and "flash_step s t"
    and "memory t = memory s" and "media (drv t) = media (drv s)"
proof -
  obtain c d where c: "time_count E (drv s) = (c, d)" by fastforce
  let ?t = "s\<lparr>drv := d, flash_timer_start_timetick := c\<rparr>"
  have "flash_step s ?t"
    by (rule flash_stepI [where m = "memory s" and d = d and l = "coldplug_debug_info s" and k = "coldplug_debug_info_idx s"
          and a = c and b = "flash_total_time_us s" and c = "flash_total_bytes_read s" and e = "flash_byte_counter s"]) simp
  moreover have "media d = media (drv s)"
    using assms c by (auto simp: board_media_def dest: spec [of _ "drv s"])
  ultimately show thesis
    using that [of ?t] c by (simp add: boot_statistics_flash_read_start_def call_def bnd_app)
qed

lemma read_stop_run:
  assumes "board_media E h bs media"
  obtains t where "boot_statistics_flash_read_stop E n s = (Inr (), t)" and "flash_step s t"
    and "memory t = memory s" and "media (drv t) = media (drv s)"
proof -
  obtain c d where c: "time_count E (drv s) = (c, d)" by fastforce
  let ?a = "flash_total_time_us s + CALCULATE_TIMESTAMP (c - flash_timer_start_timetick s)"
  let ?t = "s\<lparr>drv := d, flash_total_time_us := ?a, flash_total_bytes_read := flash_total_bytes_read s + n,
     flash_byte_counter := flash_byte_counter s + n\<rparr>"
  have "flash_step s ?t"
    by (rule flash_stepI [where m = "memory s" and d = d and l = "coldplug_debug_info s" and k = "coldplug_debug_info_idx s"
          and a = "flash_timer_start_timetick s" and b = ?a and c = "flash_total_bytes_read s + n"
          and e = "flash_byte_counter s + n"]) simp
  moreover have "media d = media (drv s)"
    using assms c by (auto simp: board_media_def dest: spec [of _ "drv s"])
  ultimately show thesis
    using that [of ?t] c by (simp add: boot_statistics_flash_read_stop_def call_def bnd_app)
qed

lemma trans_read_run:
  assumes "open_transport h p i bs s" and "n \<noteq> 0"
  shows "boot_flash_trans_sdcc_read E (Some p) dest off n s =
    (case dev_sdcc_read_bytes E dest (ucast off) n (trans_parti_id (trans_priv s ! p)) s of
       (Inl e, t) \<Rightarrow> (Inl e, t) | (Inr b, t) \<Rightarrow> (Inr b, t))"
  using assms by (auto simp: boot_flash_trans_sdcc_read_def open_transport_def boot_flash_dev_sdcc_read_sdcc_def
      boot_flash_dev_sdcc_if_get_singleton_def dev_sdcc_read_def bnd_app thn_app ret_app word_gt_0
      split: prod.splits sum.splits)

text \<open>A block size of at least 4 keeps the sector numbers of 32-bit offsets and lengths in 32 bits.\<close>

lemma sectors_32:
  fixes off n :: u32
  assumes "4 \<le> bs"
  shows "(unat off + unat n) div bs < 4294967295"
proof -
  have "(unat off + unat n) div bs \<le> (unat off + unat n) div 4" using assms by (intro div_le_mono2) simp_all
  also have "\<dots> \<le> 8589934590 div 4" using unat32_lt [of off] unat32_lt [of n] by (intro div_le_mono) linarith
  finally show ?thesis by simp
qed

lemma flash_read_run:
  assumes op: "open_transport h p i bs s" and E: "board_media E h bs media" and "4 \<le> bs"
    and U: "dev_sdcc_buf_unalign E = U" "U \<noteq> 0"
    and safe: "\<And>x. allowed (buffer_table bt s) x \<Longrightarrow> \<not> unat (x - U) < bs"
  obtains b t where "boot_flash_trans_read E (Some p) dest off n bt s = (Inr b, t)" and "flash_step s t"
    and "media (drv t) = media (drv s)"
    and "\<And>x. memory t x \<noteq> memory s x \<Longrightarrow> in_range dest (ucast n) x \<and> allowed (buffer_table bt s) x \<or> unat (x - U) < bs"
    and "b \<Longrightarrow> n \<noteq> 0 \<and> mem_read dest (unat n) (memory t) =
        medium_bytes bs (media (drv s)) (parti_start i s) (unat off) (unat n)"
    and "\<not> covers (buffer_table bt s) dest (ucast n) \<Longrightarrow> \<not> b \<and> t = s"
proof -
  have ok: "whitelists_ok s" using op by (simp add: open_transport_def)
  define c where "c = (n \<noteq> 0 \<and> dest \<le> dest + ucast n \<and> covers (buffer_table bt s) dest (ucast n))"
  have chk: "boot_whitelist_address_range_check dest (ucast n) bt s = (Inr c, s)"
  proof -
    have "(ucast n :: u64) = 0 \<longleftrightarrow> n = 0" using unat_ucast_32_64 [of n] by (metis unat_eq_0)
    then show ?thesis unfolding c_def by (simp add: range_check_run [OF ok])
  qed
  show thesis
  proof (cases c)
    case False
    then show thesis
      using that [of False s] chk by (simp add: boot_flash_trans_read_def bnd_app ret_app)
  next
    case True
    then have n: "n \<noteq> 0" "dest \<le> dest + ucast n" by (simp_all add: c_def)
    then have wrap: "unat dest + unat n < 18446744073709551616" by (simp add: no_wrap_iff)
    have al: "allowed (buffer_table bt s) x" if "in_range dest (ucast n) x" for x
      using range_check_True(2) [OF ok _ that] chk True by simp
    obtain s1 where s1: "boot_statistics_flash_read_start E s = (Inr (), s1)" "flash_step s s1"
      "memory s1 = memory s" "media (drv s1) = media (drv s)" using read_start_run [OF E] by blast
    note f1 = flash_step_frame [OF s1(2)]
    have op1: "open_transport h p i bs s1" using op f1(1) by simp
    let ?id = "trans_parti_id (trans_priv s1 ! p)"
    have dis: "\<not> unat (dest + of_nat k - U) < bs" if "k < unat n" for k
    proof (intro safe al)
      have "k < 18446744073709551616" using that unat32_lt [of n] by linarith
      then show "in_range dest (ucast n) (dest + of_nat k)" using that by (simp add: in_range_def)
    qed
    have dev: "sdcc_partition h (unat ?id) i bs s1" using op1 by (simp add: open_transport_def)
    have sec: "(unat (ucast off :: u64) + unat n) div bs < 4294967295" using sectors_32 [OF assms(3)] by simp
    have media: "ufs_media E h bs media" using E by (simp add: board_media_def)
    from dev_sdcc_read_bytes_transfer [OF dev media U sec wrap dis] obtain b s2 where s2:
      "dev_sdcc_read_bytes E dest (ucast off) n ?id s1 = (Inr b, s2)"
      "fetched media bs U dest (unat n) s1 s2" "b \<longrightarrow> holds media bs i dest (unat (ucast off :: u64)) (unat n) s2"
      unfolding transfer_def by blast
    have st2: "flash_step s1 s2" using s2(2) by (intro flash_step_io) (simp add: fetched_def)
    obtain s3 where s3: "boot_statistics_flash_read_stop E n s2 = (Inr (), s3)" "flash_step s2 s3"
      "memory s3 = memory s2" "media (drv s3) = media (drv s2)" using read_stop_run [OF E] by blast
    define t where "t = (if b then s3 else s2)"
    have tr: "boot_flash_trans_sdcc_read E (Some p) dest off n s1 = (Inr b, s2)"
      using trans_read_run [OF op1 n(1), of E dest off] s2(1) by simp
    have t: "boot_flash_trans_read E (Some p) dest off n bt s = (Inr b, t)"
      using chk True s1(1) tr s3(1)
      by (simp add: boot_flash_trans_read_def bnd_app thn_app ret_app t_def)
    have eq: "memory t = memory s2" "media (drv t) = media (drv s)"
      using s3(3,4) s2(2) s1(4) by (simp_all add: t_def fetched_def)
    have step: "flash_step s t"
      using flash_step_trans [OF s1(2) st2] flash_step_trans [OF _ s3(2)] by (simp add: t_def)
    have "in_range dest (ucast n) x \<and> allowed (buffer_table bt s) x \<or> unat (x - U) < bs" if "memory t x \<noteq> memory s x" for x
      using s2(2) that eq(1) s1(3) al [of x] by (auto simp: fetched_def in_range_def)
    moreover have "mem_read dest (unat n) (memory t) = medium_bytes bs (media (drv s)) (parti_start i s) (unat off) (unat n)" if b
      using s2(2,3) that eq(1) s1(4) f1(3) flash_step_frame(3) [OF st2] by (simp add: holds_def fetched_def)
    ultimately show thesis
      using that [OF t step eq(2)] n(1) True by (simp add: c_def)
  qed
qed

text \<open>
  (C8) The flash read is safe for any request. Through an open transport, and with a block
  buffer outside the whitelisted ranges, the call ends with a value; every byte of memory
  that changes is in the requested range and allowed by the selected whitelist, or in the
  block buffer; a range the whitelist does not cover changes nothing at all; and after a
  success the destination holds the bytes of the image at the requested offset.
\<close>

theorem flash_read_safe:
  assumes "open_transport h p i bs s" and "board_media E h bs media" and "4 \<le> bs"
    and "dev_sdcc_buf_unalign E = U" and "U \<noteq> 0"
    and "\<forall>x. allowed (buffer_table bt s) x \<longrightarrow> \<not> unat (x - U) < bs"
  shows "\<exists>b t. boot_flash_trans_read E (Some p) dest off n bt s = (Inr b, t) \<and> open_transport h p i bs t \<and>
    (\<forall>x. memory t x \<noteq> memory s x \<longrightarrow>
       in_range dest (ucast n) x \<and> allowed (buffer_table bt s) x \<or> unat (x - U) < bs) \<and>
    (\<not> covers (buffer_table bt s) dest (ucast n) \<longrightarrow> \<not> b \<and> t = s) \<and>
    (b \<longrightarrow> mem_read dest (unat n) (memory t) = medium_bytes bs (media (drv s)) (parti_start i s) (unat off) (unat n))"
proof -
  from flash_read_run [OF assms(1-5), of bt] assms(6) obtain b t where t:
    "boot_flash_trans_read E (Some p) dest off n bt s = (Inr b, t)" "flash_step s t"
    "\<And>x. memory t x \<noteq> memory s x \<Longrightarrow> in_range dest (ucast n) x \<and> allowed (buffer_table bt s) x \<or> unat (x - U) < bs"
    "b \<Longrightarrow> mem_read dest (unat n) (memory t) = medium_bytes bs (media (drv s)) (parti_start i s) (unat off) (unat n)"
    "\<not> covers (buffer_table bt s) dest (ucast n) \<Longrightarrow> \<not> b \<and> t = s"
    by metis
  then show ?thesis using flash_step_frame(1) [OF t(2)] assms(1) by auto
qed

subsection \<open>A concrete state\<close>

definition example_board :: "(nat \<Rightarrow> u8) board" where
  "example_board = platform.extend example_platform
     \<lparr>time_count = (\<lambda>d. (0, d)), copy_callback = (\<lambda>_ _ _ _ md. md)\<rparr>"

definition example_flash :: "(nat \<Rightarrow> u8) flash_state" where
  "example_flash = sdcc_state.extend
     (example_sdcc\<lparr>curr_image_whitelst_tbl := filled [\<lparr>start_addr = 0x8000, entry_size = 0x1000\<rparr>]\<rparr>)
     \<lparr>flash_timer_start_timetick = 0, flash_total_time_us = 0, flash_total_bytes_read = 0, flash_byte_counter = 0,
      trans_priv = [\<lparr>trans_parti_id = 1, trans_parti_type = 0, copy_callback_func = 0, copy_callback_data = 0\<rparr>],
      trans_priv_inuse = [True], trans_init_done = True, trans_fact_if = True, dev_if_singleton = True,
      dev_if_locked = True, dev_sdcc_if_singleton = True, dev_sdcc_if_locked = False\<rparr>"

lemma example_board_media: "board_media example_board h 4 (ram_medium 4)"
  using example_platform_media [of h]
  by (simp add: board_media_def ufs_media_def example_board_def platform.defs)

lemma example_flash_open: "open_transport 1 0 0 4 example_flash"
proof -
  have "ufs_handle h i example_flash = ufs_handle h i example_sdcc" for h i
    by (simp add: ufs_handle_def handle_partition_def handle_lun_def handle_ops_def pools_ok_def
        example_flash_def sdcc_state.defs)
  then have "sdcc_partition 1 1 0 4 example_flash"
    using example_sdcc_partition by (simp add: sdcc_partition_def) (simp add: example_flash_def sdcc_state.defs)
  moreover have "whitelists_ok example_flash"
    by (simp add: whitelists_ok_def example_flash_def sdcc_state.defs img_admissible_def table_ok_filled)
      (simp add: example_sdcc_def example_gpt_def example_cache_def example_pools_def cp_gpt.defs cp_cache.defs
        cp_pools.defs hdr.ok_zero)
  ultimately show ?thesis by (simp add: open_transport_def) (simp add: example_flash_def sdcc_state.defs)
qed

lemma example_flash_table: "allowed (buffer_table IMAGE_BODY_TYPE example_flash) x \<longleftrightarrow> in_range 0x8000 0x1000 x"
  by (simp add: allowed_def buffer_table_def example_flash_def sdcc_state.defs)

lemma example_flash_buffer: "allowed (buffer_table IMAGE_BODY_TYPE example_flash) x \<Longrightarrow> \<not> unat (x - 0x1000) < 4"
proof
  assume a: "allowed (buffer_table IMAGE_BODY_TYPE example_flash) x" and "unat (x - 0x1000) < 4"
  then obtain k where k: "k < 4" "x = 0x1000 + of_nat k" using in_range_offset [of 4 x "0x1000"] by auto
  then have "unat x = 0x1000 + k" using unat_of_nat64 [of "0x1000 + k"] by simp
  moreover have "0x8000 \<le> unat x"
    using a in_range_iff [of "0x8000" "0x1000" x] by (simp add: example_flash_table)
  ultimately show False using k(1) by simp
qed

theorem flash_read_safe_witness:
  "\<exists>b t. boot_flash_trans_read example_board (Some 0) 0x8000 6 5 IMAGE_BODY_TYPE example_flash = (Inr b, t) \<and>
    open_transport 1 0 0 4 t \<and>
    (\<forall>x. memory t x \<noteq> memory example_flash x \<longrightarrow>
       in_range 0x8000 (ucast (5 :: u32)) x \<and> allowed (buffer_table IMAGE_BODY_TYPE example_flash) x \<or> unat (x - 0x1000) < 4) \<and>
    (\<not> covers (buffer_table IMAGE_BODY_TYPE example_flash) 0x8000 (ucast (5 :: u32)) \<longrightarrow> \<not> b \<and> t = example_flash) \<and>
    (b \<longrightarrow> mem_read 0x8000 (unat (5 :: u32)) (memory t) =
      medium_bytes 4 (ram_medium 4 (drv example_flash)) (parti_start 0 example_flash) (unat (6 :: u32)) (unat (5 :: u32)))"
  by (rule flash_read_safe [OF example_flash_open example_board_media])
    (use example_flash_buffer in \<open>auto simp: example_board_def example_platform_def platform.defs drivers.defs\<close>)

end
