(* ===== verification/Secure_Img.thy ===== *)
theory Secure_Img
  imports Flash
begin

text \<open>
  Image authentication: the buffer of the hash segment (boot\_hash\_buffer.c), the calls into
  the secure world (boot\_extern\_sec\_img\_interface.c) and the authenticator
  (boot\_authenticator.c). The secure monitor and the allocators are parameters; a fast call
  gets its arguments, those of the indirect list as a list of their own, and may change
  memory and the device. The static structures the calls fill have addresses that the linker
  fixes. Cache maintenance and the timing log have no effect in this model. The theorem is
  about the hash log for the trusted platform module: no store leaves its region.
\<close>

abbreviation (input) "SMC_ERR_SYSCALL_FAILED \<equiv> (-2 :: int)"
abbreviation (input) "SMC_SUCCESS \<equiv> (0 :: u32)"
abbreviation (input) "HASH_SEGMENT_SIZE \<equiv> (0x6000 :: nat)"
abbreviation (input) "ELF_CLASS_32 \<equiv> (1 :: u8)"
abbreviation (input) "ELF_CLASS_64 \<equiv> (2 :: u8)"
abbreviation (input) "TZ_PIL_SEC_IMG_VERIFY_METADATA_ID \<equiv> (0x82000210 :: u32)"
abbreviation (input) "TZ_PIL_SEC_IMG_HASH_SEGMENTS_ID \<equiv> (0x82000211 :: u32)"
abbreviation (input) "TZ_PIL_SEC_IMG_VALIDATE_ELF_ID \<equiv> (0x82000212 :: u32)"
abbreviation (input) "TZ_PIL_SEC_IMG_VALID_SEG_ID \<equiv> (0x82000213 :: u32)"
abbreviation (input) "TZ_PIL_SEC_IMG_PARTIAL_HASH_ID \<equiv> (0x82000215 :: u32)"
abbreviation (input) "TZ_SECBOOT_STATUS_CMD \<equiv> (0x82000119 :: u32)"
abbreviation (input) "SIZEOF_MI_HEADER \<equiv> (40 :: nat)"
abbreviation (input) "SIZEOF_SEC_IMG_VERIFIED_INFO \<equiv> (504 :: nat)"
abbreviation (input) "SIZEOF_VERIFIED_INFO \<equiv> (240 :: nat)"
abbreviation (input) "SIZEOF_IMAGE_HASH_INFO \<equiv> (64 :: nat)"
abbreviation (input) "SHARED_IMEM_TPM_HASH_REGION_OFFSET \<equiv> (0x834 :: u64)"
abbreviation (input) "SHARED_IMEM_TPM_HASH_REGION_SIZE \<equiv> (256 :: u32)"
abbreviation (input) "SMEM_TPM_HASH_REGION_SIZE \<equiv> (1024 :: u32)"

record 'd secure_board = "'d board" +
  fastcall_tz :: "u32 \<Rightarrow> u32 \<Rightarrow> u64 list \<Rightarrow> u64 list \<Rightarrow> mem \<times> 'd \<Rightarrow> (int \<times> u64) \<times> mem \<times> 'd"
  DALSYS_Malloc :: "u32 \<Rightarrow> 'd \<Rightarrow> (u32 \<times> u64) \<times> 'd"
  DALSYS_Free :: "u64 \<Rightarrow> 'd \<Rightarrow> u32 \<times> 'd"
  smem_alloc_core_info :: "u32 \<Rightarrow> 'd \<Rightarrow> u64 \<times> 'd"
  boot_shared_imem_cookie_ptr :: u64
  boot_hash_segment :: u64
  sbl_sec_img_auth_verified_info :: u64
  sbl_auth_verified_info :: u64

record secboot_image_info =
  header_ptr_1 :: u64
  header_len_1 :: u32
  code_ptr_1 :: u64
  code_len_1 :: u32
  x509_chain_ptr :: u64
  x509_chain_len :: u32
  signature_ptr :: u64
  signature_len :: u32
  sw_type :: u32
  sw_version :: u32

record 'd auth_state = "'d flash_state" +
  is_elf_hash_table_auth_result :: bool
  boot_hash_segment_ptr :: u64
  boot_hash_segment_imem_ptr :: u64
  sbl_auth_image_info :: secboot_image_info
  next_avail_tpm_hash_blk_ptr :: u64
  move_hash_post_smem_init :: bool
  smem_init_done :: bool

definition copy_mem :: "u64 \<Rightarrow> u64 \<Rightarrow> nat \<Rightarrow> ('a mem_state_scheme, unit) boot" where
  "copy_mem dst src n = modify (memory_update (qmemcpy dst src (of_nat n)))"

subsection \<open>boot\_hash\_buffer.c\<close>

definition boot_get_hash_segment_buffer :: "(('d, 'a) auth_state_scheme, u64) boot" where
  "boot_get_hash_segment_buffer = gets boot_hash_segment_ptr"

definition boot_set_hash_segment_buffer :: "u64 \<Rightarrow> (('d, 'a) auth_state_scheme, unit) boot" where
  "boot_set_hash_segment_buffer hash_buff_ptr =
     whenb (hash_buff_ptr \<noteq> 0)
       (bnd (gets boot_hash_segment_ptr) (\<lambda>p. copy_mem p hash_buff_ptr HASH_SEGMENT_SIZE))"

definition boot_get_hash_buffer_size :: u32 where
  "boot_get_hash_buffer_size = of_nat HASH_SEGMENT_SIZE"

definition boot_set_hash_table_auth_result :: "bool \<Rightarrow> (('d, 'a) auth_state_scheme, unit) boot" where
  "boot_set_hash_table_auth_result r = modify (\<lambda>s. s\<lparr>is_elf_hash_table_auth_result := r\<rparr>)"

definition boot_get_hash_table_auth_result :: "(('d, 'a) auth_state_scheme, bool) boot" where
  "boot_get_hash_table_auth_result = gets is_elf_hash_table_auth_result"

definition boot_move_hash_segment_buffer :: "('d, 'p) secure_board_scheme \<Rightarrow> (('d, 'a) auth_state_scheme, unit) boot" where
  "boot_move_hash_segment_buffer E =
     bnd (gets boot_hash_segment_imem_ptr) (\<lambda>p.
       whenb (p = 0)
         (bnd (call (DALSYS_Malloc E 0x6000)) (\<lambda>(status, q).
           thn (modify (\<lambda>s. s\<lparr>boot_hash_segment_imem_ptr := q\<rparr>))
            (thn (bl_verify (status = 0) (bl_err (ucast (ucast status :: u16)) BL_ERROR_GROUP_DAL))
              (modify (\<lambda>s. s\<lparr>boot_hash_segment_ptr := q\<rparr>))))))"

definition boot_restore_hash_segment_buffer :: "('d, 'p) secure_board_scheme \<Rightarrow> (('d, 'a) auth_state_scheme, unit) boot" where
  "boot_restore_hash_segment_buffer E =
     bnd (gets boot_hash_segment_imem_ptr) (\<lambda>p.
       bnd (call (DALSYS_Free E p)) (\<lambda>status.
         thn (bl_verify (status = 0) (bl_err (ucast (ucast status :: u16)) BL_ERROR_GROUP_DAL))
           (modify (\<lambda>s. s\<lparr>boot_hash_segment_imem_ptr := 0, boot_hash_segment_ptr := boot_hash_segment E\<rparr>))))"

subsection \<open>boot\_extern\_sec\_img\_interface.c\<close>

definition fastcall ::
  "('d, 'p) secure_board_scheme \<Rightarrow> u32 \<Rightarrow> u32 \<Rightarrow> u64 list \<Rightarrow> u64 list \<Rightarrow> (('d, 'a) auth_state_scheme, int \<times> u64) boot" where
  "fastcall E cmd param args indirect = (\<lambda>s.
     case fastcall_tz E cmd param args indirect (memory s, drv s) of
       (r, m, d) \<Rightarrow> (Inr r, s\<lparr>memory := m, drv := d\<rparr>))"

text \<open>The status of a call: that of the service when the call itself reports that it failed.\<close>

definition smc_result :: "int \<times> u64 \<Rightarrow> u32" where
  "smc_result r = (case r of (smc_status, reg) \<Rightarrow> if smc_status = SMC_ERR_SYSCALL_FAILED then ucast reg else of_int smc_status)"

definition boot_sec_img_auth_verify_metadata ::
  "('d, 'p) secure_board_scheme \<Rightarrow> u32 \<Rightarrow> u64 \<Rightarrow> u32 \<Rightarrow> u64 \<Rightarrow> u64 \<Rightarrow> (('d, 'a) auth_state_scheme, u32) boot" where
  "boot_sec_img_auth_verify_metadata E sec_img_id sec_img_data area_count area v_info =
     bnd (fastcall E TZ_PIL_SEC_IMG_VERIFY_METADATA_ID 0x21048 [ucast sec_img_id, sec_img_data, 24]
            [ucast area_count, area, 16 * ucast area_count, v_info, of_nat SIZEOF_SEC_IMG_VERIFIED_INFO])
       (\<lambda>r. ret (smc_result r))"

definition boot_sec_img_auth_hash_elf_segments ::
  "('d, 'p) secure_board_scheme \<Rightarrow> u32 \<Rightarrow> u64 \<Rightarrow> (('d, 'a) auth_state_scheme, u32) boot" where
  "boot_sec_img_auth_hash_elf_segments E sec_img_id v_info =
     bnd (fastcall E TZ_PIL_SEC_IMG_HASH_SEGMENTS_ID 0x083
            [ucast sec_img_id, v_info, of_nat SIZEOF_SEC_IMG_VERIFIED_INFO] []) (\<lambda>r. ret (smc_result r))"

definition boot_sec_img_auth_validate_elf ::
  "('d, 'p) secure_board_scheme \<Rightarrow> u8 \<Rightarrow> u64 \<Rightarrow> (('d, 'a) auth_state_scheme, u32) boot" where
  "boot_sec_img_auth_validate_elf E format elf_hdr =
     bnd (fastcall E TZ_PIL_SEC_IMG_VALIDATE_ELF_ID 0x043
            [ucast format, ucast (ucast elf_hdr :: u32), if format = ELF_CLASS_64 then 64 else 52] [])
       (\<lambda>r. ret (smc_result r))"

text \<open>The result register, cut to the 8 bits of a boolean.\<close>

definition boot_sec_img_auth_is_valid_segment ::
  "('d, 'p) secure_board_scheme \<Rightarrow> u8 \<Rightarrow> u64 \<Rightarrow> (('d, 'a) auth_state_scheme, bool) boot" where
  "boot_sec_img_auth_is_valid_segment E format entry =
     bnd (fastcall E TZ_PIL_SEC_IMG_VALID_SEG_ID 0x043
            [ucast format, entry, if format = ELF_CLASS_64 then 56 else 32] [])
       (\<lambda>(smc_status, reg). ret ((ucast reg :: u8) \<noteq> 0))"

definition partial_hash ::
  "('d, 'p) secure_board_scheme \<Rightarrow> u64 \<Rightarrow> u64 \<Rightarrow> u64 \<Rightarrow> u64 \<Rightarrow> u64 \<Rightarrow> u64 \<Rightarrow> (('d, 'a) auth_state_scheme, u32) boot" where
  "partial_hash E step hash_buffer hash_buff_size partial_buff partial_buff_size segment_num =
     bnd (fastcall E TZ_PIL_SEC_IMG_PARTIAL_HASH_ID 0x446 [step, partial_buff, partial_buff_size]
            [hash_buffer, hash_buff_size, segment_num]) (\<lambda>r. ret (smc_result r))"

definition boot_sec_img_auth_partial_hash_init ::
  "('d, 'p) secure_board_scheme \<Rightarrow> u64 \<Rightarrow> u64 \<Rightarrow> u64 \<Rightarrow> u64 \<Rightarrow> u64 \<Rightarrow> (('d, 'a) auth_state_scheme, u32) boot" where
  "boot_sec_img_auth_partial_hash_init E = partial_hash E 1"

definition boot_sec_img_auth_partial_hash_update ::
  "('d, 'p) secure_board_scheme \<Rightarrow> u64 \<Rightarrow> u64 \<Rightarrow> u64 \<Rightarrow> u64 \<Rightarrow> u64 \<Rightarrow> (('d, 'a) auth_state_scheme, u32) boot" where
  "boot_sec_img_auth_partial_hash_update E = partial_hash E 2"

definition boot_sec_img_auth_partial_hash_finalize ::
  "('d, 'p) secure_board_scheme \<Rightarrow> u64 \<Rightarrow> u64 \<Rightarrow> u64 \<Rightarrow> u64 \<Rightarrow> u64 \<Rightarrow> (('d, 'a) auth_state_scheme, u32) boot" where
  "boot_sec_img_auth_partial_hash_finalize E = partial_hash E 3"

text \<open>The flag the caller passes a pointer for is not written.\<close>

definition boot_sec_img_auth_is_auth_enabled :: "(('d, 'a) auth_state_scheme, u32) boot" where
  "boot_sec_img_auth_is_auth_enabled = ret 0"

subsection \<open>boot\_authenticator.c\<close>

definition boot_is_auth_enabled :: "('d, 'p) secure_board_scheme \<Rightarrow> (('d, 'a) auth_state_scheme, u32 \<times> bool) boot" where
  "boot_is_auth_enabled E =
     bnd (fastcall E TZ_SECBOOT_STATUS_CMD 1 [1, 0, 0] []) (\<lambda>(smc_status, reg). ret (0, reg = 1))"

definition zero_image_info :: secboot_image_info where
  "zero_image_info = \<lparr>header_ptr_1 = 0, header_len_1 = 0, code_ptr_1 = 0, code_len_1 = 0, x509_chain_ptr = 0,
     x509_chain_len = 0, signature_ptr = 0, signature_len = 0, sw_type = 0, sw_version = 0\<rparr>"

definition boot_auth_load_header :: "u64 \<Rightarrow> (('d, 'a) auth_state_scheme, unit) boot" where
  "boot_auth_load_header image_header =
     thn (bl_verify (image_header \<noteq> 0) (bl_err BL_ERR_NULL_PTR_PASSED BL_ERROR_GROUP_BOOT))
       (modify (\<lambda>s. s\<lparr>sbl_auth_image_info := zero_image_info\<lparr>header_ptr_1 := image_header,
          header_len_1 := of_nat SIZEOF_MI_HEADER, code_len_1 := load32 (image_header + 20) (memory s),
          x509_chain_len := load32 (image_header + 36) (memory s),
          signature_len := load32 (image_header + 28) (memory s)\<rparr>\<rparr>))"

definition boot_auth_image :: "(('d, 'a) auth_state_scheme, u32) boot" where
  "boot_auth_image = ret BL_ERR_IMG_SECURITY_FAIL"

definition boot_get_sbl_auth_verified_info :: "('d, 'p) secure_board_scheme \<Rightarrow> u64" where
  "boot_get_sbl_auth_verified_info E = sbl_auth_verified_info E"

definition boot_update_auth_image_info :: "u64 \<Rightarrow> (('d, 'a) auth_state_scheme, unit) boot" where
  "boot_update_auth_image_info hash_buffer_base_addr =
     thn (bl_verify (hash_buffer_base_addr \<noteq> 0) (bl_err BL_ERR_NULL_PTR_PASSED BL_ERROR_GROUP_BOOT))
       (modify (\<lambda>s.
          let i = sbl_auth_image_info s;
              code = hash_buffer_base_addr + of_nat SIZEOF_MI_HEADER;
              signature = code + ucast (code_len_1 i)
          in s\<lparr>sbl_auth_image_info := i\<lparr>code_ptr_1 := code, signature_ptr := signature,
               x509_chain_ptr := signature + ucast (signature_len i)\<rparr>\<rparr>))"

definition boot_auth_image_hashtable ::
  "('d, 'p) secure_board_scheme \<Rightarrow> u32 \<Rightarrow> u64 \<Rightarrow> u32 \<Rightarrow> u64 \<Rightarrow> (('d, 'a) auth_state_scheme, u32) boot" where
  "boot_auth_image_hashtable E image_id sbl_elf_info area_count area =
     bnd (boot_sec_img_auth_verify_metadata E image_id sbl_elf_info area_count area (sbl_sec_img_auth_verified_info E)) (\<lambda>r.
       thn (copy_mem (sbl_auth_verified_info E) (sbl_sec_img_auth_verified_info E + 16) SIZEOF_VERIFIED_INFO) (ret r))"

definition boot_auth_compute_verify_hash :: "('d, 'p) secure_board_scheme \<Rightarrow> u32 \<Rightarrow> (('d, 'a) auth_state_scheme, u32) boot" where
  "boot_auth_compute_verify_hash E image_id =
     bnd (boot_sec_img_auth_hash_elf_segments E image_id (sbl_sec_img_auth_verified_info E)) (\<lambda>r.
       thn (copy_mem (sbl_auth_verified_info E) (sbl_sec_img_auth_verified_info E + 16) SIZEOF_VERIFIED_INFO) (ret r))"

text \<open>
  The region the hash log is in, and its next free block: in the internal memory until the
  shared memory is up, then moved there once.
\<close>

definition tpm_region ::
  "('d, 'p) secure_board_scheme \<Rightarrow> u64 \<Rightarrow> u64 \<Rightarrow> (('d, 'a) auth_state_scheme, u64 \<times> u32 \<times> u64) boot" where
  "tpm_region E imem_base block =
     bnd (gets smem_init_done) (\<lambda>smem_up. bnd (gets move_hash_post_smem_init) (\<lambda>moved.
       if \<not> smem_up then ret (imem_base, SHARED_IMEM_TPM_HASH_REGION_SIZE, block)
       else bnd (call (smem_alloc_core_info E SMEM_TPM_HASH_REGION_SIZE)) (\<lambda>base.
         thn (bl_verify (base > 0) (bl_err BL_ERR_NULL_PTR_PASSED BL_ERROR_GROUP_BOOT))
          (if moved then ret (base, SMEM_TPM_HASH_REGION_SIZE, block)
           else
             thn (bl_verify (ucast SMEM_TPM_HASH_REGION_SIZE > block - imem_base)
                    (bl_err BL_ERR_TPM_HASH_BLK_STR_FAIL BL_ERROR_GROUP_BOOT))
              (thn (copy_mem base imem_base (unat (block - imem_base)))
               (thn (bl_verify (base + (block - imem_base) > base)
                       (bl_err BL_ERR_TPM_HASH_BLK_STR_FAIL BL_ERROR_GROUP_BOOT))
                (thn (modify (\<lambda>s. s\<lparr>move_hash_post_smem_init := True\<rparr>))
                  (ret (base, SMEM_TPM_HASH_REGION_SIZE, base + (block - imem_base))))))))))"

definition boot_store_tpm_hash_block ::
  "('d, 'p) secure_board_scheme \<Rightarrow> u64 \<Rightarrow> (('d, 'a) auth_state_scheme, unit) boot" where
  "boot_store_tpm_hash_block E verified_info =
     (let imem_base = SHARED_IMEM_TPM_HASH_REGION_OFFSET + boot_shared_imem_cookie_ptr E;
          fail = bl_err BL_ERR_TPM_HASH_BLK_STR_FAIL BL_ERROR_GROUP_BOOT
      in bnd (gets next_avail_tpm_hash_blk_ptr) (\<lambda>block0.
        thn (bl_verify (imem_base < block0) fail)
         (bnd (tpm_region E imem_base block0) (\<lambda>(base, region_size, block).
           thn (bl_verify (base < base + ucast region_size) fail)
            (thn (bl_verify (block < base + ucast region_size) fail)
             (thn (bl_verify ((ucast (base + ucast region_size - block) :: u16) \<ge> of_nat SIZEOF_IMAGE_HASH_INFO) fail)
              (thn (copy_mem block (verified_info + 24) SIZEOF_IMAGE_HASH_INFO)
                (modify (\<lambda>s. s\<lparr>next_avail_tpm_hash_blk_ptr := block + of_nat SIZEOF_IMAGE_HASH_INFO,
                   memory := store32 base (load32 base (memory s) + 1) (memory s)\<rparr>))))))))) "

subsection \<open>The hash log stays in its region\<close>

text \<open>
  The next free block is in the internal region, or, once the log has moved, in the shared
  memory block at \<open>B\<close>.
\<close>

definition tpm_ok :: "u64 \<Rightarrow> ('d, 'a) auth_state_scheme \<Rightarrow> bool" where
  "tpm_ok B s \<longleftrightarrow> (move_hash_post_smem_init s \<longrightarrow> smem_init_done s \<and>
     unat B \<le> unat (next_avail_tpm_hash_blk_ptr s) \<and> unat (next_avail_tpm_hash_blk_ptr s) \<le> unat B + 1024)"

lemma copy_mem_app [simp]: "copy_mem dst src n s = (Inr (), s\<lparr>memory := qmemcpy dst src (of_nat n) (memory s)\<rparr>)"
  by (simp add: copy_mem_def)

lemma qmemcpy_outside: "\<not> unat (x - dst) < unat n \<Longrightarrow> qmemcpy dst src n m x = m x"
  by (simp add: qmemcpy_def memscpy_def mem_write_outside)

lemma tpm_region_run:
  assumes E: "\<And>d. fst (smem_alloc_core_info E 1024 d) = B" and "unat B + 1024 < 18446744073709551616"
    and ok: "tpm_ok B s" and "I < next_avail_tpm_hash_blk_ptr s"
    and run: "tpm_region E I (next_avail_tpm_hash_blk_ptr s) s = (r, t)"
  shows "next_avail_tpm_hash_blk_ptr t = next_avail_tpm_hash_blk_ptr s"
    and "smem_init_done t = smem_init_done s"
    and "memory t x \<noteq> memory s x \<Longrightarrow> unat (x - B) < 1024"
    and "case r of Inl e \<Rightarrow> move_hash_post_smem_init t = move_hash_post_smem_init s
       | Inr (base, n, block) \<Rightarrow> (base = I \<and> n = 256 \<and> block = next_avail_tpm_hash_blk_ptr s \<and> \<not> smem_init_done s \<and>
           move_hash_post_smem_init t = move_hash_post_smem_init s) \<or>
         (base = B \<and> n = 1024 \<and> unat B \<le> unat block \<and> unat block \<le> unat B + 1024 \<and> smem_init_done s \<and>
           move_hash_post_smem_init t)"
proof -
  let ?b = "next_avail_tpm_hash_blk_ptr s"
  obtain d where d: "smem_alloc_core_info E 1024 (drv s) = (B, d)" using E [of "drv s"] by (metis prod.collapse)
  have sub: "unat (B + (?b - I)) = unat B + unat (?b - I)" "unat (ucast (?b - I) :: u32) = unat (?b - I)"
    if "unat (?b - I) < 1024"
    using that assms(2) by (simp_all add: unat_word_ariths unat_ucast_64_32)
  show "next_avail_tpm_hash_blk_ptr t = ?b" "smem_init_done t = smem_init_done s"
    "memory t x \<noteq> memory s x \<Longrightarrow> unat (x - B) < 1024"
    "case r of Inl e \<Rightarrow> move_hash_post_smem_init t = move_hash_post_smem_init s
       | Inr (base, n, block) \<Rightarrow> (base = I \<and> n = 256 \<and> block = ?b \<and> \<not> smem_init_done s \<and>
           move_hash_post_smem_init t = move_hash_post_smem_init s) \<or>
         (base = B \<and> n = 1024 \<and> unat B \<le> unat block \<and> unat block \<le> unat B + 1024 \<and> smem_init_done s \<and>
           move_hash_post_smem_init t)"
    using run d ok sub
    by (auto simp: tpm_region_def bnd_app thn_app ret_app call_def bl_verify_def fatal_app tpm_ok_def
        word_less_nat_alt qmemcpy_def memscpy_def mem_write_def split: if_splits)
qed


lemma tpm_block_fits:
  fixes base block :: u64 and n :: u32
  assumes "unat base + unat n < 18446744073709551616" and "unat n \<le> 1024" and "unat base \<le> unat block"
    and "block < base + ucast n" and "(ucast (base + ucast n - block) :: u16) \<ge> of_nat 64"
  shows "unat block + 64 \<le> unat base + unat n"
proof -
  have e: "unat (base + ucast n) = unat base + unat n" using assms(1) by (simp add: unat_word_ariths)
  have "unat (base + ucast n - block) = unat base + unat n - unat block"
    using assms(4) e by (simp add: unat_sub word_le_nat_alt word_less_nat_alt)
  moreover have "64 \<le> unat (ucast (base + ucast n - block) :: u16)"
    using assms(5) by (simp add: word_le_nat_alt)
  ultimately show ?thesis using assms(2,3) by (simp add: unsigned_ucast_eq take_bit_eq_mod)
qed

lemma range_from_base:
  fixes x base block :: u64
  assumes "unat base \<le> unat block" and "unat block + k \<le> unat base + n" and "unat base + n < 18446744073709551616"
    and "unat (x - block) < k"
  shows "unat (x - base) < n"
proof -
  obtain i where i: "i < k" "x = block + of_nat i"
    using assms in_range_offset [of k x block] by auto
  have "block - base = of_nat (unat block - unat base)"
    using assms(1) word_unat_eq_iff [of "block - base"] by (simp add: unat_sub word_le_nat_alt)
  then have "x - base = of_nat (unat block - unat base + i)" using i(2) by simp
  then have "unat (x - base) = unat block - unat base + i"
    using assms i(1) by (simp only: unat_of_nat64)
  then show ?thesis using assms(1,2) i(1) by linarith
qed

lemma tpm_write_outside:
  fixes base block :: u64
  assumes "unat base \<le> unat block" and "unat block + 64 \<le> unat base + n" and "unat base + n < 18446744073709551616"
    and "4 \<le> n" and "\<not> unat (x - base) < n"
  shows "store32 base w (qmemcpy block v 64 m) x = m x"
proof -
  have "\<not> unat (x - block) < unat (64 :: u32)" using range_from_base [of base block 64 n x] assms by auto
  then have "qmemcpy block v 64 m x = m x" by (rule qmemcpy_outside)
  then show ?thesis using assms(4,5) by (simp add: store32_def mem_write_outside)
qed



subsection \<open>A concrete state\<close>

definition example_secure_board :: "(nat \<Rightarrow> u8) secure_board" where
  "example_secure_board = board.extend example_board
     \<lparr>fastcall_tz = (\<lambda>_ _ _ _ md. ((0, 1), md)), DALSYS_Malloc = (\<lambda>_ d. ((0, 0x50000), d)), DALSYS_Free = (\<lambda>_ d. (0, d)),
      smem_alloc_core_info = (\<lambda>_ d. (0x90000, d)), boot_shared_imem_cookie_ptr = 0x40000, boot_hash_segment = 0x60000,
      sbl_sec_img_auth_verified_info = 0x70000, sbl_auth_verified_info = 0x71000\<rparr>"

definition example_auth :: "(nat \<Rightarrow> u8) auth_state" where
  "example_auth = flash_state.extend example_flash
     \<lparr>is_elf_hash_table_auth_result = False, boot_hash_segment_ptr = 0x60000, boot_hash_segment_imem_ptr = 0,
      sbl_auth_image_info = zero_image_info, next_avail_tpm_hash_blk_ptr = 0x40838, move_hash_post_smem_init = False,
      smem_init_done = True\<rparr>"


end
