(* ===== verification/Boot_Hash.thy ===== *)
theory Boot_Hash
  imports Secure_Img
begin

text \<open>
  Hashing (boot\_hash.c) through the wrappers of boot\_extern\_crypto\_interface.c. The
  cryptographic engine is a parameter with handles; a digest comes back in a buffer on the
  stack. The contract states what the engine's documentation does: a handle accumulates the
  bytes it is updated with, and finishing it yields the digest of all of them.
\<close>

datatype hash_alg = SBL_HASH_UNDEFINED_HASH_CODE | SBL_HASH_SHA1 | SBL_HASH_SHA256 | SBL_HASH_UNSUPPORTED_HASH_CODE

datatype ceml_hash_algo = CEML_HASH_ALGO_SHA1 | CEML_HASH_ALGO_SHA224 | CEML_HASH_ALGO_SHA256
  | CEML_HASH_ALGO_SHA384 | CEML_HASH_ALGO_SHA512 | CEML_HASH_ALGO_INVALID

abbreviation (input) "PBL_SHA1_HASH_LEN \<equiv> (20 :: u32)"
abbreviation (input) "PBL_SHA256_HASH_LEN \<equiv> (32 :: u32)"
abbreviation (input) "CEML_ERROR_SUCCESS \<equiv> (0 :: u32)"
abbreviation (input) "CEML_ERROR_INVALID_PARAM \<equiv> (2 :: u32)"
abbreviation (input) "CEML_HASH_NONBLOCK_MODE \<equiv> (3 :: u32)"

record 'd crypto_board = "'d secure_board" +
  CeMLInit :: "'d \<Rightarrow> u32 \<times> 'd"
  CeMLHashInit :: "ceml_hash_algo \<Rightarrow> 'd \<Rightarrow> (u32 \<times> u64) \<times> 'd"
  CeMLHashSetParam :: "u64 \<Rightarrow> u32 \<Rightarrow> bytes \<Rightarrow> ceml_hash_algo \<Rightarrow> 'd \<Rightarrow> u32 \<times> 'd"
  CeMLHashUpdate :: "u64 \<Rightarrow> bytes \<Rightarrow> 'd \<Rightarrow> u32 \<times> 'd"
  CeMLHashFinal :: "u64 \<Rightarrow> 'd \<Rightarrow> (u32 \<times> bytes) \<times> 'd"
  CeMLHashDeInit :: "u64 \<Rightarrow> 'd \<Rightarrow> u32 \<times> 'd"
  CeMLDeInit :: "'d \<Rightarrow> u32 \<times> 'd"

record 'd hash_state = "'d auth_state" +
  sbl_hash_algorithm :: hash_alg
  sbl_hash_len :: u32
  non_block_mode :: u8

record boot_hash_ctx =
  ctx_alg :: ceml_hash_algo
  ctx :: u64

subsection \<open>boot\_extern\_crypto\_interface.c\<close>

definition boot_CeMLInit :: "('d, 'p) crypto_board_scheme \<Rightarrow> (('d, 'a) hash_state_scheme, u32) boot" where
  "boot_CeMLInit E = call (CeMLInit E)"

definition boot_CeMLHashInit ::
  "('d, 'p) crypto_board_scheme \<Rightarrow> ceml_hash_algo \<Rightarrow> (('d, 'a) hash_state_scheme, u32 \<times> u64) boot" where
  "boot_CeMLHashInit E pAlgo = call (CeMLHashInit E pAlgo)"

definition boot_CeMLHashUpdate ::
  "('d, 'p) crypto_board_scheme \<Rightarrow> u64 \<Rightarrow> u64 \<Rightarrow> u32 \<Rightarrow> (('d, 'a) hash_state_scheme, u32) boot" where
  "boot_CeMLHashUpdate E h data len =
     bnd (gets (\<lambda>s. mem_read data (unat len) (memory s))) (\<lambda>bs. call (CeMLHashUpdate E h bs))"

definition boot_CeMLHashFinal ::
  "('d, 'p) crypto_board_scheme \<Rightarrow> u64 \<Rightarrow> (('d, 'a) hash_state_scheme, u32 \<times> bytes) boot" where
  "boot_CeMLHashFinal E h = call (CeMLHashFinal E h)"

definition boot_CeMLHashDeInit :: "('d, 'p) crypto_board_scheme \<Rightarrow> u64 \<Rightarrow> (('d, 'a) hash_state_scheme, u32) boot" where
  "boot_CeMLHashDeInit E h = call (CeMLHashDeInit E h)"

definition boot_CeMLDeInit :: "('d, 'p) crypto_board_scheme \<Rightarrow> (('d, 'a) hash_state_scheme, u32) boot" where
  "boot_CeMLDeInit E = call (CeMLDeInit E)"

definition boot_CeMLHashSetParam ::
  "('d, 'p) crypto_board_scheme \<Rightarrow> u64 \<Rightarrow> u32 \<Rightarrow> bytes \<Rightarrow> ceml_hash_algo \<Rightarrow> (('d, 'a) hash_state_scheme, u32) boot" where
  "boot_CeMLHashSetParam E h nParamID param pAlgo = call (CeMLHashSetParam E h nParamID param pAlgo)"

subsection \<open>boot\_hash.c\<close>

text \<open>The length of the digest, \<open>None\<close> when the buffer is too short for it or the algorithm unknown.\<close>

definition boot_check_digest_len :: "ceml_hash_algo \<Rightarrow> u32 \<Rightarrow> u32 option" where
  "boot_check_digest_len alg digest_len =
     (if alg = CEML_HASH_ALGO_SHA1 \<and> digest_len < PBL_SHA1_HASH_LEN then None
      else if alg = CEML_HASH_ALGO_SHA256 \<and> digest_len < PBL_SHA256_HASH_LEN then None
      else if alg \<noteq> CEML_HASH_ALGO_SHA1 \<and> alg \<noteq> CEML_HASH_ALGO_SHA256 then None
      else Some (if alg = CEML_HASH_ALGO_SHA1 then PBL_SHA1_HASH_LEN else PBL_SHA256_HASH_LEN))"

definition boot_map_hash_enum :: "hash_alg \<Rightarrow> (('d, 'a) hash_state_scheme, ceml_hash_algo option) boot" where
  "boot_map_hash_enum alg =
     (if alg = SBL_HASH_SHA1 then
        thn (modify (\<lambda>s. s\<lparr>sbl_hash_len := PBL_SHA1_HASH_LEN\<rparr>)) (ret (Some CEML_HASH_ALGO_SHA1))
      else if alg = SBL_HASH_SHA256 then
        thn (modify (\<lambda>s. s\<lparr>sbl_hash_len := PBL_SHA256_HASH_LEN\<rparr>)) (ret (Some CEML_HASH_ALGO_SHA256))
      else ret None)"

text \<open>The context, \<open>Inl\<close> the status when it could not be set up.\<close>

definition boot_hashInit ::
  "('d, 'p) crypto_board_scheme \<Rightarrow> hash_alg \<Rightarrow> (('d, 'a) hash_state_scheme, u32 + boot_hash_ctx) boot" where
  "boot_hashInit E ht =
     bnd (boot_map_hash_enum ht) (\<lambda>alg2. case alg2 of
       None \<Rightarrow> ret (Inl CEML_ERROR_INVALID_PARAM)
     | Some alg \<Rightarrow>
         bnd (boot_CeMLInit E) (\<lambda>r.
           if r \<noteq> CEML_ERROR_SUCCESS then ret (Inl r)
           else bnd (boot_CeMLHashInit E alg) (\<lambda>(r, h).
             if r \<noteq> CEML_ERROR_SUCCESS then ret (Inl r)
             else bnd (gets non_block_mode) (\<lambda>m.
               bnd (boot_CeMLHashSetParam E h CEML_HASH_NONBLOCK_MODE [m] alg) (\<lambda>r.
                 if r \<noteq> CEML_ERROR_SUCCESS then ret (Inl r)
                 else ret (Inr \<lparr>ctx_alg = alg, ctx = h\<rparr>))))))"

definition boot_hashUpdate ::
  "('d, 'p) crypto_board_scheme \<Rightarrow> boot_hash_ctx \<Rightarrow> u64 \<Rightarrow> u32 \<Rightarrow> (('d, 'a) hash_state_scheme, u32) boot" where
  "boot_hashUpdate E hash_ctx data len = boot_CeMLHashUpdate E (ctx hash_ctx) data len"

definition boot_hashFinal ::
  "('d, 'p) crypto_board_scheme \<Rightarrow> boot_hash_ctx \<Rightarrow> u64 \<Rightarrow> u32 \<Rightarrow> (('d, 'a) hash_state_scheme, u32) boot" where
  "boot_hashFinal E hash_ctx digest_ptr digest_buf_len =
     (if digest_ptr = 0 then ret BL_ERR_NULL_PTR_PASSED
      else case boot_check_digest_len (ctx_alg hash_ctx) digest_buf_len of
        None \<Rightarrow> fatal (bl_err BL_ERR_IMG_SECURITY_FAIL BL_ERROR_GROUP_BOOT)
      | Some n \<Rightarrow>
          bnd (boot_CeMLHashFinal E (ctx hash_ctx)) (\<lambda>(r, buf).
            if r \<noteq> CEML_ERROR_SUCCESS then ret r
            else thn (modify (memory_update (mem_write digest_ptr (take (unat n) buf))))
              (thn (boot_CeMLHashDeInit E (ctx hash_ctx)) (boot_CeMLDeInit E))))"

definition boot_hash ::
  "('d, 'p) crypto_board_scheme \<Rightarrow> hash_alg \<Rightarrow> u64 \<Rightarrow> u32 \<Rightarrow> u64 \<Rightarrow> u32 \<Rightarrow> (('d, 'a) hash_state_scheme, u32) boot" where
  "boot_hash E alg data data_len digest_ptr digest_buf_len =
     bnd (boot_hashInit E alg) (\<lambda>x. case x of
       Inl status \<Rightarrow> ret status
     | Inr c \<Rightarrow>
         bnd (boot_hashUpdate E c data data_len) (\<lambda>status.
           if status \<noteq> BL_ERR_NONE then ret status
           else boot_hashFinal E c digest_ptr digest_buf_len))"

definition boot_set_hash_algo :: "hash_alg \<Rightarrow> (('d, 'a) hash_state_scheme, u32) boot" where
  "boot_set_hash_algo hash_algo =
     (if hash_algo = SBL_HASH_SHA1 then
        thn (modify (\<lambda>s. s\<lparr>sbl_hash_algorithm := hash_algo, sbl_hash_len := PBL_SHA1_HASH_LEN\<rparr>)) (ret BL_ERR_NONE)
      else if hash_algo = SBL_HASH_SHA256 then
        thn (modify (\<lambda>s. s\<lparr>sbl_hash_algorithm := hash_algo, sbl_hash_len := PBL_SHA256_HASH_LEN\<rparr>)) (ret BL_ERR_NONE)
      else ret BL_ERR_UNSUPPORTED_HASH_ALGO)"

definition boot_set_hash_update_mode :: "u32 \<Rightarrow> (('d, 'a) hash_state_scheme, unit) boot" where
  "boot_set_hash_update_mode hash_update_mode = modify (\<lambda>s. s\<lparr>non_block_mode := ucast hash_update_mode\<rparr>)"

subsection \<open>The contract of the engine\<close>

definition ceml_alg :: "hash_alg \<Rightarrow> ceml_hash_algo" where
  "ceml_alg alg = (if alg = SBL_HASH_SHA1 then CEML_HASH_ALGO_SHA1 else CEML_HASH_ALGO_SHA256)"

definition digest_len :: "ceml_hash_algo \<Rightarrow> nat" where
  "digest_len alg = (if alg = CEML_HASH_ALGO_SHA1 then 20 else 32)"

text \<open>
  \<open>msg d h\<close> is what handle \<open>h\<close> has been given in engine state \<open>d\<close>, and \<open>H\<close> the digest function.
\<close>

definition engine_ok ::
  "('d, 'p) crypto_board_scheme \<Rightarrow> (ceml_hash_algo \<Rightarrow> bytes \<Rightarrow> bytes) \<Rightarrow>
   ('d \<Rightarrow> u64 \<Rightarrow> (ceml_hash_algo \<times> bytes) option) \<Rightarrow> bool" where
  "engine_ok E H msg \<longleftrightarrow>
     (\<forall>alg d h d'. CeMLHashInit E alg d = ((0, h), d') \<longrightarrow> msg d' h = Some (alg, [])) \<and>
     (\<forall>h p v alg d d'. CeMLHashSetParam E h p v alg d = (0, d') \<longrightarrow> msg d' h = msg d h) \<and>
     (\<forall>h bs d d' alg m. CeMLHashUpdate E h bs d = (0, d') \<longrightarrow> msg d h = Some (alg, m) \<longrightarrow> msg d' h = Some (alg, m @ bs)) \<and>
     (\<forall>h d out d' alg m. CeMLHashFinal E h d = ((0, out), d') \<longrightarrow> msg d h = Some (alg, m) \<longrightarrow>
        digest_len alg \<le> length out \<and> take (digest_len alg) out = H alg m)"

lemma boot_hashInit_run:
  assumes "engine_ok E H msg" and "boot_hashInit E alg s = (r, t)"
  obtains st where "r = Inr (Inl st)" and "memory t = memory s" and "st \<noteq> 0"
  | c where "r = Inr (Inr c)" and "memory t = memory s" and "ctx_alg c = ceml_alg alg"
      and "alg = SBL_HASH_SHA1 \<or> alg = SBL_HASH_SHA256" and "msg (drv t) (ctx c) = Some (ceml_alg alg, [])"
  using assms
  by (auto simp: boot_hashInit_def boot_map_hash_enum_def boot_CeMLInit_def boot_CeMLHashInit_def
      boot_CeMLHashSetParam_def engine_ok_def ceml_alg_def bnd_app thn_app ret_app call_def
      split: if_splits prod.splits sum.splits option.splits)

lemma boot_hashFinal_run:
  assumes "engine_ok E H msg" and "msg (drv s) (ctx c) = Some (ctx_alg c, m)"
    and "ctx_alg c = ceml_alg alg" and "boot_hashFinal E c digest len s = (r, t)"
  shows "r = Inl (bl_err BL_ERR_IMG_SECURITY_FAIL BL_ERROR_GROUP_BOOT) \<and> memory t = memory s \<and> unat len < digest_len (ctx_alg c) \<or>
    (\<exists>st. r = Inr st \<and> st \<noteq> 0 \<and> memory t = memory s) \<or>
    (\<exists>st. r = Inr st \<and> memory t = mem_write digest (H (ctx_alg c) m) (memory s))"
proof -
  have fin: "take (digest_len (ctx_alg c)) out = H (ctx_alg c) m" if "CeMLHashFinal E (ctx c) (drv s) = ((0, out), d)" for out d
    using assms(1,2) that unfolding engine_ok_def by blast
  have "r = Inl (bl_err BL_ERR_IMG_SECURITY_FAIL BL_ERROR_GROUP_BOOT) \<and> memory t = memory s \<and> unat len < digest_len (ctx_alg c) \<or>
    (\<exists>st. r = Inr st \<and> st \<noteq> 0 \<and> memory t = memory s) \<or>
    (\<exists>st out d. r = Inr st \<and> CeMLHashFinal E (ctx c) (drv s) = ((0, out), d) \<and>
       memory t = mem_write digest (take (digest_len (ctx_alg c)) out) (memory s))"
    using assms(3,4)
    by (auto simp: boot_hashFinal_def boot_check_digest_len_def boot_CeMLHashFinal_def boot_CeMLHashDeInit_def
        boot_CeMLDeInit_def ceml_alg_def digest_len_def bnd_app thn_app ret_app fatal_app call_def word_less_nat_alt
        split: if_splits prod.splits sum.splits option.splits)
  then show ?thesis using fin by metis
qed


subsection \<open>A concrete engine\<close>

text \<open>An engine with one handle, whose digest is the message cut or filled to the length.\<close>

definition toy_digest :: "ceml_hash_algo \<Rightarrow> bytes \<Rightarrow> bytes" where
  "toy_digest alg m = take (digest_len alg) (m @ replicate 32 0)"

type_synonym engine = "(ceml_hash_algo \<times> bytes) option"

definition example_crypto :: "engine secure_board \<Rightarrow> engine crypto_board" where
  "example_crypto B = secure_board.extend B
     \<lparr>CeMLInit = (\<lambda>d. (0, d)), CeMLHashInit = (\<lambda>a d. ((0, 1), Some (a, []))), CeMLHashSetParam = (\<lambda>h p v a d. (0, d)),
      CeMLHashUpdate = (\<lambda>h bs d. (0, map_option (\<lambda>(a, m). (a, m @ bs)) d)),
      CeMLHashFinal = (\<lambda>h d. ((0, case d of None \<Rightarrow> [] | Some (a, m) \<Rightarrow> toy_digest a m), d)),
      CeMLHashDeInit = (\<lambda>h d. (0, d)), CeMLDeInit = (\<lambda>d. (0, d))\<rparr>"

lemma example_engine_ok: "engine_ok (example_crypto B) toy_digest (\<lambda>d h. d)"
  by (auto simp: engine_ok_def example_crypto_def secure_board.defs toy_digest_def digest_len_def)

lemma example_hash_returns: "fst (boot_hash (example_crypto B) SBL_HASH_SHA1 0x1000 3 0x2000 20 s) = Inr 0"
  by (simp add: boot_hash_def boot_hashInit_def boot_map_hash_enum_def boot_CeMLInit_def boot_CeMLHashInit_def
      boot_CeMLHashSetParam_def boot_hashUpdate_def boot_CeMLHashUpdate_def boot_hashFinal_def boot_check_digest_len_def
      boot_CeMLHashFinal_def boot_CeMLHashDeInit_def boot_CeMLDeInit_def bnd_app thn_app ret_app call_def
      example_crypto_def secure_board.defs)


end
