(* ===== verification/Elf_Loader.thy ===== *)
theory Elf_Loader
  imports Boot_Hash
begin

text \<open>
  The ELF loader (boot\_elf\_loader.c): it reads the headers of an image through the flash
  layer, has them validated by the secure monitor, and loads the segments to the addresses
  the image asks for, behind the whitelists. The static headers are objects in memory at
  addresses the linker fixes, so that what the image or the monitor puts there is what the
  loader reads back. This build has no relay message buffer, so the functions of
  boot\_rmb.h are its empty ones, and it skips the hash check of segments unless
  authentication is on. An index behind the static program header array is undefined
  behaviour; cache maintenance and the log have no effect.
\<close>

abbreviation (input) "MI_PBT_MAX_SEGMENTS \<equiv> (40 :: nat)"
abbreviation (input) "MAX_CHUNK_SIZE \<equiv> (0x100000 :: u32)"
abbreviation (input) "MAX_IMG_BUFFERS \<equiv> (15 :: nat)"
abbreviation (input) "SIZEOF_ELF64_EHDR \<equiv> (64 :: u32)"
abbreviation (input) "SIZEOF_ELF32_EHDR \<equiv> (52 :: u32)"
abbreviation (input) "SIZEOF_ELF64_PHDR \<equiv> (56 :: u32)"
abbreviation (input) "SIZEOF_ELF32_PHDR \<equiv> (32 :: u32)"
abbreviation (input) "MI_PBT_ELF_PT_LOAD \<equiv> (1 :: u32)"
abbreviation (input) "MI_PBT_NON_PAGED_SEGMENT \<equiv> (0 :: u32)"
abbreviation (input) "MI_PBT_PAGED_SEGMENT \<equiv> (1 :: u32)"
abbreviation (input) "MI_PBT_NOTUSED_SEGMENT \<equiv> (3 :: u32)"
abbreviation (input) "MI_PBT_SHARED_SEGMENT \<equiv> (4 :: u32)"
abbreviation (input) "MI_PBT_HASH_SEGMENT \<equiv> (2 :: u32)"
abbreviation (input) "MI_PBT_PHDR_SEGMENT \<equiv> (7 :: u32)"
abbreviation (input) "MAX_ADDRESS \<equiv> (0xFFFFFFFFFFFFFFFF :: u64)"
abbreviation (input) "SEC_IMG_AUTH_SUCCESS \<equiv> (0 :: u32)"
abbreviation (input) "SEC_IMG_AUTH_MI_BOOT_INVALID_SIZE \<equiv> (0x111 :: u32)"
abbreviation (input) "SEC_IMG_AUTH_ELF_INVALID_CLASS \<equiv> (0x113 :: u32)"

record 'd loader_board = "'d crypto_board" +
  ehdr_32 :: u64
  ehdr :: u64
  phdr_array_32 :: u64
  phdr_array :: u64
  verify_digest_buf :: u64

record 'd loader_state = "'d hash_state" +
  elf_format :: u8
  ehdr_ptr :: u64
  phdr_array_ptr :: u64
  ehdr_size :: u32
  phdr_size :: u32
  phdr_num :: u16
  trans_if :: cptr
  hash_segment_start :: u64
  elf_ssa_enabled :: bool
  elf_cfg_table_auth :: bool
  hash_segment_base_addr :: u64
  hash_segment_length :: u32
  total_elf_segments_size :: u32
  boot_elf_is_ehdr_phdr_hash_success :: bool
  hash_segment_base_ptr :: u64
  sbl_white_list_area :: "(u64 \<times> u64) list"

subsection \<open>Headers in memory\<close>

text \<open>The fields of both formats; those of the 32-bit one are extended as the loader reads them.\<close>

record elf_ehdr =
  e_ident :: bytes
  e_entry :: u64
  e_phoff :: u64
  e_ehsize :: u16
  e_phentsize :: u16
  e_phnum :: u16

record elf_phdr =
  p_type :: u32
  p_flags :: u32
  p_offset :: u64
  p_vaddr :: u64
  p_paddr :: u64
  p_filesz :: u64
  p_memsz :: u64

definition load16 :: "u64 \<Rightarrow> mem \<Rightarrow> u16" where
  "load16 a m = of_nat (le_nat (mem_read a 2 m))"

definition elf64_ehdr_at :: "u64 \<Rightarrow> mem \<Rightarrow> elf_ehdr" where
  "elf64_ehdr_at p m = \<lparr>e_ident = mem_read p 16 m, e_entry = load64 (p + 24) m, e_phoff = load64 (p + 32) m,
     e_ehsize = load16 (p + 52) m, e_phentsize = load16 (p + 54) m, e_phnum = load16 (p + 56) m\<rparr>"

definition elf32_ehdr_at :: "u64 \<Rightarrow> mem \<Rightarrow> elf_ehdr" where
  "elf32_ehdr_at p m = \<lparr>e_ident = mem_read p 16 m, e_entry = ucast (load32 (p + 24) m), e_phoff = ucast (load32 (p + 28) m),
     e_ehsize = load16 (p + 40) m, e_phentsize = load16 (p + 42) m, e_phnum = load16 (p + 44) m\<rparr>"

definition elf64_phdr_at :: "u64 \<Rightarrow> mem \<Rightarrow> elf_phdr" where
  "elf64_phdr_at p m = \<lparr>p_type = load32 p m, p_flags = load32 (p + 4) m, p_offset = load64 (p + 8) m,
     p_vaddr = load64 (p + 16) m, p_paddr = load64 (p + 24) m, p_filesz = load64 (p + 32) m, p_memsz = load64 (p + 40) m\<rparr>"

definition elf32_phdr_at :: "u64 \<Rightarrow> mem \<Rightarrow> elf_phdr" where
  "elf32_phdr_at p m = \<lparr>p_type = load32 p m, p_flags = load32 (p + 24) m, p_offset = ucast (load32 (p + 4) m),
     p_vaddr = ucast (load32 (p + 8) m), p_paddr = ucast (load32 (p + 12) m), p_filesz = ucast (load32 (p + 16) m),
     p_memsz = ucast (load32 (p + 20) m)\<rparr>"

definition ehdr_at :: "u8 \<Rightarrow> u64 \<Rightarrow> mem \<Rightarrow> elf_ehdr" where
  "ehdr_at fmt = (if fmt = ELF_CLASS_64 then elf64_ehdr_at else elf32_ehdr_at)"

definition phdr_at :: "u8 \<Rightarrow> u64 \<Rightarrow> mem \<Rightarrow> elf_phdr" where
  "phdr_at fmt = (if fmt = ELF_CLASS_64 then elf64_phdr_at else elf32_phdr_at)"

definition MI_PBT_PAGE_MODE_VALUE :: "u32 \<Rightarrow> u32" where
  "MI_PBT_PAGE_MODE_VALUE x = drop_bit 20 (x AND 0x100000)"

definition MI_PBT_ACCESS_TYPE_VALUE :: "u32 \<Rightarrow> u32" where
  "MI_PBT_ACCESS_TYPE_VALUE x = drop_bit 21 (x AND 0xE00000)"

definition MI_PBT_SEGMENT_TYPE_VALUE :: "u32 \<Rightarrow> u32" where
  "MI_PBT_SEGMENT_TYPE_VALUE x = drop_bit 24 (x AND 0x7000000)"

text \<open>Entry \<open>i\<close> of the program header array in use, with its address.\<close>

definition phdr_entry :: "('d, 'p) loader_board_scheme \<Rightarrow> u8 \<Rightarrow> nat \<Rightarrow> u64" where
  "phdr_entry E fmt i = (if fmt = ELF_CLASS_64 then phdr_array E + ucast SIZEOF_ELF64_PHDR * of_nat i
     else phdr_array_32 E + ucast SIZEOF_ELF32_PHDR * of_nat i)"

definition with_phdr ::
  "('d, 'p) loader_board_scheme \<Rightarrow> nat \<Rightarrow> (u64 \<Rightarrow> elf_phdr \<Rightarrow> (('d, 'a) loader_state_scheme, 'r) boot) \<Rightarrow>
   (('d, 'a) loader_state_scheme, 'r) boot" where
  "with_phdr E i f =
     (if i \<ge> MI_PBT_MAX_SEGMENTS then fatal Undefined_behaviour
      else bnd (gets (\<lambda>s. (phdr_entry E (elf_format s) i, phdr_at (elf_format s) (phdr_entry E (elf_format s) i) (memory s))))
             (\<lambda>(p, h). f p h))"

definition mem_fill :: "u64 \<Rightarrow> u32 \<Rightarrow> (('d, 'a) loader_state_scheme, unit) boot" where
  "mem_fill p n = modify (memory_update (qmemset p 0 n))"

subsection \<open>boot\_rmb.h without the relay message buffer\<close>

definition boot_rmb_get_meta_info_buffer :: "(('d, 'a) loader_state_scheme, u64) boot" where
  "boot_rmb_get_meta_info_buffer = ret 0"

definition boot_rmb_populate_meta_info :: "(('d, 'a) loader_state_scheme, unit) boot" where
  "boot_rmb_populate_meta_info = ret ()"

definition boot_rmb_set_pmi_code_start_addr :: "u32 \<Rightarrow> (('d, 'a) loader_state_scheme, unit) boot" where
  "boot_rmb_set_pmi_code_start_addr pmi_code_start_addr = ret ()"

definition boot_rmb_set_pmi_code_length :: "u32 \<Rightarrow> (('d, 'a) loader_state_scheme, unit) boot" where
  "boot_rmb_set_pmi_code_length pmi_code_length = ret ()"

definition boot_rmb_set_pmi_elf_load_ready :: "(('d, 'a) loader_state_scheme, unit) boot" where
  "boot_rmb_set_pmi_elf_load_ready = ret ()"

subsection \<open>Headers and flags\<close>

text \<open>
  The table of the memory ranges for the secure monitor, from the configured whitelist; the
  loop stops at a size of zero or before the last area.
\<close>

fun populate_areas_loop ::
  "whitelst_tbl_entry list \<Rightarrow> nat \<Rightarrow> (('d, 'a) loader_state_scheme, u64 \<times> nat) boot" where
  "populate_areas_loop [] index = fatal Undefined_behaviour"
| "populate_areas_loop (e # es) index =
     (if entry_size e \<noteq> 0 \<and> index < MAX_IMG_BUFFERS - 1 then
        thn (modify (\<lambda>s. s\<lparr>sbl_white_list_area := (sbl_white_list_area s)[index := (start_addr e, start_addr e + entry_size e)]\<rparr>))
          (populate_areas_loop es (index + 1))
      else ret (start_addr e, index))"

text \<open>The status, the number of areas, and the pointers of the information once they are set.\<close>

definition boot_populate_sbl_info ::
  "('d, 'p) loader_board_scheme \<Rightarrow> whitelst_tbl_entry list option \<Rightarrow>
   (('d, 'a) loader_state_scheme, u32 \<times> nat \<times> (u64 \<times> u64 \<times> u64) option) boot" where
  "boot_populate_sbl_info E config_entry_whitelist_table =
     thn (modify (\<lambda>s. s\<lparr>sbl_white_list_area := (sbl_white_list_area s)[0 := (0, MAX_ADDRESS)]\<rparr>))
      (bnd (case config_entry_whitelist_table of
              None \<Rightarrow> ret (Some 1)
            | Some tbl \<Rightarrow> bnd (populate_areas_loop tbl 0) (\<lambda>(a, index). ret (if a \<noteq> 0 then None else Some index))) (\<lambda>n.
        case n of None \<Rightarrow> ret (SEC_IMG_AUTH_MI_BOOT_INVALID_SIZE, 1, None)
        | Some count \<Rightarrow>
          bnd (gets elf_format) (\<lambda>fmt. bnd boot_get_hash_segment_buffer (\<lambda>hash.
            if fmt = ELF_CLASS_32 then ret (SEC_IMG_AUTH_SUCCESS, count, Some (ehdr_32 E, phdr_array_32 E, hash))
            else if fmt = ELF_CLASS_64 then ret (SEC_IMG_AUTH_SUCCESS, count, Some (ehdr E, phdr_array E, hash))
            else ret (SEC_IMG_AUTH_ELF_INVALID_CLASS, count, None)))))"

definition elf_ident_ok :: "u8 \<Rightarrow> elf_ehdr \<Rightarrow> bool" where
  "elf_ident_ok cls h \<longleftrightarrow> e_ident h ! 0 = 0x7f \<and> e_ident h ! 1 = 0x45 \<and> e_ident h ! 2 = 0x4C \<and> e_ident h ! 3 = 0x46 \<and>
     e_ident h ! 4 = cls \<and> e_ident h ! 6 = 1 \<and> e_phnum h \<noteq> 0 \<and> e_phnum h \<le> of_nat MI_PBT_MAX_SEGMENTS"

definition boot_elf_verify_header :: "('d, 'p) loader_board_scheme \<Rightarrow> (('d, 'a) loader_state_scheme, bool) boot" where
  "boot_elf_verify_header E =
     bnd (gets elf_format) (\<lambda>fmt.
       if fmt = ELF_CLASS_32 then
         gets (\<lambda>s. let h = elf32_ehdr_at (ehdr_32 E) (memory s)
                   in elf_ident_ok ELF_CLASS_32 h \<and> e_ehsize h = ucast SIZEOF_ELF32_EHDR \<and> e_phentsize h = ucast SIZEOF_ELF32_PHDR)
       else if fmt = ELF_CLASS_64 then
         gets (\<lambda>s. let h = elf64_ehdr_at (ehdr E) (memory s)
                   in elf_ident_ok ELF_CLASS_64 h \<and> e_ehsize h = ucast SIZEOF_ELF64_EHDR \<and> e_phentsize h = ucast SIZEOF_ELF64_PHDR)
       else ret False)"

definition boot_elf_phdr_is_loadable :: "u64 \<Rightarrow> (('d, 'a) loader_state_scheme, bool) boot" where
  "boot_elf_phdr_is_loadable phdr =
     thn (bl_verify (phdr \<noteq> 0) (bl_err BL_ERR_NULL_PTR_PASSED BL_ERROR_GROUP_BOOT))
       (gets (\<lambda>s. let h = phdr_at (elf_format s) phdr (memory s)
          in p_type h = MI_PBT_ELF_PT_LOAD \<and>
             MI_PBT_PAGE_MODE_VALUE (p_flags h) = MI_PBT_NON_PAGED_SEGMENT \<and>
             MI_PBT_ACCESS_TYPE_VALUE (p_flags h) \<noteq> MI_PBT_NOTUSED_SEGMENT \<and>
             MI_PBT_SEGMENT_TYPE_VALUE (p_flags h) \<noteq> MI_PBT_HASH_SEGMENT \<and>
             MI_PBT_ACCESS_TYPE_VALUE (p_flags h) \<noteq> MI_PBT_SHARED_SEGMENT))"

text \<open>The authentication flag, after the check of the status of the call that reads it.\<close>

definition auth_flag :: "('d, 'p) loader_board_scheme \<Rightarrow> (('d, 'a) loader_state_scheme, bool) boot" where
  "auth_flag E =
     bnd (boot_is_auth_enabled E) (\<lambda>(status, is_auth_enabled).
       thn (bl_verify (status = 0) (bl_err (ucast (ucast status :: u16)) BL_ERROR_GROUP_SECURITY)) (ret is_auth_enabled))"

definition boot_elf_enable_hash_checking :: "('d, 'p) loader_board_scheme \<Rightarrow> (('d, 'a) loader_state_scheme, bool) boot" where
  "boot_elf_enable_hash_checking E =
     bnd (auth_flag E) (\<lambda>is_auth_enabled. gets (\<lambda>s. is_auth_enabled \<and> elf_cfg_table_auth s))"

subsection \<open>Loading a segment\<close>

definition boot_elf_load_seg_generic ::
  "('d, 'p) loader_board_scheme \<Rightarrow> u64 \<Rightarrow> u64 \<Rightarrow> buffer_type \<Rightarrow> (('d, 'a) loader_state_scheme, unit) boot" where
  "boot_elf_load_seg_generic E phdr dest_addr bf_type =
     thn (bl_verify (phdr \<noteq> 0) (bl_err BL_ERR_NULL_PTR_PASSED BL_ERROR_GROUP_BOOT))
      (bnd (gets (\<lambda>s. phdr_at (elf_format s) phdr (memory s))) (\<lambda>h.
        thn (whenb (p_memsz h \<noteq> 0)
               (bnd (boot_whitelist_address_range_check dest_addr (p_memsz h) bf_type) (\<lambda>ok.
                 bl_verify ok (bl_err BL_ERR_CLOBBER_PROTECTION_VIOLATION BL_ERROR_GROUP_BOOT))))
         (thn (whenb (p_memsz h \<noteq> 0 \<and> p_filesz h \<noteq> 0 \<and> p_memsz h \<ge> p_filesz h)
                (bnd (gets trans_if) (\<lambda>tp.
                  bnd (boot_flash_trans_read E tp dest_addr (ucast (p_offset h)) (ucast (p_filesz h)) bf_type) (\<lambda>success.
                    bl_verify success (bl_err BL_ERR_FLASH_READ_FAIL BL_ERROR_GROUP_BOOT)))))
           (whenb (p_memsz h > p_filesz h \<and> dest_addr + p_filesz h \<ge> dest_addr)
             (mem_fill (dest_addr + p_filesz h) (ucast (p_memsz h - p_filesz h)))))))"

definition boot_elf_load_seg :: "('d, 'p) loader_board_scheme \<Rightarrow> u64 \<Rightarrow> (('d, 'a) loader_state_scheme, unit) boot" where
  "boot_elf_load_seg E phdr =
     thn (bl_verify (phdr \<noteq> 0) (bl_err BL_ERR_NULL_PTR_PASSED BL_ERROR_GROUP_BOOT))
      (bnd (gets (\<lambda>s. (elf_format s, p_paddr (phdr_at (elf_format s) phdr (memory s))))) (\<lambda>(fmt, phdr_entry_paddr).
        bnd (boot_sec_img_auth_is_valid_segment E fmt phdr) (\<lambda>valid.
          whenb valid (boot_elf_load_seg_generic E phdr phdr_entry_paddr IMAGE_BODY_TYPE))))"

text \<open>
  The chunk size starts at its maximum and is only lowered to what remains, in the last
  round, so it is that maximum at the start of every round.
\<close>

function load_chunks_loop ::
  "('d, 'p) loader_board_scheme \<Rightarrow> u64 \<Rightarrow> u64 \<Rightarrow> u64 \<Rightarrow> (('d, 'a) loader_state_scheme, unit) boot" where
  "load_chunks_loop E remaining_data chunk_dest_addr chunk_offset =
     (if remaining_data = 0 then ret ()
      else
        let chunk_size = (if remaining_data < ucast MAX_CHUNK_SIZE then ucast remaining_data else MAX_CHUNK_SIZE)
        in bnd (gets trans_if) (\<lambda>tp.
           bnd (boot_flash_trans_read E tp chunk_dest_addr (ucast chunk_offset) chunk_size IMAGE_BODY_TYPE) (\<lambda>success.
           thn (bl_verify success (bl_err BL_ERR_FLASH_READ_FAIL BL_ERROR_GROUP_BOOT))
            (bnd (gets total_elf_segments_size) (\<lambda>n.
             thn (bl_verify (n + chunk_size > n) (bl_err BL_ERR_IMG_SIZE_TOO_BIG BL_ERROR_GROUP_BOOT))
              (thn (modify (\<lambda>s. s\<lparr>total_elf_segments_size := n + chunk_size\<rparr>))
               (thn (bnd (auth_flag E) (\<lambda>a. whenb (\<not> a) (boot_rmb_set_pmi_code_length (n + chunk_size))))
                (load_chunks_loop E (remaining_data - ucast chunk_size) (chunk_dest_addr + ucast chunk_size)
                   (chunk_offset + ucast chunk_size)))))))))"
  by pat_completeness auto

lemma chunk_ucast: "r < 0x100000 \<Longrightarrow> ucast (ucast r :: u32) = r" for r :: u64
proof -
  assume "r < 0x100000"
  then have "unat (ucast (ucast r :: u32) :: u64) = unat r"
    by (simp add: unat_ucast_64_32 word_less_nat_alt)
  then show "ucast (ucast r :: u32) = r" by (simp only: word_unat_eq_iff)
qed

termination load_chunks_loop
  by (relation "measure (\<lambda>(E, r, d, f). unat r)") (auto simp: chunk_ucast unat_gt_0 unat_minus_less not_less)

declare load_chunks_loop.simps [simp del]

text \<open>The size in memory of a 32-bit segment is read with the layout of a 64-bit one.\<close>

definition boot_elf_load_seg_in_chunks :: "('d, 'p) loader_board_scheme \<Rightarrow> u64 \<Rightarrow> (('d, 'a) loader_state_scheme, unit) boot" where
  "boot_elf_load_seg_in_chunks E phdr =
     thn (bl_verify (phdr \<noteq> 0) (bl_err BL_ERR_NULL_PTR_PASSED BL_ERROR_GROUP_BOOT))
      (bnd (gets (\<lambda>s. (elf_format s, phdr_at (elf_format s) phdr (memory s), p_memsz (elf64_phdr_at phdr (memory s))))) (\<lambda>(fmt, h, memsz).
        bnd (boot_sec_img_auth_is_valid_segment E fmt phdr) (\<lambda>valid.
          whenb valid
           (thn (whenb (memsz \<noteq> 0 \<and> p_filesz h \<noteq> 0 \<and> memsz \<ge> p_filesz h)
                  (load_chunks_loop E (p_filesz h) (p_paddr h) (p_offset h)))
             (whenb (memsz > p_filesz h \<and> p_paddr h + p_filesz h \<ge> p_paddr h)
               (thn (mem_fill (p_paddr h + p_filesz h) (ucast (memsz - p_filesz h)))
                 (bnd (gets total_elf_segments_size) (\<lambda>n.
                   thn (bl_verify (ucast n + (memsz - p_filesz h) > ucast n) (bl_err BL_ERR_IMG_SIZE_TOO_BIG BL_ERROR_GROUP_BOOT))
                    (thn (modify (\<lambda>s. s\<lparr>total_elf_segments_size := ucast (ucast n + (memsz - p_filesz h))\<rparr>))
                      (bnd (auth_flag E) (\<lambda>a. bnd (gets total_elf_segments_size) (\<lambda>n.
                        whenb (\<not> a) (boot_rmb_set_pmi_code_length n)))))))))))))"

subsection \<open>Verifying a segment\<close>

definition boot_elf_verify_segment ::
  "('d, 'p) loader_board_scheme \<Rightarrow> u64 \<Rightarrow> u64 \<Rightarrow> (('d, 'a) loader_state_scheme, unit) boot" where
  "boot_elf_verify_segment E phdr expected_hash =
     bnd (gets (\<lambda>s. (elf_format s, phdr_at (elf_format s) phdr (memory s)))) (\<lambda>(fmt, h).
     bnd boot_get_hash_table_auth_result (\<lambda>auth.
     thn (bl_verify auth (bl_err BL_ERR_HASH_TBL_AUTH_FAIL BL_ERROR_GROUP_BOOT))
      (bnd (gets boot_elf_is_ehdr_phdr_hash_success) (\<lambda>hashed.
       thn (bl_verify hashed (bl_err BL_ERR_HASH_TBL_AUTH_FAIL BL_ERROR_GROUP_BOOT))
        (if MI_PBT_SEGMENT_TYPE_VALUE (p_flags h) = MI_PBT_PHDR_SEGMENT then ret ()
         else if MI_PBT_SEGMENT_TYPE_VALUE (p_flags h) = MI_PBT_HASH_SEGMENT then ret ()
         else bnd (boot_sec_img_auth_is_valid_segment E fmt phdr) (\<lambda>valid.
           whenb (valid \<and> p_filesz h > 0)
            (bnd (gets (\<lambda>s. (sbl_hash_algorithm s, sbl_hash_len s))) (\<lambda>(alg, len).
             bnd (boot_hash E alg (p_paddr h) (ucast (p_filesz h)) (verify_digest_buf E) len) (\<lambda>status.
             thn (bl_verify (status = BL_ERR_NONE) (bl_err (ucast (ucast status :: u16)) BL_ERROR_GROUP_CRYPTO))
              (bnd (gets (\<lambda>s. bByteCompare (verify_digest_buf E) expected_hash (sbl_hash_len s) (memory s))) (\<lambda>c.
                bl_verify (c = 0) (bl_err BL_ERR_ELF_HASH_MISMATCH BL_ERROR_GROUP_BOOT))))))))))))"

text \<open>The pointer to the hash of the next segment.\<close>

definition boot_seg_verification ::
  "('d, 'p) loader_board_scheme \<Rightarrow> nat \<Rightarrow> u64 \<Rightarrow> (('d, 'a) loader_state_scheme, u64) boot" where
  "boot_seg_verification E index curr_hash_ptr =
     with_phdr E index (\<lambda>phdr_entry_ptr h.
       bnd (boot_elf_enable_hash_checking E) (\<lambda>check.
         if \<not> check then ret curr_hash_ptr
         else bnd (gets (\<lambda>s. (hash_segment_start s, sbl_hash_len s))) (\<lambda>(start, len).
           thn (bl_verify (curr_hash_ptr \<le> start + of_nat HASH_SEGMENT_SIZE - ucast len \<and> curr_hash_ptr \<ge> start)
                  (bl_err BL_ERR_INVALID_HASH_PTR BL_ERROR_GROUP_BOOT))
            (thn (boot_elf_verify_segment E phdr_entry_ptr curr_hash_ptr)
              (bnd (gets sbl_hash_len) (\<lambda>len.
                ret (if MI_PBT_PAGE_MODE_VALUE (p_flags h) = MI_PBT_PAGED_SEGMENT
                     then curr_hash_ptr + ((p_filesz h - 1) div 4096 + 1) * ucast len
                     else curr_hash_ptr + ucast len)))))))"

subsection \<open>Whitelisted segments\<close>

fun segment_whitelist_loop :: "u64 \<Rightarrow> u64 \<Rightarrow> whitelst_tbl_entry list \<Rightarrow> (('d, 'a) loader_state_scheme, bool) boot" where
  "segment_whitelist_loop base memsz [] = fatal Undefined_behaviour"
| "segment_whitelist_loop base memsz (e # es) =
     (if start_addr e \<noteq> 0 \<and> entry_size e \<noteq> 0 then
        thn (bl_verify (MAX_ADDRESS - start_addr e > entry_size e) (bl_err BL_ERR_INTEGER_OVERFLOW BL_ERROR_GROUP_BOOT))
          (if base \<ge> start_addr e \<and> base + memsz \<le> start_addr e + entry_size e then ret True
           else segment_whitelist_loop base memsz es)
      else ret False)"

definition boot_elf_segment_in_whitelist ::
  "u64 \<Rightarrow> whitelst_tbl_entry list \<Rightarrow> (('d, 'a) loader_state_scheme, bool) boot" where
  "boot_elf_segment_in_whitelist phdr_entry_ptr elf_segment_whitelist =
     (if phdr_entry_ptr = 0 then ret False
      else bnd (gets (\<lambda>s. if elf_format s = ELF_CLASS_64 \<or> elf_format s = ELF_CLASS_32
             then let h = phdr_at (elf_format s) phdr_entry_ptr (memory s) in (p_paddr h, p_memsz h) else (0, 0))) (\<lambda>(base, memsz).
        thn (bl_verify (MAX_ADDRESS - base > memsz) (bl_err BL_ERR_INTEGER_OVERFLOW BL_ERROR_GROUP_BOOT))
          (segment_whitelist_loop base memsz elf_segment_whitelist)))"

text \<open>Whether a segment is to be loaded: every one when there is no segment whitelist.\<close>

definition segment_selected :: "whitelst_tbl_entry list option \<Rightarrow> u64 \<Rightarrow> (('d, 'a) loader_state_scheme, bool) boot" where
  "segment_selected elf_segment_whitelist p =
     (case elf_segment_whitelist of None \<Rightarrow> ret True | Some tbl \<Rightarrow> boot_elf_segment_in_whitelist p tbl)"

subsection \<open>Opening and closing an image\<close>

definition boot_elf_ziinit_structures :: "('d, 'p) loader_board_scheme \<Rightarrow> u64 \<Rightarrow> (('d, 'a) loader_state_scheme, unit) boot" where
  "boot_elf_ziinit_structures E header_ptr =
     thn (boot_set_hash_table_auth_result False)
      (thn (modify (\<lambda>s. s\<lparr>boot_elf_is_ehdr_phdr_hash_success := False\<rparr>))
       (thn (whenb (header_ptr \<noteq> 0) (mem_fill header_ptr (of_nat SIZEOF_MI_HEADER)))
        (thn (mem_fill (ehdr_32 E) SIZEOF_ELF32_EHDR)
         (thn (mem_fill (ehdr E) SIZEOF_ELF64_EHDR)
          (thn (mem_fill (phdr_array_32 E) (SIZEOF_ELF32_PHDR * of_nat MI_PBT_MAX_SEGMENTS))
           (thn (mem_fill (phdr_array E) (SIZEOF_ELF64_PHDR * of_nat MI_PBT_MAX_SEGMENTS))
             (bnd boot_get_hash_segment_buffer (\<lambda>p. mem_fill p (of_nat HASH_SEGMENT_SIZE)))))))))"

definition boot_elf_load_deinit :: "(('d, 'a) loader_state_scheme, unit) boot" where
  "boot_elf_load_deinit =
     thn (boot_set_hash_table_auth_result False)
      (thn (modify (\<lambda>s. s\<lparr>boot_elf_is_ehdr_phdr_hash_success := False\<rparr>))
       (bnd (gets trans_if) (\<lambda>tp. whenb (tp \<noteq> None)
         (thn (boot_flash_dev_close_image tp) (modify (\<lambda>s. s\<lparr>trans_if := None\<rparr>))))))"

definition elf_hdr_meta_whitelist :: "('d, 'p) loader_board_scheme \<Rightarrow> whitelst_tbl_entry list" where
  "elf_hdr_meta_whitelist E =
     [\<lparr>start_addr = ehdr_32 E, entry_size = ucast SIZEOF_ELF32_EHDR\<rparr>,
      \<lparr>start_addr = phdr_array_32 E, entry_size = ucast SIZEOF_ELF32_PHDR * of_nat MI_PBT_MAX_SEGMENTS\<rparr>,
      \<lparr>start_addr = ehdr E, entry_size = ucast SIZEOF_ELF64_EHDR\<rparr>,
      \<lparr>start_addr = phdr_array E, entry_size = ucast SIZEOF_ELF64_PHDR * of_nat MI_PBT_MAX_SEGMENTS\<rparr>,
      \<lparr>start_addr = 0, entry_size = 0\<rparr>]"

text \<open>The format and the sizes from the header that has been read to the 64-bit structure.\<close>

definition select_elf_format :: "('d, 'p) loader_board_scheme \<Rightarrow> (('d, 'a) loader_state_scheme, unit) boot" where
  "select_elf_format E =
     bnd (gets (\<lambda>s. e_ident (elf64_ehdr_at (ehdr E) (memory s)) ! 4)) (\<lambda>fmt.
       thn (modify (\<lambda>s. s\<lparr>elf_format := fmt\<rparr>))
        (if fmt = ELF_CLASS_64 then
           modify (\<lambda>s. let h = elf64_ehdr_at (ehdr E) (memory s)
             in s\<lparr>ehdr_ptr := ehdr E, ehdr_size := SIZEOF_ELF64_EHDR, phdr_size := ucast (e_phentsize h),
                  phdr_num := e_phnum h, phdr_array_ptr := phdr_array E\<rparr>)
         else
           thn (copy_mem (ehdr_32 E) (ehdr E) (unat SIZEOF_ELF32_EHDR))
            (thn (mem_fill (ehdr E) SIZEOF_ELF64_EHDR)
              (modify (\<lambda>s. let h = elf32_ehdr_at (ehdr_32 E) (memory s)
                in s\<lparr>ehdr_ptr := ehdr_32 E, ehdr_size := SIZEOF_ELF32_EHDR, phdr_size := ucast (e_phentsize h),
                     phdr_num := e_phnum h, phdr_array_ptr := phdr_array_32 E\<rparr>)))))"

definition open_if_closed :: "('d, 'p) loader_board_scheme \<Rightarrow> (('d, 'a) loader_state_scheme, unit) boot" where
  "open_if_closed E =
     bnd (gets trans_if) (\<lambda>tp. whenb (tp = None)
       (bnd (boot_flash_dev_open_image E GEN_IMG) (\<lambda>p. modify (\<lambda>s. s\<lparr>trans_if := p\<rparr>))))"

text \<open>The whitelist for the headers: the static structures, the image header and the hash segment.\<close>

definition set_header_whitelist :: "('d, 'p) loader_board_scheme \<Rightarrow> u64 \<Rightarrow> (('d, 'a) loader_state_scheme, unit) boot" where
  "set_header_whitelist E header_ptr =
     (let secure = (\<lambda>ok. bl_verify ok (bl_err BL_ERR_IMG_SECURITY_FAIL BL_ERROR_GROUP_BOOT))
      in thn (bnd (boot_set_active_hdr_meta_whitelist_table (Some (elf_hdr_meta_whitelist E))) secure)
       (thn (bnd (boot_add_entry_to_hdr_meta_whtlst header_ptr (of_nat SIZEOF_MI_HEADER)) secure)
         (bnd boot_get_hash_segment_buffer (\<lambda>p.
           bnd (boot_add_entry_to_hdr_meta_whtlst p (of_nat HASH_SEGMENT_SIZE)) secure))))"

definition boot_elf_open_and_parse_elf_header ::
  "('d, 'p) loader_board_scheme \<Rightarrow> u64 \<Rightarrow> u64 \<Rightarrow> (('d, 'a) loader_state_scheme, unit) boot" where
  "boot_elf_open_and_parse_elf_header E partition_id header_ptr =
     thn (set_header_whitelist E header_ptr)
      (thn (boot_elf_ziinit_structures E header_ptr)
       (thn (boot_flash_configure_target_image partition_id)
        (thn (open_if_closed E)
         (bnd (gets trans_if) (\<lambda>tp.
          thn (bl_verify (tp \<noteq> None) (bl_err BL_ERR_NULL_PTR_PASSED BL_ERROR_GROUP_BOOT))
           (thn (bnd (boot_flash_trans_read E tp (ehdr E) 0 SIZEOF_ELF64_EHDR HDR_META_INFO_TYPE) (\<lambda>success.
                   bl_verify success (bl_err BL_ERR_FAILED_TO_COPY_IMG_HDR BL_ERROR_GROUP_BOOT)))
             (select_elf_format E)))))))"

text \<open>The validation of the header; a class other than 32 bits is taken as 64 bits.\<close>

definition validate_elf_header :: "('d, 'p) loader_board_scheme \<Rightarrow> (('d, 'a) loader_state_scheme, u32) boot" where
  "validate_elf_header E =
     bnd (gets elf_format) (\<lambda>fmt.
       if fmt = ELF_CLASS_32 then boot_sec_img_auth_validate_elf E fmt (ehdr_32 E)
       else thn (modify (\<lambda>s. s\<lparr>elf_format := ELF_CLASS_64\<rparr>)) (boot_sec_img_auth_validate_elf E ELF_CLASS_64 (ehdr E)))"

text \<open>The close through the interface clears the pointer it is given.\<close>

definition boot_elf_verify_image_header ::
  "('d, 'p) loader_board_scheme \<Rightarrow> u64 \<Rightarrow> u64 \<Rightarrow> (('d, 'a) loader_state_scheme, bool) boot" where
  "boot_elf_verify_image_header E partition_id header_ptr =
     thn (bl_verify (partition_id \<noteq> 0) (bl_err BL_ERR_NULL_PTR_PASSED BL_ERROR_GROUP_BOOT))
      (thn (boot_elf_open_and_parse_elf_header E partition_id header_ptr)
       (bnd (validate_elf_header E) (\<lambda>sec_img_success.
        (bnd (gets trans_if) (\<lambda>tp. bnd (boot_flash_dev_close_image tp) (\<lambda>p.
          thn (modify (\<lambda>s. s\<lparr>trans_if := p\<rparr>)) (ret (sec_img_success = SMC_SUCCESS))))))))"

fun find_hash_segment ::
  "('d, 'p) loader_board_scheme \<Rightarrow> u64 \<Rightarrow> nat list \<Rightarrow> (('d, 'a) loader_state_scheme, unit) boot" where
  "find_hash_segment E header_ptr [] = ret ()"
| "find_hash_segment E header_ptr (index # rest) =
     with_phdr E index (\<lambda>phdr_entry_ptr h.
       if MI_PBT_SEGMENT_TYPE_VALUE (p_flags h) = MI_PBT_HASH_SEGMENT then
         bnd (gets trans_if) (\<lambda>tp.
         bnd (boot_flash_trans_read E tp header_ptr (ucast (p_offset h)) (of_nat SIZEOF_MI_HEADER) HDR_META_INFO_TYPE) (\<lambda>success.
         thn (bl_verify success (bl_err BL_ERR_ELF_HDR_READ_FAIL BL_ERROR_GROUP_BOOT))
         (thn (bl_verify (p_memsz h \<le> of_nat HASH_SEGMENT_SIZE) (bl_err BL_ERR_BUFFER_SIZE_TOO_SMALL BL_ERROR_GROUP_BOOT))
         (bnd boot_get_hash_segment_buffer (\<lambda>p.
          thn (modify (\<lambda>s. s\<lparr>hash_segment_base_ptr := p\<rparr>))
         (thn (boot_elf_load_seg_generic E phdr_entry_ptr p HDR_META_INFO_TYPE)
           (modify (\<lambda>s. let t = s\<lparr>hash_segment_start := p + of_nat SIZEOF_MI_HEADER\<rparr> in
              if elf_ssa_enabled s then t\<lparr>hash_segment_base_addr := p, hash_segment_length := ucast (p_memsz h)\<rparr> else t))))))))
       else find_hash_segment E header_ptr rest)"

definition boot_elf_load_init_hash_segment ::
  "('d, 'p) loader_board_scheme \<Rightarrow> u64 \<Rightarrow> u64 \<Rightarrow> (('d, 'a) loader_state_scheme, unit) boot" where
  "boot_elf_load_init_hash_segment E partition_id header_ptr =
     thn (bl_verify (partition_id \<noteq> 0 \<and> header_ptr \<noteq> 0) (bl_err BL_ERR_NULL_PTR_PASSED BL_ERROR_GROUP_BOOT))
      (thn (boot_elf_open_and_parse_elf_header E partition_id header_ptr)
       (bnd (validate_elf_header E) (\<lambda>r.
        thn (bl_verify (r = SMC_SUCCESS) (bl_err (ucast (ucast r :: u16)) BL_ERROR_GROUP_SECIMG))
         (bnd (gets (\<lambda>s. (e_phoff (ehdr_at (elf_format s) (if elf_format s = ELF_CLASS_64 then ehdr E else ehdr_32 E) (memory s)),
                 phdr_array_ptr s, (ucast (ucast (phdr_num s) * phdr_size s) :: u16), trans_if s))) (\<lambda>(ehdr_phoff, p, n, tp).
          bnd (boot_flash_trans_read E tp p (ucast ehdr_phoff) (ucast n) HDR_META_INFO_TYPE) (\<lambda>success.
           thn (bl_verify success (bl_err BL_ERR_FAILED_TO_COPY_IMG_HDR BL_ERROR_GROUP_BOOT))
            (bnd (gets phdr_num) (\<lambda>k. find_hash_segment E header_ptr [0..<unat k]))))))))"

subsection \<open>Loading an image\<close>

fun in_chunks_loop ::
  "('d, 'p) loader_board_scheme \<Rightarrow> nat list \<Rightarrow> u64 \<Rightarrow> (('d, 'a) loader_state_scheme, unit) boot" where
  "in_chunks_loop E [] curr_hash_ptr = ret ()"
| "in_chunks_loop E (index # rest) curr_hash_ptr =
     with_phdr E index (\<lambda>phdr_entry_ptr h.
       thn (whenb (MI_PBT_SEGMENT_TYPE_VALUE (p_flags h) \<noteq> MI_PBT_HASH_SEGMENT) (boot_elf_load_seg_in_chunks E phdr_entry_ptr))
        (bnd (boot_seg_verification E index curr_hash_ptr) (\<lambda>next.
         thn (bnd (auth_flag E) (\<lambda>a. bnd (gets total_elf_segments_size) (\<lambda>n. whenb a (boot_rmb_set_pmi_code_length n))))
          (in_chunks_loop E rest next))))"

definition boot_elf_load_and_verify_image_in_chunks ::
  "('d, 'p) loader_board_scheme \<Rightarrow> (('d, 'a) loader_state_scheme, unit) boot" where
  "boot_elf_load_and_verify_image_in_chunks E =
     bnd (gets (\<lambda>s. (hash_segment_start s, phdr_num s))) (\<lambda>(p, n). in_chunks_loop E [0..<unat n] p)"

definition boot_elf_load_and_verify_image ::
  "('d, 'p) loader_board_scheme \<Rightarrow> whitelst_tbl_entry list option \<Rightarrow> u32 \<Rightarrow> bool \<Rightarrow> (('d, 'a) loader_state_scheme, unit) boot" where
  "boot_elf_load_and_verify_image E elf_segment_whitelist image_id auth =
     bnd (gets phdr_num) (\<lambda>n.
       thn (for_each [0..<unat n] (\<lambda>index. with_phdr E index (\<lambda>p h.
              bnd (segment_selected elf_segment_whitelist p) (\<lambda>sel. whenb sel (boot_elf_load_seg E p)))))
         (whenb auth (bnd (boot_auth_compute_verify_hash E image_id) (\<lambda>status.
            bl_verify (status = BL_ERR_NONE) (bl_err (ucast (ucast status :: u16)) BL_ERROR_GROUP_SECURITY)))))"

text \<open>The flush of a segment from the cache is left out; what decides about it is not.\<close>

definition boot_elf_image_cache_flush ::
  "('d, 'p) loader_board_scheme \<Rightarrow> whitelst_tbl_entry list option \<Rightarrow> (('d, 'a) loader_state_scheme, unit) boot" where
  "boot_elf_image_cache_flush E elf_segment_whitelist =
     bnd (gets phdr_num) (\<lambda>n. for_each [0..<unat n] (\<lambda>index. with_phdr E index (\<lambda>p h.
       bnd (segment_selected elf_segment_whitelist p) (\<lambda>sel. whenb sel
         (bnd (gets elf_format) (\<lambda>fmt. bnd (boot_sec_img_auth_is_valid_segment E fmt p) (\<lambda>_. ret ())))))))"

definition boot_elf_populate_meta_info :: "(('d, 'a) loader_state_scheme, unit) boot" where
  "boot_elf_populate_meta_info =
     bnd (gets elf_ssa_enabled) (\<lambda>ssa. whenb ssa
       (bnd boot_rmb_get_meta_info_buffer (\<lambda>meta_buff_ptr.
         thn (bl_verify (meta_buff_ptr \<noteq> 0) (bl_err BL_ERR_NULL_PTR_PASSED BL_ERROR_GROUP_BOOT))
          (thn (modify (\<lambda>s. s\<lparr>memory := qmemset meta_buff_ptr 0
                  (ehdr_size s + phdr_size s * of_nat MI_PBT_MAX_SEGMENTS + boot_get_hash_buffer_size) (memory s)\<rparr>))
           (thn (modify (\<lambda>s. s\<lparr>memory := qmemcpy meta_buff_ptr (ehdr_ptr s) (ehdr_size s) (memory s)\<rparr>))
            (thn (modify (\<lambda>s. s\<lparr>memory := qmemcpy (meta_buff_ptr + ucast (ehdr_size s)) (phdr_array_ptr s)
                    (phdr_size s * ucast (phdr_num s)) (memory s)\<rparr>))
             (thn (modify (\<lambda>s. s\<lparr>memory := qmemcpy (meta_buff_ptr + ucast (ehdr_size s) + ucast (phdr_size s * ucast (phdr_num s)))
                     (hash_segment_base_addr s) (hash_segment_length s) (memory s)\<rparr>))
               boot_rmb_populate_meta_info)))))))"

definition boot_elf_ssa_load_image_and_metadata :: "('d, 'p) loader_board_scheme \<Rightarrow> (('d, 'a) loader_state_scheme, unit) boot" where
  "boot_elf_ssa_load_image_and_metadata E =
     bnd (gets (\<lambda>s. e_entry (ehdr_at (elf_format s) (if elf_format s = ELF_CLASS_64 then ehdr E else ehdr_32 E) (memory s)))) (\<lambda>entry.
       thn (modify (\<lambda>s. s\<lparr>total_elf_segments_size := 0\<rparr>))
        (thn boot_elf_populate_meta_info
         (thn (boot_rmb_set_pmi_code_start_addr (ucast entry))
          (thn boot_rmb_set_pmi_elf_load_ready
            (boot_elf_load_and_verify_image_in_chunks E)))))"

definition boot_load_elf_image ::
  "('d, 'p) loader_board_scheme \<Rightarrow> whitelst_tbl_entry list option \<Rightarrow> u32 \<Rightarrow> bool \<Rightarrow> (('d, 'a) loader_state_scheme, unit) boot" where
  "boot_load_elf_image E elf_segment_whitelist image_id auth =
     thn (open_if_closed E)
      (bnd (gets elf_ssa_enabled) (\<lambda>ssa.
        thn (if ssa then boot_elf_ssa_load_image_and_metadata E
             else boot_elf_load_and_verify_image E elf_segment_whitelist image_id auth)
          boot_elf_load_deinit))"

definition boot_elf_set_auth_and_ssa_enable :: "bool \<Rightarrow> bool \<Rightarrow> (('d, 'a) loader_state_scheme, unit) boot" where
  "boot_elf_set_auth_and_ssa_enable auth_from_cfg_table ssa_value =
     modify (\<lambda>s. s\<lparr>elf_cfg_table_auth := auth_from_cfg_table, elf_ssa_enabled := ssa_value\<rparr>)"

subsection \<open>Questions about headers\<close>

definition boot_get_elf_entry_address :: "('d, 'p) loader_board_scheme \<Rightarrow> (('d, 'a) loader_state_scheme, u64) boot" where
  "boot_get_elf_entry_address E = gets (\<lambda>s.
     if elf_format s = ELF_CLASS_64 then e_entry (elf64_ehdr_at (ehdr E) (memory s)) else e_entry (elf32_ehdr_at (ehdr_32 E) (memory s)))"

definition boot_get_elf_eident_class :: "(('d, 'a) loader_state_scheme, u32) boot" where
  "boot_get_elf_eident_class = gets (\<lambda>s. ucast (elf_format s))"

definition boot_get_elf_header :: "('d, 'p) loader_board_scheme \<Rightarrow> (('d, 'a) loader_state_scheme, u64) boot" where
  "boot_get_elf_header E = gets (\<lambda>s. if elf_format s = ELF_CLASS_64 then ehdr E else ehdr_32 E)"

definition boot_get_program_header :: "('d, 'p) loader_board_scheme \<Rightarrow> (('d, 'a) loader_state_scheme, u64) boot" where
  "boot_get_program_header E = gets (\<lambda>s. if elf_format s = ELF_CLASS_64 then phdr_array E else phdr_array_32 E)"

text \<open>The header is copied as a 64-bit one first, which shows its class.\<close>

definition boot_set_elf_and_prog_header ::
  "('d, 'p) loader_board_scheme \<Rightarrow> u64 \<Rightarrow> u64 \<Rightarrow> (('d, 'a) loader_state_scheme, bool) boot" where
  "boot_set_elf_and_prog_header E elf_hdr_ptr prog_hdr_ptr =
     (if elf_hdr_ptr = 0 \<or> prog_hdr_ptr = 0 then ret False
      else
        thn (copy_mem (ehdr E) elf_hdr_ptr (unat SIZEOF_ELF64_EHDR))
         (bnd (gets (\<lambda>s. e_ident (elf64_ehdr_at elf_hdr_ptr (memory s)) ! 4)) (\<lambda>fmt.
          thn (modify (\<lambda>s. s\<lparr>elf_format := fmt\<rparr>))
          (thn (if fmt = ELF_CLASS_64 then
                  thn (copy_mem (ehdr E) elf_hdr_ptr (unat SIZEOF_ELF64_EHDR))
                   (thn (mem_fill (ehdr_32 E) SIZEOF_ELF32_EHDR)
                    (modify (\<lambda>s. let h = elf64_ehdr_at (ehdr E) (memory s)
                      in s\<lparr>ehdr_ptr := ehdr E, ehdr_size := SIZEOF_ELF64_EHDR, phdr_size := ucast (e_phentsize h),
                           phdr_num := e_phnum h, phdr_array_ptr := phdr_array E\<rparr>)))
                else
                  thn (copy_mem (ehdr_32 E) elf_hdr_ptr (unat SIZEOF_ELF32_EHDR))
                   (thn (mem_fill (ehdr E) SIZEOF_ELF64_EHDR)
                    (modify (\<lambda>s. let h = elf32_ehdr_at (ehdr_32 E) (memory s)
                      in s\<lparr>ehdr_ptr := ehdr_32 E, ehdr_size := SIZEOF_ELF32_EHDR, phdr_size := ucast (e_phentsize h),
                           phdr_num := e_phnum h, phdr_array_ptr := phdr_array_32 E\<rparr>))))
            (thn (modify (\<lambda>s. s\<lparr>memory := qmemcpy (phdr_array_ptr s) prog_hdr_ptr (ucast (phdr_num s) * phdr_size s) (memory s)\<rparr>))
              (ret True))))))"

text \<open>
  The next three take the headers of the caller, at \<open>elf_hdr\<close> and \<open>prog_hdr\<close>. The results
  behind pointers are returned; those pointers are checked by the code and not null here.
\<close>

definition with_caller_headers ::
  "('d, 'p) loader_board_scheme \<Rightarrow> u64 \<Rightarrow> bool \<Rightarrow> (u8 \<Rightarrow> (('d, 'a) loader_state_scheme, 'r) boot) \<Rightarrow> (('d, 'a) loader_state_scheme, 'r) boot" where
  "with_caller_headers E elf_hdr ptrs_ok f =
     thn (bl_verify (elf_hdr \<noteq> 0 \<and> ptrs_ok) (bl_err BL_ERR_NULL_PTR_PASSED BL_ERROR_GROUP_BOOT))
      (bnd (gets (\<lambda>s. e_ident (elf64_ehdr_at elf_hdr (memory s)) ! 4)) (\<lambda>fmt.
       bnd (boot_sec_img_auth_validate_elf E fmt elf_hdr) (\<lambda>r.
        thn (bl_verify (r = SMC_SUCCESS) (bl_err (ucast (ucast r :: u16)) BL_ERROR_GROUP_SECIMG)) (f fmt))))"

definition caller_phdr :: "u8 \<Rightarrow> u64 \<Rightarrow> u64 \<Rightarrow> u64" where
  "caller_phdr fmt prog_hdr index =
     prog_hdr + (if fmt = ELF_CLASS_64 then ucast SIZEOF_ELF64_PHDR else ucast SIZEOF_ELF32_PHDR) * index"

text \<open>The size of the first hash segment, \<open>None\<close> when there is none.\<close>

definition boot_get_elf_hash_segment_size ::
  "('d, 'p) loader_board_scheme \<Rightarrow> u64 \<Rightarrow> u64 \<Rightarrow> (('d, 'a) loader_state_scheme, u64 option) boot" where
  "boot_get_elf_hash_segment_size E elf_hdr prog_hdr =
     with_caller_headers E elf_hdr (prog_hdr \<noteq> 0) (\<lambda>fmt. gets (\<lambda>s.
       map_option p_memsz (find (\<lambda>h. MI_PBT_SEGMENT_TYPE_VALUE (p_flags h) = MI_PBT_HASH_SEGMENT)
         (map (\<lambda>i. phdr_at fmt (caller_phdr fmt prog_hdr (of_nat i)) (memory s))
           [0..<unat (e_phnum (ehdr_at fmt elf_hdr (memory s)))]))))"

definition boot_get_elf_prog_header_count ::
  "('d, 'p) loader_board_scheme \<Rightarrow> u64 \<Rightarrow> (('d, 'a) loader_state_scheme, u64) boot" where
  "boot_get_elf_prog_header_count E elf_hdr =
     with_caller_headers E elf_hdr True (\<lambda>fmt. gets (\<lambda>s. ucast (e_phnum (ehdr_at fmt elf_hdr (memory s)))))"

text \<open>The file size, whether the segment is loadable, the file offset and the address.\<close>

definition boot_get_elf_phdr_entry_info ::
  "('d, 'p) loader_board_scheme \<Rightarrow> u64 \<Rightarrow> u64 \<Rightarrow> u64 \<Rightarrow> (('d, 'a) loader_state_scheme, u64 \<times> bool \<times> u64 \<times> u64) boot" where
  "boot_get_elf_phdr_entry_info E elf_hdr prog_hdr index =
     with_caller_headers E elf_hdr (prog_hdr \<noteq> 0) (\<lambda>fmt.
       let p = caller_phdr fmt prog_hdr index
       in bnd (boot_sec_img_auth_is_valid_segment E fmt p) (\<lambda>valid. gets (\<lambda>s.
            let h = phdr_at fmt p (memory s) in (p_filesz h, valid, p_offset h, p_paddr h))))"

definition boot_get_elf_segment_data ::
  "('d, 'p) loader_board_scheme \<Rightarrow> u64 \<Rightarrow> u64 \<Rightarrow> u64 \<Rightarrow> (('d, 'a) loader_state_scheme, bool) boot" where
  "boot_get_elf_segment_data E file_offset file_size buffer =
     (if file_size > 0 \<and> buffer \<noteq> 0 \<and> file_offset \<le> 0xFFFFFFFF \<and> file_size \<le> 0xFFFFFFFF then
        bnd (gets trans_if) (\<lambda>tp.
        bnd (boot_flash_trans_read E tp buffer (ucast file_offset) (ucast file_size) IMAGE_BODY_TYPE) (\<lambda>success.
          thn (bl_verify success (bl_err BL_ERR_FLASH_READ_FAIL BL_ERROR_GROUP_BOOT)) (ret success)))
      else ret False)"

end
