(* ===== verification/Elf_Safety.thy ===== *)
theory Elf_Safety
  imports Elf_Loader
begin

text \<open>
  Memory safety of the ELF loader: whatever the headers of an image say, loading it changes
  memory only where a whitelist allows, in the block buffer, and where the secure monitor
  writes. The frame of the whole loader is a relation between the states before and after a
  computation, closed under the ways the loader composes its steps; the locale of frames is
  interpreted on it.
\<close>

subsection \<open>The frames\<close>

text \<open>
  From a state in \<open>I\<close>, a computation ends in \<open>I\<close> and changes memory only at addresses
  in \<open>P\<close>.
\<close>

definition guarded :: "('a mem_state_scheme \<Rightarrow> bool) \<Rightarrow> (u64 \<Rightarrow> bool) \<Rightarrow> 'a mem_state_scheme \<Rightarrow> 'a mem_state_scheme \<Rightarrow> bool" where
  "guarded I P s t \<longleftrightarrow> (I s \<longrightarrow> I t \<and> (\<forall>x. memory t x \<noteq> memory s x \<longrightarrow> P x))"

interpretation guard: frame "guarded I P" for I :: "'a mem_state_scheme \<Rightarrow> bool" and P
proof
  show "guarded I P s s" for s by (simp add: guarded_def)
  show "guarded I P s u" if "guarded I P s t" "guarded I P t u" for s t u
    using that by (auto simp: guarded_def) metis
qed

definition same_memory :: "'a mem_state_scheme \<Rightarrow> 'a mem_state_scheme \<Rightarrow> bool" where
  "same_memory s t \<longleftrightarrow> memory t = memory s"

interpretation kept: frame "same_memory :: 'a mem_state_scheme \<Rightarrow> 'a mem_state_scheme \<Rightarrow> bool"
  by unfold_locales (simp_all add: same_memory_def)

lemma keeps_bnd_gets: "(\<And>s. R s (final (g (f s)) s)) \<Longrightarrow> keeps R (bnd (gets f) g)"
  by (rule keepsI) simp

lemma guarded_state: "(\<And>s. I s \<Longrightarrow> I (f s)) \<Longrightarrow> (\<And>s x. I s \<Longrightarrow> memory (f s) x \<noteq> memory s x \<Longrightarrow> P x) \<Longrightarrow> keeps (guarded I P) (modify f)"
  by (rule guard.keeps_modify) (auto simp: guarded_def)

subsection \<open>Closing an image changes no memory\<close>

lemma keeps_deref: "(\<And>s. R s s) \<Longrightarrow> (\<And>x. keeps R (f x)) \<Longrightarrow> keeps R (deref g p f)"
  by (auto simp: keeps_def deref_def split: option.split)

lemmas kept_intros = kept.keeps_bnd kept.keeps_thn kept.keeps_whenb keeps_deref keeps_if keeps_option
  kept.keeps_ret kept.keeps_fatal kept.keeps_gets kept.keeps_bl_verify kept.keeps_assert_c kept.keeps_modify
  kept.rel_refl

lemma close_partition_kept: "keeps same_memory (coldplug_close_partition chdl)"
  unfolding coldplug_close_partition_def coldplug_is_handle_valid_def coldplug_handle_validate_def upd_handle_def
  by (intro kept_intros) (simp add: same_memory_def)

lemma close_sbl_partition_kept: "keeps same_memory (close_sbl_partition i)"
  unfolding close_sbl_partition_def boot_coldplug_close_partition_def
  by (intro kept_intros close_partition_kept)

lemma close_image_kept: "keeps same_memory (boot_flash_dev_close_image tp)"
  unfolding boot_flash_dev_close_image_def boot_flash_dev_if_get_singleton_def dev_sdcc_close_image_def
    boot_flash_trans_sdcc_factory_close_def boot_flash_dev_sdcc_close_file_def boot_flash_dev_sdcc_close_file_by_image_type_def
    boot_flash_dev_sdcc_if_get_singleton_def dev_sdcc_close_file_by_handle_def dev_sdcc_close_file_by_image_type_def
    boot_coldplug_close_device_by_image_type_def boot_coldplug_close_device_by_handle_def path_of_def
  by (intro kept_intros close_sbl_partition_kept) (simp add: same_memory_def)

lemma deinit_kept: "keeps same_memory boot_elf_load_deinit"
  unfolding boot_elf_load_deinit_def boot_set_hash_table_auth_result_def
  by (intro kept_intros close_image_kept) (simp_all add: same_memory_def)

subsection \<open>The invariant of a load\<close>

text \<open>
  The transport of the loader is open, and the ranges allowed for buffers of type \<open>bt\<close> lie
  in \<open>A\<close>.
\<close>

definition loading :: "u64 \<Rightarrow> nat \<Rightarrow> nat \<Rightarrow> nat \<Rightarrow> buffer_type \<Rightarrow> (u64 \<Rightarrow> bool) \<Rightarrow> ('d, 'a) loader_state_scheme \<Rightarrow> bool" where
  "loading h p i bs bt A s \<longleftrightarrow> open_transport h p i bs s \<and> trans_if s = Some p \<and>
     (\<forall>x. allowed (buffer_table bt s) x \<longrightarrow> A x)"

text \<open>
  What is relied on of the platform: the contracts of the flash layer, with the block buffer
  at \<open>U\<close> outside the allowed addresses, and that a fast call changes memory only at
  addresses in \<open>T\<close>, which also has the loader's copy of the verified information.
\<close>

definition machine :: "('d, 'p) loader_board_scheme \<Rightarrow> u64 \<Rightarrow> nat \<Rightarrow> ('d \<Rightarrow> nat \<Rightarrow> bytes) \<Rightarrow> u64 \<Rightarrow> (u64 \<Rightarrow> bool) \<Rightarrow> (u64 \<Rightarrow> bool) \<Rightarrow> bool" where
  "machine E h bs media U A T \<longleftrightarrow> board_media E h bs media \<and> 4 \<le> bs \<and> dev_sdcc_buf_unalign E = U \<and> U \<noteq> 0 \<and>
     (\<forall>x. A x \<longrightarrow> \<not> unat (x - U) < bs) \<and>
     (\<forall>cmd param args ind m d x. fst (snd (fastcall_tz E cmd param args ind (m, d))) x \<noteq> m x \<longrightarrow> T x) \<and>
     (\<forall>x. unat (x - sbl_auth_verified_info E) < SIZEOF_VERIFIED_INFO \<longrightarrow> T x)"

definition touched :: "u64 \<Rightarrow> nat \<Rightarrow> (u64 \<Rightarrow> bool) \<Rightarrow> (u64 \<Rightarrow> bool) \<Rightarrow> u64 \<Rightarrow> bool" where
  "touched U bs A T x \<longleftrightarrow> A x \<or> unat (x - U) < bs \<or> T x"

abbreviation safe_load where
  "safe_load h p i bs bt U A T \<equiv> guarded (loading h p i bs bt A) (touched U bs A T)"

lemma sdcc_partition_free:
  "sdcc_partition h k i bs (memory_update f s) = sdcc_partition h k i bs s"
  "sdcc_partition h k i bs (s\<lparr>drv := d\<rparr>) = sdcc_partition h k i bs s"
  for s :: "('d, 'a) sdcc_state_scheme"
  by (simp_all add: sdcc_partition_def ufs_handle_def handle_partition_def handle_lun_def handle_ops_def pools_ok_def)

lemma loading_free [simp]:
  "loading h p i bs bt A (memory_update f s) = loading h p i bs bt A s"
  "loading h p i bs bt A (s\<lparr>drv := d\<rparr>) = loading h p i bs bt A s"
  by (simp_all add: loading_def open_transport_def sdcc_partition_free whitelists_ok_def buffer_table_def)

subsection \<open>The steps of a load\<close>

lemma fastcall_safe:
  fixes E :: "('d, 'p) loader_board_scheme"
  assumes "machine E h bs media U A T"
  shows "keeps (safe_load h p i bs bt U A T :: ('d, 'a) loader_state_scheme \<Rightarrow> _) (fastcall E cmd param args ind)"
proof (rule keepsI)
  fix s :: "('d, 'a) loader_state_scheme"
  obtain r m d where call: "fastcall_tz E cmd param args ind (memory s, drv s) = (r, m, d)" by (metis prod_cases3)
  have "T x" if "m x \<noteq> memory s x" for x
    using assms that call unfolding machine_def by (metis fst_conv snd_conv)
  then show "safe_load h p i bs bt U A T s (final (fastcall E cmd param args ind) s)"
    using call by (simp add: guarded_def fastcall_def touched_def)
qed

lemma mem_change_safe:
  assumes "\<And>m x. f m x \<noteq> m x \<Longrightarrow> A x \<or> T x"
  shows "keeps (safe_load h p i bs bt U A T) (modify (memory_update f))"
  by (rule guarded_state) (use assms in \<open>auto simp: touched_def\<close>)

lemma fill_safe:
  assumes "\<And>x. unat (x - p) < unat n \<Longrightarrow> A x \<or> T x"
  shows "keeps (safe_load h q i bs bt U A T) (mem_fill p n)"
  unfolding mem_fill_def
  by (rule mem_change_safe) (use assms in \<open>auto simp: qmemset_fill mem_write_def split: if_splits\<close>)

lemma copy_safe:
  assumes "\<And>x. unat (x - dst) < unat (of_nat n :: u32) \<Longrightarrow> A x \<or> T x"
  shows "keeps (safe_load h q i bs bt U A T) (copy_mem dst src n)"
  unfolding copy_mem_def
proof (rule mem_change_safe)
  fix m x
  assume "qmemcpy dst src (of_nat n) m x \<noteq> m x"
  then show "A x \<or> T x" using assms [of x] qmemcpy_outside [of x dst "of_nat n" src m] by blast
qed

lemma state_safe:
  assumes "\<And>s. loading h p i bs bt A s \<Longrightarrow> loading h p i bs bt A (f s)" and "\<And>s. memory (f s) = memory s"
  shows "keeps (safe_load h p i bs bt U A T) (modify f)"
  by (rule guarded_state) (use assms in auto)

text \<open>A read through the transport of the loader, whatever comes after it.\<close>

lemma read_some_safe:
  assumes mac: "machine E h bs media U A T" and k: "\<And>b. keeps (safe_load h p i bs bt U A T) (k b)"
  shows "keeps (safe_load h p i bs bt U A T) (bnd (boot_flash_trans_read E (Some p) dest off n bt) k)"
proof (rule keepsI)
  fix s
  show "safe_load h p i bs bt U A T s (final (bnd (boot_flash_trans_read E (Some p) dest off n bt) k) s)"
  proof (cases "loading h p i bs bt A s")
    case False
    then show ?thesis by (simp add: guarded_def)
  next
    case True
    then have op: "open_transport h p i bs s" and tp: "trans_if s = Some p"
      and al: "\<And>x. allowed (buffer_table bt s) x \<Longrightarrow> A x" by (simp_all add: loading_def)
    have U: "\<And>x. allowed (buffer_table bt s) x \<Longrightarrow> \<not> unat (x - U) < bs" using al mac by (simp add: machine_def)
    have m: "board_media E h bs media" "4 \<le> bs" "dev_sdcc_buf_unalign E = U" "U \<noteq> 0"
      using mac by (simp_all add: machine_def)
    obtain b t where t: "boot_flash_trans_read E (Some p) dest off n bt s = (Inr b, t)" "flash_step s t"
      "\<And>x. memory t x \<noteq> memory s x \<Longrightarrow> in_range dest (ucast n) x \<and> allowed (buffer_table bt s) x \<or> unat (x - U) < bs"
      by (rule flash_read_run [OF op m(1,2,3,4), where bt = bt and dest = dest and off = off and n = n], erule U)
        (rule that; assumption)
    note fr = flash_step_frame [OF t(2)]
    have tt: "trans_if t = trans_if s" using t(2) by (auto simp: flash_step_def)
    have "A x \<or> unat (x - U) < bs" if "memory t x \<noteq> memory s x" for x using t(3) [OF that] al by blast
    then have "safe_load h p i bs bt U A T s t"
      using op tp al fr(1,2) tt by (auto simp: guarded_def loading_def touched_def)
    moreover have "safe_load h p i bs bt U A T t (final (k b) t)" using k keepsD by metis
    ultimately have "safe_load h p i bs bt U A T s (final (k b) t)" by (rule guard.rel_trans)
    then show ?thesis using t(1) by (simp add: bnd_app)
  qed
qed

lemma keeps_gets_guarded:
  "(\<And>s. I s \<Longrightarrow> keeps (guarded I P) (g (f s))) \<Longrightarrow> keeps (guarded I P) (bnd (gets f) g)"
  by (auto simp: keeps_def guarded_def)

lemma read_safe:
  assumes "machine E h bs media U A T" and "\<And>b. keeps (safe_load h p i bs bt U A T) (k b)"
  shows "keeps (safe_load h p i bs bt U A T) (bnd (gets trans_if) (\<lambda>tp. bnd (boot_flash_trans_read E tp dest off n bt) k))"
  by (rule keeps_gets_guarded) (use read_some_safe [OF assms] in \<open>simp add: loading_def\<close>)

lemmas guard_intros = guard.keeps_bnd guard.keeps_thn guard.keeps_whenb keeps_if guard.keeps_ret guard.keeps_fatal
  guard.keeps_gets guard.keeps_bl_verify guard.keeps_assert_c guard.keeps_for_each

lemma auth_calls_safe:
  assumes "machine E h bs media U A T"
  shows "keeps (safe_load h p i bs bt U A T) (boot_sec_img_auth_is_valid_segment E fmt q)"
    and "keeps (safe_load h p i bs bt U A T) (boot_sec_img_auth_validate_elf E fmt q)"
    and "keeps (safe_load h p i bs bt U A T) (boot_sec_img_auth_hash_elf_segments E image_id v)"
    and "keeps (safe_load h p i bs bt U A T) (boot_is_auth_enabled E)"
  unfolding boot_sec_img_auth_is_valid_segment_def boot_sec_img_auth_validate_elf_def
    boot_sec_img_auth_hash_elf_segments_def boot_is_auth_enabled_def split_def
  by (intro guard_intros fastcall_safe [OF assms])+

lemma compute_hash_safe:
  assumes "machine E h bs media U A T"
  shows "keeps (safe_load h p i bs bt U A T) (boot_auth_compute_verify_hash E image_id)"
  unfolding boot_auth_compute_verify_hash_def
  by (intro guard_intros auth_calls_safe [OF assms] copy_safe) (use assms in \<open>auto simp: machine_def\<close>)

text \<open>What follows a successful range check may rely on the range being allowed.\<close>

lemma checked_safe:
  assumes M: "(\<And>x. in_range dest sz x \<Longrightarrow> A x) \<Longrightarrow> keeps (safe_load h p i bs bt U A T) M"
  shows "keeps (safe_load h p i bs bt U A T)
    (thn (bnd (boot_whitelist_address_range_check dest sz bt) (\<lambda>ok. bl_verify ok e)) M)"
proof (rule keepsI)
  fix s
  show "safe_load h p i bs bt U A T s (final (thn (bnd (boot_whitelist_address_range_check dest sz bt) (\<lambda>ok. bl_verify ok e)) M) s)"
  proof (cases "loading h p i bs bt A s")
    case False
    then show ?thesis by (simp add: guarded_def)
  next
    case True
    then have ok: "whitelists_ok s" and al: "\<And>x. allowed (buffer_table bt s) x \<Longrightarrow> A x"
      by (simp_all add: loading_def open_transport_def)
    obtain c where chk: "boot_whitelist_address_range_check dest sz bt s = (Inr c, s)"
      using range_check_run [OF ok, of dest sz bt] by blast
    have run: "thn (bnd (boot_whitelist_address_range_check dest sz bt) (\<lambda>ok. bl_verify ok e)) M s =
        (if c then M s else (Inl e, s))"
      by (simp add: thn_app bnd_app chk ret_app fatal_app bl_verify_def)
    have "safe_load h p i bs bt U A T s (final M s)" if c
    proof -
      have "A x" if "in_range dest sz x" for x
      proof -
        have "boot_whitelist_address_range_check dest sz bt s = (Inr True, s)" using chk \<open>c\<close> by simp
        from range_check_True(2) [OF ok this that] show ?thesis by (rule al)
      qed
      from keepsD [OF M [OF this]] show ?thesis .
    qed
    note good = this
    show ?thesis
    proof (cases c)
      case True
      then show ?thesis unfolding run by (simp only: if_True) (rule good [OF True])
    next
      case False
      then show ?thesis unfolding run by (simp only: if_False snd_conv) (rule guard.rel_refl)
    qed
  qed
qed

lemma tail_in_range:
  fixes dest :: u64
  assumes "unat (x - (dest + f)) < unat (ucast (n - f) :: u32)" and "n > f"
  shows "in_range dest n x"
proof -
  have "unat (ucast (n - f) :: u32) \<le> unat (n - f)" by (simp add: unat_ucast_64_32)
  then have lt: "unat (x - (dest + f)) < unat n - unat f"
    using assms by (simp add: unat_sub word_le_nat_alt word_less_nat_alt)
  have "unat f < unat n" "unat n < 18446744073709551616" using assms(2) by (simp_all add: word_less_nat_alt)
  then have "unat (x - (dest + f)) + unat f < 18446744073709551616" using lt by linarith
  then have "unat (x - (dest + f) + f) = unat (x - (dest + f)) + unat f" by (simp only: unat_word_ariths) simp
  moreover have "x - (dest + f) + f = x - dest" by simp
  ultimately show ?thesis using lt by (simp only: in_range_def)
qed

lemma load_seg_generic_safe:
  assumes "machine E h bs media U A T"
  shows "keeps (safe_load h p i bs bt U A T) (boot_elf_load_seg_generic E phdr dest bt)"
  unfolding boot_elf_load_seg_generic_def
proof (rule guard.keeps_thn [OF guard.keeps_bl_verify], rule guard.keeps_bnd [OF guard.keeps_gets], goal_cases)
  case (1 hd)
  show ?case
  proof (cases "p_memsz hd = 0")
    case True
    then show ?thesis by simp
  next
    case False
    show ?thesis unfolding whenb_def if_P [OF False]
    proof (rule checked_safe, goal_cases)
      case 1
      have "A x" if "unat (x - (dest + p_filesz hd)) < unat (ucast (p_memsz hd - p_filesz hd) :: u32)"
        "p_memsz hd > p_filesz hd" for x
        using tail_in_range [OF that] 1 by blast
      then show ?case by (intro guard_intros read_safe [OF assms] fill_safe) blast
    qed
  qed
qed

lemma load_seg_safe:
  assumes "machine E h bs media U A T"
  shows "keeps (safe_load h p i bs IMAGE_BODY_TYPE U A T) (boot_elf_load_seg E phdr)"
  unfolding boot_elf_load_seg_def split_def
  by (intro guard_intros auth_calls_safe [OF assms] load_seg_generic_safe [OF assms])

lemma with_phdr_keeps: "(\<And>s. R s s) \<Longrightarrow> (\<And>q hd. keeps R (f q hd)) \<Longrightarrow> keeps R (with_phdr E i f)"
  by (auto simp: with_phdr_def keeps_def fatal_app)

text \<open>Deciding whether a segment is selected changes nothing.\<close>

lemma segment_whitelist_loop_pure: "final (segment_whitelist_loop base n es) s = s"
  by (induction es) (simp_all add: fatal_app ret_app thn_app bl_verify_def)

lemma segment_selected_pure: "final (segment_selected wl q) s = s"
proof (cases wl)
  case None
  then show ?thesis by (simp add: segment_selected_def ret_app)
next
  case (Some tbl)
  then show ?thesis
    using segment_whitelist_loop_pure [of _ _ tbl s]
    by (simp add: segment_selected_def boot_elf_segment_in_whitelist_def ret_app thn_app fatal_app bl_verify_def split_def)
qed

lemma segment_selected_keeps: "(\<And>s. R s s) \<Longrightarrow> keeps R (segment_selected wl q)"
  by (simp add: keeps_def segment_selected_pure)

lemma load_image_safe:
  assumes "machine E h bs media U A T"
  shows "keeps (safe_load h p i bs IMAGE_BODY_TYPE U A T) (boot_elf_load_and_verify_image E wl image_id auth)"
  unfolding boot_elf_load_and_verify_image_def
  by (intro guard_intros with_phdr_keeps segment_selected_keeps load_seg_safe [OF assms] compute_hash_safe [OF assms] guard.rel_refl)

lemma load_elf_image_touches:
  assumes "open_transport h p i bs s" and "trans_if s = Some p"
    and "machine E h bs media U (allowed (curr_image_whitelst_tbl s)) T"
  shows "\<exists>r t. boot_load_elf_image E wl image_id auth s = (r, t) \<and>
    (\<forall>x. memory t x \<noteq> memory s x \<longrightarrow> allowed (curr_image_whitelst_tbl s) x \<or> unat (x - U) < bs \<or> T x)"
proof -
  let ?A = "allowed (curr_image_whitelst_tbl s)"
  let ?body = "if elf_ssa_enabled s then boot_elf_ssa_load_image_and_metadata E else boot_elf_load_and_verify_image E wl image_id auth"
  have op: "open_if_closed E s = (Inr (), s)"
    using assms(2) by (simp add: open_if_closed_def ret_app)
  have run: "boot_load_elf_image E wl image_id auth s = thn ?body boot_elf_load_deinit s"
    using op by (simp add: boot_load_elf_image_def thn_Inr)
  have load: "loading h p i bs IMAGE_BODY_TYPE ?A s"
    using assms(1,2) by (simp add: loading_def buffer_table_def)
  have body: "touched U bs ?A T x" if "memory (final ?body s) x \<noteq> memory s x" for x
  proof (cases "elf_ssa_enabled s")
    case True
    then show ?thesis using that
      by (simp add: boot_elf_ssa_load_image_and_metadata_def boot_elf_populate_meta_info_def boot_rmb_get_meta_info_buffer_def
          thn_app fatal_app)
  next
    case False
    then show ?thesis
      using keepsD [OF load_image_safe [OF assms(3), of p i wl image_id auth], of s] load that
      by (auto simp: guarded_def)
  qed
  obtain r t where rt: "thn ?body boot_elf_load_deinit s = (r, t)" by fastforce
  have "memory t = memory (final ?body s)"
    using rt keepsD [OF deinit_kept, of "final ?body s"]
    by (auto simp: thn_app same_memory_def split: prod.splits sum.splits)
  then show ?thesis using run rt body by (auto simp: touched_def)
qed

text \<open>
  (C2) Loading an image is safe. With the transport open, whatever the program headers in
  memory say and whichever way the load ends, memory changes only at addresses that the
  image whitelist allows, in the block buffer, and where the secure monitor writes. The
  program headers come from the image and are not trusted.
\<close>

theorem boot_load_elf_image_safe:
  assumes "open_transport h p i bs s" and "trans_if s = Some p"
    and "machine E h bs media U (allowed (curr_image_whitelst_tbl s)) T"
  shows "\<exists>r t. boot_load_elf_image E wl image_id auth s = (r, t) \<and>
    (\<forall>x. memory t x \<noteq> memory s x \<longrightarrow> allowed (curr_image_whitelst_tbl s) x \<or> unat (x - U) < bs \<or> T x)"
  by (rule load_elf_image_touches [OF assms])

subsection \<open>The header stage\<close>

text \<open>The areas the headers of an image may be put in.\<close>

definition header_area :: "('d, 'p) loader_board_scheme \<Rightarrow> u64 \<Rightarrow> u64 \<Rightarrow> u64 \<Rightarrow> bool" where
  "header_area E header_ptr hash_ptr x \<longleftrightarrow>
     (\<exists>e \<in> set (elf_hdr_meta_whitelist E @ [\<lparr>start_addr = header_ptr, entry_size = 40\<rparr>, \<lparr>start_addr = hash_ptr, entry_size = 0x6000\<rparr>]).
        in_range (start_addr e) (entry_size e) x)"

lemma header_area_cases:
  "header_area E header_ptr hash_ptr x \<longleftrightarrow> unat (x - ehdr_32 E) < 52 \<or> unat (x - phdr_array_32 E) < 1280 \<or>
     unat (x - ehdr E) < 64 \<or> unat (x - phdr_array E) < 2240 \<or> unat (x - header_ptr) < 40 \<or> unat (x - hash_ptr) < 0x6000"
  by (auto simp: header_area_def elf_hdr_meta_whitelist_def in_range_def)

lemma hdr_add_areas:
  assumes "table_ok hdr_admissible (hdr_meta_whitelst_tbl s)" and "\<forall>x. allowed (hdr_meta_whitelst_tbl s) x \<longrightarrow> A x"
    and "\<forall>x. in_range a z x \<longrightarrow> A x" and "boot_add_entry_to_hdr_meta_whtlst a z s = (Inr True, t)"
  shows "\<forall>x. allowed (hdr_meta_whitelst_tbl t) x \<longrightarrow> A x"
  using assms(2,3) hdr.add_active [OF assms(1,4)] by (auto simp: allowed_def)

text \<open>
  After the whitelist of the header stage is set up, only areas of the headers are allowed;
  nothing but that table has changed.
\<close>

lemma set_header_whitelist_run:
  assumes "whitelists_ok s" and run: "set_header_whitelist E header_ptr s = (r, t)"
  shows "t = s\<lparr>hdr_meta_whitelst_tbl := hdr_meta_whitelst_tbl t\<rparr>"
    and "table_ok hdr_admissible (hdr_meta_whitelst_tbl t)"
    and "r = Inr () \<Longrightarrow> allowed (hdr_meta_whitelst_tbl t) x \<Longrightarrow> header_area E header_ptr (boot_hash_segment_ptr s) x"
proof -
  let ?A = "header_area E header_ptr (boot_hash_segment_ptr s)"
  let ?h = hdr_meta_whitelst_tbl
  obtain r1 s1 where set: "boot_set_active_hdr_meta_whitelist_table (Some (elf_hdr_meta_whitelist E)) s = (r1, s1)" by fastforce
  obtain r2 s2 where add: "boot_add_entry_to_hdr_meta_whtlst header_ptr 40 s1 = (r2, s2)" by fastforce
  obtain r3 s3 where hash: "boot_add_entry_to_hdr_meta_whtlst (boot_hash_segment_ptr s2) 0x6000 s2 = (r3, s3)" by fastforce
  have fr: "s1 = s\<lparr>hdr_meta_whitelst_tbl := ?h s1\<rparr>" "s2 = s1\<lparr>hdr_meta_whitelst_tbl := ?h s2\<rparr>" "s3 = s2\<lparr>hdr_meta_whitelst_tbl := ?h s3\<rparr>"
    using set add hash by (auto simp: hdr_set_run hdr.add_law split: if_splits)
  have p: "boot_hash_segment_ptr s2 = boot_hash_segment_ptr s" by (subst fr(2), subst fr(1)) simp
  have ok: "table_ok hdr_admissible (?h s1)" "table_ok hdr_admissible (?h s2)" "table_ok hdr_admissible (?h s3)"
    using hdr.ok_set_table [of s "Some (elf_hdr_meta_whitelist E)"] hdr.ok_add [of s1 header_ptr 40]
      hdr.ok_add [of s2 "boot_hash_segment_ptr s2" "0x6000"] assms(1) set add hash by (simp_all add: whitelists_ok_def)
  have t: "t \<in> {s1, s2, s3}" and succ: "r = Inr () \<Longrightarrow> r1 = Inr True \<and> r2 = Inr True \<and> r3 = Inr True \<and> t = s3"
    using run set add hash
    by (auto simp: set_header_whitelist_def Let_def boot_get_hash_segment_buffer_def thn_app bnd_app bl_verify_def ret_app fatal_app
        split: sum.splits if_splits)
  obtain a b c where "s1 = s\<lparr>hdr_meta_whitelst_tbl := a\<rparr>" "s2 = s1\<lparr>hdr_meta_whitelst_tbl := b\<rparr>" "s3 = s2\<lparr>hdr_meta_whitelst_tbl := c\<rparr>"
    using fr by blast
  then show "t = s\<lparr>hdr_meta_whitelst_tbl := ?h t\<rparr>" using t by auto
  show "table_ok hdr_admissible (?h t)" using t ok by blast
  show "?A x" if r: "r = Inr ()" and a: "allowed (?h t) x"
  proof -
    note s = succ [OF r]
    have "active (?h s1) = hdr_prefix (elf_hdr_meta_whitelist E)" using hdr.set_active set s by blast
    then have a1: "\<forall>x. allowed (?h s1) x \<longrightarrow> ?A x"
      by (auto simp: allowed_def hdr_prefix_def header_area_def dest: in_set_takeD set_takeWhileD)
    have "\<forall>x. in_range header_ptr 40 x \<longrightarrow> ?A x" "\<forall>x. in_range (boot_hash_segment_ptr s2) 0x6000 x \<longrightarrow> ?A x"
      using p by (simp_all add: header_area_def)
    note r = this
    have adds: "boot_add_entry_to_hdr_meta_whtlst header_ptr 40 s1 = (Inr True, s2)"
      "boot_add_entry_to_hdr_meta_whtlst (boot_hash_segment_ptr s2) 0x6000 s2 = (Inr True, s3)" using add hash s by simp_all
    have "\<forall>x. allowed (?h s3) x \<longrightarrow> ?A x"
      by (rule hdr_add_areas [OF ok(2) hdr_add_areas [OF ok(1) a1 r(1) adds(1)] r(2) adds(2)])
    then show ?thesis using a s by simp
  qed
qed

lemma loading_fields [simp]:
  "loading h p i bs bt A (elf_format_update f1 s) = loading h p i bs bt A s"
  "loading h p i bs bt A (ehdr_ptr_update f2 s) = loading h p i bs bt A s"
  "loading h p i bs bt A (phdr_array_ptr_update f2 s) = loading h p i bs bt A s"
  "loading h p i bs bt A (ehdr_size_update f3 s) = loading h p i bs bt A s"
  "loading h p i bs bt A (phdr_size_update f3 s) = loading h p i bs bt A s"
  "loading h p i bs bt A (phdr_num_update f4 s) = loading h p i bs bt A s"
  "loading h p i bs bt A (hash_segment_start_update f2 s) = loading h p i bs bt A s"
  "loading h p i bs bt A (hash_segment_base_addr_update f2 s) = loading h p i bs bt A s"
  "loading h p i bs bt A (hash_segment_length_update f3 s) = loading h p i bs bt A s"
  "loading h p i bs bt A (total_elf_segments_size_update f3 s) = loading h p i bs bt A s"
  "loading h p i bs bt A (boot_elf_is_ehdr_phdr_hash_success_update f5 s) = loading h p i bs bt A s"
  "loading h p i bs bt A (hash_segment_base_ptr_update f2 s) = loading h p i bs bt A s"
  "loading h p i bs bt A (is_elf_hash_table_auth_result_update f5 s) = loading h p i bs bt A s"
  "loading h p i bs bt A (image_partition_id_update f6 s) = loading h p i bs bt A s"
  by (simp_all add: loading_def open_transport_def sdcc_partition_def ufs_handle_def handle_partition_def handle_lun_def
      handle_ops_def pools_ok_def whitelists_ok_def buffer_table_def)

lemma fill_outside: "\<not> unat (x - p) < unat n \<Longrightarrow> qmemset p 0 n m x = m x"
  by (simp add: qmemset_fill mem_write_def)

text \<open>Clearing the structures, whose last step needs the place of the hash segment.\<close>

lemma ziinit_safe:
  assumes "loading h p i bs bt A s" and "header_area E header_ptr (boot_hash_segment_ptr s) = A"
  shows "\<exists>t. boot_elf_ziinit_structures E header_ptr s = (Inr (), t) \<and> loading h p i bs bt A t \<and>
    (\<forall>x. memory t x \<noteq> memory s x \<longrightarrow> A x)"
proof -
  let ?m1 = "if header_ptr \<noteq> 0 then qmemset header_ptr 0 40 (memory s) else memory s"
  let ?m = "qmemset (boot_hash_segment_ptr s) 0 0x6000 (qmemset (phdr_array E) 0 2240 (qmemset (phdr_array_32 E) 0 1280
     (qmemset (ehdr E) 0 64 (qmemset (ehdr_32 E) 0 52 ?m1))))"
  let ?t = "s\<lparr>is_elf_hash_table_auth_result := False, boot_elf_is_ehdr_phdr_hash_success := False, memory := ?m\<rparr>"
  have run: "boot_elf_ziinit_structures E header_ptr s = (Inr (), ?t)"
    by (simp add: boot_elf_ziinit_structures_def boot_set_hash_table_auth_result_def mem_fill_def boot_get_hash_segment_buffer_def whenb_def)
  have same: "?m x = memory s x" if "\<not> A x" for x
  proof -
    have out: "\<not> unat (x - ehdr_32 E) < 52" "\<not> unat (x - phdr_array_32 E) < 1280" "\<not> unat (x - ehdr E) < 64"
      "\<not> unat (x - phdr_array E) < 2240" "\<not> unat (x - header_ptr) < 40" "\<not> unat (x - boot_hash_segment_ptr s) < 0x6000"
      using that unfolding assms(2) [symmetric] header_area_cases by simp_all
    then show ?thesis by (simp add: fill_outside)
  qed
  have "A x" if "memory ?t x \<noteq> memory s x" for x
  proof (rule ccontr)
    assume "\<not> A x"
    from same [OF this] that show False by simp
  qed
  moreover have "loading h p i bs bt A ?t" using assms(1) by simp
  ultimately show ?thesis using run by blast
qed

lemma header_parts_safe:
  assumes mac: "machine E h bs media U A T" and A: "\<And>x. header_area E header_ptr hash_ptr x \<Longrightarrow> A x"
  shows "keeps (safe_load h p i bs bt U A T) (select_elf_format E)"
    and "keeps (safe_load h p i bs bt U A T) (boot_flash_configure_target_image partition_id)"
    and "keeps (safe_load h p i bs bt U A T) (validate_elf_header E)"
    and "keeps (safe_load h p i bs HDR_META_INFO_TYPE U A T) (find_hash_segment E dest idx)"
proof -
  have area: "unat (x - ehdr_32 E) < 52 \<Longrightarrow> A x" "unat (x - ehdr E) < 64 \<Longrightarrow> A x" for x
    using A by (auto simp: header_area_cases)
  show "keeps (safe_load h p i bs bt U A T) (select_elf_format E)"
    unfolding select_elf_format_def
    by (intro guard_intros state_safe copy_safe fill_safe) (use area in \<open>auto simp: Let_def\<close>)
  show "keeps (safe_load h p i bs bt U A T) (boot_flash_configure_target_image partition_id)"
    unfolding boot_flash_configure_target_image_def boot_flash_dev_if_get_singleton_def dev_sdcc_configure_partition_id_def
      boot_coldplug_set_general_partition_id_def
    by (intro guard_intros state_safe) simp_all
  show "keeps (safe_load h p i bs bt U A T) (validate_elf_header E)"
    unfolding validate_elf_header_def
    by (intro guard_intros state_safe auth_calls_safe [OF mac]) simp_all
  show "keeps (safe_load h p i bs HDR_META_INFO_TYPE U A T) (find_hash_segment E dest idx)"
  proof (induction idx)
    case Nil
    then show ?case by simp
  next
    case (Cons n idx)
    then show ?case
      unfolding find_hash_segment.simps boot_get_hash_segment_buffer_def
      by (intro with_phdr_keeps keeps_if read_safe [OF mac] guard_intros state_safe load_seg_generic_safe [OF mac] guard.rel_refl)
        (simp_all add: Let_def)
  qed
qed

lemma thn_assoc: "thn (thn a b) c = thn a (thn b c)"
  by (simp add: thn_def bnd_assoc)

lemma open_if_closed_safe: "keeps (safe_load h p i bs bt U A T) (open_if_closed E)"
proof (rule keepsI)
  fix s
  show "safe_load h p i bs bt U A T s (final (open_if_closed E) s)"
    by (cases "loading h p i bs bt A s") (auto simp: guarded_def loading_def open_if_closed_def ret_app)
qed

lemma parse_rest_safe:
  assumes mac: "machine E h bs media U A T" and A: "\<And>x. header_area E header_ptr hash_ptr x \<Longrightarrow> A x"
  shows "keeps (safe_load h p i bs HDR_META_INFO_TYPE U A T)
    (bnd (gets trans_if) (\<lambda>tp.
        thn (bl_verify (tp \<noteq> None) (bl_err BL_ERR_NULL_PTR_PASSED BL_ERROR_GROUP_BOOT))
         (thn (bnd (boot_flash_trans_read E tp (ehdr E) 0 SIZEOF_ELF64_EHDR HDR_META_INFO_TYPE) (\<lambda>success.
                 bl_verify success (bl_err BL_ERR_FAILED_TO_COPY_IMG_HDR BL_ERROR_GROUP_BOOT)))
           (select_elf_format E))))"
proof (rule keeps_gets_guarded)
  fix s
  assume "loading h p i bs HDR_META_INFO_TYPE A s"
  then have tp: "trans_if s = Some p" by (simp add: loading_def)
  show "keeps (safe_load h p i bs HDR_META_INFO_TYPE U A T)
    (thn (bl_verify (trans_if s \<noteq> None) (bl_err BL_ERR_NULL_PTR_PASSED BL_ERROR_GROUP_BOOT))
         (thn (bnd (boot_flash_trans_read E (trans_if s) (ehdr E) 0 SIZEOF_ELF64_EHDR HDR_META_INFO_TYPE) (\<lambda>success.
                 bl_verify success (bl_err BL_ERR_FAILED_TO_COPY_IMG_HDR BL_ERROR_GROUP_BOOT)))
           (select_elf_format E)))"
    unfolding tp by (intro guard.keeps_thn guard.keeps_bl_verify read_some_safe [OF mac] header_parts_safe(1) [OF mac A])
qed

text \<open>The header stage after its whitelist is set up and its structures are cleared.\<close>

lemma load_rest_safe:
  assumes mac: "machine E h bs media U A T" and A: "\<And>x. header_area E header_ptr hash_ptr x \<Longrightarrow> A x"
  shows "keeps (safe_load h p i bs HDR_META_INFO_TYPE U A T)
    (bnd (validate_elf_header E) (\<lambda>r.
        thn (bl_verify (r = SMC_SUCCESS) (bl_err (ucast (ucast r :: u16)) BL_ERROR_GROUP_SECIMG))
         (bnd (gets (\<lambda>s. (e_phoff (ehdr_at (elf_format s) (if elf_format s = ELF_CLASS_64 then ehdr E else ehdr_32 E) (memory s)),
                 phdr_array_ptr s, (ucast (ucast (phdr_num s) * phdr_size s) :: u16), trans_if s))) (\<lambda>(ehdr_phoff, p, n, tp).
          bnd (boot_flash_trans_read E tp p (ucast ehdr_phoff) (ucast n) HDR_META_INFO_TYPE) (\<lambda>success.
           thn (bl_verify success (bl_err BL_ERR_FAILED_TO_COPY_IMG_HDR BL_ERROR_GROUP_BOOT))
            (bnd (gets phdr_num) (\<lambda>k. find_hash_segment E dest [0..<unat k])))))))"
proof (rule guard.keeps_bnd [OF header_parts_safe(3) [OF mac A]], assumption, rule guard.keeps_thn [OF guard.keeps_bl_verify],
    rule keeps_gets_guarded, goal_cases)
  case (1 r s)
  then have tp: "trans_if s = Some p" by (simp add: loading_def)
  show ?case unfolding tp prod.case
    by (intro read_some_safe [OF mac] guard.keeps_thn guard.keeps_bl_verify guard.keeps_bnd guard.keeps_gets
        header_parts_safe(4) [OF mac A])
qed

text \<open>The two steps before, which establish what the rest needs.\<close>

lemma header_stage_frame:
  assumes "open_transport h p i bs s" and "trans_if s = Some p" and A: "A = header_area E header_ptr (boot_hash_segment_ptr s)"
    and R: "keeps (safe_load h p i bs HDR_META_INFO_TYPE U A T) R"
    and x: "memory (final (thn (bl_verify c e) (thn (set_header_whitelist E header_ptr) (thn (boot_elf_ziinit_structures E header_ptr) R))) s) x \<noteq> memory s x"
  shows "touched U bs A T x"
proof -
  obtain r t where rt: "set_header_whitelist E header_ptr s = (r, t)" by fastforce
  have ok: "whitelists_ok s" using assms(1) by (simp add: open_transport_def)
  note set = set_header_whitelist_run [OF ok rt]
  have tt: "t = s\<lparr>hdr_meta_whitelst_tbl := hdr_meta_whitelst_tbl t\<rparr>" by (rule set(1))
  have mem: "memory t = memory s" and ptr: "boot_hash_segment_ptr t = boot_hash_segment_ptr s"
    by (subst tt, simp)+
  show ?thesis
  proof (cases "c \<and> r = Inr ()")
    case False
    then show ?thesis using x rt mem by (cases r) (auto simp: thn_app bl_verify_def ret_app fatal_app split: if_splits)
  next
    case True
    have "sdcc_partition h k i bs t = sdcc_partition h k i bs s" for k
      by (subst tt) (simp add: sdcc_partition_def ufs_handle_def handle_partition_def handle_lun_def handle_ops_def pools_ok_def)
    moreover have "trans_if t = trans_if s" "trans_priv t = trans_priv s" "dev_sdcc_if_singleton t = dev_sdcc_if_singleton s"
      "curr_image_whitelst_tbl t = curr_image_whitelst_tbl s" by (subst tt, simp)+
    ultimately have "loading h p i bs HDR_META_INFO_TYPE A t"
      using assms(1,2) set(2,3) True A by (simp add: loading_def open_transport_def whitelists_ok_def buffer_table_def)
    from ziinit_safe [OF this, of E header_ptr] obtain u where u: "boot_elf_ziinit_structures E header_ptr t = (Inr (), u)"
      "loading h p i bs HDR_META_INFO_TYPE A u" "\<And>x. memory u x \<noteq> memory t x \<Longrightarrow> A x"
      using A ptr by auto
    have "memory (final R u) x \<noteq> memory s x"
      using x rt True u(1) by (simp add: thn_app ret_app)
    then show ?thesis using keepsD [OF R, of u] u(2,3) mem by (auto simp: guarded_def touched_def) metis
  qed
qed


subsection \<open>A concrete loader\<close>

lemma ranges_disjoint:
  fixes a b x :: u64
  assumes "unat b + k \<le> unat a" and "unat a + n \<le> 18446744073709551616" and "unat (x - a) < n"
  shows "\<not> unat (x - b) < k"
proof
  assume "unat (x - b) < k"
  have "k \<le> 18446744073709551616" "n \<le> 18446744073709551616" using assms(1,2) unat64_lt [of a] by linarith+
  then obtain i j where i: "i < n" "x = a + of_nat i" and j: "j < k" "x = b + of_nat j"
    using in_range_offset [of n x a] in_range_offset [of k x b] assms(3) \<open>unat (x - b) < k\<close> by auto
  have "unat x = unat a + i" using i assms(2) unat_of_nat64 [of "unat a + i"] by simp
  moreover have "unat b + j < 18446744073709551616" using j(1) assms(1) unat64_lt [of a] by linarith
  then have "unat x = unat b + j" using j(2) unat_of_nat64 [of "unat b + j"] by simp
  ultimately show False using j(1) assms(1) by linarith
qed

definition example_loader_board :: "(nat \<Rightarrow> u8) loader_board" where
  "example_loader_board = crypto_board.extend
     (secure_board.extend example_secure_board
       \<lparr>CeMLInit = (\<lambda>d. (0, d)), CeMLHashInit = (\<lambda>a d. ((1, 0), d)), CeMLHashSetParam = (\<lambda>h p v a d. (0, d)),
        CeMLHashUpdate = (\<lambda>h bs d. (0, d)), CeMLHashFinal = (\<lambda>h d. ((1, []), d)), CeMLHashDeInit = (\<lambda>h d. (0, d)),
        CeMLDeInit = (\<lambda>d. (0, d))\<rparr>)
     \<lparr>ehdr_32 = 0x20000, ehdr = 0x20100, phdr_array_32 = 0x20200, phdr_array = 0x21000, verify_digest_buf = 0x22000\<rparr>"

definition example_loader :: "(nat \<Rightarrow> u8) loader_state" where
  "example_loader = hash_state.extend
     (auth_state.extend example_auth \<lparr>sbl_hash_algorithm = SBL_HASH_SHA256, sbl_hash_len = 32, non_block_mode = 0\<rparr>)
     \<lparr>elf_format = 2, ehdr_ptr = 0x20100, phdr_array_ptr = 0x21000, ehdr_size = 64, phdr_size = 56, phdr_num = 2,
      trans_if = Some 0, hash_segment_start = 0, elf_ssa_enabled = False, elf_cfg_table_auth = True, hash_segment_base_addr = 0,
      hash_segment_length = 0, total_elf_segments_size = 0, boot_elf_is_ehdr_phdr_hash_success = False,
      hash_segment_base_ptr = 0, sbl_white_list_area = replicate 15 (0, 0)\<rparr>"

definition example_monitor_area :: "u64 \<Rightarrow> bool" where
  "example_monitor_area x \<longleftrightarrow> unat (x - 0x71000) < 240"

lemma example_loader_flash:
  "open_transport 1 0 0 4 example_loader" "trans_if example_loader = Some 0"
  "curr_image_whitelst_tbl example_loader = curr_image_whitelst_tbl example_flash"
  "boot_hash_segment_ptr example_loader = 0x60000"
proof -
  have "sdcc_partition 1 k 0 4 example_loader = sdcc_partition 1 k 0 4 example_flash" for k
    by (simp add: sdcc_partition_def ufs_handle_def handle_partition_def handle_lun_def handle_ops_def pools_ok_def
        example_loader_def hash_state.defs auth_state.defs example_auth_def flash_state.defs)
  then show "open_transport 1 0 0 4 example_loader"
    using example_flash_open by (simp add: open_transport_def whitelists_ok_def)
      (simp add: example_loader_def hash_state.defs auth_state.defs example_auth_def flash_state.defs)
  show "trans_if example_loader = Some 0" "boot_hash_segment_ptr example_loader = 0x60000"
    "curr_image_whitelst_tbl example_loader = curr_image_whitelst_tbl example_flash"
    by (simp_all add: example_loader_def hash_state.defs auth_state.defs example_auth_def flash_state.defs)
qed

lemma example_machine:
  assumes "\<And>x. A x \<Longrightarrow> \<not> unat (x - 0x1000) < 4"
  shows "machine example_loader_board h 4 (ram_medium 4) 0x1000 A example_monitor_area"
proof -
  have "board_media example_loader_board h 4 (ram_medium 4)"
    using example_board_media [of h]
    by (simp add: board_media_def ufs_media_def example_loader_board_def crypto_board.defs secure_board.defs
        example_secure_board_def board.defs)
  then show ?thesis using assms
    by (simp add: machine_def example_monitor_area_def) (simp add: example_loader_board_def crypto_board.defs secure_board.defs
        example_secure_board_def board.defs example_board_def example_platform_def platform.defs drivers.defs)
qed

theorem boot_load_elf_image_safe_witness:
  "\<exists>r t. boot_load_elf_image example_loader_board None 7 True example_loader = (r, t) \<and>
    (\<forall>x. memory t x \<noteq> memory example_loader x \<longrightarrow>
       allowed (curr_image_whitelst_tbl example_loader) x \<or> unat (x - 0x1000) < 4 \<or> example_monitor_area x)"
proof (rule boot_load_elf_image_safe [OF example_loader_flash(1,2)], rule example_machine)
  show "\<not> unat (x - 0x1000) < 4" if "allowed (curr_image_whitelst_tbl example_loader) x" for x
    using that example_flash_buffer [of x] by (simp add: example_loader_flash(3) buffer_table_def)
qed


end
