(* ===== verification/Elf_Correct.thy ===== *)
theory Elf_Correct
  imports Elf_Safety
begin

text \<open>
  What the ELF loader achieves: which segments a segment whitelist selects, that loading an
  image is the placement of its segments in order (a refinement of an abstract loader), and
  that an image of a segmented-authentication subsystem cannot be loaded in this build.
\<close>

subsection \<open>Segment whitelists\<close>

text \<open>The entries before the terminator, and whether one of them contains a segment.\<close>

definition listed :: "whitelst_tbl_entry list \<Rightarrow> whitelst_tbl_entry list" where
  "listed tbl = takeWhile (\<lambda>e. start_addr e \<noteq> 0 \<and> entry_size e \<noteq> 0) tbl"

definition contains_segment :: "whitelst_tbl_entry list \<Rightarrow> elf_phdr \<Rightarrow> bool" where
  "contains_segment tbl ph \<longleftrightarrow> (\<exists>e \<in> set (listed tbl). unat (start_addr e) \<le> unat (p_paddr ph) \<and>
     unat (p_paddr ph) + unat (p_memsz ph) \<le> unat (start_addr e) + unat (entry_size e))"

definition ends_below_top :: "u64 \<Rightarrow> u64 \<Rightarrow> bool" where
  "ends_below_top a n \<longleftrightarrow> unat a + unat n < 2 ^ 64 - 1"

lemma ends_below_top_iff: "MAX_ADDRESS - a > n \<longleftrightarrow> ends_below_top a n"
proof -
  have "unat a \<le> 18446744073709551615" using unat64_lt [of a] by linarith
  then have "a \<le> MAX_ADDRESS" by (simp add: word_le_nat_alt)
  then have "unat (MAX_ADDRESS - a) = 18446744073709551615 - unat a" by (simp add: unat_sub)
  then show ?thesis using unat64_lt [of a] by (auto simp: ends_below_top_def word_less_nat_alt)
qed

lemma ends_below_top_add: "ends_below_top a n \<Longrightarrow> unat (a + n) = unat a + unat n"
  by (simp add: ends_below_top_def unat_word_ariths)

lemma segment_whitelist_loop_run:
  assumes "ends_below_top base n" and "listed tbl \<noteq> tbl"
  shows "\<exists>r. segment_whitelist_loop base n tbl s = (r, s) \<and>
    (case r of Inr b \<Rightarrow> b \<longleftrightarrow> (\<exists>e \<in> set (listed tbl). unat (start_addr e) \<le> unat base \<and>
         unat base + unat n \<le> unat (start_addr e) + unat (entry_size e))
     | Inl f \<Rightarrow> f = bl_err BL_ERR_INTEGER_OVERFLOW BL_ERROR_GROUP_BOOT \<and>
         (\<exists>e \<in> set (listed tbl). \<not> ends_below_top (start_addr e) (entry_size e)))"
  using assms(2)
proof (induction tbl)
  case Nil
  then show ?case by (simp add: listed_def)
next
  case (Cons e es)
  let ?here = "unat (start_addr e) \<le> unat base \<and> unat base + unat n \<le> unat (start_addr e) + unat (entry_size e)"
  show ?case
  proof (cases "start_addr e \<noteq> 0 \<and> entry_size e \<noteq> 0")
    case False
    then show ?thesis by (auto simp: listed_def ret_app)
  next
    case True
    then have l: "listed (e # es) = e # listed es" by (simp add: listed_def)
    show ?thesis
    proof (cases "ends_below_top (start_addr e) (entry_size e)")
      case False
      then show ?thesis using True l by (auto simp: thn_app fatal_app ends_below_top_iff)
    next
      case ok: True
      have here: "base \<ge> start_addr e \<and> base + n \<le> start_addr e + entry_size e \<longleftrightarrow> ?here"
        using ends_below_top_add [OF assms(1)] ends_below_top_add [OF ok] by (simp add: word_le_nat_alt)
      show ?thesis
      proof (cases ?here)
        case t: True
        then have "segment_whitelist_loop base n (e # es) s = (Inr True, s)"
          using True ok here by (simp add: ends_below_top_iff ret_app)
        then show ?thesis using t l by auto
      next
        case f: False
        then have "\<not> (base \<ge> start_addr e \<and> base + n \<le> start_addr e + entry_size e)" using here by simp
        then have run: "segment_whitelist_loop base n (e # es) s = segment_whitelist_loop base n es s"
          using True ok by (simp only: segment_whitelist_loop.simps if_False ends_below_top_iff bl_verify_simps thn_ret) simp
        have "listed es \<noteq> es" using Cons.prems l by auto
        from Cons.IH [OF this] obtain r where r: "segment_whitelist_loop base n es s = (r, s)"
          "case r of Inr b \<Rightarrow> b \<longleftrightarrow> (\<exists>e \<in> set (listed es). unat (start_addr e) \<le> unat base \<and>
               unat base + unat n \<le> unat (start_addr e) + unat (entry_size e))
           | Inl f \<Rightarrow> f = bl_err BL_ERR_INTEGER_OVERFLOW BL_ERROR_GROUP_BOOT \<and>
               (\<exists>e \<in> set (listed es). \<not> ends_below_top (start_addr e) (entry_size e))" by blast
        then show ?thesis using run l f by (cases r) auto
      qed
    qed
  qed
qed

lemma segment_in_whitelist_run:
  assumes "q \<noteq> 0" and "elf_format s = ELF_CLASS_32 \<or> elf_format s = ELF_CLASS_64" and "listed tbl \<noteq> tbl"
    and "ph = phdr_at (elf_format s) q (memory s)"
  shows "\<exists>r. boot_elf_segment_in_whitelist q tbl s = (r, s) \<and>
    (\<forall>b. r = Inr b \<longrightarrow> b = contains_segment tbl ph) \<and>
    (\<forall>f. r = Inl f \<longrightarrow> f = bl_err BL_ERR_INTEGER_OVERFLOW BL_ERROR_GROUP_BOOT \<and>
       (\<not> ends_below_top (p_paddr ph) (p_memsz ph) \<or> (\<exists>e \<in> set (listed tbl). \<not> ends_below_top (start_addr e) (entry_size e))))"
proof (cases "ends_below_top (p_paddr ph) (p_memsz ph)")
  case False
  then show ?thesis using assms by (auto simp: boot_elf_segment_in_whitelist_def Let_def thn_app fatal_app ends_below_top_iff)
next
  case True
  have run: "boot_elf_segment_in_whitelist q tbl s = segment_whitelist_loop (p_paddr ph) (p_memsz ph) tbl s"
    using True assms by (auto simp: boot_elf_segment_in_whitelist_def Let_def ends_below_top_iff)
  from segment_whitelist_loop_run [OF True assms(3), of s] obtain r where
    "segment_whitelist_loop (p_paddr ph) (p_memsz ph) tbl s = (r, s)"
    "case r of Inr b \<Rightarrow> b = contains_segment tbl ph
     | Inl f \<Rightarrow> f = bl_err BL_ERR_INTEGER_OVERFLOW BL_ERROR_GROUP_BOOT \<and>
         (\<exists>e \<in> set (listed tbl). \<not> ends_below_top (start_addr e) (entry_size e))"
    unfolding contains_segment_def by blast
  then show ?thesis using run by (cases r) auto
qed

text \<open>
  (C20) The selection of a segment. With a terminated whitelist and a known format, the
  answer is whether one listed range contains the segment, the ends compared as unbounded
  numbers; the call changes nothing, and its only fault is the overflow report, which needs
  a segment or a listed range that reaches the top of the address space.
\<close>

theorem boot_elf_segment_in_whitelist_correct:
  assumes "q \<noteq> 0" and "elf_format s = ELF_CLASS_32 \<or> elf_format s = ELF_CLASS_64" and "listed tbl \<noteq> tbl"
    and "ph = phdr_at (elf_format s) q (memory s)"
  shows "\<exists>r. boot_elf_segment_in_whitelist q tbl s = (r, s) \<and>
    (\<forall>b. r = Inr b \<longrightarrow> b = contains_segment tbl ph) \<and>
    (\<forall>f. r = Inl f \<longrightarrow> f = bl_err BL_ERR_INTEGER_OVERFLOW BL_ERROR_GROUP_BOOT \<and>
       (\<not> ends_below_top (p_paddr ph) (p_memsz ph) \<or> (\<exists>e \<in> set (listed tbl). \<not> ends_below_top (start_addr e) (entry_size e))))"
  by (rule segment_in_whitelist_run [OF assms])

subsection \<open>The abstract loader\<close>

text \<open>
  A segment is placed by writing its bytes of the image and then zeros up to its size in
  memory; an image is loaded by placing its segments in order. \<open>img\<close> gives the bytes of
  the image at an offset.
\<close>

definition place :: "(nat \<Rightarrow> nat \<Rightarrow> bytes) \<Rightarrow> elf_phdr \<Rightarrow> mem \<Rightarrow> mem" where
  "place img ph m =
     (if p_memsz ph \<noteq> 0 \<and> p_filesz ph \<le> p_memsz ph
      then mem_write (p_paddr ph) (img (unat (p_offset ph)) (unat (p_filesz ph)) @
             replicate (unat (p_memsz ph) - unat (p_filesz ph)) 0) m
      else m)"

definition load_spec :: "(nat \<Rightarrow> nat \<Rightarrow> bytes) \<Rightarrow> elf_phdr list \<Rightarrow> mem \<Rightarrow> mem" where
  "load_spec img phs m = fold (place img) phs m"

definition image_bytes :: "nat \<Rightarrow> ('d \<Rightarrow> nat \<Rightarrow> bytes) \<Rightarrow> nat \<Rightarrow> ('d, 'a) loader_state_scheme \<Rightarrow> nat \<Rightarrow> nat \<Rightarrow> bytes" where
  "image_bytes bs media i s = medium_bytes bs (media (drv s)) (parti_start i s)"

lemma length_image_bytes [simp]: "length (image_bytes bs media i s off n) = n"
  by (simp add: image_bytes_def)

text \<open>Sizes and offset that the 32-bit interfaces below the loader can carry.\<close>

definition fits32 :: "elf_phdr \<Rightarrow> bool" where
  "fits32 ph \<longleftrightarrow> unat (p_offset ph) < 2 ^ 32 \<and> unat (p_memsz ph) < 2 ^ 32 \<and> unat (p_filesz ph) < 2 ^ 32"

lemma unat_ucast32_fits: "unat v < 4294967296 \<Longrightarrow> unat (ucast (v :: u64) :: u32) = unat v"
  by (simp add: unat_ucast_64_32)

lemma agree_write:
  assumes "mem_read dest (length xs) m' = xs" and "\<And>x. m' x \<noteq> m x \<Longrightarrow> unat (x - dest) < length xs \<or> V x"
    and "\<not> V x" and "length xs \<le> 18446744073709551616"
  shows "m' x = mem_write dest xs m x"
proof (cases "unat (x - dest) < length xs")
  case True
  then obtain k where k: "k < length xs" "x = dest + of_nat k" using in_range_offset [of "length xs" x dest] assms(4) by auto
  have "m' x = mem_read dest (length xs) m' ! k" using k by simp
  also have "\<dots> = mem_write dest xs m x" using k assms(1,4) by (simp add: mem_write_inside)
  finally show ?thesis .
next
  case False
  then show ?thesis using assms(2,3) by (metis mem_write_outside)
qed

lemma mem_write_cong: "m x = m' x \<Longrightarrow> mem_write a xs m x = mem_write a xs m' x"
  by (simp add: mem_write_def)

lemma place_split:
  assumes "p_memsz ph \<noteq> 0" and "p_filesz ph \<le> p_memsz ph" and "length (img (unat (p_offset ph)) (unat (p_filesz ph))) = unat (p_filesz ph)"
  shows "place img ph m = mem_write (p_paddr ph + p_filesz ph) (replicate (unat (p_memsz ph) - unat (p_filesz ph)) 0)
    (mem_write (p_paddr ph) (img (unat (p_offset ph)) (unat (p_filesz ph))) m)"
proof -
  let ?xs = "img (unat (p_offset ph)) (unat (p_filesz ph))"
  let ?ys = "replicate (unat (p_memsz ph) - unat (p_filesz ph)) (0 :: u8)"
  have "length ?xs + length ?ys \<le> 18446744073709551616"
    using assms(2,3) less_imp_le [OF unat64_lt [of "p_memsz ph"]] by (simp add: word_le_nat_alt)
  from mem_write_append [OF this, of "p_paddr ph" m] show ?thesis using assms by (simp add: place_def)
qed

text \<open>A read that succeeds has written the bytes of the image, and nothing else outside the block buffer.\<close>

lemma read_places:
  assumes mac: "machine E h bs media U A T" and load: "loading h p i bs bt A s"
    and run: "bnd (gets trans_if) (\<lambda>tp. bnd (boot_flash_trans_read E tp dest off n bt) (\<lambda>success. bl_verify success e)) s = (Inr (), u)"
  shows "flash_step s u \<and> media (drv u) = media (drv s) \<and> (\<forall>x. \<not> unat (x - U) < bs \<longrightarrow>
    memory u x = mem_write dest (medium_bytes bs (media (drv s)) (parti_start i s) (unat off) (unat n)) (memory s) x)"
proof -
  let ?xs = "medium_bytes bs (media (drv s)) (parti_start i s) (unat off) (unat n)"
  have op: "open_transport h p i bs s" and tp: "trans_if s = Some p" and al: "\<And>x. allowed (buffer_table bt s) x \<Longrightarrow> A x"
    using load by (simp_all add: loading_def)
  have U: "\<And>x. allowed (buffer_table bt s) x \<Longrightarrow> \<not> unat (x - U) < bs" using al mac by (simp add: machine_def)
  have m: "board_media E h bs media" "4 \<le> bs" "dev_sdcc_buf_unalign E = U" "U \<noteq> 0"
    using mac by (simp_all add: machine_def)
  obtain b t where t: "boot_flash_trans_read E (Some p) dest off n bt s = (Inr b, t)" "flash_step s t"
    "media (drv t) = media (drv s)"
    "\<And>x. memory t x \<noteq> memory s x \<Longrightarrow> in_range dest (ucast n) x \<and> allowed (buffer_table bt s) x \<or> unat (x - U) < bs"
    "b \<Longrightarrow> n \<noteq> 0 \<and> mem_read dest (unat n) (memory t) = ?xs"
    by (rule flash_read_run [OF op m(1,2,3,4), where bt = bt and dest = dest and off = off and n = n], erule U)
      (rule that; assumption)
  have b: "b" "u = t" using run tp t(1) by (auto simp: bnd_app bl_verify_def ret_app fatal_app split: if_splits)
  have "memory t x = mem_write dest ?xs (memory s) x" if x: "\<not> unat (x - U) < bs" for x
  proof (rule agree_write [where V = "\<lambda>x. unat (x - U) < bs"])
    show "mem_read dest (length ?xs) (memory t) = ?xs" using t(5) b(1) by simp
    show "unat (y - dest) < length ?xs \<or> unat (y - U) < bs" if "memory t y \<noteq> memory s y" for y
      using t(4) [OF that] by (auto simp: in_range_def)
    show "length ?xs \<le> 18446744073709551616" using unat32_lt [of n] by (simp del: unat32_lt)
  qed (rule x)
  then show ?thesis using b(2) t(2,3) by simp
qed

lemma flash_step_memory: "flash_step u (memory_update f u)"
  by (rule flash_stepI [where m = "f (memory u)" and d = "drv u" and l = "coldplug_debug_info u" and k = "coldplug_debug_info_idx u"
        and a = "flash_timer_start_timetick u" and b = "flash_total_time_us u" and c = "flash_total_bytes_read u"
        and e = "flash_byte_counter u"]) simp

text \<open>A segment that is loaded without a fault has been placed, outside the block buffer.\<close>

lemma load_seg_generic_places:
  assumes mac: "machine E h bs media U A T" and load: "loading h p i bs IMAGE_BODY_TYPE A s"
    and ph: "ph = phdr_at (elf_format s) q (memory s)" and small: "fits32 ph"
    and run: "boot_elf_load_seg_generic E q (p_paddr ph) IMAGE_BODY_TYPE s = (Inr (), t)"
  shows "flash_step s t \<and> media (drv t) = media (drv s) \<and>
    (\<forall>x. \<not> unat (x - U) < bs \<longrightarrow> memory t x = place (image_bytes bs media i s) ph (memory s) x)"
proof (cases "p_memsz ph = 0")
  case True
  then have "t = s" using run ph by (auto simp: boot_elf_load_seg_generic_def thn_app bl_verify_def ret_app fatal_app split: if_splits)
  then show ?thesis using True by (simp add: place_def)
next
  case mem: False
  let ?d = "p_paddr ph" and ?n = "ucast (p_filesz ph) :: u32" and ?o = "ucast (p_offset ph) :: u32"
  let ?xs = "image_bytes bs media i s (unat (p_offset ph)) (unat (p_filesz ph))"
  have sz: "unat ?n = unat (p_filesz ph)" "unat ?o = unat (p_offset ph)"
    using small by (simp_all add: fits32_def unat_ucast_64_32)
  have chk: "boot_whitelist_address_range_check ?d (p_memsz ph) IMAGE_BODY_TYPE s =
      (Inr (?d \<le> ?d + p_memsz ph \<and> covers (buffer_table IMAGE_BODY_TYPE s) ?d (p_memsz ph)), s)"
    using range_check_run [of s ?d "p_memsz ph" IMAGE_BODY_TYPE] load mem by (simp add: loading_def open_transport_def)
  let ?read = "bnd (gets trans_if) (\<lambda>tp. bnd (boot_flash_trans_read E tp ?d ?o ?n IMAGE_BODY_TYPE) (\<lambda>success.
         bl_verify success (bl_err BL_ERR_FLASH_READ_FAIL BL_ERROR_GROUP_BOOT)))"
  let ?c = "p_memsz ph \<noteq> 0 \<and> p_filesz ph \<noteq> 0 \<and> p_memsz ph \<ge> p_filesz ph"
  let ?fill = "whenb (p_memsz ph > p_filesz ph \<and> ?d + p_filesz ph \<ge> ?d)
      (mem_fill (?d + p_filesz ph) (ucast (p_memsz ph - p_filesz ph)))"
  have wrap: "?d \<le> ?d + p_memsz ph" and run': "thn (whenb ?c ?read) ?fill s = (Inr (), t)"
    using run chk mem unfolding ph [symmetric] boot_elf_load_seg_generic_def
    by (auto simp: thn_app bnd_app bl_verify_def ret_app fatal_app ph split: if_splits)
  show ?thesis
  proof (cases "p_filesz ph \<le> p_memsz ph")
    case False
    then have "\<not> ?c" "\<not> (p_memsz ph > p_filesz ph \<and> ?d + p_filesz ph \<ge> ?d)" by (auto dest: less_imp_le)
    then have "t = s" using run' by (simp only: whenb_def if_False thn_ret) (simp add: ret_app)
    then show ?thesis using False by (simp add: place_def)
  next
    case le: True
    obtain u where u: "whenb ?c ?read s = (Inr (), u)" "?fill u = (Inr (), t)"
      using run' by (auto elim: thn_InrE)
    have read: "flash_step s u \<and> media (drv u) = media (drv s) \<and> (\<forall>x. \<not> unat (x - U) < bs \<longrightarrow> memory u x = mem_write ?d ?xs (memory s) x)"
    proof (cases "p_filesz ph = 0")
      case True
      then have "u = s" using u(1) by (simp add: ret_app)
      then show ?thesis using True by (simp add: image_bytes_def medium_bytes_def)
    next
      case False
      then have "?read s = (Inr (), u)" using u(1) mem le by simp
      from read_places [OF mac load this] show ?thesis unfolding sz by (simp add: image_bytes_def)
    qed
    let ?k = "unat (p_memsz ph) - unat (p_filesz ph)"
    have "unat ?d + unat (p_filesz ph) < 18446744073709551616"
      using no_wrap_iff [of ?d "p_memsz ph"] wrap le by (simp add: word_le_nat_alt)
    then have nowrap: "?d \<le> ?d + p_filesz ph" by (simp add: no_wrap_iff)
    have k: "unat (ucast (p_memsz ph - p_filesz ph) :: u32) = ?k"
    proof -
      have "?k < 4294967296" using small by (simp add: fits32_def less_imp_diff_less)
      then show ?thesis using le by (simp add: unat_ucast_64_32 unat_sub)
    qed
    have t: "flash_step u t \<and> drv t = drv u \<and> memory t = mem_write (?d + p_filesz ph) (replicate ?k 0) (memory u)"
    proof (cases "p_memsz ph > p_filesz ph")
      case True
      then have t: "t = memory_update (qmemset (?d + p_filesz ph) 0 (ucast (p_memsz ph - p_filesz ph))) u"
        using u(2) nowrap by (simp add: mem_fill_def)
      have "flash_step u t" unfolding t by (rule flash_step_memory)
      then show ?thesis using t k by (simp add: qmemset_fill)
    next
      case False
      then have "?k = 0" "t = u" using le u(2) by (simp_all add: ret_app word_le_nat_alt word_less_nat_alt not_less)
      then show ?thesis by simp
    qed
    have "memory t x = place (image_bytes bs media i s) ph (memory s) x" if x: "\<not> unat (x - U) < bs" for x
    proof -
      have "memory t x = mem_write (?d + p_filesz ph) (replicate ?k 0) (memory u) x" using t by simp
      also have "\<dots> = mem_write (?d + p_filesz ph) (replicate ?k 0) (mem_write ?d ?xs (memory s)) x"
        by (rule mem_write_cong) (use read x in simp)
      also have "\<dots> = place (image_bytes bs media i s) ph (memory s) x" using mem le by (simp add: place_split)
      finally show ?thesis .
    qed
    then show ?thesis using t read flash_step_trans by (metis (no_types, lifting))
  qed
qed

text \<open>
  The secure monitor decides which segments are loadable: \<open>valid\<close> for the entry at an
  address of the program header table, the same whenever it is asked.
\<close>

definition monitor_decides ::
  "('d, 'p) loader_board_scheme \<Rightarrow> ('d \<Rightarrow> nat \<Rightarrow> bytes) \<Rightarrow> u8 \<Rightarrow> (u64 \<Rightarrow> bool) \<Rightarrow> bool" where
  "monitor_decides E media fmt valid \<longleftrightarrow> (\<forall>q m d. case fastcall_tz E TZ_PIL_SEC_IMG_VALID_SEG_ID 0x043
       [ucast fmt, q, if fmt = ELF_CLASS_64 then 56 else 32] [] (m, d) of
     ((_, reg), _, d') \<Rightarrow> ((ucast reg :: u8) \<noteq> 0 \<longleftrightarrow> valid q) \<and> media d' = media d)"

definition same_setup :: "('d \<Rightarrow> nat \<Rightarrow> bytes) \<Rightarrow> nat \<Rightarrow> ('d, 'a) loader_state_scheme \<Rightarrow> ('d, 'a) loader_state_scheme \<Rightarrow> bool" where
  "same_setup media i s t \<longleftrightarrow> elf_format t = elf_format s \<and> media (drv t) = media (drv s) \<and> parti_start i t = parti_start i s"

lemma same_setup_image: "same_setup media i s t \<Longrightarrow> image_bytes bs media i t = image_bytes bs media i s"
  by (simp add: same_setup_def image_bytes_def)

lemma same_setup_trans: "same_setup media i s t \<Longrightarrow> same_setup media i t u \<Longrightarrow> same_setup media i s u"
  by (simp add: same_setup_def)

lemma valid_call_run:
  assumes mac: "machine E h bs media U A T" and dec: "monitor_decides E media (elf_format s) valid"
  obtains u where "boot_sec_img_auth_is_valid_segment E (elf_format s) q s = (Inr (valid q), u)"
    and "same_setup media i s u" and "\<And>p bt. loading h p i bs bt A u = loading h p i bs bt A s"
    and "\<And>x. \<not> T x \<Longrightarrow> memory u x = memory s x"
proof -
  obtain st reg m d where call: "fastcall_tz E TZ_PIL_SEC_IMG_VALID_SEG_ID 0x043
       [ucast (elf_format s), q, if elf_format s = ELF_CLASS_64 then 56 else 32] [] (memory s, drv s) = ((st, reg), m, d)"
    by (metis prod.collapse)
  let ?u = "s\<lparr>memory := m, drv := d\<rparr>"
  have v: "(ucast reg :: u8) \<noteq> 0 \<longleftrightarrow> valid q" and md: "media d = media (drv s)"
    using dec [unfolded monitor_decides_def, THEN spec, of q, THEN spec, of "memory s", THEN spec, of "drv s"] call
    by simp_all
  have "T x" if "m x \<noteq> memory s x" for x
    using mac that call unfolding machine_def by (metis fst_conv snd_conv)
  moreover have "boot_sec_img_auth_is_valid_segment E (elf_format s) q s = (Inr (valid q), ?u)"
    using call v by (simp add: boot_sec_img_auth_is_valid_segment_def fastcall_def bnd_app ret_app)
  moreover have "same_setup media i s ?u"
    using md by (simp add: same_setup_def parti_start_def handle_partition_def)
  ultimately show thesis using that [of ?u] by auto
qed

definition phdr_bytes :: "u8 \<Rightarrow> nat" where
  "phdr_bytes fmt = (if fmt = ELF_CLASS_64 then 56 else 32)"

lemma phdr_at_cong:
  assumes "\<And>k. k < phdr_bytes fmt \<Longrightarrow> m (q + of_nat k) = m' (q + of_nat k)"
  shows "phdr_at fmt q m = phdr_at fmt q m'"
proof -
  have "mem_read (q + of_nat j) n m = mem_read (q + of_nat j) n m'" if "j + n \<le> phdr_bytes fmt" for j n
    using assms [of "j + _"] that by (auto simp: mem_read_def add.assoc simp flip: of_nat_add)
  from this [of 0] this [of 4] this [of 8] this [of 12] this [of 16] this [of 20] this [of 24] this [of 32] this [of 40]
  show ?thesis by (simp add: phdr_bytes_def phdr_at_def elf64_phdr_at_def elf32_phdr_at_def load32_def load64_def split: if_splits)
qed

lemma load_seg_places:
  assumes mac: "machine E h bs media U A T" and dec: "monitor_decides E media (elf_format s) valid"
    and load: "loading h p i bs IMAGE_BODY_TYPE A s" and ph: "ph = phdr_at (elf_format s) q (memory s)" and small: "fits32 ph"
    and safe: "\<And>k. k < phdr_bytes (elf_format s) \<Longrightarrow> \<not> T (q + of_nat k)" and run: "boot_elf_load_seg E q s = (Inr (), t)"
  shows "loading h p i bs IMAGE_BODY_TYPE A t \<and> same_setup media i s t \<and> (\<forall>x. \<not> unat (x - U) < bs \<and> \<not> T x \<longrightarrow>
    memory t x = (if valid q then place (image_bytes bs media i s) ph else id) (memory s) x)"
proof -
  obtain u where u: "boot_sec_img_auth_is_valid_segment E (elf_format s) q s = (Inr (valid q), u)"
    "same_setup media i s u" "\<And>p bt. loading h p i bs bt A u = loading h p i bs bt A s"
    "\<And>x. \<not> T x \<Longrightarrow> memory u x = memory s x" by (rule valid_call_run [OF mac dec, of q i]) blast
  have run': "whenb (valid q) (boot_elf_load_seg_generic E q (p_paddr ph) IMAGE_BODY_TYPE) u = (Inr (), t)"
    using run u(1) ph by (auto simp: boot_elf_load_seg_def bnd_app elim!: thn_InrE bl_verify_InrE)
  show ?thesis
  proof (cases "valid q")
    case False
    then show ?thesis using run' u load by (simp add: ret_app)
  next
    case True
    have ph': "ph = phdr_at (elf_format u) q (memory u)"
      using ph u(2,4) safe phdr_at_cong [of "elf_format s" "memory u" q "memory s"] by (simp add: same_setup_def)
    have "boot_elf_load_seg_generic E q (p_paddr ph) IMAGE_BODY_TYPE u = (Inr (), t)" using run' True by simp
    from load_seg_generic_places [OF mac _ ph' small this, of p i] u(3) load have
      t: "flash_step u t" "media (drv t) = media (drv u)"
      "\<And>x. \<not> unat (x - U) < bs \<Longrightarrow> memory t x = place (image_bytes bs media i u) ph (memory u) x" by blast+
    have eq: "elf_format t = elf_format u" "trans_if t = trans_if u" using t(1) by (auto simp: flash_step_def)
    have "loading h p i bs IMAGE_BODY_TYPE A t"
      using u(3) load flash_step_frame(1,2) [OF t(1)] eq by (simp add: loading_def)
    moreover have "same_setup media i u t"
      using t(2) eq flash_step_frame(3) [OF t(1)] by (simp add: same_setup_def)
    moreover have "memory t x = place (image_bytes bs media i s) ph (memory s) x" if "\<not> unat (x - U) < bs" "\<not> T x" for x
      using t(3) [OF that(1)] u(4) [OF that(2)] same_setup_image [OF u(2)] by (simp add: place_def mem_write_def)
    ultimately show ?thesis using True same_setup_trans [OF u(2)] by simp
  qed
qed

definition chosen :: "whitelst_tbl_entry list option \<Rightarrow> elf_phdr \<Rightarrow> bool" where
  "chosen wl ph = (case wl of None \<Rightarrow> True | Some tbl \<Rightarrow> contains_segment tbl ph)"

definition terminated :: "whitelst_tbl_entry list option \<Rightarrow> bool" where
  "terminated wl = (case wl of None \<Rightarrow> True | Some tbl \<Rightarrow> listed tbl \<noteq> tbl)"

lemma segment_selected_run:
  assumes "terminated wl" and "q \<noteq> 0" and "elf_format s = ELF_CLASS_32 \<or> elf_format s = ELF_CLASS_64"
    and "segment_selected wl q s = (Inr b, t)"
  shows "t = s \<and> b = chosen wl (phdr_at (elf_format s) q (memory s))"
proof (cases wl)
  case None
  then show ?thesis using assms(4) by (simp add: segment_selected_def chosen_def ret_app)
next
  case (Some tbl)
  then show ?thesis
    using segment_in_whitelist_run [OF assms(2,3) _ refl, of tbl] assms(1,4)
    by (auto simp: segment_selected_def chosen_def terminated_def)
qed

text \<open>The program headers as the loader finds them, and those it loads among the first \<open>n\<close>.\<close>

definition program_header :: "('d, 'p) loader_board_scheme \<Rightarrow> ('d, 'a) loader_state_scheme \<Rightarrow> nat \<Rightarrow> elf_phdr" where
  "program_header E s k = phdr_at (elf_format s) (phdr_entry E (elf_format s) k) (memory s)"

definition loaded_segments ::
  "('d, 'p) loader_board_scheme \<Rightarrow> (u64 \<Rightarrow> bool) \<Rightarrow> whitelst_tbl_entry list option \<Rightarrow> ('d, 'a) loader_state_scheme \<Rightarrow> nat \<Rightarrow> elf_phdr list" where
  "loaded_segments E valid wl s n = map (program_header E s)
     (filter (\<lambda>k. valid (phdr_entry E (elf_format s) k) \<and> chosen wl (program_header E s k)) [0..<n])"

lemma loaded_segments_Suc:
  "load_spec img (loaded_segments E valid wl s (Suc k)) m =
    (if valid (phdr_entry E (elf_format s) k) \<and> chosen wl (program_header E s k) then place img (program_header E s k) else id)
      (load_spec img (loaded_segments E valid wl s k) m)"
  by (simp add: loaded_segments_def load_spec_def)

text \<open>The program header table is memory that no load touches.\<close>

definition table_apart :: "('d, 'p) loader_board_scheme \<Rightarrow> u8 \<Rightarrow> (u64 \<Rightarrow> bool) \<Rightarrow> bool" where
  "table_apart E fmt P \<longleftrightarrow> (\<forall>k < MI_PBT_MAX_SEGMENTS. \<forall>j < phdr_bytes fmt. \<not> P (phdr_entry E fmt k + of_nat j))"

lemma program_header_kept:
  assumes "table_apart E (elf_format s) P" and "\<And>x. memory t x \<noteq> memory s x \<Longrightarrow> P x" and "elf_format t = elf_format s" and "k < MI_PBT_MAX_SEGMENTS"
  shows "program_header E t k = program_header E s k"
proof -
  have "memory t (phdr_entry E (elf_format s) k + of_nat j) = memory s (phdr_entry E (elf_format s) k + of_nat j)"
    if "j < phdr_bytes (elf_format s)" for j
    using assms(1,2,4) that unfolding table_apart_def by blast
  then show ?thesis using assms(3) phdr_at_cong [of "elf_format s" "memory t"] by (simp add: program_header_def)
qed

text \<open>The state after the first \<open>k\<close> segments.\<close>

definition loaded_upto where
  "loaded_upto E h p i bs media U A T valid wl s k t \<longleftrightarrow>
     loading h p i bs IMAGE_BODY_TYPE A t \<and> same_setup media i s t \<and>
     (\<forall>x. memory t x \<noteq> memory s x \<longrightarrow> touched U bs A T x) \<and>
     (\<forall>x. \<not> unat (x - U) < bs \<and> \<not> T x \<longrightarrow>
        memory t x = load_spec (image_bytes bs media i s) (loaded_segments E valid wl s k) (memory s) x)"

lemma place_cong: "m x = m' x \<Longrightarrow> place img ph m x = place img ph m' x"
  by (simp add: place_def mem_write_def)

lemma load_step:
  assumes mac: "machine E h bs media U A T" and dec: "monitor_decides E media (elf_format s) valid"
    and fmt: "elf_format s = ELF_CLASS_32 \<or> elf_format s = ELF_CLASS_64" and wl: "terminated wl"
    and tab: "table_apart E (elf_format s) (touched U bs A T)" and nz: "\<And>k. k < MI_PBT_MAX_SEGMENTS \<Longrightarrow> phdr_entry E (elf_format s) k \<noteq> 0"
    and small: "fits32 (program_header E s k)" and inv: "loaded_upto E h p i bs media U A T valid wl s k u"
    and run: "with_phdr E k (\<lambda>q ph. bnd (segment_selected wl q) (\<lambda>sel. whenb sel (boot_elf_load_seg E q))) u = (Inr (), t)"
  shows "loaded_upto E h p i bs media U A T valid wl s (Suc k) t"
proof -
  let ?q = "phdr_entry E (elf_format s) k" and ?ph = "program_header E s k" and ?img = "image_bytes bs media i s"
  have u: "loading h p i bs IMAGE_BODY_TYPE A u" "same_setup media i s u" "elf_format u = elf_format s"
    "\<And>x. memory u x \<noteq> memory s x \<Longrightarrow> touched U bs A T x"
    "\<And>x. \<not> unat (x - U) < bs \<Longrightarrow> \<not> T x \<Longrightarrow> memory u x = load_spec ?img (loaded_segments E valid wl s k) (memory s) x"
    using inv by (auto simp: loaded_upto_def same_setup_def)
  have k: "k < MI_PBT_MAX_SEGMENTS" using run by (auto simp: with_phdr_def fatal_app split: if_splits)
  have ph: "?ph = phdr_at (elf_format u) ?q (memory u)"
    using program_header_kept [OF tab u(4,3) k] u(3) by (simp add: program_header_def)
  have run': "bnd (segment_selected wl ?q) (\<lambda>sel. whenb sel (boot_elf_load_seg E ?q)) u = (Inr (), t)"
    using run k u(3) by (simp add: with_phdr_def)
  have safe: "safe_load h p i bs IMAGE_BODY_TYPE U A T u t"
  proof -
    have "keeps (safe_load h p i bs IMAGE_BODY_TYPE U A T) (bnd (segment_selected wl ?q) (\<lambda>sel. whenb sel (boot_elf_load_seg E ?q)))"
      by (intro guard_intros segment_selected_keeps guard.rel_refl load_seg_safe [OF mac])
    from keepsD [OF this, of u] show ?thesis by (simp add: run')
  qed
  have fmt': "elf_format u = ELF_CLASS_32 \<or> elf_format u = ELF_CLASS_64" using fmt u(3) by simp
  obtain b v where bv: "segment_selected wl ?q u = (Inr b, v)" "whenb b (boot_elf_load_seg E ?q) v = (Inr (), t)"
    using run' by (auto elim!: bnd_InrE)
  have "v = u \<and> b = chosen wl ?ph"
    using segment_selected_run [OF wl nz [OF k] fmt' bv(1)] ph by simp
  then have sel: "b = chosen wl ?ph" and load: "whenb b (boot_elf_load_seg E ?q) u = (Inr (), t)" using bv(2) by simp_all
  have "same_setup media i u t \<and> (\<forall>x. \<not> unat (x - U) < bs \<and> \<not> T x \<longrightarrow>
      memory t x = (if valid ?q \<and> b then place ?img ?ph else id) (memory u) x)"
  proof (cases b)
    case False
    then show ?thesis using load by (simp add: ret_app same_setup_def)
  next
    case True
    have "\<not> T (?q + of_nat j)" if "j < phdr_bytes (elf_format u)" for j
      using tab that k u(3) by (auto simp: table_apart_def touched_def)
    then show ?thesis
      using load_seg_places [OF mac _ u(1) ph small, of valid t] dec u(2,3) load True same_setup_image [OF u(2)] by auto
  qed
  then have t: "same_setup media i u t" "\<And>x. \<not> unat (x - U) < bs \<Longrightarrow> \<not> T x \<Longrightarrow>
      memory t x = (if valid ?q \<and> b then place ?img ?ph else id) (memory u) x" by blast+
  have "memory t x = load_spec ?img (loaded_segments E valid wl s (Suc k)) (memory s) x" if "\<not> unat (x - U) < bs" "\<not> T x" for x
    using t(2) [OF that] u(5) [OF that] sel place_cong [of "memory u" x] by (simp add: loaded_segments_Suc)
  then show ?thesis
    using safe u(1,4) t(1) same_setup_trans [OF u(2)] unfolding loaded_upto_def guarded_def by metis
qed

lemma compute_hash_area:
  fixes E :: "('d, 'p) loader_board_scheme"
  assumes "machine E h bs media U A T"
  shows "keeps (guarded (\<lambda>_. True) T :: ('d, 'a) loader_state_scheme \<Rightarrow> _) (boot_auth_compute_verify_hash E image_id)"
proof -
  have call: "keeps (guarded (\<lambda>_. True) T :: ('d, 'a) loader_state_scheme \<Rightarrow> _) (fastcall E cmd param args ind)" for cmd param args ind
  proof (rule keepsI)
    fix s :: "('d, 'a) loader_state_scheme"
    obtain r m d where call: "fastcall_tz E cmd param args ind (memory s, drv s) = (r, m, d)" by (metis prod_cases3)
    have "T x" if "m x \<noteq> memory s x" for x
      using assms that call unfolding machine_def by (metis fst_conv snd_conv)
    then show "guarded (\<lambda>_. True) T s (final (fastcall E cmd param args ind) s)"
      using call by (simp add: guarded_def fastcall_def)
  qed
  have "T x" if "qmemcpy (sbl_auth_verified_info E) src (of_nat SIZEOF_VERIFIED_INFO) m x \<noteq> m x" for m src x
  proof -
    have "unat (x - sbl_auth_verified_info E) < SIZEOF_VERIFIED_INFO"
      using qmemcpy_outside [of x "sbl_auth_verified_info E" "of_nat SIZEOF_VERIFIED_INFO" src m] that by fastforce
    then show ?thesis using assms by (simp add: machine_def)
  qed
  then show ?thesis
    unfolding boot_auth_compute_verify_hash_def boot_sec_img_auth_hash_elf_segments_def copy_mem_def
    by (intro guard_intros call guarded_state) auto
qed

text \<open>
  (C3) Loading an image refines the abstract loader. When \<^verbatim>\<open>boot_load_elf_image\<close>
  returns, memory outside the block buffer and the areas of the secure monitor is exactly
  what placing the segments of the program header table in order leaves: those that the
  monitor finds loadable and the segment whitelist selects, each with its bytes of the image
  and zeros behind them; later segments may overlap earlier ones. The header table is apart
  from what a load may touch, and offsets and sizes fit the 32 bits of the flash interface.
\<close>

theorem boot_load_elf_image_refines:
  fixes s :: "('d, 'a) loader_state_scheme"
  assumes "open_transport h p i bs s" and "trans_if s = Some p" and "\<not> elf_ssa_enabled s"
    and "machine E h bs media U (allowed (curr_image_whitelst_tbl s)) T"
    and "monitor_decides E media (elf_format s) valid"
    and "elf_format s = ELF_CLASS_32 \<or> elf_format s = ELF_CLASS_64" and "terminated wl"
    and "table_apart E (elf_format s) (touched U bs (allowed (curr_image_whitelst_tbl s)) T)"
    and "\<forall>k < MI_PBT_MAX_SEGMENTS. phdr_entry E (elf_format s) k \<noteq> 0"
    and "\<forall>k < unat (phdr_num s). fits32 (program_header E s k)"
    and "boot_load_elf_image E wl image_id auth s = (Inr (), t)"
  shows "\<forall>x. \<not> unat (x - U) < bs \<and> \<not> T x \<longrightarrow>
    memory t x = load_spec (image_bytes bs media i s) (loaded_segments E valid wl s (unat (phdr_num s))) (memory s) x"
proof -
  let ?A = "allowed (curr_image_whitelst_tbl s)" and ?n = "unat (phdr_num s)"
  let ?body = "\<lambda>k. with_phdr E k (\<lambda>q ph. bnd (segment_selected wl q) (\<lambda>sel. whenb sel (boot_elf_load_seg E q)))"
  have op: "open_if_closed E s = (Inr (), s)" using assms(2) by (simp add: open_if_closed_def ret_app)
  from assms(3,11) op have "thn (boot_elf_load_and_verify_image E wl image_id auth) boot_elf_load_deinit s = (Inr (), t)"
    by (simp add: boot_load_elf_image_def thn_Inr)
  then obtain v where v: "boot_elf_load_and_verify_image E wl image_id auth s = (Inr (), v)" "boot_elf_load_deinit v = (Inr (), t)"
    by (auto elim: thn_InrE)
  then obtain u where u: "for_each [0..<0 + ?n] ?body s = (Inr (), u)"
    "whenb auth (bnd (boot_auth_compute_verify_hash E image_id) (\<lambda>status.
       bl_verify (status = BL_ERR_NONE) (bl_err (ucast (ucast status :: u16)) BL_ERROR_GROUP_SECURITY))) u = (Inr (), v)"
    by (auto simp: boot_elf_load_and_verify_image_def elim!: thn_InrE)
  have "loaded_upto E h p i bs media U ?A T valid wl s (0 + ?n) u"
  proof (rule for_each_upt_Inr [OF u(1)])
    show "loaded_upto E h p i bs media U ?A T valid wl s 0 s"
      using assms(1,2) by (simp add: loaded_upto_def loading_def buffer_table_def same_setup_def loaded_segments_def load_spec_def)
    show "loaded_upto E h p i bs media U ?A T valid wl s (Suc k) t'"
      if "k < 0 + ?n" "loaded_upto E h p i bs media U ?A T valid wl s k s'" "?body k s' = (Inr (), t')" for k s' t'
      by (rule load_step [OF assms(4,5,6,7,8) _ _ that(2,3)]) (use assms(9,10) that(1) in auto)
  qed
  then have mem: "memory u x = load_spec (image_bytes bs media i s) (loaded_segments E valid wl s ?n) (memory s) x"
    if "\<not> unat (x - U) < bs" "\<not> T x" for x using that by (simp add: loaded_upto_def)
  have "keeps (guarded (\<lambda>_. True) T :: ('d, 'a) loader_state_scheme \<Rightarrow> _) (whenb auth (bnd (boot_auth_compute_verify_hash E image_id) (\<lambda>status.
       bl_verify (status = BL_ERR_NONE) (bl_err (ucast (ucast status :: u16)) BL_ERROR_GROUP_SECURITY))))"
    by (intro guard_intros compute_hash_area [OF assms(4)])
  from keepsD [OF this, of u] have "memory v x = memory u x" if "\<not> T x" for x
    using that u(2) by (auto simp: guarded_def)
  moreover have "memory t = memory v" using keepsD [OF deinit_kept, of v] v(2) by (simp add: same_memory_def)
  ultimately show ?thesis using mem by simp
qed

subsection \<open>A concrete image\<close>

text \<open>One segment of 16 bytes to be cleared at address 0x8000, and the general image opened.\<close>

definition example_image_memory :: mem where
  "example_image_memory x = (if x = 0x21019 then 0x80 else if x = 0x21028 then 16 else 0)"

definition example_image :: "(nat \<Rightarrow> u8) loader_state" where
  "example_image = example_loader\<lparr>phdr_num := 1, memory := example_image_memory,
     sbl_partitions := (sbl_partitions example_loader)[12 := \<lparr>sp_chdl = Some 0, blksz = 4, blkcnt = 8\<rparr>]\<rparr>"

lemma example_image_segment:
  "phdr_at ELF_CLASS_64 0x21000 example_image_memory = \<lparr>p_type = 0, p_flags = 0, p_offset = 0, p_vaddr = 0, p_paddr = 0x8000,
     p_filesz = 0, p_memsz = 16\<rparr>"
  by (simp add: phdr_at_def elf64_phdr_at_def load32_def load64_def mem_read_def example_image_memory_def upt_rec)

lemma example_image_flash: "open_transport 1 0 0 4 example_image" "trans_if example_image = Some 0"
  "curr_image_whitelst_tbl example_image = curr_image_whitelst_tbl example_flash"
  "elf_format example_image = ELF_CLASS_64" "\<not> elf_ssa_enabled example_image" "phdr_num example_image = 1"
  "memory example_image = example_image_memory"
proof -
  have "sdcc_partition 1 1 0 4 example_image = sdcc_partition 1 1 0 4 example_loader"
    by (simp add: sdcc_partition_def ufs_handle_def handle_partition_def handle_lun_def handle_ops_def pools_ok_def example_image_def)
  moreover have "trans_parti_id (trans_priv example_loader ! 0) = 1"
    by (simp add: example_loader_def hash_state.defs auth_state.defs example_auth_def flash_state.defs example_flash_def sdcc_state.defs)
  ultimately show "open_transport 1 0 0 4 example_image"
    using example_loader_flash(1) by (simp add: open_transport_def) (simp add: example_image_def whitelists_ok_def)
  show "trans_if example_image = Some 0" "curr_image_whitelst_tbl example_image = curr_image_whitelst_tbl example_flash"
    "elf_format example_image = ELF_CLASS_64" "\<not> elf_ssa_enabled example_image" "phdr_num example_image = 1"
    "memory example_image = example_image_memory"
    using example_loader_flash by (simp_all add: example_image_def) (simp_all add: example_loader_def hash_state.defs)
qed

theorem boot_elf_segment_in_whitelist_correct_witness:
  "boot_elf_segment_in_whitelist 0x21000 [\<lparr>start_addr = 0x8000, entry_size = 0x1000\<rparr>, \<lparr>start_addr = 0, entry_size = 0\<rparr>]
    example_image = (Inr True, example_image)"
proof -
  let ?tbl = "[\<lparr>start_addr = 0x8000, entry_size = 0x1000\<rparr>, \<lparr>start_addr = 0, entry_size = 0\<rparr>]"
  have l: "listed ?tbl = [\<lparr>start_addr = 0x8000, entry_size = 0x1000\<rparr>]" by (simp add: listed_def)
  have "elf_format example_image = ELF_CLASS_32 \<or> elf_format example_image = ELF_CLASS_64" "listed ?tbl \<noteq> ?tbl"
    by (simp_all add: example_image_flash(4) l)
  from boot_elf_segment_in_whitelist_correct [OF _ this refl, of "0x21000"] obtain r where
    r: "boot_elf_segment_in_whitelist 0x21000 ?tbl example_image = (r, example_image)"
    "\<And>b. r = Inr b \<Longrightarrow> b" "\<And>f. r \<noteq> Inl f"
    by (auto simp: example_image_flash(4,7) example_image_segment contains_segment_def l ends_below_top_def)
  then show ?thesis by (cases r) auto
qed

lemmas example_state_defs = example_image_def example_loader_def hash_state.defs auth_state.defs example_auth_def
  flash_state.defs example_flash_def sdcc_state.defs example_sdcc_def cp_gpt.defs example_gpt_def cp_cache.defs
  example_cache_def cp_pools.defs example_pools_def

lemma example_deinit: "fst (boot_elf_load_deinit (example_image\<lparr>memory := m\<rparr>)) = Inr ()"
  by (simp add: boot_elf_load_deinit_def boot_set_hash_table_auth_result_def boot_flash_dev_close_image_def
      boot_flash_dev_if_get_singleton_def dev_sdcc_close_image_def boot_flash_trans_sdcc_factory_close_def deref_def
      boot_flash_dev_sdcc_close_file_by_image_type_def boot_flash_dev_sdcc_if_get_singleton_def
      dev_sdcc_close_file_by_image_type_def boot_coldplug_close_device_by_image_type_def path_of_def path_id_def
      close_sbl_partition_def boot_coldplug_close_partition_def coldplug_close_partition_def coldplug_is_handle_valid_def
      coldplug_handle_validate_def upd_handle_def example_state_defs bnd_app thn_app ret_app)

lemma example_image_loads: "\<exists>t. boot_load_elf_image example_loader_board None 7 False example_image = (Inr (), t)"
proof -
  let ?E = example_loader_board and ?s = example_image
  have chk: "boot_whitelist_address_range_check 0x8000 16 1 ?s = (Inr True, ?s)"
    using range_check_run [of ?s "0x8000" 16 1] example_image_flash(1,3)
    by (simp add: open_transport_def buffer_table_def covers_def example_flash_def sdcc_state.defs entry_covers_def)
  have board: "fastcall_tz ?E a b c d md = ((0, 1), md)" "phdr_array ?E = 0x21000" for a b c d md
    by (simp_all add: example_loader_board_def crypto_board.defs secure_board.defs example_secure_board_def board.defs)
  have "boot_elf_load_and_verify_image ?E None 7 False ?s = (Inr (), ?s\<lparr>memory := qmemset 0x8000 0 16 (memory ?s)\<rparr>)"
    using example_image_flash(4,6,7) example_image_segment chk board
    by (simp add: boot_elf_load_and_verify_image_def with_phdr_def phdr_entry_def segment_selected_def boot_elf_load_seg_def
        boot_sec_img_auth_is_valid_segment_def fastcall_def boot_elf_load_seg_generic_def mem_fill_def bnd_app thn_app ret_app)
  moreover obtain t where "boot_elf_load_deinit (?s\<lparr>memory := qmemset 0x8000 0 16 (memory ?s)\<rparr>) = (Inr (), t)"
    using example_deinit by (metis prod.collapse)
  ultimately show ?thesis
    using example_image_flash(2,5) by (simp add: boot_load_elf_image_def open_if_closed_def bnd_app thn_app ret_app)
qed

lemma example_table_entry:
  assumes "k < MI_PBT_MAX_SEGMENTS" and "j < 56"
  shows "unat (phdr_entry example_loader_board ELF_CLASS_64 k + of_nat j) = 0x21000 + 56 * k + j"
proof -
  have "phdr_entry example_loader_board ELF_CLASS_64 k + of_nat j = of_nat (0x21000 + 56 * k + j)"
    by (simp add: phdr_entry_def example_loader_board_def crypto_board.defs)
  then show ?thesis using assms unat_of_nat64 [of "0x21000 + 56 * k + j"] by simp
qed

lemma example_allowed: "allowed (curr_image_whitelst_tbl example_image) x \<longleftrightarrow> 0x8000 \<le> unat x \<and> unat x < 0x9000"
proof -
  have "allowed (buffer_table IMAGE_BODY_TYPE example_flash) x \<longleftrightarrow> in_range 0x8000 0x1000 x"
    by (simp add: example_flash_table)
  then show ?thesis using in_range_iff [of "0x8000" "0x1000" x] by (simp add: example_image_flash(3) buffer_table_def)
qed

lemma example_monitor_area_apart: "unat x < 0x71000 \<Longrightarrow> \<not> example_monitor_area x"
proof
  assume x: "unat x < 0x71000" and "example_monitor_area x"
  then obtain j where j: "j < 240" "x = 0x71000 + of_nat j"
    using in_range_offset [of 240 x "0x71000"] by (auto simp: example_monitor_area_def)
  then have "unat x = 0x71000 + j" using unat_of_nat64 [of "0x71000 + j"] by simp
  then show False using x by simp
qed

lemma example_buffer_apart: "0x2000 \<le> unat x \<Longrightarrow> \<not> unat ((x :: u64) - 0x1000) < 4"
proof
  assume x: "0x2000 \<le> unat x" and "unat (x - 0x1000) < 4"
  then obtain j where j: "j < 4" "x = 0x1000 + of_nat j"
    using in_range_offset [of 4 x "0x1000"] by auto
  then have "unat x = 0x1000 + j" using unat_of_nat64 [of "0x1000 + j"] by simp
  then show False using x j(1) by simp
qed

theorem boot_load_elf_image_refines_witness:
  "\<exists>t. boot_load_elf_image example_loader_board None 7 False example_image = (Inr (), t) \<and>
    (\<forall>x. \<not> unat (x - 0x1000) < 4 \<and> \<not> example_monitor_area x \<longrightarrow>
      memory t x = load_spec (image_bytes 4 (ram_medium 4) 0 example_image)
        (loaded_segments example_loader_board (\<lambda>_. True) None example_image 1) (memory example_image) x)"
proof -
  obtain t where t: "boot_load_elf_image example_loader_board None 7 False example_image = (Inr (), t)"
    using example_image_loads by blast
  have mac: "machine example_loader_board 1 4 (ram_medium 4) 0x1000 (allowed (curr_image_whitelst_tbl example_image)) example_monitor_area"
    by (rule example_machine) (simp add: example_allowed example_buffer_apart)
  have dec: "monitor_decides example_loader_board (ram_medium 4) (elf_format example_image) (\<lambda>_. True)"
    by (simp add: monitor_decides_def example_loader_board_def crypto_board.defs secure_board.defs example_secure_board_def board.defs)
  have fmt: "elf_format example_image = ELF_CLASS_32 \<or> elf_format example_image = ELF_CLASS_64" by (simp add: example_image_flash(4))
  have wl: "terminated None" by (simp add: terminated_def)
  have tab: "table_apart example_loader_board (elf_format example_image)
      (touched 0x1000 4 (allowed (curr_image_whitelst_tbl example_image)) example_monitor_area)"
    using example_table_entry
    by (simp add: table_apart_def example_image_flash(4) phdr_bytes_def touched_def example_allowed example_buffer_apart
        example_monitor_area_apart)
  have nz: "\<forall>k < MI_PBT_MAX_SEGMENTS. phdr_entry example_loader_board (elf_format example_image) k \<noteq> 0"
  proof (intro allI impI notI)
    fix k assume "k < MI_PBT_MAX_SEGMENTS" and "phdr_entry example_loader_board (elf_format example_image) k = 0"
    then show False using example_table_entry [of k 0] by (simp add: example_image_flash(4))
  qed
  have "phdr_entry example_loader_board ELF_CLASS_64 0 = 0x21000"
    by (simp add: phdr_entry_def example_loader_board_def crypto_board.defs)
  then have fits: "\<forall>k < unat (phdr_num example_image). fits32 (program_header example_loader_board example_image k)"
    by (simp add: example_image_flash program_header_def example_image_segment fits32_def)
  show ?thesis
    using t boot_load_elf_image_refines [OF example_image_flash(1,2,5) mac dec fmt wl tab nz fits t]
    by (simp add: example_image_flash(6))
qed

end
