(* ===== verification/Qsee_Interface.thy ===== *)
theory Qsee_Interface
  imports Elf_Correct
begin

text \<open>
  The table of loaded images that is handed to the secure environment at the end of the boot
  (boot\_sbl\_qsee\_interface.c). The table is an array of 13 entries; the searches look at
  all of them, used or not. The theorems show which entry each search finds.
\<close>

abbreviation (input) "BOOT_IMAGES_NUM_ENTRIES \<equiv> (13 :: nat)"
abbreviation (input) "SECBOOT_SBL_SW_TYPE \<equiv> (0 :: u32)"
abbreviation (input) "SECBOOT_QSEE_SW_TYPE \<equiv> (7 :: u32)"
abbreviation (input) "SECBOOT_APPSBL_SW_TYPE \<equiv> (9 :: u32)"

record boot_images_entry =
  image_id :: u32
  image_e_ident :: u32
  entry_point :: u64
  image_verified_info :: bytes

record boot_sbl_qsee_interface =
  magic_1 :: u32
  magic_2 :: u32
  version :: u32
  number_images :: u32
  reset_required :: u32
  boot_image_entry :: "boot_images_entry list"
  ddr_enter_self_refresh :: u64
  ddr_exit_self_refresh :: u64
  appsbl_entry_index :: u32

text \<open>The regions of the loader and of the core, \<^verbatim>\<open>boot_target.h\<close> with \<^verbatim>\<open>Soc_cust.h\<close>.\<close>

definition XBL_CORE_WHITELIST_REGION_TABLE :: "whitelst_tbl_entry list" where
  "XBL_CORE_WHITELIST_REGION_TABLE =
     [\<lparr>start_addr = 0x9FC00000, entry_size = 0x0F00000\<rparr>, \<lparr>start_addr = 0x80200000, entry_size = 0x0F00000\<rparr>,
      \<lparr>start_addr = 0, entry_size = 0\<rparr>]"

definition XBL_LOADER_WHITELIST_REGION_TABLE :: "whitelst_tbl_entry list" where
  "XBL_LOADER_WHITELIST_REGION_TABLE = [\<lparr>start_addr = 0x14815000, entry_size = 0xC5000\<rparr>, \<lparr>start_addr = 0, entry_size = 0\<rparr>]"

subsection \<open>The searches\<close>

text \<open>The inner loop over the regions, which ends at a size of zero.\<close>

fun entry_in_regions :: "u64 \<Rightarrow> whitelst_tbl_entry list \<Rightarrow> bool" where
  "entry_in_regions a [] = False"
| "entry_in_regions a (e # es) =
     (if entry_size e = 0 then False
      else if a \<ge> start_addr e \<and> a < start_addr e + entry_size e then True
      else entry_in_regions a es)"

text \<open>The outer loop: the first entry at or behind \<open>image_count\<close> that satisfies the test, or -1.\<close>

function find_image :: "(boot_images_entry \<Rightarrow> bool) \<Rightarrow> boot_images_entry list \<Rightarrow> nat \<Rightarrow> int" where
  "find_image test imgs image_count =
     (if image_count < BOOT_IMAGES_NUM_ENTRIES
      then if test (imgs ! image_count) then int image_count else find_image test imgs (image_count + 1)
      else -1)"
  by pat_completeness auto
termination by (relation "measure (\<lambda>(_, _, i). BOOT_IMAGES_NUM_ENTRIES - i)") auto

declare find_image.simps [simp del]

definition boot_sbl_qsee_interface_get_loader_entry :: "boot_sbl_qsee_interface \<Rightarrow> int" where
  "boot_sbl_qsee_interface_get_loader_entry q =
     find_image (\<lambda>e. image_id e = SECBOOT_SBL_SW_TYPE \<and> entry_in_regions (entry_point e) XBL_LOADER_WHITELIST_REGION_TABLE)
       (boot_image_entry q) 0"

definition boot_sbl_qsee_interface_get_appsbl_entry :: "boot_sbl_qsee_interface \<Rightarrow> int" where
  "boot_sbl_qsee_interface_get_appsbl_entry q =
     (let i = find_image (\<lambda>e. image_id e = SECBOOT_APPSBL_SW_TYPE) (boot_image_entry q) 0
      in if i \<noteq> -1 then i
         else find_image (\<lambda>e. image_id e = SECBOOT_SBL_SW_TYPE \<and> entry_in_regions (entry_point e) XBL_CORE_WHITELIST_REGION_TABLE)
                (boot_image_entry q) 0)"

definition boot_sbl_qsee_interface_get_image_entry :: "boot_sbl_qsee_interface \<Rightarrow> u32 \<Rightarrow> int" where
  "boot_sbl_qsee_interface_get_image_entry q i =
     (if i = SECBOOT_SBL_SW_TYPE then boot_sbl_qsee_interface_get_loader_entry q
      else if i = SECBOOT_APPSBL_SW_TYPE then boot_sbl_qsee_interface_get_appsbl_entry q
      else find_image (\<lambda>e. image_id e = i) (boot_image_entry q) 0)"

definition boot_sbl_qsee_interface_get_eident :: "boot_sbl_qsee_interface \<Rightarrow> u32 \<Rightarrow> u32" where
  "boot_sbl_qsee_interface_get_eident q i =
     (let k = find_image (\<lambda>e. image_id e = i) (boot_image_entry q) 0
      in if k \<noteq> -1 then image_e_ident (boot_image_entry q ! nat k) else 0)"

definition boot_sbl_qsee_interface_get_entry_point :: "boot_sbl_qsee_interface \<Rightarrow> u32 \<Rightarrow> u64" where
  "boot_sbl_qsee_interface_get_entry_point q i =
     (let k = find_image (\<lambda>e. image_id e = i) (boot_image_entry q) 0
      in if k \<noteq> -1 then entry_point (boot_image_entry q ! nat k) else 0)"

subsection \<open>What they find\<close>

text \<open>The first index from \<open>i\<close> on whose entry satisfies the test.\<close>

definition first_image :: "(boot_images_entry \<Rightarrow> bool) \<Rightarrow> boot_images_entry list \<Rightarrow> int \<Rightarrow> bool" where
  "first_image test imgs r \<longleftrightarrow>
     (if \<exists>k < BOOT_IMAGES_NUM_ENTRIES. test (imgs ! k)
      then 0 \<le> r \<and> r < int BOOT_IMAGES_NUM_ENTRIES \<and> test (imgs ! nat r) \<and> (\<forall>k < nat r. \<not> test (imgs ! k))
      else r = -1)"

lemma find_image_from:
  assumes "\<forall>k < i. \<not> test (imgs ! k)" and "i \<le> BOOT_IMAGES_NUM_ENTRIES"
  shows "first_image test imgs (find_image test imgs i)"
  using assms
proof (induction test imgs i rule: find_image.induct)
  case (1 test imgs i)
  show ?case
  proof (cases "i < BOOT_IMAGES_NUM_ENTRIES \<and> \<not> test (imgs ! i)")
    case True
    then have "\<forall>k < Suc i. \<not> test (imgs ! k)" using 1(2) by (simp add: less_Suc_eq)
    then show ?thesis using 1(1) True by (simp add: find_image.simps [of test imgs i])
  next
    case False
    then consider "i < BOOT_IMAGES_NUM_ENTRIES" "test (imgs ! i)" | "i = BOOT_IMAGES_NUM_ENTRIES" using 1(3) by force
    then show ?thesis
    proof cases
      case 1
      then show ?thesis using \<open>\<forall>k < i. \<not> test (imgs ! k)\<close> by (auto simp: find_image.simps [of test imgs i] first_image_def)
    next
      case 2
      then show ?thesis using \<open>\<forall>k < i. \<not> test (imgs ! k)\<close> find_image.simps [of test imgs 13] by (auto simp: first_image_def)
    qed
  qed
qed

lemma find_image_first: "first_image test imgs (find_image test imgs 0)"
  by (rule find_image_from) simp_all

text \<open>What each image search promises: the test that its image satisfies.\<close>

definition found_by :: "u32 \<Rightarrow> boot_sbl_qsee_interface \<Rightarrow> boot_images_entry \<Rightarrow> bool" where
  "found_by i q e \<longleftrightarrow>
     (if i = SECBOOT_SBL_SW_TYPE then image_id e = SECBOOT_SBL_SW_TYPE \<and> in_range 0x14815000 0xC5000 (entry_point e)
      else if i = SECBOOT_APPSBL_SW_TYPE \<and> (\<forall>k < BOOT_IMAGES_NUM_ENTRIES. image_id (boot_image_entry q ! k) \<noteq> SECBOOT_APPSBL_SW_TYPE)
      then image_id e = SECBOOT_SBL_SW_TYPE \<and>
        (in_range 0x9FC00000 0x0F00000 (entry_point e) \<or> in_range 0x80200000 0x0F00000 (entry_point e))
      else image_id e = i)"

lemma entry_in_region: "unat b + unat n < 2 ^ 64 \<Longrightarrow> a \<ge> b \<and> a < b + n \<longleftrightarrow> in_range b n a"
  using in_range_iff [of b n a] by (simp add: word_le_nat_alt word_less_nat_alt unat_word_ariths)

lemma loader_region: "entry_in_regions a XBL_LOADER_WHITELIST_REGION_TABLE \<longleftrightarrow> in_range 0x14815000 0xC5000 a"
  using entry_in_region [of "0x14815000" "0xC5000" a] by (simp add: XBL_LOADER_WHITELIST_REGION_TABLE_def)

lemma core_region: "entry_in_regions a XBL_CORE_WHITELIST_REGION_TABLE \<longleftrightarrow> in_range 0x9FC00000 0x0F00000 a \<or> in_range 0x80200000 0x0F00000 a"
  using entry_in_region [of "0x9FC00000" "0x0F00000" a] entry_in_region [of "0x80200000" "0x0F00000" a]
  by (simp add: XBL_CORE_WHITELIST_REGION_TABLE_def)

lemma first_image_none: "first_image test imgs r \<Longrightarrow> r \<noteq> -1 \<longleftrightarrow> (\<exists>k < BOOT_IMAGES_NUM_ENTRIES. test (imgs ! k))"
  by (auto simp: first_image_def split: if_splits)

lemma get_image_entry_first:
  "first_image (found_by i q) (boot_image_entry q) (boot_sbl_qsee_interface_get_image_entry q i)"
proof -
  note [simp] = boot_sbl_qsee_interface_get_image_entry_def boot_sbl_qsee_interface_get_loader_entry_def
    boot_sbl_qsee_interface_get_appsbl_entry_def found_by_def loader_region core_region
  let ?test = "\<lambda>e. image_id e = SECBOOT_APPSBL_SW_TYPE"
  have app: "find_image ?test (boot_image_entry q) 0 \<noteq> -1 \<longleftrightarrow> (\<exists>k < BOOT_IMAGES_NUM_ENTRIES. ?test (boot_image_entry q ! k))"
    by (rule first_image_none [OF find_image_first])
  consider "i = SECBOOT_SBL_SW_TYPE" | "i = SECBOOT_APPSBL_SW_TYPE" | "i \<noteq> SECBOOT_SBL_SW_TYPE" "i \<noteq> SECBOOT_APPSBL_SW_TYPE" by blast
  then show ?thesis
  proof cases
    case 1
    then have "found_by i q = (\<lambda>e. image_id e = SECBOOT_SBL_SW_TYPE \<and> in_range 0x14815000 0xC5000 (entry_point e))" by auto
    then show ?thesis using find_image_first [of "found_by i q"] 1 by simp
  next
    case 2
    show ?thesis
    proof (cases "\<exists>k < BOOT_IMAGES_NUM_ENTRIES. ?test (boot_image_entry q ! k)")
      case True
      then have "found_by i q = ?test" using 2 by (auto simp: fun_eq_iff)
      then show ?thesis using find_image_first [of ?test "boot_image_entry q"] app True 2 by simp
    next
      case False
      then have "found_by i q = (\<lambda>e. image_id e = SECBOOT_SBL_SW_TYPE \<and>
          (in_range 0x9FC00000 0x0F00000 (entry_point e) \<or> in_range 0x80200000 0x0F00000 (entry_point e)))"
        using 2 by (auto simp: fun_eq_iff)
      then show ?thesis using find_image_first [of "found_by i q"] app False 2 by simp
    qed
  next
    case 3
    then have "found_by i q = (\<lambda>e. image_id e = i)" by (auto simp: fun_eq_iff)
    then show ?thesis using find_image_first [of "found_by i q"] 3 by simp
  qed
qed

text \<open>
  The search for an image returns the first of the 13 entries with the wanted software
  type, and -1 exactly when there is none. The loader and the core share their type, so the
  loader is the entry whose entry point lies in the region of the loader; and the
  applications boot loader, when no entry has its own type, is the one in a core region.
\<close>

theorem get_image_entry_correct:
  "first_image (found_by i q) (boot_image_entry q) (boot_sbl_qsee_interface_get_image_entry q i)"
  by (rule get_image_entry_first)

end
