(* ===== verification/Boot_Config.thy ===== *)
theory Boot_Config
  imports Qsee_Interface
begin

text \<open>
  The configuration logic (boot\_config.c, with boot\_mc.c): for every entry of the
  configuration table the image is loaded and authenticated, executed or jumped to, between
  the procedures the entry asks for. The state holds the state of the loader, the table,
  which the code writes, the interface to the secure environment, and two static variables of
  the table's own functions. What the functions of
  the table do is a parameter, by address. The boot log has no effect in this model.
\<close>

abbreviation (input) "SBL_BUILD_DEVICEPROGRAMMER_DDR \<equiv> (2 :: u32)"

datatype config_image_type = CONFIG_IMG_DEFAULT | CONFIG_IMG_QC | CONFIG_IMG_ELF | CONFIG_IMG_BIN | CONFIG_IMG_ELF_SEG

text \<open>A procedure table is the addresses of its functions, with the null entry that ends it.\<close>

record boot_configuration_table_entry =
  host_img_id :: nat
  target_img_type :: config_image_type
  target_img_sec_type :: u32
  load :: bool
  auth :: bool
  exec :: bool
  jump :: bool
  exec_func :: u64
  jump_func :: u64
  pre_procs :: "u64 list option"
  post_procs :: "u64 list option"
  boot_load_cancel :: u64
  target_img_partition_id :: u64
  target_img_str :: u64
  boot_ssa_enabled :: bool
  sbl_qsee_interface_index :: u32
  seg_elf_entry_point :: u64
  whitelist_ptr :: "whitelst_tbl_entry list option"

text \<open>The headers the loader fills are local structures here, at addresses of the stack.\<close>

record 'd config_board = "'d loader_board" +
  sbl_elf_info_ptr :: u64
  sbl_white_list_area_ptr :: u64
  qc_image_header_ptr :: u64

record 'l sbl_state =
  loader :: 'l
  config_table :: "boot_configuration_table_entry list"
  sbl_qsee_interface :: boot_sbl_qsee_interface
  build_type :: u32
  oem_hyp_load_cancel :: bool
  appsbl_index :: nat

text \<open>An operation of the loader, which works on nothing but the state of the loader.\<close>

definition on_loader :: "('l, 'r) boot \<Rightarrow> ('l sbl_state, 'r) boot" where
  "on_loader m = (\<lambda>w. case m (loader w) of (r, s) \<Rightarrow> (r, w\<lparr>loader := s\<rparr>))"

definition with_entry :: "nat \<Rightarrow> (boot_configuration_table_entry \<Rightarrow> ('l sbl_state, 'r) boot) \<Rightarrow> ('l sbl_state, 'r) boot" where
  "with_entry i f = bnd (gets config_table) (\<lambda>t. if i < length t then f (t ! i) else fatal Undefined_behaviour)"

definition update_entry :: "nat \<Rightarrow> (boot_configuration_table_entry \<Rightarrow> boot_configuration_table_entry) \<Rightarrow> ('l sbl_state, unit) boot" where
  "update_entry i f = modify (\<lambda>w. w\<lparr>config_table := (config_table w)[i := f (config_table w ! i)]\<rparr>)"

subsection \<open>Procedures\<close>

fun procedures_loop :: "(u64 \<Rightarrow> ('w, unit) boot) \<Rightarrow> u64 list \<Rightarrow> ('w, unit) boot" where
  "procedures_loop proc [] = fatal Undefined_behaviour"
| "procedures_loop proc (func # rest) = (if func \<noteq> 0 then thn (proc func) (procedures_loop proc rest) else ret ())"

definition boot_do_procedures :: "(u64 \<Rightarrow> ('w, unit) boot) \<Rightarrow> u64 list option \<Rightarrow> ('w, unit) boot" where
  "boot_do_procedures proc procs = (case procs of None \<Rightarrow> ret () | Some fs \<Rightarrow> procedures_loop proc fs)"

subsection \<open>Loading and authenticating an image\<close>

text \<open>
  The image takes the next entry of the interface; past the last one the entry would lie
  behind the array.
\<close>

definition claim_image_entry :: "nat \<Rightarrow> u32 \<Rightarrow> ('l sbl_state, nat) boot" where
  "claim_image_entry i sec_type =
     bnd (gets (\<lambda>w. number_images (sbl_qsee_interface w))) (\<lambda>n.
       if unat n < BOOT_IMAGES_NUM_ENTRIES then
         thn (modify (\<lambda>w. w\<lparr>sbl_qsee_interface := (sbl_qsee_interface w)\<lparr>boot_image_entry :=
                (boot_image_entry (sbl_qsee_interface w))[unat n := (boot_image_entry (sbl_qsee_interface w) ! unat n)\<lparr>image_id := sec_type\<rparr>]\<rparr>\<rparr>))
          (thn (update_entry i (\<lambda>e. e\<lparr>sbl_qsee_interface_index := n\<rparr>))
           (thn (modify (\<lambda>w. w\<lparr>sbl_qsee_interface := (sbl_qsee_interface w)\<lparr>number_images := n + 1\<rparr>\<rparr>))
             (ret (unat n))))
       else fatal Undefined_behaviour)"

text \<open>
  The structures the secure monitor reads: the three pointers, and the table of areas, which
  is static and so always holds what the loader last wrote to it.
\<close>

definition pass_elf_info :: "('d, 'p) config_board_scheme \<Rightarrow> u64 \<times> u64 \<times> u64 \<Rightarrow> (('d, 'a) loader_state_scheme, unit) boot" where
  "pass_elf_info E info = (case info of (elf_hdr, prog_hdr, hash_seg_hdr) \<Rightarrow> modify (\<lambda>s. s\<lparr>memory :=
     mem_write (sbl_white_list_area_ptr E) (concat (map (\<lambda>(a, b). le_bytes 8 (unat a) @ le_bytes 8 (unat b)) (sbl_white_list_area s)))
       (store64 (sbl_elf_info_ptr E + 16) hash_seg_hdr
         (store64 (sbl_elf_info_ptr E + 8) prog_hdr (store64 (sbl_elf_info_ptr E) elf_hdr (memory s))))\<rparr>))"

text \<open>
  The authentication of the hash table, the same for both image types but for the hash log
  (\<open>log_hash\<close>).
\<close>

definition authenticate_hashtable ::
  "('d, 'p) config_board_scheme \<Rightarrow> u32 \<Rightarrow> whitelst_tbl_entry list option \<Rightarrow> bool \<Rightarrow> (('d, 'a) loader_state_scheme, unit) boot" where
  "authenticate_hashtable E sec_type whitelist log_hash =
     bnd (boot_populate_sbl_info E whitelist) (\<lambda>(populate, count, info).
       thn (bl_verify (populate = SEC_IMG_AUTH_SUCCESS) (bl_err (ucast (ucast populate :: u16)) BL_ERROR_GROUP_SECURITY))
        (thn (case info of Some p \<Rightarrow> pass_elf_info E p | None \<Rightarrow> ret ())
         (bnd (boot_auth_image_hashtable E sec_type (sbl_elf_info_ptr E) (of_nat count) (sbl_white_list_area_ptr E)) (\<lambda>status.
          thn (bl_verify (status = SMC_SUCCESS) (bl_err (ucast (ucast status :: u16)) BL_ERROR_GROUP_SECIMG))
           (thn (whenb log_hash (boot_store_tpm_hash_block E (boot_get_sbl_auth_verified_info E)))
             (boot_set_hash_table_auth_result (status = SMC_SUCCESS)))))))"

text \<open>What both image types do once the segments are in place, with the entry point of each.\<close>

definition record_image ::
  "('d, 'p) config_board_scheme \<Rightarrow> nat \<Rightarrow> (('d, 'a) loader_state_scheme, u64) boot \<Rightarrow> (('d, 'a) loader_state_scheme sbl_state, unit) boot" where
  "record_image E k entry =
     thn (on_loader (boot_elf_set_auth_and_ssa_enable False False))
      (bnd (on_loader (gets (\<lambda>s. mem_read (boot_get_sbl_auth_verified_info E) SIZEOF_VERIFIED_INFO (memory s)))) (\<lambda>info.
       bnd (on_loader entry) (\<lambda>a. bnd (on_loader boot_get_elf_eident_class) (\<lambda>c.
         modify (\<lambda>w. let q = sbl_qsee_interface w in w\<lparr>sbl_qsee_interface := q\<lparr>boot_image_entry := (boot_image_entry q)
           [k := (boot_image_entry q ! k)\<lparr>image_verified_info := info, entry_point := a, image_e_ident := c\<rparr>]\<rparr>\<rparr>)))))"

definition load_elf :: "('d, 'p) config_board_scheme \<Rightarrow> boot_configuration_table_entry \<Rightarrow> (('d, 'a) loader_state_scheme, unit) boot" where
  "load_elf E e =
     thn (boot_elf_set_auth_and_ssa_enable (auth e) (boot_ssa_enabled e))
      (thn (bl_verify (target_img_partition_id e \<noteq> 0) (bl_err BL_ERR_NULL_PTR_PASSED BL_ERROR_GROUP_BOOT))
       (thn (boot_elf_load_init_hash_segment E (target_img_partition_id e) (qc_image_header_ptr E))
        (thn (whenb (auth e) (authenticate_hashtable E (target_img_sec_type e) (whitelist_ptr e) True))
          (boot_load_elf_image E None (target_img_sec_type e) (auth e)))))"

definition load_elf_seg :: "('d, 'p) config_board_scheme \<Rightarrow> boot_configuration_table_entry \<Rightarrow> (('d, 'a) loader_state_scheme, unit) boot" where
  "load_elf_seg E e =
     thn (boot_elf_set_auth_and_ssa_enable (auth e) (boot_ssa_enabled e))
      (thn (bl_verify (target_img_partition_id e \<noteq> 0) (bl_err BL_ERR_NULL_PTR_PASSED BL_ERROR_GROUP_BOOT))
       (thn (whenb (auth e) (authenticate_hashtable E (target_img_sec_type e) (whitelist_ptr e) False))
         (boot_load_elf_image E (whitelist_ptr e) (target_img_sec_type e) (auth e))))"

definition load_image :: "('d, 'p) config_board_scheme \<Rightarrow> nat \<Rightarrow> boot_configuration_table_entry \<Rightarrow> (('d, 'a) loader_state_scheme sbl_state, unit) boot" where
  "load_image E i e =
     thn (bnd (on_loader (boot_set_active_img_whitelist_table (whitelist_ptr e))) (\<lambda>ok.
            bl_verify ok (bl_err BL_ERR_IMG_SECURITY_FAIL BL_ERROR_GROUP_SECURITY)))
      (bnd (claim_image_entry i (target_img_sec_type e)) (\<lambda>k.
        case target_img_type e of
          CONFIG_IMG_ELF \<Rightarrow> thn (on_loader (load_elf E e)) (record_image E k (boot_get_elf_entry_address E))
        | CONFIG_IMG_ELF_SEG \<Rightarrow> thn (on_loader (load_elf_seg E e)) (record_image E k (ret (seg_elf_entry_point e)))
        | _ \<Rightarrow> fatal (bl_err BL_ERR_UNSUPPORTED_IMG BL_ERROR_GROUP_BOOT)))"

subsection \<open>The entries of the table\<close>

text \<open>
  Execution and jump, \<open>enter\<close> being what the functions at these addresses do: only an
  entry that is configured to be authenticated is entered.
\<close>

definition enter_image :: "(u64 \<Rightarrow> ('w, unit) boot) \<Rightarrow> boot_configuration_table_entry \<Rightarrow> u64 \<Rightarrow> ('w, unit) boot" where
  "enter_image enter e func =
     thn (bl_verify (auth e) (bl_err BL_ERR_AUTH_DISABLED BL_ERROR_GROUP_BOOT))
      (thn (bl_verify (func \<noteq> 0) (bl_err BL_ERR_NULL_PTR_PASSED BL_ERROR_GROUP_BOOT))
        (enter func))"

definition cancel_load :: "(u64 \<Rightarrow> ('l sbl_state, bool) boot) \<Rightarrow> nat \<Rightarrow> ('l sbl_state, unit) boot" where
  "cancel_load logical i = with_entry i (\<lambda>e. whenb (boot_load_cancel e \<noteq> 0) (bnd (logical (boot_load_cancel e)) (\<lambda>c.
     whenb c (update_entry i (\<lambda>e. e\<lparr>load := False\<rparr>)))))"

definition skip_device_programmer :: "nat \<Rightarrow> ('l sbl_state, unit) boot" where
  "skip_device_programmer i =
     bnd (gets build_type) (\<lambda>b. whenb (b = SBL_BUILD_DEVICEPROGRAMMER_DDR) (update_entry i (\<lambda>e. e\<lparr>load := False\<rparr>)))"

text \<open>The steps before an image is loaded.\<close>

definition prepare_entry ::
  "(u64 \<Rightarrow> (('d, 'a) flash_state_scheme sbl_state, unit) boot) \<Rightarrow> (u64 \<Rightarrow> (('d, 'a) flash_state_scheme sbl_state, bool) boot) \<Rightarrow>
   nat \<Rightarrow> (('d, 'a) flash_state_scheme sbl_state, unit) boot" where
  "prepare_entry proc logical i =
     thn (with_entry i (\<lambda>e. boot_do_procedures proc (pre_procs e)))
      (thn (cancel_load logical i)
       (thn (on_loader boot_statistics_reset_flash_byte_counter)
         (skip_device_programmer i)))"

definition boot_config_process_entry ::
  "('d, 'p) config_board_scheme \<Rightarrow> (u64 \<Rightarrow> (('d, 'a) loader_state_scheme sbl_state, unit) boot) \<Rightarrow>
   (u64 \<Rightarrow> (('d, 'a) loader_state_scheme sbl_state, unit) boot) \<Rightarrow> (u64 \<Rightarrow> (('d, 'a) loader_state_scheme sbl_state, bool) boot) \<Rightarrow>
   nat \<Rightarrow> (('d, 'a) loader_state_scheme sbl_state, unit) boot" where
  "boot_config_process_entry E proc enter logical i =
     thn (prepare_entry proc logical i)
      (thn (with_entry i (\<lambda>e. whenb (load e) (load_image E i e)))
       (thn (with_entry i (\<lambda>e. bl_verify (target_img_str e \<noteq> 0) (bl_err BL_ERR_NULL_PTR_PASSED BL_ERROR_GROUP_BOOT)))
        (thn (on_loader (thn boot_invalidate_img_whitelist boot_invalidate_hdr_meta_whitelist))
         (thn (with_entry i (\<lambda>e. whenb (exec e \<and> \<not> jump e \<and> load e) (enter_image enter e (exec_func e))))
          (thn (with_entry i (\<lambda>e. boot_do_procedures proc (post_procs e)))
            (with_entry i (\<lambda>e. whenb (jump e \<and> \<not> exec e \<and> load e) (enter_image enter e (jump_func e)))))))))"

text \<open>
  The walk through the table, which ends at the entry without a host; \<open>n\<close> is the number of
  entries from \<open>i\<close> on, so that a table without such an entry is read past its end.
\<close>

primrec config_loop :: "(nat \<Rightarrow> ('l sbl_state, unit) boot) \<Rightarrow> nat \<Rightarrow> nat \<Rightarrow> nat \<Rightarrow> ('l sbl_state, unit) boot" where
  "config_loop process host_img 0 i = fatal Undefined_behaviour"
| "config_loop process host_img (Suc n) i = with_entry i (\<lambda>e.
     if host_img_id e = NONE_IMG then ret ()
     else thn (whenb (host_img_id e = host_img) (process i)) (config_loop process host_img n (i + 1)))"

definition boot_config_process_bl ::
  "('d, 'p) config_board_scheme \<Rightarrow> (u64 \<Rightarrow> (('d, 'a) loader_state_scheme sbl_state, unit) boot) \<Rightarrow>
   (u64 \<Rightarrow> (('d, 'a) loader_state_scheme sbl_state, bool) boot) \<Rightarrow> nat \<Rightarrow> (('d, 'a) loader_state_scheme sbl_state, unit) boot" where
  "boot_config_process_bl E proc logical host_img =
     bnd (gets config_table) (\<lambda>t. config_loop (boot_config_process_entry E proc proc logical) host_img (length t) 0)"

definition boot_handoff_to_devprogDDR_or_DDRDebugImage ::
  "(u64 \<Rightarrow> ('l sbl_state, unit) boot) \<Rightarrow> nat \<Rightarrow> ('l sbl_state, unit) boot" where
  "boot_handoff_to_devprogDDR_or_DDRDebugImage proc host_img =
     bnd (gets config_table) (\<lambda>t. config_loop (\<lambda>i.
       thn (with_entry i (\<lambda>e. boot_do_procedures proc (pre_procs e))) (with_entry i (\<lambda>e. boot_do_procedures proc (post_procs e))))
       host_img (length t) 0)"

subsection \<open>Frames\<close>

lemma on_loader_app: "on_loader m w = (fst (m (loader w)), w\<lparr>loader := snd (m (loader w))\<rparr>)"
  by (simp add: on_loader_def split: prod.split)

lemma on_loader_InrE:
  assumes "on_loader m w = (Inr x, v)"
  obtains s where "m (loader w) = (Inr x, s)" and "v = w\<lparr>loader := s\<rparr>"
  using assms by (cases "m (loader w)") (auto simp: on_loader_def)

lemma with_entry_app:
  "with_entry i f w = (if i < length (config_table w) then f (config_table w ! i) w else (Inl Undefined_behaviour, w))"
  by (simp add: with_entry_def fatal_app)

lemma with_entry_InrE:
  assumes "with_entry i f w = (Inr x, v)"
  obtains "i < length (config_table w)" and "f (config_table w ! i) w = (Inr x, v)"
  using assms by (auto simp: with_entry_app split: if_splits)

lemma thn_differs:
  assumes "thn m n s \<noteq> thn m' n' s"
  shows "m s \<noteq> m' s \<or> (\<exists>x t. m s = (Inr x, t) \<and> m' s = (Inr x, t) \<and> n t \<noteq> n' t)"
  using assms by (auto simp: thn_app split: prod.splits sum.splits)

lemma thn_after:
  fixes m :: "('s, unit) boot"
  assumes "thn m n s \<noteq> thn m n' s"
  obtains t where "m s = (Inr (), t)" and "n t \<noteq> n' t"
  using thn_differs [OF assms] by auto

lemma with_entry_differs:
  "with_entry i f w \<noteq> with_entry i g w \<Longrightarrow> i < length (config_table w) \<and> f (config_table w ! i) w \<noteq> g (config_table w ! i) w"
  by (simp add: with_entry_app split: if_splits)

lemma enter_differs:
  "enter_image enter e f w \<noteq> enter_image enter' e f w \<Longrightarrow> auth e \<and> f \<noteq> 0 \<and> enter f w \<noteq> enter' f w"
  by (cases "auth e"; cases "f = 0") (simp_all add: enter_image_def)

text \<open>The table entry is the same but for its index into the interface.\<close>

definition same_entry :: "nat \<Rightarrow> 'l sbl_state \<Rightarrow> 'l sbl_state \<Rightarrow> bool" where
  "same_entry i w v \<longleftrightarrow> length (config_table v) = length (config_table w) \<and>
     (i < length (config_table w) \<longrightarrow> (\<exists>k. config_table v ! i = (config_table w ! i)\<lparr>sbl_qsee_interface_index := k\<rparr>))"

interpretation entry: frame "same_entry i"
proof
  show "same_entry i w w" for w :: "'l sbl_state" by (auto simp: same_entry_def intro: exI [of _ "sbl_qsee_interface_index (config_table w ! i)"])
  show "same_entry i w u" if "same_entry i w v" "same_entry i v u" for w v u :: "'l sbl_state"
    using that by (auto simp: same_entry_def)
qed

lemma on_loader_same_entry: "keeps (same_entry i) (on_loader m)"
  by (rule keepsI) (simp add: on_loader_app same_entry_def, metis boot_configuration_table_entry.surjective boot_configuration_table_entry.update_convs(16))

lemma procedures_same_entry:
  assumes "\<And>f. keeps (same_entry i) (proc f)"
  shows "keeps (same_entry i) (boot_do_procedures proc fs)"
proof -
  have "keeps (same_entry i) (procedures_loop proc l)" for l
    by (induction l) (auto intro!: entry.keeps_intros assms)
  then show ?thesis by (simp add: boot_do_procedures_def split: option.split)
qed

lemma modify_same_entry: "(\<And>w. config_table (f w) = config_table w) \<Longrightarrow> keeps (same_entry i) (modify f)"
  by (rule entry.keeps_modify) (simp add: same_entry_def, metis boot_configuration_table_entry.surjective boot_configuration_table_entry.update_convs(16))

lemma claim_same_entry: "keeps (same_entry i) (claim_image_entry i sec)"
proof -
  have upd: "keeps (same_entry i) (update_entry i (\<lambda>e. e\<lparr>sbl_qsee_interface_index := n\<rparr>))" for n
    by (auto simp: keeps_def update_entry_def same_entry_def)
  show ?thesis
    unfolding claim_image_entry_def
    by (rule entry.keeps_bnd [OF entry.keeps_gets]) (simp split: if_split, intro impI entry.keeps_thn modify_same_entry upd entry.keeps_ret; simp)
qed

lemma record_same_entry: "keeps (same_entry i) (record_image E k a)"
  unfolding record_image_def
  by (intro entry.keeps_thn entry.keeps_bnd on_loader_same_entry modify_same_entry) (simp add: Let_def)

lemma load_record_same_entry: "keeps (same_entry i) (thn (on_loader m) (record_image E k a))"
  by (intro entry.keeps_thn on_loader_same_entry record_same_entry)

lemma load_image_same_entry: "keeps (same_entry i) (load_image E i e)"
  unfolding load_image_def
  by (intro entry.keeps_thn entry.keeps_bnd on_loader_same_entry claim_same_entry entry.keeps_bl_verify)
    (simp split: config_image_type.split add: load_record_same_entry)

subsection \<open>What an authenticated load has done\<close>

text \<open>An image of a segmented-authentication subsystem is never loaded in this build.\<close>

lemma ssa_metadata_faults:
  assumes "elf_ssa_enabled s"
  shows "boot_elf_ssa_load_image_and_metadata E s =
    (Inl (bl_err BL_ERR_NULL_PTR_PASSED BL_ERROR_GROUP_BOOT), s\<lparr>total_elf_segments_size := 0\<rparr>)"
  using assms
  by (simp add: boot_elf_ssa_load_image_and_metadata_def boot_elf_populate_meta_info_def boot_rmb_get_meta_info_buffer_def
      fatal_app thn_app bnd_app ret_app)

lemma load_elf_image_InrE:
  assumes "boot_load_elf_image E wl sec a s = (Inr (), t)"
  obtains u v where "open_if_closed E s = (Inr (), u)" and "boot_elf_load_and_verify_image E wl sec a u = (Inr (), v)"
    and "boot_elf_load_deinit v = (Inr (), t)"
proof -
  from assms obtain u where u: "open_if_closed E s = (Inr (), u)"
    "thn (if elf_ssa_enabled u then boot_elf_ssa_load_image_and_metadata E else boot_elf_load_and_verify_image E wl sec a)
       boot_elf_load_deinit u = (Inr (), t)"
    by (auto simp: boot_load_elf_image_def elim!: thn_InrE)
  then have "\<not> elf_ssa_enabled u" by (auto simp: ssa_metadata_faults thn_app)
  then show ?thesis using u that by (auto elim!: thn_InrE)
qed

lemma verify_image_InrE:
  assumes "boot_elf_load_and_verify_image E wl sec True s = (Inr (), t)"
  obtains u where "for_each [0..<unat (phdr_num s)] (\<lambda>index. with_phdr E index (\<lambda>p h.
       bnd (segment_selected wl p) (\<lambda>sel. whenb sel (boot_elf_load_seg E p)))) s = (Inr (), u)"
    and "boot_auth_compute_verify_hash E sec u = (Inr BL_ERR_NONE, t)"
  using assms by (auto simp: boot_elf_load_and_verify_image_def elim!: thn_InrE bnd_InrE bl_verify_InrE)

text \<open>
  \<open>authenticated_load E e l t\<close>: from state \<open>l\<close>, in this order, the secure monitor accepted
  the hash table, the segments were loaded, the monitor accepted the hashes of what had been
  loaded, and memory in \<open>t\<close> is what it then was.
\<close>

definition authenticated_load ::
  "('d, 'p) config_board_scheme \<Rightarrow> boot_configuration_table_entry \<Rightarrow> ('d, 'a) loader_state_scheme \<Rightarrow> ('d, 'a) loader_state_scheme \<Rightarrow> bool" where
  "authenticated_load E e l t \<longleftrightarrow> (\<exists>a0 a n p wl b c d u v.
     thn (boot_elf_set_auth_and_ssa_enable (auth e) (boot_ssa_enabled e))
       (whenb (target_img_type e = CONFIG_IMG_ELF) (boot_elf_load_init_hash_segment E (target_img_partition_id e) (qc_image_header_ptr E))) l = (Inr (), a0) \<and>
     bnd (boot_populate_sbl_info E (whitelist_ptr e)) (\<lambda>(st, k, i). thn (case i of Some q \<Rightarrow> pass_elf_info E q | None \<Rightarrow> ret ()) (ret (st, k, i))) a0
       = (Inr (SEC_IMG_AUTH_SUCCESS, n, p), a) \<and>
     boot_auth_image_hashtable E (target_img_sec_type e) (sbl_elf_info_ptr E) (of_nat n) (sbl_white_list_area_ptr E) a = (Inr SMC_SUCCESS, b) \<and>
     whenb (target_img_type e = CONFIG_IMG_ELF) (boot_store_tpm_hash_block E (boot_get_sbl_auth_verified_info E)) b = (Inr (), c) \<and>
     open_if_closed E (c\<lparr>is_elf_hash_table_auth_result := True\<rparr>) = (Inr (), d) \<and>
     for_each [0..<unat (phdr_num d)] (\<lambda>index. with_phdr E index (\<lambda>q h.
       bnd (segment_selected wl q) (\<lambda>sel. whenb sel (boot_elf_load_seg E q)))) d = (Inr (), u) \<and>
     boot_auth_compute_verify_hash E (target_img_sec_type e) u = (Inr BL_ERR_NONE, v) \<and>
     memory t = memory v)"

lemma authenticate_hashtable_InrE:
  assumes "authenticate_hashtable E sec wl log s = (Inr (), t)"
  obtains n p a b c where
    "bnd (boot_populate_sbl_info E wl) (\<lambda>(st, k, i). thn (case i of Some q \<Rightarrow> pass_elf_info E q | None \<Rightarrow> ret ()) (ret (st, k, i))) s
       = (Inr (SEC_IMG_AUTH_SUCCESS, n, p), a)"
    "boot_auth_image_hashtable E sec (sbl_elf_info_ptr E) (of_nat n) (sbl_white_list_area_ptr E) a = (Inr SMC_SUCCESS, b)"
    "whenb log (boot_store_tpm_hash_block E (boot_get_sbl_auth_verified_info E)) b = (Inr (), c)"
    "t = c\<lparr>is_elf_hash_table_auth_result := True\<rparr>"
proof -
  from assms obtain n p s' where s': "boot_populate_sbl_info E wl s = (Inr (SEC_IMG_AUTH_SUCCESS, n, p), s')"
    "thn (case p of Some q \<Rightarrow> pass_elf_info E q | None \<Rightarrow> ret ())
       (bnd (boot_auth_image_hashtable E sec (sbl_elf_info_ptr E) (of_nat n) (sbl_white_list_area_ptr E)) (\<lambda>status.
          thn (bl_verify (status = SMC_SUCCESS) (bl_err (ucast (ucast status :: u16)) BL_ERROR_GROUP_SECIMG))
           (thn (whenb log (boot_store_tpm_hash_block E (boot_get_sbl_auth_verified_info E)))
             (boot_set_hash_table_auth_result (status = SMC_SUCCESS))))) s' = (Inr (), t)"
    unfolding authenticate_hashtable_def by (auto elim!: bnd_InrE thn_InrE [of "bl_verify _ _"] bl_verify_InrE)
  from s'(2) obtain a where a: "(case p of Some q \<Rightarrow> pass_elf_info E q | None \<Rightarrow> ret ()) s' = (Inr (), a)" by (auto elim!: thn_InrE)
  then obtain b c where "boot_auth_image_hashtable E sec (sbl_elf_info_ptr E) (of_nat n) (sbl_white_list_area_ptr E) a = (Inr SMC_SUCCESS, b)"
    "whenb log (boot_store_tpm_hash_block E (boot_get_sbl_auth_verified_info E)) b = (Inr (), c)"
    "t = c\<lparr>is_elf_hash_table_auth_result := True\<rparr>"
    using s'(2) by (auto simp: thn_Inr boot_set_hash_table_auth_result_def elim!: bnd_InrE thn_InrE bl_verify_InrE)
  moreover have "bnd (boot_populate_sbl_info E wl) (\<lambda>(st, k, i). thn (case i of Some q \<Rightarrow> pass_elf_info E q | None \<Rightarrow> ret ()) (ret (st, k, i))) s
      = (Inr (SEC_IMG_AUTH_SUCCESS, n, p), a)"
    using s'(1) a by (simp add: bnd_Inr thn_Inr ret_app)
  ultimately show ?thesis using that by blast
qed

lemma deinit_memory: "boot_elf_load_deinit v = (Inr (), t) \<Longrightarrow> memory t = memory v"
  using keepsD [OF deinit_kept, of v] by (simp add: same_memory_def)

lemma load_elf_authenticated:
  assumes "load_elf E e l = (Inr (), t)" and "auth e" and "target_img_type e = CONFIG_IMG_ELF"
  shows "authenticated_load E e l t"
proof -
  from assms(1,2) obtain l1 a0 s where l1: "boot_elf_set_auth_and_ssa_enable (auth e) (boot_ssa_enabled e) l = (Inr (), l1)"
    "boot_elf_load_init_hash_segment E (target_img_partition_id e) (qc_image_header_ptr E) l1 = (Inr (), a0)"
    "authenticate_hashtable E (target_img_sec_type e) (whitelist_ptr e) True a0 = (Inr (), s)"
    "boot_load_elf_image E None (target_img_sec_type e) True s = (Inr (), t)"
    by (auto simp: load_elf_def elim!: thn_InrE bl_verify_InrE)
  from l1(4) obtain d v where d: "open_if_closed E s = (Inr (), d)" "boot_elf_load_deinit v = (Inr (), t)"
    "boot_elf_load_and_verify_image E None (target_img_sec_type e) True d = (Inr (), v)" by (rule load_elf_image_InrE)
  note step = authenticate_hashtable_InrE [OF l1(3)] verify_image_InrE [OF d(3)]
  show ?thesis
    unfolding authenticated_load_def assms(3)
    by (rule step(1), rule step(2)) (use l1(1,2) d(1) deinit_memory [OF d(2)] in \<open>auto simp: thn_Inr assms(2)\<close>)
qed

lemma load_elf_seg_authenticated:
  assumes "load_elf_seg E e l = (Inr (), t)" and "auth e" and "target_img_type e = CONFIG_IMG_ELF_SEG"
  shows "authenticated_load E e l t"
proof -
  from assms(1,2) obtain a0 s where l1: "boot_elf_set_auth_and_ssa_enable (auth e) (boot_ssa_enabled e) l = (Inr (), a0)"
    "authenticate_hashtable E (target_img_sec_type e) (whitelist_ptr e) False a0 = (Inr (), s)"
    "boot_load_elf_image E (whitelist_ptr e) (target_img_sec_type e) True s = (Inr (), t)"
    by (auto simp: load_elf_seg_def elim!: thn_InrE bl_verify_InrE)
  from l1(3) obtain d v where d: "open_if_closed E s = (Inr (), d)" "boot_elf_load_deinit v = (Inr (), t)"
    "boot_elf_load_and_verify_image E (whitelist_ptr e) (target_img_sec_type e) True d = (Inr (), v)" by (rule load_elf_image_InrE)
  note step = authenticate_hashtable_InrE [OF l1(2)] verify_image_InrE [OF d(3)]
  show ?thesis
    unfolding authenticated_load_def assms(3)
    by (rule step(1), rule step(2)) (use l1(1) d(1) deinit_memory [OF d(2)] in \<open>auto simp: thn_Inr ret_app assms(2)\<close>)
qed

text \<open>Recording an image and taking its entry leave the memory and the loader alone.\<close>

lemma record_image_memory:
  assumes "record_image E k entry w = (Inr (), v)" and "\<And>s r t. entry s = (Inr r, t) \<Longrightarrow> memory t = memory s"
  shows "memory (loader v) = memory (loader w)"
  using assms(1)
  by (auto simp: record_image_def boot_elf_set_auth_and_ssa_enable_def boot_get_elf_eident_class_def Let_def dest!: assms(2)
      elim!: thn_InrE bnd_InrE on_loader_InrE)

lemma claim_loader: "claim_image_entry i sec w = (Inr k, v) \<Longrightarrow> loader v = loader w"
  by (auto simp: claim_image_entry_def update_entry_def fatal_app ret_app split: if_splits elim!: thn_InrE)

lemma authenticated_load_memory: "authenticated_load E e l s \<Longrightarrow> memory t = memory s \<Longrightarrow> authenticated_load E e l t"
  by (simp add: authenticated_load_def)

lemma load_image_authenticated:
  assumes "load_image E i e w = (Inr (), v)" and "auth e"
  obtains l where "boot_set_active_img_whitelist_table (whitelist_ptr e) (loader w) = (Inr True, l)" "authenticated_load E e l (loader v)"
proof -
  from assms(1) obtain l k w1 where l: "boot_set_active_img_whitelist_table (whitelist_ptr e) (loader w) = (Inr True, l)"
    "claim_image_entry i (target_img_sec_type e) (w\<lparr>loader := l\<rparr>) = (Inr k, w1)"
    "(case target_img_type e of
        CONFIG_IMG_ELF \<Rightarrow> thn (on_loader (load_elf E e)) (record_image E k (boot_get_elf_entry_address E))
      | CONFIG_IMG_ELF_SEG \<Rightarrow> thn (on_loader (load_elf_seg E e)) (record_image E k (ret (seg_elf_entry_point e)))
      | _ \<Rightarrow> fatal (bl_err BL_ERR_UNSUPPORTED_IMG BL_ERROR_GROUP_BOOT)) w1 = (Inr (), v)"
    by (auto simp: load_image_def elim!: thn_InrE bnd_InrE bl_verify_InrE on_loader_InrE)
  have w1: "loader w1 = l" using claim_loader [OF l(2)] by simp
  have "authenticated_load E e l (loader v)"
  proof (cases "target_img_type e")
    case CONFIG_IMG_ELF
    then obtain t where t: "load_elf E e l = (Inr (), t)"
      "record_image E k (boot_get_elf_entry_address E) (w1\<lparr>loader := t\<rparr>) = (Inr (), v)"
      using l(3) w1 by (auto elim!: thn_InrE on_loader_InrE)
    have "memory (loader v) = memory t"
      using record_image_memory [OF t(2)] by (auto simp: boot_get_elf_entry_address_def)
    then show ?thesis using load_elf_authenticated [OF t(1) assms(2) CONFIG_IMG_ELF] authenticated_load_memory by blast
  next
    case CONFIG_IMG_ELF_SEG
    then obtain t where t: "load_elf_seg E e l = (Inr (), t)"
      "record_image E k (ret (seg_elf_entry_point e)) (w1\<lparr>loader := t\<rparr>) = (Inr (), v)"
      using l(3) w1 by (auto elim!: thn_InrE on_loader_InrE)
    have "memory (loader v) = memory t"
      using record_image_memory [OF t(2)] by (auto simp: ret_app)
    then show ?thesis using load_elf_seg_authenticated [OF t(1) assms(2) CONFIG_IMG_ELF_SEG] authenticated_load_memory by blast
  qed (use l(3) in \<open>simp_all add: fatal_app\<close>)
  then show ?thesis using that l(1) by blast
qed

text \<open>What has happened when the run of an entry depends on the functions that enter the image.\<close>

definition entered_after ::
  "('d, 'p) config_board_scheme \<Rightarrow> nat \<Rightarrow> ('d, 'a) loader_state_scheme sbl_state \<Rightarrow> boot_configuration_table_entry \<Rightarrow>
   ('d, 'a) loader_state_scheme sbl_state \<Rightarrow> bool" where
  "entered_after E i u e v \<longleftrightarrow> i < length (config_table u) \<and> e = config_table u ! i \<and> load e \<and> auth e \<and> exec e \<noteq> jump e \<and>
     load_image E i e u = (Inr (), v) \<and>
     (\<exists>l. boot_set_active_img_whitelist_table (whitelist_ptr e) (loader u) = (Inr True, l) \<and> authenticated_load E e l (loader v))"

lemma invalidate_run: "on_loader (thn boot_invalidate_img_whitelist boot_invalidate_hdr_meta_whitelist) w = (Inr (), v) \<Longrightarrow>
    config_table v = config_table w \<and> memory (loader v) = memory (loader w)"
  by (auto simp: boot_invalidate_img_whitelist_def boot_invalidate_hdr_meta_whitelist_def elim!: on_loader_InrE)

abbreviation (input) "exec_stage enter i \<equiv>
  with_entry i (\<lambda>e. whenb (exec e \<and> \<not> jump e \<and> load e) (enter_image enter e (exec_func e)))"

abbreviation (input) "post_stage proc i \<equiv> with_entry i (\<lambda>e. boot_do_procedures proc (post_procs e))"

abbreviation (input) "jump_stage enter i \<equiv>
  with_entry i (\<lambda>e. whenb (jump e \<and> \<not> exec e \<and> load e) (enter_image enter e (jump_func e)))"

lemma exec_differs:
  assumes "exec_stage enter i w \<noteq> exec_stage enter' i w"
  defines "e \<equiv> config_table w ! i"
  shows "i < length (config_table w) \<and> exec e \<and> \<not> jump e \<and> load e \<and> auth e \<and> exec_func e \<noteq> 0 \<and> enter (exec_func e) w \<noteq> enter' (exec_func e) w"
  using with_entry_differs [OF assms(1)] enter_differs [of enter e "exec_func e" w enter']
  by (cases "exec e \<and> \<not> jump e \<and> load e") (simp_all add: e_def [symmetric])

lemma jump_differs:
  assumes "jump_stage enter i w \<noteq> jump_stage enter' i w"
  defines "e \<equiv> config_table w ! i"
  shows "i < length (config_table w) \<and> jump e \<and> \<not> exec e \<and> load e \<and> auth e \<and> jump_func e \<noteq> 0 \<and> enter (jump_func e) w \<noteq> enter' (jump_func e) w"
  using with_entry_differs [OF assms(1)] enter_differs [of enter e "jump_func e" w enter']
  by (cases "jump e \<and> \<not> exec e \<and> load e") (simp_all add: e_def [symmetric])

lemma enter_stages:
  assumes differ: "thn (exec_stage enter i) (thn (post_stage proc i) (jump_stage enter i)) w \<noteq>
      thn (exec_stage enter' i) (thn (post_stage proc i) (jump_stage enter' i)) w"
    and procs: "\<And>f. keeps (same_entry i) (proc f)" and enters: "\<And>f. keeps (same_entry i) (enter f)"
  shows "\<exists>z f. i < length (config_table w) \<and> load (config_table w ! i) \<and> auth (config_table w ! i) \<and>
    exec (config_table w ! i) \<noteq> jump (config_table w ! i) \<and> f \<noteq> 0 \<and>
    f = (if exec (config_table w ! i) then exec_func (config_table w ! i) else jump_func (config_table w ! i)) \<and>
    enter f z \<noteq> enter' f z \<and> (exec (config_table w ! i) \<longrightarrow> z = w)"
  using thn_differs [OF differ]
proof (elim disjE exE conjE)
  assume "exec_stage enter i w \<noteq> exec_stage enter' i w"
  from exec_differs [OF this] show ?thesis by auto
next
  fix x t assume t: "exec_stage enter i w = (Inr x, t)"
    and later: "thn (post_stage proc i) (jump_stage enter i) t \<noteq> thn (post_stage proc i) (jump_stage enter' i) t"
  from later obtain z where z: "post_stage proc i t = (Inr (), z)" "jump_stage enter i z \<noteq> jump_stage enter' i z" by (rule thn_after)
  have "keeps (same_entry i) (enter_image enter e f)" for e f
    unfolding enter_image_def by (intro entry.keeps_intros entry.keeps_bl_verify enters)
  then have "keeps (same_entry i) (exec_stage enter i)"
    unfolding with_entry_def by (intro entry.keeps_bnd entry.keeps_gets) (auto intro: entry.keeps_whenb)
  from keepsD [OF this, of w] have wt: "same_entry i w t" by (simp add: t)
  have "keeps (same_entry i) (post_stage proc i)"
    unfolding with_entry_def by (intro entry.keeps_bnd entry.keeps_gets) (auto intro: procedures_same_entry procs)
  from keepsD [OF this, of t] have "same_entry i t z" by (simp add: z(1))
  with wt have "same_entry i w z" by (rule entry.rel_trans)
  then show ?thesis using jump_differs [OF z(2)] by (auto simp: same_entry_def)
qed

text \<open>
  (C1) Only authenticated images are entered. If the run of a table entry depends in any way
  on what the function that executes or jumps to the image does, then the entry asks for the
  image to be loaded and authenticated and for one of execution and jump, and before that
  function was called its whitelist had been installed, the secure monitor had accepted the
  hash table, the segments had been loaded, and the monitor had accepted the hashes of what
  was loaded. For an execution, memory at the call is what the monitor then left. The
  procedures are assumed not to write the table entry.
\<close>

theorem entered_only_authenticated:
  assumes "boot_config_process_entry E proc enter logical i w \<noteq> boot_config_process_entry E proc enter' logical i w"
    and "\<forall>f. keeps (same_entry i) (proc f)" and "\<forall>f. keeps (same_entry i) (enter f)"
  shows "\<exists>u e v z f. prepare_entry proc logical i w = (Inr (), u) \<and> entered_after E i u e v \<and> f \<noteq> 0 \<and>
    f = (if exec e then exec_func e else jump_func e) \<and> enter f z \<noteq> enter' f z \<and>
    (exec e \<longrightarrow> memory (loader z) = memory (loader v))"
proof -
  let ?load = "with_entry i (\<lambda>e. whenb (load e) (load_image E i e))"
  let ?str = "with_entry i (\<lambda>e. bl_verify (target_img_str e \<noteq> 0) (bl_err BL_ERR_NULL_PTR_PASSED BL_ERROR_GROUP_BOOT))"
  let ?inv = "on_loader (thn boot_invalidate_img_whitelist boot_invalidate_hdr_meta_whitelist)"
  let ?rest = "\<lambda>enter. thn (exec_stage enter i) (thn (post_stage proc i) (jump_stage enter i))"
  from assms(1) [unfolded boot_config_process_entry_def] obtain u where
    u: "prepare_entry proc logical i w = (Inr (), u)" and
    d: "thn ?load (thn ?str (thn ?inv (?rest enter))) u \<noteq> thn ?load (thn ?str (thn ?inv (?rest enter'))) u" by (rule thn_after)
  from d obtain v where v: "?load u = (Inr (), v)" "thn ?str (thn ?inv (?rest enter)) v \<noteq> thn ?str (thn ?inv (?rest enter')) v"
    by (rule thn_after)
  from v(2) obtain v' where v': "?str v = (Inr (), v')" "thn ?inv (?rest enter) v' \<noteq> thn ?inv (?rest enter') v'" by (rule thn_after)
  from v'(2) obtain x where x: "?inv v' = (Inr (), x)" "?rest enter x \<noteq> ?rest enter' x" by (rule thn_after)
  let ?e = "config_table u ! i"
  have i: "i < length (config_table u)" and load: "whenb (load ?e) (load_image E i ?e) u = (Inr (), v)"
    using v(1) by (auto elim: with_entry_InrE)
  have "v' = v" using v'(1) by (auto elim!: with_entry_InrE bl_verify_InrE)
  then have xv: "config_table x = config_table v" "memory (loader x) = memory (loader v)" using invalidate_run [OF x(1)] by simp_all
  have "same_entry i u v"
    using load keepsD [OF load_image_same_entry [where i = i and E = E and e = ?e], of u] by (cases "load ?e") (auto simp: ret_app entry.rel_refl)
  then obtain k where k: "config_table x ! i = ?e\<lparr>sbl_qsee_interface_index := k\<rparr>" using i xv by (auto simp: same_entry_def)
  have sel: "load (config_table x ! i) = load ?e" "auth (config_table x ! i) = auth ?e" "exec (config_table x ! i) = exec ?e"
    "jump (config_table x ! i) = jump ?e" "exec_func (config_table x ! i) = exec_func ?e" "jump_func (config_table x ! i) = jump_func ?e"
    by (simp_all add: k)
  from enter_stages [OF x(2) assms(2,3) [rule_format]]
  have "\<exists>z f. load ?e \<and> auth ?e \<and> exec ?e \<noteq> jump ?e \<and> f \<noteq> 0 \<and> f = (if exec ?e then exec_func ?e else jump_func ?e) \<and>
    enter f z \<noteq> enter' f z \<and> (exec ?e \<longrightarrow> z = x)" unfolding sel by blast
  then obtain z f where zf: "load ?e" "auth ?e" "exec ?e \<noteq> jump ?e" "f \<noteq> 0"
    "f = (if exec ?e then exec_func ?e else jump_func ?e)" "enter f z \<noteq> enter' f z" "exec ?e \<longrightarrow> z = x" by blast
  have "entered_after E i u ?e v"
    using load zf(1,2,3) i load_image_authenticated [of E i ?e u v] unfolding entered_after_def by auto
  then show ?thesis using u zf(4,5,6,7) xv(2) by blast
qed

subsection \<open>What is recorded of an image\<close>

lemma claim_InrE:
  assumes "claim_image_entry i sec w = (Inr k, v)"
  obtains "unat (number_images (sbl_qsee_interface w)) < BOOT_IMAGES_NUM_ENTRIES" and "k = unat (number_images (sbl_qsee_interface w))"
    and "sbl_qsee_interface v = (sbl_qsee_interface w)\<lparr>boot_image_entry := (boot_image_entry (sbl_qsee_interface w))
           [k := (boot_image_entry (sbl_qsee_interface w) ! k)\<lparr>image_id := sec\<rparr>], number_images := number_images (sbl_qsee_interface w) + 1\<rparr>"
    and "config_table v = (config_table w)[i := (config_table w ! i)\<lparr>sbl_qsee_interface_index := number_images (sbl_qsee_interface w)\<rparr>]"
    and "loader v = loader w"
  using assms by (auto simp: claim_image_entry_def update_entry_def fatal_app ret_app split: if_splits elim!: thn_InrE)

lemma record_image_InrE:
  assumes "record_image E k entry w = (Inr (), v)"
  obtains s a t where "boot_elf_set_auth_and_ssa_enable False False (loader w) = (Inr (), s)" and "entry s = (Inr a, t)" and "loader v = t"
    and "config_table v = config_table w"
    and "sbl_qsee_interface v = (sbl_qsee_interface w)\<lparr>boot_image_entry := (boot_image_entry (sbl_qsee_interface w))
           [k := (boot_image_entry (sbl_qsee_interface w) ! k)\<lparr>image_verified_info :=
              mem_read (boot_get_sbl_auth_verified_info E) SIZEOF_VERIFIED_INFO (memory s), entry_point := a, image_e_ident := ucast (elf_format t)\<rparr>]\<rparr>"
  using assms by (auto simp: record_image_def boot_get_elf_eident_class_def Let_def elim!: thn_InrE bnd_InrE on_loader_InrE)

text \<open>The entry point that is recorded: that of the image, or for a segmented image the configured one.\<close>

definition recorded_entry_point ::
  "('d, 'p) config_board_scheme \<Rightarrow> boot_configuration_table_entry \<Rightarrow> ('d, 'a) loader_state_scheme \<Rightarrow> u64" where
  "recorded_entry_point E e s =
     (if target_img_type e = CONFIG_IMG_ELF_SEG then seg_elf_entry_point e
      else e_entry (ehdr_at (elf_format s) (if elf_format s = ELF_CLASS_64 then ehdr E else ehdr_32 E) (memory s)))"

lemma load_image_recorded:
  assumes "load_image E i e w = (Inr (), v)" and "length (boot_image_entry (sbl_qsee_interface w)) = BOOT_IMAGES_NUM_ENTRIES"
    and "i < length (config_table w)"
  defines "n \<equiv> number_images (sbl_qsee_interface w)"
  shows "unat n < BOOT_IMAGES_NUM_ENTRIES \<and> number_images (sbl_qsee_interface v) = n + 1 \<and>
    sbl_qsee_interface_index (config_table v ! i) = n \<and>
    boot_image_entry (sbl_qsee_interface v) = (boot_image_entry (sbl_qsee_interface w))[unat n :=
      (boot_image_entry (sbl_qsee_interface w) ! unat n)
        \<lparr>image_id := target_img_sec_type e,
         image_verified_info := mem_read (sbl_auth_verified_info E) SIZEOF_VERIFIED_INFO (memory (loader v)),
         entry_point := recorded_entry_point E e (loader v), image_e_ident := ucast (elf_format (loader v))\<rparr>]"
proof -
  from assms(1) obtain l k w1 where l:
    "claim_image_entry i (target_img_sec_type e) (w\<lparr>loader := l\<rparr>) = (Inr k, w1)"
    "(case target_img_type e of
        CONFIG_IMG_ELF \<Rightarrow> thn (on_loader (load_elf E e)) (record_image E k (boot_get_elf_entry_address E))
      | CONFIG_IMG_ELF_SEG \<Rightarrow> thn (on_loader (load_elf_seg E e)) (record_image E k (ret (seg_elf_entry_point e)))
      | _ \<Rightarrow> fatal (bl_err BL_ERR_UNSUPPORTED_IMG BL_ERROR_GROUP_BOOT)) w1 = (Inr (), v)"
    by (auto simp: load_image_def elim!: thn_InrE bnd_InrE bl_verify_InrE on_loader_InrE)
  have k: "k = unat n" "unat n < BOOT_IMAGES_NUM_ENTRIES" "loader w1 = l"
    "sbl_qsee_interface w1 = (sbl_qsee_interface w)\<lparr>boot_image_entry := (boot_image_entry (sbl_qsee_interface w))
       [k := (boot_image_entry (sbl_qsee_interface w) ! k)\<lparr>image_id := target_img_sec_type e\<rparr>], number_images := n + 1\<rparr>"
    "sbl_qsee_interface_index (config_table w1 ! i) = n"
    by (rule claim_InrE [OF l(1)], simp add: n_def assms(3))+
  obtain t entry where t: "record_image E k entry (w1\<lparr>loader := t\<rparr>) = (Inr (), v)" and
    entry: "entry = (\<lambda>s. (Inr (recorded_entry_point E e s), s))"
  proof (cases "target_img_type e")
    case CONFIG_IMG_ELF
    then obtain t where "record_image E k (boot_get_elf_entry_address E) (w1\<lparr>loader := t\<rparr>) = (Inr (), v)"
      using l(2) by (auto elim!: thn_InrE on_loader_InrE)
    then show ?thesis
      using CONFIG_IMG_ELF by (intro that) (auto simp: fun_eq_iff boot_get_elf_entry_address_def recorded_entry_point_def ehdr_at_def)
  next
    case CONFIG_IMG_ELF_SEG
    then obtain t where "record_image E k (ret (seg_elf_entry_point e)) (w1\<lparr>loader := t\<rparr>) = (Inr (), v)"
      using l(2) by (auto elim!: thn_InrE on_loader_InrE)
    then show ?thesis
      using CONFIG_IMG_ELF_SEG by (intro that) (auto simp: fun_eq_iff ret_app recorded_entry_point_def)
  qed (use l(2) in \<open>simp_all add: fatal_app\<close>)
  obtain s a u where r: "entry s = (Inr a, u)" "loader v = u" "config_table v = config_table w1"
    "sbl_qsee_interface v = (sbl_qsee_interface w1)\<lparr>boot_image_entry := (boot_image_entry (sbl_qsee_interface w1))
       [k := (boot_image_entry (sbl_qsee_interface w1) ! k)\<lparr>image_verified_info :=
          mem_read (boot_get_sbl_auth_verified_info E) SIZEOF_VERIFIED_INFO (memory s), entry_point := a, image_e_ident := ucast (elf_format u)\<rparr>]\<rparr>"
    by (rule record_image_InrE [OF t]) auto
  then show ?thesis
    using k assms(2) r(1) by (auto simp: entry boot_get_sbl_auth_verified_info_def)
qed

text \<open>
  (C21) What the secure environment is told of an image. Loading one takes the next of the 13
  entries of the interface, which was free, and fills it with the software type, the class, the
  entry point and the verified information of this image; the table entry refers to it, and
  the other entries are unchanged.
\<close>

theorem load_image_records:
  assumes "load_image E i e w = (Inr (), v)" and "length (boot_image_entry (sbl_qsee_interface w)) = BOOT_IMAGES_NUM_ENTRIES"
    and "i < length (config_table w)"
  defines "n \<equiv> number_images (sbl_qsee_interface w)"
  shows "unat n < BOOT_IMAGES_NUM_ENTRIES \<and> number_images (sbl_qsee_interface v) = n + 1 \<and>
    sbl_qsee_interface_index (config_table v ! i) = n \<and>
    boot_image_entry (sbl_qsee_interface v) = (boot_image_entry (sbl_qsee_interface w))[unat n :=
      (boot_image_entry (sbl_qsee_interface w) ! unat n)
        \<lparr>image_id := target_img_sec_type e,
         image_verified_info := mem_read (sbl_auth_verified_info E) SIZEOF_VERIFIED_INFO (memory (loader v)),
         entry_point := recorded_entry_point E e (loader v), image_e_ident := ucast (elf_format (loader v))\<rparr>]"
  unfolding n_def by (rule load_image_recorded [OF assms(1-3)])

text \<open>
  (C22) An image of a subsystem that authenticates itself cannot be loaded in this build: with
  that mode on, loading always ends in the report of a null pointer, as there is no relay
  message buffer for the headers.
\<close>

theorem ssa_image_faults:
  assumes "elf_ssa_enabled s" and "trans_if s = Some p"
  shows "fst (boot_load_elf_image E wl sec authenticate s) = Inl (bl_err BL_ERR_NULL_PTR_PASSED BL_ERROR_GROUP_BOOT)"
  using assms by (simp add: boot_load_elf_image_def open_if_closed_def ssa_metadata_faults thn_app bnd_app ret_app)

subsection \<open>A concrete entry\<close>

definition example_config_board :: "(nat \<Rightarrow> u8) config_board" where
  "example_config_board = loader_board.extend example_loader_board
     \<lparr>sbl_elf_info_ptr = 0x72000, sbl_white_list_area_ptr = 0x73000, qc_image_header_ptr = 0x23000\<rparr>"

definition example_entry :: boot_configuration_table_entry where
  "example_entry = \<lparr>host_img_id = 21, target_img_type = CONFIG_IMG_ELF_SEG, target_img_sec_type = 0, load = True, auth = True,
     exec = False, jump = True, exec_func = 0, jump_func = 0x100, pre_procs = None, post_procs = None, boot_load_cancel = 0,
     target_img_partition_id = 0x24000, target_img_str = 0x25000, boot_ssa_enabled = False, sbl_qsee_interface_index = 0,
     seg_elf_entry_point = 0x9FC00000,
     whitelist_ptr = Some [\<lparr>start_addr = 0x8000, entry_size = 0x1000\<rparr>, \<lparr>start_addr = 0, entry_size = 0\<rparr>]\<rparr>"

definition example_interface :: boot_sbl_qsee_interface where
  "example_interface = \<lparr>magic_1 = 0xCE473D94, magic_2 = 0x3CB237BA, version = 4, number_images = 1, reset_required = 0,
     boot_image_entry = replicate 13 \<lparr>image_id = 0, image_e_ident = 0, entry_point = 0, image_verified_info = []\<rparr>,
     ddr_enter_self_refresh = 0, ddr_exit_self_refresh = 0, appsbl_entry_index = 0\<rparr>"

definition example_sbl :: "(nat \<Rightarrow> u8) loader_state sbl_state" where
  "example_sbl = \<lparr>loader = example_image\<lparr>phdr_num := 0\<rparr>, config_table = [example_entry], sbl_qsee_interface = example_interface,
     build_type = 0, oem_hyp_load_cancel = True, appsbl_index = 0\<rparr>"

lemma example_deinit_loaded:
  "fst (boot_elf_load_deinit (example_image\<lparr>phdr_num := k, flash_byte_counter := n, curr_image_whitelst_tbl := t,
     elf_cfg_table_auth := c, elf_ssa_enabled := ssa, sbl_white_list_area := a, is_elf_hash_table_auth_result := b, memory := m\<rparr>)) = Inr ()"
  by (simp add: boot_elf_load_deinit_def boot_set_hash_table_auth_result_def boot_flash_dev_close_image_def
      boot_flash_dev_if_get_singleton_def dev_sdcc_close_image_def boot_flash_trans_sdcc_factory_close_def deref_def
      boot_flash_dev_sdcc_close_file_by_image_type_def boot_flash_dev_sdcc_if_get_singleton_def
      dev_sdcc_close_file_by_image_type_def boot_coldplug_close_device_by_image_type_def path_of_def path_id_def
      close_sbl_partition_def boot_coldplug_close_partition_def coldplug_close_partition_def coldplug_is_handle_valid_def
      coldplug_handle_validate_def upd_handle_def example_state_defs bnd_app thn_app ret_app)

lemma example_board_calls: "fastcall_tz example_config_board a b c d md = ((0, 1), md)"
  by (simp add: example_config_board_def loader_board.defs example_loader_board_def crypto_board.defs secure_board.defs
      example_secure_board_def board.defs)

lemma example_install: "\<exists>t. boot_set_active_img_whitelist_table (whitelist_ptr example_entry) (example_image\<lparr>phdr_num := 0, flash_byte_counter := n\<rparr>) =
    (Inr True, example_image\<lparr>phdr_num := 0, flash_byte_counter := n, curr_image_whitelst_tbl := t\<rparr>)"
  by (rule exI [of _ "(put_entry 0 0x8000 0x1000 zero_table)\<lparr>num_valid_entries := 1\<rparr>"],
      simp add: comp_def example_entry_def boot_set_active_img_whitelist_table_def boot_invalidate_img_whitelist_def thn_app bnd_app ret_app)

lemma example_load: "\<exists>s. load_elf_seg example_config_board example_entry
    (example_image\<lparr>phdr_num := 0, flash_byte_counter := n, curr_image_whitelst_tbl := t\<rparr>) = (Inr (), s)"
proof -
  have "fst (load_elf_seg example_config_board example_entry
      (example_image\<lparr>phdr_num := 0, flash_byte_counter := n, curr_image_whitelst_tbl := t\<rparr>)) = Inr ()"
    by (simp add: load_elf_seg_def example_entry_def boot_elf_set_auth_and_ssa_enable_def authenticate_hashtable_def
        boot_populate_sbl_info_def thn_app bnd_app ret_app pass_elf_info_def boot_auth_image_hashtable_def
        boot_sec_img_auth_verify_metadata_def fastcall_def example_board_calls smc_result_def boot_get_hash_segment_buffer_def
        boot_set_hash_table_auth_result_def boot_load_elf_image_def open_if_closed_def boot_elf_load_and_verify_image_def
        boot_auth_compute_verify_hash_def boot_sec_img_auth_hash_elf_segments_def example_image_flash example_deinit_loaded)
  then show ?thesis by (metis prod.collapse)
qed

lemma example_entered:
  "\<exists>z. \<forall>enter. boot_config_process_entry example_config_board proc enter logical 0 example_sbl = enter 0x100 z"
proof -
  have fields: "load example_entry" "auth example_entry" "\<not> exec example_entry" "jump example_entry" "jump_func example_entry = 0x100"
    "pre_procs example_entry = None" "post_procs example_entry = None" "boot_load_cancel example_entry = 0"
    "target_img_str example_entry = 0x25000" "target_img_type example_entry = CONFIG_IMG_ELF_SEG"
    by (simp_all add: example_entry_def)
  obtain t where t: "boot_set_active_img_whitelist_table (whitelist_ptr example_entry) (example_image\<lparr>phdr_num := 0, flash_byte_counter := 0\<rparr>) =
      (Inr True, example_image\<lparr>phdr_num := 0, flash_byte_counter := 0, curr_image_whitelst_tbl := t\<rparr>)"
    using example_install by blast
  obtain s where s: "load_elf_seg example_config_board example_entry
      (example_image\<lparr>phdr_num := 0, flash_byte_counter := 0, curr_image_whitelst_tbl := t\<rparr>) = (Inr (), s)"
    using example_load by blast
  show ?thesis
    by (rule exI, rule allI, simp add: boot_config_process_entry_def prepare_entry_def thn_app bnd_app with_entry_app
      example_sbl_def fields boot_do_procedures_def ret_app cancel_load_def skip_device_programmer_def on_loader_app
      boot_statistics_reset_flash_byte_counter_def load_image_def t claim_image_entry_def example_interface_def update_entry_def s record_image_def
      boot_elf_set_auth_and_ssa_enable_def boot_get_elf_eident_class_def boot_invalidate_img_whitelist_def boot_invalidate_hdr_meta_whitelist_def
      enter_image_def)
qed

theorem entered_only_authenticated_witness:
  "\<exists>u e v. prepare_entry (\<lambda>_. ret ()) (\<lambda>_. ret False) 0 example_sbl = (Inr (), u) \<and>
     entered_after example_config_board 0 u e v"
proof -
  obtain z where "\<And>enter. boot_config_process_entry example_config_board (\<lambda>_. ret ()) enter (\<lambda>_. ret False) 0 example_sbl = enter 0x100 z"
    using example_entered by blast
  then have "boot_config_process_entry example_config_board (\<lambda>_. ret ()) (\<lambda>_. ret ()) (\<lambda>_. ret False) 0 example_sbl \<noteq>
    boot_config_process_entry example_config_board (\<lambda>_. ret ()) (\<lambda>_. fatal Assertion_failed) (\<lambda>_. ret False) 0 example_sbl"
    by (simp add: ret_app fatal_app)
  moreover have "\<forall>f :: u64. keeps (same_entry 0) ((\<lambda>_. ret ()) f)" by (simp add: entry.keeps_ret)
  ultimately show ?thesis using entered_only_authenticated by blast
qed

theorem load_image_records_witness:
  "\<exists>v. load_image example_config_board 0 example_entry (example_sbl\<lparr>loader := example_image\<lparr>phdr_num := 0, flash_byte_counter := 0\<rparr>\<rparr>) = (Inr (), v) \<and>
     number_images (sbl_qsee_interface v) = 2 \<and> sbl_qsee_interface_index (config_table v ! 0) = 1 \<and>
     entry_point (boot_image_entry (sbl_qsee_interface v) ! 1) = 0x9FC00000"
proof -
  let ?w = "example_sbl\<lparr>loader := example_image\<lparr>phdr_num := 0, flash_byte_counter := 0\<rparr>\<rparr>"
  have fields: "target_img_type example_entry = CONFIG_IMG_ELF_SEG" "seg_elf_entry_point example_entry = 0x9FC00000"
    by (simp_all add: example_entry_def)
  obtain t where t: "boot_set_active_img_whitelist_table (whitelist_ptr example_entry) (example_image\<lparr>phdr_num := 0, flash_byte_counter := 0\<rparr>) =
      (Inr True, example_image\<lparr>phdr_num := 0, flash_byte_counter := 0, curr_image_whitelst_tbl := t\<rparr>)"
    using example_install by blast
  obtain s where s: "load_elf_seg example_config_board example_entry
      (example_image\<lparr>phdr_num := 0, flash_byte_counter := 0, curr_image_whitelst_tbl := t\<rparr>) = (Inr (), s)"
    using example_load by blast
  have "\<exists>v. load_image example_config_board 0 example_entry ?w = (Inr (), v)"
    by (rule exI, simp add: thn_app bnd_app example_sbl_def fields ret_app on_loader_app load_image_def t claim_image_entry_def
        example_interface_def update_entry_def s record_image_def boot_elf_set_auth_and_ssa_enable_def boot_get_elf_eident_class_def Let_def)
  then obtain v where v: "load_image example_config_board 0 example_entry ?w = (Inr (), v)" by blast
  have w: "length (boot_image_entry (sbl_qsee_interface ?w)) = BOOT_IMAGES_NUM_ENTRIES" "0 < length (config_table ?w)"
    by (simp_all add: example_sbl_def example_interface_def)
  from load_image_records [OF v w] v show ?thesis
    by (simp add: example_sbl_def example_interface_def recorded_entry_point_def fields)
qed

theorem ssa_image_faults_witness:
  "fst (boot_load_elf_image example_loader_board None 7 True (example_image\<lparr>elf_ssa_enabled := True\<rparr>)) =
    Inl (bl_err BL_ERR_NULL_PTR_PASSED BL_ERROR_GROUP_BOOT)"
  by (rule ssa_image_faults) (simp_all add: example_image_flash)

end
