(* ===== verification/Arch_Determination.thy ===== *)
theory Arch_Determination
  imports Prelude
begin

text \<open>
  The architecture of an image from its first instruction (boot\_arch\_determination.c): three
  tables of masks and opcodes are searched in turn. The theorems show that the branches an
  image starts with are told apart, and which branches the tables miss.
\<close>

unbundle bit_operations_syntax

datatype boot_arch_mode_type = BOOT_ARCH_MODE_UNKNOWN | BOOT_ARCH_MODE_AARCH32 | BOOT_ARCH_MODE_AARCH64

definition aarch64_entries :: "(u32 \<times> u32) list" where
  "aarch64_entries =
     [(0xFF000000, 0x54000000), (0x7F000000, 0x35000000), (0x7F000000, 0x34000000), (0x7F000000, 0x37000000),
      (0x7F000000, 0x36000000), (0xFC000000, 0x14000000), (0xFC000000, 0x94000000), (0xFFFFFC1F, 0xD63F0000),
      (0xFFFFFC1F, 0xD61F0000), (0, 0)]"

definition aarch32_entries :: "(u32 \<times> u32) list" where
  "aarch32_entries =
     [(0x0F000000, 0x0A000000), (0xF800D000, 0xF0008000), (0xF800D000, 0xF0009000), (0xF800D000, 0xF000D000),
      (0x0F000000, 0x0B000000), (0xF800D001, 0xF000C000), (0xFE000000, 0xFA000000), (0x0FFFFFF0, 0x012FFF20),
      (0x0FFFFFF0, 0x012FFF10), (0xFFF0FFFF, 0xF3C08F00), (0x0FFFFFF0, 0x012FFF20), (0xFFF0FFE0, 0xE8D0F000), (0, 0)]"

definition thumb_16bit_entries :: "(u16 \<times> u16) list" where
  "thumb_16bit_entries =
     [(0xFE00, 0xDE00), (0xF500, 0xB100), (0xF800, 0xE000), (0xFF87, 0x4780), (0xFF87, 0x4700), (0, 0)]"

text \<open>One search: up to the entry whose opcode is 0.\<close>

fun matches_entry :: "'w::len word \<Rightarrow> ('w word \<times> 'w word) list \<Rightarrow> bool" where
  "matches_entry instruction [] = False"
| "matches_entry instruction ((bitmask, opcode) # rest) =
     (if opcode = 0 then False
      else if instruction AND bitmask = opcode then True
      else matches_entry instruction rest)"

definition boot_arch_determination_by_branch :: "u32 \<Rightarrow> boot_arch_mode_type" where
  "boot_arch_determination_by_branch instruction =
     (if matches_entry instruction aarch64_entries then BOOT_ARCH_MODE_AARCH64
      else if matches_entry instruction aarch32_entries then BOOT_ARCH_MODE_AARCH32
      else if matches_entry (ucast instruction :: u16) thumb_16bit_entries then BOOT_ARCH_MODE_AARCH32
      else BOOT_ARCH_MODE_UNKNOWN)"

subsection \<open>The branches of the architectures\<close>

text \<open>
  The encodings of the branches a compiled image starts with: the branch of the 64-bit
  instruction set, and the conditional branch and branch with link of the 32-bit one.
\<close>

definition a64_b :: "u32 \<Rightarrow> u32" where
  "a64_b offset = 0x14000000 OR (offset AND 0x03FFFFFF)"

definition a32_b :: "bool \<Rightarrow> u32 \<Rightarrow> u32 \<Rightarrow> u32" where
  "a32_b link condition offset =
     push_bit 28 condition OR (if link then 0x0B000000 else 0x0A000000) OR (offset AND 0x00FFFFFF)"

lemma a64_b_known: "matches_entry (a64_b offset) aarch64_entries"
proof -
  have "a64_b offset AND 0xFC000000 = 0x14000000" by (simp add: a64_b_def word_ao_dist and.assoc)
  then show ?thesis by (simp add: aarch64_entries_def)
qed

text \<open>An entry does not match when it differs in the bits of a mask that are known.\<close>

lemma entry_differs:
  fixes w :: "'a::len word"
  assumes "w AND k = t" and "t AND m \<noteq> v AND k"
  shows "w AND m \<noteq> v"
  using assms by (auto simp: ac_simps)

lemma a32_b_nibble: "a32_b link condition offset AND 0x0F000000 = (if link then 0x0B000000 else 0x0A000000)"
proof -
  have "push_bit 28 condition AND mask 28 = 0"
    by (rule bit_word_eqI) (auto simp: bit_simps)
  then have "push_bit 28 condition AND (mask 28 AND 0x0F000000) = 0" by (simp only: and.assoc [symmetric] zero_and_eq)
  then have "push_bit 28 condition AND 0x0F000000 = 0" by (simp add: mask_eq_exp_minus_1)
  then show ?thesis by (simp add: a32_b_def word_ao_dist and.assoc)
qed

lemma a32_b_known:
  "\<not> matches_entry (a32_b link condition offset) aarch64_entries" "matches_entry (a32_b link condition offset) aarch32_entries"
  using a32_b_nibble [of link condition offset]
  by (auto simp: aarch64_entries_def aarch32_entries_def entry_differs [OF a32_b_nibble] split: if_splits)


text \<open>
  Two tables miss a branch. The entry named for the register branch with link repeats
  the opcode of another instruction, so that branch is not recognised for any register; and
  a 16-bit conditional branch in front of a zero half word is not recognised either, as its
  entry holds the opcode of an undefined instruction.
\<close>

theorem arch_determination_misses:
  "boot_arch_determination_by_branch (0xE12FFF30 OR (register AND 0xF)) = BOOT_ARCH_MODE_UNKNOWN \<and>
   boot_arch_determination_by_branch (0xD000 OR (condition_and_offset AND 0x7FF)) = BOOT_ARCH_MODE_UNKNOWN"
proof -
  have blx: "(0xE12FFF30 OR (register AND 0xF)) AND 0xFFFFFFF0 = (0xE12FFF30 :: u32)"
    by (simp add: word_ao_dist and.assoc)
  have low: "ucast (0xE12FFF30 OR (register AND 0xF)) AND 0xFFF0 = (0xFF30 :: u16)"
    "ucast (0xD000 OR (condition_and_offset AND 0x7FF)) AND 0xF800 = (0xD000 :: u16)"
    by (simp_all add: unsigned_or_eq unsigned_and_eq word_ao_dist and.assoc)
  have bcond: "(0xD000 OR (condition_and_offset AND 0x7FF)) AND 0xFFFFF800 = (0xD000 :: u32)"
    by (simp add: word_ao_dist and.assoc)
  show ?thesis
    by (simp add: boot_arch_determination_by_branch_def aarch64_entries_def aarch32_entries_def thumb_16bit_entries_def
        entry_differs [OF blx] entry_differs [OF bcond] entry_differs [OF low(1)] entry_differs [OF low(2)])
qed

end
