(* ===== verification/Page_Table.thy ===== *)
theory Page_Table
  imports Boot_Monad
begin

text \<open>
  The page tables of the loader (Library/BootMmuLib/boot\_page\_table.c): 1 GB sections, tables
  of 2 MB blocks and of 4 KB pages, taken from two pools, and their copy to external memory.
  The entries are 64-bit words at addresses that are a multiple of 8, so the memory of the
  tables is a function from addresses to words. Flushing the translation buffer and the caches
  has no effect here.
\<close>

abbreviation (input) "BL_ERR_MMU_PGTBL_MAPPING_FAIL \<equiv> (0x0044 :: u32)"
abbreviation (input) "BL_ERR_MMU_INVALID_ADDRESS \<equiv> (0x0091 :: u32)"
abbreviation (input) "BL_ERR_MMU_INVALID_SIZE \<equiv> (0x0092 :: u32)"

abbreviation (input) "L1_PT_INDEX \<equiv> (0x7FC0000000 :: u64)"
abbreviation (input) "L2_PT_INDEX \<equiv> (0x003FE00000 :: u64)"
abbreviation (input) "L3_PT_INDEX \<equiv> (0x00001FF000 :: u64)"
abbreviation (input) "L3_PT_ADDRESS_BITS \<equiv> (0x0000FFFFFFE00000 :: u64)"
abbreviation (input) "PT_ADDRESS_BITS \<equiv> (0x0000FFFFFFFFF000 :: u64)"
abbreviation (input) "PT_ATTRIBUTE_BITS \<equiv> (0xFFFF000000000FFF :: u64)"
abbreviation (input) "PT_TABLE_DESC_BIT \<equiv> (2 :: u64)"
abbreviation (input) "PT_TABLE_VALID_ENTRY_BIT \<equiv> (1 :: u64)"
abbreviation (input) "MMU_PAGETABLE_BLOCK_DESCRIPTOR \<equiv> (1 :: u64)"
abbreviation (input) "MMU_PAGETABLE_TABLE_DESCRIPTOR \<equiv> (3 :: u64)"
abbreviation (input) "MMU_PAGETABLE_PAGE_DESCRIPTOR \<equiv> (3 :: u64)"
abbreviation (input) "MMU_PAGETABLE_BLOCK_NS \<equiv> (0x20 :: u64)"
abbreviation (input) "MMU_PAGETABLE_TABLE_NS \<equiv> (0x8000000000000000 :: u64)"
abbreviation (input) "MMU_LAST_ADDRESS \<equiv> (0xFFFFFFFF :: u64)"
abbreviation (input) "MMU_L1_SECTION_MAPPING_PAGE_SIZE \<equiv> (0x40000000 :: u64)"
abbreviation (input) "MMU_L2_SECTION_MAPPING_PAGE_SIZE \<equiv> (0x200000 :: u64)"
abbreviation (input) "MMU_L3_SECTION_MAPPING_PAGE_SIZE \<equiv> (0x1000 :: u64)"
abbreviation (input) "MMU_NUM_L1_PT \<equiv> (8 :: nat)"
abbreviation (input) "MMU_L2_PT_SIZE \<equiv> (512 :: nat)"
abbreviation (input) "MMU_L3_PT_SIZE \<equiv> (512 :: nat)"
abbreviation (input) "MMU_NUM_L2_PT \<equiv> (2 :: u32)"
abbreviation (input) "MMU_NUM_L3_PT \<equiv> (6 :: u32)"
abbreviation (input) "MMU_NUM_DDR_L2_PT \<equiv> (3 :: u32)"
abbreviation (input) "MMU_NUM_DDR_L3_PT \<equiv> (12 :: u32)"

datatype MMU_MemoryMappingType = MMU_L1_SECTION_MAPPING | MMU_L1_NS_SECTION_MAPPING | MMU_L2_SECTION_MAPPING
  | MMU_L2_NS_SECTION_MAPPING | MMU_L3_SECTION_MAPPING | MMU_L3_NS_SECTION_MAPPING | MMU_MEMORY_MAPPING_TYPE_MAX_SIZE

record mem_block =
  p_base :: u64
  v_base :: u64
  size_in_bytes :: u64
  memory_mapping :: MMU_MemoryMappingType
  access :: u64
  cachetype :: u64
  executable :: u64

text \<open>The words of memory, and the first table that is free in each pool with the number left.\<close>

record page_tables =
  words :: "u64 \<Rightarrow> u64"
  empty_l2_pagetable_ptr :: u64
  empty_l3_pagetable_ptr :: u64
  empty_l2_pagetable_num :: u32
  empty_l3_pagetable_num :: u32

definition slot :: "u64 \<Rightarrow> nat \<Rightarrow> u64" where
  "slot tbl i = tbl + 8 * of_nat i"

definition l1_index :: "u64 \<Rightarrow> nat" where
  "l1_index v = unat (drop_bit 30 (v AND L1_PT_INDEX))"

definition l2_index :: "u64 \<Rightarrow> nat" where
  "l2_index v = unat (drop_bit 21 (v AND L2_PT_INDEX))"

definition l3_index :: "u64 \<Rightarrow> nat" where
  "l3_index v = unat (drop_bit 12 (v AND L3_PT_INDEX))"

definition points_to_table :: "u64 \<Rightarrow> bool" where
  "points_to_table e \<longleftrightarrow> e AND PT_TABLE_DESC_BIT \<noteq> 0"

definition is_l3 :: "mem_block \<Rightarrow> bool" where
  "is_l3 b \<longleftrightarrow> memory_mapping b = MMU_L3_SECTION_MAPPING \<or> memory_mapping b = MMU_L3_NS_SECTION_MAPPING"

definition block_bits :: "mem_block \<Rightarrow> MMU_MemoryMappingType \<Rightarrow> u64" where
  "block_bits b ns = access b OR cachetype b OR executable b OR (if memory_mapping b = ns then MMU_PAGETABLE_BLOCK_NS else 0)"

subsection \<open>Sections of 1 GB\<close>

text \<open>
  The limit is the number of sections rounded up. The physical address only advances when an
  entry is written.
\<close>

definition l1_limit :: "mem_block \<Rightarrow> nat" where
  "l1_limit b = l1_index (v_base b) + unat (drop_bit 20 (drop_bit 10 (size_in_bytes b) + 0xFFFFF))"

definition map_l1_step :: "u64 \<Rightarrow> mem_block \<Rightarrow> nat \<Rightarrow> (u64 \<Rightarrow> u64) \<times> u64 \<Rightarrow> (u64 \<Rightarrow> u64) \<times> u64" where
  "map_l1_step l1 b i = (\<lambda>(m, p_addr).
     if points_to_table (m (slot l1 i)) then (m, p_addr)
     else (m(slot l1 i := p_addr OR block_bits b MMU_L1_NS_SECTION_MAPPING OR MMU_PAGETABLE_BLOCK_DESCRIPTOR), p_addr + 0x40000000))"

definition mmu_map_block_as_l1_sections :: "u64 \<Rightarrow> mem_block \<Rightarrow> (page_tables, unit) boot" where
  "mmu_map_block_as_l1_sections l1 b = modify (\<lambda>s. s\<lparr>words :=
     fst (fold (map_l1_step l1 b) [l1_index (v_base b)..<l1_limit b] (words s, p_base b AND L1_PT_INDEX))\<rparr>)"

subsection \<open>Blocks of 2 MB\<close>

text \<open>
  A table that is new gets entries with the attributes of the section it replaces, apart from
  the range of the block; for a block of pages all of them.
\<close>

definition l2_limit :: "mem_block \<Rightarrow> nat" where
  "l2_limit b = l2_index (v_base b) + unat (drop_bit 11 (drop_bit 10 (size_in_bytes b) + 2047))"

definition map_l2_step :: "u64 \<Rightarrow> mem_block \<Rightarrow> bool \<Rightarrow> u64 \<Rightarrow> nat \<Rightarrow> (u64 \<Rightarrow> u64) \<times> u64 \<Rightarrow> (u64 \<Rightarrow> u64) \<times> u64" where
  "map_l2_step l2 b l2_pt_exist attribute i = (\<lambda>(m, p_addr).
     (if l2_index (v_base b) \<le> i \<and> i < l2_limit b \<and> \<not> is_l3 b
      then if points_to_table (m (slot l2 i)) then m
           else m(slot l2 i := p_addr OR block_bits b MMU_L2_NS_SECTION_MAPPING OR MMU_PAGETABLE_BLOCK_DESCRIPTOR)
      else if \<not> l2_pt_exist then m(slot l2 i := p_addr OR attribute OR MMU_PAGETABLE_BLOCK_DESCRIPTOR)
      else m, p_addr + 0x200000))"

definition map_l2_entries :: "u64 \<Rightarrow> mem_block \<Rightarrow> bool \<Rightarrow> u64 \<Rightarrow> (page_tables, unit) boot" where
  "map_l2_entries l2 b l2_pt_exist attribute = modify (\<lambda>s. s\<lparr>words :=
     fst (fold (map_l2_step l2 b l2_pt_exist attribute) [0..<MMU_L2_PT_SIZE] (words s, p_base b AND L1_PT_INDEX))\<rparr>)"

definition mmu_map_block_as_l2_pages :: "u64 \<Rightarrow> mem_block \<Rightarrow> (page_tables, unit) boot" where
  "mmu_map_block_as_l2_pages l1 b =
     bnd (gets (\<lambda>s. words s (slot l1 (l1_index (v_base b))))) (\<lambda>e.
      if \<not> points_to_table e then
        thn (bnd (gets empty_l2_pagetable_num) (\<lambda>n. bl_verify (0 < n) (bl_err BL_ERR_NULL_PTR_PASSED BL_ERROR_GROUP_BOOT)))
        (bnd (gets empty_l2_pagetable_ptr) (\<lambda>l2.
          thn (modify (\<lambda>s. s\<lparr>words := (words s)(slot l1 (l1_index (v_base b)) := (l2 AND PT_ADDRESS_BITS) OR MMU_PAGETABLE_TABLE_DESCRIPTOR
               OR (if memory_mapping b = MMU_L2_NS_SECTION_MAPPING then MMU_PAGETABLE_TABLE_NS else 0)),
             empty_l2_pagetable_ptr := l2 + 0x1000, empty_l2_pagetable_num := empty_l2_pagetable_num s - 1\<rparr>))
           (map_l2_entries l2 b False (e AND PT_ATTRIBUTE_BITS))))
      else if is_l3 b then ret ()
      else map_l2_entries (e AND PT_ADDRESS_BITS) b True 0)"

subsection \<open>Pages of 4 KB\<close>

definition l3_limit :: "mem_block \<Rightarrow> nat" where
  "l3_limit b = l3_index (v_base b) + unat (drop_bit 2 (drop_bit 10 (size_in_bytes b) + 3))"

definition map_l3_step :: "u64 \<Rightarrow> mem_block \<Rightarrow> bool \<Rightarrow> u64 \<Rightarrow> nat \<Rightarrow> (u64 \<Rightarrow> u64) \<times> u64 \<Rightarrow> (u64 \<Rightarrow> u64) \<times> u64" where
  "map_l3_step l3 b l3_pt_exist attribute i = (\<lambda>(m, p_addr).
     (if l3_index (v_base b) \<le> i \<and> i < l3_limit b
      then m(slot l3 i := p_addr OR block_bits b MMU_L3_NS_SECTION_MAPPING OR MMU_PAGETABLE_PAGE_DESCRIPTOR)
      else if \<not> l3_pt_exist then m(slot l3 i := p_addr OR attribute OR MMU_PAGETABLE_PAGE_DESCRIPTOR)
      else m, p_addr + 0x1000))"

definition map_l3_entries :: "u64 \<Rightarrow> mem_block \<Rightarrow> bool \<Rightarrow> u64 \<Rightarrow> (page_tables, unit) boot" where
  "map_l3_entries l3 b l3_pt_exist attribute = modify (\<lambda>s. s\<lparr>words :=
     fst (fold (map_l3_step l3 b l3_pt_exist attribute) [0..<MMU_L3_PT_SIZE] (words s, p_base b AND L3_PT_ADDRESS_BITS))\<rparr>)"

definition mmu_map_block_as_l3_pages :: "u64 \<Rightarrow> mem_block \<Rightarrow> (page_tables, unit) boot" where
  "mmu_map_block_as_l3_pages l1 b =
     thn (mmu_map_block_as_l2_pages l1 b)
     (bnd (gets (\<lambda>s. words s (slot l1 (l1_index (v_base b))) AND PT_ADDRESS_BITS)) (\<lambda>l2.
      bnd (gets (\<lambda>s. words s (slot l2 (l2_index (v_base b))))) (\<lambda>e.
       if \<not> points_to_table e then
         thn (bnd (gets empty_l3_pagetable_num) (\<lambda>n. bl_verify (0 < n) (bl_err BL_ERR_NULL_PTR_PASSED BL_ERROR_GROUP_BOOT)))
         (bnd (gets empty_l3_pagetable_ptr) (\<lambda>l3.
           thn (modify (\<lambda>s. s\<lparr>words := (words s)(slot l2 (l2_index (v_base b)) := (l3 AND PT_ADDRESS_BITS) OR MMU_PAGETABLE_TABLE_DESCRIPTOR
                OR (if memory_mapping b = MMU_L3_NS_SECTION_MAPPING then MMU_PAGETABLE_TABLE_NS else 0)),
              empty_l3_pagetable_ptr := l3 + 0x1000, empty_l3_pagetable_num := empty_l3_pagetable_num s - 1\<rparr>))
            (map_l3_entries l3 b False (e AND PT_ATTRIBUTE_BITS))))
       else map_l3_entries (e AND PT_ADDRESS_BITS) b True 0)))"

subsection \<open>Lists of blocks\<close>

text \<open>
  A block of pages that crosses a 2 MB boundary is mapped in two parts. The addresses that are
  compared are 32 bits wide.
\<close>

definition l2_block_end :: "mem_block \<Rightarrow> u32" where
  "l2_block_end b = ucast (p_base b AND L3_PT_ADDRESS_BITS) + 0x200000"

definition map_l3_split :: "u64 \<Rightarrow> mem_block \<Rightarrow> (page_tables, unit) boot" where
  "map_l3_split l1 b = (let end_address = ucast (p_base b + size_in_bytes b) :: u32; n = ucast (l2_block_end b) - p_base b in
     if end_address > l2_block_end b then
       thn (mmu_map_block_as_l3_pages l1 (b\<lparr>size_in_bytes := n\<rparr>))
        (mmu_map_block_as_l3_pages l1 (b\<lparr>p_base := p_base b + n, v_base := v_base b + n, size_in_bytes := size_in_bytes b - n\<rparr>))
     else mmu_map_block_as_l3_pages l1 b)"

definition block_aligned :: "mem_block \<Rightarrow> u64 \<Rightarrow> (page_tables, unit) boot" where
  "block_aligned b page_size =
     thn (bl_verify (v_base b mod page_size = 0) (bl_err BL_ERR_MMU_INVALID_ADDRESS BL_ERROR_GROUP_BOOT))
      (bl_verify (size_in_bytes b mod page_size = 0) (bl_err BL_ERR_MMU_INVALID_SIZE BL_ERROR_GROUP_BOOT))"

definition map_list_entry :: "u64 \<Rightarrow> mem_block \<Rightarrow> (page_tables, unit) boot" where
  "map_list_entry l1 b =
     (if memory_mapping b = MMU_L1_SECTION_MAPPING \<or> memory_mapping b = MMU_L1_NS_SECTION_MAPPING then
        thn (block_aligned b MMU_L1_SECTION_MAPPING_PAGE_SIZE) (mmu_map_block_as_l1_sections l1 b)
      else if memory_mapping b = MMU_L2_SECTION_MAPPING \<or> memory_mapping b = MMU_L2_NS_SECTION_MAPPING then
        thn (block_aligned b MMU_L2_SECTION_MAPPING_PAGE_SIZE) (mmu_map_block_as_l2_pages l1 b)
      else if is_l3 b then
        thn (block_aligned b MMU_L3_SECTION_MAPPING_PAGE_SIZE) (map_l3_split l1 b)
      else fatal (bl_err BL_ERR_MMU_PGTBL_MAPPING_FAIL BL_ERROR_GROUP_BOOT))"

fun boot_mmu_page_table_map_mem_block_list :: "u64 \<Rightarrow> mem_block list \<Rightarrow> (page_tables, bool) boot" where
  "boot_mmu_page_table_map_mem_block_list l1 [] = fatal Undefined_behaviour"
| "boot_mmu_page_table_map_mem_block_list l1 (b # map_ptr) =
     (if v_base b = MMU_LAST_ADDRESS then ret True
      else thn (map_list_entry l1 b) (boot_mmu_page_table_map_mem_block_list l1 map_ptr))"

subsection \<open>Entries, and their removal\<close>

definition boot_mmu_get_page_table_entry_addr :: "u64 \<Rightarrow> u64 \<Rightarrow> (page_tables, bool \<times> u64) boot" where
  "boot_mmu_get_page_table_entry_addr l1 memory_address =
     thn (bl_verify (l1 \<noteq> 0) (bl_err BL_ERR_NULL_PTR_PASSED BL_ERROR_GROUP_BOOT))
      (gets (\<lambda>s. let a1 = slot l1 (l1_index memory_address); e1 = words s a1 in
         if e1 AND PT_TABLE_VALID_ENTRY_BIT \<noteq> 1 then (False, 0)
         else if \<not> points_to_table e1 then (True, a1)
         else let a2 = slot (e1 AND PT_ADDRESS_BITS) (l2_index memory_address); e2 = words s a2 in
           if e2 AND PT_TABLE_VALID_ENTRY_BIT \<noteq> 1 then (False, 0)
           else if \<not> points_to_table e2 then (True, a2)
           else let a3 = slot (e2 AND PT_ADDRESS_BITS) (l3_index memory_address) in
             if words s a3 AND PT_TABLE_VALID_ENTRY_BIT \<noteq> 1 then (False, 0) else (True, a3)))"

text \<open>
  The entries from that of the first address to that of the last are cleared. When the last
  lies before the first, the count that is compared with the unsigned index is negative.
\<close>

definition clear_entries :: "u64 \<Rightarrow> u64 \<Rightarrow> (page_tables, unit) boot" where
  "clear_entries e1 e2 = (if e2 < e1 then fatal Undefined_behaviour
     else modify (\<lambda>s. s\<lparr>words := fold (\<lambda>i m. m(slot e1 i := 0)) [0..<unat (e2 - e1) div 8 + 1] (words s)\<rparr>))"

definition boot_mmu_find_entry_and_unmap :: "u64 \<Rightarrow> u64 \<Rightarrow> u64 \<Rightarrow> (page_tables, bool) boot" where
  "boot_mmu_find_entry_and_unmap l1 memory_address sz =
     thn (bl_verify (l1 \<noteq> 0) (bl_err BL_ERR_NULL_PTR_PASSED BL_ERROR_GROUP_BOOT))
      (bnd (boot_mmu_get_page_table_entry_addr l1 memory_address) (\<lambda>(found, e1). if \<not> found then ret False
       else bnd (boot_mmu_get_page_table_entry_addr l1 (memory_address + sz - 1)) (\<lambda>(found, e2). if \<not> found then ret False
       else bnd (gets words) (\<lambda>m. if 0 < e2 - e1 \<and> e1 \<noteq> 0 \<and> e2 \<noteq> 0 \<and> m e1 AND 3 = m e2 AND 3
         then thn (clear_entries e1 e2) (ret True) else ret False))))"

subsection \<open>A single block\<close>

text \<open>
  Before the block is mapped its old entries are removed, unless it lies in the internal
  memory. The end of the block is compared with the value of another comparison.
\<close>

definition SBL_IMEM_RANGES_TABLE :: "(u64 \<times> u64) list" where
  "SBL_IMEM_RANGES_TABLE = [(0x146B3000, 0x6000), (0x14800000, 0x180000)]"

definition entry_invalid_enable :: "mem_block \<Rightarrow> bool" where
  "entry_invalid_enable b \<longleftrightarrow> \<not> list_ex (\<lambda>(start, n). start \<le> v_base b \<and> v_base b < start + n \<and>
     v_base b + size_in_bytes b < (if v_base b < start + n then 1 else 0)) SBL_IMEM_RANGES_TABLE"

text \<open>The tables a block still needs, of 2 MB blocks and of pages.\<close>

definition needs_l2 :: "u64 \<Rightarrow> mem_block \<Rightarrow> page_tables \<Rightarrow> u32" where
  "needs_l2 l1 b s = (if points_to_table (words s (slot l1 (l1_index (v_base b)))) then 0 else 1)"

definition needs_l3 :: "u64 \<Rightarrow> mem_block \<Rightarrow> page_tables \<Rightarrow> u32" where
  "needs_l3 l1 b s = (let e = words s (slot l1 (l1_index (v_base b))) in
     if \<not> points_to_table e then 1
     else if points_to_table (words s (slot (e AND PT_ADDRESS_BITS) (l2_index (v_base b)))) then 0 else 1)"

definition map_single_split :: "u64 \<Rightarrow> mem_block \<Rightarrow> (page_tables, unit) boot" where
  "map_single_split l1 b = (let end_address = ucast (p_base b + ucast (ucast (size_in_bytes b) :: u32)) :: u32;
       n = ucast (l2_block_end b) - p_base b in
     if end_address > l2_block_end b then
       thn (mmu_map_block_as_l3_pages l1 (b\<lparr>size_in_bytes := n\<rparr>))
        (mmu_map_block_as_l3_pages l1 (b\<lparr>p_base := p_base b + n, v_base := v_base b + n, size_in_bytes := size_in_bytes b - n\<rparr>))
     else mmu_map_block_as_l3_pages l1 b)"

definition boot_mmu_page_table_map_single_mem_block :: "u64 \<Rightarrow> mem_block \<Rightarrow> (page_tables, bool) boot" where
  "boot_mmu_page_table_map_single_mem_block l1 b =
     thn (if entry_invalid_enable b then bnd (boot_mmu_find_entry_and_unmap l1 (v_base b) (size_in_bytes b)) (\<lambda>_. ret ()) else ret ())
     (if memory_mapping b = MMU_L1_SECTION_MAPPING \<or> memory_mapping b = MMU_L1_NS_SECTION_MAPPING then
        thn (mmu_map_block_as_l1_sections l1 b) (ret True)
      else if memory_mapping b = MMU_L2_SECTION_MAPPING \<or> memory_mapping b = MMU_L2_NS_SECTION_MAPPING then
        bnd (gets (\<lambda>s. needs_l2 l1 b s \<le> empty_l2_pagetable_num s)) (\<lambda>enough.
          thn (bl_verify enough (bl_err BL_ERR_MMU_PGTBL_MAPPING_FAIL BL_ERROR_GROUP_BOOT))
           (thn (mmu_map_block_as_l2_pages l1 b) (ret True)))
      else if is_l3 b then
        bnd (gets (\<lambda>s. needs_l2 l1 b s \<le> empty_l2_pagetable_num s \<and> needs_l3 l1 b s \<le> empty_l3_pagetable_num s)) (\<lambda>enough.
          thn (bl_verify enough (bl_err BL_ERR_MMU_PGTBL_MAPPING_FAIL BL_ERROR_GROUP_BOOT))
           (thn (map_single_split l1 b) (ret True)))
      else ret True)"

subsection \<open>The copy to external memory\<close>

text \<open>
  The tables in external memory, fixed by the linker, take over the free pools. Their numbers
  are not compared with zero.
\<close>

record ddr_tables =
  mmu_l1_ddr_pagetable :: u64
  mmu_l2_ddr_pagetable :: u64
  mmu_l3_ddr_pagetable :: u64

definition copy_table :: "u64 \<Rightarrow> u64 \<Rightarrow> (u64 \<Rightarrow> u64) \<Rightarrow> u64 \<Rightarrow> u64" where
  "copy_table dst src m = fold (\<lambda>i m'. m'(slot dst i := m (slot src i))) [0..<512] m"

definition copy_l1_step :: "u64 \<Rightarrow> u64 \<Rightarrow> nat \<Rightarrow> page_tables \<Rightarrow> page_tables" where
  "copy_l1_step src dst i s = (let e = words s (slot src i); s = s\<lparr>words := (words s)(slot dst i := e)\<rparr> in
     if \<not> points_to_table (words s (slot src i)) then s
     else let e = words s (slot src i); p = empty_l2_pagetable_ptr s; m = copy_table p (e AND PT_ADDRESS_BITS) (words s) in
       s\<lparr>words := m(slot dst i := (p AND PT_ADDRESS_BITS) OR (m (slot src i) AND PT_ATTRIBUTE_BITS)),
         empty_l2_pagetable_ptr := p + 0x1000, empty_l2_pagetable_num := empty_l2_pagetable_num s - 1\<rparr>)"

definition copy_l2_step :: "u64 \<Rightarrow> nat \<Rightarrow> page_tables \<Rightarrow> page_tables" where
  "copy_l2_step dst i s = (let e = words s (slot dst i) in
     if \<not> points_to_table e then s
     else let p = empty_l3_pagetable_ptr s; m = copy_table p (e AND PT_ADDRESS_BITS) (words s) in
       s\<lparr>words := m(slot dst i := (p AND PT_ADDRESS_BITS) OR (m (slot dst i) AND PT_ATTRIBUTE_BITS)),
         empty_l3_pagetable_ptr := p + 0x1000, empty_l3_pagetable_num := empty_l3_pagetable_num s - 1\<rparr>)"

definition boot_mmu_copy_page_table :: "ddr_tables \<Rightarrow> u64 \<Rightarrow> (page_tables, bool) boot" where
  "boot_mmu_copy_page_table D src =
     thn (modify (\<lambda>s. s\<lparr>empty_l2_pagetable_ptr := mmu_l2_ddr_pagetable D, empty_l2_pagetable_num := MMU_NUM_DDR_L2_PT\<rparr>))
      (thn (modify (fold (copy_l1_step src (mmu_l1_ddr_pagetable D)) [0..<MMU_NUM_L1_PT]))
       (thn (modify (\<lambda>s. s\<lparr>empty_l3_pagetable_ptr := mmu_l3_ddr_pagetable D, empty_l3_pagetable_num := MMU_NUM_DDR_L3_PT\<rparr>))
        (thn (modify (\<lambda>s. fold (copy_l2_step (mmu_l2_ddr_pagetable D))
            [0..<unat (MMU_NUM_DDR_L2_PT - empty_l2_pagetable_num s) * MMU_L2_PT_SIZE] s))
         (ret True))))"

end
