(* ===== verification/Page_Table_Walk.thy ===== *)
theory Page_Table_Walk
  imports Page_Table
begin

text \<open>
  What the page tables mean. The walk of the processor through the tables of 39-bit addresses
  is the specification: the physical address and the attributes of every address, or none when
  an entry is invalid or its access flag is clear. The invariant says that the tables form a
  tree in memory apart from the free pools, and that every entry maps its addresses to
  themselves, as the loader maps all memory. The lemmas show what the two changes do that all
  operations consist of: entries of one table are set, and a section is split into a new table.
\<close>

subsection \<open>Slots of tables\<close>

definition aligned :: "u64 \<Rightarrow> bool" where
  "aligned t \<longleftrightarrow> 4096 dvd unat t"

lemma alignedE:
  assumes "aligned t"
  obtains q where "unat t = 4096 * q" and "q < 2 ^ 52"
proof -
  from assms obtain q where q: "unat t = 4096 * q" by (auto simp: aligned_def)
  then have "q < 2 ^ 52" using unat64_lt [of t] by simp
  with q that show ?thesis by blast
qed

lemma aligned_end: "aligned t \<Longrightarrow> unat t + 4096 \<le> 2 ^ 64"
  by (erule alignedE) simp

lemma unat_slot: "aligned t \<Longrightarrow> i < 512 \<Longrightarrow> unat (slot t i) = unat t + 8 * i"
proof -
  assume "aligned t" "i < 512"
  moreover have "unat (8 * of_nat i :: u64) = 8 * i" using \<open>i < 512\<close> by (simp add: unat_word_ariths)
  ultimately show ?thesis using aligned_end [of t] by (simp add: slot_def unat_word_ariths)
qed

lemma slot_eq_iff:
  assumes "aligned t" and "aligned t'" and "i < 512" and "i' < 512"
  shows "slot t i = slot t' i' \<longleftrightarrow> t = t' \<and> i = i'"
proof
  assume "slot t i = slot t' i'"
  then have "unat t + 8 * i = unat t' + 8 * i'" using assms by (metis unat_slot)
  moreover from assms(1) obtain q where q: "unat t = 4096 * q" by (rule alignedE)
  moreover from assms(2) obtain q' where q': "unat t' = 4096 * q'" by (rule alignedE)
  ultimately have *: "4096 * q + 8 * i = 4096 * q' + 8 * i'" by simp
  have "\<not> q < q'" "\<not> q' < q" using * assms(3,4) by simp_all
  then have "q = q'" by simp
  with * q q' show "t = t' \<and> i = i'" by (simp add: word_unat_eq_iff)
qed simp

text \<open>The entries of a table that are set, the others kept.\<close>

definition fill :: "u64 \<Rightarrow> (nat \<Rightarrow> u64 option) \<Rightarrow> (u64 \<Rightarrow> u64) \<Rightarrow> u64 \<Rightarrow> u64" where
  "fill t g m a = (if \<exists>i < 512. a = slot t i \<and> g i \<noteq> None then the (g (unat (a - t) div 8)) else m a)"

lemma fill_slot:
  assumes "aligned t" and "i < 512"
  shows "fill t g m (slot t i) = (case g i of Some v \<Rightarrow> v | None \<Rightarrow> m (slot t i))"
proof -
  have "unat (slot t i - t) div 8 = i" using assms(2) by (simp add: slot_def unat_word_ariths)
  moreover have "(\<exists>k < 512. slot t i = slot t k \<and> g k \<noteq> None) \<longleftrightarrow> g i \<noteq> None"
    using assms by (auto simp: slot_eq_iff)
  ultimately show ?thesis by (auto simp: fill_def split: option.split)
qed

lemma fill_other:
  "aligned t \<Longrightarrow> aligned t' \<Longrightarrow> t \<noteq> t' \<Longrightarrow> i < 512 \<Longrightarrow> fill t g m (slot t' i) = m (slot t' i)"
  by (auto simp: fill_def slot_eq_iff)

lemma fill_upd:
  assumes "aligned t" and "n < 512" and "g n = None"
  shows "(fill t g m)(slot t n := v) = fill t (g(n := Some v)) m"
proof
  fix a
  show "((fill t g m)(slot t n := v)) a = fill t (g(n := Some v)) m a"
  proof (cases "\<exists>i < 512. a = slot t i")
    case True
    then obtain i where i: "i < 512" "a = slot t i" by auto
    then show ?thesis using assms by (auto simp: fill_slot slot_eq_iff split: option.split)
  next
    case False
    then have "a \<noteq> slot t n" using assms(2) by auto
    with False show ?thesis by (auto simp: fill_def)
  qed
qed

lemma fill_fill: "fill t g (fill t h m) = fill t (\<lambda>i. case g i of Some v \<Rightarrow> Some v | None \<Rightarrow> h i) m" if "aligned t"
proof
  fix a
  show "fill t g (fill t h m) a = fill t (\<lambda>i. case g i of Some v \<Rightarrow> Some v | None \<Rightarrow> h i) m a"
  proof (cases "\<exists>i < 512. a = slot t i")
    case True
    then show ?thesis using that by (auto simp: fill_slot split: option.split)
  qed (auto simp: fill_def)
qed

lemma fill_None [simp]: "fill t (\<lambda>_. None) m = m"
  by (auto simp: fill_def fun_eq_iff)

text \<open>A loop over entries that sets each of them at most once.\<close>

lemma fold_fill:
  assumes "aligned t" and "lo + n \<le> 512"
    and "\<And>i m' p. lo \<le> i \<Longrightarrow> i < lo + n \<Longrightarrow> m' (slot t i) = m (slot t i) \<Longrightarrow>
      f i (m', p) = (case G i p (m (slot t i)) of Some v \<Rightarrow> m'(slot t i := v) | None \<Rightarrow> m', p + inc)"
  shows "fold f [lo..<lo + n] (m, p) =
    (fill t (\<lambda>i. if lo \<le> i \<and> i < lo + n then G i (p + of_nat (i - lo) * inc) (m (slot t i)) else None) m, p + of_nat n * inc)"
  using assms(2,3)
proof (induction n)
  case 0
  have "(\<lambda>i. if lo \<le> i \<and> i < lo + 0 then G i (p + of_nat (i - lo) * inc) (m (slot t i)) else None) = (\<lambda>_. None)"
    by (auto simp: fun_eq_iff)
  then show ?case by (simp only: fill_None) simp
next
  case (Suc n)
  let ?g = "\<lambda>i. if lo \<le> i \<and> i < lo + n then G i (p + of_nat (i - lo) * inc) (m (slot t i)) else None"
  have IH: "fold f [lo..<lo + n] (m, p) = (fill t ?g m, p + of_nat n * inc)"
    using Suc.prems by (intro Suc.IH) auto
  have "fold f [lo..<lo + Suc n] (m, p) = f (lo + n) (fill t ?g m, p + of_nat n * inc)"
    by (simp add: IH)
  also have "\<dots> = (case G (lo + n) (p + of_nat n * inc) (m (slot t (lo + n))) of Some v \<Rightarrow> (fill t ?g m)(slot t (lo + n) := v)
      | None \<Rightarrow> fill t ?g m, p + of_nat n * inc + inc)"
    using Suc.prems assms(1) by (simp add: fill_slot)
  also have "\<dots> = (fill t (?g(lo + n := G (lo + n) (p + of_nat n * inc) (m (slot t (lo + n))))) m, p + of_nat (Suc n) * inc)"
    using Suc.prems(1) fill_upd [OF assms(1), of "lo + n" ?g m]
    by (auto split: option.split simp: algebra_simps intro!: arg_cong [of _ _ "\<lambda>g. fill t g m"])
  also have "?g(lo + n := G (lo + n) (p + of_nat n * inc) (m (slot t (lo + n)))) =
      (\<lambda>i. if lo \<le> i \<and> i < lo + Suc n then G i (p + of_nat (i - lo) * inc) (m (slot t i)) else None)"
    by (auto simp: fun_eq_iff)
  finally show ?case .
qed

subsection \<open>Indices and entries\<close>

lemma l1_index_div: "l1_index v = unat v div 2 ^ 30 mod 512"
proof -
  have "drop_bit 30 (v AND L1_PT_INDEX) = take_bit 9 (drop_bit 30 v)"
    by (simp add: drop_bit_and take_bit_eq_mask mask_eq_exp_minus_1)
  then show ?thesis by (simp only: l1_index_def unsigned_take_bit_eq unsigned_drop_bit_eq)
      (simp add: take_bit_eq_mod drop_bit_eq_div)
qed

lemma l2_index_div: "l2_index v = unat v div 2 ^ 21 mod 512"
proof -
  have "drop_bit 21 (v AND L2_PT_INDEX) = take_bit 9 (drop_bit 21 v)"
    by (simp add: drop_bit_and take_bit_eq_mask mask_eq_exp_minus_1)
  then show ?thesis by (simp only: l2_index_def unsigned_take_bit_eq unsigned_drop_bit_eq)
      (simp add: take_bit_eq_mod drop_bit_eq_div)
qed

lemma l3_index_div: "l3_index v = unat v div 2 ^ 12 mod 512"
proof -
  have "drop_bit 12 (v AND L3_PT_INDEX) = take_bit 9 (drop_bit 12 v)"
    by (simp add: drop_bit_and take_bit_eq_mask mask_eq_exp_minus_1)
  then show ?thesis by (simp only: l3_index_def unsigned_take_bit_eq unsigned_drop_bit_eq)
      (simp add: take_bit_eq_mod drop_bit_eq_div)
qed

lemma index_less [simp]: "l1_index v < 512" "l2_index v < 512" "l3_index v < 512"
  by (simp_all add: l1_index_div l2_index_div l3_index_div)

lemma aligned_address [simp]: "aligned (e AND PT_ADDRESS_BITS)"
proof -
  have "take_bit 12 (e AND PT_ADDRESS_BITS) = 0" by (simp add: take_bit_and)
  then have "unat (take_bit 12 (e AND PT_ADDRESS_BITS)) = 0" by (simp only: unsigned_0)
  then have "take_bit 12 (unat (e AND PT_ADDRESS_BITS)) = 0" by (simp only: unsigned_take_bit_eq)
  then show ?thesis by (simp add: aligned_def take_bit_eq_mod dvd_eq_mod_eq_0)
qed

lemma address_id:
  assumes "aligned a" and "unat a < 2 ^ 48"
  shows "a AND PT_ADDRESS_BITS = a"
proof -
  have "take_bit 12 (unat a) = 0" using assms(1) by (simp add: aligned_def take_bit_eq_mod dvd_eq_mod_eq_0)
  then have "unat (take_bit 12 a) = 0" by (simp only: unsigned_take_bit_eq)
  then have lo: "take_bit 12 a = 0" using unat_eq_zero by blast
  have "take_bit 48 (unat a) = unat a" using assms(2) by (simp add: take_bit_eq_mod)
  then have "unat (take_bit 48 a) = unat a" by (simp only: unsigned_take_bit_eq)
  then have hi: "take_bit 48 a = a" using word_unat_eq_iff by blast
  have "PT_ADDRESS_BITS = mask 48 AND NOT (mask 12)" by (simp add: mask_eq_exp_minus_1)
  then have "a AND PT_ADDRESS_BITS = take_bit 48 a AND NOT (mask 12)" by (simp add: take_bit_eq_mask and.assoc)
  also have "\<dots> = a AND NOT (mask 12)" by (simp only: hi)
  also have "\<dots> = a"
  proof (rule bit_eqI)
    fix n
    have "\<not> bit (take_bit 12 a) n" by (simp only: lo) simp
    then show "bit (a AND NOT (mask 12)) n = bit a n"
      using bit_imp_le_length [of a n] by (auto simp: bit_simps)
  qed
  finally show ?thesis .
qed

text \<open>An entry made of an address, attributes and a descriptor.\<close>

abbreviation (input) "ATTR_BITS \<equiv> (0xFFFF000000000FFC :: u64)"
abbreviation (input) "ACCESS_FLAG \<equiv> (0x400 :: u64)"

definition attr_bits :: "u64 \<Rightarrow> bool" where
  "attr_bits t \<longleftrightarrow> t AND ATTR_BITS = t"

lemma entry_parts:
  assumes "a AND PT_ADDRESS_BITS = a" and "attr_bits t" and "d \<in> {1, 3}"
  shows "(a OR t OR d) AND PT_ADDRESS_BITS = a" and "(a OR t OR d) AND 3 = d" and "(a OR t OR d) AND ATTR_BITS = t"
    and "(a OR t OR d) AND ACCESS_FLAG = t AND ACCESS_FLAG"
proof -
  have t: "t = t AND ATTR_BITS" using assms(2) by (simp add: attr_bits_def)
  have "t AND PT_ADDRESS_BITS = 0" "t AND 3 = 0" by (subst t, simp add: and.assoc)+
  moreover have "a AND 3 = 0" "a AND ATTR_BITS = 0" "a AND ACCESS_FLAG = 0" by (subst assms(1) [symmetric], simp add: and.assoc)+
  moreover have "d AND PT_ADDRESS_BITS = 0" "d AND 3 = d" "d AND ATTR_BITS = 0" "d AND ACCESS_FLAG = 0" using assms(3) by auto
  ultimately show "(a OR t OR d) AND PT_ADDRESS_BITS = a" "(a OR t OR d) AND 3 = d" "(a OR t OR d) AND ATTR_BITS = t"
    "(a OR t OR d) AND ACCESS_FLAG = t AND ACCESS_FLAG"
    using assms(1) t by (simp_all add: bit.conj_disj_distrib2)
qed

subsection \<open>The tree of tables\<close>

datatype node = Root | Table nat | Pages nat nat

definition next_table :: "(u64 \<Rightarrow> u64) \<Rightarrow> u64 \<Rightarrow> nat \<Rightarrow> u64 option" where
  "next_table m t i = (if i < 512 \<and> points_to_table (m (slot t i)) then Some (m (slot t i) AND PT_ADDRESS_BITS) else None)"

fun base :: "(u64 \<Rightarrow> u64) \<Rightarrow> u64 \<Rightarrow> node \<Rightarrow> u64 option" where
  "base m l1 Root = Some l1"
| "base m l1 (Table i) = next_table m l1 i"
| "base m l1 (Pages i j) = (case next_table m l1 i of None \<Rightarrow> None | Some t \<Rightarrow> next_table m t j)"

text \<open>The first address an entry of a table stands for, its descriptor, and the index of an address.\<close>

fun start :: "node \<Rightarrow> nat \<Rightarrow> nat" where
  "start Root i = i * 2 ^ 30"
| "start (Table i) j = i * 2 ^ 30 + j * 2 ^ 21"
| "start (Pages i j) k = i * 2 ^ 30 + j * 2 ^ 21 + k * 2 ^ 12"

fun width :: "node \<Rightarrow> nat" where
  "width Root = 30" | "width (Table i) = 21" | "width (Pages i j) = 12"

fun idx :: "node \<Rightarrow> u64 \<Rightarrow> nat" where
  "idx Root va = l1_index va" | "idx (Table i) va = l2_index va" | "idx (Pages i j) va = l3_index va"

fun desc :: "node \<Rightarrow> u64" where
  "desc (Pages i j) = MMU_PAGETABLE_PAGE_DESCRIPTOR" | "desc _ = MMU_PAGETABLE_BLOCK_DESCRIPTOR"

fun child :: "node \<Rightarrow> nat \<Rightarrow> node" where
  "child Root i = Table i" | "child (Table i) j = Pages i j" | "child (Pages i j) k = Pages i j"

fun inner :: "node \<Rightarrow> bool" where
  "inner (Pages i j) \<longleftrightarrow> False" | "inner _ \<longleftrightarrow> True"

definition loc :: "(u64 \<Rightarrow> u64) \<Rightarrow> u64 \<Rightarrow> u64 \<Rightarrow> node" where
  "loc m l1 va = (let i = l1_index va; j = l2_index va in
     case base m l1 (Table i) of None \<Rightarrow> Root | Some _ \<Rightarrow> (case base m l1 (Pages i j) of None \<Rightarrow> Table i | Some _ \<Rightarrow> Pages i j))"

text \<open>
  The walk of the processor for addresses of 39 bits with pages of 4 KB: the last entry and
  the number of address bits it leaves. An entry with a clear access flag faults.
\<close>

definition walk :: "(u64 \<Rightarrow> u64) \<Rightarrow> u64 \<Rightarrow> u64 \<Rightarrow> (u64 \<times> nat) option" where
  "walk m l1 va = (let e1 = m (slot l1 (l1_index va)) in
     if e1 AND 1 = 0 then None else if \<not> points_to_table e1 then Some (e1, 30)
     else let e2 = m (slot (e1 AND PT_ADDRESS_BITS) (l2_index va)) in
       if e2 AND 1 = 0 then None else if \<not> points_to_table e2 then Some (e2, 21)
       else let e3 = m (slot (e2 AND PT_ADDRESS_BITS) (l3_index va)) in
         if e3 AND 3 = 3 then Some (e3, 12) else None)"

definition translate :: "(u64 \<Rightarrow> u64) \<Rightarrow> u64 \<Rightarrow> u64 \<Rightarrow> (u64 \<times> u64) option" where
  "translate m l1 va = (if 2 ^ 39 \<le> unat va then None else case walk m l1 va of None \<Rightarrow> None
     | Some (e, n) \<Rightarrow> if e AND ACCESS_FLAG = 0 then None
         else Some (push_bit n (drop_bit n (e AND PT_ADDRESS_BITS)) + take_bit n va, e AND ATTR_BITS))"

subsection \<open>The invariant\<close>

definition leaf_ok :: "node \<Rightarrow> nat \<Rightarrow> u64 \<Rightarrow> bool" where
  "leaf_ok n k e \<longleftrightarrow> e = 0 \<or> e AND PT_ADDRESS_BITS = of_nat (start n k) \<and> e AND 3 = desc n"

definition entry_ok :: "node \<Rightarrow> nat \<Rightarrow> u64 \<Rightarrow> bool" where
  "entry_ok n k e \<longleftrightarrow> (if inner n \<and> points_to_table e then e AND 3 = 3 else leaf_ok n k e)"

definition tree :: "(u64 \<Rightarrow> u64) \<Rightarrow> u64 \<Rightarrow> bool" where
  "tree m l1 \<longleftrightarrow> aligned l1 \<and>
     (\<forall>n t k. base m l1 n = Some t \<longrightarrow> k < 512 \<longrightarrow> entry_ok n k (m (slot t k))) \<and>
     (\<forall>n n' t. base m l1 n = Some t \<longrightarrow> base m l1 n' = Some t \<longrightarrow> n = n')"

lemma treeD:
  assumes "tree m l1"
  shows "aligned l1" and "base m l1 n = Some t \<Longrightarrow> k < 512 \<Longrightarrow> entry_ok n k (m (slot t k))"
    and "base m l1 n = Some t \<Longrightarrow> base m l1 n' = Some t \<Longrightarrow> n = n'"
  using assms unfolding tree_def by blast+

lemma base_aligned: "tree m l1 \<Longrightarrow> base m l1 n = Some t \<Longrightarrow> aligned t"
  by (cases n) (auto simp: treeD next_table_def split: if_splits option.splits)

lemma points_to_table_and3: "e AND 3 = 1 \<Longrightarrow> \<not> points_to_table e" "e AND 3 = 3 \<Longrightarrow> points_to_table e" "\<not> points_to_table 0"
proof -
  have *: "e AND 2 = (e AND 3) AND 2" by (simp add: and.assoc)
  show "e AND 3 = 1 \<Longrightarrow> \<not> points_to_table e" "e AND 3 = 3 \<Longrightarrow> points_to_table e"
    by (simp_all add: points_to_table_def *)
  show "\<not> points_to_table 0" by (simp add: points_to_table_def)
qed

lemma leaf_ok_inner: "leaf_ok n k e \<Longrightarrow> inner n \<Longrightarrow> \<not> points_to_table e"
  by (cases n) (auto simp: leaf_ok_def points_to_table_and3)

lemma base_loc: "\<exists>t. base m l1 (loc m l1 va) = Some t"
  by (auto simp: loc_def Let_def split: option.split)

lemma loc_cases: "loc m l1 va \<in> {Root, Table (l1_index va), Pages (l1_index va) (l2_index va)}"
  by (simp add: loc_def Let_def split: option.split)

lemma idx_less [simp]: "idx n va < 512"
  by (cases n) auto

lemma start_idx:
  assumes "unat va < 2 ^ 39" and "n \<in> {Root, Table (l1_index va), Pages (l1_index va) (l2_index va)}"
  shows "start n (idx n va) = unat va div 2 ^ width n * 2 ^ width n"
proof -
  have i: "unat va div 2 ^ 30 mod 512 = unat va div 2 ^ 30" using assms(1) by simp
  have j: "unat va div 2 ^ 21 = (unat va div 2 ^ 30) * 512 + unat va div 2 ^ 21 mod 512"
    using div_mult_mod_eq [of "unat va div 2 ^ 21" 512] by (simp add: div_mult2_eq [symmetric])
  have k: "unat va div 2 ^ 12 = (unat va div 2 ^ 21) * 512 + unat va div 2 ^ 12 mod 512"
    using div_mult_mod_eq [of "unat va div 2 ^ 12" 512] by (simp add: div_mult2_eq [symmetric])
  from assms(2) consider "n = Root" | "n = Table (l1_index va)" | "n = Pages (l1_index va) (l2_index va)" by auto
  then show ?thesis
  proof cases
    case 1
    then show ?thesis using i by (simp add: l1_index_div)
  next
    case 2
    then show ?thesis using i j by (simp add: l1_index_div l2_index_div)
  next
    case 3
    then show ?thesis using i j k by (simp add: l1_index_div l2_index_div l3_index_div)
  qed
qed

lemma output_address:
  assumes "x = of_nat (unat va div 2 ^ n * 2 ^ n)"
  shows "push_bit n (drop_bit n x) + take_bit n va = (va :: u64)"
proof -
  have "x = push_bit n (drop_bit n va)"
  proof -
    have "unat (drop_bit n va) = unat va div 2 ^ n" by (simp only: unsigned_drop_bit_eq) (simp add: drop_bit_eq_div take_bit_eq_mod)
    then have "of_nat (unat va div 2 ^ n) = (of_nat (unat (drop_bit n va)) :: u64)" by (simp only:)
    then have "of_nat (unat va div 2 ^ n) = drop_bit n va" by simp
    with assms show ?thesis by (simp add: push_bit_eq_mult)
  qed
  then have "push_bit n (drop_bit n x) = push_bit n (drop_bit n va)"
    by (simp add: bit_eq_iff) (auto simp: bit_simps)
  then show ?thesis by (simp only: bits_ident)
qed

lemma and1_of_and3: "e AND 3 = 1 \<or> e AND 3 = 3 \<Longrightarrow> e AND 1 \<noteq> 0" for e :: u64
proof -
  have "e AND 1 = (e AND 3) AND 1" by (simp add: and.assoc)
  then show "e AND 3 = 1 \<or> e AND 3 = 3 \<Longrightarrow> e AND 1 \<noteq> 0" by auto
qed

lemma leaf_valid: "leaf_ok n k e \<Longrightarrow> inner n \<Longrightarrow> e AND 1 = 0 \<longleftrightarrow> e = 0"
  using and1_of_and3 [of e] by (cases n) (auto simp: leaf_ok_def)

lemma walk_tree:
  assumes "tree m l1" and "base m l1 (loc m l1 va) = Some t"
  defines "e \<equiv> m (slot t (idx (loc m l1 va) va))"
  shows "walk m l1 va = (if e = 0 then None else Some (e, width (loc m l1 va)))" and "leaf_ok (loc m l1 va) (idx (loc m l1 va) va) e"
proof -
  let ?i = "l1_index va" and ?j = "l2_index va" and ?k = "l3_index va"
  let ?e1 = "m (slot l1 ?i)"
  have r: "entry_ok Root ?i ?e1" using treeD(2) [OF assms(1), of Root] by simp
  have "(walk m l1 va = (if e = 0 then None else Some (e, width (loc m l1 va)))) \<and> leaf_ok (loc m l1 va) (idx (loc m l1 va) va) e"
  proof (cases "points_to_table ?e1")
    case False
    then have loc: "loc m l1 va = Root" and e: "e = ?e1" using assms(2) by (simp_all add: loc_def next_table_def e_def)
    have leaf: "leaf_ok Root ?i ?e1" using r False by (simp add: entry_ok_def)
    then show ?thesis using False leaf_valid [OF leaf] by (simp add: walk_def Let_def loc e)
  next
    case True
    let ?t1 = "?e1 AND PT_ADDRESS_BITS" and ?e2 = "m (slot (?e1 AND PT_ADDRESS_BITS) ?j)"
    have b1: "base m l1 (Table ?i) = Some ?t1" using True by (simp add: next_table_def)
    have v1: "?e1 AND 1 \<noteq> 0" using r True by (simp add: entry_ok_def and1_of_and3)
    have r2: "entry_ok (Table ?i) ?j ?e2" using treeD(2) [OF assms(1) b1] by simp
    show ?thesis
    proof (cases "points_to_table ?e2")
      case False
      then have loc: "loc m l1 va = Table ?i" and e: "e = ?e2" using b1 assms(2) by (simp_all add: loc_def next_table_def e_def)
      have leaf: "leaf_ok (Table ?i) ?j ?e2" using r2 False by (simp add: entry_ok_def)
      then show ?thesis using False True v1 leaf_valid [OF leaf] by (simp add: walk_def Let_def loc e)
    next
      case t2: True
      let ?e3 = "m (slot (?e2 AND PT_ADDRESS_BITS) ?k)"
      have b2: "base m l1 (Pages ?i ?j) = Some (?e2 AND PT_ADDRESS_BITS)" using b1 t2 by (simp add: next_table_def)
      have v2: "?e2 AND 1 \<noteq> 0" using r2 t2 by (simp add: entry_ok_def and1_of_and3)
      have loc: "loc m l1 va = Pages ?i ?j" and e: "e = ?e3" using b1 b2 assms(2) by (simp_all add: loc_def next_table_def e_def)
      have leaf: "leaf_ok (Pages ?i ?j) ?k ?e3" using treeD(2) [OF assms(1) b2, of ?k] by (simp add: entry_ok_def)
      then have "?e3 AND 3 = 3 \<longleftrightarrow> ?e3 \<noteq> 0" by (auto simp: leaf_ok_def)
      then show ?thesis using True t2 v1 v2 leaf by (simp add: walk_def Let_def loc e)
    qed
  qed
  then show "walk m l1 va = (if e = 0 then None else Some (e, width (loc m l1 va)))" and "leaf_ok (loc m l1 va) (idx (loc m l1 va) va) e"
    by simp_all
qed

text \<open>In a tree the translation is the identity with the attributes of the last entry.\<close>

lemma translate_tree:
  assumes "tree m l1" and "unat va < 2 ^ 39" and "base m l1 (loc m l1 va) = Some t"
  shows "translate m l1 va = (let e = m (slot t (idx (loc m l1 va) va)) in
    if e AND ACCESS_FLAG = 0 then None else Some (va, e AND ATTR_BITS))"
proof -
  let ?n = "loc m l1 va" and ?e = "m (slot t (idx (loc m l1 va) va))"
  note w = walk_tree(1) [OF assms(1,3)] and leaf = walk_tree(2) [OF assms(1,3)]
  show ?thesis
  proof (cases "?e = 0")
    case True
    then show ?thesis using w by (simp add: translate_def)
  next
    case False
    then have "?e AND PT_ADDRESS_BITS = of_nat (unat va div 2 ^ width ?n * 2 ^ width ?n)"
      using leaf start_idx [OF assms(2) loc_cases, of m l1] by (simp add: leaf_ok_def)
    from output_address [OF this] show ?thesis using w assms(2) False by (simp add: translate_def Let_def)
  qed
qed

subsection \<open>Setting entries of a table\<close>

definition settable :: "(u64 \<Rightarrow> u64) \<Rightarrow> u64 \<Rightarrow> node \<Rightarrow> (nat \<Rightarrow> u64 option) \<Rightarrow> bool" where
  "settable m t n g \<longleftrightarrow> (\<forall>k < 512. \<forall>v. g k = Some v \<longrightarrow> leaf_ok n k v \<and> (inner n \<longrightarrow> \<not> points_to_table (m (slot t k))))"

lemma fill_at:
  assumes "tree m l1" and "base m l1 n = Some t" and "base m l1 n' = Some t'" and "k < 512"
  shows "fill t g m (slot t' k) = (if n' = n then (case g k of Some v \<Rightarrow> v | None \<Rightarrow> m (slot t' k)) else m (slot t' k))"
proof (cases "n' = n")
  case True
  then have "t' = t" using assms(2,3) by simp
  show ?thesis using True assms(4) base_aligned [OF assms(1,2)] by (simp add: fill_slot \<open>t' = t\<close> split: option.split)
next
  case False
  then have "t \<noteq> t'" using treeD(3) [OF assms(1)] assms(2,3) by blast
  then show ?thesis using False assms(4) base_aligned [OF assms(1,2)] base_aligned [OF assms(1,3)] by (simp add: fill_other)
qed

lemma next_table_fill:
  assumes "tree m l1" and "base m l1 n = Some t" and "settable m t n g" and "base m l1 n' = Some t'" and "inner n'"
  shows "next_table (fill t g m) t' k = next_table m t' k"
proof (cases "k < 512")
  case True
  have "points_to_table (fill t g m (slot t' k)) = points_to_table (m (slot t' k)) \<and>
      (points_to_table (m (slot t' k)) \<longrightarrow> fill t g m (slot t' k) = m (slot t' k))"
  proof (cases "n' = n \<and> g k \<noteq> None")
    case g: True
    then obtain v where v: "g k = Some v" by auto
    then have "leaf_ok n k v" "\<not> points_to_table (m (slot t k))" using assms(3,5) g True by (auto simp: settable_def)
    moreover have "t' = t" using g assms(2,4) by simp
    ultimately show ?thesis
      using fill_at [OF assms(1,2,4) True, of g] g v assms(5) by (auto simp: leaf_ok_inner)
  next
    case False
    then show ?thesis using fill_at [OF assms(1,2,4) True, of g] by auto
  qed
  then show ?thesis by (auto simp: next_table_def)
qed (simp add: next_table_def)

lemma base_fill:
  assumes "tree m l1" and "base m l1 n = Some t" and "settable m t n g"
  shows "base (fill t g m) l1 = base m l1"
proof
  fix n'
  have r: "next_table (fill t g m) l1 i = next_table m l1 i" for i
    by (rule next_table_fill [OF assms, of Root]) simp_all
  show "base (fill t g m) l1 n' = base m l1 n'"
  proof (cases n')
    case (Pages i j)
    show ?thesis
    proof (cases "next_table m l1 i")
      case (Some t')
      then have "next_table (fill t g m) t' j = next_table m t' j"
        by (intro next_table_fill [OF assms, of "Table i"]) simp_all
      then show ?thesis using Pages r Some by simp
    qed (use Pages r in simp)
  qed (use r in simp_all)
qed

lemma tree_fill:
  assumes "tree m l1" and "base m l1 n = Some t" and "settable m t n g"
  shows "tree (fill t g m) l1"
proof -
  have "entry_ok n' k (fill t g m (slot t' k))" if t': "base m l1 n' = Some t'" "k < 512" for n' t' k
  proof (cases "n' = n \<and> g k \<noteq> None")
    case True
    then obtain v where v: "g k = Some v" by auto
    then have "leaf_ok n k v" using assms(3) t'(2) by (auto simp: settable_def)
    then show ?thesis using fill_at [OF assms(1,2) t', of g] True v by (auto simp: entry_ok_def dest: leaf_ok_inner)
  next
    case False
    then show ?thesis using fill_at [OF assms(1,2) t', of g] treeD(2) [OF assms(1) t'] by auto
  qed
  then show ?thesis
    using treeD(1,3) [OF assms(1)] unfolding tree_def base_fill [OF assms] by blast
qed

lemma translate_fill:
  assumes "tree m l1" and "base m l1 n = Some t" and "settable m t n g"
  shows "translate (fill t g m) l1 va = (if unat va < 2 ^ 39 \<and> loc m l1 va = n \<and> g (idx n va) \<noteq> None
    then let v = the (g (idx n va)) in if v AND ACCESS_FLAG = 0 then None else Some (va, v AND ATTR_BITS)
    else translate m l1 va)"
proof (cases "unat va < 2 ^ 39")
  case True
  obtain t' where t': "base m l1 (loc m l1 va) = Some t'" using base_loc by blast
  have loc: "loc (fill t g m) l1 va = loc m l1 va" by (simp only: loc_def base_fill [OF assms])
  have "translate (fill t g m) l1 va = (let e = fill t g m (slot t' (idx (loc m l1 va) va)) in
      if e AND ACCESS_FLAG = 0 then None else Some (va, e AND ATTR_BITS))"
    using translate_tree [OF tree_fill [OF assms] True, of t'] t' by (simp only: loc base_fill [OF assms])
  then show ?thesis
    using True fill_at [OF assms(1,2) t', of "idx (loc m l1 va) va" g] translate_tree [OF assms(1) True t']
    by (auto split: option.split)
qed (simp add: translate_def)

subsection \<open>Splitting an entry into a table\<close>

definition split_table :: "u64 \<Rightarrow> nat \<Rightarrow> u64 \<Rightarrow> (nat \<Rightarrow> u64) \<Rightarrow> (u64 \<Rightarrow> u64) \<Rightarrow> u64 \<Rightarrow> u64" where
  "split_table t k p h m = fill p (\<lambda>i. Some (h i)) (m(slot t k := p OR MMU_PAGETABLE_TABLE_DESCRIPTOR))"

definition splittable :: "(u64 \<Rightarrow> u64) \<Rightarrow> u64 \<Rightarrow> node \<Rightarrow> u64 \<Rightarrow> nat \<Rightarrow> u64 \<Rightarrow> (nat \<Rightarrow> u64) \<Rightarrow> bool" where
  "splittable m l1 n t k p h \<longleftrightarrow> tree m l1 \<and> base m l1 n = Some t \<and> inner n \<and> k < 512 \<and> \<not> points_to_table (m (slot t k)) \<and>
     aligned p \<and> unat p < 2 ^ 48 \<and> (\<forall>n'. base m l1 n' \<noteq> Some p) \<and>
     (\<forall>i < 512. leaf_ok (child n k) i (h i) \<and> h i AND ACCESS_FLAG = m (slot t k) AND ACCESS_FLAG \<and>
        (m (slot t k) AND ACCESS_FLAG \<noteq> 0 \<longrightarrow> h i AND ATTR_BITS = m (slot t k) AND ATTR_BITS))"

lemma table_entry:
  assumes "aligned p" and "unat p < 2 ^ 48"
  shows "points_to_table (p OR 3)" and "(p OR 3) AND PT_ADDRESS_BITS = p" and "(p OR 3) AND 3 = 3"
proof -
  have "attr_bits 0" "(3 :: u64) \<in> {1, 3}" by (simp_all add: attr_bits_def)
  from entry_parts(1,2) [OF address_id [OF assms] this]
  have "(p OR 3) AND PT_ADDRESS_BITS = p" and "(p OR 3) AND 3 = 3"
    by (simp_all only: or.left_neutral or.right_neutral)
  then show "points_to_table (p OR 3)" and "(p OR 3) AND PT_ADDRESS_BITS = p" and "(p OR 3) AND 3 = 3"
    using points_to_table_and3(2) by blast+
qed

lemma split_at_old:
  assumes "splittable m l1 n t k p h" and "base m l1 n' = Some t'" and "i < 512"
  shows "split_table t k p h m (slot t' i) = (if n' = n \<and> i = k then p OR 3 else m (slot t' i))"
proof -
  from assms(1) have a: "tree m l1" "base m l1 n = Some t" "k < 512" "aligned p" "p \<noteq> t'" "aligned t" "aligned t'"
    using assms(2) base_aligned by (auto simp: splittable_def)
  have "t' = t \<longleftrightarrow> n' = n" using treeD(3) [OF a(1) assms(2)] a(2) assms(2) by (metis option.inject)
  then have "slot t' i = slot t k \<longleftrightarrow> n' = n \<and> i = k" using slot_eq_iff [OF a(7,6) assms(3) a(3)] by blast
  then show ?thesis using fill_other [OF a(4,7,5) assms(3)] by (simp add: split_table_def)
qed

lemma split_at_new:
  assumes "splittable m l1 n t k p h" and "i < 512"
  shows "split_table t k p h m (slot p i) = h i"
  using assms by (simp add: splittable_def split_table_def fill_slot)

lemma base_split:
  assumes "splittable m l1 n t k p h"
  shows "base (split_table t k p h m) l1 = (base m l1)(child n k := Some p)"
proof
  fix n'
  let ?m = "split_table t k p h m"
  from assms have a: "tree m l1" "base m l1 n = Some t" "inner n" "k < 512" "\<not> points_to_table (m (slot t k))"
    by (simp_all add: splittable_def)
  have old: "next_table ?m t' i = (if n' = n \<and> i = k then Some p else next_table m t' i)" if "base m l1 n' = Some t'" for n' t' i
    using split_at_old [OF assms that, of i] assms by (auto simp: next_table_def splittable_def table_entry)
  have new: "next_table ?m p i = None" if "inner (child n k)" for i
    using split_at_new [OF assms, of i] assms leaf_ok_inner [OF _ that] by (auto simp: next_table_def splittable_def)
  have none: "next_table m t k = None" using a(5) by (simp add: next_table_def)
  have root: "next_table ?m l1 i = (if n = Root \<and> i = k then Some p else next_table m l1 i)" for i
    using old [of Root l1] by auto
  show "base ?m l1 n' = ((base m l1)(child n k := Some p)) n'"
  proof (cases n')
    case Root
    then show ?thesis using a(3) by (cases n) auto
  next
    case (Table i)
    then show ?thesis using a(3) root [of i] by (cases n) auto
  next
    case (Pages i j)
    show ?thesis
    proof (cases "n = Root \<and> i = k")
      case True
      then show ?thesis using Pages root [of i] new none a(2) by simp
    next
      case False
      show ?thesis
      proof (cases "next_table m l1 i")
        case None
        then show ?thesis using Pages root [of i] False a(2,3) by (cases n) auto
      next
        case (Some t')
        then show ?thesis using Pages root [of i] False a(2,3) old [of "Table i" t' j] by (cases n) auto
      qed
    qed
  qed
qed

lemma tree_split:
  assumes "splittable m l1 n t k p h"
  shows "tree (split_table t k p h m) l1"
proof -
  let ?m = "split_table t k p h m"
  from assms have a: "tree m l1" "base m l1 n = Some t" "inner n" "aligned p" "unat p < 2 ^ 48"
    "\<And>n'. base m l1 n' \<noteq> Some p" "\<And>i. i < 512 \<Longrightarrow> leaf_ok (child n k) i (h i)"
    by (simp_all add: splittable_def)
  note b = base_split [OF assms]
  have "entry_ok n' i (?m (slot t' i))" if "base ?m l1 n' = Some t'" and "i < 512" for n' t' i
  proof (cases "n' = child n k")
    case True
    then have "t' = p" using that(1) by (simp add: b)
    then show ?thesis using True split_at_new [OF assms that(2)] a(7) [OF that(2)] by (auto simp: entry_ok_def dest: leaf_ok_inner)
  next
    case False
    then have old: "base m l1 n' = Some t'" using that(1) by (simp add: b)
    then show ?thesis
      using split_at_old [OF assms old that(2)] treeD(2) [OF a(1) old that(2)] a(3) table_entry [OF a(4,5)]
      by (auto simp: entry_ok_def)
  qed
  moreover have "n' = n''" if "base ?m l1 n' = Some t'" and "base ?m l1 n'' = Some t'" for n' n'' t'
    using that a(6) treeD(3) [OF a(1)] by (auto simp: b split: if_splits)
  ultimately show ?thesis using treeD(1) [OF a(1)] unfolding tree_def by blast
qed

lemma loc_split:
  assumes "splittable m l1 n t k p h"
  shows "loc (split_table t k p h m) l1 va = (if loc m l1 va = n \<and> idx n va = k then child n k else loc m l1 va)"
proof -
  from assms have a: "base m l1 n = Some t" "inner n" "k < 512" "\<not> points_to_table (m (slot t k))"
    by (simp_all add: splittable_def)
  then have none: "next_table m t k = None" by (simp add: next_table_def)
  show ?thesis
  proof (cases n)
    case Root
    then show ?thesis using none a(1) by (auto simp: loc_def Let_def base_split [OF assms] simp del: base.simps split: option.split) (auto split: option.split)
  next
    case (Table i)
    then show ?thesis using none a(1) by (auto simp: loc_def Let_def base_split [OF assms] simp del: base.simps split: option.split)
  qed (use a(2) in simp)
qed

lemma translate_split:
  assumes "splittable m l1 n t k p h"
  shows "translate (split_table t k p h m) l1 = translate m l1"
proof
  fix va
  let ?m = "split_table t k p h m"
  from assms have a: "tree m l1" "base m l1 n = Some t" "inner n" "k < 512"
    "\<And>i. i < 512 \<Longrightarrow> h i AND ACCESS_FLAG = m (slot t k) AND ACCESS_FLAG"
    "\<And>i. i < 512 \<Longrightarrow> m (slot t k) AND ACCESS_FLAG \<noteq> 0 \<Longrightarrow> h i AND ATTR_BITS = m (slot t k) AND ATTR_BITS"
    by (simp_all add: splittable_def)
  show "translate ?m l1 va = translate m l1 va"
  proof (cases "unat va < 2 ^ 39")
    case True
    obtain t' where t': "base m l1 (loc m l1 va) = Some t'" using base_loc by blast
    note old = translate_tree [OF a(1) True t']
    show ?thesis
    proof (cases "loc m l1 va = n \<and> idx n va = k")
      case split: True
      then have "base ?m l1 (loc ?m l1 va) = Some p" by (simp add: loc_split [OF assms] base_split [OF assms])
      from translate_tree [OF tree_split [OF assms] True this]
      show ?thesis using old split a t' split_at_new [OF assms, of "idx (child n k) va"]
        by (auto simp: loc_split [OF assms] Let_def)
    next
      case False
      then have loc: "loc ?m l1 va = loc m l1 va" by (auto simp: loc_split [OF assms])
      have "loc m l1 va \<noteq> child n k"
      proof
        assume "loc m l1 va = child n k"
        then have "base m l1 (child n k) = Some t'" using t' by simp
        moreover have "base m l1 (child n k) = None"
          using a(2,3) assms by (cases n) (auto simp: splittable_def next_table_def)
        ultimately show False by simp
      qed
      then have "base ?m l1 (loc ?m l1 va) = Some t'" using t' by (simp add: loc base_split [OF assms])
      from translate_tree [OF tree_split [OF assms] True this]
      show ?thesis using old False t' split_at_old [OF assms t', of "idx (loc m l1 va) va"] by (auto simp: loc Let_def)
    qed
  qed (simp add: translate_def)
qed

end
