(* ===== verification/Page_Table_Map.thy ===== *)
theory Page_Table_Map
  imports Page_Table_Walk
begin

text \<open>
  The operations of the page tables against the translation of the processor: mapping a block
  gives its addresses the attributes of the block and leaves every other translation alone,
  although sections are split and tables are taken from the pools on the way.
\<close>

subsection \<open>The pools of free tables\<close>

definition frames :: "u64 \<Rightarrow> u32 \<Rightarrow> u64 set" where
  "frames p n = {p + 0x1000 * of_nat k | k. k < unat n}"

definition pool :: "u64 \<Rightarrow> u32 \<Rightarrow> bool" where
  "pool p n \<longleftrightarrow> aligned p \<and> p \<noteq> 0 \<and> unat p + 4096 * unat n \<le> 2 ^ 48"

lemma pool_take:
  assumes "pool p n" and "0 < n"
  shows "aligned p" and "unat p < 2 ^ 48" and "p \<in> frames p n" and "pool (p + 0x1000) (n - 1)"
    and "frames (p + 0x1000) (n - 1) \<subseteq> frames p n - {p}" and "p \<noteq> 0"
proof -
  have n: "unat (n - 1) = unat n - 1" "0 < unat n" using assms(2) by (simp_all add: unat_gt_0 unat_minus_one word_gt_0)
  have p: "unat p + 4096 * unat n \<le> 2 ^ 48" "aligned p" using assms(1) by (simp_all add: pool_def)
  show "aligned p" by (rule p(2))
  show "p \<noteq> 0" using assms(1) by (simp add: pool_def)
  show "unat p < 2 ^ 48" using p n by simp
  show "p \<in> frames p n" using n(2) by (auto simp: frames_def intro: exI [of _ 0])
  have u: "unat (p + 0x1000) = unat p + 4096" using p(1) n(2) by (simp add: unat_word_ariths)
  then have "p + 0x1000 \<noteq> 0" by (metis add_is_0 unsigned_0 zero_neq_numeral)
  then show "pool (p + 0x1000) (n - 1)" using u p n by (auto simp: pool_def aligned_def)
  show "frames (p + 0x1000) (n - 1) \<subseteq> frames p n - {p}"
  proof
    fix x
    assume "x \<in> frames (p + 0x1000) (n - 1)"
    then obtain k where k: "x = p + 0x1000 * of_nat (Suc k)" "k < unat n - 1" by (auto simp: frames_def n algebra_simps)
    have "unat (0x1000 * of_nat (Suc k) :: u64) = 4096 * Suc k"
      using k(2) p(1) by (simp add: unat_word_ariths del: of_nat_Suc)
    then have "(0x1000 * of_nat (Suc k) :: u64) \<noteq> 0" by (metis mult_is_0 nat.distinct(1) unsigned_0 zero_neq_numeral)
    then have "x \<noteq> p" using k(1) by simp
    then show "x \<in> frames p n - {p}" using k n(2) by (auto simp: frames_def intro!: exI [of _ "Suc k"])
  qed
qed

lemma frame_aligned: "pool p n \<Longrightarrow> t \<in> frames p n \<Longrightarrow> aligned t"
  by (auto simp: pool_def frames_def aligned_def unat_word_ariths)

text \<open>
  The invariant of the state: a tree of tables, apart from the free tables, and the free
  tables of 2 MB blocks without entries.
\<close>

definition wf :: "u64 \<Rightarrow> page_tables \<Rightarrow> bool" where
  "wf l1 s \<longleftrightarrow> tree (words s) l1 \<and> pool (empty_l2_pagetable_ptr s) (empty_l2_pagetable_num s) \<and>
     pool (empty_l3_pagetable_ptr s) (empty_l3_pagetable_num s) \<and>
     frames (empty_l2_pagetable_ptr s) (empty_l2_pagetable_num s) \<inter> frames (empty_l3_pagetable_ptr s) (empty_l3_pagetable_num s) = {} \<and>
     (\<forall>n t. base (words s) l1 n = Some t \<longrightarrow> t \<notin> frames (empty_l2_pagetable_ptr s) (empty_l2_pagetable_num s) \<and>
        t \<notin> frames (empty_l3_pagetable_ptr s) (empty_l3_pagetable_num s)) \<and>
     (\<forall>t \<in> frames (empty_l2_pagetable_ptr s) (empty_l2_pagetable_num s). \<forall>k < 512. \<not> points_to_table (words s (slot t k))) \<and>
     (\<forall>n. base (words s) l1 n \<noteq> Some 0)"

lemma wfD:
  assumes "wf l1 s"
  shows "tree (words s) l1" and "pool (empty_l2_pagetable_ptr s) (empty_l2_pagetable_num s)"
    and "pool (empty_l3_pagetable_ptr s) (empty_l3_pagetable_num s)"
    and "frames (empty_l2_pagetable_ptr s) (empty_l2_pagetable_num s) \<inter> frames (empty_l3_pagetable_ptr s) (empty_l3_pagetable_num s) = {}"
    and "base (words s) l1 n = Some t \<Longrightarrow> t \<notin> frames (empty_l2_pagetable_ptr s) (empty_l2_pagetable_num s)"
    and "base (words s) l1 n = Some t \<Longrightarrow> t \<notin> frames (empty_l3_pagetable_ptr s) (empty_l3_pagetable_num s)"
    and "t \<in> frames (empty_l2_pagetable_ptr s) (empty_l2_pagetable_num s) \<Longrightarrow> k < 512 \<Longrightarrow> \<not> points_to_table (words s (slot t k))"
    and "base (words s) l1 n = Some t \<Longrightarrow> t \<noteq> 0"
  using assms unfolding wf_def by blast+

subsection \<open>Addresses and entries\<close>

fun node_ok :: "node \<Rightarrow> bool" where
  "node_ok Root \<longleftrightarrow> True" | "node_ok (Table i) \<longleftrightarrow> i < 512" | "node_ok (Pages i j) \<longleftrightarrow> i < 512 \<and> j < 512"

lemma node_okI: "base m l1 n = Some t \<Longrightarrow> node_ok n"
  by (cases n) (auto simp: next_table_def split: if_splits option.splits)

lemma start_address:
  assumes "node_ok n" and "k < 512"
  shows "(of_nat (start n k) :: u64) AND PT_ADDRESS_BITS = of_nat (start n k)" and "start n k < 2 ^ 39" and "4096 dvd start n k"
proof -
  show b: "start n k < 2 ^ 39" using assms by (cases n) auto
  show d: "4096 dvd start n k" by (cases n) (auto intro!: dvd_add)
  have "unat (of_nat (start n k) :: u64) = start n k" using b by simp
  then show "(of_nat (start n k) :: u64) AND PT_ADDRESS_BITS = of_nat (start n k)"
    using b d by (intro address_id) (simp_all add: aligned_def)
qed

lemma leaf_entry:
  assumes "node_ok n" and "k < 512" and "attr_bits t"
  defines "v \<equiv> of_nat (start n k) OR t OR desc n"
  shows "leaf_ok n k v" and "v AND ACCESS_FLAG = t AND ACCESS_FLAG" and "v AND ATTR_BITS = t"
proof -
  have "desc n \<in> {1, 3}" by (cases n) auto
  from entry_parts [OF start_address(1) [OF assms(1,2)] assms(3) this]
  show "leaf_ok n k v" "v AND ACCESS_FLAG = t AND ACCESS_FLAG" "v AND ATTR_BITS = t"
    by (auto simp: leaf_ok_def v_def)
qed

text \<open>An entry of a new table has the attributes of the entry it is split from.\<close>

lemma child_entry:
  assumes "leaf_ok n k e" and "inner n" and "node_ok (child n k)" and "i < 512"
  defines "v \<equiv> of_nat (start (child n k) i) OR (e AND PT_ATTRIBUTE_BITS) OR desc (child n k)"
  shows "leaf_ok (child n k) i v" and "v AND ACCESS_FLAG = e AND ACCESS_FLAG" and "v AND ATTR_BITS = e AND ATTR_BITS"
proof -
  let ?t = "e AND ATTR_BITS" and ?a = "of_nat (start (child n k) i) :: u64"
  have "e AND PT_ATTRIBUTE_BITS = e AND (ATTR_BITS OR 3)" by simp
  also have "\<dots> = ?t OR (e AND 3)" by (rule bit.conj_disj_distrib)
  finally have "v = ?a OR ?t OR ((e AND 3) OR desc (child n k))" by (simp only: v_def or.assoc)
  moreover have "e AND 3 = 0 \<or> e AND 3 = 1" using assms(1,2) by (cases n) (auto simp: leaf_ok_def)
  then have "(e AND 3) OR desc (child n k) = desc (child n k)" using assms(2) by (cases n) auto
  ultimately have v: "v = ?a OR ?t OR desc (child n k)" by (simp only:)
  have t: "attr_bits ?t" by (simp add: attr_bits_def and.assoc)
  note l = leaf_entry [OF assms(3,4) t, folded v]
  show "leaf_ok (child n k) i v" "v AND ATTR_BITS = ?t" by (fact l(1), fact l(3))
  show "v AND ACCESS_FLAG = e AND ACCESS_FLAG" using l(2) by (simp add: and.assoc)
qed

subsection \<open>Blocks\<close>

text \<open>
  A block of the loader maps its addresses to themselves, is secure, lies in the 39 bits of
  address, and is aligned to the pages it is made of.
\<close>

definition bits :: "mem_block \<Rightarrow> u64" where
  "bits b = access b OR cachetype b OR executable b"

fun page_bits :: "MMU_MemoryMappingType \<Rightarrow> nat" where
  "page_bits MMU_L1_SECTION_MAPPING = 30" | "page_bits MMU_L2_SECTION_MAPPING = 21" | "page_bits MMU_L3_SECTION_MAPPING = 12"
| "page_bits _ = 0"

definition block_ok :: "mem_block \<Rightarrow> bool" where
  "block_ok b \<longleftrightarrow> memory_mapping b \<in> {MMU_L1_SECTION_MAPPING, MMU_L2_SECTION_MAPPING, MMU_L3_SECTION_MAPPING} \<and>
     p_base b = v_base b \<and> size_in_bytes b \<noteq> 0 \<and> unat (v_base b) + unat (size_in_bytes b) \<le> 2 ^ 39 \<and>
     2 ^ page_bits (memory_mapping b) dvd unat (v_base b) \<and> 2 ^ page_bits (memory_mapping b) dvd unat (size_in_bytes b) \<and>
     attr_bits (bits b) \<and> bits b AND ACCESS_FLAG \<noteq> 0"

definition in_block :: "mem_block \<Rightarrow> u64 \<Rightarrow> bool" where
  "in_block b va \<longleftrightarrow> unat (v_base b) \<le> unat va \<and> unat va < unat (v_base b) + unat (size_in_bytes b)"

text \<open>The entry for an address of the block.\<close>

definition block_entry :: "mem_block \<Rightarrow> node \<Rightarrow> nat \<Rightarrow> u64" where
  "block_entry b n k = of_nat (start n k) OR bits b OR desc n"

lemma block_entry_ok:
  assumes "block_ok b" and "node_ok n" and "k < 512"
  shows "leaf_ok n k (block_entry b n k)" and "block_entry b n k AND ACCESS_FLAG \<noteq> 0" and "block_entry b n k AND ATTR_BITS = bits b"
  using leaf_entry [OF assms(2,3), of "bits b"] assms(1) by (simp_all add: block_entry_def block_ok_def)

lemma section_mask: "unat (v AND L1_PT_INDEX) = unat v div 2 ^ 30 * 2 ^ 30" if "unat v < 2 ^ 39" for v :: u64
proof -
  have "drop_bit 30 (v AND L1_PT_INDEX) = take_bit 9 (drop_bit 30 v)"
    by (simp add: drop_bit_and take_bit_eq_mask mask_eq_exp_minus_1)
  moreover have "take_bit 30 (v AND L1_PT_INDEX) = 0" by (simp add: take_bit_and)
  ultimately have *: "unat (drop_bit 30 (v AND L1_PT_INDEX)) = unat (take_bit 9 (drop_bit 30 v))" "unat (take_bit 30 (v AND L1_PT_INDEX)) = 0"
    by (simp_all only: unsigned_0)
  have d: "unat (v AND L1_PT_INDEX) div 2 ^ 30 = unat v div 2 ^ 30 mod 512"
    using *(1) by (simp only: unsigned_take_bit_eq unsigned_drop_bit_eq) (simp add: take_bit_eq_mod drop_bit_eq_div)
  have m: "unat (v AND L1_PT_INDEX) mod 2 ^ 30 = 0"
    using *(2) by (simp only: unsigned_take_bit_eq) (simp add: take_bit_eq_mod)
  have "unat v div 2 ^ 30 mod 512 = unat v div 2 ^ 30" using that by simp
  then show ?thesis using d m by (metis add_0_right div_mult_mod_eq)
qed

lemma page_mask: "unat (v AND L3_PT_ADDRESS_BITS) = unat v div 2 ^ 21 * 2 ^ 21" if "unat v < 2 ^ 39" for v :: u64
proof -
  have "drop_bit 21 (v AND L3_PT_ADDRESS_BITS) = take_bit 27 (drop_bit 21 v)"
    by (simp add: drop_bit_and take_bit_eq_mask mask_eq_exp_minus_1)
  moreover have "take_bit 21 (v AND L3_PT_ADDRESS_BITS) = 0" by (simp add: take_bit_and)
  ultimately have *: "unat (drop_bit 21 (v AND L3_PT_ADDRESS_BITS)) = unat (take_bit 27 (drop_bit 21 v))"
    "unat (take_bit 21 (v AND L3_PT_ADDRESS_BITS)) = 0"
    by (simp_all only: unsigned_0)
  have d: "unat (v AND L3_PT_ADDRESS_BITS) div 2 ^ 21 = unat v div 2 ^ 21 mod 2 ^ 27"
    using *(1) by (simp only: unsigned_take_bit_eq unsigned_drop_bit_eq) (simp add: take_bit_eq_mod drop_bit_eq_div)
  have m: "unat (v AND L3_PT_ADDRESS_BITS) mod 2 ^ 21 = 0"
    using *(2) by (simp only: unsigned_take_bit_eq) (simp add: take_bit_eq_mod)
  have "unat v div 2 ^ 21 mod 2 ^ 27 = unat v div 2 ^ 21" using that by simp
  then show ?thesis using d m by (metis add_0_right div_mult_mod_eq)
qed

lemma of_nat_eqI: "unat x = n \<Longrightarrow> x = of_nat n" for x :: u64
  by auto

lemma block_p_addr:
  assumes "unat v < 2 ^ 39"
  shows "l1_index v \<le> i \<Longrightarrow> (v AND L1_PT_INDEX) + of_nat (i - l1_index v) * 0x40000000 = of_nat (start Root i)"
    and "(v AND L1_PT_INDEX) + of_nat j * 0x200000 = of_nat (start (Table (l1_index v)) j)"
    and "(v AND L3_PT_ADDRESS_BITS) + of_nat k * 0x1000 = of_nat (start (Pages (l1_index v) (l2_index v)) k)"
proof -
  have i: "l1_index v = unat v div 2 ^ 30" using assms by (simp add: l1_index_div)
  have a: "v AND L1_PT_INDEX = of_nat (unat v div 2 ^ 30 * 2 ^ 30)" by (rule of_nat_eqI) (rule section_mask [OF assms])
  show "(v AND L1_PT_INDEX) + of_nat (i - l1_index v) * 0x40000000 = of_nat (start Root i)" if "l1_index v \<le> i"
    using that by (simp add: a i of_nat_diff algebra_simps)
  show "(v AND L1_PT_INDEX) + of_nat j * 0x200000 = of_nat (start (Table (l1_index v)) j)"
    by (simp add: a i)
  have "unat v div 2 ^ 21 = (unat v div 2 ^ 30) * 512 + unat v div 2 ^ 21 mod 512"
    using div_mult_mod_eq [of "unat v div 2 ^ 21" 512] by (simp add: div_mult2_eq [symmetric])
  then have "start (Pages (l1_index v) (l2_index v)) 0 = unat v div 2 ^ 21 * 2 ^ 21" by (simp add: i l2_index_div)
  moreover have "v AND L3_PT_ADDRESS_BITS = of_nat (unat v div 2 ^ 21 * 2 ^ 21)" by (rule of_nat_eqI) (rule page_mask [OF assms])
  ultimately have b: "v AND L3_PT_ADDRESS_BITS = of_nat (start (Pages (l1_index v) (l2_index v)) 0)" by (simp only:)
  show "(v AND L3_PT_ADDRESS_BITS) + of_nat k * 0x1000 = of_nat (start (Pages (l1_index v) (l2_index v)) k)"
    by (simp add: b)
qed

text \<open>The limits of the loops.\<close>

lemma limits:
  assumes "block_ok b"
  shows "memory_mapping b = MMU_L1_SECTION_MAPPING \<Longrightarrow> l1_limit b = l1_index (v_base b) + unat (size_in_bytes b) div 2 ^ 30"
    and "memory_mapping b = MMU_L2_SECTION_MAPPING \<Longrightarrow> l2_limit b = l2_index (v_base b) + unat (size_in_bytes b) div 2 ^ 21"
    and "memory_mapping b = MMU_L3_SECTION_MAPPING \<Longrightarrow> l3_limit b = l3_index (v_base b) + unat (size_in_bytes b) div 2 ^ 12"
proof -
  let ?n = "unat (size_in_bytes b)"
  have n: "?n \<le> 2 ^ 39" using assms by (simp add: block_ok_def)
  have d: "unat (drop_bit 10 (size_in_bytes b)) = ?n div 1024"
    by (simp only: unsigned_drop_bit_eq) (simp add: drop_bit_eq_div take_bit_eq_mod)
  have r: "unat (drop_bit k (drop_bit 10 (size_in_bytes b) + of_nat c)) = (?n div 1024 + c) div 2 ^ k" if "c < 2 ^ 20" for k c
  proof -
    have "unat (drop_bit 10 (size_in_bytes b) + of_nat c) = ?n div 1024 + c"
      using n that by (simp add: unat_word_ariths d)
    moreover have "?n div 1024 + c < 2 ^ 64" using n that by simp
    ultimately show ?thesis by (simp only: unsigned_drop_bit_eq) (simp add: drop_bit_eq_div take_bit_eq_mod)
  qed
  { assume m: "memory_mapping b = MMU_L1_SECTION_MAPPING"
    then have "2 ^ 30 dvd ?n" using assms by (simp add: block_ok_def)
    then obtain q where q: "?n = 2 ^ 30 * q" by blast
    show "l1_limit b = l1_index (v_base b) + ?n div 2 ^ 30"
      using r [of 1048575 20] by (simp add: l1_limit_def q) }
  { assume m: "memory_mapping b = MMU_L2_SECTION_MAPPING"
    then have "2 ^ 21 dvd ?n" using assms by (simp add: block_ok_def)
    then obtain q where q: "?n = 2 ^ 21 * q" by blast
    show "l2_limit b = l2_index (v_base b) + ?n div 2 ^ 21"
      using r [of 2047 11] by (simp add: l2_limit_def q) }
  { assume m: "memory_mapping b = MMU_L3_SECTION_MAPPING"
    then have "2 ^ 12 dvd ?n" using assms by (simp add: block_ok_def)
    then obtain q where q: "?n = 2 ^ 12 * q" by blast
    show "l3_limit b = l3_index (v_base b) + ?n div 2 ^ 12"
      using r [of 3 2] by (simp add: l3_limit_def q) }
qed

text \<open>The addresses of a block by the indices of their entries.\<close>

lemma range_div:
  fixes a n x P :: nat
  assumes "P dvd a" and "P dvd n" and "0 < P"
  shows "a \<le> x \<and> x < a + n \<longleftrightarrow> a div P \<le> x div P \<and> x div P < a div P + n div P"
proof -
  obtain qa qn where q: "a = P * qa" "n = P * qn" using assms(1,2) by blast
  have "qa \<le> x div P \<longleftrightarrow> P * qa \<le> x" using assms(3) by (simp add: less_eq_div_iff_mult_less_eq mult.commute)
  moreover have "x div P < qa + qn \<longleftrightarrow> x < P * (qa + qn)" using assms(3) by (simp add: div_less_iff_less_mult mult.commute)
  ultimately show ?thesis using assms(3) by (simp add: q algebra_simps)
qed

lemma digit_range:
  fixes A X :: nat
  assumes "la + q \<le> 512" and "lx < 512"
  shows "A * 512 + la \<le> X * 512 + lx \<and> X * 512 + lx < A * 512 + la + q \<longleftrightarrow> X = A \<and> la \<le> lx \<and> lx < la + q"
proof -
  consider "X < A" | "X = A" | "A < X" by linarith
  then show ?thesis
  proof cases
    case 1
    then have "Suc X * 512 \<le> A * 512" by (intro mult_right_mono) simp_all
    then show ?thesis using assms 1 by simp
  next
    case 3
    then have "Suc A * 512 \<le> X * 512" by (intro mult_right_mono) simp_all
    then show ?thesis using assms 3 by simp
  qed simp
qed

lemma digits: "x div 2 ^ 21 = (x div 2 ^ 30) * 512 + x div 2 ^ 21 mod 512" "x div 2 ^ 12 = (x div 2 ^ 21) * 512 + x div 2 ^ 12 mod 512"
  for x :: nat
  using div_mult_mod_eq [of "x div 2 ^ 21" 512] div_mult_mod_eq [of "x div 2 ^ 12" 512] by (simp_all add: div_mult2_eq [symmetric])

lemma indices_eq: "unat va < 2 ^ 39 \<Longrightarrow> unat v < 2 ^ 39 \<Longrightarrow> l1_index va = l1_index v \<longleftrightarrow> unat va div 2 ^ 30 = unat v div 2 ^ 30"
  by (simp add: l1_index_div)

lemma indices_eq2:
  assumes "unat va < 2 ^ 39" and "unat v < 2 ^ 39"
  shows "l1_index va = l1_index v \<and> l2_index va = l2_index v \<longleftrightarrow> unat va div 2 ^ 21 = unat v div 2 ^ 21"
proof -
  have "unat x div 2 ^ 21 div 512 = unat x div 2 ^ 30" for x :: u64 by (simp add: div_mult2_eq [symmetric])
  then have "unat va div 2 ^ 21 = unat v div 2 ^ 21 \<Longrightarrow> unat va div 2 ^ 30 = unat v div 2 ^ 30" by metis
  then show ?thesis
    using assms digits(1) [of "unat va"] digits(1) [of "unat v"] by (auto simp: l1_index_div l2_index_div)
qed

definition one_table :: "mem_block \<Rightarrow> bool" where
  "one_table b \<longleftrightarrow> unat (v_base b) mod 2 ^ (page_bits (memory_mapping b) + 9) + unat (size_in_bytes b) \<le> 2 ^ (page_bits (memory_mapping b) + 9)"

lemma in_block_L1:
  assumes "block_ok b" and "memory_mapping b = MMU_L1_SECTION_MAPPING" and "unat va < 2 ^ 39" and "unat (v_base b) < 2 ^ 39"
  shows "in_block b va \<longleftrightarrow> l1_index (v_base b) \<le> l1_index va \<and> l1_index va < l1_limit b"
  using range_div [of "2 ^ 30" "unat (v_base b)" "unat (size_in_bytes b)" "unat va"] assms limits(1) [OF assms(1,2)]
  by (simp add: in_block_def block_ok_def l1_index_div)

lemma in_block_L2:
  assumes "block_ok b" and "memory_mapping b = MMU_L2_SECTION_MAPPING" and "one_table b" and "unat va < 2 ^ 39" and "unat (v_base b) < 2 ^ 39"
  shows "in_block b va \<longleftrightarrow> l1_index va = l1_index (v_base b) \<and> l2_index (v_base b) \<le> l2_index va \<and> l2_index va < l2_limit b"
    and "l2_limit b \<le> 512"
proof -
  let ?v = "unat (v_base b)" and ?n = "unat (size_in_bytes b)" and ?x = "unat va"
  have d: "2 ^ 21 dvd ?v" "2 ^ 21 dvd ?n" "?v mod 2 ^ 30 + ?n \<le> 2 ^ 30" using assms(1-3) by (simp_all add: block_ok_def one_table_def)
  have "(?v mod 2 ^ 30) div 2 ^ 21 = ?v div 2 ^ 21 mod 512"
    using mod_mult2_eq [of ?v "2 ^ 21" 512] by simp
  moreover have "(?v mod 2 ^ 30 + ?n) div 2 ^ 21 = (?v mod 2 ^ 30) div 2 ^ 21 + ?n div 2 ^ 21" using d(2) by (rule div_plus_div_distrib_dvd_right)
  moreover have "(?v mod 2 ^ 30 + ?n) div 2 ^ 21 \<le> 2 ^ 30 div 2 ^ 21" using d(3) by (rule div_le_mono)
  ultimately have l: "?v div 2 ^ 21 mod 512 + ?n div 2 ^ 21 \<le> 512" by simp
  show "l2_limit b \<le> 512" using l limits(2) [OF assms(1,2)] by (simp add: l2_index_div)
  have "in_block b va \<longleftrightarrow> ?v div 2 ^ 21 \<le> ?x div 2 ^ 21 \<and> ?x div 2 ^ 21 < ?v div 2 ^ 21 + ?n div 2 ^ 21"
    using range_div [OF d(1,2), of ?x] by (simp add: in_block_def)
  also have "\<dots> \<longleftrightarrow> ?x div 2 ^ 30 = ?v div 2 ^ 30 \<and> ?v div 2 ^ 21 mod 512 \<le> ?x div 2 ^ 21 mod 512 \<and>
      ?x div 2 ^ 21 mod 512 < ?v div 2 ^ 21 mod 512 + ?n div 2 ^ 21"
    using digit_range [OF l, of "?x div 2 ^ 21 mod 512" "?v div 2 ^ 30" "?x div 2 ^ 30"]
    by (simp only: digits(1) [symmetric])
  finally show "in_block b va \<longleftrightarrow> l1_index va = l1_index (v_base b) \<and> l2_index (v_base b) \<le> l2_index va \<and> l2_index va < l2_limit b"
    using indices_eq [OF assms(4,5)] limits(2) [OF assms(1,2)] by (simp add: l2_index_div)
qed

lemma in_block_L3:
  assumes "block_ok b" and "memory_mapping b = MMU_L3_SECTION_MAPPING" and "one_table b" and "unat va < 2 ^ 39" and "unat (v_base b) < 2 ^ 39"
  shows "in_block b va \<longleftrightarrow> l1_index va = l1_index (v_base b) \<and> l2_index va = l2_index (v_base b) \<and>
      l3_index (v_base b) \<le> l3_index va \<and> l3_index va < l3_limit b"
    and "l3_limit b \<le> 512"
proof -
  let ?v = "unat (v_base b)" and ?n = "unat (size_in_bytes b)" and ?x = "unat va"
  have d: "2 ^ 12 dvd ?v" "2 ^ 12 dvd ?n" "?v mod 2 ^ 21 + ?n \<le> 2 ^ 21" using assms(1-3) by (simp_all add: block_ok_def one_table_def)
  have "(?v mod 2 ^ 21) div 2 ^ 12 = ?v div 2 ^ 12 mod 512"
    using mod_mult2_eq [of ?v "2 ^ 12" 512] by simp
  moreover have "(?v mod 2 ^ 21 + ?n) div 2 ^ 12 = (?v mod 2 ^ 21) div 2 ^ 12 + ?n div 2 ^ 12" using d(2) by (rule div_plus_div_distrib_dvd_right)
  moreover have "(?v mod 2 ^ 21 + ?n) div 2 ^ 12 \<le> 2 ^ 21 div 2 ^ 12" using d(3) by (rule div_le_mono)
  ultimately have l: "?v div 2 ^ 12 mod 512 + ?n div 2 ^ 12 \<le> 512" by simp
  show "l3_limit b \<le> 512" using l limits(3) [OF assms(1,2)] by (simp add: l3_index_div)
  have "in_block b va \<longleftrightarrow> ?v div 2 ^ 12 \<le> ?x div 2 ^ 12 \<and> ?x div 2 ^ 12 < ?v div 2 ^ 12 + ?n div 2 ^ 12"
    using range_div [OF d(1,2), of ?x] by (simp add: in_block_def)
  also have "\<dots> \<longleftrightarrow> ?x div 2 ^ 21 = ?v div 2 ^ 21 \<and> ?v div 2 ^ 12 mod 512 \<le> ?x div 2 ^ 12 mod 512 \<and>
      ?x div 2 ^ 12 mod 512 < ?v div 2 ^ 12 mod 512 + ?n div 2 ^ 12"
    using digit_range [OF l, of "?x div 2 ^ 12 mod 512" "?v div 2 ^ 21" "?x div 2 ^ 21"]
    by (simp only: digits(2) [symmetric])
  finally show "in_block b va \<longleftrightarrow> l1_index va = l1_index (v_base b) \<and> l2_index va = l2_index (v_base b) \<and>
      l3_index (v_base b) \<le> l3_index va \<and> l3_index va < l3_limit b"
    using indices_eq2 [OF assms(4,5)] limits(3) [OF assms(1,2)] by (auto simp: l3_index_div)
qed

subsection \<open>The two changes keep the invariant\<close>

lemma wf_fill:
  assumes "wf l1 s" and "base (words s) l1 n = Some t" and "settable (words s) t n g"
  shows "wf l1 (s\<lparr>words := fill t g (words s)\<rparr>)"
proof -
  note w = wfD [OF assms(1)]
  have "fill t g (words s) (slot f k) = words s (slot f k)"
    if "f \<in> frames (empty_l2_pagetable_ptr s) (empty_l2_pagetable_num s)" "k < 512" for f k
    using that w(5) [OF assms(2)] base_aligned [OF w(1) assms(2)] frame_aligned [OF w(2) that(1)] by (intro fill_other) auto
  moreover have "base (words s) l1 n' \<noteq> Some 0" for n' using w(8) [of n' 0] by auto
  ultimately show ?thesis
    using w(1-7) tree_fill [OF w(1) assms(2,3)] base_fill [OF w(1) assms(2,3)] by (auto simp: wf_def)
qed

lemma split_elsewhere:
  assumes "splittable m l1 n t k p h" and "aligned f" and "f \<noteq> t" and "f \<noteq> p" and "i < 512"
  shows "split_table t k p h m (slot f i) = m (slot f i)"
proof -
  from assms(1) have "aligned p" "aligned t" "k < 512" using base_aligned by (auto simp: splittable_def)
  then show ?thesis using assms(2-5) slot_eq_iff [OF assms(2), of t i k] by (simp add: split_table_def fill_other)
qed

lemma wf_split2:
  assumes "wf l1 s" and "splittable (words s) l1 n t k (empty_l2_pagetable_ptr s) h" and "0 < empty_l2_pagetable_num s"
  shows "wf l1 (s\<lparr>words := split_table t k (empty_l2_pagetable_ptr s) h (words s),
    empty_l2_pagetable_ptr := empty_l2_pagetable_ptr s + 0x1000, empty_l2_pagetable_num := empty_l2_pagetable_num s - 1\<rparr>)"
proof -
  let ?p = "empty_l2_pagetable_ptr s"
  note w = wfD [OF assms(1)] and p = pool_take [OF wfD(2) [OF assms(1)] assms(3)]
  have t: "base (words s) l1 n = Some t" using assms(2) by (simp add: splittable_def)
  have same: "split_table t k ?p h (words s) (slot f i) = words s (slot f i)"
    if f: "f \<in> frames (?p + 0x1000) (empty_l2_pagetable_num s - 1)" "i < 512" for f i
  proof (rule split_elsewhere [OF assms(2)])
    show "aligned f" by (rule frame_aligned [OF p(4) f(1)])
    show "f \<noteq> t" "f \<noteq> ?p" using f(1) p(5) w(5) [OF t] by auto
  qed (rule f(2))
  have "t' \<notin> frames (?p + 0x1000) (empty_l2_pagetable_num s - 1) \<and> t' \<notin> frames (empty_l3_pagetable_ptr s) (empty_l3_pagetable_num s)"
    if "((base (words s) l1)(child n k := Some ?p)) n' = Some t'" for n' t'
    using that p(3,5) w(4) w(5,6) [of n' t'] by (auto split: if_splits)
  moreover have "\<not> points_to_table (split_table t k ?p h (words s) (slot f i))"
    if "f \<in> frames (?p + 0x1000) (empty_l2_pagetable_num s - 1)" "i < 512" for f i
    using w(7) [of f i] p(5) that by (auto simp: same)
  moreover have "frames (?p + 0x1000) (empty_l2_pagetable_num s - 1) \<inter> frames (empty_l3_pagetable_ptr s) (empty_l3_pagetable_num s) = {}"
    using w(4) p(5) by auto
  moreover have "((base (words s) l1)(child n k := Some ?p)) n' \<noteq> Some 0" for n' using w(8) [of n' 0] p(6) by auto
  ultimately show ?thesis
    using w(3) p(4) tree_split [OF assms(2)] by (simp add: wf_def base_split [OF assms(2)])
qed

lemma wf_split3:
  assumes "wf l1 s" and "splittable (words s) l1 n t k (empty_l3_pagetable_ptr s) h" and "0 < empty_l3_pagetable_num s"
  shows "wf l1 (s\<lparr>words := split_table t k (empty_l3_pagetable_ptr s) h (words s),
    empty_l3_pagetable_ptr := empty_l3_pagetable_ptr s + 0x1000, empty_l3_pagetable_num := empty_l3_pagetable_num s - 1\<rparr>)"
proof -
  let ?p = "empty_l3_pagetable_ptr s"
  note w = wfD [OF assms(1)] and p = pool_take [OF wfD(3) [OF assms(1)] assms(3)]
  have t: "base (words s) l1 n = Some t" using assms(2) by (simp add: splittable_def)
  have same: "split_table t k ?p h (words s) (slot f i) = words s (slot f i)"
    if f: "f \<in> frames (empty_l2_pagetable_ptr s) (empty_l2_pagetable_num s)" "i < 512" for f i
  proof (rule split_elsewhere [OF assms(2)])
    show "aligned f" by (rule frame_aligned [OF w(2) f(1)])
    show "f \<noteq> t" "f \<noteq> ?p" using f(1) p(3) w(4) w(5) [OF t] by auto
  qed (rule f(2))
  have "t' \<notin> frames (empty_l2_pagetable_ptr s) (empty_l2_pagetable_num s) \<and> t' \<notin> frames (?p + 0x1000) (empty_l3_pagetable_num s - 1)"
    if "((base (words s) l1)(child n k := Some ?p)) n' = Some t'" for n' t'
    using that p(3,5) w(4) w(5,6) [of n' t'] by (auto split: if_splits)
  moreover have "\<not> points_to_table (split_table t k ?p h (words s) (slot f i))"
    if "f \<in> frames (empty_l2_pagetable_ptr s) (empty_l2_pagetable_num s)" "i < 512" for f i
    using w(7) [of f i] that by (auto simp: same)
  moreover have "frames (empty_l2_pagetable_ptr s) (empty_l2_pagetable_num s) \<inter> frames (?p + 0x1000) (empty_l3_pagetable_num s - 1) = {}"
    using w(4) p(5) by auto
  moreover have "((base (words s) l1)(child n k := Some ?p)) n' \<noteq> Some 0" for n' using w(8) [of n' 0] p(6) by auto
  ultimately show ?thesis
    using w(2) p(4) tree_split [OF assms(2)] by (simp add: wf_def base_split [OF assms(2)])
qed

text \<open>The entries of a table that a section or block is split into.\<close>

definition children :: "node \<Rightarrow> nat \<Rightarrow> u64 \<Rightarrow> nat \<Rightarrow> u64" where
  "children n k e i = of_nat (start (child n k) i) OR (e AND PT_ATTRIBUTE_BITS) OR desc (child n k)"

lemma splittable_children:
  assumes "tree m l1" and "base m l1 n = Some t" and "inner n" and "k < 512" and "\<not> points_to_table (m (slot t k))"
    and "aligned p" and "unat p < 2 ^ 48" and "\<And>n'. base m l1 n' \<noteq> Some p"
  shows "splittable m l1 n t k p (children n k (m (slot t k)))"
proof -
  have "leaf_ok n k (m (slot t k))" using treeD(2) [OF assms(1,2,4)] assms(3,5) by (simp add: entry_ok_def)
  moreover have "node_ok (child n k)" using node_okI [OF assms(2)] assms(3,4) by (cases n) auto
  ultimately show ?thesis
    using assms child_entry [of n k "m (slot t k)"] by (auto simp: splittable_def children_def)
qed

subsection \<open>A block within one table\<close>

lemma loc_eqI:
  assumes "base m l1 n = Some t" and "n \<in> {Root, Table (l1_index va), Pages (l1_index va) (l2_index va)}"
    and "inner n \<Longrightarrow> \<not> points_to_table (m (slot t (idx n va)))"
  shows "loc m l1 va = n"
  using assms by (auto simp: loc_def next_table_def Let_def split: option.splits if_splits)

definition block_fill :: "mem_block \<Rightarrow> node \<Rightarrow> nat \<Rightarrow> nat \<Rightarrow> nat \<Rightarrow> u64 option" where
  "block_fill b n lo hi k = (if lo \<le> k \<and> k < hi then Some (block_entry b n k) else None)"

lemma translate_block:
  assumes "tree m l1" and "base m l1 n = Some t" and "block_ok b"
    and free: "\<And>k. inner n \<Longrightarrow> lo \<le> k \<Longrightarrow> k < hi \<Longrightarrow> k < 512 \<Longrightarrow> \<not> points_to_table (m (slot t k))"
    and range: "\<And>va. unat va < 2 ^ 39 \<Longrightarrow> in_block b va \<longleftrightarrow>
      n \<in> {Root, Table (l1_index va), Pages (l1_index va) (l2_index va)} \<and> lo \<le> idx n va \<and> idx n va < hi"
  shows "settable m t n (block_fill b n lo hi)"
    and "translate (fill t (block_fill b n lo hi) m) l1 va = (if in_block b va then Some (va, bits b) else translate m l1 va)"
proof -
  note e = block_entry_ok [OF assms(3) node_okI [OF assms(2)]]
  show s: "settable m t n (block_fill b n lo hi)"
    using e(1) free by (auto simp: settable_def block_fill_def split: if_splits)
  note tf = translate_fill [OF assms(1,2) s, of va]
  show "translate (fill t (block_fill b n lo hi) m) l1 va = (if in_block b va then Some (va, bits b) else translate m l1 va)"
  proof (cases "in_block b va")
    case True
    then have va: "unat va < 2 ^ 39" using assms(3) by (auto simp: in_block_def block_ok_def)
    from range [OF va] True have r: "n \<in> {Root, Table (l1_index va), Pages (l1_index va) (l2_index va)}" "lo \<le> idx n va" "idx n va < hi"
      by auto
    then have "loc m l1 va = n" using free by (intro loc_eqI [OF assms(2)]) auto
    then show ?thesis using tf va r(2,3) True e(2,3) [of "idx n va"] by (simp add: block_fill_def)
  next
    case False
    have c: "\<not> (unat va < 2 ^ 39 \<and> loc m l1 va = n \<and> block_fill b n lo hi (idx n va) \<noteq> None)"
      using False range [of va] loc_cases [of m l1 va] by (auto simp: block_fill_def split: if_splits)
    show ?thesis by (simp only: tf c False if_False)
  qed
qed

subsection \<open>The loops\<close>

lemma block_less: "block_ok b \<Longrightarrow> unat (v_base b) < 2 ^ 39"
  by (simp add: block_ok_def unat_gt_0 [symmetric])

lemma block_bits_secure:
  assumes "block_ok b" and "ns \<in> {MMU_L1_NS_SECTION_MAPPING, MMU_L2_NS_SECTION_MAPPING, MMU_L3_NS_SECTION_MAPPING}"
  shows "block_bits b ns = bits b"
  using assms by (auto simp: block_bits_def bits_def block_ok_def)

lemma l1_loop:
  assumes "block_ok b" and "memory_mapping b = MMU_L1_SECTION_MAPPING" and "aligned l1"
    and free: "\<And>i. l1_index (v_base b) \<le> i \<Longrightarrow> i < l1_limit b \<Longrightarrow> \<not> points_to_table (words s (slot l1 i))"
  shows "mmu_map_block_as_l1_sections l1 b s =
    (Inr (), s\<lparr>words := fill l1 (block_fill b Root (l1_index (v_base b)) (l1_limit b)) (words s)\<rparr>)" and "l1_limit b \<le> 512"
proof -
  let ?lo = "l1_index (v_base b)" and ?n = "unat (size_in_bytes b) div 2 ^ 30" and ?p = "p_base b AND L1_PT_INDEX"
  let ?G = "\<lambda>i p e. Some (p OR block_bits b MMU_L1_NS_SECTION_MAPPING OR MMU_PAGETABLE_BLOCK_DESCRIPTOR) :: u64 option"
  have v: "unat (v_base b) < 2 ^ 39" by (rule block_less [OF assms(1)])
  have lim: "l1_limit b = ?lo + ?n" by (rule limits(1) [OF assms(1,2)])
  have "unat (v_base b) + unat (size_in_bytes b) \<le> 2 ^ 39" "2 ^ 30 dvd unat (size_in_bytes b)" "2 ^ 30 dvd unat (v_base b)"
    using assms(1,2) by (simp_all add: block_ok_def)
  then have "?lo + ?n \<le> 512" using v by (auto simp: l1_index_div elim!: dvdE)
  then show lim512: "l1_limit b \<le> 512" using lim by simp
  have "fold (map_l1_step l1 b) [?lo..<?lo + ?n] (words s, ?p) =
      (fill l1 (\<lambda>i. if ?lo \<le> i \<and> i < ?lo + ?n then ?G i (?p + of_nat (i - ?lo) * 0x40000000) (words s (slot l1 i)) else None) (words s),
       ?p + of_nat ?n * 0x40000000)"
  proof (rule fold_fill [OF assms(3)])
    fix i m' p
    assume i: "?lo \<le> i" "i < ?lo + ?n" and m': "m' (slot l1 i) = words s (slot l1 i)"
    then have "\<not> points_to_table (m' (slot l1 i))" using free [of i] lim by simp
    then show "map_l1_step l1 b i (m', p) = (case ?G i p (words s (slot l1 i)) of Some v \<Rightarrow> m'(slot l1 i := v) | None \<Rightarrow> m', p + 0x40000000)"
      by (simp add: map_l1_step_def)
  qed (use lim lim512 in simp)
  moreover have "(\<lambda>i. if ?lo \<le> i \<and> i < ?lo + ?n then ?G i (?p + of_nat (i - ?lo) * 0x40000000) (words s (slot l1 i)) else None) =
      block_fill b Root ?lo (l1_limit b)"
  proof
    fix i
    show "(if ?lo \<le> i \<and> i < ?lo + ?n then ?G i (?p + of_nat (i - ?lo) * 0x40000000) (words s (slot l1 i)) else None) =
        block_fill b Root ?lo (l1_limit b) i"
      using block_p_addr(1) [OF v, of i] assms(1) by (auto simp: block_fill_def block_entry_def lim block_bits_secure block_ok_def)
  qed
  ultimately show "mmu_map_block_as_l1_sections l1 b s =
    (Inr (), s\<lparr>words := fill l1 (block_fill b Root ?lo (l1_limit b)) (words s)\<rparr>)"
    by (simp only: mmu_map_block_as_l1_sections_def modify_app lim fst_conv)
qed

definition l2_values :: "mem_block \<Rightarrow> bool \<Rightarrow> u64 \<Rightarrow> u64 \<Rightarrow> (u64 \<Rightarrow> u64) \<Rightarrow> nat \<Rightarrow> u64 option" where
  "l2_values b l2_pt_exist attribute l2 m j = (let a = of_nat (start (Table (l1_index (v_base b))) j) in
     if j < 512 then
       if l2_index (v_base b) \<le> j \<and> j < l2_limit b \<and> \<not> is_l3 b
       then if points_to_table (m (slot l2 j)) then None else Some (a OR bits b OR MMU_PAGETABLE_BLOCK_DESCRIPTOR)
       else if \<not> l2_pt_exist then Some (a OR attribute OR MMU_PAGETABLE_BLOCK_DESCRIPTOR) else None
     else None)"

lemma l2_loop:
  assumes "block_ok b" and "aligned l2"
  shows "map_l2_entries l2 b ex att s = (Inr (), s\<lparr>words := fill l2 (l2_values b ex att l2 (words s)) (words s)\<rparr>)"
proof -
  let ?p = "p_base b AND L1_PT_INDEX"
  let ?G = "\<lambda>i p e. if l2_index (v_base b) \<le> i \<and> i < l2_limit b \<and> \<not> is_l3 b
      then if points_to_table e then None else Some (p OR block_bits b MMU_L2_NS_SECTION_MAPPING OR MMU_PAGETABLE_BLOCK_DESCRIPTOR)
      else if \<not> ex then Some (p OR att OR MMU_PAGETABLE_BLOCK_DESCRIPTOR) else None :: u64 option"
  have v: "unat (v_base b) < 2 ^ 39" by (rule block_less [OF assms(1)])
  have "fold (map_l2_step l2 b ex att) [0..<0 + 512] (words s, ?p) =
      (fill l2 (\<lambda>i. if 0 \<le> i \<and> i < 0 + 512 then ?G i (?p + of_nat (i - 0) * 0x200000) (words s (slot l2 i)) else None) (words s),
       ?p + of_nat 512 * 0x200000)"
    by (rule fold_fill [OF assms(2)]) (simp_all add: map_l2_step_def)
  moreover have "(\<lambda>i. if 0 \<le> i \<and> i < 0 + 512 then ?G i (?p + of_nat (i - 0) * 0x200000) (words s (slot l2 i)) else None) =
      l2_values b ex att l2 (words s)"
  proof
    fix i
    have "?p + of_nat i * 0x200000 = of_nat (start (Table (l1_index (v_base b))) i)"
      using block_p_addr(2) [OF v, of i] assms(1) by (simp add: block_ok_def del: start.simps)
    then show "(if 0 \<le> i \<and> i < 0 + 512 then ?G i (?p + of_nat (i - 0) * 0x200000) (words s (slot l2 i)) else None) =
        l2_values b ex att l2 (words s) i"
      using assms(1) by (simp add: l2_values_def Let_def block_bits_secure del: start.simps)
  qed
  ultimately show ?thesis
    by (simp only: map_l2_entries_def modify_app add_0 fst_conv)
qed

definition l3_values :: "mem_block \<Rightarrow> bool \<Rightarrow> u64 \<Rightarrow> nat \<Rightarrow> u64 option" where
  "l3_values b l3_pt_exist attribute k = (let a = of_nat (start (Pages (l1_index (v_base b)) (l2_index (v_base b))) k) in
     if k < 512 then
       if l3_index (v_base b) \<le> k \<and> k < l3_limit b then Some (a OR bits b OR MMU_PAGETABLE_PAGE_DESCRIPTOR)
       else if \<not> l3_pt_exist then Some (a OR attribute OR MMU_PAGETABLE_PAGE_DESCRIPTOR) else None
     else None)"

lemma l3_loop:
  assumes "block_ok b" and "aligned l3"
  shows "map_l3_entries l3 b ex att s = (Inr (), s\<lparr>words := fill l3 (l3_values b ex att) (words s)\<rparr>)"
proof -
  let ?p = "p_base b AND L3_PT_ADDRESS_BITS"
  let ?G = "\<lambda>i p (e :: u64). if l3_index (v_base b) \<le> i \<and> i < l3_limit b
      then Some (p OR block_bits b MMU_L3_NS_SECTION_MAPPING OR MMU_PAGETABLE_PAGE_DESCRIPTOR)
      else if \<not> ex then Some (p OR att OR MMU_PAGETABLE_PAGE_DESCRIPTOR) else None :: u64 option"
  have v: "unat (v_base b) < 2 ^ 39" by (rule block_less [OF assms(1)])
  have "fold (map_l3_step l3 b ex att) [0..<0 + 512] (words s, ?p) =
      (fill l3 (\<lambda>i. if 0 \<le> i \<and> i < 0 + 512 then ?G i (?p + of_nat (i - 0) * 0x1000) (words s (slot l3 i)) else None) (words s),
       ?p + of_nat 512 * 0x1000)"
    by (rule fold_fill [OF assms(2)]) (simp_all add: map_l3_step_def)
  moreover have "(\<lambda>i. if 0 \<le> i \<and> i < 0 + 512 then ?G i (?p + of_nat (i - 0) * 0x1000) (words s (slot l3 i)) else None) = l3_values b ex att"
  proof
    fix i
    have "?p + of_nat i * 0x1000 = of_nat (start (Pages (l1_index (v_base b)) (l2_index (v_base b))) i)"
      using block_p_addr(3) [OF v, of i] assms(1) by (simp add: block_ok_def del: start.simps)
    then show "(if 0 \<le> i \<and> i < 0 + 512 then ?G i (?p + of_nat (i - 0) * 0x1000) (words s (slot l3 i)) else None) = l3_values b ex att i"
      using assms(1) by (simp add: l3_values_def Let_def block_bits_secure del: start.simps)
  qed
  ultimately show ?thesis
    by (simp only: map_l3_entries_def modify_app add_0 fst_conv)
qed

subsection \<open>The operations\<close>

lemma fill_cong:
  assumes "aligned t" and "\<And>i. i < 512 \<Longrightarrow> g i = h i"
  shows "fill t g m = fill t h m"
proof
  fix a
  show "fill t g m a = fill t h m a"
  proof (cases "\<exists>i < 512. a = slot t i")
    case True
    then show ?thesis using assms by (auto simp: fill_slot)
  qed (auto simp: fill_def)
qed

definition tables :: "u64 \<Rightarrow> page_tables \<Rightarrow> node set" where
  "tables l1 s = dom (base (words s) l1)"

abbreviation upper :: "mem_block \<Rightarrow> node" where
  "upper b \<equiv> Table (l1_index (v_base b))"

abbreviation lower :: "mem_block \<Rightarrow> node" where
  "lower b \<equiv> Pages (l1_index (v_base b)) (l2_index (v_base b))"

lemma needs_tables:
  "needs_l2 l1 b s = (if upper b \<in> tables l1 s then 0 else 1)"
  "needs_l3 l1 b s = (if lower b \<in> tables l1 s then 0 else 1)"
  by (auto simp: needs_l2_def needs_l3_def tables_def next_table_def Let_def split: option.splits if_splits)

text \<open>A block of pages first makes sure of a table of 2 MB blocks.\<close>

lemma top_table:
  assumes "wf l1 s" and "block_ok b" and "is_l3 b" and "needs_l2 l1 b s \<le> empty_l2_pagetable_num s"
  shows "\<exists>t. mmu_map_block_as_l2_pages l1 b s = (Inr (), t) \<and> wf l1 t \<and> translate (words t) l1 = translate (words s) l1 \<and>
    tables l1 t = insert (upper b) (tables l1 s) \<and> empty_l2_pagetable_num t = empty_l2_pagetable_num s - needs_l2 l1 b s \<and>
    empty_l3_pagetable_num t = empty_l3_pagetable_num s"
proof -
  let ?i = "l1_index (v_base b)" let ?e = "words s (slot l1 ?i)" and ?p = "empty_l2_pagetable_ptr s"
  note w = wfD [OF assms(1)]
  show ?thesis
  proof (cases "points_to_table ?e")
    case True
    then have "upper b \<in> tables l1 s" by (simp add: tables_def next_table_def domIff)
    then show ?thesis
      using True assms(1,3) by (auto simp: mmu_map_block_as_l2_pages_def ret_app insert_absorb needs_l2_def)
  next
    case False
    have n: "0 < empty_l2_pagetable_num s" using assms(4) False by (simp add: needs_l2_def word_gt_0 word_le_nat_alt) auto
    note p = pool_take [OF w(2) n]
    have sp: "splittable (words s) l1 Root l1 ?i ?p (children Root ?i ?e)"
      using w(5) p(3) by (intro splittable_children [OF w(1) _ _ _ False p(1,2)]) auto
    let ?t = "s\<lparr>words := split_table l1 ?i ?p (children Root ?i ?e) (words s),
      empty_l2_pagetable_ptr := ?p + 0x1000, empty_l2_pagetable_num := empty_l2_pagetable_num s - 1\<rparr>"
    have "mmu_map_block_as_l2_pages l1 b s = (Inr (), ?t)"
    proof -
      let ?m = "(words s)(slot l1 ?i := ?p OR MMU_PAGETABLE_TABLE_DESCRIPTOR)"
      have "fill ?p (l2_values b False (?e AND PT_ATTRIBUTE_BITS) ?p ?m) ?m = split_table l1 ?i ?p (children Root ?i ?e) (words s)"
        unfolding split_table_def using assms(3)
        by (intro fill_cong [OF p(1)]) (simp add: l2_values_def children_def Let_def)
      moreover have "memory_mapping b \<noteq> MMU_L2_NS_SECTION_MAPPING" using assms(2) by (auto simp: block_ok_def)
      ultimately show ?thesis
        using False n l2_loop [OF assms(2) p(1)]
        by (simp add: mmu_map_block_as_l2_pages_def thn_app ret_app address_id [OF p(1,2)])
    qed
    moreover have "wf l1 ?t" by (rule wf_split2 [OF assms(1) sp n])
    moreover have "translate (words ?t) l1 = translate (words s) l1" using translate_split [OF sp] by simp
    moreover have "tables l1 ?t = insert (upper b) (tables l1 s)" by (simp add: tables_def base_split [OF sp] del: base.simps)
    ultimately show ?thesis using False by (intro exI [of _ ?t]) (simp add: needs_l2_def)
  qed
qed

definition mapped :: "u64 \<Rightarrow> mem_block \<Rightarrow> page_tables \<Rightarrow> page_tables \<Rightarrow> bool" where
  "mapped l1 b s t \<longleftrightarrow> wf l1 t \<and>
     (\<forall>va. translate (words t) l1 va = (if in_block b va then Some (va, bits b) else translate (words s) l1 va))"

lemma map_l3_correct:
  assumes "wf l1 s" and "block_ok b" and "memory_mapping b = MMU_L3_SECTION_MAPPING" and "one_table b"
    and "needs_l2 l1 b s \<le> empty_l2_pagetable_num s" and "needs_l3 l1 b s \<le> empty_l3_pagetable_num s"
  shows "\<exists>t. mmu_map_block_as_l3_pages l1 b s = (Inr (), t) \<and> mapped l1 b s t \<and>
    tables l1 t = insert (lower b) (insert (upper b) (tables l1 s)) \<and>
    empty_l2_pagetable_num t = empty_l2_pagetable_num s - needs_l2 l1 b s \<and>
    empty_l3_pagetable_num t = empty_l3_pagetable_num s - needs_l3 l1 b s"
proof -
  let ?i = "l1_index (v_base b)" and ?j = "l2_index (v_base b)"
  have l3: "is_l3 b" using assms(3) by (simp add: is_l3_def)
  obtain u where u: "mmu_map_block_as_l2_pages l1 b s = (Inr (), u)" "wf l1 u" "translate (words u) l1 = translate (words s) l1"
    "tables l1 u = insert (upper b) (tables l1 s)" "empty_l2_pagetable_num u = empty_l2_pagetable_num s - needs_l2 l1 b s"
    "empty_l3_pagetable_num u = empty_l3_pagetable_num s"
    using top_table [OF assms(1,2) l3 assms(5)] by blast
  note w = wfD [OF u(2)]
  have v: "unat (v_base b) < 2 ^ 39" by (rule block_less [OF assms(2)])
  have "upper b \<in> tables l1 u" by (simp add: u(4))
  then obtain t2 where t2: "base (words u) l1 (upper b) = Some t2" by (auto simp: tables_def simp del: base.simps)
  then have t2_eq: "words u (slot l1 ?i) AND PT_ADDRESS_BITS = t2" by (simp add: next_table_def split: if_splits)
  let ?e = "words u (slot t2 ?j)" and ?p = "empty_l3_pagetable_ptr u"
  let ?g = "block_fill b (lower b) (l3_index (v_base b)) (l3_limit b)"
  note in_block = in_block_L3 [OF assms(2-4) _ v]
  have range: "in_block b va \<longleftrightarrow> lower b \<in> {Root, Table (l1_index va), Pages (l1_index va) (l2_index va)} \<and>
      l3_index (v_base b) \<le> idx (lower b) va \<and> idx (lower b) va < l3_limit b" if "unat va < 2 ^ 39" for va
    using in_block(1) [OF that] by auto
  have needs: "needs_l3 l1 b s = (if points_to_table ?e then 0 else 1)"
  proof -
    have "lower b \<in> tables l1 s \<longleftrightarrow> lower b \<in> tables l1 u" using u(4) by auto
    then show ?thesis using t2 by (simp add: needs_tables tables_def next_table_def domIff split: if_splits)
  qed
  have run: "mmu_map_block_as_l3_pages l1 b s = (if \<not> points_to_table ?e then
      thn (bl_verify (0 < empty_l3_pagetable_num u) (bl_err BL_ERR_NULL_PTR_PASSED BL_ERROR_GROUP_BOOT))
        (map_l3_entries ?p b False (?e AND PT_ATTRIBUTE_BITS))
        (if 0 < empty_l3_pagetable_num u then u\<lparr>words := (words u)(slot t2 ?j := (?p AND PT_ADDRESS_BITS) OR MMU_PAGETABLE_TABLE_DESCRIPTOR),
           empty_l3_pagetable_ptr := ?p + 0x1000, empty_l3_pagetable_num := empty_l3_pagetable_num u - 1\<rparr> else u)
      else map_l3_entries (?e AND PT_ADDRESS_BITS) b True 0 u)"
    using assms(3) by (simp add: mmu_map_block_as_l3_pages_def thn_app u(1) t2_eq bl_verify_def ret_app fatal_app)
  show ?thesis
  proof (cases "points_to_table ?e")
    case True
    have t3: "base (words u) l1 (lower b) = Some (?e AND PT_ADDRESS_BITS)" using True t2 by (simp add: next_table_def)
    note f = translate_block [OF w(1) t3 assms(2) _ range, simplified]
    let ?t = "u\<lparr>words := fill (?e AND PT_ADDRESS_BITS) ?g (words u)\<rparr>"
    have "mmu_map_block_as_l3_pages l1 b s = (Inr (), ?t)"
    proof -
      have "fill (?e AND PT_ADDRESS_BITS) (l3_values b True 0) (words u) = fill (?e AND PT_ADDRESS_BITS) ?g (words u)"
        by (rule fill_cong) (simp_all add: l3_values_def block_fill_def block_entry_def Let_def)
      then show ?thesis using run True l3_loop [OF assms(2) aligned_address] by simp
    qed
    moreover have "mapped l1 b s ?t"
      using wf_fill [OF u(2) t3 f(1)] f(2) u(3) by (simp add: mapped_def)
    moreover have "tables l1 ?t = tables l1 u" by (simp add: tables_def base_fill [OF w(1) t3 f(1)])
    moreover have "lower b \<in> tables l1 u" using t3 by (auto simp: tables_def)
    ultimately show ?thesis
      using u(4-6) needs True by (intro exI [of _ ?t]) (simp add: insert_absorb)
  next
    case False
    have n: "0 < empty_l3_pagetable_num u" using assms(6) False needs u(6) by (simp add: word_gt_0 word_le_nat_alt) auto
    note p = pool_take [OF w(3) n]
    have sp: "splittable (words u) l1 (upper b) t2 ?j ?p (children (upper b) ?j ?e)"
      using w(6) p(3) by (intro splittable_children [OF w(1) t2 _ _ False p(1,2)]) auto
    let ?m = "split_table t2 ?j ?p (children (upper b) ?j ?e) (words u)"
    let ?u = "u\<lparr>words := ?m, empty_l3_pagetable_ptr := ?p + 0x1000, empty_l3_pagetable_num := empty_l3_pagetable_num u - 1\<rparr>"
    have t3: "base (words ?u) l1 (lower b) = Some ?p" by (simp add: base_split [OF sp] del: base.simps)
    have wf_u: "wf l1 ?u" by (rule wf_split3 [OF u(2) sp n])
    note f = translate_block [OF wfD(1) [OF wf_u] t3 assms(2) _ range, simplified]
    let ?t = "?u\<lparr>words := fill ?p ?g ?m\<rparr>"
    have "mmu_map_block_as_l3_pages l1 b s = (Inr (), ?t)"
    proof -
      let ?m1 = "(words u)(slot t2 ?j := ?p OR MMU_PAGETABLE_TABLE_DESCRIPTOR)"
      have "fill ?p (l3_values b False (?e AND PT_ATTRIBUTE_BITS)) ?m1 = fill ?p ?g ?m"
        unfolding split_table_def fill_fill [OF p(1)]
        by (rule fill_cong [OF p(1)]) (simp add: l3_values_def block_fill_def block_entry_def children_def Let_def)
      then show ?thesis
        using run False n l3_loop [OF assms(2) p(1)] by (simp add: address_id [OF p(1,2)])
    qed
    moreover have "mapped l1 b s ?t"
      using wf_fill [OF wf_u t3] f u(3) translate_split [OF sp] by (simp add: mapped_def)
    moreover have "tables l1 ?t = insert (lower b) (tables l1 u)"
      using base_fill [OF wfD(1) [OF wf_u] t3] f(1) by (simp add: tables_def base_split [OF sp] del: base.simps)
    ultimately show ?thesis
      using u(4-6) needs False by (intro exI [of _ ?t]) simp
  qed
qed

lemma map_l1_correct:
  assumes "wf l1 s" and "block_ok b" and "memory_mapping b = MMU_L1_SECTION_MAPPING"
    and "\<And>i. l1_index (v_base b) \<le> i \<Longrightarrow> i < l1_limit b \<Longrightarrow> Table i \<notin> tables l1 s"
  shows "\<exists>t. mmu_map_block_as_l1_sections l1 b s = (Inr (), t) \<and> mapped l1 b s t \<and> tables l1 t = tables l1 s \<and>
    empty_l2_pagetable_num t = empty_l2_pagetable_num s \<and> empty_l3_pagetable_num t = empty_l3_pagetable_num s"
proof -
  note w = wfD [OF assms(1)]
  let ?g = "block_fill b Root (l1_index (v_base b)) (l1_limit b)"
  let ?t = "s\<lparr>words := fill l1 ?g (words s)\<rparr>"
  have al: "aligned l1" by (rule treeD(1) [OF w(1)])
  have free: "\<not> points_to_table (words s (slot l1 i))" if "inner Root" "l1_index (v_base b) \<le> i" "i < l1_limit b" "i < 512" for i
    using assms(4) [OF that(2,3)] that(4) by (simp add: tables_def next_table_def domIff split: if_splits)
  have lim: "l1_limit b \<le> 512"
  proof -
    have "unat (v_base b) + unat (size_in_bytes b) \<le> 2 ^ 39" "2 ^ 30 dvd unat (size_in_bytes b)" "2 ^ 30 dvd unat (v_base b)"
      using assms(2,3) by (simp_all add: block_ok_def)
    then show ?thesis
      using block_less [OF assms(2)] limits(1) [OF assms(2,3)] by (auto simp: l1_index_div elim!: dvdE)
  qed
  have range: "in_block b va \<longleftrightarrow> Root \<in> {Root, Table (l1_index va), Pages (l1_index va) (l2_index va)} \<and>
      l1_index (v_base b) \<le> idx Root va \<and> idx Root va < l1_limit b" if "unat va < 2 ^ 39" for va
    using in_block_L1 [OF assms(2,3) that block_less [OF assms(2)]] by simp
  have r: "base (words s) l1 Root = Some l1" by simp
  have f: "settable (words s) l1 Root ?g"
    "translate (fill l1 ?g (words s)) l1 va = (if in_block b va then Some (va, bits b) else translate (words s) l1 va)" for va
    subgoal by (rule translate_block(1) [OF w(1) r assms(2) free range])
    subgoal by (rule translate_block(2) [OF w(1) r assms(2) free range])
    done
  have "mmu_map_block_as_l1_sections l1 b s = (Inr (), ?t)"
    using l1_loop(1) [OF assms(2,3) al] free lim by simp
  moreover have "mapped l1 b s ?t" using wf_fill [OF assms(1) r f(1)] f(2) by (simp add: mapped_def)
  moreover have "tables l1 ?t = tables l1 s" by (simp add: tables_def base_fill [OF w(1) r f(1)])
  ultimately show ?thesis by (intro exI [of _ ?t]) simp
qed

lemma map_l2_correct:
  assumes "wf l1 s" and "block_ok b" and "memory_mapping b = MMU_L2_SECTION_MAPPING" and "one_table b"
    and "needs_l2 l1 b s \<le> empty_l2_pagetable_num s"
    and "\<And>j. l2_index (v_base b) \<le> j \<Longrightarrow> j < l2_limit b \<Longrightarrow> Pages (l1_index (v_base b)) j \<notin> tables l1 s"
  shows "\<exists>t. mmu_map_block_as_l2_pages l1 b s = (Inr (), t) \<and> mapped l1 b s t \<and> tables l1 t = insert (upper b) (tables l1 s) \<and>
    empty_l2_pagetable_num t = empty_l2_pagetable_num s - needs_l2 l1 b s \<and> empty_l3_pagetable_num t = empty_l3_pagetable_num s"
proof -
  let ?i = "l1_index (v_base b)" let ?e = "words s (slot l1 ?i)" and ?p = "empty_l2_pagetable_ptr s"
  let ?g = "block_fill b (upper b) (l2_index (v_base b)) (l2_limit b)"
  note w = wfD [OF assms(1)]
  have l3: "\<not> is_l3 b" using assms(3) by (simp add: is_l3_def)
  note in_block = in_block_L2 [OF assms(2-4) _ block_less [OF assms(2)]]
  have range: "in_block b va \<longleftrightarrow> upper b \<in> {Root, Table (l1_index va), Pages (l1_index va) (l2_index va)} \<and>
      l2_index (v_base b) \<le> idx (upper b) va \<and> idx (upper b) va < l2_limit b" if "unat va < 2 ^ 39" for va
    using in_block(1) [OF that] by auto
  show ?thesis
  proof (cases "points_to_table ?e")
    case True
    let ?t2 = "?e AND PT_ADDRESS_BITS"
    have t2: "base (words s) l1 (upper b) = Some ?t2" using True by (simp add: next_table_def)
    have free: "\<not> points_to_table (words s (slot ?t2 j))" if "inner (upper b)" "l2_index (v_base b) \<le> j" "j < l2_limit b" "j < 512" for j
      using assms(6) [OF that(2,3)] that(4) t2 by (simp add: tables_def next_table_def domIff split: if_splits)
    have f: "settable (words s) ?t2 (upper b) ?g"
      "translate (fill ?t2 ?g (words s)) l1 va = (if in_block b va then Some (va, bits b) else translate (words s) l1 va)" for va
      subgoal by (rule translate_block(1) [OF w(1) t2 assms(2) free range])
    subgoal by (rule translate_block(2) [OF w(1) t2 assms(2) free range])
    done
    let ?t = "s\<lparr>words := fill ?t2 ?g (words s)\<rparr>"
    have "fill ?t2 (l2_values b True 0 ?t2 (words s)) (words s) = fill ?t2 ?g (words s)"
      using free l3 by (intro fill_cong) (simp_all add: l2_values_def block_fill_def block_entry_def Let_def)
    then have "mmu_map_block_as_l2_pages l1 b s = (Inr (), ?t)"
      using True l3 l2_loop [OF assms(2) aligned_address] by (simp add: mmu_map_block_as_l2_pages_def)
    moreover have "mapped l1 b s ?t" using wf_fill [OF assms(1) t2 f(1)] f(2) by (simp add: mapped_def)
    moreover have "tables l1 ?t = tables l1 s" by (simp add: tables_def base_fill [OF w(1) t2 f(1)])
    moreover have "upper b \<in> tables l1 s" using t2 by (auto simp: tables_def simp del: base.simps)
    ultimately show ?thesis using True by (intro exI [of _ ?t]) (simp add: insert_absorb needs_l2_def)
  next
    case False
    have n: "0 < empty_l2_pagetable_num s" using assms(5) False by (simp add: needs_l2_def word_gt_0 word_le_nat_alt) auto
    note p = pool_take [OF w(2) n]
    have sp: "splittable (words s) l1 Root l1 ?i ?p (children Root ?i ?e)"
      using w(5) p(3) by (intro splittable_children [OF w(1) _ _ _ False p(1,2)]) auto
    let ?m = "split_table l1 ?i ?p (children Root ?i ?e) (words s)"
    let ?u = "s\<lparr>words := ?m, empty_l2_pagetable_ptr := ?p + 0x1000, empty_l2_pagetable_num := empty_l2_pagetable_num s - 1\<rparr>"
    have wf_u: "wf l1 ?u" by (rule wf_split2 [OF assms(1) sp n])
    have t2: "base (words ?u) l1 (upper b) = Some ?p" by (simp add: base_split [OF sp] del: base.simps)
    have no_pages: "base (words ?u) l1 (Pages ?i j) = None" for j
      using False by (simp add: base_split [OF sp] next_table_def del: base.simps) (simp add: next_table_def)
    have free: "\<not> points_to_table (words ?u (slot ?p j))" if "inner (upper b)" "l2_index (v_base b) \<le> j" "j < l2_limit b" "j < 512" for j
      using no_pages [of j] t2 that(4) by (simp add: next_table_def split: if_splits)
    have f: "settable (words ?u) ?p (upper b) ?g"
      "translate (fill ?p ?g (words ?u)) l1 va = (if in_block b va then Some (va, bits b) else translate (words ?u) l1 va)" for va
      subgoal by (rule translate_block(1) [OF wfD(1) [OF wf_u] t2 assms(2) free range])
    subgoal by (rule translate_block(2) [OF wfD(1) [OF wf_u] t2 assms(2) free range])
    done
    let ?t = "?u\<lparr>words := fill ?p ?g ?m\<rparr>"
    have "mmu_map_block_as_l2_pages l1 b s = (Inr (), ?t)"
    proof -
      let ?m1 = "(words s)(slot l1 ?i := ?p OR MMU_PAGETABLE_TABLE_DESCRIPTOR)"
      have "\<not> points_to_table (?m1 (slot ?p j))" if "j < 512" for j
      proof -
        have "?p \<noteq> l1" using w(5) [of Root l1] p(3) by auto
        then have "slot ?p j \<noteq> slot l1 ?i" using slot_eq_iff [OF p(1) treeD(1) [OF w(1)] that] by simp
        then show ?thesis using w(7) [OF p(3) that] by simp
      qed
      then have "fill ?p (l2_values b False (?e AND PT_ATTRIBUTE_BITS) ?p ?m1) ?m1 = fill ?p ?g ?m"
        unfolding split_table_def fill_fill [OF p(1)] using l3
        by (intro fill_cong [OF p(1)]) (simp add: l2_values_def block_fill_def block_entry_def children_def Let_def)
      then show ?thesis
        using False n l2_loop [OF assms(2) p(1)] assms(3)
        by (simp add: mmu_map_block_as_l2_pages_def thn_app ret_app address_id [OF p(1,2)])
    qed
    moreover have "mapped l1 b s ?t"
      using wf_fill [OF wf_u t2] f translate_split [OF sp] by (simp add: mapped_def)
    moreover have "tables l1 ?t = insert (upper b) (tables l1 s)"
      using base_fill [OF wfD(1) [OF wf_u] t2] f(1) by (simp add: tables_def base_split [OF sp] del: base.simps)
    ultimately show ?thesis using False by (intro exI [of _ ?t]) (simp add: needs_l2_def)
  qed
qed

subsection \<open>Blocks of pages in two parts\<close>

text \<open>A block of pages is only mapped up to the end of its table.\<close>

definition clip :: "mem_block \<Rightarrow> mem_block" where
  "clip b = b\<lparr>size_in_bytes := of_nat (min (unat (size_in_bytes b)) (2 ^ 21 - unat (v_base b) mod 2 ^ 21))\<rparr>"

lemma clip_ok:
  assumes "block_ok b" and "memory_mapping b = MMU_L3_SECTION_MAPPING"
  shows "block_ok (clip b)" and "one_table (clip b)" and "unat (size_in_bytes (clip b)) = min (unat (size_in_bytes b)) (2 ^ 21 - unat (v_base b) mod 2 ^ 21)"
proof -
  let ?n = "min (unat (size_in_bytes b)) (2 ^ 21 - unat (v_base b) mod 2 ^ 21)"
  have b: "2 ^ 12 dvd unat (v_base b)" "2 ^ 12 dvd unat (size_in_bytes b)" "0 < unat (size_in_bytes b)"
    "unat (v_base b) + unat (size_in_bytes b) \<le> 2 ^ 39"
    using assms by (simp_all add: block_ok_def unat_gt_0)
  have m: "unat (v_base b) mod 2 ^ 21 < 2 ^ 21" by simp
  show n: "unat (size_in_bytes (clip b)) = ?n" using b(4) by (simp add: clip_def)
  have "2 ^ 12 dvd unat (v_base b) mod 2 ^ 21" using b(1) by (simp add: dvd_mod)
  then have "2 ^ 12 dvd (2 ^ 21 - unat (v_base b) mod 2 ^ 21 :: nat)" by (intro dvd_diff_nat) simp_all
  then have d: "2 ^ 12 dvd ?n" using b(2) by (simp add: min_def)
  have "0 < ?n" using b(3) m by simp
  then have nz: "size_in_bytes (clip b) \<noteq> 0" using n by (simp add: unat_gt_0 [symmetric])
  have "unat (v_base b) + ?n \<le> 2 ^ 39" using b(4) by simp
  then have u: "unat (v_base (clip b)) + unat (size_in_bytes (clip b)) \<le> 2 ^ 39" unfolding n by (simp add: clip_def)
  have same: "memory_mapping (clip b) = memory_mapping b" "p_base (clip b) = p_base b" "v_base (clip b) = v_base b" "bits (clip b) = bits b"
    by (simp_all add: clip_def bits_def)
  show "block_ok (clip b)" using assms n d nz u unfolding block_ok_def same by simp
  show "one_table (clip b)" using m n assms(2) by (simp add: one_table_def) (simp add: clip_def)
qed

lemma clip_simps [simp]: "memory_mapping (clip b) = memory_mapping b" "p_base (clip b) = p_base b" "v_base (clip b) = v_base b"
  "bits (clip b) = bits b" "is_l3 (clip b) = is_l3 b" "block_bits (clip b) = block_bits b"
  by (simp_all add: clip_def bits_def is_l3_def block_bits_def fun_eq_iff)

lemma needs_clip [simp]: "needs_l2 l1 (clip b) = needs_l2 l1 b" "needs_l3 l1 (clip b) = needs_l3 l1 b"
  by (simp_all add: needs_l2_def needs_l3_def fun_eq_iff cong: if_cong)

lemma min_div: "min a b div c = min (a div c) (b div c)" for a b c :: nat
proof (cases "a \<le> b")
  case True
  then show ?thesis using div_le_mono [OF True, of c] by simp
next
  case False
  then have "b \<le> a" by simp
  then show ?thesis using div_le_mono [of b a c] by (simp add: min_absorb2)
qed

lemma add_min: "(lo :: nat) \<le> 512 \<Longrightarrow> lo + min a (512 - lo) = min (lo + a) 512"
  by (auto simp: min_def)

lemma clip_limit:
  assumes "block_ok b" and "memory_mapping b = MMU_L3_SECTION_MAPPING"
  shows "l3_limit (clip b) = min (l3_limit b) 512"
proof -
  let ?v = "unat (v_base b)" and ?n = "unat (size_in_bytes b)"
  have "2 ^ 12 dvd ?v" using assms by (simp add: block_ok_def)
  then have "2 ^ 12 dvd ?v mod 2 ^ 21" by (simp add: dvd_mod)
  moreover have "?v mod 2 ^ 21 div 2 ^ 12 = ?v div 2 ^ 12 mod 512" using mod_mult2_eq [of ?v "2 ^ 12" 512] by simp
  ultimately have r: "?v mod 2 ^ 21 = 2 ^ 12 * (?v div 2 ^ 12 mod 512)" by (metis dvd_mult_div_cancel)
  have "2 ^ 21 - ?v mod 2 ^ 21 = 2 ^ 12 * (512 - ?v div 2 ^ 12 mod 512)" unfolding r by (simp add: diff_mult_distrib2)
  then have d: "(2 ^ 21 - ?v mod 2 ^ 21) div 2 ^ 12 = 512 - l3_index (v_base b)" by (simp add: l3_index_div)
  have "min ?n (2 ^ 21 - ?v mod 2 ^ 21) div 2 ^ 12 = min (?n div 2 ^ 12) (512 - l3_index (v_base b))"
    unfolding d [symmetric] by (rule min_div)
  then show ?thesis
    using limits(3) [OF clip_ok(1) [OF assms]] limits(3) [OF assms] clip_ok(3) [OF assms] assms(2) add_min [OF less_imp_le [OF index_less(3) [of "v_base b"]]]
    by simp
qed

lemma map_l3_clip:
  assumes "block_ok b" and "memory_mapping b = MMU_L3_SECTION_MAPPING"
  shows "mmu_map_block_as_l3_pages l1 (clip b) = mmu_map_block_as_l3_pages l1 b"
proof -
  have l3: "is_l3 b" using assms(2) by (simp add: is_l3_def)
  have "map_l2_step l2 (clip b) ex att = map_l2_step l2 b ex att" for l2 ex att
    using l3 by (simp add: map_l2_step_def fun_eq_iff)
  then have "mmu_map_block_as_l2_pages l1 (clip b) = mmu_map_block_as_l2_pages l1 b"
    by (simp add: mmu_map_block_as_l2_pages_def map_l2_entries_def cong: if_cong)
  moreover have "map_l3_step l3 (clip b) ex att i = map_l3_step l3 b ex att i" if "i < 512" for l3 ex att i
    using that by (simp add: map_l3_step_def clip_limit [OF assms] cong: if_cong)
  then have "fold (map_l3_step l3 (clip b) ex att) [0..<512] = fold (map_l3_step l3 b ex att) [0..<512]" for l3 ex att
    by (intro ext fold_cong refl) simp_all
  then have "map_l3_entries l3 (clip b) = map_l3_entries l3 b" for l3
    by (simp add: map_l3_entries_def fun_eq_iff)
  ultimately show ?thesis by (simp add: mmu_map_block_as_l3_pages_def cong: if_cong)
qed

lemma in_clip:
  assumes "block_ok b" and "memory_mapping b = MMU_L3_SECTION_MAPPING"
  shows "in_block (clip b) va \<longleftrightarrow> in_block b va \<and> unat va div 2 ^ 21 = unat (v_base b) div 2 ^ 21"
proof -
  let ?v = "unat (v_base b)" and ?x = "unat va"
  have v: "?v = ?v div 2 ^ 21 * 2 ^ 21 + ?v mod 2 ^ 21" by simp
  have m: "?v mod 2 ^ 21 < 2 ^ 21" by simp
  have "?v + (2 ^ 21 - ?v mod 2 ^ 21) = ?v div 2 ^ 21 * 2 ^ 21 + 2 ^ 21" using v m by linarith
  then have "?x < ?v + (2 ^ 21 - ?v mod 2 ^ 21) \<longleftrightarrow> ?x < (?v div 2 ^ 21 + 1) * 2 ^ 21" by (simp only: add_mult_distrib mult_1)
  also have "\<dots> \<longleftrightarrow> ?x div 2 ^ 21 < ?v div 2 ^ 21 + 1" by (simp add: div_less_iff_less_mult)
  finally have "?x < ?v + (2 ^ 21 - ?v mod 2 ^ 21) \<longleftrightarrow> ?x div 2 ^ 21 \<le> ?v div 2 ^ 21" by (simp only: less_Suc_eq_le Suc_eq_plus1 [symmetric])
  moreover have "?v \<le> ?x \<Longrightarrow> ?v div 2 ^ 21 \<le> ?x div 2 ^ 21" by (rule div_le_mono)
  ultimately show ?thesis by (auto simp: in_block_def clip_ok(3) [OF assms])
qed

subsection \<open>Tables that a block takes\<close>

text \<open>The tables there are, and the numbers left in the two pools.\<close>

type_synonym budget = "node set \<times> u32 \<times> u32"

definition budget :: "u64 \<Rightarrow> page_tables \<Rightarrow> budget" where
  "budget l1 s = (tables l1 s, empty_l2_pagetable_num s, empty_l3_pagetable_num s)"

fun claim_upper :: "mem_block \<Rightarrow> budget \<Rightarrow> budget" where
  "claim_upper b (T, n2, n3) = (insert (upper b) T, n2 - (if upper b \<in> T then 0 else 1), n3)"

fun claim_lower :: "mem_block \<Rightarrow> budget \<Rightarrow> budget" where
  "claim_lower b (T, n2, n3) = (insert (lower b) (insert (upper b) T), n2 - (if upper b \<in> T then 0 else 1),
     n3 - (if lower b \<in> T then 0 else 1))"

fun affordable :: "mem_block \<Rightarrow> budget \<Rightarrow> bool" where
  "affordable b (T, n2, n3) \<longleftrightarrow> (if upper b \<in> T then 0 else 1) \<le> n2 \<and> (is_l3 b \<longrightarrow> (if lower b \<in> T then 0 else 1) \<le> n3)"

lemma map_l3_clipped:
  assumes "wf l1 s" and "block_ok b" and "memory_mapping b = MMU_L3_SECTION_MAPPING" and "affordable b (budget l1 s)"
  shows "\<exists>t. mmu_map_block_as_l3_pages l1 b s = (Inr (), t) \<and> mapped l1 (clip b) s t \<and> budget l1 t = claim_lower b (budget l1 s)"
proof -
  have "memory_mapping (clip b) = MMU_L3_SECTION_MAPPING" using assms(3) by simp
  moreover have "needs_l2 l1 (clip b) s \<le> empty_l2_pagetable_num s" "needs_l3 l1 (clip b) s \<le> empty_l3_pagetable_num s"
    using assms(3,4) by (simp_all add: needs_tables budget_def is_l3_def)
  ultimately obtain t where t: "mmu_map_block_as_l3_pages l1 (clip b) s = (Inr (), t)" "mapped l1 (clip b) s t"
    "tables l1 t = insert (lower b) (insert (upper b) (tables l1 s))"
    "empty_l2_pagetable_num t = empty_l2_pagetable_num s - needs_l2 l1 b s"
    "empty_l3_pagetable_num t = empty_l3_pagetable_num s - needs_l3 l1 b s"
    using map_l3_correct [OF assms(1) clip_ok(1) [OF assms(2,3)] _ clip_ok(2) [OF assms(2,3)]] by auto
  then show ?thesis
    by (intro exI [of _ t]) (simp add: map_l3_clip [OF assms(2,3)] budget_def needs_tables)
qed

end
