(* ===== verification/Page_Table_Lists.thy ===== *)
theory Page_Table_Lists
  imports Page_Table_Map
begin

text \<open>
  Lists of blocks: the last block of a list that covers an address gives its translation. A
  block of pages is mapped in at most two tables, so the part of it behind them is left out.
  The removal of entries and the mapping of a single block follow.
\<close>

subsection \<open>A block of pages in two tables\<close>

definition two_tables :: "mem_block \<Rightarrow> bool" where
  "two_tables b \<longleftrightarrow> 2 ^ 21 < unat (v_base b) mod 2 ^ 21 + unat (size_in_bytes b)"

definition first_part :: "mem_block \<Rightarrow> mem_block" where
  "first_part b = b\<lparr>size_in_bytes := of_nat (2 ^ 21 - unat (v_base b) mod 2 ^ 21)\<rparr>"

definition second_part :: "mem_block \<Rightarrow> mem_block" where
  "second_part b = (let n = of_nat (2 ^ 21 - unat (v_base b) mod 2 ^ 21) in
     b\<lparr>p_base := p_base b + n, v_base := v_base b + n, size_in_bytes := size_in_bytes b - n\<rparr>)"

definition covered :: "mem_block \<Rightarrow> u64 \<Rightarrow> bool" where
  "covered b va \<longleftrightarrow> in_block b va \<and> (is_l3 b \<longrightarrow> unat va div 2 ^ 21 \<le> unat (v_base b) div 2 ^ 21 + 1)"

lemma parts:
  assumes "block_ok b" and "memory_mapping b = MMU_L3_SECTION_MAPPING" and "two_tables b"
  shows "block_ok (first_part b)" and "block_ok (second_part b)"
    and "unat (size_in_bytes (first_part b)) = 2 ^ 21 - unat (v_base b) mod 2 ^ 21"
    and "unat (v_base (second_part b)) = (unat (v_base b) div 2 ^ 21 + 1) * 2 ^ 21"
    and "unat (v_base (second_part b)) + unat (size_in_bytes (second_part b)) = unat (v_base b) + unat (size_in_bytes b)"
proof -
  let ?v = "unat (v_base b)" and ?n = "unat (size_in_bytes b)"
  let ?k = "2 ^ 21 - ?v mod 2 ^ 21"
  have b: "2 ^ 12 dvd ?v" "2 ^ 12 dvd ?n" "?v + ?n \<le> 2 ^ 39" "?k < ?n" "0 < ?k" "p_base b = v_base b"
    using assms by (auto simp: block_ok_def two_tables_def)
  have k: "unat (of_nat ?k :: u64) = ?k" by (rule unat_of_nat64) simp
  have "2 ^ 12 dvd ?v mod 2 ^ 21" using b(1) by (simp add: dvd_mod)
  then have dk: "2 ^ 12 dvd ?k" by (intro dvd_diff_nat) simp_all
  show f: "unat (size_in_bytes (first_part b)) = ?k" using k by (simp add: first_part_def)
  have v2: "unat (v_base (second_part b)) = ?v + ?k" using b k by (simp add: second_part_def Let_def unat_word_ariths)
  have "?v = ?v div 2 ^ 21 * 2 ^ 21 + ?v mod 2 ^ 21" "?v mod 2 ^ 21 < 2 ^ 21" by simp_all
  then have "?v + ?k = ?v div 2 ^ 21 * 2 ^ 21 + 2 ^ 21" by linarith
  then show "unat (v_base (second_part b)) = (?v div 2 ^ 21 + 1) * 2 ^ 21" unfolding v2 by (simp only: add_mult_distrib mult_1)
  have "of_nat ?k \<le> size_in_bytes b" using b(4) k by (simp add: word_le_nat_alt)
  then have n2: "unat (size_in_bytes (second_part b)) = ?n - ?k" using k by (simp add: second_part_def Let_def unat_sub)
  then show sum: "unat (v_base (second_part b)) + unat (size_in_bytes (second_part b)) = ?v + ?n" using v2 b(4) by simp
  have same: "memory_mapping (first_part b) = memory_mapping b" "p_base (first_part b) = p_base b" "v_base (first_part b) = v_base b"
    "bits (first_part b) = bits b" "memory_mapping (second_part b) = memory_mapping b" "bits (second_part b) = bits b"
    "p_base (second_part b) = v_base (second_part b)"
    using b(6) by (simp_all add: first_part_def second_part_def bits_def Let_def)
  have "size_in_bytes (first_part b) \<noteq> 0" "size_in_bytes (second_part b) \<noteq> 0"
    using f n2 b(4,5) by (simp_all add: unat_gt_0 [symmetric])
  moreover have "2 ^ 12 dvd unat (v_base (second_part b))" unfolding v2 by (rule dvd_add [OF b(1) dk])
  moreover have "2 ^ 12 dvd unat (size_in_bytes (second_part b))" unfolding n2 by (rule dvd_diff_nat [OF b(2) dk])
  moreover have s1: "?v + unat (size_in_bytes (first_part b)) \<le> 2 ^ 39" using b(3,4) f by linarith
  moreover have d1: "2 ^ 12 dvd unat (size_in_bytes (first_part b))" unfolding f by (rule dk)
  ultimately show "block_ok (first_part b)" "block_ok (second_part b)"
    using assms(1,2) sum s1 d1 unfolding block_ok_def same by simp_all
qed

lemma covered_parts:
  assumes "block_ok b" and "memory_mapping b = MMU_L3_SECTION_MAPPING" and "two_tables b"
  shows "covered b va \<longleftrightarrow> in_block (clip (first_part b)) va \<or> in_block (clip (second_part b)) va"
proof -
  let ?v = "unat (v_base b)" and ?x = "unat va" and ?q = "unat (v_base b) div 2 ^ 21"
  note p = parts [OF assms]
  have m: "memory_mapping (first_part b) = MMU_L3_SECTION_MAPPING" "memory_mapping (second_part b) = MMU_L3_SECTION_MAPPING" "is_l3 b"
    "v_base (first_part b) = v_base b"
    using assms(2) by (simp_all add: first_part_def second_part_def Let_def is_l3_def)
  have "?v = ?q * 2 ^ 21 + ?v mod 2 ^ 21" "?v mod 2 ^ 21 < 2 ^ 21" by simp_all
  then have "?v + (2 ^ 21 - ?v mod 2 ^ 21) = ?q * 2 ^ 21 + 2 ^ 21" by linarith
  then have e: "?v + (2 ^ 21 - ?v mod 2 ^ 21) = (?q + 1) * 2 ^ 21" by (simp only: add_mult_distrib mult_1)
  have lt: "?x < (?q + 1) * 2 ^ 21 \<longleftrightarrow> ?x div 2 ^ 21 \<le> ?q"
    by (simp only: div_less_iff_less_mult [symmetric] zero_less_power zero_less_numeral less_Suc_eq_le Suc_eq_plus1 [symmetric])
  have q2: "unat (v_base (second_part b)) div 2 ^ 21 = ?q + 1" using p(4) by simp
  have 1: "in_block (clip (first_part b)) va \<longleftrightarrow> ?v \<le> ?x \<and> ?x div 2 ^ 21 \<le> ?q"
    unfolding in_clip [OF p(1) m(1)] unfolding in_block_def unfolding p(3) m(4) unfolding e lt using div_le_mono [of ?v ?x "2 ^ 21"] by auto
  have 2: "in_block (clip (second_part b)) va \<longleftrightarrow> ?x < ?v + unat (size_in_bytes b) \<and> ?x div 2 ^ 21 = ?q + 1"
  proof -
    have "\<not> ?x < (?q + 1) * 2 ^ 21 \<longleftrightarrow> (?q + 1) * 2 ^ 21 \<le> ?x" by (simp only: not_less)
    then show ?thesis unfolding in_clip [OF p(2) m(2)] unfolding in_block_def unfolding p(5) q2 unfolding p(4) using lt by auto
  qed
  have "(?q + 1) * 2 ^ 21 \<le> ?v + unat (size_in_bytes b)" using p(4,5) by simp
  then have "?x div 2 ^ 21 \<le> ?q \<Longrightarrow> ?x < ?v + unat (size_in_bytes b)" using lt by linarith
  moreover have "?x div 2 ^ 21 = ?q + 1 \<Longrightarrow> ?v \<le> ?x" using div_le_mono [of ?x ?v "2 ^ 21"] by (cases "?v \<le> ?x") auto
  ultimately show ?thesis unfolding 1 2 unfolding covered_def in_block_def using m(3) by auto
qed

lemma covered_one:
  assumes "block_ok b" and "memory_mapping b = MMU_L3_SECTION_MAPPING" and "\<not> two_tables b"
  shows "covered b va \<longleftrightarrow> in_block (clip b) va"
proof -
  have "unat (size_in_bytes (clip b)) = unat (size_in_bytes b)"
    unfolding clip_ok(3) [OF assms(1,2)] using assms(3) unfolding two_tables_def by (intro min_absorb1) linarith
  then have "in_block (clip b) va \<longleftrightarrow> in_block b va" by (simp add: in_block_def)
  then show ?thesis using in_clip [OF assms(1,2), of va] by (auto simp: covered_def)
qed

lemma map_l3_split_eq:
  assumes "block_ok b" and "memory_mapping b = MMU_L3_SECTION_MAPPING" and "unat (v_base b) + unat (size_in_bytes b) \<le> 2 ^ 32 - 2 ^ 21"
  shows "map_l3_split l1 b = (if two_tables b
    then thn (mmu_map_block_as_l3_pages l1 (first_part b)) (mmu_map_block_as_l3_pages l1 (second_part b))
    else mmu_map_block_as_l3_pages l1 b)"
proof -
  let ?v = "unat (v_base b)" and ?n = "unat (size_in_bytes b)" and ?q = "unat (v_base b) div 2 ^ 21"
  have p: "p_base b = v_base b" and v: "?v < 2 ^ 32 - 2 ^ 21" using assms(1,3) by (simp_all add: block_ok_def unat_gt_0 [symmetric])
  have "?v div 2 ^ 21 * 2 ^ 21 \<le> ?v" by simp
  have "(?q + 1) * 2 ^ 21 \<le> 2 ^ 32 - 2 ^ 21"
  proof -
    have "?q < 2047" using v by simp
    then show ?thesis by simp
  qed
  then have e: "unat (l2_block_end b) = (?q + 1) * 2 ^ 21"
    using page_mask [of "v_base b"] v by (simp add: l2_block_end_def p unat_word_ariths unat_ucast_64_32)
  have a: "unat (ucast (p_base b + size_in_bytes b) :: u32) = ?v + ?n"
    using assms(3) by (simp add: p unat_ucast_64_32 unat_word_ariths)
  have eq: "?v = ?q * 2 ^ 21 + ?v mod 2 ^ 21" "?v mod 2 ^ 21 < 2 ^ 21" by simp_all
  have c: "ucast (p_base b + size_in_bytes b) > l2_block_end b \<longleftrightarrow> two_tables b"
    unfolding word_less_nat_alt e a two_tables_def add_mult_distrib mult_1 using eq by linarith
  have n: "ucast (l2_block_end b) - p_base b = of_nat (2 ^ 21 - ?v mod 2 ^ 21)"
  proof (rule of_nat_eqI)
    have "p_base b \<le> ucast (l2_block_end b)"
      unfolding word_le_nat_alt unat_ucast_32_64 e p add_mult_distrib mult_1 using eq by linarith
    then have "unat (ucast (l2_block_end b) - p_base b) = (?q + 1) * 2 ^ 21 - ?v" using e p by (simp add: unat_sub)
    then show "unat (ucast (l2_block_end b) - p_base b) = 2 ^ 21 - ?v mod 2 ^ 21" using eq unfolding add_mult_distrib mult_1 by linarith
  qed
  show ?thesis unfolding map_l3_split_def Let_def c n first_part_def second_part_def by (simp add: p)
qed

subsection \<open>One block of a list\<close>

fun claim :: "mem_block \<Rightarrow> budget \<Rightarrow> budget" where
  "claim b B = (if memory_mapping b = MMU_L1_SECTION_MAPPING then B
     else if memory_mapping b = MMU_L2_SECTION_MAPPING then claim_upper b B
     else if two_tables b then claim_lower (second_part b) (claim_lower b B) else claim_lower b B)"

text \<open>
  A block can be mapped when the entries it replaces are not tables and the pools have the
  tables it takes. The comparison of ends in 32 bits is right below the last 2 MB of them.
\<close>

definition mappable :: "mem_block \<Rightarrow> budget \<Rightarrow> bool" where
  "mappable b B \<longleftrightarrow> block_ok b \<and>
     (if memory_mapping b = MMU_L1_SECTION_MAPPING
      then list_all (\<lambda>i. Table i \<notin> fst B) [l1_index (v_base b)..<l1_limit b]
      else if memory_mapping b = MMU_L2_SECTION_MAPPING
      then one_table b \<and> affordable b B \<and> list_all (\<lambda>j. Pages (l1_index (v_base b)) j \<notin> fst B) [l2_index (v_base b)..<l2_limit b]
      else unat (v_base b) + unat (size_in_bytes b) \<le> 2 ^ 32 - 2 ^ 21 \<and> affordable b B \<and>
        (two_tables b \<longrightarrow> affordable (second_part b) (claim_lower b B)))"

definition overlay :: "(u64 \<Rightarrow> bool) \<Rightarrow> u64 \<Rightarrow> (u64 \<Rightarrow> (u64 \<times> u64) option) \<Rightarrow> u64 \<Rightarrow> (u64 \<times> u64) option" where
  "overlay P t f va = (if P va then Some (va, t) else f va)"

lemma mapped_overlay: "mapped l1 b s t \<longleftrightarrow> wf l1 t \<and> translate (words t) l1 = overlay (in_block b) (bits b) (translate (words s) l1)"
  by (auto simp: mapped_def overlay_def fun_eq_iff)

lemma block_aligned_ok: "block_ok b \<Longrightarrow> unat P = 2 ^ page_bits (memory_mapping b) \<Longrightarrow> block_aligned b P s = (Inr (), s)"
proof -
  assume b: "block_ok b" and P: "unat P = 2 ^ page_bits (memory_mapping b)"
  have "unat (x mod P) = unat x mod unat P" for x by (simp add: unat_mod_distrib)
  then have "unat (v_base b mod P) = 0" "unat (size_in_bytes b mod P) = 0" using b P by (simp_all add: block_ok_def)
  then have "v_base b mod P = 0" "size_in_bytes b mod P = 0" by (simp_all only: unat_eq_zero)
  then show "block_aligned b P s = (Inr (), s)" by (simp add: block_aligned_def ret_app)
qed

lemma map_two_parts:
  assumes "wf l1 s" and "block_ok b" and "memory_mapping b = MMU_L3_SECTION_MAPPING" and "two_tables b"
    and "affordable b (budget l1 s)" and "affordable (second_part b) (claim_lower b (budget l1 s))"
  shows "\<exists>t. thn (mmu_map_block_as_l3_pages l1 (first_part b)) (mmu_map_block_as_l3_pages l1 (second_part b)) s = (Inr (), t) \<and> wf l1 t \<and>
    translate (words t) l1 = overlay (covered b) (bits b) (translate (words s) l1) \<and>
    budget l1 t = claim_lower (second_part b) (claim_lower b (budget l1 s))"
proof -
  note p = parts [OF assms(2-4)]
  have same: "memory_mapping (first_part b) = MMU_L3_SECTION_MAPPING" "memory_mapping (second_part b) = MMU_L3_SECTION_MAPPING"
    "bits (first_part b) = bits b" "bits (second_part b) = bits b"
    using assms(3) by (simp_all add: first_part_def second_part_def bits_def Let_def)
  have first: "affordable (first_part b) B = affordable b B" "claim_lower (first_part b) B = claim_lower b B" for B
    by (cases B, simp add: first_part_def is_l3_def)+
  obtain u where u: "mmu_map_block_as_l3_pages l1 (first_part b) s = (Inr (), u)" "mapped l1 (clip (first_part b)) s u"
    "budget l1 u = claim_lower b (budget l1 s)"
    using map_l3_clipped [OF assms(1) p(1) same(1)] assms(5) by (auto simp: first)
  moreover obtain t where t: "mmu_map_block_as_l3_pages l1 (second_part b) u = (Inr (), t)" "mapped l1 (clip (second_part b)) u t"
    "budget l1 t = claim_lower (second_part b) (budget l1 u)"
    using map_l3_clipped [OF _ p(2) same(2), of l1 u] u assms(6) by (auto simp: mapped_def)
  ultimately show ?thesis
    by (intro exI [of _ t]) (auto simp: thn_Inr mapped_overlay same overlay_def covered_parts [OF assms(2-4)] fun_eq_iff)
qed

lemma map_entry:
  assumes "wf l1 s" and "mappable b (budget l1 s)"
  shows "\<exists>t. map_list_entry l1 b s = (Inr (), t) \<and> wf l1 t \<and>
    translate (words t) l1 = overlay (covered b) (bits b) (translate (words s) l1) \<and> budget l1 t = claim b (budget l1 s)"
proof -
  have ok: "block_ok b" using assms(2) by (simp add: mappable_def)
  then consider (L1) "memory_mapping b = MMU_L1_SECTION_MAPPING" | (L2) "memory_mapping b = MMU_L2_SECTION_MAPPING"
    | (L3) "memory_mapping b = MMU_L3_SECTION_MAPPING" by (auto simp: block_ok_def)
  then show ?thesis
  proof cases
    case L1
    then have "covered b = in_block b" by (simp add: covered_def is_l3_def fun_eq_iff)
    moreover obtain t where "mmu_map_block_as_l1_sections l1 b s = (Inr (), t)" "mapped l1 b s t" "budget l1 t = budget l1 s"
      using map_l1_correct [OF assms(1) ok L1] assms(2) L1 by (auto simp: mappable_def budget_def list_all_iff)
    ultimately show ?thesis
      using L1 block_aligned_ok [OF ok, of MMU_L1_SECTION_MAPPING_PAGE_SIZE s]
      by (intro exI [of _ t]) (simp add: map_list_entry_def thn_Inr mapped_overlay)
  next
    case L2
    then have "covered b = in_block b" by (simp add: covered_def is_l3_def fun_eq_iff)
    moreover obtain t where "mmu_map_block_as_l2_pages l1 b s = (Inr (), t)" "mapped l1 b s t" "budget l1 t = claim_upper b (budget l1 s)"
      using map_l2_correct [OF assms(1) ok L2] assms(2) L2
      by (auto simp: mappable_def budget_def list_all_iff needs_tables)
    ultimately show ?thesis
      using L2 block_aligned_ok [OF ok, of MMU_L2_SECTION_MAPPING_PAGE_SIZE s]
      by (intro exI [of _ t]) (simp add: map_list_entry_def thn_Inr mapped_overlay)
  next
    case L3
    have m: "affordable b (budget l1 s)" "unat (v_base b) + unat (size_in_bytes b) \<le> 2 ^ 32 - 2 ^ 21"
      "two_tables b \<longrightarrow> affordable (second_part b) (claim_lower b (budget l1 s))"
      using assms(2) L3 by (simp_all add: mappable_def)
    have "map_list_entry l1 b s = map_l3_split l1 b s"
      using L3 block_aligned_ok [OF ok, of MMU_L3_SECTION_MAPPING_PAGE_SIZE s] by (simp add: map_list_entry_def thn_Inr is_l3_def)
    note run = this [unfolded map_l3_split_eq [OF ok L3 m(2)]]
    show ?thesis
    proof (cases "two_tables b")
      case True
      then show ?thesis using map_two_parts [OF assms(1) ok L3 True m(1)] m(3) run L3 by simp
    next
      case False
      then have "covered b = in_block (clip b)" by (simp add: covered_one [OF ok L3] fun_eq_iff)
      then show ?thesis using map_l3_clipped [OF assms(1) ok L3 m(1)] run L3 False by (auto simp: mapped_overlay)
    qed
  qed
qed

subsection \<open>Lists of blocks\<close>

fun plan_ok :: "mem_block list \<Rightarrow> budget \<Rightarrow> bool" where
  "plan_ok [] B \<longleftrightarrow> True"
| "plan_ok (b # bs) B \<longleftrightarrow> v_base b \<noteq> MMU_LAST_ADDRESS \<and> mappable b B \<and> plan_ok bs (claim b B)"

fun overlays :: "mem_block list \<Rightarrow> (u64 \<Rightarrow> (u64 \<times> u64) option) \<Rightarrow> u64 \<Rightarrow> (u64 \<times> u64) option" where
  "overlays [] f = f"
| "overlays (b # bs) f = overlays bs (overlay (covered b) (bits b) f)"

lemma find_app: "find P (xs @ ys) = (case find P xs of None \<Rightarrow> find P ys | Some x \<Rightarrow> Some x)"
  by (induction xs) auto

lemma overlays_find:
  "overlays bs f va = (case find (\<lambda>b. covered b va) (rev bs) of Some b \<Rightarrow> Some (va, bits b) | None \<Rightarrow> f va)"
  by (induction bs arbitrary: f) (auto simp: overlay_def find_app split: option.split)

lemma map_list:
  assumes "wf l1 s" and "plan_ok bs (budget l1 s)" and "v_base e = MMU_LAST_ADDRESS"
  shows "\<exists>t. boot_mmu_page_table_map_mem_block_list l1 (bs @ e # rest) s = (Inr True, t) \<and> wf l1 t \<and>
    translate (words t) l1 = overlays bs (translate (words s) l1) \<and> budget l1 t = fold claim bs (budget l1 s)"
  using assms(1,2)
proof (induction bs arbitrary: s)
  case Nil
  then show ?case using assms(3) by (simp add: ret_app)
next
  case (Cons b bs)
  then obtain u where u: "map_list_entry l1 b s = (Inr (), u)" "wf l1 u"
    "translate (words u) l1 = overlay (covered b) (bits b) (translate (words s) l1)" "budget l1 u = claim b (budget l1 s)"
    using map_entry [of l1 s b] by auto
  then have "plan_ok bs (budget l1 u)" using Cons.prems by simp
  from Cons.IH [OF u(2) this] show ?case using u Cons.prems(2) by (auto simp: thn_Inr)
qed

subsection \<open>Removing entries\<close>

lemma and1_entry: "entry_ok n k e \<Longrightarrow> e AND 1 = (if e = 0 then 0 else 1)"
proof -
  have "e AND 1 = (e AND 3) AND 1" by (simp add: and.assoc)
  then show "entry_ok n k e \<Longrightarrow> e AND 1 = (if e = 0 then 0 else 1)"
    by (cases n) (auto simp: entry_ok_def leaf_ok_def split: if_splits)
qed

lemma get_entry_addr:
  assumes "tree (words s) l1" and "l1 \<noteq> 0" and "base (words s) l1 (loc (words s) l1 va) = Some t"
  defines "a \<equiv> slot t (idx (loc (words s) l1 va) va)"
  shows "boot_mmu_get_page_table_entry_addr l1 va s = (Inr (if words s a = 0 then (False, 0) else (True, a)), s)"
proof -
  let ?m = "words s" and ?i = "l1_index va" and ?j = "l2_index va" and ?k = "l3_index va"
  let ?e1 = "?m (slot l1 ?i)" let ?t1 = "?e1 AND PT_ADDRESS_BITS" let ?e2 = "?m (slot ?t1 ?j)" let ?t2 = "?e2 AND PT_ADDRESS_BITS"
  let ?e3 = "?m (slot ?t2 ?k)"
  have v1: "?e1 AND 1 = (if ?e1 = 0 then 0 else 1)" using treeD(2) [OF assms(1), of Root l1 ?i] by (intro and1_entry) simp
  have n0: "\<not> points_to_table 0" by (simp add: points_to_table_def)
  show ?thesis
  proof (cases "points_to_table ?e1")
    case False
    then have "a = slot l1 ?i" using assms(3) by (simp add: loc_def next_table_def a_def)
    then show ?thesis using False v1 assms(2) by (simp add: boot_mmu_get_page_table_entry_addr_def thn_app ret_app Let_def)
  next
    case t1: True
    then have b1: "base ?m l1 (Table ?i) = Some ?t1" and e1: "?e1 \<noteq> 0" using n0 by (auto simp: next_table_def)
    have v2: "?e2 AND 1 = (if ?e2 = 0 then 0 else 1)" using treeD(2) [OF assms(1) b1, of ?j] by (intro and1_entry) simp
    show ?thesis
    proof (cases "points_to_table ?e2")
      case False
      then have "a = slot ?t1 ?j" using assms(3) b1 by (simp add: loc_def next_table_def a_def)
      then show ?thesis using False t1 e1 v1 v2 assms(2) by (simp add: boot_mmu_get_page_table_entry_addr_def thn_app ret_app Let_def)
    next
      case t2: True
      then have b2: "base ?m l1 (Pages ?i ?j) = Some ?t2" and e2: "?e2 \<noteq> 0" using b1 n0 by (auto simp: next_table_def)
      have v3: "?e3 AND 1 = (if ?e3 = 0 then 0 else 1)" using treeD(2) [OF assms(1) b2, of ?k] by (intro and1_entry) simp
      have "a = slot ?t2 ?k" using assms(3) b1 b2 by (simp add: loc_def next_table_def a_def)
      then show ?thesis using t1 t2 e1 e2 v1 v2 v3 assms(2)
        by (simp add: boot_mmu_get_page_table_entry_addr_def thn_app ret_app Let_def)
    qed
  qed
qed

lemma clear_fill:
  assumes "aligned t" and "lo + n \<le> 512"
  shows "fold (\<lambda>i m. m(slot (slot t lo) i := 0)) [0..<n] m = fill t (\<lambda>k. if lo \<le> k \<and> k < lo + n then Some 0 else None) m"
  using assms(2)
proof (induction n)
  case 0
  have "(\<lambda>k. if lo \<le> k \<and> k < lo + 0 then Some (0 :: u64) else None) = (\<lambda>_. None)" by (auto simp: fun_eq_iff)
  then show ?case by (simp only: fill_None) simp
next
  case (Suc n)
  let ?g = "\<lambda>n k. if lo \<le> k \<and> k < lo + n then Some (0 :: u64) else None"
  have "(?g n)(lo + n := Some 0) = ?g (Suc n)" by (auto simp: fun_eq_iff)
  then have "(fill t (?g n) m)(slot t (lo + n) := 0) = fill t (?g (Suc n)) m"
    using fill_upd [OF assms(1), of "lo + n" "?g n" m 0] Suc.prems by simp
  moreover have "slot (slot t lo) n = slot t (lo + n)" by (simp add: slot_def)
  moreover have "fold (\<lambda>i m. m(slot (slot t lo) i := 0)) [0..<n] m = fill t (?g n) m" using Suc by (intro Suc.IH) simp
  ultimately show ?case by (simp only: upt_Suc_append [OF le0] fold_append fold.simps o_apply id_apply)
qed

text \<open>A range of pages within one table is removed when its first and last page are mapped.\<close>

definition region :: "u64 \<Rightarrow> u64 \<Rightarrow> mem_block" where
  "region a n = \<lparr>p_base = a, v_base = a, size_in_bytes = n, memory_mapping = MMU_L3_SECTION_MAPPING,
     access = 0, cachetype = ACCESS_FLAG, executable = 0\<rparr>"

definition removable :: "u64 \<Rightarrow> u64 \<Rightarrow> u64 \<Rightarrow> page_tables \<Rightarrow> bool" where
  "removable l1 a n s \<longleftrightarrow> block_ok (region a n) \<and> one_table (region a n) \<and> 4096 < unat n \<and> lower (region a n) \<in> tables l1 s \<and>
     translate (words s) l1 a \<noteq> None \<and> translate (words s) l1 (a + n - 1) \<noteq> None"

lemma find_entry_and_unmap:
  assumes "wf l1 s" and "removable l1 a n s"
  shows "\<exists>t. boot_mmu_find_entry_and_unmap l1 a n s = (Inr True, t) \<and> wf l1 t \<and> budget l1 t = budget l1 s \<and>
    translate (words t) l1 = (\<lambda>va. if in_block (region a n) va then None else translate (words s) l1 va) \<and>
    (\<forall>va. in_block (region a n) va \<longrightarrow> walk (words t) l1 va = None)"
proof -
  let ?b = "region a n" and ?m = "words s" and ?z = "a + n - 1"
  let ?N = "Pages (l1_index a) (l2_index a)" and ?lo = "l3_index a" and ?q = "unat n div 4096"
  note w = wfD [OF assms(1)]
  have b: "block_ok ?b" "one_table ?b" "4096 < unat n" "lower ?b \<in> tables l1 s" "translate ?m l1 a \<noteq> None" "translate ?m l1 ?z \<noteq> None"
    using assms(2) by (simp_all add: removable_def)
  have r: "memory_mapping ?b = MMU_L3_SECTION_MAPPING" "v_base ?b = a" "size_in_bytes ?b = n" by (simp_all add: region_def)
  have a: "4096 dvd unat a" "4096 dvd unat n" "unat a + unat n \<le> 2 ^ 39" "unat a < 2 ^ 39"
    using b(1) block_less [OF b(1)] by (simp_all add: block_ok_def r)
  obtain t where t: "base ?m l1 ?N = Some t" using b(4) by (auto simp: tables_def r simp del: base.simps)
  have z: "unat ?z = unat a + unat n - 1"
    using a(3) b(3) by (simp add: unat_word_ariths unat_sub_if')
  have in_region: "in_block ?b va \<longleftrightarrow> l1_index va = l1_index a \<and> l2_index va = l2_index a \<and> ?lo \<le> l3_index va \<and> l3_index va < ?lo + ?q"
    if "unat va < 2 ^ 39" for va
    using in_block_L3(1) [OF b(1) r(1) b(2) that block_less [OF b(1)]] limits(3) [OF b(1) r(1)] by (simp add: r)
  have lim: "?lo + ?q \<le> 512" using in_block_L3(2) [OF b(1) r(1) b(2) a(4) block_less [OF b(1)]] limits(3) [OF b(1) r(1)] by (simp add: r)
  have z39: "unat ?z < 2 ^ 39" using z a b(3) by simp
  have zi: "l1_index ?z = l1_index a" "l2_index ?z = l2_index a" "?lo \<le> l3_index ?z" "l3_index ?z < ?lo + ?q"
    using in_region [OF z39] z b(3) by (auto simp: in_block_def r)
  have hi: "l3_index ?z = ?lo + ?q - 1"
  proof -
    obtain A Q where A: "unat a = 4096 * A" "unat n = 4096 * Q" using a(1,2) by blast
    have digits_A: "x mod 512 = A mod 512 + Q - 1" if "x = A + Q - 1" "x = A div 512 * 512 + x mod 512" for x
      using that div_mult_mod_eq [of A 512] A(2) b(3) by linarith
    have "unat ?z = 4096 * (A + Q - 1) + 4095" using z A b(3) by simp
    then have "unat ?z div 4096 = A + Q - 1" by simp
    moreover have "unat ?z div 2 ^ 21 = unat a div 2 ^ 21" using indices_eq2 [OF z39 a(4)] zi by simp
    ultimately show ?thesis
      using digits(2) [of "unat ?z"] digits_A A b(3) by (simp add: l3_index_div)
  qed
  have loc: "loc ?m l1 a = ?N" "loc ?m l1 ?z = ?N"
    using loc_eqI [OF t, of a] loc_eqI [OF t, of ?z] zi by simp_all
  have nz: "?m (slot t ?lo) \<noteq> 0" "?m (slot t (l3_index ?z)) \<noteq> 0"
    using b(5,6) translate_tree [OF w(1) a(4), of t] translate_tree [OF w(1) z39, of t] t by (auto simp: loc)
  have leaf: "leaf_ok ?N k (?m (slot t k))" if "k < 512" for k
    using treeD(2) [OF w(1) t that] by (simp add: entry_ok_def)
  let ?g = "\<lambda>k. if ?lo \<le> k \<and> k < ?lo + ?q then Some 0 else None"
  let ?t = "s\<lparr>words := fill t ?g ?m\<rparr>"
  have run: "boot_mmu_find_entry_and_unmap l1 a n s = (Inr True, ?t)"
  proof -
    have q: "2 \<le> ?q" using b(3) a(2) by (auto elim!: dvdE)
    have al: "aligned t" by (rule base_aligned [OF w(1) t])
    have l1: "l1 \<noteq> 0" and t0: "t \<noteq> 0" using w(8) [of Root l1] w(8) [OF t] by auto
    have u: "unat (slot t ?lo) = unat t + 8 * ?lo" "unat (slot t (l3_index ?z)) = unat t + 8 * l3_index ?z"
      by (simp_all add: unat_slot [OF al])
    then have le: "slot t ?lo < slot t (l3_index ?z)" using hi q by (simp add: word_less_nat_alt)
    then have d: "unat (slot t (l3_index ?z) - slot t ?lo) = 8 * (?q - 1)"
      using unat_sub [OF less_imp_le [OF le]] u hi q by linarith
    have pos: "0 < slot t (l3_index ?z) - slot t ?lo" "slot t ?lo \<noteq> 0" "slot t (l3_index ?z) \<noteq> 0"
      using d q u t0 by (auto simp: word_less_nat_alt unat_gt_0 [symmetric])
    have same: "?m (slot t ?lo) AND 3 = ?m (slot t (l3_index ?z)) AND 3"
      using leaf [of ?lo] leaf [of "l3_index ?z"] nz by (simp add: leaf_ok_def)
    have "unat (slot t (l3_index ?z) - slot t ?lo) div 8 + 1 = ?q" using d q by simp
    then have clear: "clear_entries (slot t ?lo) (slot t (l3_index ?z)) s = (Inr (), ?t)"
      using less_not_sym [OF le] clear_fill [OF al lim, of ?m] by (simp add: clear_entries_def)
    show ?thesis
      using get_entry_addr [OF w(1) l1, of a t] get_entry_addr [OF w(1) l1, of ?z t] t nz pos same
      by (simp add: boot_mmu_find_entry_and_unmap_def thn_app bnd_app ret_app l1 loc clear)
  qed
  have set: "settable ?m t ?N ?g" by (auto simp: settable_def leaf_ok_def)
  have "wf l1 ?t" by (rule wf_fill [OF assms(1) t set])
  moreover have "budget l1 ?t = budget l1 s" by (simp add: budget_def tables_def base_fill [OF w(1) t set])
  moreover have gone: "loc ?m l1 va = ?N \<and> idx ?N va \<in> {?lo..<?lo + ?q}" if "in_block ?b va" for va
  proof -
    have va: "unat va < 2 ^ 39" using that a(3) by (simp add: in_block_def r)
    with that have i: "l1_index va = l1_index a" "l2_index va = l2_index a" "?lo \<le> l3_index va" "l3_index va < ?lo + ?q"
      using in_region by auto
    then have "loc ?m l1 va = ?N" by (intro loc_eqI [OF t]) simp_all
    then show ?thesis using i by simp
  qed
  have tr: "translate (fill t ?g ?m) l1 va = (if in_block ?b va then None else translate ?m l1 va)" for va
  proof (cases "in_block ?b va")
    case True
    then have "unat va < 2 ^ 39" using a(3) by (simp add: in_block_def r)
    then show ?thesis using translate_fill [OF w(1) t set, of va] gone [OF True] True by simp
  next
    case False
    have c: "\<not> (unat va < 2 ^ 39 \<and> loc ?m l1 va = ?N \<and> ?g (idx ?N va) \<noteq> None)"
      using False in_region [of va] loc_cases [of ?m l1 va] by (auto split: if_splits)
    show ?thesis by (simp only: translate_fill [OF w(1) t set] c False if_False)
  qed
  have wk: "walk (fill t ?g ?m) l1 va = None" if "in_block ?b va" for va
  proof -
    have bf: "base (fill t ?g ?m) l1 = base ?m l1" by (rule base_fill [OF w(1) t set])
    then have "loc (fill t ?g ?m) l1 va = loc ?m l1 va" by (simp only: loc_def)
    then have l: "loc (fill t ?g ?m) l1 va = ?N" using gone [OF that] by simp
    then have "base (fill t ?g ?m) l1 (loc (fill t ?g ?m) l1 va) = Some t" using t bf by simp
    from walk_tree(1) [OF tree_fill [OF w(1) t set] this] show ?thesis
      using gone [OF that] base_aligned [OF w(1) t] by (simp add: l fill_slot)
  qed
  ultimately show ?thesis using run tr wk by (intro exI [of _ ?t]) (simp add: fun_eq_iff)
qed

text \<open>A range whose first or last address has no entry is left alone.\<close>

definition vacant :: "u64 \<Rightarrow> u64 \<Rightarrow> u64 \<Rightarrow> page_tables \<Rightarrow> bool" where
  "vacant l1 a n s \<longleftrightarrow> walk (words s) l1 a = None \<or> walk (words s) l1 (a + n - 1) = None"

lemma get_entry_found:
  assumes "wf l1 s"
  shows "\<exists>e. boot_mmu_get_page_table_entry_addr l1 a s = (Inr (walk (words s) l1 a \<noteq> None, e), s)"
proof -
  obtain t where t: "base (words s) l1 (loc (words s) l1 a) = Some t" using base_loc by blast
  have "l1 \<noteq> 0" using wfD(8) [OF assms, of Root l1] by simp
  from get_entry_addr [OF wfD(1) [OF assms] this t] show ?thesis
    using walk_tree(1) [OF wfD(1) [OF assms] t] by auto
qed

lemma find_vacant:
  assumes "wf l1 s" and "vacant l1 a n s"
  shows "boot_mmu_find_entry_and_unmap l1 a n s = (Inr False, s)"
proof -
  have "l1 \<noteq> 0" using wfD(8) [OF assms(1), of Root l1] by simp
  moreover obtain e1 where "boot_mmu_get_page_table_entry_addr l1 a s = (Inr (walk (words s) l1 a \<noteq> None, e1), s)"
    using get_entry_found [OF assms(1)] by blast
  moreover obtain e2 where "boot_mmu_get_page_table_entry_addr l1 (a + n - 1) s = (Inr (walk (words s) l1 (a + n - 1) \<noteq> None, e2), s)"
    using get_entry_found [OF assms(1)] by blast
  ultimately show ?thesis
    using assms(2) by (auto simp: boot_mmu_find_entry_and_unmap_def thn_app bnd_app ret_app vacant_def)
qed

subsection \<open>A single block\<close>

text \<open>No block is in the internal memory by the comparison of the code.\<close>

lemma entry_invalid_enable_always:
  assumes "block_ok b"
  shows "entry_invalid_enable b"
proof -
  have "unat (v_base b + size_in_bytes b) = unat (v_base b) + unat (size_in_bytes b)" "0 < unat (size_in_bytes b)"
    using assms by (simp_all add: block_ok_def unat_word_ariths unat_gt_0)
  then have "\<not> v_base b + size_in_bytes b < 1" "\<not> v_base b + size_in_bytes b < 0" by (simp_all add: word_less_nat_alt)
  then show ?thesis by (auto simp: entry_invalid_enable_def SBL_IMEM_RANGES_TABLE_def)
qed

lemma ucast_add_32: "ucast (x + ucast (ucast y :: u32)) = (ucast (x + y) :: u32)" for x y :: u64
  by (simp add: word_unat_eq_iff unat_ucast_64_32 unat_ucast_32_64 unat_word_ariths mod_add_right_eq mod_mod_cancel)

lemma map_single_list:
  assumes "mappable b (budget l1 s)"
  shows "(if memory_mapping b = MMU_L1_SECTION_MAPPING \<or> memory_mapping b = MMU_L1_NS_SECTION_MAPPING then
        thn (mmu_map_block_as_l1_sections l1 b) (ret True)
      else if memory_mapping b = MMU_L2_SECTION_MAPPING \<or> memory_mapping b = MMU_L2_NS_SECTION_MAPPING then
        bnd (gets (\<lambda>s. needs_l2 l1 b s \<le> empty_l2_pagetable_num s)) (\<lambda>enough.
          thn (bl_verify enough (bl_err BL_ERR_MMU_PGTBL_MAPPING_FAIL BL_ERROR_GROUP_BOOT))
           (thn (mmu_map_block_as_l2_pages l1 b) (ret True)))
      else if is_l3 b then
        bnd (gets (\<lambda>s. needs_l2 l1 b s \<le> empty_l2_pagetable_num s \<and> needs_l3 l1 b s \<le> empty_l3_pagetable_num s)) (\<lambda>enough.
          thn (bl_verify enough (bl_err BL_ERR_MMU_PGTBL_MAPPING_FAIL BL_ERROR_GROUP_BOOT))
           (thn (map_single_split l1 b) (ret True)))
      else ret True) s = thn (map_list_entry l1 b) (ret True) s"
proof -
  have ok: "block_ok b" using assms by (simp add: mappable_def)
  then consider (L1) "memory_mapping b = MMU_L1_SECTION_MAPPING" | (L2) "memory_mapping b = MMU_L2_SECTION_MAPPING"
    | (L3) "memory_mapping b = MMU_L3_SECTION_MAPPING" by (auto simp: block_ok_def)
  then show ?thesis
  proof cases
    case L1
    then show ?thesis using block_aligned_ok [OF ok, of MMU_L1_SECTION_MAPPING_PAGE_SIZE s] by (simp add: map_list_entry_def thn_app)
  next
    case L2
    then show ?thesis using assms block_aligned_ok [OF ok, of MMU_L2_SECTION_MAPPING_PAGE_SIZE s]
      by (simp add: map_list_entry_def thn_app bnd_app mappable_def budget_def needs_tables ret_app)
  next
    case L3
    moreover have "map_single_split l1 b = map_l3_split l1 b" by (simp add: map_single_split_def map_l3_split_def ucast_add_32)
    ultimately show ?thesis using assms block_aligned_ok [OF ok, of MMU_L3_SECTION_MAPPING_PAGE_SIZE s]
      by (simp add: map_list_entry_def thn_app bnd_app mappable_def budget_def needs_tables is_l3_def ret_app)
  qed
qed

lemma map_single:
  assumes "wf l1 s" and "mappable b (budget l1 s)"
    and "vacant l1 (v_base b) (size_in_bytes b) s \<or> removable l1 (v_base b) (size_in_bytes b) s"
  shows "\<exists>t. boot_mmu_page_table_map_single_mem_block l1 b s = (Inr True, t) \<and> wf l1 t \<and>
    translate (words t) l1 = overlay (covered b) (bits b) (translate (words s) l1) \<and> budget l1 t = claim b (budget l1 s)"
proof -
  let ?R = "region (v_base b) (size_in_bytes b)"
  have ok: "block_ok b" using assms(2) by (simp add: mappable_def)
  obtain found u where u: "boot_mmu_find_entry_and_unmap l1 (v_base b) (size_in_bytes b) s = (Inr found, u)" "wf l1 u"
    "budget l1 u = budget l1 s" "overlay (covered b) (bits b) (translate (words u) l1) = overlay (covered b) (bits b) (translate (words s) l1)"
  proof (cases "vacant l1 (v_base b) (size_in_bytes b) s")
    case True
    then show thesis using find_vacant [OF assms(1) True] assms(1) that by blast
  next
    case False
    then have r: "removable l1 (v_base b) (size_in_bytes b) s" using assms(3) by simp
    then have "unat (v_base b) mod 2 ^ 21 + unat (size_in_bytes b) \<le> 2 ^ 21" by (simp add: removable_def one_table_def region_def)
    moreover have "unat (v_base b) = unat (v_base b) div 2 ^ 21 * 2 ^ 21 + unat (v_base b) mod 2 ^ 21" by simp
    ultimately have "unat (v_base b) + unat (size_in_bytes b) \<le> (unat (v_base b) div 2 ^ 21 + 1) * 2 ^ 21"
      unfolding add_mult_distrib mult_1 by linarith
    then have "covered b va" if "in_block ?R va" for va
      using that div_le_mono [of "unat va" "(unat (v_base b) div 2 ^ 21 + 1) * 2 ^ 21" "2 ^ 21"]
      by (auto simp: in_block_def region_def covered_def)
    then have same: "overlay (covered b) (bits b) (\<lambda>va. if in_block ?R va then None else f va) = overlay (covered b) (bits b) f" for f
      by (auto simp: overlay_def fun_eq_iff)
    obtain u where "boot_mmu_find_entry_and_unmap l1 (v_base b) (size_in_bytes b) s = (Inr True, u)" "wf l1 u" "budget l1 u = budget l1 s"
      "translate (words u) l1 = (\<lambda>va. if in_block ?R va then None else translate (words s) l1 va)"
      using find_entry_and_unmap [OF assms(1) r] by blast
    then show thesis by (intro that [of True u]) (simp_all add: same)
  qed
  have m: "mappable b (budget l1 u)" using assms(2) u(3) by simp
  have run: "boot_mmu_page_table_map_single_mem_block l1 b s = thn (map_list_entry l1 b) (ret True) u"
    using u(1) map_single_list [OF m] by (simp add: boot_mmu_page_table_map_single_mem_block_def entry_invalid_enable_always [OF ok] thn_app bnd_app ret_app)
  show ?thesis using map_entry [OF u(2) m] u(3,4) run by (auto simp: thn_app ret_app)
qed

subsection \<open>The tables at the start\<close>

text \<open>
  Without tables below it a page of zeros maps nothing. The pools are zeroed by the startup
  code, like every static variable.
\<close>

definition pools_ok :: "u64 \<Rightarrow> page_tables \<Rightarrow> bool" where
  "pools_ok l1 s \<longleftrightarrow> (let F2 = frames (empty_l2_pagetable_ptr s) (empty_l2_pagetable_num s);
       F3 = frames (empty_l3_pagetable_ptr s) (empty_l3_pagetable_num s) in
     aligned l1 \<and> l1 \<noteq> 0 \<and> pool (empty_l2_pagetable_ptr s) (empty_l2_pagetable_num s) \<and>
     pool (empty_l3_pagetable_ptr s) (empty_l3_pagetable_num s) \<and> F2 \<inter> F3 = {} \<and> l1 \<notin> F2 \<union> F3 \<and>
     (\<forall>t \<in> F2. \<forall>k < 512. words s (slot t k) = 0))"

lemma wf_zero:
  assumes "pools_ok l1 s" and "\<And>k. k < 512 \<Longrightarrow> words s (slot l1 k) = 0"
  shows "wf l1 s" and "translate (words s) l1 = (\<lambda>_. None)" and "tables l1 s = {Root}"
proof -
  have n0: "\<not> points_to_table 0" by (simp add: points_to_table_def)
  have b: "base (words s) l1 = [Root \<mapsto> l1]"
  proof
    fix n
    show "base (words s) l1 n = [Root \<mapsto> l1] n" using assms(2) n0 by (cases n) (simp_all add: next_table_def)
  qed
  have "entry_ok Root k (words s (slot l1 k))" if "k < 512" for k using assms(2) [OF that] n0 by (simp add: entry_ok_def leaf_ok_def)
  then have t: "tree (words s) l1" using assms(1) by (auto simp: tree_def b pools_ok_def Let_def split: if_splits)
  then show "wf l1 s" using assms(1) n0 by (auto simp: wf_def b pools_ok_def Let_def split: if_splits)
  show "tables l1 s = {Root}" by (auto simp: tables_def b split: if_splits)
  have "translate (words s) l1 va = None" for va
    using assms(2) [OF index_less(1), of va] by (simp add: translate_def walk_def)
  then show "translate (words s) l1 = (\<lambda>_. None)" by blast
qed

subsection \<open>Properties\<close>

lemma frames_image: "frames p n = (\<lambda>k. p + 0x1000 * of_nat k) ` {..<unat n}"
  by (auto simp: frames_def)

text \<open>Tables in the zeroed data of the loader, and two blocks for them.\<close>

definition zeroed_tables :: page_tables where
  "zeroed_tables = \<lparr>words = (\<lambda>_. 0), empty_l2_pagetable_ptr = 0x148D1000, empty_l3_pagetable_ptr = 0x148D3000,
     empty_l2_pagetable_num = MMU_NUM_L2_PT, empty_l3_pagetable_num = MMU_NUM_L3_PT\<rparr>"

abbreviation (input) "zeroed_l1 \<equiv> (0x148D0000 :: u64)"

definition section_block :: mem_block where
  "section_block = \<lparr>p_base = 0, v_base = 0, size_in_bytes = 0x40000000, memory_mapping = MMU_L1_SECTION_MAPPING,
     access = 0, cachetype = 0x700, executable = 0x60000000000000\<rparr>"

definition page_block :: mem_block where
  "page_block = \<lparr>p_base = 0x148FE000, v_base = 0x148FE000, size_in_bytes = 0x5000, memory_mapping = MMU_L3_SECTION_MAPPING,
     access = 0x80, cachetype = 0x418, executable = 0\<rparr>"

lemma zeroed_pools: "pools_ok zeroed_l1 zeroed_tables"
  by (simp add: pools_ok_def frames_image zeroed_tables_def pool_def aligned_def Let_def lessThan_nat_numeral lessThan_Suc)

lemma zeroed_wf: "wf zeroed_l1 zeroed_tables" "translate (words zeroed_tables) zeroed_l1 = (\<lambda>_. None)"
  "budget zeroed_l1 zeroed_tables = ({Root}, 2, 6)"
  using wf_zero [OF zeroed_pools] by (simp_all add: budget_def) (simp_all add: zeroed_tables_def)

lemma sample_plan: "plan_ok [section_block, page_block] ({Root}, 2, 6)"
  by (simp add: section_block_def page_block_def mappable_def block_ok_def bits_def attr_bits_def two_tables_def is_l3_def
      second_part_def l1_index_div l2_index_div l1_limit_def)



text \<open>
  (C15) The search for the entry of an address agrees with the walk of the processor: it finds
  the address of the descriptor the walk ends at, and nothing exactly where the walk faults.
\<close>

theorem get_page_table_entry_addr_walk:
  assumes "wf l1 s"
  shows "case walk (words s) l1 va of
      None \<Rightarrow> boot_mmu_get_page_table_entry_addr l1 va s = (Inr (False, 0), s)
    | Some (e, n) \<Rightarrow> \<exists>a. boot_mmu_get_page_table_entry_addr l1 va s = (Inr (True, a), s) \<and> words s a = e"
proof -
  obtain t where t: "base (words s) l1 (loc (words s) l1 va) = Some t" using base_loc by blast
  have "l1 \<noteq> 0" using wfD(8) [OF assms, of Root l1] by simp
  from get_entry_addr [OF wfD(1) [OF assms] this t] show ?thesis
    using walk_tree(1) [OF wfD(1) [OF assms] t] by (simp split: if_splits)
qed

theorem get_page_table_entry_addr_walk_witness:
  "boot_mmu_get_page_table_entry_addr zeroed_l1 0x148FF123 zeroed_tables = (Inr (False, 0), zeroed_tables)"
proof -
  have "walk (words zeroed_tables) zeroed_l1 0x148FF123 = None" by (simp add: walk_def zeroed_tables_def Let_def)
  then show ?thesis using get_page_table_entry_addr_walk [OF zeroed_wf(1), of "0x148FF123"] by simp
qed

text \<open>
  Removing a mapped range of pages within one table makes exactly its addresses fault,
  and leaves the state well-formed with the same tables.
\<close>

theorem find_entry_and_unmap_correct:
  assumes "wf l1 s" and "removable l1 a n s"
  shows "\<exists>t. boot_mmu_find_entry_and_unmap l1 a n s = (Inr True, t) \<and> wf l1 t \<and> tables l1 t = tables l1 s \<and>
    (\<forall>va. translate (words t) l1 va =
      (if unat a \<le> unat va \<and> unat va < unat a + unat n then None else translate (words s) l1 va))"
proof -
  obtain t where t: "boot_mmu_find_entry_and_unmap l1 a n s = (Inr True, t)" "wf l1 t" "budget l1 t = budget l1 s"
    "translate (words t) l1 = (\<lambda>va. if in_block (region a n) va then None else translate (words s) l1 va)"
    using find_entry_and_unmap [OF assms] by blast
  have "in_block (region a n) va \<longleftrightarrow> unat a \<le> unat va \<and> unat va < unat a + unat n" for va
    by (simp add: in_block_def region_def)
  with t show ?thesis by (intro exI [of _ t]) (simp add: budget_def)
qed

lemma sample_tables:
  obtains t where "wf zeroed_l1 t" and "translate (words t) zeroed_l1 = overlays [section_block, page_block] (\<lambda>_. None)"
    and "tables zeroed_l1 t = {Root, Table 0, Pages 0 164}"
proof -
  have f: "fold claim [section_block, page_block] ({Root}, 2, 6) = ({Root, Table 0, Pages 0 164}, 1, 5)"
    by (simp add: section_block_def page_block_def two_tables_def l1_index_div l2_index_div second_part_def) auto
  have p: "plan_ok [section_block, page_block] (budget zeroed_l1 zeroed_tables)" unfolding zeroed_wf(3) by (rule sample_plan)
  have m: "v_base (section_block\<lparr>v_base := MMU_LAST_ADDRESS\<rparr>) = MMU_LAST_ADDRESS" by simp
  obtain t where t: "wf zeroed_l1 t"
    "translate (words t) zeroed_l1 = overlays [section_block, page_block] (translate (words zeroed_tables) zeroed_l1)"
    "budget zeroed_l1 t = fold claim [section_block, page_block] (budget zeroed_l1 zeroed_tables)"
    using map_list [OF zeroed_wf(1) p m, of "[]"] by blast
  have "budget zeroed_l1 t = ({Root, Table 0, Pages 0 164}, 1, 5)" using t(3) by (simp only: zeroed_wf(3) f)
  then show thesis using that [OF t(1)] t(2) by (simp only: zeroed_wf(2)) (simp add: budget_def)
qed

theorem find_entry_and_unmap_correct_witness:
  "\<exists>s t. boot_mmu_find_entry_and_unmap zeroed_l1 0x148FE000 0x2000 s = (Inr True, t) \<and>
    translate (words s) zeroed_l1 0x148FF123 = Some (0x148FF123, 0x498) \<and> translate (words t) zeroed_l1 0x148FF123 = None \<and>
    translate (words t) zeroed_l1 0x14900123 = Some (0x14900123, 0x498)"
proof -
  obtain s where s: "wf zeroed_l1 s" "translate (words s) zeroed_l1 = overlays [section_block, page_block] (\<lambda>_. None)"
    "tables zeroed_l1 s = {Root, Table 0, Pages 0 164}" by (rule sample_tables)
  note e = s(2) overlay_def covered_def in_block_def section_block_def page_block_def is_l3_def bits_def
  have "removable zeroed_l1 0x148FE000 0x2000 s"
    using s(3) by (simp add: removable_def region_def block_ok_def one_table_def attr_bits_def l1_index_div l2_index_div e)
  from find_entry_and_unmap_correct [OF s(1) this] obtain t where t:
    "boot_mmu_find_entry_and_unmap zeroed_l1 0x148FE000 0x2000 s = (Inr True, t)"
    "\<And>va. translate (words t) zeroed_l1 va = (if 0x148FE000 \<le> unat va \<and> unat va < 0x14900000 then None else translate (words s) zeroed_l1 va)"
    by auto
  have "translate (words s) zeroed_l1 0x148FF123 = Some (0x148FF123, 0x498)" by (simp add: e)
  moreover have "translate (words t) zeroed_l1 0x148FF123 = None" by (simp add: t(2))
  moreover have "translate (words t) zeroed_l1 0x14900123 = Some (0x14900123, 0x498)" by (simp add: t(2) e)
  ultimately show ?thesis using t(1) by auto
qed



end
