(* ===== verification/Sbl1_Mmu.thy ===== *)
theory Sbl1_Mmu
  imports Page_Table_Lists
begin

text \<open>
  The memory map of the loader (sbl1\_mc.c): the blocks it starts with, the regions it takes
  out again, and the region it adds to dump memory. The image regions are those of the linker
  script (sbl1.ld); turning the translation on is not a change of the tables.
\<close>

abbreviation (input) "MMU_PAGETABLE_MEM_READ_WRITE \<equiv> (0 :: u64)"
abbreviation (input) "MMU_PAGETABLE_MEM_READ_ONLY \<equiv> (0x80 :: u64)"
abbreviation (input) "MMU_PAGETABLE_MEM_WRITE_BACK_CACHE \<equiv> (0x418 :: u64)"
abbreviation (input) "MMU_PAGETABLE_MEM_NON_CACHEABLE \<equiv> (0x404 :: u64)"
abbreviation (input) "MMU_PAGETABLE_DEVICE_SHARED \<equiv> (0x700 :: u64)"
abbreviation (input) "MMU_PAGETABLE_EXECUTABLE_REGION \<equiv> (0 :: u64)"
abbreviation (input) "MMU_PAGETABLE_NON_EXECUTABLE_REGION \<equiv> (0x60000000000000 :: u64)"

abbreviation (input) "SECURE_REGION \<equiv> (0x14699000 :: u64)"
abbreviation (input) "SECURE_REGION_SIZE \<equiv> (0x15000 :: u64)"
abbreviation (input) "ROM_BASE \<equiv> (0x300000 :: u64)"
abbreviation (input) "SIZE_240KB \<equiv> (0x3C000 :: u64)"
abbreviation (input) "SIZE_1MB \<equiv> (0x100000 :: u64)"
abbreviation (input) "SCL_IMEM_BASE \<equiv> (0x14680000 :: u64)"
abbreviation (input) "SCL_TZ_OCIMEM_BUFFER \<equiv> (0x2E000 :: u64)"
abbreviation (input) "SCL_SYSTEM_DEBUG_CO_RO_BASE \<equiv> (0x146AE000 :: u64)"
abbreviation (input) "SCL_SYSTEM_DEBUG_CO_RO_SIZE \<equiv> (0x2800 :: u64)"
abbreviation (input) "DDR_MEM_BASE_1 \<equiv> (0x80000000 :: u64)"
abbreviation (input) "DDR_MEM_SIZE_1 \<equiv> (0x380000000 :: u64)"
abbreviation (input) "DDR_MEM_BASE_2 \<equiv> (0x800000000 :: u64)"
abbreviation (input) "DDR_MEM_SIZE_2 \<equiv> (0x800000000 :: u64)"
abbreviation (input) "SCL_AOP_DATA_RAM_BASE \<equiv> (0x0B0E0000 :: u64)"
abbreviation (input) "SCL_AOP_DATA_RAM_SIZE \<equiv> (0x8000 :: u64)"
abbreviation (input) "SIZE_256MB \<equiv> (0x10000000 :: u64)"

fun PAGE_SIZE :: "MMU_MemoryMappingType \<Rightarrow> u64" where
  "PAGE_SIZE MMU_L1_SECTION_MAPPING = MMU_L1_SECTION_MAPPING_PAGE_SIZE"
| "PAGE_SIZE MMU_L2_SECTION_MAPPING = MMU_L2_SECTION_MAPPING_PAGE_SIZE"
| "PAGE_SIZE _ = MMU_L3_SECTION_MAPPING_PAGE_SIZE"

text \<open>The base is rounded down to a page, and the size up unless both are multiples of a page.\<close>

definition MEM_BLOCK :: "u64 \<Rightarrow> u64 \<Rightarrow> u64 \<Rightarrow> MMU_MemoryMappingType \<Rightarrow> u64 \<Rightarrow> u64 \<Rightarrow> u64 \<Rightarrow> mem_block" where
  "MEM_BLOCK padd vadd sz ty perm attr ex = (let P = PAGE_SIZE ty in
     \<lparr>p_base = (if padd mod P \<noteq> 0 then padd - padd mod P else padd),
      v_base = (if vadd mod P \<noteq> 0 then vadd - vadd mod P else vadd),
      size_in_bytes = (if (vadd mod P) OR (sz mod P) \<noteq> 0 then sz + P - sz mod P else sz),
      memory_mapping = ty, access = perm, cachetype = attr, executable = ex\<rparr>)"

text \<open>Base and length of the regions of the image, from the linker.\<close>

record sbl1_image =
  SBL1_CODE :: "u64 \<times> u64"
  SBL1_DATA_RO :: "u64 \<times> u64"
  SBL1_STACK :: "u64 \<times> u64"
  SBL1_DATA_RW :: "u64 \<times> u64"
  SBL1_DATA_ZI :: "u64 \<times> u64"

definition image_block :: "u64 \<times> u64 \<Rightarrow> u64 \<Rightarrow> u64 \<Rightarrow> mem_block" where
  "image_block r perm ex = MEM_BLOCK (fst r) (fst r) (snd r) MMU_L3_SECTION_MAPPING perm MMU_PAGETABLE_MEM_WRITE_BACK_CACHE ex"

definition sbl_initial_blocks :: "sbl1_image \<Rightarrow> mem_block list" where
  "sbl_initial_blocks I =
    [MEM_BLOCK 0x0 0x0 SIZE_256MB MMU_L1_SECTION_MAPPING
       MMU_PAGETABLE_MEM_READ_WRITE MMU_PAGETABLE_DEVICE_SHARED MMU_PAGETABLE_NON_EXECUTABLE_REGION,
     MEM_BLOCK 0x00100000 0x00100000 0x300000 MMU_L3_SECTION_MAPPING
       MMU_PAGETABLE_MEM_READ_WRITE MMU_PAGETABLE_DEVICE_SHARED MMU_PAGETABLE_NON_EXECUTABLE_REGION,
     MEM_BLOCK 0x14699000 0x14699000 0x15000 MMU_L3_SECTION_MAPPING
       MMU_PAGETABLE_MEM_READ_ONLY MMU_PAGETABLE_DEVICE_SHARED MMU_PAGETABLE_NON_EXECUTABLE_REGION,
     MEM_BLOCK SCL_SYSTEM_DEBUG_CO_RO_BASE SCL_SYSTEM_DEBUG_CO_RO_BASE SCL_SYSTEM_DEBUG_CO_RO_SIZE MMU_L3_SECTION_MAPPING
       MMU_PAGETABLE_MEM_READ_ONLY MMU_PAGETABLE_MEM_WRITE_BACK_CACHE MMU_PAGETABLE_EXECUTABLE_REGION,
     image_block (SBL1_CODE I) MMU_PAGETABLE_MEM_READ_ONLY MMU_PAGETABLE_EXECUTABLE_REGION,
     image_block (SBL1_DATA_RO I) MMU_PAGETABLE_MEM_READ_ONLY MMU_PAGETABLE_NON_EXECUTABLE_REGION,
     image_block (SBL1_STACK I) MMU_PAGETABLE_MEM_READ_WRITE MMU_PAGETABLE_NON_EXECUTABLE_REGION,
     image_block (SBL1_DATA_RW I) MMU_PAGETABLE_MEM_READ_WRITE MMU_PAGETABLE_NON_EXECUTABLE_REGION,
     image_block (SBL1_DATA_ZI I) MMU_PAGETABLE_MEM_READ_WRITE MMU_PAGETABLE_NON_EXECUTABLE_REGION,
     MEM_BLOCK DDR_MEM_BASE_1 DDR_MEM_BASE_1 DDR_MEM_SIZE_1 MMU_L1_SECTION_MAPPING
       MMU_PAGETABLE_MEM_READ_WRITE MMU_PAGETABLE_MEM_NON_CACHEABLE MMU_PAGETABLE_NON_EXECUTABLE_REGION,
     MEM_BLOCK DDR_MEM_BASE_2 DDR_MEM_BASE_2 DDR_MEM_SIZE_2 MMU_L1_SECTION_MAPPING
       MMU_PAGETABLE_MEM_READ_WRITE MMU_PAGETABLE_MEM_NON_CACHEABLE MMU_PAGETABLE_NON_EXECUTABLE_REGION,
     MEM_BLOCK SCL_AOP_DATA_RAM_BASE SCL_AOP_DATA_RAM_BASE SCL_AOP_DATA_RAM_SIZE MMU_L3_SECTION_MAPPING
       MMU_PAGETABLE_MEM_READ_WRITE MMU_PAGETABLE_MEM_WRITE_BACK_CACHE MMU_PAGETABLE_NON_EXECUTABLE_REGION]"

definition last_region :: mem_block where
  "last_region = \<lparr>p_base = MMU_LAST_ADDRESS, v_base = MMU_LAST_ADDRESS, size_in_bytes = 0, memory_mapping = MMU_L1_SECTION_MAPPING,
     access = 0, cachetype = 0, executable = 0\<rparr>"

definition sbl_initial_memory_map :: "sbl1_image \<Rightarrow> mem_block list" where
  "sbl_initial_memory_map I = sbl_initial_blocks I @ [last_region]"

abbreviation (input) mapping_ok :: "(page_tables, bool) boot \<Rightarrow> (page_tables, unit) boot" where
  "mapping_ok f \<equiv> bnd f (\<lambda>result. bl_verify result (bl_err BL_ERR_MMU_PGTBL_MAPPING_FAIL BL_ERROR_GROUP_BOOT))"

definition boot_unmap_unused_regions :: "u64 \<Rightarrow> (page_tables, bool) boot" where
  "boot_unmap_unused_regions l1 =
     thn (mapping_ok (boot_mmu_find_entry_and_unmap l1 0 SIZE_1MB))
     (thn (mapping_ok (boot_mmu_find_entry_and_unmap l1 ROM_BASE SIZE_240KB))
     (thn (mapping_ok (boot_mmu_find_entry_and_unmap l1 SECURE_REGION SECURE_REGION_SIZE))
     (ret True)))"

definition qsee_ocimem_region :: mem_block where
  "qsee_ocimem_region = MEM_BLOCK SCL_IMEM_BASE SCL_IMEM_BASE SCL_TZ_OCIMEM_BUFFER MMU_L3_SECTION_MAPPING
     MMU_PAGETABLE_MEM_READ_WRITE MMU_PAGETABLE_DEVICE_SHARED MMU_PAGETABLE_NON_EXECUTABLE_REGION"

definition download_mode_mmemmap_init :: "u64 \<Rightarrow> (page_tables, bool) boot" where
  "download_mode_mmemmap_init l1 =
     bnd (boot_mmu_page_table_map_single_mem_block l1 qsee_ocimem_region) (\<lambda>result.
      thn (bl_verify result (bl_err BL_ERR_MMU_PGTBL_MAPPING_FAIL BL_ERROR_GROUP_BOOT)) (ret result))"

text \<open>
  Only the declared entries of the first table are zeroed. The result is the base that the
  shared data gets.
\<close>

definition sbl1_populate_initial_mem_map :: "u64 \<Rightarrow> sbl1_image \<Rightarrow> bool \<Rightarrow> (page_tables, u64) boot" where
  "sbl1_populate_initial_mem_map mmu_l1_pagetable I dload_mode_set =
     thn (modify (\<lambda>s. s\<lparr>words := fold (\<lambda>i m. m(slot mmu_l1_pagetable i := 0)) [0..<MMU_NUM_L1_PT] (words s)\<rparr>))
     (thn (mapping_ok (boot_mmu_page_table_map_mem_block_list mmu_l1_pagetable (sbl_initial_memory_map I)))
     (thn (mapping_ok (boot_unmap_unused_regions mmu_l1_pagetable))
     (thn (if dload_mode_set then mapping_ok (download_mode_mmemmap_init mmu_l1_pagetable) else ret ())
     (ret mmu_l1_pagetable))))"

subsection \<open>The blocks of the image\<close>

text \<open>The regions of the image are in the internal memory and start at a page.\<close>

definition region_ok :: "u64 \<times> u64 \<Rightarrow> bool" where
  "region_ok r \<longleftrightarrow> 4096 dvd unat (fst r) \<and> snd r \<noteq> 0 \<and> 0x14800000 \<le> unat (fst r) \<and> unat (fst r) + unat (snd r) \<le> 0x14980000"

definition round_up :: "nat \<Rightarrow> nat" where
  "round_up n = (n + 4095) div 4096 * 4096"

lemma image_block:
  assumes "region_ok r" and "perm \<in> {0, 0x80}" and "ex \<in> {0, 0x60000000000000}"
  defines "b \<equiv> image_block r perm ex"
  shows "block_ok b" and "memory_mapping b = MMU_L3_SECTION_MAPPING" and "v_base b = fst r" and "v_base b \<noteq> MMU_LAST_ADDRESS"
    and "unat (size_in_bytes b) = round_up (unat (snd r))"
    and "l1_index (v_base b) = 0" and "l2_index (v_base b) = 164" and "\<not> two_tables b"
    and "unat (v_base b) + unat (size_in_bytes b) \<le> 2 ^ 32 - 2 ^ 21" and "bits b = perm OR 0x418 OR ex"
    and "unat (v_base b) + unat (size_in_bytes b) \<le> 0x14980000"
proof -
  let ?v = "unat (fst r)" and ?n = "unat (snd r)"
  have r: "4096 dvd ?v" "0 < ?n" "0x14800000 \<le> ?v" "?v + ?n \<le> 0x14980000" using assms(1) by (simp_all add: region_ok_def unat_gt_0)
  have v0: "fst r mod 0x1000 = 0" using r(1) by (simp add: word_unat_eq_iff unat_mod_distrib)
  show m: "memory_mapping b = MMU_L3_SECTION_MAPPING" and v: "v_base b = fst r" and bs: "bits b = perm OR 0x418 OR ex"
    using v0 by (simp_all add: b_def image_block_def MEM_BLOCK_def Let_def bits_def)
  have p: "p_base b = v_base b" using v0 by (simp add: b_def image_block_def MEM_BLOCK_def Let_def)
  obtain V where V: "?v = 4096 * V" using r(1) by blast
  have N: "?n = ?n div 4096 * 4096 + ?n mod 4096" "?n mod 4096 < 4096" by simp_all
  have end_le: "?n div 4096 + V \<le> 0x14980" "?n mod 4096 \<noteq> 0 \<Longrightarrow> ?n div 4096 + V < 0x14980" using r(4) V N by linarith+
  show size: "unat (size_in_bytes b) = round_up ?n"
  proof (cases "?n mod 4096 = 0")
    case True
    then have "snd r mod 0x1000 = 0" by (simp add: word_unat_eq_iff unat_mod_distrib)
    then have "size_in_bytes b = snd r" using v0 by (simp add: b_def image_block_def MEM_BLOCK_def Let_def)
    moreover have "(?n + 4095) div 4096 = ?n div 4096" using True by (simp add: div_add1_eq [of ?n 4095])
    ultimately show ?thesis using True N by (simp add: round_up_def)
  next
    case False
    then have "snd r mod 0x1000 \<noteq> 0" by (simp add: word_unat_eq_iff unat_mod_distrib)
    then have s: "size_in_bytes b = snd r + 0x1000 - snd r mod 0x1000" using v0 by (simp add: b_def image_block_def MEM_BLOCK_def Let_def)
    have "unat (snd r + 0x1000) = ?n + 4096" using r by (simp add: unat_word_ariths)
    moreover have "unat (snd r mod 0x1000) = ?n mod 4096" by (simp add: unat_mod_distrib)
    ultimately have "unat (size_in_bytes b) = ?n + 4096 - ?n mod 4096" unfolding s
      by (subst unat_sub) (simp_all add: word_le_nat_alt)
    also have "\<dots> = (?n div 4096 + 1) * 4096" unfolding add_mult_distrib mult_1 using N by linarith
    also have "(?n + 4095) div 4096 = ?n div 4096 + 1"
      by (rule div_nat_eqI) (use False N in \<open>simp_all, linarith+\<close>)
    then have "?n div 4096 + 1 = (?n + 4095) div 4096" by (rule sym)
    finally show ?thesis by (simp only: round_up_def)
  qed
  have "round_up ?n + ?v \<le> 0x14980000"
  proof -
    have "?n + 4095 < (0x14980 - V + 1) * 4096" using r(4) V by simp
    then have "(?n + 4095) div 4096 \<le> 0x14980 - V" by (metis less_Suc_eq_le less_mult_imp_div_less Suc_eq_plus1)
    then show ?thesis using V end_le by (simp add: round_up_def)
  qed
  then show e: "unat (v_base b) + unat (size_in_bytes b) \<le> 0x14980000" using size v by simp
  show "unat (v_base b) + unat (size_in_bytes b) \<le> 2 ^ 32 - 2 ^ 21" using e by simp
  have q: "?v div 2 ^ 30 = 0" "?v div 2 ^ 21 = 164" using r(3) e by (simp_all add: v)
  then show "l1_index (v_base b) = 0" "l2_index (v_base b) = 164" by (simp_all add: l1_index_div l2_index_div v)
  have q21: "?v div 2097152 = 164" using q(2) by simp
  have "?v mod 2097152 + 343932928 = ?v" using mod_mult_div_eq [of ?v 2097152] unfolding q21 by simp
  then have "?v mod 2097152 + unat (size_in_bytes b) \<le> 2097152" using e by (simp add: v)
  then show "\<not> two_tables b" by (simp add: two_tables_def v)
  have "0 < (?n + 4095) div 4096" using r(2) by (simp add: div_greater_zero_iff)
  then have "size_in_bytes b \<noteq> 0" using size by (auto simp: round_up_def)
  moreover have "4096 dvd unat (size_in_bytes b)" by (simp add: size round_up_def)
  moreover have "attr_bits (bits b)" "bits b AND ACCESS_FLAG \<noteq> 0" using assms(2,3) by (auto simp: bs attr_bits_def)
  ultimately show "block_ok b" using m p e r(1) by (simp add: block_ok_def v)
  show "v_base b \<noteq> MMU_LAST_ADDRESS" using e by (auto simp: word_unat_eq_iff)
qed

subsection \<open>The initial map\<close>

definition plan :: "mem_block list \<Rightarrow> budget \<Rightarrow> budget \<Rightarrow> bool" where
  "plan bs B B' \<longleftrightarrow> plan_ok bs B \<and> fold claim bs B = B'"

lemma plan_Nil: "plan [] B B"
  by (simp add: plan_def)

lemma plan_Cons: "v_base b \<noteq> MMU_LAST_ADDRESS \<and> mappable b B \<and> claim b B = B1 \<Longrightarrow> plan bs B1 B2 \<Longrightarrow> plan (b # bs) B B2"
  by (simp add: plan_def)

lemma plan_image:
  assumes "region_ok r" and "perm \<in> {0, 0x80}" and "ex \<in> {0, 0x60000000000000}" and "Table 0 \<in> T" and "Pages 0 164 \<in> T \<or> 1 \<le> n3"
    and "plan bs (insert (Pages 0 164) T, n2, n3 - (if Pages 0 164 \<in> T then 0 else 1)) B"
  shows "plan (image_block r perm ex # bs) (T, n2, n3) B"
proof (rule plan_Cons [OF _ assms(6)], intro conjI)
  let ?b = "image_block r perm ex"
  note b = image_block [OF assms(1-3)]
  have u: "upper ?b = Table 0" "lower ?b = Pages 0 164" by (simp_all only: b(6,7))
  show "claim ?b (T, n2, n3) = (insert (Pages 0 164) T, n2, n3 - (if Pages 0 164 \<in> T then 0 else 1))"
    using assms(4) b(2,8) by (simp add: u insert_absorb)
  show "mappable ?b (T, n2, n3)" using assms(4,5) b(1,2,8,9) by (auto simp: mappable_def u)
qed (rule image_block(4) [OF assms(1-3)])

lemmas evaluate = MEM_BLOCK_def mappable_def block_ok_def bits_def attr_bits_def one_table_def two_tables_def
  second_part_def is_l3_def l1_index_div l2_index_div l1_limit_def

definition layout_ok :: "sbl1_image \<Rightarrow> bool" where
  "layout_ok I \<longleftrightarrow> list_all region_ok [SBL1_CODE I, SBL1_DATA_RO I, SBL1_STACK I, SBL1_DATA_RW I, SBL1_DATA_ZI I] \<and>
     sorted_wrt (\<lambda>r r'. unat (fst r) + unat (snd r) \<le> unat (fst r')) [SBL1_CODE I, SBL1_DATA_RO I, SBL1_STACK I, SBL1_DATA_RW I, SBL1_DATA_ZI I]"

lemma initial_plan:
  assumes "layout_ok I"
  shows "plan (sbl_initial_blocks I) ({Root}, 2, 6) ({Root, Table 0, Pages 0 0, Pages 0 1, Pages 0 163, Pages 0 164, Pages 0 88}, 1, 1)"
proof -
  have r: "region_ok (SBL1_CODE I)" "region_ok (SBL1_DATA_RO I)" "region_ok (SBL1_STACK I)" "region_ok (SBL1_DATA_RW I)"
    "region_ok (SBL1_DATA_ZI I)"
    using assms by (simp_all add: layout_ok_def)
  show ?thesis unfolding sbl_initial_blocks_def
    by ((rule plan_image, rule r, simp, simp, simp, simp) | (rule plan_Cons, simp add: evaluate))+ (auto simp: plan_def)
qed

subsection \<open>The tables of the initial map\<close>

text \<open>
  The pools are those of the library, and the entries of the first table that are not zeroed
  are zero at the start.
\<close>

definition initial_ok :: "u64 \<Rightarrow> page_tables \<Rightarrow> bool" where
  "initial_ok l1 s \<longleftrightarrow> pools_ok l1 s \<and> empty_l2_pagetable_num s = MMU_NUM_L2_PT \<and> empty_l3_pagetable_num s = MMU_NUM_L3_PT \<and>
     (\<forall>k \<in> {MMU_NUM_L1_PT..<512}. words s (slot l1 k) = 0)"

lemma initial_zero:
  assumes "initial_ok l1 s"
  defines "s' \<equiv> s\<lparr>words := fold (\<lambda>i m. m(slot l1 i := 0)) [0..<MMU_NUM_L1_PT] (words s)\<rparr>"
  shows "wf l1 s'" and "translate (words s') l1 = (\<lambda>_. None)" and "budget l1 s' = ({Root}, 2, 6)"
proof -
  let ?g = "\<lambda>k. if 0 \<le> k \<and> k < 0 + (8 :: nat) then Some (0 :: u64) else None"
  have p: "pools_ok l1 s" using assms(1) by (simp only: initial_ok_def)
  then have a: "aligned l1" by (simp add: pools_ok_def Let_def)
  have "slot (slot l1 0) i = slot l1 i" for i by (simp add: slot_def)
  then have w: "words s' = fill l1 ?g (words s)" using clear_fill [OF a, of 0 MMU_NUM_L1_PT "words s"] by (simp add: s'_def)
  have l1: "words s' (slot l1 k) = 0" if "k < 512" for k
    using assms(1) a that by (auto simp: w fill_slot initial_ok_def)
  have "words s' (slot t k) = 0" if "t \<in> frames (empty_l2_pagetable_ptr s) (empty_l2_pagetable_num s)" "k < 512" for t k
  proof -
    have "t \<noteq> l1" "aligned t" "words s (slot t k) = 0"
      using p that frame_aligned [of "empty_l2_pagetable_ptr s" "empty_l2_pagetable_num s" t] by (auto simp: pools_ok_def Let_def)
    then show ?thesis unfolding w using that(2) a by (subst fill_other) auto
  qed
  then have "pools_ok l1 s'" using p by (simp add: pools_ok_def Let_def) (simp add: s'_def)
  note z = wf_zero [OF this l1]
  show "wf l1 s'" "translate (words s') l1 = (\<lambda>_. None)" by (rule z, assumption)+
  have "tables l1 s' = {Root}" by (rule z(3))
  then show "budget l1 s' = ({Root}, 2, 6)" using assms(1) by (simp add: budget_def initial_ok_def) (simp add: s'_def)
qed

text \<open>The blocks of the initial map, and the regions taken out of it.\<close>

abbreviation "unused \<equiv> [region 0 SIZE_1MB, region ROM_BASE SIZE_240KB, region SECURE_REGION SECURE_REGION_SIZE]"

definition initial_translation :: "sbl1_image \<Rightarrow> u64 \<Rightarrow> (u64 \<times> u64) option" where
  "initial_translation I va = (if list_ex (\<lambda>r. in_block r va) unused then None
     else overlays (sbl_initial_blocks I) (\<lambda>_. None) va)"

lemma overlays_None: "overlays bs f va = None \<longleftrightarrow> f va = None \<and> list_all (\<lambda>b. \<not> covered b va) bs"
  by (induction bs arbitrary: f) (auto simp: overlay_def)

lemma overlays_Some: "overlays bs (\<lambda>_. None) va = Some x \<Longrightarrow> \<exists>b \<in> set bs. covered b va \<and> x = (va, bits b)"
proof -
  have "overlays bs f va = Some x \<Longrightarrow> f va = Some x \<or> (\<exists>b \<in> set bs. covered b va \<and> x = (va, bits b))" for f
    by (induction bs arbitrary: f) (fastforce simp: overlay_def split: if_splits)+
  then show "overlays bs (\<lambda>_. None) va = Some x \<Longrightarrow> \<exists>b \<in> set bs. covered b va \<and> x = (va, bits b)" by blast
qed

lemma registers_mapped: "unat va < 2 ^ 30 \<Longrightarrow> overlays (sbl_initial_blocks I) (\<lambda>_. None) va \<noteq> None"
  unfolding overlays_None by (simp add: sbl_initial_blocks_def covered_def in_block_def MEM_BLOCK_def is_l3_def)

lemma unmap_region:
  assumes "wf l1 s" and "block_ok (region a n)" and "one_table (region a n)" and "4096 < unat n"
    and "lower (region a n) \<in> fst (budget l1 s)" and "translate (words s) l1 a \<noteq> None" and "translate (words s) l1 (a + n - 1) \<noteq> None"
  obtains t where "boot_mmu_find_entry_and_unmap l1 a n s = (Inr True, t)" and "wf l1 t" and "budget l1 t = budget l1 s"
    and "translate (words t) l1 = (\<lambda>va. if in_block (region a n) va then None else translate (words s) l1 va)"
    and "\<And>va. in_block (region a n) va \<Longrightarrow> walk (words t) l1 va = None"
proof -
  have "removable l1 a n s" using assms(2-7) by (simp add: removable_def budget_def)
  from find_entry_and_unmap [OF assms(1) this] show thesis using that by blast
qed

lemma unused_removed:
  assumes "wf l1 s" and "budget l1 s = (T, n2, n3)" and "{Pages 0 0, Pages 0 1, Pages 0 163} \<subseteq> T"
    and "\<And>va. unat va < 2 ^ 30 \<Longrightarrow> translate (words s) l1 va \<noteq> None"
  shows "\<exists>t. boot_unmap_unused_regions l1 s = (Inr True, t) \<and> wf l1 t \<and> budget l1 t = budget l1 s \<and>
    translate (words t) l1 = (\<lambda>va. if list_ex (\<lambda>r. in_block r va) unused then None else translate (words s) l1 va) \<and>
    (\<forall>va. in_block (region SECURE_REGION SECURE_REGION_SIZE) va \<longrightarrow> walk (words t) l1 va = None)"
proof -
  note r = region_def block_ok_def one_table_def bits_def attr_bits_def l1_index_div l2_index_div in_block_def
  obtain u where u: "boot_mmu_find_entry_and_unmap l1 0 SIZE_1MB s = (Inr True, u)" "wf l1 u" "budget l1 u = budget l1 s"
    "translate (words u) l1 = (\<lambda>va. if in_block (region 0 SIZE_1MB) va then None else translate (words s) l1 va)"
    by (rule unmap_region [OF assms(1), of 0 SIZE_1MB]) (use assms in \<open>simp_all add: r\<close>)
  obtain v where v: "boot_mmu_find_entry_and_unmap l1 ROM_BASE SIZE_240KB u = (Inr True, v)" "wf l1 v" "budget l1 v = budget l1 u"
    "translate (words v) l1 = (\<lambda>va. if in_block (region ROM_BASE SIZE_240KB) va then None else translate (words u) l1 va)"
    by (rule unmap_region [OF u(2), of ROM_BASE SIZE_240KB]) (use assms u in \<open>simp_all add: r\<close>)
  obtain t where t: "boot_mmu_find_entry_and_unmap l1 SECURE_REGION SECURE_REGION_SIZE v = (Inr True, t)" "wf l1 t" "budget l1 t = budget l1 v"
    "translate (words t) l1 = (\<lambda>va. if in_block (region SECURE_REGION SECURE_REGION_SIZE) va then None else translate (words v) l1 va)"
    "\<And>va. in_block (region SECURE_REGION SECURE_REGION_SIZE) va \<Longrightarrow> walk (words t) l1 va = None"
    by (rule unmap_region [OF v(2), of SECURE_REGION SECURE_REGION_SIZE]) (use assms u v in \<open>simp_all add: r\<close>)
  show ?thesis using u v t by (intro exI [of _ t]) (auto simp: boot_unmap_unused_regions_def thn_app bnd_app ret_app fun_eq_iff)
qed

lemma initial_map:
  assumes "initial_ok l1 s" and "layout_ok I"
  shows "\<exists>t. sbl1_populate_initial_mem_map l1 I dload_mode_set s = (Inr l1, t) \<and> wf l1 t \<and>
    translate (words t) l1 = (if dload_mode_set then overlay (covered qsee_ocimem_region) (bits qsee_ocimem_region) (initial_translation I)
      else initial_translation I)"
proof -
  let ?s = "s\<lparr>words := fold (\<lambda>i m. m(slot l1 i := 0)) [0..<MMU_NUM_L1_PT] (words s)\<rparr>"
  let ?B = "({Root, Table 0, Pages 0 0, Pages 0 1, Pages 0 163, Pages 0 164, Pages 0 88}, 1, 1)"
  note z = initial_zero [OF assms(1)] and p = initial_plan [OF assms(2)]
  obtain u where u: "boot_mmu_page_table_map_mem_block_list l1 (sbl_initial_memory_map I) ?s = (Inr True, u)" "wf l1 u"
    "translate (words u) l1 = overlays (sbl_initial_blocks I) (\<lambda>_. None)" "budget l1 u = ?B"
    using map_list [OF z(1), of "sbl_initial_blocks I" last_region "[]"] p
    by (auto simp: plan_def z(3) z(2) [simplified] sbl_initial_memory_map_def last_region_def)
  obtain v where v: "boot_unmap_unused_regions l1 u = (Inr True, v)" "wf l1 v" "budget l1 v = budget l1 u"
    "translate (words v) l1 = initial_translation I"
    "\<And>va. in_block (region SECURE_REGION SECURE_REGION_SIZE) va \<Longrightarrow> walk (words v) l1 va = None"
    using unused_removed [OF u(2,4)] registers_mapped [of _ I] u(3) by (auto simp: initial_translation_def fun_eq_iff)
  show ?thesis
  proof (cases dload_mode_set)
    case False
    then show ?thesis using u v
      by (intro exI [of _ v]) (simp add: sbl1_populate_initial_mem_map_def thn_app bnd_app ret_app)
  next
    case True
    let ?b = qsee_ocimem_region
    have "vacant l1 (v_base ?b) (size_in_bytes ?b) v"
      unfolding vacant_def by (intro disjI2 v(5)) (simp add: in_block_def region_def qsee_ocimem_region_def MEM_BLOCK_def)
    moreover have "mappable ?b (budget l1 v)" by (simp add: v(3) u(4) qsee_ocimem_region_def evaluate)
    ultimately obtain t where "boot_mmu_page_table_map_single_mem_block l1 ?b v = (Inr True, t)" "wf l1 t"
      "translate (words t) l1 = overlay (covered ?b) (bits ?b) (translate (words v) l1)"
      using map_single [OF v(2), of ?b] by blast
    then show ?thesis using True u v
      by (intro exI [of _ t]) (simp add: sbl1_populate_initial_mem_map_def download_mode_mmemmap_init_def thn_app bnd_app ret_app)
  qed
qed

subsection \<open>What the initial map allows\<close>

text \<open>The processor may write where bit 7 of an entry is clear and execute where bit 54 is clear.\<close>

definition can_write :: "u64 \<Rightarrow> bool" where
  "can_write a \<longleftrightarrow> a AND 0x80 = 0"

definition can_execute :: "u64 \<Rightarrow> bool" where
  "can_execute a \<longleftrightarrow> a AND 0x40000000000000 = 0"

definition pages_of :: "u64 \<times> u64 \<Rightarrow> u64 \<Rightarrow> bool" where
  "pages_of r va \<longleftrightarrow> unat (fst r) \<le> unat va \<and> unat va < unat (fst r) + round_up (unat (snd r))"

lemma in_image_block:
  "region_ok r \<Longrightarrow> perm \<in> {0, 0x80} \<Longrightarrow> ex \<in> {0, 0x60000000000000} \<Longrightarrow> in_block (image_block r perm ex) va \<longleftrightarrow> pages_of r va"
  by (simp add: in_block_def image_block(3,5) pages_of_def)

lemma covered_image_block:
  assumes "region_ok r" and "perm \<in> {0, 0x80}" and "ex \<in> {0, 0x60000000000000}"
  shows "covered (image_block r perm ex) va \<longleftrightarrow> pages_of r va"
proof -
  note b = image_block [OF assms]
  have "unat va div 2 ^ 21 \<le> 164" if "pages_of r va"
    using that b(5,11) div_le_mono [of "unat va" "0x14980000" "2 ^ 21"] by (simp add: pages_of_def b(3))
  moreover have "unat (v_base (image_block r perm ex)) div 2 ^ 21 = 164"
    using assms(1) b(11) div_le_mono [of "0x14800000" "unat (fst r)" "2 ^ 21"] div_le_mono [of "unat (fst r)" "0x14980000" "2 ^ 21"]
    by (simp add: b(3) region_ok_def)
  ultimately show ?thesis using in_image_block [OF assms] by (auto simp: covered_def)
qed

lemma image_bits: "bits (image_block r perm ex) = perm OR 0x418 OR ex"
  by (simp add: image_block_def MEM_BLOCK_def bits_def Let_def)

lemma initial_bits:
  assumes "b \<in> set (qsee_ocimem_region # sbl_initial_blocks I)"
  shows "can_write (bits b) \<Longrightarrow> \<not> can_execute (bits b)"
    and "can_execute (bits b) \<Longrightarrow> b = image_block (SBL1_CODE I) 0x80 0 \<or>
      b = MEM_BLOCK SCL_SYSTEM_DEBUG_CO_RO_BASE SCL_SYSTEM_DEBUG_CO_RO_BASE SCL_SYSTEM_DEBUG_CO_RO_SIZE MMU_L3_SECTION_MAPPING 0x80 0x418 0"
  using assms unfolding sbl_initial_blocks_def qsee_ocimem_region_def
  by (auto simp: image_bits can_write_def can_execute_def) (simp_all add: MEM_BLOCK_def bits_def)

lemma initial_safe:
  assumes "layout_ok I"
    and "(if dl then overlay (covered qsee_ocimem_region) (bits qsee_ocimem_region) (initial_translation I) else initial_translation I) va = Some (pa, a)"
  shows "pa = va" and "can_write a \<Longrightarrow> \<not> can_execute a"
    and "can_execute a \<Longrightarrow> pages_of (SBL1_CODE I) va \<or> pages_of (SCL_SYSTEM_DEBUG_CO_RO_BASE, SCL_SYSTEM_DEBUG_CO_RO_SIZE) va"
proof -
  have "\<exists>b \<in> set (qsee_ocimem_region # sbl_initial_blocks I). covered b va \<and> (pa, a) = (va, bits b)"
  proof (cases "dl \<and> covered qsee_ocimem_region va")
    case False
    then have "initial_translation I va = Some (pa, a)" using assms(2) by (auto simp: overlay_def split: if_splits)
    then have "overlays (sbl_initial_blocks I) (\<lambda>_. None) va = Some (pa, a)" by (auto simp: initial_translation_def split: if_splits)
    from overlays_Some [OF this] show ?thesis by auto
  qed (use assms(2) in \<open>simp add: overlay_def\<close>)
  then obtain b where b: "b \<in> set (qsee_ocimem_region # sbl_initial_blocks I)" "covered b va" "pa = va" "a = bits b" by blast
  note i = initial_bits [OF b(1)]
  show "pa = va" by (rule b(3))
  show "can_write a \<Longrightarrow> \<not> can_execute a" using i(1) b(4) by simp
  have "region_ok (SBL1_CODE I)" using assms(1) by (simp add: layout_ok_def)
  then show "can_execute a \<Longrightarrow> pages_of (SBL1_CODE I) va \<or> pages_of (SCL_SYSTEM_DEBUG_CO_RO_BASE, SCL_SYSTEM_DEBUG_CO_RO_SIZE) va"
    using i(2) b(2,4) covered_image_block [of "SBL1_CODE I" "0x80" 0 va]
    by (auto simp: covered_def in_block_def MEM_BLOCK_def pages_of_def round_up_def)
qed

subsection \<open>The image in the initial map\<close>

lemma overlays_skip: "list_all (\<lambda>b. \<not> covered b va) bs \<Longrightarrow> overlays bs f va = f va"
  by (induction bs arbitrary: f) (auto simp: overlay_def)

lemma overlays_app: "overlays (xs @ ys) f = overlays ys (overlays xs f)"
  by (induction xs arbitrary: f) auto

lemma round_up_le:
  assumes "4096 dvd v" and "4096 dvd x" and "v + n \<le> x"
  shows "v + round_up n \<le> x"
proof -
  obtain V X where e: "v = 4096 * V" "x = 4096 * X" using assms(1,2) by blast
  then have "n + 4095 < (X - V + 1) * 4096" using assms(3) by simp
  then have "(n + 4095) div 4096 \<le> X - V" by (metis less_Suc_eq_le less_mult_imp_div_less Suc_eq_plus1)
  moreover have "V \<le> X" using e assms(3) by simp
  ultimately show ?thesis using e by (simp add: round_up_def)
qed

text \<open>The regions with the bits of their permissions; none overlaps the pages of another.\<close>

lemma overlays_regions:
  assumes "list_all (\<lambda>(r, perm, ex). region_ok r \<and> perm \<in> {0, 0x80} \<and> ex \<in> {0, 0x60000000000000}) rs"
    and "sorted_wrt (\<lambda>(r, _) (r', _). unat (fst r) + unat (snd r) \<le> unat (fst r')) rs"
    and "(r, perm, ex) \<in> set rs" and "pages_of r va"
  shows "overlays (map (\<lambda>(r, perm, ex). image_block r perm ex) rs) f va = Some (va, perm OR 0x418 OR ex)"
  using assms(1-3)
proof (induction rs arbitrary: f)
  case (Cons x rs)
  show ?case
  proof (cases "x = (r, perm, ex)")
    case True
    have "\<not> covered (image_block r' perm' ex') va" if m: "(r', perm', ex') \<in> set rs" for r' perm' ex'
    proof -
      have o: "region_ok r" "region_ok r'" "perm' \<in> {0, 0x80}" "ex' \<in> {0, 0x60000000000000}" "unat (fst r) + unat (snd r) \<le> unat (fst r')"
        using Cons.prems m True by (auto simp: list_all_iff)
      then have "unat (fst r) + round_up (unat (snd r)) \<le> unat (fst r')" by (intro round_up_le) (simp_all add: region_ok_def)
      then show ?thesis using o(2-4) assms(4) by (simp add: covered_image_block) (simp add: pages_of_def)
    qed
    then have "list_all (\<lambda>b. \<not> covered b va) (map (\<lambda>(r, perm, ex). image_block r perm ex) rs)" by (auto simp: list_all_iff)
    moreover have "covered (image_block r perm ex) va" using Cons.prems(1) True assms(4) by (auto simp: covered_image_block)
    ultimately show ?thesis using True by (simp add: overlays_skip) (simp add: overlay_def image_bits)
  next
    case False
    then show ?thesis using Cons by simp
  qed
qed simp

definition image_regions :: "sbl1_image \<Rightarrow> ((u64 \<times> u64) \<times> u64 \<times> u64) list" where
  "image_regions I = [(SBL1_CODE I, MMU_PAGETABLE_MEM_READ_ONLY, MMU_PAGETABLE_EXECUTABLE_REGION),
     (SBL1_DATA_RO I, MMU_PAGETABLE_MEM_READ_ONLY, MMU_PAGETABLE_NON_EXECUTABLE_REGION),
     (SBL1_STACK I, MMU_PAGETABLE_MEM_READ_WRITE, MMU_PAGETABLE_NON_EXECUTABLE_REGION),
     (SBL1_DATA_RW I, MMU_PAGETABLE_MEM_READ_WRITE, MMU_PAGETABLE_NON_EXECUTABLE_REGION),
     (SBL1_DATA_ZI I, MMU_PAGETABLE_MEM_READ_WRITE, MMU_PAGETABLE_NON_EXECUTABLE_REGION)]"

lemma initial_image:
  assumes "layout_ok I" and "(r, perm, ex) \<in> set (image_regions I)" and "pages_of r va"
  shows "(if dl then overlay (covered qsee_ocimem_region) (bits qsee_ocimem_region) (initial_translation I) else initial_translation I) va =
    Some (va, perm OR 0x418 OR ex)"
proof -
  have ok: "list_all (\<lambda>(r, perm, ex). region_ok r \<and> perm \<in> {0, 0x80} \<and> ex \<in> {0, 0x60000000000000}) (image_regions I)"
    using assms(1) by (simp add: image_regions_def layout_ok_def)
  have so: "sorted_wrt (\<lambda>(r, _) (r', _). unat (fst r) + unat (snd r) \<le> unat (fst r')) (image_regions I)"
    using assms(1) by (simp add: image_regions_def layout_ok_def)
  have r: "region_ok r" "perm \<in> {0, 0x80}" "ex \<in> {0, 0x60000000000000}" using ok assms(2) by (auto simp: list_all_iff)
  have va: "0x14800000 \<le> unat va" "unat va < 0x14980000"
    using image_block(11) [OF r] r(1) assms(3) by (simp_all add: image_block(3,5) [OF r] pages_of_def region_ok_def)
  let ?R = "map (\<lambda>(r, perm, ex). image_block r perm ex) (image_regions I)"
  have blocks: "sbl_initial_blocks I = take 4 (sbl_initial_blocks I) @ ?R @ drop 9 (sbl_initial_blocks I)"
    by (simp add: sbl_initial_blocks_def image_regions_def)
  have post: "list_all (\<lambda>b. \<not> covered b va) (drop 9 (sbl_initial_blocks I))"
    using va by (simp add: sbl_initial_blocks_def covered_def in_block_def MEM_BLOCK_def)
  have "overlays (sbl_initial_blocks I) (\<lambda>_. None) va = Some (va, perm OR 0x418 OR ex)"
    by (subst blocks) (simp only: overlays_app overlays_skip [OF post] overlays_regions [OF ok so assms(2,3)])
  then have "initial_translation I va = Some (va, perm OR 0x418 OR ex)"
    using va by (simp add: initial_translation_def in_block_def region_def)
  then show ?thesis using va by (simp add: overlay_def covered_def in_block_def qsee_ocimem_region_def MEM_BLOCK_def)
qed

subsection \<open>Properties\<close>

definition sample_image :: sbl1_image where
  "sample_image = \<lparr>SBL1_CODE = (0x14815000, 0x6789A), SBL1_DATA_RO = (0x1487D000, 0x12345), SBL1_STACK = (0x14890000, 0x3000),
     SBL1_DATA_RW = (0x14893000, 0x4321), SBL1_DATA_ZI = (0x14898000, 0x42000)\<rparr>"

lemma sample_image: "layout_ok sample_image"
  by (simp add: sample_image_def layout_ok_def region_ok_def)

lemma zeroed_initial: "initial_ok zeroed_l1 zeroed_tables"
  using zeroed_pools by (simp add: initial_ok_def) (simp add: zeroed_tables_def)

text \<open>
  (C6) With the memory map of the loader no address is both writable and executable, every
  address is translated to itself, only the code of the loader and of the debug image can be
  executed, and the first megabyte, the boot memory and, outside download mode, the secure
  region fault.
\<close>

theorem sbl1_initial_map_safe:
  assumes "initial_ok l1 s" and "layout_ok I"
  shows "\<exists>t. sbl1_populate_initial_mem_map l1 I dload_mode_set s = (Inr l1, t) \<and> wf l1 t \<and>
    (\<forall>va pa a. translate (words t) l1 va = Some (pa, a) \<longrightarrow> pa = va \<and> \<not> (can_write a \<and> can_execute a) \<and>
      (can_execute a \<longrightarrow> pages_of (SBL1_CODE I) va \<or> pages_of (SCL_SYSTEM_DEBUG_CO_RO_BASE, SCL_SYSTEM_DEBUG_CO_RO_SIZE) va)) \<and>
    (\<forall>va. unat va < 0x100000 \<or> 0x300000 \<le> unat va \<and> unat va < 0x33C000 \<or>
      \<not> dload_mode_set \<and> 0x14699000 \<le> unat va \<and> unat va < 0x146AE000 \<longrightarrow> translate (words t) l1 va = None)"
proof -
  obtain t where t: "sbl1_populate_initial_mem_map l1 I dload_mode_set s = (Inr l1, t)" "wf l1 t"
    "translate (words t) l1 = (if dload_mode_set then overlay (covered qsee_ocimem_region) (bits qsee_ocimem_region) (initial_translation I)
      else initial_translation I)"
    using initial_map [OF assms] by blast
  note safe = initial_safe [OF assms(2), of dload_mode_set, folded t(3)]
  have none: "initial_translation I va = None"
    if "unat va < 0x100000 \<or> 0x300000 \<le> unat va \<and> unat va < 0x33C000 \<or> 0x14699000 \<le> unat va \<and> unat va < 0x146AE000" for va
    using that by (auto simp: initial_translation_def in_block_def region_def)
  have "translate (words t) l1 va = None" if "unat va < 0x100000 \<or> 0x300000 \<le> unat va \<and> unat va < 0x33C000 \<or>
      \<not> dload_mode_set \<and> 0x14699000 \<le> unat va \<and> unat va < 0x146AE000" for va
    using that none [of va] by (auto simp: t(3) overlay_def covered_def in_block_def qsee_ocimem_region_def MEM_BLOCK_def)
  then show ?thesis using t(1,2) safe by (intro exI [of _ t]) blast
qed

theorem sbl1_initial_map_safe_witness:
  "\<exists>t. sbl1_populate_initial_mem_map zeroed_l1 sample_image False zeroed_tables = (Inr zeroed_l1, t) \<and>
    translate (words t) zeroed_l1 0x314159 = None \<and> translate (words t) zeroed_l1 0x14699008 = None"
proof -
  obtain t where t: "sbl1_populate_initial_mem_map zeroed_l1 sample_image False zeroed_tables = (Inr zeroed_l1, t)"
    "\<And>va. unat va < 0x100000 \<or> 0x300000 \<le> unat va \<and> unat va < 0x33C000 \<or>
      \<not> False \<and> 0x14699000 \<le> unat va \<and> unat va < 0x146AE000 \<Longrightarrow> translate (words t) zeroed_l1 va = None"
    using sbl1_initial_map_safe [OF zeroed_initial sample_image, of False] by blast
  have "translate (words t) zeroed_l1 0x314159 = None" "translate (words t) zeroed_l1 0x14699008 = None"
    by (rule t(2), simp)+
  then show ?thesis using t(1) by blast
qed

text \<open>
  (C13) The memory map is always completed, and when the translation is turned on the loader
  can go on: every byte of its image is mapped to itself as cached memory with the permissions
  of its region, in download mode too.
\<close>

theorem sbl1_initial_map_image:
  assumes "initial_ok l1 s" and "layout_ok I"
  shows "\<exists>t. sbl1_populate_initial_mem_map l1 I dload_mode_set s = (Inr l1, t) \<and>
    (\<forall>(r, perm, ex) \<in> set (image_regions I). \<forall>va. pages_of r va \<longrightarrow>
      translate (words t) l1 va = Some (va, perm OR MMU_PAGETABLE_MEM_WRITE_BACK_CACHE OR ex))"
proof -
  obtain t where t: "sbl1_populate_initial_mem_map l1 I dload_mode_set s = (Inr l1, t)"
    "translate (words t) l1 = (if dload_mode_set then overlay (covered qsee_ocimem_region) (bits qsee_ocimem_region) (initial_translation I)
      else initial_translation I)"
    using initial_map [OF assms] by blast
  show ?thesis using initial_image [OF assms(2), of _ _ _ _ dload_mode_set, folded t(2)] t(1) by blast
qed

theorem sbl1_initial_map_image_witness:
  "\<exists>t. sbl1_populate_initial_mem_map zeroed_l1 sample_image True zeroed_tables = (Inr zeroed_l1, t) \<and>
    translate (words t) zeroed_l1 0x14817000 = Some (0x14817000, 0x498)"
proof -
  obtain t where t: "sbl1_populate_initial_mem_map zeroed_l1 sample_image True zeroed_tables = (Inr zeroed_l1, t)"
    "\<forall>(r, perm, ex) \<in> set (image_regions sample_image). \<forall>va. pages_of r va \<longrightarrow>
      translate (words t) zeroed_l1 va = Some (va, perm OR MMU_PAGETABLE_MEM_WRITE_BACK_CACHE OR ex)"
    using sbl1_initial_map_image [OF zeroed_initial sample_image, of True] by blast
  have "((0x14815000, 0x6789A), 0x80, 0) \<in> set (image_regions sample_image)" by (simp add: image_regions_def sample_image_def)
  moreover have "pages_of (0x14815000, 0x6789A) 0x14817000" by (simp add: pages_of_def round_up_def)
  ultimately have "translate (words t) zeroed_l1 0x14817000 = Some (0x14817000, 0x80 OR 0x418 OR 0)" using t(2) by blast
  then show ?thesis using t(1) by auto
qed

end
