(* ===== verification/Coldplug_Terminates.thy ===== *)
theory Coldplug_Terminates
  imports Coldplug_Api
begin

text \<open>
  The parse of a logical unit ends on every medium: the two loops that carry fuel never run
  out of it. A computation \<open>ends f\<close> when it is not out of fuel and keeps the component \<open>f\<close> of
  the state, which is the measure of the loop around it.
\<close>

definition ends :: "('s \<Rightarrow> 'm) \<Rightarrow> ('s, 'a) boot \<Rightarrow> bool" where
  "ends f m \<longleftrightarrow> (\<forall>s. result m s \<noteq> Inl Out_of_fuel \<and> f (final m s) = f s)"

named_theorems ends_intros

lemma ends_ret [ends_intros]: "ends f (ret x)"
  by (simp add: ends_def ret_app)

lemma ends_fatal [ends_intros]: "e \<noteq> Out_of_fuel \<Longrightarrow> ends f (fatal e)"
  by (simp add: ends_def fatal_app)

lemma ends_gets [ends_intros]: "ends f (gets g)"
  by (simp add: ends_def)

lemma ends_modify: "(\<And>s. f (g s) = f s) \<Longrightarrow> ends f (modify g)"
  by (simp add: ends_def)

lemma ends_bnd [ends_intros]: "ends f m \<Longrightarrow> (\<And>x. ends f (g x)) \<Longrightarrow> ends f (bnd m g)"
  unfolding ends_def bnd_def
proof (intro allI)
  fix s
  assume m: "\<forall>s. result m s \<noteq> Inl Out_of_fuel \<and> f (final m s) = f s"
    and g: "\<And>x. \<forall>s. result (g x) s \<noteq> Inl Out_of_fuel \<and> f (final (g x) s) = f s"
  obtain r t where ms: "m s = (r, t)" by fastforce
  with m have "r \<noteq> Inl Out_of_fuel" "f t = f s" by (metis fst_conv snd_conv)+
  with g show "result (\<lambda>s. case m s of (Inl e, t) \<Rightarrow> (Inl e, t) | (Inr x, t) \<Rightarrow> g x t) s \<noteq> Inl Out_of_fuel \<and>
    f (final (\<lambda>s. case m s of (Inl e, t) \<Rightarrow> (Inl e, t) | (Inr x, t) \<Rightarrow> g x t) s) = f s"
    by (cases r) (simp_all add: ms)
qed

lemma ends_thn [ends_intros]: "ends f m \<Longrightarrow> ends f n \<Longrightarrow> ends f (thn m n)"
  unfolding thn_def by (rule ends_bnd)

lemma ends_assert_c [ends_intros]: "ends f (assert_c c)"
  by (simp add: assert_c_def ends_ret ends_fatal)

lemma ends_if [ends_intros]: "(c \<Longrightarrow> ends f m) \<Longrightarrow> (\<not> c \<Longrightarrow> ends f n) \<Longrightarrow> ends f (if c then m else n)"
  by simp

lemma ends_option [ends_intros]: "ends f m \<Longrightarrow> (\<And>y. ends f (g y)) \<Longrightarrow> ends f (case x of None \<Rightarrow> m | Some y \<Rightarrow> g y)"
  by (cases x) simp_all

lemma ends_pair [ends_intros]: "(\<And>a b. ends f (g a b)) \<Longrightarrow> ends f (case x of (a, b) \<Rightarrow> g a b)"
  by (cases x) simp

lemma ends_deref [ends_intros]: "(\<And>x. ends f (g x)) \<Longrightarrow> ends f (deref sel p g)"
  by (auto simp: ends_def deref_def split: option.split)

lemma ends_mono: "ends f m \<Longrightarrow> ends (\<lambda>s. g (f s)) m"
  by (simp add: ends_def)

text \<open>A continuation that only ends in the states that agree with the current one.\<close>

lemma ends_then:
  assumes "ends f m" and "\<And>x t. f t = f s \<Longrightarrow> result (g x) t \<noteq> Inl Out_of_fuel"
  shows "result (bnd m g) s \<noteq> Inl Out_of_fuel"
proof -
  obtain x t where m: "m s = (x, t)" by fastforce
  with assms(1) have "x \<noteq> Inl Out_of_fuel" "f t = f s" unfolding ends_def by (metis fst_conv snd_conv)+
  with assms(2) m show ?thesis by (cases x) (simp_all add: bnd_app)
qed

lemma ends_then_if:
  "(\<not> c \<Longrightarrow> result n s \<noteq> Inl Out_of_fuel) \<Longrightarrow> result (if c then ret x else n) s \<noteq> Inl Out_of_fuel"
  by (simp add: ret_app)

subsection \<open>The steps of a parse\<close>

text \<open>The components that no step below the parsers changes.\<close>

definition outer :: "('d, 'a) cp_mbr_scheme \<Rightarrow> coldplug_mbr_iter \<times> 'a" where
  "outer s = (mbr_iter s, cp_mbr.more s)"

lemma bdev_read_ends [ends_intros]: "ends outer (bdev_read E ops hdl lba n buf)"
proof -
  have call: "ends outer (call f)" for f :: "'d \<Rightarrow> 'r \<times> 'd"
    by (simp add: ends_def call_def outer_def split: prod.split)
  show ?thesis
    unfolding bdev_read_def coldplug_bdev_sd_ops_read_def coldplug_bdev_ufs_ops_read_def coldplug_bdev_sd_debug_add_def
      coldplug_bdev_ufs_debug_add_def coldplug_debug_add_def Let_def
    by (cases ops) (auto intro!: ends_intros ends_modify call simp: outer_def)
qed

lemma pcache_read_ends [ends_intros]: "ends outer (coldplug_pcache_read E lba n)"
  unfolding coldplug_pcache_read_def coldplug_pcache_read_i_def coldplug_pcache_check_cache_def lun_ops_def Let_def
  by (intro ends_intros ends_modify) (simp_all add: outer_def)

lemma get_block_ends [ends_intros]: "ends f coldplug_pcache_get_block_size" "ends f coldplug_pcache_get_block_count"
  by (simp_all add: coldplug_pcache_get_block_size_def coldplug_pcache_get_block_count_def ends_gets)

lemma lun_validate_ends [ends_intros]: "ends outer (coldplug_lun_validate clun)"
  unfolding coldplug_lun_validate_def coldplug_slot_validate_def coldplug_device_validate_def
  by (intro ends_intros)

lemma upd_ends [ends_intros]: "ends outer (upd_partition i f)" "ends outer (upd_lun i g)"
  unfolding upd_partition_def upd_lun_def by (rule ends_modify, simp add: outer_def)+

lemma partition_alloc_ends [ends_intros]: "ends outer (coldplug_partition_alloc clun)"
  unfolding coldplug_partition_alloc_def by (intro ends_intros)

lemma add_partition_ends [ends_intros]:
  "ends outer (coldplug_add_mbr_partition clun e)" "ends outer (coldplug_add_gpt_partition clun g)"
  unfolding coldplug_add_mbr_partition_def coldplug_add_gpt_partition_def by (intro ends_intros; simp)+

lemma check_mbr_ends [ends_intros]: "ends outer (check_mbr_signature E)" "ends outer (gpt_check_protective_mbr E)"
  unfolding check_mbr_signature_def gpt_check_protective_mbr_def by (intro ends_intros)+

subsection \<open>The GPT parser\<close>

lemma ends_unit: "ends f m \<Longrightarrow> ends (\<lambda>_. ()) m"
  by (simp add: ends_def)

lemmas steps_unit =
  lun_validate_ends [THEN ends_unit] partition_alloc_ends [THEN ends_unit] upd_ends [THEN ends_unit]
  pcache_read_ends [THEN ends_unit] add_partition_ends [THEN ends_unit] check_mbr_ends [THEN ends_unit]
  get_block_ends

lemma ends_modify_unit: "ends (\<lambda>_. ()) (modify g)"
  by (simp add: ends_def)

lemma entries_crc_ends: "ends outer (gpt_entries_crc_loop E bs last_lba lba left crc)"
proof (induction E bs last_lba lba left crc rule: gpt_entries_crc_loop.induct)
  case (1 E bs last_lba lba left crc)
  show ?case
    by (subst gpt_entries_crc_loop.simps, cases "left = 0 \<or> bs = 0") (auto intro!: ends_intros 1)
qed

lemma gpt_check_header_ends: "ends (\<lambda>_. ()) (gpt_check_header E lba)"
  unfolding gpt_check_header_def Let_def
  by (intro ends_intros steps_unit ends_modify_unit entries_crc_ends [THEN ends_unit]) simp_all

lemma gpt_parse_open_ends: "ends (\<lambda>_. ()) (coldplug_gpt_parse_open E clun)"
  unfolding coldplug_gpt_parse_open_def Let_def
  by (intro ends_intros steps_unit ends_modify_unit gpt_check_header_ends)

abbreviation gpt_left :: "('d, 'a) cp_gpt_scheme \<Rightarrow> nat" where
  "gpt_left s \<equiv> unat (remaining_entries (gpt_iter s))"

lemma gpt_left_outer: "outer s = outer t \<Longrightarrow> gpt_left s = gpt_left t"
  by (cases s, cases t) (simp add: outer_def)

lemma gpt_next_entry_steps:
  assumes "gpt_get_next_partition_entry E s = (r, t)"
  shows "r \<noteq> Inl Out_of_fuel \<and> (\<forall>e. r = Inr (Some e) \<longrightarrow> Suc (gpt_left t) = gpt_left s)"
proof -
  let ?it = "gpt_iter s"
  obtain x u where rd: "coldplug_pcache_read E (curr_entry_array_lba ?it)
      (ucast (last_entry_array_lba ?it - curr_entry_array_lba ?it + 1)) s = (x, u)" by fastforce
  then have x: "x \<noteq> Inl Out_of_fuel"
    using pcache_read_ends unfolding ends_def by (metis fst_conv)
  have dec: "remaining_entries ?it \<noteq> 0 \<Longrightarrow> Suc (unat (remaining_entries ?it - 1)) = unat (remaining_entries ?it)"
    by (simp add: unat_minus_one unat_gt_0)
  show ?thesis
    using assms rd x dec
    by (auto simp: gpt_get_next_partition_entry_def bnd_app ret_app fatal_app Let_def
        split: if_splits sum.splits option.splits)
qed

lemma gpt_read_loop_ends:
  "gpt_left s < fuel \<Longrightarrow> result (gpt_parse_read_loop E fuel) s \<noteq> Inl Out_of_fuel"
proof (induction fuel arbitrary: s)
  case (Suc fuel)
  obtain r t where n: "gpt_get_next_partition_entry E s = (r, t)" by fastforce
  note step = gpt_next_entry_steps [OF n]
  show ?case
  proof (cases "\<exists>e. r = Inr (Some e)")
    case True
    then have "gpt_left t < fuel" using step Suc.prems by auto
    with Suc.IH [of t] True n show ?thesis by (auto simp: bnd_app ret_app split: if_splits)
  next
    case False
    with step n show ?thesis by (auto simp: bnd_app ret_app split: sum.split option.split)
  qed
qed simp

lemma gpt_parse_read_ends: "ends (\<lambda>_. ()) (coldplug_gpt_parse_read E)"
  by (simp add: ends_def coldplug_gpt_parse_read_def bnd_app gpt_read_loop_ends del: gpt_parse_read_loop.simps)

lemma gpt_parse_loop_ends: "ends (\<lambda>_. ()) (gpt_parse_loop E clun n)"
  by (induction n) (auto intro!: ends_intros steps_unit gpt_parse_read_ends)

lemma gpt_parse_ends: "ends (\<lambda>_. ()) (coldplug_gpt_parse E clun)"
  unfolding coldplug_gpt_parse_def
  by (intro ends_intros gpt_parse_open_ends gpt_parse_loop_ends)

subsection \<open>The MBR parser\<close>

abbreviation mbr_next :: "('d, 'a) cp_mbr_scheme \<Rightarrow> nat" where
  "mbr_next s \<equiv> unat (next_index (mbr_iter s))"

lemma ends_mbr_next: "ends outer m \<Longrightarrow> ends mbr_next m"
  by (simp add: ends_def outer_def)

lemmas steps_mbr_next = pcache_read_ends [THEN ends_mbr_next] add_partition_ends [THEN ends_mbr_next]

lemma mbr_check_extended_ends: "ends mbr_next (coldplug_mbr_check_extended E)"
  unfolding coldplug_mbr_check_extended_def
  by (intro ends_intros steps_mbr_next ends_modify) simp_all

lemma mbr_read_extended_ends: "ends mbr_next (coldplug_mbr_read_extended E)"
  unfolding coldplug_mbr_read_extended_def Let_def
  by (intro ends_intros steps_mbr_next ends_modify) simp_all

lemma mbr_extended_loop_ends: "ends mbr_next (mbr_extended_loop E clun n)"
proof (induction n)
  case 0
  show ?case by (subst mbr_extended_loop.simps) (auto intro!: ends_intros mbr_read_extended_ends)
next
  case (Suc n)
  then show ?case
    by (subst mbr_extended_loop.simps) (auto intro!: ends_intros mbr_read_extended_ends steps_mbr_next)
qed

lemma mbr_next_used_less: "mbr_next_used mbr i m = Some j \<Longrightarrow> i \<le> j \<and> j < 4"
  unfolding mbr_next_used_def find_Some_iff by auto

lemma mbr_read_primary_steps:
  assumes "coldplug_mbr_read_primary E s = (r, t)"
  shows "r \<noteq> Inl Out_of_fuel \<and> (\<forall>e. r = Inr (Some e) \<longrightarrow> mbr_next s < mbr_next t \<and> mbr_next t \<le> 4)"
proof -
  obtain x u where rd: "coldplug_pcache_read E (mbr_sector (mbr_iter s)) 1 s = (x, u)" by fastforce
  then have x: "x \<noteq> Inl Out_of_fuel"
    using pcache_read_ends unfolding ends_def by (metis fst_conv)
  have ix: "unat (of_nat j + 1 :: u8) = Suc j" if "j < 4" for j
    using that by (simp add: unat_word_ariths take_bit_nat_eq_self unat_of_nat)
  show ?thesis
    using assms rd x
    by (auto simp: coldplug_mbr_read_primary_def bnd_app ret_app ix
        dest!: mbr_next_used_less split: if_splits sum.splits option.splits)
qed

lemma mbr_primary_loop_ends:
  "4 - mbr_next s < fuel \<Longrightarrow> result (mbr_primary_loop E clun fuel n) s \<noteq> Inl Out_of_fuel"
proof (induction fuel arbitrary: s n)
  case (Suc fuel)
  obtain r t where p: "coldplug_mbr_read_primary E s = (r, t)" by fastforce
  note step = mbr_read_primary_steps [OF p]
  show ?case
  proof (cases "\<exists>e. r = Inr (Some e)")
    case False
    with step p show ?thesis by (auto simp: bnd_app ret_app split: sum.split option.split)
  next
    case True
    then obtain e where e: "r = Inr (Some e)" by blast
    then have t: "4 - mbr_next t < fuel" using step Suc.prems by auto
    have "result (bnd (coldplug_add_mbr_partition clun e) (\<lambda>result.
        if result \<noteq> 0 then ret ()
        else bnd (coldplug_mbr_check_extended E) (\<lambda>ext.
          bnd (if ext = 0 then mbr_extended_loop E clun (n - 1) else ret (n - 1)) (\<lambda>n'.
            if n' = 0 then ret () else mbr_primary_loop E clun fuel n')))) t \<noteq> Inl Out_of_fuel"
      using t Suc.IH by (intro ends_then [where f = mbr_next] ends_then_if steps_mbr_next
        mbr_check_extended_ends mbr_extended_loop_ends ends_if ends_ret) simp_all
    with p e show ?thesis by (simp add: bnd_app)
  qed
qed simp


lemma mbr_parse_ends: "ends (\<lambda>_. ()) (coldplug_mbr_parse E clun)"
proof -
  have "ends (\<lambda>_. ()) (mbr_primary_loop E clun 5 COLDPLUG_MAX_PARTITIONS_PER_LUN)"
    by (simp add: ends_def mbr_primary_loop_ends)
  then show ?thesis
    unfolding coldplug_mbr_parse_def coldplug_mbr_parse_open_def
    by (intro ends_intros steps_unit ends_modify_unit)
qed

subsection \<open>The parse of a unit\<close>

lemma fat_parse_ends: "ends outer (coldplug_fat_parse E clun)"
  unfolding coldplug_fat_parse_def check_fat_signature_def coldplug_add_fat_partition_def
  by (intro ends_intros)

lemma init_for_lun_ends: "ends outer (coldplug_pcache_init_for_lun clun)"
  unfolding coldplug_pcache_init_for_lun_def Let_def
  by (intro ends_intros ends_modify) (simp add: outer_def)

lemma parse_lun_ends: "ends (\<lambda>_. ()) (coldplug_parse_lun E clun)"
  unfolding coldplug_parse_lun_def
  by (intro ends_intros steps_unit gpt_parse_ends mbr_parse_ends fat_parse_ends [THEN ends_unit]
      init_for_lun_ends [THEN ends_unit])

text \<open>
  (C28) Parsing a logical unit ends, whatever the medium, the drivers and the state: neither the loop that
  skips unused GPT entries nor the one over the primary records of an MBR exhausts the steps
  it is given, and every other loop is structural or has a measure. A result of the parse is
  a code of the function or a fault of the C code, never the exhaustion of a bound.
\<close>

theorem coldplug_parse_lun_terminates: "result (coldplug_parse_lun E clun) s \<noteq> Inl Out_of_fuel"
  using parse_lun_ends [of E clun] unfolding ends_def by blast

end
