(* ===== verification/Sahara_Io.thy ===== *)
theory Sahara_Io
  imports Elf_Loader
begin

text \<open>
  The transfer layer of the Sahara protocol (boot\_sahara.c), by which the memory dump image
  talks to a host: the static variables of the file, the packet log, reception and
  transmission through the dispatch table, and the two packets every other part sends. The
  packet buffer is an object in memory, since the host's packets and the first bytes of an
  image arrive in it. The functions of the three tables of the client are parameters; a
  client function that this target leaves out is an option. Every loop that waits for the
  host is given \<open>rounds\<close> steps; all theorems hold for every number of them.
\<close>

abbreviation (input) "SAHARA_MAX_PACKET_SIZE_IN_BYTES \<equiv> (0x400 :: u32)"
abbreviation (input) "SAHARA_PACKET_LOG_LENGTH \<equiv> (0x64 :: u32)"
abbreviation (input) "BOOT_MHI_SKIP_DATA \<equiv> (0xFFFFDEAD :: u64)"

abbreviation (input) "SAHARA_NO_CMD_ID \<equiv> (0x00 :: u32)"
abbreviation (input) "SAHARA_HELLO_ID \<equiv> (0x01 :: u32)"
abbreviation (input) "SAHARA_HELLO_RESP_ID \<equiv> (0x02 :: u32)"
abbreviation (input) "SAHARA_READ_DATA_ID \<equiv> (0x03 :: u32)"
abbreviation (input) "SAHARA_END_IMAGE_TX_ID \<equiv> (0x04 :: u32)"
abbreviation (input) "SAHARA_DONE_ID \<equiv> (0x05 :: u32)"
abbreviation (input) "SAHARA_DONE_RESP_ID \<equiv> (0x06 :: u32)"
abbreviation (input) "SAHARA_RESET_ID \<equiv> (0x07 :: u32)"
abbreviation (input) "SAHARA_RESET_RESP_ID \<equiv> (0x08 :: u32)"
abbreviation (input) "SAHARA_MEMORY_READ_ID \<equiv> (0x0A :: u32)"
abbreviation (input) "SAHARA_CMD_READY_ID \<equiv> (0x0B :: u32)"
abbreviation (input) "SAHARA_CMD_SWITCH_MODE_ID \<equiv> (0x0C :: u32)"
abbreviation (input) "SAHARA_CMD_EXEC_ID \<equiv> (0x0D :: u32)"
abbreviation (input) "SAHARA_CMD_EXEC_RESP_ID \<equiv> (0x0E :: u32)"
abbreviation (input) "SAHARA_CMD_EXEC_DATA_ID \<equiv> (0x0F :: u32)"
abbreviation (input) "SAHARA_MEMORY_DEBUG_64BITS_ID \<equiv> (0x10 :: u32)"
abbreviation (input) "SAHARA_MEMORY_READ_64BITS_ID \<equiv> (0x11 :: u32)"

abbreviation (input) "SAHARA_STATUS_SUCCESS \<equiv> (0x00 :: u32)"
abbreviation (input) "SAHARA_NAK_INVALID_CMD \<equiv> (0x01 :: u32)"
abbreviation (input) "SAHARA_NAK_PROTOCOL_MISMATCH \<equiv> (0x02 :: u32)"
abbreviation (input) "SAHARA_NAK_INVALID_HOST_PROTOCOL \<equiv> (0x04 :: u32)"
abbreviation (input) "SAHARA_NAK_INVALID_PACKET_SIZE \<equiv> (0x05 :: u32)"
abbreviation (input) "SAHARA_NAK_UNEXPECTED_IMAGE_ID \<equiv> (0x06 :: u32)"
abbreviation (input) "SAHARA_NAK_INVALID_DATA_SIZE \<equiv> (0x08 :: u32)"
abbreviation (input) "SAHARA_NAK_INVALID_IMAGE_TYPE \<equiv> (0x09 :: u32)"
abbreviation (input) "SAHARA_NAK_INVALID_TX_LENGTH \<equiv> (0x0A :: u32)"
abbreviation (input) "SAHARA_NAK_GENERAL_TX_RX_ERROR \<equiv> (0x0C :: u32)"
abbreviation (input) "SAHARA_NAK_READ_DATA_ERROR \<equiv> (0x0D :: u32)"
abbreviation (input) "SAHARA_NAK_MULTIPLE_SHARED_SEG \<equiv> (0x10 :: u32)"
abbreviation (input) "SAHARA_NAK_UNINIT_PHDR_LOC \<equiv> (0x11 :: u32)"
abbreviation (input) "SAHARA_NAK_INVALID_DEST_ADDR \<equiv> (0x12 :: u32)"
abbreviation (input) "SAHARA_NAK_INVALID_ELF_HDR \<equiv> (0x14 :: u32)"
abbreviation (input) "SAHARA_NAK_TIMEOUT_RX \<equiv> (0x16 :: u32)"
abbreviation (input) "SAHARA_NAK_TIMEOUT_TX \<equiv> (0x17 :: u32)"
abbreviation (input) "SAHARA_NAK_INVALID_HOST_MODE \<equiv> (0x18 :: u32)"
abbreviation (input) "SAHARA_NAK_INVALID_MEMORY_READ \<equiv> (0x19 :: u32)"
abbreviation (input) "SAHARA_NAK_MEMORY_DEBUG_NOT_SUPPORTED \<equiv> (0x1B :: u32)"
abbreviation (input) "SAHARA_NAK_EXEC_DATA_INVALID_CLIENT_CMD \<equiv> (0x20 :: u32)"
abbreviation (input) "SAHARA_NAK_HASH_TABLE_AUTH_FAILURE \<equiv> (0x21 :: u32)"
abbreviation (input) "SAHARA_NAK_HASH_VERIFICATION_FAILURE \<equiv> (0x22 :: u32)"
abbreviation (input) "SAHARA_NAK_HASH_TABLE_NOT_FOUND \<equiv> (0x23 :: u32)"
abbreviation (input) "SAHARA_NAK_TARGET_INIT_FAILURE \<equiv> (0x24 :: u32)"
abbreviation (input) "SAHARA_NAK_IMAGE_AUTH_FAILURE \<equiv> (0x25 :: u32)"
abbreviation (input) "SAHARA_NAK_INVALID_IMG_HASH_TABLE_SIZE \<equiv> (0x26 :: u32)"
abbreviation (input) "SAHARA_NAK_LAST_CODE \<equiv> (0x27 :: u32)"
abbreviation (input) "SAHARA_NAK_UNKNOWN_HOST_ERROR \<equiv> (0x15 :: u32)"

abbreviation (input) "SAHARA_MODE_IMAGE_TX_PENDING \<equiv> (0 :: u32)"
abbreviation (input) "SAHARA_MODE_IMAGE_TX_COMPLETE \<equiv> (1 :: u32)"
abbreviation (input) "SAHARA_MODE_MEMORY_DEBUG \<equiv> (2 :: u32)"
abbreviation (input) "SAHARA_MODE_COMMAND \<equiv> (3 :: u32)"
abbreviation (input) "SAHARA_MODE_LAST \<equiv> (4 :: u32)"

abbreviation (input) "BULK_SUCCESS \<equiv> (0 :: u32)"
abbreviation (input) "BULK_ERR_TIMEOUT \<equiv> (6 :: u32)"
abbreviation (input) "BULK_ERR_UNKNOWN \<equiv> (8 :: u32)"
abbreviation (input) "BULK_ERR_CABLE_DISCONNECT \<equiv> (0xB :: u32)"

abbreviation (input) "SAHARA_PACKET_TYPE_COMMAND \<equiv> (0 :: u32)"
abbreviation (input) "SAHARA_PACKET_TYPE_DATA \<equiv> (1 :: u32)"
abbreviation (input) "SAHARA_IMAGE_TYPE_BINARY \<equiv> (0 :: u32)"
abbreviation (input) "SAHARA_IMAGE_TYPE_ELF \<equiv> (1 :: u32)"
abbreviation (input) "SAHARA_IMAGE_UNKNOWN \<equiv> (0x7FFFFFFF :: u32)"

datatype boot_sahara_state = SAHARA_STATE_ENTRY | SAHARA_STATE_WAIT_HELLO_RESP | SAHARA_STATE_WAIT_RESET
  | SAHARA_STATE_WAIT_DONE | SAHARA_STATE_DATA_BINARY_HDR | SAHARA_STATE_DATA_BINARY
  | SAHARA_STATE_DATA_ELF_HDR | SAHARA_STATE_DATA_ELF_PROG_HDR | SAHARA_STATE_DATA_ELF_HASH_TABLE
  | SAHARA_STATE_DATA_ELF_SEGMENTS | SAHARA_STATE_WAIT_MEMORY_READ | SAHARA_STATE_WAIT_CMD_EXEC
  | SAHARA_STATE_WAIT_CMD_EXEC_DATA

datatype boot_sahara_packet_direction = SAHARA_PACKET_TRANSMIT | SAHARA_PACKET_RECEIVE

datatype boot_ssa_length_update_state = SSA_LENGTH_QUEUE | SSA_LENGTH_NO_QUEUE | SSA_LENGTH_FLUSH

record boot_sahara_packet_log =
  log_command :: u32
  log_state :: boot_sahara_state
  log_length :: u32
  log_direction :: boot_sahara_packet_direction
  log_num :: u32

subsection \<open>The tables of the client\<close>

text \<open>
  A callback the driver makes, with the number of bytes and the error code. The functions of
  the tables work on memory and on the state \<open>'h\<close> of the client and its driver.
\<close>

datatype bulk_event = Rx_event u32 u32 | Tx_event u32 u32

record 'h boot_sahara_auth_tbl =
  init_hash :: "mem \<times> 'h \<Rightarrow> bool \<times> mem \<times> 'h"
  update_hash :: "u64 \<Rightarrow> u32 \<Rightarrow> mem \<times> 'h \<Rightarrow> bool \<times> mem \<times> 'h"
  finalize_hash :: "mem \<times> 'h \<Rightarrow> u64 \<times> mem \<times> 'h"
  compare_hash :: "u64 \<Rightarrow> u32 \<Rightarrow> mem \<times> 'h \<Rightarrow> bool \<times> mem \<times> 'h"
  compute_hash_offsets :: "u64 \<Rightarrow> u32 \<Rightarrow> u64 \<Rightarrow> mem \<times> 'h \<Rightarrow> fault option \<times> mem \<times> 'h"
  authenticate :: "u64 \<Rightarrow> mem \<times> 'h \<Rightarrow> bool \<times> mem \<times> 'h"

record 'h boot_sahara_mem_debug_tbl =
  mem_debug_supported :: bool
  mem_debug_init :: "mem \<times> 'h \<Rightarrow> fault option \<times> mem \<times> 'h"
  mem_debug_table_addr :: u64
  mem_debug_table_len :: "mem \<times> 'h \<Rightarrow> u32"
  mem_debug_verify_addr :: "u64 \<Rightarrow> u64 \<Rightarrow> mem \<times> 'h \<Rightarrow> bool"
  mem_debug_is_restricted_addr :: "u64 \<Rightarrow> u64 \<Rightarrow> mem \<times> 'h \<Rightarrow> bool"
  mem_debug_copy_restricted :: "u64 \<Rightarrow> u64 \<Rightarrow> mem \<times> 'h \<Rightarrow> u64 \<times> mem \<times> 'h"

text \<open>
  The interface of the client: its dispatch table, the two other tables, whether a function
  \<^verbatim>\<open>boot_sahara_init\<close> insists on is missing, and the addresses of the static buffers.
\<close>

record 'h sahara_env =
  sahara_packet_buffer :: u64
  rounds :: nat
  dispatch_complete :: bool
  mem_debug_complete :: bool
  auth_tbl :: "'h boot_sahara_auth_tbl option"
  mem_debug_tbl :: "'h boot_sahara_mem_debug_tbl option"
  bulk_init :: "mem \<times> 'h \<Rightarrow> u32 \<times> mem \<times> 'h"
  bulk_shutdown :: "'h \<Rightarrow> 'h"
  bulk_poll :: "mem \<times> 'h \<Rightarrow> bulk_event option \<times> mem \<times> 'h"
  rx_bulk :: "u64 \<Rightarrow> u32 \<Rightarrow> u32 \<Rightarrow> mem \<times> 'h \<Rightarrow> bulk_event option \<times> mem \<times> 'h"
  tx_bulk :: "u64 \<Rightarrow> u32 \<Rightarrow> mem \<times> 'h \<Rightarrow> bulk_event option \<times> 'h"
  get_max_packet_size :: u32
  get_max_raw_data_size :: u32
  valid_address_range :: "u64 \<Rightarrow> u64 \<Rightarrow> u32 \<Rightarrow> bool"
  exec_cmd :: "u32 \<Rightarrow> mem \<times> 'h \<Rightarrow> (u64 \<times> u32 \<times> u32) \<times> mem \<times> 'h"
  auth_enabled :: bool
  get_bin_header_size :: u64
  get_bin_image_id :: "(u64 \<Rightarrow> mem \<Rightarrow> u32) option"
  get_bin_image_dest :: "(u64 \<Rightarrow> mem \<Rightarrow> u64) option"
  get_bin_image_size :: "u64 \<Rightarrow> mem \<Rightarrow> u64"
  get_bin_image_src :: "(u64 \<Rightarrow> mem \<Rightarrow> u64) option"
  image_load_post_proc :: "mem \<times> 'h \<Rightarrow> u32 \<times> mem \<times> 'h"
  skip_image_load :: "u32 \<Rightarrow> bool"
  get_hash_segment_buffer :: u64
  elf_optimized_segment_load :: bool
  preprocess_header :: "(u64 \<Rightarrow> u32 \<Rightarrow> mem \<times> 'h \<Rightarrow> (u32 \<times> u32 \<times> u32) \<times> mem \<times> 'h) option"
  get_orig_hash_index :: "(u32 \<Rightarrow> mem \<times> 'h \<Rightarrow> (u32 \<times> u32) \<times> mem \<times> 'h) option"
  bin_image_header :: u64
  elf_image_header :: u64
  prog_headers :: u64

subsection \<open>The static variables\<close>

text \<open>
  The client's table pointers are null or point to the tables of the interface, and
  \<open>sahara_binary_image_info\<close> tells whether that pointer has been set. \<open>transmitted\<close> is
  not a variable of the program: it is the sequence of the ranges handed to the driver, the
  latest first.
\<close>

record 'h sahara = mem_state +
  hw :: 'h
  transmitted :: "(u64 \<times> u32) list"
  sahara_if_status :: u32
  sahara_if_mode :: u32
  sahara_dispatch_tbl :: bool
  sahara_auth_tbl :: bool
  sahara_state :: boot_sahara_state
  sahara_done :: bool
  sahara_mode :: u32
  expected_image :: u32
  expected_image_type :: u32
  image_rx_complete :: bool
  is_secure :: bool
  sahara_binary_image_info :: bool
  binary_image_id :: u32
  elf_image_id :: u32
  sahara_cmd_exec_client_command :: u32
  sahara_cmd_exec_data_length :: u32
  sahara_cmd_exec_data :: u64
  sahara_mem_debug_buffer :: u64
  sahara_mem_debug_enabled :: bool
  sahara_log :: "boot_sahara_packet_log list"
  sahara_packet_log_num :: u32
  sahara_packet_log_num_total :: u32
  sahara_rx_bytes_read :: u32
  sahara_rx_err_code :: u32
  sahara_rx_complete :: bool
  sahara_tx_bytes_read :: u32
  sahara_tx_err_code :: u32
  sahara_tx_complete :: bool
  sahara_auth_elf :: bool
  sahara_auth_bin :: bool
  sahara_is_ehdr_phdr_hash_success :: bool
  sahara_parallel_init :: bool
  sahara_parallel_hash :: bool
  sahara_parallel_buf :: u64
  sahara_parallel_size :: u32
  sahara_ssa_enabled :: bool
  sahara_ssa_is_rx_for_elf_segments :: bool
  sahara_shared_seg_found :: bool
  delayed_length_update :: u32
  last_loaded_segment_end_offset :: u32
  sahara_start_of_segment_load :: bool
  remaining_elf_segments_data :: u32
  elf_hash_table :: u64
  elf_shared_seg_index :: u32
  elf_entry_address :: u32
  elf_total_segments_size :: u32

subsection \<open>Calls of the client\<close>

definition client_call :: "(mem \<times> 'h \<Rightarrow> 'r \<times> mem \<times> 'h) \<Rightarrow> (('h, 'a) sahara_scheme, 'r) boot" where
  "client_call f = (\<lambda>s. case f (memory s, hw s) of (r, m, h) \<Rightarrow> (Inr r, s\<lparr>memory := m, hw := h\<rparr>))"

definition with_dispatch :: "(('h, 'a) sahara_scheme, 'r) boot \<Rightarrow> (('h, 'a) sahara_scheme, 'r) boot" where
  "with_dispatch m = bnd (gets sahara_dispatch_tbl) (\<lambda>p. if p then m else fatal Undefined_behaviour)"

definition with_auth ::
  "('h, 'p) sahara_env_scheme \<Rightarrow> ('h boot_sahara_auth_tbl \<Rightarrow> (('h, 'a) sahara_scheme, 'r) boot) \<Rightarrow> (('h, 'a) sahara_scheme, 'r) boot" where
  "with_auth E f = bnd (gets sahara_auth_tbl) (\<lambda>p. case auth_tbl E of None \<Rightarrow> fatal Undefined_behaviour
     | Some A \<Rightarrow> if p then f A else fatal Undefined_behaviour)"

definition with_function :: "'f option \<Rightarrow> ('f \<Rightarrow> (('h, 'a) sahara_scheme, 'r) boot) \<Rightarrow> (('h, 'a) sahara_scheme, 'r) boot" where
  "with_function p f = (case p of None \<Rightarrow> fatal Undefined_behaviour | Some g \<Rightarrow> f g)"

definition set_state :: "boot_sahara_state \<Rightarrow> (('h, 'a) sahara_scheme, unit) boot" where
  "set_state st = modify (sahara_state_update (\<lambda>_. st))"

subsection \<open>The callbacks and the log\<close>

definition boot_sahara_rx_cb :: "u32 \<Rightarrow> u32 \<Rightarrow> (('h, 'a) sahara_scheme, unit) boot" where
  "boot_sahara_rx_cb bytes_read err_code =
     thn (modify (\<lambda>s. s\<lparr>sahara_rx_bytes_read := bytes_read, sahara_rx_err_code := err_code, sahara_rx_complete := True\<rparr>))
       (bnd (gets sahara_mode) (\<lambda>mode.
         if err_code = BULK_ERR_CABLE_DISCONNECT \<and> mode = SAHARA_MODE_MEMORY_DEBUG
         then with_dispatch (fatal Restarted) else ret ()))"

definition boot_sahara_tx_cb :: "u32 \<Rightarrow> u32 \<Rightarrow> (('h, 'a) sahara_scheme, unit) boot" where
  "boot_sahara_tx_cb bytes_written err_code =
     thn (modify (\<lambda>s. s\<lparr>sahara_tx_bytes_read := bytes_written, sahara_tx_err_code := err_code, sahara_tx_complete := True\<rparr>))
       (bnd (gets sahara_mode) (\<lambda>mode.
         if err_code = BULK_ERR_CABLE_DISCONNECT \<and> mode = SAHARA_MODE_MEMORY_DEBUG
         then with_dispatch (fatal Restarted) else ret ()))"

definition deliver :: "bulk_event option \<Rightarrow> (('h, 'a) sahara_scheme, unit) boot" where
  "deliver ev = (case ev of None \<Rightarrow> ret ()
     | Some e \<Rightarrow> (case e of Rx_event n err \<Rightarrow> boot_sahara_rx_cb n err | Tx_event n err \<Rightarrow> boot_sahara_tx_cb n err))"

fun poll_until :: "(('h, 'a) sahara_scheme \<Rightarrow> bool) \<Rightarrow> ('h, 'p) sahara_env_scheme \<Rightarrow> nat \<Rightarrow> (('h, 'a) sahara_scheme, unit) boot" where
  "poll_until complete E 0 = fatal Out_of_fuel"
| "poll_until complete E (Suc n) =
     bnd (gets complete) (\<lambda>c.
       if c then ret () else with_dispatch (thn (bnd (client_call (bulk_poll E)) deliver) (poll_until complete E n)))"

definition log_entry :: "u32 \<Rightarrow> u32 \<Rightarrow> boot_sahara_packet_direction \<Rightarrow> (('h, 'a) sahara_scheme, unit) boot" where
  "log_entry cmd len direction = modify (\<lambda>s.
     let n = (if sahara_packet_log_num s \<ge> SAHARA_PACKET_LOG_LENGTH then 0 else sahara_packet_log_num s)
     in s\<lparr>sahara_log := (sahara_log s)[unat n := \<lparr>log_command = cmd, log_state = sahara_state s, log_length = len,
            log_direction = direction, log_num = sahara_packet_log_num_total s\<rparr>],
          sahara_packet_log_num := n + 1, sahara_packet_log_num_total := sahara_packet_log_num_total s + 1\<rparr>)"

definition boot_sahara_log_packet_buffer :: "u64 \<Rightarrow> u32 \<Rightarrow> boot_sahara_packet_direction \<Rightarrow> (('h, 'a) sahara_scheme, unit) boot" where
  "boot_sahara_log_packet_buffer p len direction =
     bnd (gets (\<lambda>s. ucast (memory s p))) (\<lambda>cmd. log_entry cmd len direction)"

definition boot_sahara_log_raw_data :: "u32 \<Rightarrow> boot_sahara_packet_direction \<Rightarrow> (('h, 'a) sahara_scheme, unit) boot" where
  "boot_sahara_log_raw_data len direction = log_entry SAHARA_NO_CMD_ID len direction"

subsection \<open>Self-authentication of subsystems\<close>

definition boot_sahara_set_is_ssa_enabled :: "bool \<Rightarrow> (('h, 'a) sahara_scheme, unit) boot" where
  "boot_sahara_set_is_ssa_enabled v = modify (sahara_ssa_enabled_update (\<lambda>_. v))"

text \<open>The relay message buffer, to which the length goes, is not part of this build.\<close>

definition boot_sahara_ssa_update_rmb_length :: "u32 \<Rightarrow> boot_ssa_length_update_state \<Rightarrow> (('h, 'a) sahara_scheme, unit) boot" where
  "boot_sahara_ssa_update_rmb_length len ssa_state = modify (\<lambda>s.
     if sahara_ssa_is_rx_for_elf_segments s then
       (case ssa_state of
          SSA_LENGTH_QUEUE \<Rightarrow> s\<lparr>elf_total_segments_size := elf_total_segments_size s + delayed_length_update s,
            delayed_length_update := len\<rparr>
        | SSA_LENGTH_NO_QUEUE \<Rightarrow> s\<lparr>elf_total_segments_size := elf_total_segments_size s + len\<rparr>
        | SSA_LENGTH_FLUSH \<Rightarrow> s\<lparr>elf_total_segments_size := elf_total_segments_size s + delayed_length_update s,
            delayed_length_update := 0\<rparr>)
     else s)"

subsection \<open>Reception and transmission\<close>

text \<open>
  The length asked of the driver is rounded up to its packet size; \<open>None\<close> when it exceeds the
  space left. The sum is the 32-bit one of the code.
\<close>

definition rx_request :: "('h, 'p) sahara_env_scheme \<Rightarrow> u32 \<Rightarrow> u32 \<Rightarrow> u32 option" where
  "rx_request E len max_length =
     (if len > max_length then None
      else if elf_optimized_segment_load E then Some len
      else let buff_ovf = len mod get_max_packet_size E;
               len' = (if buff_ovf > 0 then len + (get_max_packet_size E - buff_ovf) else len)
           in if len' > max_length then None else Some len')"

definition boot_sahara_handle_rx ::
  "('h, 'p) sahara_env_scheme \<Rightarrow> u64 \<Rightarrow> u32 \<Rightarrow> u32 \<Rightarrow> u32 \<Rightarrow> (('h, 'a) sahara_scheme, u32 \<times> u32) boot" where
  "boot_sahara_handle_rx E packet_buffer len max_length typ = with_dispatch
     (if len \<le> max_length \<and> \<not> elf_optimized_segment_load E \<and> get_max_packet_size E = 0 then fatal Undefined_behaviour
      else case rx_request E len max_length of None \<Rightarrow> ret (0, BULK_ERR_UNKNOWN)
      | Some n \<Rightarrow>
        thn (modify (\<lambda>s. s\<lparr>sahara_rx_bytes_read := 0, sahara_rx_err_code := BULK_SUCCESS, sahara_rx_complete := False\<rparr>))
         (thn (bnd (client_call (rx_bulk E packet_buffer n typ)) deliver)
         (thn (bnd (gets (\<lambda>s. (sahara_parallel_hash s, sahara_parallel_buf s, sahara_parallel_size s))) (\<lambda>(par, buf, size).
            whenb par (thn (with_auth E (\<lambda>A. client_call (update_hash A buf size)))
              (modify (sahara_parallel_hash_update (\<lambda>_. False))))))
         (thn (poll_until sahara_rx_complete E (rounds E))
         (bnd (gets sahara_rx_bytes_read) (\<lambda>rx_length.
          thn (whenb (packet_buffer AND 0xFFFFFFFF \<noteq> BOOT_MHI_SKIP_DATA) (boot_sahara_ssa_update_rmb_length rx_length SSA_LENGTH_QUEUE))
           (thn (modify (\<lambda>s. if elf_optimized_segment_load E \<and> sahara_start_of_segment_load s
                then s\<lparr>remaining_elf_segments_data := remaining_elf_segments_data s - rx_length\<rparr> else s))
             (bnd (gets sahara_rx_err_code) (\<lambda>err. ret (rx_length, err))))))))))"

definition boot_sahara_handle_tx ::
  "('h, 'p) sahara_env_scheme \<Rightarrow> u64 \<Rightarrow> u32 \<Rightarrow> (('h, 'a) sahara_scheme, u32 \<times> u32) boot" where
  "boot_sahara_handle_tx E packet_buffer len =
     thn (modify (\<lambda>s. s\<lparr>sahara_tx_bytes_read := 0, sahara_tx_err_code := BULK_SUCCESS, sahara_tx_complete := False\<rparr>))
      (with_dispatch
        (thn (modify (transmitted_update ((#) (packet_buffer, len))))
        (thn (bnd (client_call (\<lambda>(m, h). case tx_bulk E packet_buffer len (m, h) of (ev, h') \<Rightarrow> (ev, m, h'))) deliver)
        (thn (poll_until sahara_tx_complete E (rounds E))
          (gets (\<lambda>s. (sahara_tx_bytes_read s, sahara_tx_err_code s)))))))"

text \<open>How every sender of a packet judges a transmission.\<close>

definition tx_status :: "u32 \<Rightarrow> bool \<Rightarrow> u32" where
  "tx_status err_code complete =
     (if err_code = BULK_ERR_TIMEOUT then SAHARA_NAK_TIMEOUT_TX
      else if err_code \<noteq> 0 then SAHARA_NAK_GENERAL_TX_RX_ERROR
      else if \<not> complete then SAHARA_NAK_INVALID_TX_LENGTH
      else SAHARA_STATUS_SUCCESS)"

definition words_of :: "u32 list \<Rightarrow> bytes" where
  "words_of ws = concat (map (\<lambda>w. le_bytes 4 (unat w)) ws)"

definition put_packet :: "('h, 'p) sahara_env_scheme \<Rightarrow> u32 list \<Rightarrow> (('h, 'a) sahara_scheme, unit) boot" where
  "put_packet E ws = modify (memory_update (mem_write (sahara_packet_buffer E) (words_of ws)))"

text \<open>The packet in the buffer is logged and sent; its length is read from the buffer.\<close>

definition send_packet :: "('h, 'p) sahara_env_scheme \<Rightarrow> (('h, 'a) sahara_scheme, u32 \<times> u32 \<times> bool) boot" where
  "send_packet E =
     bnd (gets (\<lambda>s. load32 (sahara_packet_buffer E + 4) (memory s))) (\<lambda>len.
     thn (boot_sahara_log_packet_buffer (sahara_packet_buffer E) len SAHARA_PACKET_TRANSMIT)
      (bnd (boot_sahara_handle_tx E (sahara_packet_buffer E) len) (\<lambda>(tx_length, err).
       bnd (gets (\<lambda>s. load32 (sahara_packet_buffer E + 4) (memory s))) (\<lambda>len'.
         ret (tx_length, err, tx_length = len')))))"

subsection \<open>Leaving the protocol\<close>

definition boot_sahara_exit :: "('h, 'p) sahara_env_scheme \<Rightarrow> (('h, 'a) sahara_scheme, unit) boot" where
  "boot_sahara_exit E = with_dispatch
     (thn (modify (\<lambda>s. s\<lparr>hw := bulk_shutdown E (hw s)\<rparr>))
       (modify (\<lambda>s. s\<lparr>sahara_dispatch_tbl := sahara_state s \<in> {SAHARA_STATE_WAIT_RESET, SAHARA_STATE_WAIT_HELLO_RESP,
              SAHARA_STATE_WAIT_MEMORY_READ, SAHARA_STATE_WAIT_CMD_EXEC},
            sahara_state := SAHARA_STATE_ENTRY, sahara_done := True\<rparr>)))"

text \<open>The reset of the target does not return; the code loops for ever after it.\<close>

definition boot_sahara_reset :: "('h, 'p) sahara_env_scheme \<Rightarrow> (('h, 'a) sahara_scheme, 'r) boot" where
  "boot_sahara_reset E = thn (boot_sahara_exit E) (fatal Target_reset)"

subsection \<open>The packets that end a transfer or ask for data\<close>

definition boot_sahara_handle_end_image_tx :: "('h, 'p) sahara_env_scheme \<Rightarrow> u32 \<Rightarrow> (('h, 'a) sahara_scheme, unit) boot" where
  "boot_sahara_handle_end_image_tx E status =
     bnd (gets expected_image) (\<lambda>image_id.
     thn (put_packet E [SAHARA_END_IMAGE_TX_ID, 16, image_id, status])
     (thn (modify (sahara_if_status_update (\<lambda>_. status)))
     (bnd (send_packet E) (\<lambda>(tx_length, err, complete).
       let tx = tx_status err complete
       in thn (whenb (status \<noteq> SAHARA_STATUS_SUCCESS \<or> tx \<noteq> SAHARA_STATUS_SUCCESS) (set_state SAHARA_STATE_WAIT_RESET))
            (whenb (tx \<noteq> SAHARA_STATUS_SUCCESS)
              (thn (modify (sahara_if_status_update (\<lambda>_. tx))) (boot_sahara_reset E)))))))"

definition boot_sahara_handle_read_data :: "('h, 'p) sahara_env_scheme \<Rightarrow> u32 \<Rightarrow> u32 \<Rightarrow> u32 \<Rightarrow> (('h, 'a) sahara_scheme, unit) boot" where
  "boot_sahara_handle_read_data E image_id data_offset data_length =
     thn (put_packet E [SAHARA_READ_DATA_ID, 20, image_id, data_offset, data_length])
     (bnd (send_packet E) (\<lambda>(tx_length, err, complete).
       let status = tx_status err complete
       in whenb (status \<noteq> SAHARA_STATUS_SUCCESS) (boot_sahara_handle_end_image_tx E status)))"

end
