(* ===== verification/Sahara_Image.thy ===== *)
theory Sahara_Image
  imports Sahara_Io
begin

text \<open>
  The reception of images over the Sahara protocol (boot\_sahara.c): data in chunks, binary
  images, ELF images with the hash of their segments, and the choice between them. The headers
  are objects in memory: what the host sends is what the checks read. In this build
  \<^verbatim>\<open>uintnt\<close> has 64 bits, so a \<^verbatim>\<open>segment_record\<close> has 40 bytes.
\<close>

abbreviation (input) "SIZEOF_SEGMENT_RECORD \<equiv> (40 :: u32)"
abbreviation (input) "SAHARA_MAX_ADDRESS \<equiv> (0xFFFFFFFF :: u64)"

text \<open>A step whose status is an error ends the function.\<close>

definition on_success :: "(('h, 'a) sahara_scheme, u32) boot \<Rightarrow> (('h, 'a) sahara_scheme, u32) boot \<Rightarrow> (('h, 'a) sahara_scheme, u32) boot" where
  "on_success m n = bnd m (\<lambda>status. if status \<noteq> SAHARA_STATUS_SUCCESS then ret status else n)"

subsection \<open>Headers\<close>

record segment_record =
  seg_type :: u32
  segment_offset :: u32
  v_address :: u64
  p_address :: u64
  seg_size :: u32
  mem_size :: u32
  memory_attribute :: u32

definition segment_record_at :: "u64 \<Rightarrow> mem \<Rightarrow> segment_record" where
  "segment_record_at p m = \<lparr>seg_type = load32 p m, segment_offset = load32 (p + 4) m, v_address = load64 (p + 8) m,
     p_address = load64 (p + 16) m, seg_size = load32 (p + 24) m, mem_size = load32 (p + 28) m,
     memory_attribute = load32 (p + 32) m\<rparr>"

text \<open>The array of segments behind the five words of \<^verbatim>\<open>progressive_boot_block\<close>, with its bound.\<close>

definition segment_at :: "('h, 'p) sahara_env_scheme \<Rightarrow> nat \<Rightarrow> u64" where
  "segment_at E i = prog_headers E + 24 + ucast SIZEOF_SEGMENT_RECORD * of_nat i"

definition with_segment ::
  "('h, 'p) sahara_env_scheme \<Rightarrow> nat \<Rightarrow> (segment_record \<Rightarrow> (('h, 'a) sahara_scheme, 'r) boot) \<Rightarrow> (('h, 'a) sahara_scheme, 'r) boot" where
  "with_segment E i f =
     (if i \<ge> MI_PBT_MAX_SEGMENTS then fatal Undefined_behaviour
      else bnd (gets (\<lambda>s. segment_record_at (segment_at E i) (memory s))) f)"

definition elf_header_of :: "('h, 'p) sahara_env_scheme \<Rightarrow> ('h, 'a) sahara_scheme \<Rightarrow> elf_ehdr" where
  "elf_header_of E s = elf32_ehdr_at (elf_image_header E) (memory s)"

definition boot_sahara_is_valid_elf_header :: "elf_ehdr \<Rightarrow> bool" where
  "boot_sahara_is_valid_elf_header h \<longleftrightarrow>
     take 4 (e_ident h) = [0x7F, 0x45, 0x4C, 0x46] \<and> e_ident h ! 4 = 1 \<and> e_ident h ! 6 = 1 \<and>
     e_ehsize h = 52 \<and> e_phentsize h = ucast SIZEOF_SEGMENT_RECORD \<and>
     e_phnum h \<noteq> 0 \<and> unat (e_phnum h) \<le> MI_PBT_MAX_SEGMENTS"

definition boot_sahara_elf_segment_is_loadable :: "u32 \<Rightarrow> u32 \<Rightarrow> bool" where
  "boot_sahara_elf_segment_is_loadable type flags \<longleftrightarrow>
     type = MI_PBT_ELF_PT_LOAD \<and> MI_PBT_PAGE_MODE_VALUE flags = MI_PBT_NON_PAGED_SEGMENT \<and>
     MI_PBT_ACCESS_TYPE_VALUE flags \<noteq> MI_PBT_NOTUSED_SEGMENT \<and>
     MI_PBT_SEGMENT_TYPE_VALUE flags \<noteq> MI_PBT_HASH_SEGMENT \<and>
     MI_PBT_ACCESS_TYPE_VALUE flags \<noteq> MI_PBT_SHARED_SEGMENT"

subsection \<open>Data in chunks\<close>

fun skip_loop :: "('h, 'p) sahara_env_scheme \<Rightarrow> nat \<Rightarrow> u32 \<Rightarrow> (('h, 'a) sahara_scheme, u32) boot" where
  "skip_loop E 0 data_to_skip = fatal Out_of_fuel"
| "skip_loop E (Suc n) data_to_skip =
     (if data_to_skip = 0 then ret SAHARA_STATUS_SUCCESS
      else bnd (boot_sahara_handle_rx E BOOT_MHI_SKIP_DATA data_to_skip data_to_skip SAHARA_PACKET_TYPE_DATA) (\<lambda>(rx_length, err).
        if err = BULK_ERR_TIMEOUT then ret SAHARA_NAK_TIMEOUT_RX
        else if err \<noteq> 0 then ret SAHARA_NAK_GENERAL_TX_RX_ERROR
        else if rx_length > data_to_skip then ret SAHARA_NAK_INVALID_DATA_SIZE
        else skip_loop E n (data_to_skip - rx_length)))"

definition boot_sahara_skip_data_in_optmize_load :: "('h, 'p) sahara_env_scheme \<Rightarrow> u32 \<Rightarrow> u32 \<Rightarrow> (('h, 'a) sahara_scheme, u32) boot" where
  "boot_sahara_skip_data_in_optmize_load E image_offset image_data_size = with_dispatch
     (bnd (gets (\<lambda>s. (sahara_start_of_segment_load s, last_loaded_segment_end_offset s))) (\<lambda>(started, last_end).
       if elf_optimized_segment_load E \<and> started then
         bnd (if last_end \<noteq> 0 then skip_loop E (rounds E) (image_offset - last_end) else ret SAHARA_STATUS_SUCCESS) (\<lambda>status.
           thn (modify (last_loaded_segment_end_offset_update (\<lambda>_. image_offset + image_data_size))) (ret status))
       else ret SAHARA_STATUS_SUCCESS))"

text \<open>
  The loop of the reception: what is left to receive, the space left at the destination, and
  what has arrived of the current request.
\<close>

fun receive_loop ::
  "('h, 'p) sahara_env_scheme \<Rightarrow> nat \<Rightarrow> u32 \<Rightarrow> u32 \<Rightarrow> u32 \<Rightarrow> u64 \<Rightarrow> u32 \<Rightarrow> (('h, 'a) sahara_scheme, u32) boot" where
  "receive_loop E 0 image_offset left space image_dest per_chunk = fatal Out_of_fuel"
| "receive_loop E (Suc n) image_offset left space image_dest per_chunk =
     (if left = 0 then ret SAHARA_STATUS_SUCCESS
      else
        let size = (if left > get_max_raw_data_size E then get_max_raw_data_size E else left)
        in bnd (gets (\<lambda>s. (sahara_start_of_segment_load s, expected_image s))) (\<lambda>(started, image_id).
           let request = (\<not> (elf_optimized_segment_load E \<and> started) \<and> per_chunk = get_max_raw_data_size E)
           in thn (whenb request (boot_sahara_handle_read_data E image_id image_offset size))
             (bnd (gets sahara_state) (\<lambda>st.
               if st = SAHARA_STATE_WAIT_RESET then ret SAHARA_NAK_READ_DATA_ERROR
               else bnd (boot_sahara_handle_rx E image_dest size space SAHARA_PACKET_TYPE_DATA) (\<lambda>(rx_length, err).
                 thn (boot_sahara_log_raw_data rx_length SAHARA_PACKET_RECEIVE)
                  (if err = BULK_ERR_TIMEOUT then ret SAHARA_NAK_TIMEOUT_RX
                   else if err \<noteq> 0 then ret SAHARA_NAK_GENERAL_TX_RX_ERROR
                   else if rx_length \<noteq> size \<and> \<not> (elf_optimized_segment_load E \<and> rx_length < size)
                   then ret SAHARA_NAK_INVALID_DATA_SIZE
                   else thn (modify (\<lambda>s. if sahara_auth_elf s \<and> sahara_parallel_init s
                          then s\<lparr>sahara_parallel_hash := True, sahara_parallel_buf := image_dest, sahara_parallel_size := rx_length\<rparr>
                          else s))
                     (receive_loop E n (image_offset + rx_length) (left - rx_length) (space - rx_length)
                       (image_dest + ucast rx_length) ((if request then 0 else per_chunk) + rx_length))))))))"

definition boot_sahara_receive_data ::
  "('h, 'p) sahara_env_scheme \<Rightarrow> u32 \<Rightarrow> u32 \<Rightarrow> u32 \<Rightarrow> u64 \<Rightarrow> (('h, 'a) sahara_scheme, u32) boot" where
  "boot_sahara_receive_data E image_offset image_data_size image_data_size_max image_dest =
     (if image_data_size_max \<ge> image_data_size then
        on_success (boot_sahara_skip_data_in_optmize_load E image_offset image_data_size)
          (with_dispatch (receive_loop E (rounds E) image_offset image_data_size image_data_size_max image_dest (get_max_raw_data_size E)))
      else ret SAHARA_NAK_INVALID_DATA_SIZE)"

text \<open>
  The size of a transfer rounded up to the packet size of the driver; \<open>None\<close> when the 32-bit
  sum wraps.
\<close>

definition padded_size :: "u32 \<Rightarrow> u32 \<Rightarrow> u32 option" where
  "padded_size max_packet_size sz =
     (let buff_ovf = sz mod max_packet_size
      in if buff_ovf > 0 then
           let sz' = sz + (max_packet_size - buff_ovf) in if sz' < sz then None else Some sz'
         else Some sz)"

definition with_padded_size ::
  "('h, 'p) sahara_env_scheme \<Rightarrow> u32 \<Rightarrow> (u32 \<Rightarrow> (('h, 'a) sahara_scheme, u32) boot) \<Rightarrow> (('h, 'a) sahara_scheme, u32) boot" where
  "with_padded_size E sz f =
     (if get_max_packet_size E = 0 then fatal Undefined_behaviour
      else case padded_size (get_max_packet_size E) sz of None \<Rightarrow> ret SAHARA_NAK_INVALID_DEST_ADDR | Some sz' \<Rightarrow> f sz')"

definition reset_on_timeout :: "('h, 'p) sahara_env_scheme \<Rightarrow> u32 \<Rightarrow> (('h, 'a) sahara_scheme, u32) boot" where
  "reset_on_timeout E status =
     thn (whenb (status = SAHARA_NAK_TIMEOUT_RX) (thn (set_state SAHARA_STATE_WAIT_RESET) (boot_sahara_reset E))) (ret status)"

subsection \<open>Binary images\<close>

definition receive_binary :: "('h, 'p) sahara_env_scheme \<Rightarrow> (('h, 'a) sahara_scheme, u32) boot" where
  "receive_binary E =
     thn (set_state SAHARA_STATE_DATA_BINARY_HDR)
     (bnd (gets (\<lambda>s. (sahara_binary_image_info s, expected_image s))) (\<lambda>(info, image).
       let header_size = ucast (get_bin_header_size E) :: u32; header = bin_image_header E
       in if \<not> info then fatal Undefined_behaviour
          else thn (modify (binary_image_id_update (\<lambda>_. image)))
           (on_success (boot_sahara_receive_data E 0 header_size SAHARA_MAX_PACKET_SIZE_IN_BYTES (sahara_packet_buffer E))
           (thn (modify (memory_update (qmemcpy header (sahara_packet_buffer E) header_size)))
           (thn (set_state SAHARA_STATE_DATA_BINARY)
           (with_function (get_bin_image_src E) (\<lambda>src. with_function (get_bin_image_dest E) (\<lambda>dest. with_function (get_bin_image_id E) (\<lambda>id.
            bnd (gets memory) (\<lambda>m.
            let image_offset = ucast (get_bin_header_size E + src header m) :: u32;
                image_data_size = ucast (get_bin_image_size E header m) :: u32; image_dest = dest header m
            in with_padded_size E image_data_size (\<lambda>image_data_size_max.
               if id header m \<noteq> image then
                 ret (if skip_image_load E image then SAHARA_STATUS_SUCCESS else SAHARA_NAK_UNEXPECTED_IMAGE_ID)
               else if \<not> valid_address_range E image_dest (ucast image_data_size_max) 1 then
                 ret (if skip_image_load E image then SAHARA_STATUS_SUCCESS else SAHARA_NAK_INVALID_DEST_ADDR)
               else on_success (boot_sahara_receive_data E image_offset image_data_size image_data_size_max image_dest)
                 (bnd (gets sahara_auth_bin) (\<lambda>auth.
                   if auth then with_auth E (\<lambda>A. bnd (client_call (authenticate A header)) (\<lambda>ok.
                     ret (if ok then SAHARA_STATUS_SUCCESS else SAHARA_NAK_IMAGE_AUTH_FAILURE)))
                   else ret SAHARA_STATUS_SUCCESS)))))))))))))"

definition boot_sahara_receive_image_binary :: "('h, 'p) sahara_env_scheme \<Rightarrow> (('h, 'a) sahara_scheme, u32) boot" where
  "boot_sahara_receive_image_binary E = with_dispatch (bnd (receive_binary E) (reset_on_timeout E))"

subsection \<open>ELF images\<close>

text \<open>The bounds of a segment as the check of the entry point computes them.\<close>

definition entry_in_segment :: "u64 \<Rightarrow> u64 \<Rightarrow> u32 \<Rightarrow> bool" where
  "entry_in_segment entry address sz \<longleftrightarrow>
     (ucast sz :: u64) < SAHARA_MAX_ADDRESS - ucast (ucast address :: u32) \<and> entry \<ge> address \<and>
     entry < ucast (ucast address + sz :: u32)"

definition segment_has_entry :: "u64 \<Rightarrow> segment_record \<Rightarrow> bool" where
  "segment_has_entry entry seg \<longleftrightarrow>
     boot_sahara_elf_segment_is_loadable (seg_type seg) (memory_attribute seg) \<and> mem_size seg > 0 \<and> seg_size seg > 0 \<and>
     (entry_in_segment entry (p_address seg) (seg_size seg) \<or> entry_in_segment entry (v_address seg) (seg_size seg))"

fun verify_start_loop :: "('h, 'p) sahara_env_scheme \<Rightarrow> elf_ehdr \<Rightarrow> nat list \<Rightarrow> (('h, 'a) sahara_scheme, bool) boot" where
  "verify_start_loop E h [] = ret False"
| "verify_start_loop E h (i # is) =
     with_segment E i (\<lambda>seg. if segment_has_entry (e_entry h) seg then ret True else verify_start_loop E h is)"

definition boot_sahara_elf_verify_start_addr :: "('h, 'p) sahara_env_scheme \<Rightarrow> (('h, 'a) sahara_scheme, bool) boot" where
  "boot_sahara_elf_verify_start_addr E =
     bnd (gets (elf_header_of E)) (\<lambda>h. verify_start_loop E h [0..<unat (e_phnum h)])"

definition boot_sahara_verify_elf_hdr :: "('h, 'p) sahara_env_scheme \<Rightarrow> (('h, 'a) sahara_scheme, u32) boot" where
  "boot_sahara_verify_elf_hdr E =
     (let failed = ret SAHARA_NAK_HASH_VERIFICATION_FAILURE
      in thn (modify (sahara_is_ehdr_phdr_hash_success_update (\<lambda>_. False)))
       (bnd (gets (elf_header_of E)) (\<lambda>h.
         if \<not> boot_sahara_is_valid_elf_header h then ret SAHARA_NAK_INVALID_ELF_HDR
         else with_auth E (\<lambda>A.
           bnd (client_call (init_hash A)) (\<lambda>ok1. if \<not> ok1 then failed else
           bnd (client_call (update_hash A (elf_image_header E) 52)) (\<lambda>ok2. if \<not> ok2 then failed else
           bnd (gets (\<lambda>s. load32 (prog_headers E + 12) (memory s))) (\<lambda>numsegments.
           bnd (client_call (update_hash A (segment_at E 0) (numsegments * SIZEOF_SEGMENT_RECORD))) (\<lambda>ok3. if \<not> ok3 then failed else
           bnd (client_call (finalize_hash A)) (\<lambda>digest. if digest = 0 then failed else
           bnd (client_call (compare_hash A digest 0)) (\<lambda>ok4. if \<not> ok4 then failed else
           bnd (boot_sahara_elf_verify_start_addr E) (\<lambda>start. if \<not> start then ret SAHARA_NAK_INVALID_ELF_HDR else
             thn (modify (sahara_is_ehdr_phdr_hash_success_update (\<lambda>_. True))) (ret SAHARA_STATUS_SUCCESS))))))))))))"

text \<open>
  Without a relay message buffer its address is null, so with self-authentication on the
  function ends before it copies anything.
\<close>

definition boot_sahara_populate_elf_meta_info :: "(('h, 'a) sahara_scheme, u32) boot" where
  "boot_sahara_populate_elf_meta_info =
     bnd (gets sahara_ssa_enabled) (\<lambda>ssa. ret (if ssa then SAHARA_NAK_INVALID_DEST_ADDR else SAHARA_STATUS_SUCCESS))"

text \<open>The hash segment: the first of the table, loaded to its fixed buffer.\<close>

definition receive_hash_segment ::
  "('h, 'p) sahara_env_scheme \<Rightarrow> ((nat \<times> u64) option \<Rightarrow> (('h, 'a) sahara_scheme, u32) boot) \<Rightarrow> (('h, 'a) sahara_scheme, u32) boot" where
  "receive_hash_segment E continue =
     bnd (gets (\<lambda>s. (sahara_auth_elf s, sahara_ssa_enabled s, elf_header_of E s, memory s))) (\<lambda>(auth, ssa, h, m).
       if \<not> (auth \<or> ssa) then continue None
       else case find (\<lambda>i. MI_PBT_SEGMENT_TYPE_VALUE (memory_attribute (segment_record_at (segment_at E i) m)) = MI_PBT_HASH_SEGMENT)
              [0..<min MI_PBT_MAX_SEGMENTS (unat (e_phnum h))] of
         None \<Rightarrow> if unat (e_phnum h) > MI_PBT_MAX_SEGMENTS then fatal Undefined_behaviour
           else ret SAHARA_NAK_HASH_TABLE_NOT_FOUND
       | Some i \<Rightarrow>
         thn (modify (elf_hash_table_update (\<lambda>_. get_hash_segment_buffer E)))
         (with_segment E i (\<lambda>seg. with_padded_size E (seg_size seg) (\<lambda>image_data_size_max.
           if of_nat HASH_SEGMENT_SIZE < seg_size seg \<or> seg_size seg < of_nat SIZEOF_MI_HEADER
           then ret SAHARA_NAK_INVALID_IMG_HASH_TABLE_SIZE
           else on_success (boot_sahara_receive_data E (segment_offset seg) (seg_size seg) image_data_size_max (get_hash_segment_buffer E))
             (continue (Some (i, get_hash_segment_buffer E)))))))"

definition authenticate_elf :: "('h, 'p) sahara_env_scheme \<Rightarrow> u64 \<Rightarrow> (('h, 'a) sahara_scheme, u32) boot" where
  "authenticate_elf E image_dest =
     thn (modify (sahara_is_ehdr_phdr_hash_success_update (\<lambda>_. False)))
      (with_auth E (\<lambda>A. bnd (client_call (authenticate A image_dest)) (\<lambda>ok.
        if \<not> ok then ret SAHARA_NAK_HASH_TABLE_AUTH_FAILURE
        else bnd (gets (\<lambda>s. load32 (prog_headers E + 12) (memory s))) (\<lambda>numsegments.
          bnd (client_call (compute_hash_offsets A (get_bin_header_size E + image_dest) numsegments (segment_at E 0))) (\<lambda>err.
            case err of Some f \<Rightarrow> fatal f | None \<Rightarrow> boot_sahara_verify_elf_hdr E)))))"

text \<open>
  One segment that is to be loaded: its data with their hash, then \<open>rest\<close>. The status of the
  lookup of the hash index is handed on even when the hash is the right one.
\<close>

definition receive_segment_data ::
  "('h, 'p) sahara_env_scheme \<Rightarrow> nat \<Rightarrow> segment_record \<Rightarrow> u32 \<Rightarrow> (u32 \<Rightarrow> (('h, 'a) sahara_scheme, u32) boot) \<Rightarrow> (('h, 'a) sahara_scheme, u32) boot" where
  "receive_segment_data E i seg image_data_size_max rest = with_auth E (\<lambda>A.
     bnd (client_call (init_hash A)) (\<lambda>ok.
     if \<not> ok then ret SAHARA_NAK_HASH_VERIFICATION_FAILURE
     else thn (modify (sahara_parallel_init_update (\<lambda>_. True)))
      (on_success (boot_sahara_receive_data E (segment_offset seg) (seg_size seg) image_data_size_max (p_address seg))
      (bnd (gets (\<lambda>s. (sahara_is_ehdr_phdr_hash_success s, sahara_parallel_hash s, sahara_parallel_buf s, sahara_parallel_size s)))
       (\<lambda>(verified, par, buf, size).
       if \<not> verified then ret SAHARA_NAK_HASH_VERIFICATION_FAILURE
       else thn (whenb par (thn (client_call (update_hash A buf size)) (ret ())))
        (bnd (client_call (finalize_hash A)) (\<lambda>digest.
        thn (modify (sahara_parallel_buf_update (\<lambda>_. digest)))
        (if digest = 0 then ret SAHARA_NAK_HASH_VERIFICATION_FAILURE
         else with_function (get_orig_hash_index E) (\<lambda>orig. bnd (client_call (orig (of_nat i))) (\<lambda>(status, original_hash_index).
           bnd (client_call (compare_hash A digest original_hash_index)) (\<lambda>same.
           if \<not> same then ret SAHARA_NAK_HASH_VERIFICATION_FAILURE
           else thn (modify (\<lambda>s. s\<lparr>sahara_parallel_init := False, sahara_parallel_hash := False\<rparr>))
             (thn (boot_sahara_ssa_update_rmb_length 0 SSA_LENGTH_FLUSH) (rest status)))))))))))))"

text \<open>The part behind the data, whose length is the 32-bit difference of the two sizes.\<close>

definition zero_segment_rest :: "segment_record \<Rightarrow> u32 \<Rightarrow> (('h, 'a) sahara_scheme, u32) boot" where
  "zero_segment_rest seg status =
     (let bss_len = mem_size seg - seg_size seg
      in thn (whenb (bss_len > 0)
           (thn (modify (memory_update (qmemset (p_address seg + ucast (seg_size seg)) 0 bss_len)))
             (boot_sahara_ssa_update_rmb_length bss_len SSA_LENGTH_NO_QUEUE)))
         (ret status))"

definition receive_segment :: "('h, 'p) sahara_env_scheme \<Rightarrow> nat \<Rightarrow> segment_record \<Rightarrow> (('h, 'a) sahara_scheme, u32) boot" where
  "receive_segment E i seg =
     (if \<not> valid_address_range E (p_address seg) (ucast (mem_size seg)) 1 then ret SAHARA_NAK_INVALID_DEST_ADDR
      else with_padded_size E (seg_size seg) (\<lambda>image_data_size_max.
        if mem_size seg = 0 then ret SAHARA_STATUS_SUCCESS
        else if seg_size seg \<noteq> 0 then receive_segment_data E i seg image_data_size_max (zero_segment_rest seg)
        else zero_segment_rest seg SAHARA_STATUS_SUCCESS))"

text \<open>What is done for one entry of the program header table.\<close>

definition elf_segment_step :: "('h, 'p) sahara_env_scheme \<Rightarrow> nat option \<Rightarrow> nat \<Rightarrow> (('h, 'a) sahara_scheme, u32) boot" where
  "elf_segment_step E hash_index i =
     bnd (gets (\<lambda>s. (sahara_auth_elf s, sahara_ssa_enabled s))) (\<lambda>(auth, ssa).
     if hash_index = Some i \<and> (auth \<or> ssa) then ret SAHARA_STATUS_SUCCESS
     else with_segment E i (\<lambda>seg.
       if boot_sahara_elf_segment_is_loadable (seg_type seg) (memory_attribute seg) then receive_segment E i seg
       else if MI_PBT_ACCESS_TYPE_VALUE (memory_attribute seg) = MI_PBT_SHARED_SEGMENT then
         bnd (gets sahara_shared_seg_found) (\<lambda>found.
           if found then ret SAHARA_NAK_MULTIPLE_SHARED_SEG
           else thn (modify (\<lambda>s. s\<lparr>sahara_shared_seg_found := True, elf_shared_seg_index := of_nat i\<rparr>)) (ret SAHARA_STATUS_SUCCESS))
       else if seg_type seg = 6 \<or> seg_type seg = 0 \<and> MI_PBT_SEGMENT_TYPE_VALUE (memory_attribute seg) = MI_PBT_PHDR_SEGMENT then
         bnd (gets sahara_is_ehdr_phdr_hash_success) (\<lambda>verified.
           ret (if auth \<and> \<not> verified then SAHARA_NAK_HASH_VERIFICATION_FAILURE else SAHARA_STATUS_SUCCESS))
       else ret SAHARA_STATUS_SUCCESS))"

text \<open>The number of entries is read from the header in every round; it may not exceed the array.\<close>

fun elf_segments_loop :: "('h, 'p) sahara_env_scheme \<Rightarrow> nat option \<Rightarrow> nat list \<Rightarrow> u32 \<Rightarrow> (('h, 'a) sahara_scheme, u32) boot" where
  "elf_segments_loop E hash_index [] status =
     bnd (gets (elf_header_of E)) (\<lambda>h. if unat (e_phnum h) > MI_PBT_MAX_SEGMENTS \<and> status = SAHARA_STATUS_SUCCESS
       then fatal Undefined_behaviour else ret status)"
| "elf_segments_loop E hash_index (i # is) status =
     bnd (gets (elf_header_of E)) (\<lambda>h.
       if i < unat (e_phnum h) \<and> status = SAHARA_STATUS_SUCCESS
       then bnd (elf_segment_step E hash_index i) (elf_segments_loop E hash_index is)
       else ret status)"

definition receive_segments :: "('h, 'p) sahara_env_scheme \<Rightarrow> nat option \<Rightarrow> (('h, 'a) sahara_scheme, u32) boot" where
  "receive_segments E hash_index =
     on_success boot_sahara_populate_elf_meta_info
     (thn (modify (\<lambda>s. s\<lparr>elf_total_segments_size := 0, last_loaded_segment_end_offset := 0, sahara_start_of_segment_load := True\<rparr>))
     (bnd (if elf_optimized_segment_load E then
            with_function (preprocess_header E) (\<lambda>pre. bnd (gets (\<lambda>s. load32 (prog_headers E + 12) (memory s))) (\<lambda>numsegments.
              bnd (client_call (pre (segment_at E 0) numsegments)) (\<lambda>(status, image_offset, remaining).
              thn (modify (remaining_elf_segments_data_update (\<lambda>_. remaining)))
              (thn (whenb (status = SAHARA_STATUS_SUCCESS \<and> remaining \<noteq> 0)
                (bnd (gets expected_image) (\<lambda>image_id. boot_sahara_handle_read_data E image_id image_offset remaining)))
              (ret status)))))
          else ret SAHARA_STATUS_SUCCESS) (\<lambda>status.
      bnd (elf_segments_loop E hash_index [0..<MI_PBT_MAX_SEGMENTS] status) (\<lambda>status'.
        thn (modify (\<lambda>s. s\<lparr>sahara_start_of_segment_load := False, sahara_ssa_is_rx_for_elf_segments := False\<rparr>)) (ret status')))))"

text \<open>The program headers and the fields of their block.\<close>

definition receive_program_headers :: "('h, 'p) sahara_env_scheme \<Rightarrow> (('h, 'a) sahara_scheme, u32) boot \<Rightarrow> (('h, 'a) sahara_scheme, u32) boot" where
  "receive_program_headers E continue =
     thn (set_state SAHARA_STATE_DATA_ELF_PROG_HDR)
     (bnd (gets (elf_header_of E)) (\<lambda>h.
     on_success (boot_sahara_receive_data E (ucast (e_phoff h)) (ucast (e_phnum h) * ucast (e_phentsize h))
         (SIZEOF_SEGMENT_RECORD * of_nat MI_PBT_MAX_SEGMENTS) (segment_at E 0))
      (bnd (gets (elf_header_of E)) (\<lambda>h.
       thn (modify (memory_update (mem_write (prog_headers E) (words_of [0xEFBEADDE, 0x98765432, 5, ucast (e_phnum h), ucast (e_entry h)]))))
       (thn (set_state SAHARA_STATE_DATA_ELF_SEGMENTS) continue)))))"

definition receive_elf :: "('h, 'p) sahara_env_scheme \<Rightarrow> (('h, 'a) sahara_scheme, u32) boot" where
  "receive_elf E =
     (if prog_headers E = 0 then ret SAHARA_NAK_UNINIT_PHDR_LOC
      else thn (set_state SAHARA_STATE_DATA_ELF_HDR)
       (bnd (gets (\<lambda>s. (sahara_binary_image_info s, expected_image s))) (\<lambda>(info, image).
        if \<not> info then fatal Undefined_behaviour
        else thn (modify (binary_image_id_update (\<lambda>_. image)))
         (on_success (boot_sahara_receive_data E 0 52 SAHARA_MAX_PACKET_SIZE_IN_BYTES (sahara_packet_buffer E))
         (thn (modify (memory_update (qmemcpy (elf_image_header E) (sahara_packet_buffer E) 52)))
         (bnd (gets (elf_header_of E)) (\<lambda>h.
          if \<not> boot_sahara_is_valid_elf_header h then ret SAHARA_NAK_INVALID_ELF_HDR
          else thn (modify (elf_entry_address_update (\<lambda>_. ucast (e_entry h))))
           (receive_program_headers E
             (receive_hash_segment E (\<lambda>hash.
               bnd (gets sahara_auth_elf) (\<lambda>auth.
                 if auth then on_success (authenticate_elf E (case hash of Some (i, p) \<Rightarrow> p | None \<Rightarrow> 0)) (receive_segments E (map_option fst hash))
                 else receive_segments E (map_option fst hash))))))))))))"

text \<open>After an error of an optimised load the rest of the data is read and dropped.\<close>

fun flush_loop :: "('h, 'p) sahara_env_scheme \<Rightarrow> nat \<Rightarrow> (('h, 'a) sahara_scheme, unit) boot" where
  "flush_loop E 0 = fatal Out_of_fuel"
| "flush_loop E (Suc n) =
     bnd (gets remaining_elf_segments_data) (\<lambda>left.
       if left = 0 then ret ()
       else bnd (boot_sahara_handle_rx E BOOT_MHI_SKIP_DATA left left SAHARA_PACKET_TYPE_DATA) (\<lambda>(rx_length, err).
         thn (modify (\<lambda>s. s\<lparr>remaining_elf_segments_data := remaining_elf_segments_data s - rx_length\<rparr>)) (flush_loop E n)))"

definition boot_sahara_receive_image_elf :: "('h, 'p) sahara_env_scheme \<Rightarrow> (('h, 'a) sahara_scheme, u32) boot" where
  "boot_sahara_receive_image_elf E = with_dispatch
     (bnd (receive_elf E) (\<lambda>status.
       thn (whenb (status \<noteq> SAHARA_STATUS_SUCCESS \<and> elf_optimized_segment_load E) (flush_loop E (rounds E)))
         (reset_on_timeout E status)))"

subsection \<open>Any image\<close>

text \<open>The status of a reception is reported, and a success waits for the host to be done.\<close>

definition end_reception :: "('h, 'p) sahara_env_scheme \<Rightarrow> u32 \<Rightarrow> (('h, 'a) sahara_scheme, unit) boot" where
  "end_reception E received =
     bnd (if received = SAHARA_STATUS_SUCCESS then with_dispatch (client_call (image_load_post_proc E)) else ret received) (\<lambda>status.
     bnd (gets sahara_state) (\<lambda>st.
     thn (whenb (st \<noteq> SAHARA_STATE_WAIT_RESET) (boot_sahara_handle_end_image_tx E status))
      (bnd (gets sahara_state) (\<lambda>st'.
        whenb (st' \<noteq> SAHARA_STATE_WAIT_RESET)
          (modify (\<lambda>s. s\<lparr>image_rx_complete := True, sahara_state := SAHARA_STATE_WAIT_DONE\<rparr>))))))"

definition boot_sahara_receive_image :: "('h, 'p) sahara_env_scheme \<Rightarrow> (('h, 'a) sahara_scheme, unit) boot" where
  "boot_sahara_receive_image E =
     bnd (gets expected_image_type) (\<lambda>typ.
     bnd (if typ = SAHARA_IMAGE_TYPE_BINARY then boot_sahara_receive_image_binary E
          else if typ = SAHARA_IMAGE_TYPE_ELF then boot_sahara_receive_image_elf E
          else ret SAHARA_NAK_INVALID_IMAGE_TYPE) (end_reception E))"

end
