(* ===== verification/Sahara.thy ===== *)
theory Sahara
  imports Sahara_Image
begin

text \<open>
  The Sahara protocol (boot\_sahara.c): a handler for every packet, the loop over the packets
  of the host, and the entry of the client. The fields of a packet are read from the buffer at
  their offsets.
\<close>

abbreviation (input) "SAHARA_VERSION_MAJOR \<equiv> (2 :: u32)"
abbreviation (input) "SAHARA_VERSION_MAJOR_SUPPORTED \<equiv> (1 :: u32)"
abbreviation (input) "SAHARA_PACKET_HELLO_RESP_LENGTH_V1 \<equiv> (0x14 :: u32)"
abbreviation (input) "SAHARA_MAX_MEMORY_DATA_SIZE_IN_BYTES \<equiv> (0x1000 :: u32)"

definition field32 :: "('h, 'p) sahara_env_scheme \<Rightarrow> u64 \<Rightarrow> (('h, 'a) sahara_scheme, u32) boot" where
  "field32 E off = gets (\<lambda>s. load32 (sahara_packet_buffer E + off) (memory s))"

definition field64 :: "('h, 'p) sahara_env_scheme \<Rightarrow> u64 \<Rightarrow> (('h, 'a) sahara_scheme, u64) boot" where
  "field64 E off = gets (\<lambda>s. load64 (sahara_packet_buffer E + off) (memory s))"

text \<open>A packet of the wrong length is answered with an error.\<close>

definition with_packet ::
  "('h, 'p) sahara_env_scheme \<Rightarrow> u32 \<Rightarrow> u32 \<Rightarrow> (('h, 'a) sahara_scheme, unit) boot \<Rightarrow> (('h, 'a) sahara_scheme, unit) boot" where
  "with_packet E len sz handle =
     bnd (field32 E 4) (\<lambda>plen.
       if len \<noteq> sz \<or> len \<noteq> plen then boot_sahara_handle_end_image_tx E SAHARA_NAK_INVALID_PACKET_SIZE else handle)"

definition with_debug ::
  "('h, 'p) sahara_env_scheme \<Rightarrow> ('h boot_sahara_mem_debug_tbl \<Rightarrow> (('h, 'a) sahara_scheme, 'r) boot) \<Rightarrow> (('h, 'a) sahara_scheme, 'r) boot" where
  "with_debug E f = with_function (mem_debug_tbl E) f"

text \<open>The end of a handler: an error is reported, otherwise the state changes.\<close>

definition end_or :: "('h, 'p) sahara_env_scheme \<Rightarrow> u32 \<Rightarrow> (('h, 'a) sahara_scheme, unit) boot \<Rightarrow> (('h, 'a) sahara_scheme, unit) boot" where
  "end_or E status m = (if status \<noteq> SAHARA_STATUS_SUCCESS then boot_sahara_handle_end_image_tx E status else m)"

subsection \<open>Hello\<close>

text \<open>The greeting is sent until a transmission succeeds.\<close>

fun hello_loop :: "('h, 'p) sahara_env_scheme \<Rightarrow> nat \<Rightarrow> (('h, 'a) sahara_scheme, unit) boot" where
  "hello_loop E 0 = fatal Out_of_fuel"
| "hello_loop E (Suc n) =
     bnd (send_packet E) (\<lambda>(tx_length, err, complete).
       if err = BULK_ERR_TIMEOUT then hello_loop E n
       else if err = BULK_ERR_CABLE_DISCONNECT then with_dispatch (thn (client_call (bulk_init E)) (hello_loop E n))
       else if err \<noteq> 0 \<or> \<not> complete then hello_loop E n
       else ret ())"

definition boot_sahara_handle_hello :: "('h, 'p) sahara_env_scheme \<Rightarrow> (('h, 'a) sahara_scheme, unit) boot" where
  "boot_sahara_handle_hello E =
     bnd (gets sahara_mode) (\<lambda>mode.
     thn (put_packet E [SAHARA_HELLO_ID, 48, SAHARA_VERSION_MAJOR, SAHARA_VERSION_MAJOR_SUPPORTED,
            SAHARA_MAX_PACKET_SIZE_IN_BYTES, mode, 0, 0, 0, 0, 0, 0])
     (thn (hello_loop E (rounds E)) (set_state SAHARA_STATE_WAIT_HELLO_RESP)))"

definition boot_sahara_handle_memory_debug :: "('h, 'p) sahara_env_scheme \<Rightarrow> (('h, 'a) sahara_scheme, unit) boot" where
  "boot_sahara_handle_memory_debug E = with_debug E (\<lambda>M.
     thn (modify (memory_update (store32 (sahara_packet_buffer E) SAHARA_MEMORY_DEBUG_64BITS_ID)))
     (bnd (client_call (mem_debug_init M)) (\<lambda>err. case err of Some f \<Rightarrow> fatal f | None \<Rightarrow>
     (thn (modify (memory_update (store32 (sahara_packet_buffer E + 4) 24)))
     (thn (modify (memory_update (store64 (sahara_packet_buffer E + 8) (mem_debug_table_addr M))))
     (bnd (gets (\<lambda>s. mem_debug_table_len M (memory s, hw s))) (\<lambda>len.
     thn (modify (memory_update (store64 (sahara_packet_buffer E + 16) (ucast len))))
     (bnd (send_packet E) (\<lambda>(tx_length, err, complete).
       end_or E (tx_status err complete) (set_state SAHARA_STATE_WAIT_MEMORY_READ))))))))))"

definition boot_sahara_handle_cmd_ready :: "('h, 'p) sahara_env_scheme \<Rightarrow> (('h, 'a) sahara_scheme, unit) boot" where
  "boot_sahara_handle_cmd_ready E =
     thn (put_packet E [SAHARA_CMD_READY_ID, 8])
     (bnd (send_packet E) (\<lambda>(tx_length, err, complete).
       end_or E (tx_status err complete) (set_state SAHARA_STATE_WAIT_CMD_EXEC)))"

text \<open>
  The checks of a response to the greeting, in their order: the error, or the mode asked for.
  An old response has no mode. The comparison with the last code is made on the status of the
  handler, which is still success, so that every status of the host is passed on.
\<close>

definition hello_resp_verdict :: "u32 \<Rightarrow> u32 \<Rightarrow> u32 \<Rightarrow> u32 \<Rightarrow> u32 \<Rightarrow> u32 \<Rightarrow> u32 + u32 option" where
  "hello_resp_verdict len plen version supported host_status mode =
     (if (len \<noteq> 48 \<or> len \<noteq> plen) \<and> (len \<noteq> SAHARA_PACKET_HELLO_RESP_LENGTH_V1 \<or> version \<noteq> 1) then Inl SAHARA_NAK_INVALID_PACKET_SIZE
      else if host_status \<noteq> SAHARA_STATUS_SUCCESS then Inl host_status
      else if version < supported then Inl SAHARA_NAK_INVALID_HOST_PROTOCOL
      else if version > SAHARA_VERSION_MAJOR \<or> version < SAHARA_VERSION_MAJOR_SUPPORTED then Inl SAHARA_NAK_PROTOCOL_MISMATCH
      else if len \<noteq> SAHARA_PACKET_HELLO_RESP_LENGTH_V1 then
        if mode < SAHARA_MODE_LAST then Inr (Some mode) else Inl SAHARA_NAK_INVALID_HOST_MODE
      else Inr None)"

definition enter_mode :: "('h, 'p) sahara_env_scheme \<Rightarrow> (('h, 'a) sahara_scheme, unit) boot" where
  "enter_mode E =
     bnd (gets (\<lambda>s. (sahara_mode s, sahara_mem_debug_enabled s))) (\<lambda>(mode, enabled).
       if mode = SAHARA_MODE_MEMORY_DEBUG then
         if \<not> enabled then boot_sahara_handle_end_image_tx E SAHARA_NAK_MEMORY_DEBUG_NOT_SUPPORTED
         else with_debug E (\<lambda>M.
           if \<not> mem_debug_supported M then boot_sahara_handle_end_image_tx E SAHARA_NAK_MEMORY_DEBUG_NOT_SUPPORTED
           else boot_sahara_handle_memory_debug E)
       else if mode = SAHARA_MODE_COMMAND then boot_sahara_handle_cmd_ready E
       else boot_sahara_receive_image E)"

definition boot_sahara_handle_hello_resp :: "('h, 'p) sahara_env_scheme \<Rightarrow> u32 \<Rightarrow> (('h, 'a) sahara_scheme, unit) boot" where
  "boot_sahara_handle_hello_resp E len =
     bnd (field32 E 4) (\<lambda>plen. bnd (field32 E 8) (\<lambda>version. bnd (field32 E 12) (\<lambda>supported.
     bnd (field32 E 16) (\<lambda>host_status. bnd (field32 E 20) (\<lambda>mode.
       case hello_resp_verdict len plen version supported host_status mode of
         Inl status \<Rightarrow> boot_sahara_handle_end_image_tx E status
       | Inr m \<Rightarrow>
         thn (case m of None \<Rightarrow> ret () | Some mode' \<Rightarrow> modify (sahara_mode_update (\<lambda>_. mode'))) (enter_mode E))))))"

subsection \<open>Done and reset\<close>

fun done_resp_loop :: "('h, 'p) sahara_env_scheme \<Rightarrow> nat \<Rightarrow> (('h, 'a) sahara_scheme, unit) boot" where
  "done_resp_loop E 0 = fatal Out_of_fuel"
| "done_resp_loop E (Suc n) =
     bnd (send_packet E) (\<lambda>(tx_length, err, complete).
       if err = BULK_ERR_TIMEOUT then thn (set_state SAHARA_STATE_WAIT_RESET) (boot_sahara_reset E)
       else if err \<noteq> 0 \<or> \<not> complete then done_resp_loop E n
       else ret ())"

definition boot_sahara_handle_done_resp :: "('h, 'p) sahara_env_scheme \<Rightarrow> (('h, 'a) sahara_scheme, unit) boot" where
  "boot_sahara_handle_done_resp E =
     bnd (gets sahara_mode) (\<lambda>mode.
     thn (put_packet E [SAHARA_DONE_RESP_ID, 12, mode])
     (thn (done_resp_loop E (rounds E))
     (bnd (gets sahara_mode) (\<lambda>mode'. whenb (mode' = SAHARA_MODE_IMAGE_TX_COMPLETE) (boot_sahara_exit E)))))"

definition boot_sahara_handle_done :: "('h, 'p) sahara_env_scheme \<Rightarrow> u32 \<Rightarrow> (('h, 'a) sahara_scheme, unit) boot" where
  "boot_sahara_handle_done E len = with_packet E len 8
     (thn (boot_sahara_handle_done_resp E) (modify (sahara_done_update (\<lambda>_. True))))"

definition boot_sahara_handle_reset_resp :: "('h, 'p) sahara_env_scheme \<Rightarrow> (('h, 'a) sahara_scheme, unit) boot" where
  "boot_sahara_handle_reset_resp E =
     thn (put_packet E [SAHARA_RESET_RESP_ID, 8]) (thn (send_packet E) (boot_sahara_reset E))"

definition boot_sahara_handle_reset :: "('h, 'p) sahara_env_scheme \<Rightarrow> u32 \<Rightarrow> (('h, 'a) sahara_scheme, unit) boot" where
  "boot_sahara_handle_reset E len = with_packet E len 8 (boot_sahara_handle_reset_resp E)"

subsection \<open>Memory reads\<close>

definition boot_sahara_handle_memory_64bits_read :: "('h, 'p) sahara_env_scheme \<Rightarrow> u32 \<Rightarrow> (('h, 'a) sahara_scheme, unit) boot" where
  "boot_sahara_handle_memory_64bits_read E len = with_packet E len 24 (with_debug E (\<lambda>M.
     bnd (field64 E 8) (\<lambda>addr. bnd (field64 E 16) (\<lambda>size.
     bnd (gets (\<lambda>s. (mem_debug_verify_addr M addr size (memory s, hw s), mem_debug_is_restricted_addr M addr size (memory s, hw s))))
     (\<lambda>(valid, restricted).
       if \<not> valid then boot_sahara_handle_end_image_tx E SAHARA_NAK_INVALID_MEMORY_READ
       else if restricted then boot_sahara_handle_end_image_tx E SAHARA_NAK_INVALID_MEMORY_READ
       else bnd (boot_sahara_handle_tx E addr (ucast size)) (\<lambda>(tx_length, err).
         bnd (field64 E 16) (\<lambda>size'. end_or E (tx_status err (ucast tx_length = size')) (ret ()))))))))"

text \<open>
  The loop over a restricted range, in pieces copied to a buffer. A piece that cannot be
  copied is reported, and then the null buffer is still handed to the driver.
\<close>

function restricted_loop ::
  "('h, 'p) sahara_env_scheme \<Rightarrow> 'h boot_sahara_mem_debug_tbl \<Rightarrow> u32 \<Rightarrow> u32 \<Rightarrow> (('h, 'a) sahara_scheme, u32) boot" where
  "restricted_loop E M addr left =
     (if left = 0 then ret SAHARA_STATUS_SUCCESS
      else
        let size = (if left > SAHARA_MAX_MEMORY_DATA_SIZE_IN_BYTES then SAHARA_MAX_MEMORY_DATA_SIZE_IN_BYTES else left)
        in bnd (client_call (mem_debug_copy_restricted M (ucast addr) (ucast size))) (\<lambda>buf.
           thn (modify (sahara_mem_debug_buffer_update (\<lambda>_. buf)))
           (thn (whenb (buf = 0) (boot_sahara_handle_end_image_tx E SAHARA_NAK_INVALID_MEMORY_READ))
           (bnd (boot_sahara_handle_tx E buf size) (\<lambda>(tx_length, err).
             let status = tx_status err (tx_length = size)
             in if status \<noteq> SAHARA_STATUS_SUCCESS then ret status
                else if buf = 0 then ret SAHARA_NAK_INVALID_MEMORY_READ
                else restricted_loop E M (addr + size) (left - size))))))"
  by pat_completeness auto
termination
proof (relation "measure (\<lambda>(E, M, addr, left). unat left)", goal_cases)
  case (2 E M addr left size)
  then have "size \<noteq> 0" "size \<le> left" by (auto split: if_splits)
  then show ?case using unat_minus_less [of size left] by simp
qed simp

declare restricted_loop.simps [simp del]

definition boot_sahara_handle_memory_read :: "('h, 'p) sahara_env_scheme \<Rightarrow> u32 \<Rightarrow> (('h, 'a) sahara_scheme, unit) boot" where
  "boot_sahara_handle_memory_read E len = with_packet E len 16 (with_debug E (\<lambda>M.
     bnd (field32 E 8) (\<lambda>addr. bnd (field32 E 12) (\<lambda>size.
     bnd (gets (\<lambda>s. (mem_debug_verify_addr M (ucast addr) (ucast size) (memory s, hw s),
                     mem_debug_is_restricted_addr M (ucast addr) (ucast size) (memory s, hw s)))) (\<lambda>(valid, restricted).
       if \<not> valid then boot_sahara_handle_end_image_tx E SAHARA_NAK_INVALID_MEMORY_READ
       else bnd (if restricted then restricted_loop E M addr size
                 else bnd (boot_sahara_handle_tx E (ucast addr) size) (\<lambda>(tx_length, err).
                   bnd (field32 E 12) (\<lambda>size'. ret (tx_status err (tx_length = size'))))) (\<lambda>status.
         end_or E status (ret ())))))))"

subsection \<open>Commands\<close>

definition boot_sahara_handle_cmd_switch_mode :: "('h, 'p) sahara_env_scheme \<Rightarrow> u32 \<Rightarrow> (('h, 'a) sahara_scheme, unit) boot" where
  "boot_sahara_handle_cmd_switch_mode E len = with_packet E len 12
     (bnd (field32 E 8) (\<lambda>mode. thn (modify (sahara_mode_update (\<lambda>_. mode))) (set_state SAHARA_STATE_WAIT_HELLO_RESP)))"

definition boot_sahara_handle_cmd_exec_resp :: "('h, 'p) sahara_env_scheme \<Rightarrow> (('h, 'a) sahara_scheme, unit) boot" where
  "boot_sahara_handle_cmd_exec_resp E =
     bnd (gets (\<lambda>s. (sahara_cmd_exec_client_command s, sahara_cmd_exec_data_length s))) (\<lambda>(cmd, data_length).
     thn (put_packet E [SAHARA_CMD_EXEC_RESP_ID, 16, cmd, data_length])
     (bnd (send_packet E) (\<lambda>(tx_length, err, complete).
       end_or E (tx_status err complete)
         (bnd (gets sahara_cmd_exec_data_length) (\<lambda>n. whenb (n > 0) (set_state SAHARA_STATE_WAIT_CMD_EXEC_DATA))))))"

definition boot_sahara_handle_cmd_exec :: "('h, 'p) sahara_env_scheme \<Rightarrow> u32 \<Rightarrow> (('h, 'a) sahara_scheme, unit) boot" where
  "boot_sahara_handle_cmd_exec E len = with_packet E len 12
     (bnd (field32 E 8) (\<lambda>cmd. with_dispatch
     (bnd (client_call (exec_cmd E cmd)) (\<lambda>(data, data_length, status).
     bnd (field32 E 8) (\<lambda>cmd'.
     thn (modify (\<lambda>s. s\<lparr>sahara_cmd_exec_data := data, sahara_cmd_exec_data_length := data_length,
            sahara_cmd_exec_client_command := cmd'\<rparr>))
      (end_or E status (boot_sahara_handle_cmd_exec_resp E)))))))"

definition boot_sahara_handle_cmd_exec_data :: "('h, 'p) sahara_env_scheme \<Rightarrow> u32 \<Rightarrow> (('h, 'a) sahara_scheme, unit) boot" where
  "boot_sahara_handle_cmd_exec_data E len = with_packet E len 12
     (bnd (field32 E 8) (\<lambda>cmd.
     bnd (gets (\<lambda>s. (sahara_cmd_exec_client_command s, sahara_cmd_exec_data s, sahara_cmd_exec_data_length s))) (\<lambda>(last_cmd, data, n).
       if cmd \<noteq> last_cmd then boot_sahara_handle_end_image_tx E SAHARA_NAK_EXEC_DATA_INVALID_CLIENT_CMD
       else thn (boot_sahara_log_packet_buffer data n SAHARA_PACKET_TRANSMIT)
         (bnd (boot_sahara_handle_tx E data n) (\<lambda>(tx_length, err).
           bnd (gets sahara_cmd_exec_data_length) (\<lambda>n'.
             end_or E (tx_status err (tx_length = n')) (set_state SAHARA_STATE_WAIT_CMD_EXEC)))))))"

subsection \<open>The loop over the packets\<close>

text \<open>The states in which a packet is handled, with its handler; \<open>None\<close> where it is not expected.\<close>

definition packet_handler ::
  "('h, 'p) sahara_env_scheme \<Rightarrow> u32 \<Rightarrow> boot_sahara_state \<Rightarrow> u32 \<Rightarrow> (('h, 'a) sahara_scheme, unit) boot option" where
  "packet_handler E cmd st len =
     (if cmd = SAHARA_HELLO_RESP_ID \<and> st = SAHARA_STATE_WAIT_HELLO_RESP then Some (boot_sahara_handle_hello_resp E len)
      else if cmd = SAHARA_DONE_ID \<and> st = SAHARA_STATE_WAIT_DONE then Some (boot_sahara_handle_done E len)
      else if cmd = SAHARA_RESET_ID \<and> st \<in> {SAHARA_STATE_WAIT_HELLO_RESP, SAHARA_STATE_WAIT_RESET,
          SAHARA_STATE_WAIT_MEMORY_READ, SAHARA_STATE_WAIT_CMD_EXEC} then Some (boot_sahara_handle_reset E len)
      else if cmd = SAHARA_MEMORY_READ_ID \<and> st = SAHARA_STATE_WAIT_MEMORY_READ then Some (boot_sahara_handle_memory_read E len)
      else if cmd = SAHARA_MEMORY_READ_64BITS_ID \<and> st = SAHARA_STATE_WAIT_MEMORY_READ then
        Some (boot_sahara_handle_memory_64bits_read E len)
      else if cmd = SAHARA_CMD_SWITCH_MODE_ID \<and> st \<in> {SAHARA_STATE_WAIT_CMD_EXEC, SAHARA_STATE_WAIT_MEMORY_READ} then
        Some (boot_sahara_handle_cmd_switch_mode E len)
      else if cmd = SAHARA_CMD_EXEC_ID \<and> st = SAHARA_STATE_WAIT_CMD_EXEC then Some (boot_sahara_handle_cmd_exec E len)
      else if cmd = SAHARA_CMD_EXEC_DATA_ID \<and> st = SAHARA_STATE_WAIT_CMD_EXEC_DATA then
        Some (boot_sahara_handle_cmd_exec_data E len)
      else None)"

text \<open>One round: a packet is received and handled, and the greeting is sent where it is due.\<close>

definition process_packet :: "('h, 'p) sahara_env_scheme \<Rightarrow> (('h, 'a) sahara_scheme, unit) boot" where
  "process_packet E =
     bnd (boot_sahara_handle_rx E (sahara_packet_buffer E) SAHARA_MAX_PACKET_SIZE_IN_BYTES SAHARA_MAX_PACKET_SIZE_IN_BYTES
       SAHARA_PACKET_TYPE_COMMAND) (\<lambda>(len, err).
     thn (whenb (len > 0)
       (thn (boot_sahara_log_packet_buffer (sahara_packet_buffer E) len SAHARA_PACKET_RECEIVE)
       (bnd (gets (\<lambda>s. (ucast (memory s (sahara_packet_buffer E)), sahara_state s))) (\<lambda>(cmd, st).
         case packet_handler E cmd st len of
           Some handle \<Rightarrow> handle
         | None \<Rightarrow> whenb (st \<noteq> SAHARA_STATE_WAIT_HELLO_RESP) (boot_sahara_handle_end_image_tx E SAHARA_NAK_INVALID_CMD)))))
      (bnd (gets sahara_state) (\<lambda>st. whenb (st = SAHARA_STATE_WAIT_HELLO_RESP) (boot_sahara_handle_hello E))))"

fun process_packets_loop :: "('h, 'p) sahara_env_scheme \<Rightarrow> nat \<Rightarrow> (('h, 'a) sahara_scheme, unit) boot" where
  "process_packets_loop E 0 = fatal Out_of_fuel"
| "process_packets_loop E (Suc n) =
     bnd (gets sahara_done) (\<lambda>d. if d then ret () else thn (process_packet E) (process_packets_loop E n))"

definition boot_sahara_process_packets :: "('h, 'p) sahara_env_scheme \<Rightarrow> (('h, 'a) sahara_scheme, unit) boot" where
  "boot_sahara_process_packets E = thn (process_packets_loop E (rounds E)) (set_state SAHARA_STATE_ENTRY)"

subsection \<open>The entry\<close>

text \<open>
  The image information of the client as the initialisation clears it; \<open>None\<close> for a kind of
  image that is not known.
\<close>

definition clear_image_info :: "('h, 'p) sahara_env_scheme \<Rightarrow> (('h, 'a) sahara_scheme, bool) boot" where
  "clear_image_info E =
     bnd (gets (\<lambda>s. (expected_image_type s, sahara_if_mode s))) (\<lambda>(typ, mode).
       if typ = SAHARA_IMAGE_TYPE_BINARY then
         thn (modify (\<lambda>s. s\<lparr>sahara_binary_image_info := True, binary_image_id := 0\<rparr>))
          (if bin_image_header E = 0 then ret False
           else thn (modify (memory_update (qmemset (bin_image_header E) 0 (ucast (get_bin_header_size E))))) (ret True))
       else if typ = SAHARA_IMAGE_TYPE_ELF then
         if prog_headers E = 0 then ret False
         else thn (modify (\<lambda>s. s\<lparr>elf_image_id := 0, elf_hash_table := 0, elf_shared_seg_index := 0, elf_entry_address := 0,
                memory := qmemset (prog_headers E) 0 1624 (qmemset (elf_image_header E) 0 52 (memory s))\<rparr>)) (ret True)
       else ret (mode = SAHARA_MODE_MEMORY_DEBUG))"

definition init_tables :: "('h, 'p) sahara_env_scheme \<Rightarrow> (('h, 'a) sahara_scheme, bool) boot" where
  "init_tables E =
     thn (modify (\<lambda>s. s\<lparr>sahara_dispatch_tbl := True\<rparr>))
     (if \<not> dispatch_complete E then ret False
      else
        thn (modify (\<lambda>s. s\<lparr>is_secure := auth_enabled E, sahara_auth_tbl := (auth_tbl E \<noteq> None)\<rparr>))
        (bnd (gets (\<lambda>s. (sahara_if_mode s, is_secure s, expected_image_type s))) (\<lambda>(mode, secure, typ).
          if auth_tbl E = None \<and> mode \<noteq> SAHARA_MODE_MEMORY_DEBUG then ret False
          else
            thn (if secure \<and> typ = SAHARA_IMAGE_TYPE_ELF then modify (sahara_auth_elf_update (\<lambda>_. True))
                 else whenb (secure \<and> typ = SAHARA_IMAGE_TYPE_BINARY) (modify (sahara_auth_bin_update (\<lambda>_. True))))
            (if mem_debug_tbl E = None then thn (modify (sahara_mem_debug_enabled_update (\<lambda>_. False))) (ret True)
             else if \<not> mem_debug_complete E then ret False
             else thn (modify (sahara_mem_debug_enabled_update (\<lambda>_. True))) (ret True)))))"

definition boot_sahara_init :: "('h, 'p) sahara_env_scheme \<Rightarrow> (('h, 'a) sahara_scheme, bool) boot" where
  "boot_sahara_init E =
     bnd (bnd (init_tables E) (\<lambda>ok. if \<not> ok then ret False else
          bnd (clear_image_info E) (\<lambda>ok2. if \<not> ok2 then ret False else
            thn (modify (\<lambda>s. s\<lparr>image_rx_complete := False, sahara_mode := sahara_if_mode s,
                   sahara_state := SAHARA_STATE_ENTRY, sahara_done := False\<rparr>))
             (bnd (client_call (bulk_init E)) (\<lambda>err. ret (err = BULK_SUCCESS)))))) (\<lambda>status.
       thn (modify (sahara_if_status_update (\<lambda>_. if status then SAHARA_STATUS_SUCCESS else SAHARA_NAK_TARGET_INIT_FAILURE)))
         (ret status))"

definition boot_sahara_entry :: "('h, 'p) sahara_env_scheme \<Rightarrow> (('h, 'a) sahara_scheme, bool) boot" where
  "boot_sahara_entry E =
     bnd (boot_sahara_init E) (\<lambda>status.
       thn (whenb status
         (thn (boot_sahara_handle_hello E) (thn (boot_sahara_process_packets E)
           (modify (\<lambda>s. s\<lparr>sahara_auth_tbl := False, sahara_auth_elf := False, sahara_auth_bin := False\<rparr>)))))
        (ret status))"

end
