(* ===== verification/Sahara_Safety.thy ===== *)
theory Sahara_Safety
  imports Sahara
begin

text \<open>
  Safety of the Sahara protocol, whatever the host sends and in whatever order: memory changes
  only in the packet buffer, in the client's own data and in address ranges the client accepts
  for an image, and only ranges the client lets out are handed to the driver. The relation
  between the states before and after a computation is a frame, so the handlers are treated one
  by one; a session is any number of rounds.
\<close>

lemma ucast_there_back [simp]: "ucast (ucast n :: u64) = n" for n :: u32
  by (rule bit_word_eqI) (simp add: bit_simps)

subsection \<open>The contract of the client\<close>

text \<open>
  A function of the client keeps the invariant \<open>J\<close> of its state, does not extend the range
  \<open>win\<close> the driver is still receiving to, and changes memory only in the client's data \<open>C\<close>.
\<close>

definition client_fn :: "(u64 \<Rightarrow> bool) \<Rightarrow> ('h \<Rightarrow> bool) \<Rightarrow> ('h \<Rightarrow> u64 \<Rightarrow> bool) \<Rightarrow> (mem \<times> 'h \<Rightarrow> 'r \<times> mem \<times> 'h) \<Rightarrow> bool" where
  "client_fn C J win f \<longleftrightarrow> (\<forall>m h r m' h'. J h \<longrightarrow> f (m, h) = (r, m', h') \<longrightarrow>
     J h' \<and> (\<forall>x. win h' x \<longrightarrow> win h x) \<and> (\<forall>x. m' x \<noteq> m x \<longrightarrow> C x))"

definition auth_client :: "(u64 \<Rightarrow> bool) \<Rightarrow> ('h \<Rightarrow> bool) \<Rightarrow> ('h \<Rightarrow> u64 \<Rightarrow> bool) \<Rightarrow> 'h boot_sahara_auth_tbl \<Rightarrow> bool" where
  "auth_client C J win A \<longleftrightarrow> client_fn C J win (init_hash A) \<and> (\<forall>p n. client_fn C J win (update_hash A p n)) \<and>
     client_fn C J win (finalize_hash A) \<and> (\<forall>p i. client_fn C J win (compare_hash A p i)) \<and>
     (\<forall>p n q. client_fn C J win (compute_hash_offsets A p n q)) \<and> (\<forall>p. client_fn C J win (authenticate A p))"

text \<open>
  The ranges \<open>S\<close> that may leave: what the memory debug table verifies, what it copies a
  restricted range to, the responses of commands, and packets of at most 48 bytes.
\<close>

definition debug_client :: "(u64 \<Rightarrow> bool) \<Rightarrow> (u64 \<Rightarrow> u32 \<Rightarrow> bool) \<Rightarrow> ('h \<Rightarrow> bool) \<Rightarrow> ('h \<Rightarrow> u64 \<Rightarrow> bool) \<Rightarrow> 'h boot_sahara_mem_debug_tbl \<Rightarrow> bool" where
  "debug_client C S J win M \<longleftrightarrow> client_fn C J win (mem_debug_init M) \<and>
     (\<forall>a n. client_fn C J win (mem_debug_copy_restricted M a n)) \<and>
     (\<forall>a n m h. J h \<longrightarrow> mem_debug_verify_addr M a n (m, h) \<longrightarrow> S a (ucast n)) \<and>
     (\<forall>a n m h. J h \<longrightarrow> mem_debug_is_restricted_addr M a n (m, h) \<longrightarrow>
        (\<forall>b k m h. J h \<longrightarrow> S (fst (mem_debug_copy_restricted M b k (m, h))) (ucast k)))"

definition driver_ok :: "('h, 'p) sahara_env_scheme \<Rightarrow> ('h \<Rightarrow> bool) \<Rightarrow> ('h \<Rightarrow> u64 \<Rightarrow> bool) \<Rightarrow> bool" where
  "driver_ok E J win \<longleftrightarrow>
     (\<forall>p n typ m h ev m' h'. J h \<longrightarrow> rx_bulk E p n typ (m, h) = (ev, m', h') \<longrightarrow>
        J h' \<and> (\<forall>x. win h' x \<or> m' x \<noteq> m x \<longrightarrow> unat (x - p) < unat n)) \<and>
     (\<forall>p n m h ev h'. J h \<longrightarrow> tx_bulk E p n (m, h) = (ev, h') \<longrightarrow> J h' \<and> (\<forall>x. \<not> win h' x)) \<and>
     (\<forall>m h ev m' h'. J h \<longrightarrow> bulk_poll E (m, h) = (ev, m', h') \<longrightarrow>
        J h' \<and> (\<forall>x. win h' x \<or> m' x \<noteq> m x \<longrightarrow> win h x)) \<and>
     (\<forall>h. J h \<longrightarrow> J (bulk_shutdown E h) \<and> (\<forall>x. win (bulk_shutdown E h) x \<longrightarrow> win h x))"

abbreviation (input) in_packet :: "('h, 'p) sahara_env_scheme \<Rightarrow> u64 \<Rightarrow> bool" where
  "in_packet E x \<equiv> unat (x - sahara_packet_buffer E) < 1024"

definition sahara_client ::
  "('h, 'p) sahara_env_scheme \<Rightarrow> (u64 \<Rightarrow> bool) \<Rightarrow> (u64 \<Rightarrow> u32 \<Rightarrow> bool) \<Rightarrow> ('h \<Rightarrow> bool) \<Rightarrow> ('h \<Rightarrow> u64 \<Rightarrow> bool) \<Rightarrow> bool" where
  "sahara_client E C S J win \<longleftrightarrow> \<not> elf_optimized_segment_load E \<and> driver_ok E J win \<and>
     (\<forall>x. C x \<longrightarrow> \<not> in_packet E x) \<and>
     client_fn C J win (bulk_init E) \<and> client_fn C J win (image_load_post_proc E) \<and>
     (\<forall>cmd. client_fn C J win (exec_cmd E cmd)) \<and>
     (\<forall>M. mem_debug_tbl E = Some M \<longrightarrow> debug_client C S J win M) \<and>
     (\<forall>cmd m h. J h \<longrightarrow> S (fst (fst (exec_cmd E cmd (m, h)))) (fst (snd (fst (exec_cmd E cmd (m, h)))))) \<and>
     (\<forall>n \<le> 48. S (sahara_packet_buffer E) n)"

text \<open>Where a session may change memory; \<open>B\<close> tells whether it may receive an image.\<close>

definition sahara_area :: "('h, 'p) sahara_env_scheme \<Rightarrow> (u64 \<Rightarrow> bool) \<Rightarrow> bool \<Rightarrow> u64 \<Rightarrow> bool" where
  "sahara_area E C B x \<longleftrightarrow> in_packet E x \<or> C x \<or> B \<and> (\<exists>a n. valid_address_range E a n 1 \<and> unat (x - a) < unat n)"

definition binary_client ::
  "('h, 'p) sahara_env_scheme \<Rightarrow> (u64 \<Rightarrow> bool) \<Rightarrow> ('h \<Rightarrow> bool) \<Rightarrow> ('h \<Rightarrow> u64 \<Rightarrow> bool) \<Rightarrow> bool" where
  "binary_client E C J win \<longleftrightarrow> (\<forall>A. auth_tbl E = Some A \<longrightarrow> auth_client (sahara_area E C True) J win A) \<and>
     (\<forall>x. unat (x - bin_image_header E) < unat (ucast (get_bin_header_size E) :: u32) \<longrightarrow> C x)"

subsection \<open>The frame of a session\<close>

text \<open>
  A session expects no ELF image; when it expects a binary one (\<open>B\<close>), the header and the
  functions that authenticate the image keep to the area. What is left of the last command is one of the ranges that may leave.
\<close>

definition session ::
  "('h, 'p) sahara_env_scheme \<Rightarrow> (u64 \<Rightarrow> bool) \<Rightarrow> (u64 \<Rightarrow> u32 \<Rightarrow> bool) \<Rightarrow> ('h \<Rightarrow> bool) \<Rightarrow> ('h \<Rightarrow> u64 \<Rightarrow> bool) \<Rightarrow> bool \<Rightarrow> ('h, 'a) sahara_scheme \<Rightarrow> bool" where
  "session E C S J win B s \<longleftrightarrow> J (hw s) \<and> (\<forall>x. win (hw s) x \<longrightarrow> sahara_area E C B x) \<and>
     expected_image_type s \<noteq> SAHARA_IMAGE_TYPE_ELF \<and> \<not> sahara_parallel_init s \<and> \<not> sahara_parallel_hash s \<and>
     (expected_image_type s = SAHARA_IMAGE_TYPE_BINARY \<longrightarrow> B \<and> binary_client E C J win) \<and>
     S (sahara_cmd_exec_data s) (sahara_cmd_exec_data_length s)"

definition safe ::
  "('h, 'p) sahara_env_scheme \<Rightarrow> (u64 \<Rightarrow> bool) \<Rightarrow> (u64 \<Rightarrow> u32 \<Rightarrow> bool) \<Rightarrow> ('h \<Rightarrow> bool) \<Rightarrow> ('h \<Rightarrow> u64 \<Rightarrow> bool) \<Rightarrow> bool \<Rightarrow>
   ('h, 'a) sahara_scheme \<Rightarrow> ('h, 'a) sahara_scheme \<Rightarrow> bool" where
  "safe E C S J win B s t \<longleftrightarrow> (session E C S J win B s \<longrightarrow> session E C S J win B t \<and>
     (\<forall>x. memory t x \<noteq> memory s x \<longrightarrow> sahara_area E C B x) \<and>
     (\<exists>us. transmitted t = us @ transmitted s \<and> (\<forall>(a, n) \<in> set us. S a n)))"

interpretation sahara: frame "safe E C S J win B" for E :: "('h, 'p) sahara_env_scheme" and C S J win B
proof
  show "safe E C S J win B s s" for s :: "('h, 'a) sahara_scheme" by (simp add: safe_def)
  show "safe E C S J win B s u" if "safe E C S J win B s t" "safe E C S J win B t u" for s t u :: "('h, 'a) sahara_scheme"
  proof (unfold safe_def, intro impI)
    assume s: "session E C S J win B s"
    with that(1) obtain us where t: "session E C S J win B t" "\<forall>x. memory t x \<noteq> memory s x \<longrightarrow> sahara_area E C B x"
      "transmitted t = us @ transmitted s" "\<forall>(a, n) \<in> set us. S a n" unfolding safe_def by blast
    with that(2) obtain vs where u: "session E C S J win B u" "\<forall>x. memory u x \<noteq> memory t x \<longrightarrow> sahara_area E C B x"
      "transmitted u = vs @ transmitted t" "\<forall>(a, n) \<in> set vs. S a n" unfolding safe_def by blast
    have "transmitted u = (vs @ us) @ transmitted s" "\<forall>(a, n) \<in> set (vs @ us). S a n" using t u by auto
    then show "session E C S J win B u \<and> (\<forall>x. memory u x \<noteq> memory s x \<longrightarrow> sahara_area E C B x) \<and>
        (\<exists>us. transmitted u = us @ transmitted s \<and> (\<forall>(a, n) \<in> set us. S a n))"
      using t(2) u(1,2) by (metis (no_types, lifting))
  qed
qed

text \<open>Knowledge about the state in which a value was read can be used in what follows.\<close>

lemma safe_gets: "(\<And>s. session E C S J win B s \<Longrightarrow> keeps (safe E C S J win B) (g (f s))) \<Longrightarrow> keeps (safe E C S J win B) (bnd (gets f) g)"
  by (rule keepsI) (auto simp: safe_def keeps_def)

lemma safe_modify:
  assumes "\<And>s. hw (f s) = hw s" and "\<And>s. expected_image_type (f s) = expected_image_type s"
    and "\<And>s. sahara_parallel_init (f s) = sahara_parallel_init s" and "\<And>s. sahara_parallel_hash (f s) = sahara_parallel_hash s"
    and "\<And>s. sahara_cmd_exec_data (f s) = sahara_cmd_exec_data s"
    and "\<And>s. sahara_cmd_exec_data_length (f s) = sahara_cmd_exec_data_length s"
    and "\<And>s. transmitted (f s) = transmitted s" and "\<And>s x. memory (f s) x \<noteq> memory s x \<Longrightarrow> sahara_area E C B x"
  shows "keeps (safe E C S J win B) (modify f)"
  by (rule keepsI) (use assms in \<open>auto simp: safe_def session_def\<close>)

lemma safe_mem: "(\<And>m x. f m x \<noteq> m x \<Longrightarrow> sahara_area E C B x) \<Longrightarrow> keeps (safe E C S J win B) (modify (memory_update f))"
  by (rule safe_modify) simp_all

lemma safe_seq:
  "m s = (Inr r, t) \<Longrightarrow> safe E C S J win B s t \<Longrightarrow> keeps (safe E C S J win B) (g r) \<Longrightarrow> safe E C S J win B s (final (bnd m g) s)"
  by (simp add: bnd_Inr) (rule sahara.rel_trans, assumption, erule keepsD)

lemma driver_rx:
  assumes "driver_ok E J win" and "J h" and "rx_bulk E p n typ (m, h) = (ev, m', h')"
  shows "J h' \<and> (\<forall>x. win h' x \<or> m' x \<noteq> m x \<longrightarrow> unat (x - p) < unat n)"
  using assms(1) [unfolded driver_ok_def, THEN conjunct1] assms(2,3) by blast

lemma driver_tx:
  assumes "driver_ok E J win" and "J h" and "tx_bulk E p n (m, h) = (ev, h')"
  shows "J h' \<and> (\<forall>x. \<not> win h' x)"
  using assms(1) [unfolded driver_ok_def, THEN conjunct2, THEN conjunct1] assms(2,3) by blast

lemma driver_poll:
  assumes "driver_ok E J win" and "J h" and "bulk_poll E (m, h) = (ev, m', h')"
  shows "J h' \<and> (\<forall>x. win h' x \<or> m' x \<noteq> m x \<longrightarrow> win h x)"
  using assms(1) [unfolded driver_ok_def, THEN conjunct2, THEN conjunct2, THEN conjunct1] assms(2,3) by blast

lemma driver_shutdown:
  assumes "driver_ok E J win" and "J h"
  shows "J (bulk_shutdown E h) \<and> (\<forall>x. win (bulk_shutdown E h) x \<longrightarrow> win h x)"
  using assms(1) [unfolded driver_ok_def, THEN conjunct2, THEN conjunct2, THEN conjunct2] assms(2) by blast

lemma client_driver: "sahara_client E C S J win \<Longrightarrow> driver_ok E J win"
  by (simp add: sahara_client_def)

lemma safe_first:
  "m s = (Inr r, t) \<Longrightarrow> safe E C S J win B s t \<Longrightarrow> safe E C S J win B t (final n t) \<Longrightarrow> safe E C S J win B s (final (thn m n) s)"
  by (simp add: thn_Inr) (rule sahara.rel_trans)

lemma client_area: "client_fn C J win f \<Longrightarrow> client_fn (sahara_area E C B) J win f"
  unfolding client_fn_def sahara_area_def by blast

lemma safe_call_area:
  fixes g :: "'r \<Rightarrow> (('h, 'a) sahara_scheme, 'b) boot"
  assumes "client_fn (sahara_area E C B) J win f"
    and "\<And>m h. J h \<Longrightarrow> keeps (safe E C S J win B) (g (fst (f (m, h))))"
  shows "keeps (safe E C S J win B) (bnd (client_call f) g)"
proof (rule keepsI)
  fix s :: "('h, 'a) sahara_scheme"
  obtain r m h where f: "f (memory s, hw s) = (r, m, h)" by (metis prod_cases3)
  let ?t = "s\<lparr>memory := m, hw := h\<rparr>"
  have "safe E C S J win B s (final (bnd (client_call f) g) s)" if s: "session E C S J win B s"
  proof -
    have j: "J (hw s)" using s by (simp add: session_def)
    then have "J h" "\<forall>x. win h x \<longrightarrow> win (hw s) x" "\<forall>x. m x \<noteq> memory s x \<longrightarrow> sahara_area E C B x"
      using assms(1) f unfolding client_fn_def by blast+
    then have "safe E C S J win B s ?t" using s by (auto simp: safe_def session_def)
    moreover have "keeps (safe E C S J win B) (g r)" using assms(2) [OF j, of "memory s"] f by simp
    ultimately show ?thesis by (intro safe_seq [of _ _ r ?t]) (simp_all add: f client_call_def)
  qed
  then show "safe E C S J win B s (final (bnd (client_call f) g) s)" by (auto simp: safe_def)
qed

lemmas safe_call = safe_call_area [OF client_area]

lemma safe_call_unit: "client_fn C J win f \<Longrightarrow> keeps (safe E C S J win B) (client_call f)"
  using safe_call [of C J win f E S B ret] by simp

lemma safe_pair: "(\<And>a b. keeps R (f a b)) \<Longrightarrow> keeps R (case x of (a, b) \<Rightarrow> f a b)"
  by (cases x) simp

lemma safe_dispatch: "keeps (safe E C S J win B) m \<Longrightarrow> keeps (safe E C S J win B) (with_dispatch m)"
  unfolding with_dispatch_def by (intro sahara.keeps_bnd keeps_if) simp_all

lemma safe_function: "(\<And>g. p = Some g \<Longrightarrow> keeps (safe E C S J win B) (f g)) \<Longrightarrow> keeps (safe E C S J win B) (with_function p f)"
  unfolding with_function_def by (intro keeps_option) simp_all

lemma safe_auth:
  "(\<And>A. auth_tbl E' = Some A \<Longrightarrow> keeps (safe E C S J win B) (f A)) \<Longrightarrow> keeps (safe E C S J win B) (with_auth E' f)"
  unfolding with_auth_def by (intro sahara.keeps_bnd keeps_option keeps_if) simp_all

lemmas safe_intros = sahara.keeps_bnd sahara.keeps_thn sahara.keeps_whenb keeps_if keeps_option safe_pair
  sahara.keeps_ret sahara.keeps_fatal sahara.keeps_gets safe_dispatch


subsection \<open>The driver\<close>

lemma safe_deliver: "keeps (safe E C S J win B) (deliver ev)"
  unfolding deliver_def boot_sahara_rx_cb_def boot_sahara_tx_cb_def
  by (cases ev; simp; rule bulk_event.exhaust [of "the ev"]; simp)
    (intro sahara.keeps_thn sahara.keeps_bnd safe_dispatch keeps_if safe_modify sahara.keeps_gets sahara.keeps_ret sahara.keeps_fatal; simp)+

lemma safe_poll:
  assumes "sahara_client E C S J win"
  shows "keeps (safe E C S J win B) (bnd (client_call (bulk_poll E)) deliver)"
proof (rule keepsI)
  fix s
  obtain ev m h where f: "bulk_poll E (memory s, hw s) = (ev, m, h)" by (metis prod_cases3)
  let ?t = "s\<lparr>memory := m, hw := h\<rparr>"
  have "safe E C S J win B s ?t"
  proof (unfold safe_def, intro impI)
    assume s: "session E C S J win B s"
    then have "J h" "\<forall>x. win h x \<or> m x \<noteq> memory s x \<longrightarrow> win (hw s) x"
      using driver_poll [OF client_driver [OF assms] _ f] by (simp_all add: session_def)
    with s show "session E C S J win B ?t \<and> (\<forall>x. memory ?t x \<noteq> memory s x \<longrightarrow> sahara_area E C B x) \<and>
        (\<exists>us. transmitted ?t = us @ transmitted s \<and> (\<forall>(a, n) \<in> set us. S a n))"
      by (auto simp: session_def)
  qed
  then show "safe E C S J win B s (final (bnd (client_call (bulk_poll E)) deliver) s)"
    by (intro safe_seq [of _ _ ev ?t]) (simp_all add: f client_call_def safe_deliver)
qed

lemma safe_poll_until: "sahara_client E C S J win \<Longrightarrow> keeps (safe E C S J win B) (poll_until c E n)"
  by (induction n) (auto intro!: safe_intros safe_poll)

lemma safe_log: "keeps (safe E C S J win B) (log_entry cmd len d)"
  unfolding log_entry_def by (rule safe_modify) (simp_all add: Let_def)

lemma safe_log_packet: "keeps (safe E C S J win B) (boot_sahara_log_packet_buffer p len d)"
  unfolding boot_sahara_log_packet_buffer_def by (intro safe_intros safe_log)

lemma safe_set_state: "keeps (safe E C S J win B) (set_state st)"
  unfolding set_state_def by (rule safe_modify) simp_all

lemma safe_rmb: "keeps (safe E C S J win B) (boot_sahara_ssa_update_rmb_length n st)"
  unfolding boot_sahara_ssa_update_rmb_length_def by (rule safe_modify; cases st; simp split: if_splits)

lemma safe_exit:
  assumes "sahara_client E C S J win"
  shows "keeps (safe E C S J win B) (boot_sahara_exit E)"
proof -
  have shut: "keeps (safe E C S J win B) (modify (\<lambda>s. s\<lparr>hw := bulk_shutdown E (hw s)\<rparr>))"
    by (rule keepsI) (use driver_shutdown [OF client_driver [OF assms]] in \<open>auto simp: safe_def session_def\<close>)
  then show ?thesis unfolding boot_sahara_exit_def by (intro safe_dispatch sahara.keeps_thn shut) (rule safe_modify, simp_all)
qed

lemma safe_reset: "sahara_client E C S J win \<Longrightarrow> keeps (safe E C S J win B) (boot_sahara_reset E)"
  unfolding boot_sahara_reset_def by (intro safe_intros safe_exit)

lemma rx_request_le: "rx_request E len max_length = Some n \<Longrightarrow> n \<le> max_length"
  by (auto simp: rx_request_def Let_def split: if_splits)

text \<open>A reception to a range of the session.\<close>

lemma safe_rx:
  assumes c: "sahara_client E C S J win"
    and range: "\<And>x. unat (x - p) < unat space \<Longrightarrow> sahara_area E C B x"
  shows "keeps (safe E C S J win B) (boot_sahara_handle_rx E p len space typ)"
proof -
  have start: "keeps (safe E C S J win B) (bnd (client_call (rx_bulk E p n typ)) deliver)" if n: "rx_request E len space = Some n" for n
  proof (rule keepsI)
    fix s
    obtain ev m h where f: "rx_bulk E p n typ (memory s, hw s) = (ev, m, h)" by (metis prod_cases3)
    let ?t = "s\<lparr>memory := m, hw := h\<rparr>"
    have le: "unat n \<le> unat space" using rx_request_le [OF n] by (simp add: word_le_nat_alt)
    have "safe E C S J win B s ?t"
    proof (unfold safe_def, intro impI)
      assume s: "session E C S J win B s"
      then have "J h" "\<forall>x. win h x \<or> m x \<noteq> memory s x \<longrightarrow> unat (x - p) < unat n"
        using driver_rx [OF client_driver [OF c] _ f] by (simp_all add: session_def)
      with s le range show "session E C S J win B ?t \<and> (\<forall>x. memory ?t x \<noteq> memory s x \<longrightarrow> sahara_area E C B x) \<and>
          (\<exists>us. transmitted ?t = us @ transmitted s \<and> (\<forall>(a, n) \<in> set us. S a n))"
        unfolding session_def by (simp, meson less_le_trans)
    qed
    then show "safe E C S J win B s (final (bnd (client_call (rx_bulk E p n typ)) deliver) s)"
      by (intro safe_seq [of _ _ ev ?t]) (simp_all add: f client_call_def safe_deliver)
  qed
  have no_hash: "keeps (safe E C S J win B) (bnd (gets (\<lambda>s. (sahara_parallel_hash s, sahara_parallel_buf s, sahara_parallel_size s)))
      (\<lambda>(par, buf, sz). whenb par (m buf sz)))" for m
    by (rule safe_gets) (simp add: session_def)
  show ?thesis
    unfolding boot_sahara_handle_rx_def
    by (intro no_hash start safe_intros safe_poll_until [OF c] safe_rmb safe_modify)
      (simp_all split: if_splits)
qed

subsection \<open>Transmissions\<close>

text \<open>While the driver receives nothing, waiting for it changes no memory.\<close>

definition quiet :: "('h \<Rightarrow> bool) \<Rightarrow> ('h \<Rightarrow> u64 \<Rightarrow> bool) \<Rightarrow> ('h, 'a) sahara_scheme \<Rightarrow> bool" where
  "quiet J win s \<longleftrightarrow> J (hw s) \<and> (\<forall>x. \<not> win (hw s) x)"

definition still :: "('h \<Rightarrow> bool) \<Rightarrow> ('h \<Rightarrow> u64 \<Rightarrow> bool) \<Rightarrow> ('h, 'a) sahara_scheme \<Rightarrow> ('h, 'a) sahara_scheme \<Rightarrow> bool" where
  "still J win s t \<longleftrightarrow> (quiet J win s \<longrightarrow> quiet J win t \<and> memory t = memory s)"

interpretation waiting: frame "still J win :: ('h, 'a) sahara_scheme \<Rightarrow> _" for J and win :: "'h \<Rightarrow> u64 \<Rightarrow> bool"
  by unfold_locales (auto simp: still_def)

lemma still_modify:
  "(\<And>s. hw (f s) = hw s) \<Longrightarrow> (\<And>s. memory (f s) = memory s) \<Longrightarrow> keeps (still J win) (modify f)"
  by (rule waiting.keeps_modify) (simp add: still_def quiet_def)

lemma still_deliver: "keeps (still J win) (deliver ev)"
  unfolding deliver_def boot_sahara_rx_cb_def boot_sahara_tx_cb_def with_dispatch_def
  by (cases ev; simp; rule bulk_event.exhaust [of "the ev"]; simp)
    (intro waiting.keeps_thn waiting.keeps_bnd keeps_if still_modify waiting.keeps_gets waiting.keeps_ret waiting.keeps_fatal; simp)+

lemma still_poll:
  assumes "driver_ok E J win"
  shows "keeps (still J win) (client_call (bulk_poll E))"
proof (rule keepsI)
  fix s :: "('a, 'c) sahara_scheme"
  obtain ev m h where f: "bulk_poll E (memory s, hw s) = (ev, m, h)" by (metis prod_cases3)
  then show "still J win s (final (client_call (bulk_poll E)) s)"
    using driver_poll [OF assms _ f] by (auto simp: still_def quiet_def client_call_def fun_eq_iff)
qed

lemma still_poll_until: "driver_ok E J win \<Longrightarrow> keeps (still J win) (poll_until c E n)"
proof (induction n)
  case (Suc n)
  then show ?case
    unfolding poll_until.simps with_dispatch_def
    by (intro waiting.keeps_thn waiting.keeps_bnd keeps_if still_poll still_deliver) simp_all
qed simp

text \<open>A range that may leave; memory is the same afterwards.\<close>

lemma safe_tx_memory:
  assumes c: "sahara_client E C S J win" and n: "S p n" and s: "session E C S J win B s"
  shows "safe E C S J win B s (final (boot_sahara_handle_tx E p n) s) \<and> memory (final (boot_sahara_handle_tx E p n) s) = memory s"
proof -
  let ?s = "s\<lparr>sahara_tx_bytes_read := 0, sahara_tx_err_code := BULK_SUCCESS, sahara_tx_complete := False\<rparr>"
  obtain ev h where f: "tx_bulk E p n (memory s, hw s) = (ev, h)" by fastforce
  let ?u = "transmitted_update ((#) (p, n)) ?s"
  let ?t = "?u\<lparr>hw := h\<rparr>"
  let ?call = "client_call (\<lambda>(m, h). case tx_bulk E p n (m, h) of (ev, h') \<Rightarrow> (ev, m, h'))"
  let ?wait = "thn (deliver ev) (thn (poll_until sahara_tx_complete E (rounds E))
    (gets (\<lambda>s. (sahara_tx_bytes_read s, sahara_tx_err_code s))))"
  have h: "J h" "\<forall>x. \<not> win h x" using driver_tx [OF client_driver [OF c] _ f] s by (simp_all add: session_def)
  then have st: "safe E C S J win B s ?t" "quiet J win ?t"
    using s n by (auto simp: safe_def session_def quiet_def)
  have w: "keeps (safe E C S J win B) ?wait" "keeps (still J win) ?wait"
    by (intro safe_intros safe_deliver safe_poll_until [OF c])
      (intro waiting.keeps_thn still_deliver still_poll_until [OF client_driver [OF c]] waiting.keeps_gets)
  show ?thesis
  proof (cases "sahara_dispatch_tbl s")
    case True
    have call: "?call ?u = (Inr ev, ?t)" using f by (simp add: client_call_def)
    have "boot_sahara_handle_tx E p n s = bnd ?call (\<lambda>ev. thn (deliver ev) (thn (poll_until sahara_tx_complete E (rounds E))
        (gets (\<lambda>s. (sahara_tx_bytes_read s, sahara_tx_err_code s))))) ?u"
      using True by (simp add: boot_sahara_handle_tx_def with_dispatch_def thn_def bnd_assoc bnd_Inr)
    also have "\<dots> = ?wait ?t" using call by (rule bnd_Inr)
    finally have "boot_sahara_handle_tx E p n s = ?wait ?t" .
    moreover have "safe E C S J win B s (final ?wait ?t)" using sahara.rel_trans [OF st(1) keepsD [OF w(1)]] .
    moreover have "memory (final ?wait ?t) = memory s" using keepsD [OF w(2), of ?t] st(2) by (simp add: still_def)
    ultimately show ?thesis by simp
  next
    case False
    have "safe E C S J win B s ?s" by (auto simp: safe_def session_def)
    with False show ?thesis by (simp add: boot_sahara_handle_tx_def with_dispatch_def fatal_app)
  qed
qed

lemma safe_tx: "sahara_client E C S J win \<Longrightarrow> S p n \<Longrightarrow> keeps (safe E C S J win B) (boot_sahara_handle_tx E p n)"
  using safe_tx_memory by (fastforce simp: keeps_def safe_def)


subsection \<open>Packets\<close>

definition sized :: "('h, 'p) sahara_env_scheme \<Rightarrow> ('h, 'a) sahara_scheme \<Rightarrow> bool" where
  "sized E s \<longleftrightarrow> load32 (sahara_packet_buffer E + 4) (memory s) \<le> 48"

lemma length_words_of [simp]: "length (words_of ws) = 4 * length ws"
  by (induction ws) (simp_all add: words_of_def)

lemma load32_written:
  assumes "off + 4 \<le> length bs" and "length bs \<le> 1024" and "take 4 (drop off bs) = le_bytes 4 (unat v)"
  shows "load32 (p + of_nat off) (mem_write p bs m) = v"
proof -
  have "mem_read (p + of_nat off) 4 (mem_write p bs m) = take 4 (drop off (mem_read p (length bs) (mem_write p bs m)))"
    using assms(1) by (rule mem_read_sub)
  also have "\<dots> = le_bytes 4 (unat v)" using assms(2,3) by (simp add: mem_read_write)
  finally show ?thesis using unat32_lt [of v] by (simp add: load32_def le_nat_le_bytes)
qed

lemma load32_words: "length ws \<le> 10 \<Longrightarrow> load32 (p + 4) (mem_write p (words_of (c # l # ws)) m) = l"
proof -
  assume "length ws \<le> 10"
  moreover have "take 4 (drop 4 (words_of (c # l # ws))) = le_bytes 4 (unat l)" by (simp add: words_of_def)
  ultimately show ?thesis using load32_written [of 4 "words_of (c # l # ws)" l p m] by simp
qed

lemma load32_apart:
  assumes "\<And>i. i < 4 \<Longrightarrow> m' (p + of_nat i) = m (p + of_nat i)"
  shows "load32 p m' = load32 p m"
proof -
  have "mem_read p 4 m' = mem_read p 4 m" by (rule nth_equalityI) (simp_all add: assms)
  then show ?thesis by (simp add: load32_def)
qed

lemma packet_field: "i < 4 \<Longrightarrow> off + 4 \<le> 1024 \<Longrightarrow> unat (p + of_nat off + of_nat i - p) < 1024" for p :: u64
  by (simp flip: of_nat_add)

lemma safe_packet_write:
  assumes "k + length bs \<le> 1024"
  shows "keeps (safe E C S J win B :: ('h, 'a) sahara_scheme \<Rightarrow> _) (modify (memory_update (mem_write (sahara_packet_buffer E + of_nat k) bs)))"
proof (rule safe_modify)
  fix s :: "('h, 'a) sahara_scheme" and x
  let ?p = "sahara_packet_buffer E"
  assume "memory (memory_update (mem_write (?p + of_nat k) bs) s) x \<noteq> memory s x"
  then have d: "unat (x - (?p + of_nat k)) < length bs" by (auto simp: mem_write_def split: if_splits)
  have "unat (y + of_nat k) = unat y + k" if "unat y < length bs" for y :: u64
    using that assms by (simp add: unat_word_ariths)
  from this [OF d] have "in_packet E x" using d assms by simp
  then show "sahara_area E C B x" by (simp add: sahara_area_def)
qed simp_all

lemma safe_put_packet: "length ws \<le> 12 \<Longrightarrow> keeps (safe E C S J win B) (put_packet E ws)"
  using safe_packet_write [of 0 "words_of ws" E C S J win B] by (simp add: put_packet_def)

lemma send_packet_run:
  assumes c: "sahara_client E C S J win" and s: "session E C S J win B s" "sized E s"
  shows "safe E C S J win B s (final (send_packet E) s) \<and> memory (final (send_packet E) s) = memory s"
proof -
  let ?p = "sahara_packet_buffer E" and ?n = "load32 (sahara_packet_buffer E + 4) (memory s)"
  obtain s1 where log: "boot_sahara_log_packet_buffer ?p ?n SAHARA_PACKET_TRANSMIT s = (Inr (), s1)"
    by (simp add: boot_sahara_log_packet_buffer_def log_entry_def)
  have s1: "safe E C S J win B s s1" using keepsD [OF safe_log_packet [of E C S J win B ?p ?n SAHARA_PACKET_TRANSMIT], of s] log by simp
  then have sess: "session E C S J win B s1" using s(1) by (simp add: safe_def)
  have m1: "memory s1 = memory s" using log by (auto simp: boot_sahara_log_packet_buffer_def log_entry_def Let_def)
  have "S ?p ?n" using c s(2) by (simp add: sahara_client_def sized_def)
  note tx = safe_tx_memory [where p = ?p and n = ?n, OF c this sess]
  obtain r s2 where r: "boot_sahara_handle_tx E ?p ?n s1 = (r, s2)" by fastforce
  then have "final (send_packet E) s = s2"
    using log by (cases r) (auto simp: send_packet_def bnd_app thn_app ret_app)
  then show ?thesis using tx r m1 sahara.rel_trans [OF s1, of s2] by simp
qed

lemma sized_send:
  assumes c: "sahara_client E C S J win" and s: "session E C S J win B s" "sized E s"
    and g: "\<And>x. keeps (safe E C S J win B) (g x)"
  shows "safe E C S J win B s (final (bnd (send_packet E) g) s)"
proof -
  obtain r t where r: "send_packet E s = (r, t)" by fastforce
  then have "safe E C S J win B s t" using send_packet_run [OF c s] by simp
  then show ?thesis using r sahara.rel_trans [OF _ keepsD [OF g]] by (cases r) (simp_all add: bnd_app)
qed

lemma after_packet:
  fixes m :: "(('h, 'a) sahara_scheme, 'r) boot"
  assumes "l \<le> 48" and "length ws \<le> 10"
    and "\<And>s :: ('h, 'a) sahara_scheme. session E C S J win B s \<Longrightarrow> sized E s \<Longrightarrow> safe E C S J win B s (final m s)"
  shows "keeps (safe E C S J win B) (thn (put_packet E (c # l # ws)) m)"
proof (rule keepsI)
  fix s :: "('h, 'a) sahara_scheme"
  obtain t where t: "put_packet E (c # l # ws) s = (Inr (), t)" by (simp add: put_packet_def)
  have "sized E t" using t assms(1,2) by (auto simp: put_packet_def sized_def load32_words)
  moreover have st: "safe E C S J win B s t"
    using keepsD [OF safe_put_packet, of "c # l # ws" E C S J win B s] t assms(2) by simp
  moreover have "session E C S J win B s \<Longrightarrow> session E C S J win B t" using st by (simp add: safe_def)
  ultimately have "session E C S J win B s \<Longrightarrow> safe E C S J win B s (final m t)"
    using assms(3) sahara.rel_trans by blast
  then show "safe E C S J win B s (final (thn (put_packet E (c # l # ws)) m) s)"
    using t by (auto simp: thn_Inr safe_def)
qed

lemma safe_send:
  assumes "sahara_client E C S J win" and "l \<le> 48" and "length ws \<le> 10" and "\<And>x. keeps (safe E C S J win B) (g x)"
  shows "keeps (safe E C S J win B) (thn (put_packet E (c # l # ws)) (bnd (send_packet E) g))"
  using assms by (intro after_packet sized_send) simp_all

lemma safe_end_image_tx:
  assumes c: "sahara_client (E :: ('h, 'p) sahara_env_scheme) C S J win"
  shows "keeps (safe E C S J win B :: ('h, 'a) sahara_scheme \<Rightarrow> _) (boot_sahara_handle_end_image_tx E status)"
proof -
  have body: "keeps (safe E C S J win B :: ('h, 'a) sahara_scheme \<Rightarrow> _) (thn (put_packet E [SAHARA_END_IMAGE_TX_ID, 16, image_id, status])
     (thn (modify (sahara_if_status_update (\<lambda>_. status)))
     (bnd (send_packet E) (\<lambda>(tx_length, err, complete).
       let tx = tx_status err complete
       in thn (whenb (status \<noteq> SAHARA_STATUS_SUCCESS \<or> tx \<noteq> SAHARA_STATUS_SUCCESS) (set_state SAHARA_STATE_WAIT_RESET))
            (whenb (tx \<noteq> SAHARA_STATUS_SUCCESS)
              (thn (modify (sahara_if_status_update (\<lambda>_. tx))) (boot_sahara_reset E)))))))" (is "keeps _ (thn _ (thn _ (bnd _ ?g)))")
    for image_id
  proof (rule after_packet)
    have g: "keeps (safe E C S J win B) (?g x)" for x
      by (cases x) (auto intro!: safe_intros safe_set_state safe_reset [OF c] safe_modify simp: Let_def)
    fix s :: "('h, 'a) sahara_scheme"
    let ?t = "s\<lparr>sahara_if_status := status\<rparr>"
    assume "session E C S J win B s" "sized E s"
    then have st: "safe E C S J win B s ?t" "session E C S J win B ?t" "sized E ?t" by (simp_all add: safe_def session_def sized_def)
    have "safe E C S J win B ?t (final (bnd (send_packet E) ?g) ?t)" by (rule sized_send [OF c st(2,3) g])
    then show "safe E C S J win B s (final (thn (modify (sahara_if_status_update (\<lambda>_. status))) (bnd (send_packet E) ?g)) s)"
      by (intro safe_first [of _ _ "()" ?t]) (simp_all add: st(1))
  qed simp_all
  show ?thesis unfolding boot_sahara_handle_end_image_tx_def by (intro sahara.keeps_bnd sahara.keeps_gets body)
qed

lemma safe_read_data: "sahara_client E C S J win \<Longrightarrow> keeps (safe E C S J win B) (boot_sahara_handle_read_data E i off n)"
  unfolding boot_sahara_handle_read_data_def Let_def
  by (intro safe_send) (auto intro!: safe_intros safe_end_image_tx)

lemma safe_end_or: "sahara_client E C S J win \<Longrightarrow> keeps (safe E C S J win B) m \<Longrightarrow> keeps (safe E C S J win B) (end_or E st m)"
  unfolding end_or_def by (intro safe_intros safe_end_image_tx)


subsection \<open>Images\<close>

lemma range_tail:
  fixes p :: u64 and n r :: u32
  assumes "r \<le> n" and "unat (x - (p + ucast r)) < unat (n - r)"
  shows "unat (x - p) < unat n"
proof -
  have d: "unat (n - r) = unat n - unat r" "unat r \<le> unat n" using assms(1) by (simp_all add: unat_sub word_le_nat_alt)
  have "unat (y + ucast r) = unat y + unat r" if "unat y < unat (n - r)" for y :: u64
  proof -
    have "unat y + unat r < 18446744073709551616" using that d unat32_lt [of n] by linarith
    then show ?thesis by (simp add: unat_word_ariths)
  qed
  from this [OF assms(2)] show ?thesis using assms(2) d by simp
qed

lemma safe_parallel: "keeps (safe E C S J win B) (modify (\<lambda>s. if sahara_auth_elf s \<and> sahara_parallel_init s
    then s\<lparr>sahara_parallel_hash := True, sahara_parallel_buf := p, sahara_parallel_size := n\<rparr> else s))"
  by (rule keepsI) (auto simp: safe_def session_def)

lemma safe_receive_loop:
  assumes c: "sahara_client (E :: ('h, 'p) sahara_env_scheme) C S J win"
  shows "left \<le> space \<Longrightarrow> (\<And>x. unat (x - dest) < unat space \<Longrightarrow> sahara_area E C B x) \<Longrightarrow>
    keeps (safe E C S J win B :: ('h, 'a) sahara_scheme \<Rightarrow> _) (receive_loop E n off left space dest chunk)"
proof (induction n arbitrary: off left space dest chunk)
  case (Suc n)
  let ?sz = "if left > get_max_raw_data_size E then get_max_raw_data_size E else left"
  have sz: "?sz \<le> left" "?sz \<le> space" using Suc.prems(1) by auto
  have opt: "\<not> elf_optimized_segment_load E" using c by (simp add: sahara_client_def)
  have next_chunk: "keeps (safe E C S J win B :: ('h, 'a) sahara_scheme \<Rightarrow> _) (receive_loop E n (off + ?sz) (left - ?sz) (space - ?sz) (dest + ucast ?sz) k)" for k
  proof (rule Suc.IH)
    show "left - ?sz \<le> space - ?sz"
      using sz Suc.prems(1) by (simp only: word_le_nat_alt unat_sub diff_le_mono)
    show "sahara_area E C B x" if "unat (x - (dest + ucast ?sz)) < unat (space - ?sz)" for x
      using Suc.prems(2) range_tail [OF sz(2) that] .
  qed
  show ?case
    unfolding receive_loop.simps Let_def boot_sahara_log_raw_data_def
    by (intro safe_intros safe_read_data [OF c] safe_rx [OF c] safe_log Suc.prems(2) safe_parallel)
      (use next_chunk opt in \<open>auto split: if_splits\<close>)
qed simp

lemma safe_receive_data:
  assumes c: "sahara_client E C S J win" and "\<And>x. unat (x - dest) < unat space \<Longrightarrow> sahara_area E C B x"
  shows "keeps (safe E C S J win B) (boot_sahara_receive_data E off n space dest)"
proof -
  have opt: "\<not> elf_optimized_segment_load E" using c by (simp add: sahara_client_def)
  show ?thesis
    unfolding boot_sahara_receive_data_def on_success_def boot_sahara_skip_data_in_optmize_load_def using opt
    by (intro safe_intros safe_receive_loop [OF c] assms(2)) simp_all
qed

lemma safe_on_success: "keeps (safe E C S J win B) m \<Longrightarrow> keeps (safe E C S J win B) n \<Longrightarrow> keeps (safe E C S J win B) (on_success m n)"
  unfolding on_success_def by (intro safe_intros)

lemma safe_padded: "(\<And>n. keeps (safe E C S J win B) (f n)) \<Longrightarrow> keeps (safe E C S J win B) (with_padded_size E' m f)"
  unfolding with_padded_size_def by (intro safe_intros)

lemma safe_receive_binary:
  assumes c: "sahara_client E C S J win"
    and B: "B" and a: "binary_client E C J win"
  shows "keeps (safe E C S J win B) (receive_binary E)"
proof -
  have hdr: "\<And>x. unat (x - bin_image_header E) < unat (ucast (get_bin_header_size E) :: u32) \<Longrightarrow> sahara_area E C B x"
    using a by (simp add: binary_client_def sahara_area_def)
  have auth: "client_fn (sahara_area E C B) J win (authenticate A p)" if "auth_tbl E = Some A" for A p
    using a that B by (simp add: binary_client_def auth_client_def)
  have copy: "keeps (safe E C S J win B) (modify (memory_update (qmemcpy (bin_image_header E) p (ucast (get_bin_header_size E)))))" for p
    by (rule safe_mem) (metis hdr qmemcpy_outside)
  have dest: "sahara_area E C B x" if "\<not> \<not> valid_address_range E a (ucast (n :: u32)) 1" "unat (x - a) < unat n" for a n x
    using that B unfolding sahara_area_def by (metis unat_ucast_32_64)
  have pkt: "sahara_area E C B x" if "unat (x - sahara_packet_buffer E) < unat SAHARA_MAX_PACKET_SIZE_IN_BYTES" for x
    using that by (simp add: sahara_area_def)
  have id: "keeps (safe E C S J win B) (modify (binary_image_id_update f))" for f by (rule safe_modify) simp_all
  show ?thesis
    unfolding receive_binary_def Let_def
    by (intro safe_call_area safe_intros safe_set_state safe_on_success safe_receive_data [OF c] safe_function safe_padded safe_auth
        auth copy id dest pkt)
qed


lemma safe_reset_on_timeout: "sahara_client E C S J win \<Longrightarrow> keeps (safe E C S J win B) (reset_on_timeout E status)"
  unfolding reset_on_timeout_def by (intro safe_intros safe_set_state safe_reset)

lemma safe_end_reception:
  assumes c: "sahara_client E C S J win"
  shows "keeps (safe E C S J win B) (end_reception E received)"
proof -
  have post: "client_fn C J win (image_load_post_proc E)" using c by (simp add: sahara_client_def)
  show ?thesis
    unfolding end_reception_def
    by (intro safe_intros safe_end_image_tx [OF c] safe_call_unit post safe_modify) simp_all
qed

text \<open>An ELF image is never expected in the sessions treated here.\<close>

lemma safe_receive_image:
  assumes c: "sahara_client E C S J win"
  shows "keeps (safe E C S J win B) (boot_sahara_receive_image E)"
  unfolding boot_sahara_receive_image_def boot_sahara_receive_image_binary_def
  by (rule safe_gets, intro safe_intros safe_receive_binary [OF c] safe_reset_on_timeout [OF c] safe_end_reception [OF c])
    (simp_all add: session_def)

subsection \<open>The handlers\<close>

lemma debug_client_of: "sahara_client E C S J win \<Longrightarrow> mem_debug_tbl E = Some M \<Longrightarrow> debug_client C S J win M"
  by (simp add: sahara_client_def)

lemma safe_field: "keeps (safe E C S J win B) (field32 E' off)" "keeps (safe E C S J win B) (field64 E' off)"
  by (simp_all add: field32_def field64_def)

lemma safe_with_packet:
  "sahara_client E C S J win \<Longrightarrow> keeps (safe E C S J win B) m \<Longrightarrow> keeps (safe E C S J win B) (with_packet E len n m)"
  unfolding with_packet_def by (intro safe_intros safe_field safe_end_image_tx)

lemma safe_debug:
  "(\<And>M. mem_debug_tbl E = Some M \<Longrightarrow> keeps (safe E C S J win B) (f M)) \<Longrightarrow> keeps (safe E C S J win B) (with_debug E f)"
  unfolding with_debug_def by (rule safe_function)

text \<open>The greeting is repeated from the same buffer.\<close>

lemma hello_loop_safe:
  assumes c: "sahara_client (E :: ('h, 'p) sahara_env_scheme) C S J win"
  shows "session E C S J win B s \<Longrightarrow> sized E s \<Longrightarrow> safe E C S J win B s (final (hello_loop E n) s)"
proof (induction n arbitrary: s)
  case (Suc n)
  obtain r t where r: "send_packet E s = (r, t)" by fastforce
  then have st: "safe E C S J win B s t" and mt: "memory t = memory s" using send_packet_run [OF c Suc.prems] by simp_all
  then have t: "session E C S J win B t" "sized E t" using Suc.prems by (simp_all add: safe_def sized_def)
  note again = sahara.rel_trans [OF st Suc.IH [OF t]]
  show ?case
  proof (cases r)
    case (Inl e)
    then show ?thesis using r st by (simp add: bnd_app)
  next
    case (Inr x)
    obtain len err complete where x: "x = (len, err, complete)" by (cases x) auto
    have restart: "safe E C S J win B t (final (with_dispatch (thn (client_call (bulk_init E)) (hello_loop E n))) t)"
    proof (cases "sahara_dispatch_tbl t")
      case True
      obtain e m h where i: "bulk_init E (memory t, hw t) = (e, m, h)" by (metis prod_cases3)
      let ?u = "t\<lparr>memory := m, hw := h\<rparr>"
      have call: "client_call (bulk_init E) t = (Inr e, ?u)" using i by (simp add: client_call_def)
      have f: "client_fn C J win (bulk_init E)" and apart: "\<And>x. C x \<Longrightarrow> \<not> in_packet E x"
        using c by (simp_all add: sahara_client_def)
      have tu: "safe E C S J win B t ?u" using keepsD [OF safe_call_unit [OF f], of E S B t] call by simp
      have "J (hw t)" using t(1) by (simp add: session_def)
      then have "m x = memory t x" if "in_packet E x" for x
        using f i apart that unfolding client_fn_def by blast
      then have "load32 (sahara_packet_buffer E + 4) m = load32 (sahara_packet_buffer E + 4) (memory t)"
        using packet_field [of _ 4 "sahara_packet_buffer E"] by (intro load32_apart) simp
      then have "sized E ?u" "session E C S J win B ?u" using t tu by (simp_all add: sized_def safe_def)
      then have "safe E C S J win B ?u (final (hello_loop E n) ?u)" by (intro Suc.IH)
      then show ?thesis using True safe_first [where m = "client_call (bulk_init E)", OF call tu]
        by (simp add: with_dispatch_def)
    qed (simp add: with_dispatch_def fatal_app sahara.rel_refl)
    show ?thesis
      using Inr r x st again sahara.rel_trans [OF st restart] by (simp add: bnd_app ret_app)
  qed
qed (simp add: fatal_app sahara.rel_refl)

lemma safe_hello: "sahara_client E C S J win \<Longrightarrow> keeps (safe E C S J win B) (boot_sahara_handle_hello E)"
proof -
  assume c: "sahara_client E C S J win"
  have st: "keeps (safe E C S J win B) (set_state SAHARA_STATE_WAIT_HELLO_RESP)" by (rule safe_set_state)
  have "keeps (safe E C S J win B) (thn (put_packet E [SAHARA_HELLO_ID, 48, SAHARA_VERSION_MAJOR, SAHARA_VERSION_MAJOR_SUPPORTED,
            SAHARA_MAX_PACKET_SIZE_IN_BYTES, mode, 0, 0, 0, 0, 0, 0])
     (thn (hello_loop E (rounds E)) (set_state SAHARA_STATE_WAIT_HELLO_RESP)))" for mode
  proof (rule after_packet)
    fix s
    assume "session E C S J win B s" "sized E s"
    then have h: "safe E C S J win B s (final (hello_loop E (rounds E)) s)" by (rule hello_loop_safe [OF c])
    obtain r t where r: "hello_loop E (rounds E) s = (r, t)" by fastforce
    then show "safe E C S J win B s (final (thn (hello_loop E (rounds E)) (set_state SAHARA_STATE_WAIT_HELLO_RESP)) s)"
      using h sahara.rel_trans [OF _ keepsD [OF st]] by (cases r) (simp_all add: thn_app)
  qed simp_all
  then show ?thesis unfolding boot_sahara_handle_hello_def by (intro sahara.keeps_bnd sahara.keeps_gets)
qed


lemma safeD: "safe E C S J win B s t \<Longrightarrow> session E C S J win B s \<Longrightarrow> session E C S J win B t"
  by (simp add: safe_def)

lemma safeI: "(session E C S J win B s \<Longrightarrow> safe E C S J win B s t) \<Longrightarrow> safe E C S J win B s t"
  by (simp add: safe_def)

lemma after_size:
  fixes m :: "(('h, 'a) sahara_scheme, 'r) boot"
  assumes "v \<le> 48" and "\<And>s :: ('h, 'a) sahara_scheme. session E C S J win B s \<Longrightarrow> sized E s \<Longrightarrow> safe E C S J win B s (final m s)"
  shows "keeps (safe E C S J win B) (thn (modify (memory_update (store32 (sahara_packet_buffer E + 4) v))) m)"
proof (rule keepsI)
  fix s :: "('h, 'a) sahara_scheme"
  let ?p = "sahara_packet_buffer E"
  let ?t = "memory_update (store32 (?p + 4) v) s"
  have st: "safe E C S J win B s ?t"
    using keepsD [OF safe_packet_write [of 4 "le_bytes 4 (unat v)" E C S J win B], of s] by (simp add: store32_def)
  have "load32 (?p + 4) (store32 (?p + 4) v (memory s)) = v"
    using load32_written [of 0 "le_bytes 4 (unat v)" v "?p + 4" "memory s"] by (simp add: store32_def)
  then have "sized E ?t" using assms(1) by (simp add: sized_def)
  then have "session E C S J win B s \<Longrightarrow> safe E C S J win B ?t (final m ?t)" using assms(2) safeD [OF st] by blast
  then have "session E C S J win B s \<Longrightarrow> safe E C S J win B s (final m ?t)" using sahara.rel_trans [OF st] by blast
  then show "safe E C S J win B s (final (thn (modify (memory_update (store32 (?p + 4) v))) m) s)"
    by - (rule safeI, simp)
qed

lemma after_store:
  fixes m :: "(('h, 'a) sahara_scheme, 'r) boot"
  assumes k: "8 \<le> k" "k \<le> 1016" and off: "off = of_nat k" and s: "session E C S J win B s" "sized E s"
    and m: "\<And>s :: ('h, 'a) sahara_scheme. session E C S J win B s \<Longrightarrow> sized E s \<Longrightarrow> safe E C S J win B s (final m s)"
  shows "safe E C S J win B s (final (thn (modify (memory_update (store64 (sahara_packet_buffer E + off) v))) m) s)"
proof -
  let ?p = "sahara_packet_buffer E"
  let ?t = "memory_update (store64 (?p + of_nat k) v) s"
  have st: "safe E C S J win B s ?t"
    using keepsD [OF safe_packet_write [of k "le_bytes 8 (unat v)" E C S J win B], of s] k by (simp add: store64_def)
  have "load32 (?p + 4) (store64 (?p + of_nat k) v (memory s)) = load32 (?p + 4) (memory s)"
  proof (rule load32_apart)
    fix i :: nat
    assume i: "i < 4"
    have "?p + 4 + of_nat i - (?p + of_nat k) = of_nat (4 + i) - of_nat k" by simp
    moreover have "unat (of_nat j - of_nat k :: u64) = j + 18446744073709551616 - k" if "j < k" for j
      using that k by (simp only: unat_sub_if') simp
    from this [of "4 + i"] have "unat (of_nat (4 + i) - of_nat k :: u64) = 4 + i + 18446744073709551616 - k"
      using i k by simp
    ultimately have "unat (?p + 4 + of_nat i - (?p + of_nat k)) = 4 + i + 18446744073709551616 - k" by (rule ssubst)
    then have "\<not> unat (?p + 4 + of_nat i - (?p + of_nat k)) < 8" using k by simp
    then show "store64 (?p + of_nat k) v (memory s) (?p + 4 + of_nat i) = memory s (?p + 4 + of_nat i)"
      by (simp add: store64_def mem_write_outside)
  qed
  then have "sized E ?t" using s(2) by (simp add: sized_def)
  then have "safe E C S J win B ?t (final m ?t)" using m safeD [OF st s(1)] by blast
  then show ?thesis unfolding off by (intro safe_first [of _ _ "()" ?t]) (simp_all add: st)
qed

lemma after_gets: "safe E C S J win B s (final (g (f s)) s) \<Longrightarrow> safe E C S J win B s (final (bnd (gets f) g) s)"
  by simp

lemma safe_memory_debug:
  assumes c: "sahara_client E C S J win"
  shows "keeps (safe E C S J win B) (boot_sahara_handle_memory_debug E)"
proof -
  have put: "keeps (safe E C S J win B) (modify (memory_update (store32 (sahara_packet_buffer E) v)))" for v
    using safe_packet_write [of 0 "le_bytes 4 (unat v)" E C S J win B] by (simp add: store32_def)
  have fin: "keeps (safe E C S J win B) (case x of (tx_length, err, complete) \<Rightarrow>
      end_or E (tx_status err complete) (set_state SAHARA_STATE_WAIT_MEMORY_READ))" for x :: "u32 \<times> u32 \<times> bool"
    by (intro safe_pair safe_end_or [OF c] safe_set_state)
  have init: "client_fn C J win (mem_debug_init M)" if "mem_debug_tbl E = Some M" for M
    using debug_client_of [OF c that] by (simp add: debug_client_def)
  have send: "keeps (safe E C S J win B) (thn (modify (memory_update (store32 (sahara_packet_buffer E + 4) 24)))
     (thn (modify (memory_update (store64 (sahara_packet_buffer E + 8) (mem_debug_table_addr M))))
     (bnd (gets (\<lambda>s. mem_debug_table_len M (memory s, hw s))) (\<lambda>len.
     thn (modify (memory_update (store64 (sahara_packet_buffer E + 16) (ucast len))))
     (bnd (send_packet E) (\<lambda>(tx_length, err, complete).
       end_or E (tx_status err complete) (set_state SAHARA_STATE_WAIT_MEMORY_READ)))))))" for M
    by (rule after_size, simp, rule after_store [where k = 8], simp, simp, simp, assumption, assumption, rule after_gets,
        rule after_store [where k = 16], simp, simp, simp, assumption, assumption, rule sized_send [OF c], assumption,
        assumption, rule fin)
  show ?thesis
    unfolding boot_sahara_handle_memory_debug_def
    by (intro safe_debug sahara.keeps_thn [OF put] sahara.keeps_bnd [OF safe_call_unit] keeps_option sahara.keeps_fatal init send)
qed


lemma safe_sent_state:
  assumes c: "sahara_client E C S J win"
  shows "keeps (safe E C S J win B) (case x of (tx_length, err, complete) \<Rightarrow> end_or E (tx_status err complete) (set_state st))"
  by (intro safe_pair safe_end_or [OF c] safe_set_state)

lemma safe_cmd_ready: "sahara_client E C S J win \<Longrightarrow> keeps (safe E C S J win B) (boot_sahara_handle_cmd_ready E)"
  unfolding boot_sahara_handle_cmd_ready_def by (rule safe_send) (simp_all add: safe_sent_state)

lemma safe_hello_resp:
  assumes c: "sahara_client E C S J win"
  shows "keeps (safe E C S J win B) (boot_sahara_handle_hello_resp E len)"
proof -
  have mode: "keeps (safe E C S J win B) (modify (sahara_mode_update f))" for f by (rule safe_modify) simp_all
  have enter: "keeps (safe E C S J win B) (enter_mode E)"
    unfolding enter_mode_def
    by (intro safe_intros safe_debug safe_end_image_tx [OF c] safe_memory_debug [OF c] safe_cmd_ready [OF c] safe_receive_image [OF c])
  have verdict: "keeps (safe E C S J win B) (case v of Inl status \<Rightarrow> boot_sahara_handle_end_image_tx E status
     | Inr m \<Rightarrow> thn (case m of None \<Rightarrow> ret () | Some mode' \<Rightarrow> modify (sahara_mode_update (\<lambda>_. mode'))) (enter_mode E))"
    for v :: "u32 + u32 option"
    by (cases v) (auto intro!: safe_intros safe_end_image_tx [OF c] mode enter)
  show ?thesis unfolding boot_sahara_handle_hello_resp_def by (intro sahara.keeps_bnd safe_field verdict)
qed

text \<open>The answer to the host's last packet is repeated from the same buffer, too.\<close>

lemma done_resp_loop_safe:
  assumes c: "sahara_client (E :: ('h, 'p) sahara_env_scheme) C S J win"
  shows "session E C S J win B s \<Longrightarrow> sized E s \<Longrightarrow> safe E C S J win B s (final (done_resp_loop E n) s)"
proof (induction n arbitrary: s)
  case (Suc n)
  obtain r t where r: "send_packet E s = (r, t)" by fastforce
  then have st: "safe E C S J win B s t" and mt: "memory t = memory s" using send_packet_run [OF c Suc.prems] by simp_all
  then have t: "session E C S J win B t" "sized E t" using Suc.prems safeD [OF st] by (simp_all add: sized_def)
  note again = sahara.rel_trans [OF st Suc.IH [OF t]]
  have reset: "keeps (safe E C S J win B) (thn (set_state SAHARA_STATE_WAIT_RESET) (boot_sahara_reset E))"
    by (intro safe_intros safe_set_state safe_reset [OF c])
  show ?case
    using r st again sahara.rel_trans [OF st keepsD [OF reset]]
    by (cases r) (auto simp: bnd_app ret_app split: prod.split)
qed (simp add: fatal_app sahara.rel_refl)

lemma safe_done:
  assumes c: "sahara_client E C S J win"
  shows "keeps (safe E C S J win B) (boot_sahara_handle_done E len)"
proof -
  have rest: "keeps (safe E C S J win B) (bnd (gets sahara_mode) (\<lambda>mode'. whenb (mode' = SAHARA_MODE_IMAGE_TX_COMPLETE) (boot_sahara_exit E)))"
    by (intro safe_intros safe_exit [OF c])
  have body: "keeps (safe E C S J win B) (thn (put_packet E [SAHARA_DONE_RESP_ID, 12, mode])
     (thn (done_resp_loop E (rounds E))
     (bnd (gets sahara_mode) (\<lambda>mode'. whenb (mode' = SAHARA_MODE_IMAGE_TX_COMPLETE) (boot_sahara_exit E)))))" for mode
  proof (rule after_packet)
    fix s
    assume "session E C S J win B s" "sized E s"
    then have h: "safe E C S J win B s (final (done_resp_loop E (rounds E)) s)" by (rule done_resp_loop_safe [OF c])
    obtain r t where r: "done_resp_loop E (rounds E) s = (r, t)" by fastforce
    then show "safe E C S J win B s (final (thn (done_resp_loop E (rounds E)) (bnd (gets sahara_mode) (\<lambda>mode'.
        whenb (mode' = SAHARA_MODE_IMAGE_TX_COMPLETE) (boot_sahara_exit E)))) s)"
      using h sahara.rel_trans [OF _ keepsD [OF rest]] by (cases r) (simp_all only: thn_app, simp_all)
  qed simp_all
  have finish: "keeps (safe E C S J win B) (modify (sahara_done_update f))" for f by (rule safe_modify) simp_all
  show ?thesis
    unfolding boot_sahara_handle_done_def boot_sahara_handle_done_resp_def
    by (intro safe_with_packet [OF c] sahara.keeps_thn [OF _ finish] sahara.keeps_bnd [OF sahara.keeps_gets] body)
qed

lemma safe_handle_reset:
  assumes c: "sahara_client E C S J win"
  shows "keeps (safe E C S J win B) (boot_sahara_handle_reset E len)"
proof -
  have "keeps (safe E C S J win B) (boot_sahara_handle_reset_resp E)"
    unfolding boot_sahara_handle_reset_resp_def thn_def [of "send_packet E"]
    by (rule safe_send [OF c]) (simp_all add: safe_reset [OF c])
  then show ?thesis unfolding boot_sahara_handle_reset_def by (rule safe_with_packet [OF c])
qed

subsection \<open>Memory reads and commands\<close>

lemma safe_memory_64bits_read:
  assumes c: "sahara_client E C S J win"
  shows "keeps (safe E C S J win B) (boot_sahara_handle_memory_64bits_read E len)"
proof -
  have verified: "S a (ucast n)" if "mem_debug_tbl E = Some M" "J h" "mem_debug_verify_addr M a n (m, h)" for M a n m h
    using debug_client_of [OF c that(1)] that(2,3) unfolding debug_client_def by blast
  have read: "keeps (safe E C S J win B) (bnd (boot_sahara_handle_tx E a (ucast n)) (\<lambda>(tx_length, err).
      bnd (field64 E 16) (\<lambda>size'. end_or E (tx_status err (ucast tx_length = size')) (ret ()))))" if "S a (ucast n)" for a and n :: u64
    by (intro sahara.keeps_bnd safe_pair safe_tx [OF c] that safe_field safe_end_or [OF c] sahara.keeps_ret)
  show ?thesis
    unfolding boot_sahara_handle_memory_64bits_read_def
    by (intro safe_with_packet [OF c] safe_debug sahara.keeps_bnd [OF safe_field(2)], rule safe_gets)
      (auto simp: session_def intro!: safe_end_image_tx [OF c] read verified)
qed

lemma safe_restricted_loop:
  assumes c: "sahara_client (E :: ('h, 'p) sahara_env_scheme) C S J win" and M: "mem_debug_tbl E = Some M"
    and S: "\<And>b k m h. J h \<Longrightarrow> S (fst (mem_debug_copy_restricted M b k (m, h))) (ucast k)"
  shows "keeps (safe E C S J win B :: ('h, 'a) sahara_scheme \<Rightarrow> _) (restricted_loop E M addr left)"
proof (induction "unat left" arbitrary: addr left rule: less_induct)
  case less
  show ?case
  proof (cases "left = 0")
    case True
    then show ?thesis by (simp add: restricted_loop.simps)
  next
    case False
    let ?sz = "if left > SAHARA_MAX_MEMORY_DATA_SIZE_IN_BYTES then SAHARA_MAX_MEMORY_DATA_SIZE_IN_BYTES else left"
    have sz: "?sz \<noteq> 0" "?sz \<le> left" using False by (auto split: if_splits)
    have rest: "keeps (safe E C S J win B :: ('h, 'a) sahara_scheme \<Rightarrow> _) (restricted_loop E M (addr + ?sz) (left - ?sz))"
      by (rule less) (rule unat_minus_less [OF sz])
    have copy: "client_fn C J win (mem_debug_copy_restricted M a n)" for a n
      using debug_client_of [OF c M] by (simp add: debug_client_def)
    have buf: "keeps (safe E C S J win B) (modify (sahara_mem_debug_buffer_update f))" for f by (rule safe_modify) simp_all
    have out: "S (fst (mem_debug_copy_restricted M b (ucast ?sz) (m, h))) ?sz" if "J h" for b m h
      using S [OF that, of b "ucast ?sz" m] by (simp only: ucast_there_back)
    show ?thesis
      unfolding restricted_loop.simps [of E M addr left] Let_def
      by (intro safe_call copy safe_intros buf safe_end_image_tx [OF c] safe_tx [OF c] out rest) simp
  qed
qed

lemma safe_memory_read:
  assumes c: "sahara_client E C S J win"
  shows "keeps (safe E C S J win B) (boot_sahara_handle_memory_read E len)"
proof -
  have verified: "S a n" if "mem_debug_tbl E = Some M" "J h" "mem_debug_verify_addr M a (ucast n) (m, h)"
    for M a and n :: u32 and m h
  proof -
    have "S a (ucast (ucast n :: u64))"
      using debug_client_of [OF c that(1)] that(2,3) unfolding debug_client_def by blast
    then show ?thesis by simp
  qed
  have loop: "keeps (safe E C S J win B) (restricted_loop E M a' n')"
    if M: "mem_debug_tbl E = Some M" and "J h" "mem_debug_is_restricted_addr M a n (m, h)" for M a n m h a' n'
    by (rule safe_restricted_loop [OF c M]) (use debug_client_of [OF c M] that(2,3) in \<open>unfold debug_client_def, blast\<close>)
  have read: "keeps (safe E C S J win B) (bnd (boot_sahara_handle_tx E a n) (\<lambda>(tx_length, err).
      bnd (field32 E 12) (\<lambda>size'. ret (tx_status err (tx_length = size')))))" if "S a n" for a n
    by (intro sahara.keeps_bnd safe_pair safe_tx [OF c] that safe_field sahara.keeps_ret)
  show ?thesis
    unfolding boot_sahara_handle_memory_read_def
    by (intro safe_with_packet [OF c] safe_debug sahara.keeps_bnd [OF safe_field(1)], rule safe_gets)
      (auto simp: session_def intro!: safe_end_image_tx [OF c] sahara.keeps_bnd safe_end_or [OF c] read verified intro: loop)
qed

lemma safe_switch_mode: "sahara_client E C S J win \<Longrightarrow> keeps (safe E C S J win B) (boot_sahara_handle_cmd_switch_mode E len)"
  unfolding boot_sahara_handle_cmd_switch_mode_def
  by (intro safe_with_packet safe_intros safe_field safe_set_state safe_modify) simp_all

lemma safe_exec_data: "S data n \<Longrightarrow> keeps (safe E C S J win B)
    (modify (\<lambda>s. s\<lparr>sahara_cmd_exec_data := data, sahara_cmd_exec_data_length := n, sahara_cmd_exec_client_command := cmd\<rparr>))"
  by (rule keepsI) (simp add: safe_def session_def)

lemma safe_cmd_exec:
  assumes c: "sahara_client E C S J win"
  shows "keeps (safe E C S J win B) (boot_sahara_handle_cmd_exec E len)"
proof -
  have resp: "keeps (safe E C S J win B) (boot_sahara_handle_cmd_exec_resp E)"
  proof -
    have fin: "keeps (safe E C S J win B) (case x of (tx_length, err, complete) \<Rightarrow> end_or E (tx_status err complete)
         (bnd (gets sahara_cmd_exec_data_length) (\<lambda>n. whenb (n > 0) (set_state SAHARA_STATE_WAIT_CMD_EXEC_DATA))))"
      for x :: "u32 \<times> u32 \<times> bool"
      by (intro safe_pair safe_end_or [OF c] safe_intros safe_set_state)
    show ?thesis
      unfolding boot_sahara_handle_cmd_exec_resp_def
      by (intro sahara.keeps_bnd sahara.keeps_gets safe_pair safe_send [OF c] fin) simp_all
  qed
  have exec: "client_fn C J win (exec_cmd E cmd)" for cmd using c by (simp add: sahara_client_def)
  have S: "S a n" if "J h" "fst (exec_cmd E cmd (m, h)) = (a, n, st)" for a n st cmd m h
    using c that unfolding sahara_client_def by (metis fst_conv snd_conv)
  show ?thesis
    unfolding boot_sahara_handle_cmd_exec_def
    by (intro safe_with_packet [OF c] sahara.keeps_bnd [OF safe_field(1)] safe_dispatch safe_call exec)
      (auto split: prod.split intro!: sahara.keeps_bnd safe_field sahara.keeps_thn safe_exec_data safe_end_or [OF c] resp intro: S)
qed

lemma safe_cmd_exec_data:
  assumes c: "sahara_client E C S J win"
  shows "keeps (safe E C S J win B) (boot_sahara_handle_cmd_exec_data E len)"
  unfolding boot_sahara_handle_cmd_exec_data_def
  by (intro safe_with_packet [OF c] sahara.keeps_bnd [OF safe_field(1)], rule safe_gets)
    (auto simp: session_def intro!: safe_intros safe_end_image_tx [OF c] safe_log_packet safe_tx [OF c] safe_end_or [OF c] safe_set_state)

subsection \<open>The loop and the entry\<close>

lemma safe_handler:
  assumes c: "sahara_client E C S J win" and h: "packet_handler E cmd st len = Some m"
  shows "keeps (safe E C S J win B) m"
  using h unfolding packet_handler_def
  by (auto split: if_splits intro: safe_hello_resp [OF c] safe_done [OF c] safe_handle_reset [OF c] safe_memory_read [OF c]
      safe_memory_64bits_read [OF c] safe_switch_mode [OF c] safe_cmd_exec [OF c] safe_cmd_exec_data [OF c])

lemma safe_process_packet:
  assumes c: "sahara_client E C S J win"
  shows "keeps (safe E C S J win B) (process_packet E)"
proof -
  have rx: "keeps (safe E C S J win B) (boot_sahara_handle_rx E (sahara_packet_buffer E) SAHARA_MAX_PACKET_SIZE_IN_BYTES
      SAHARA_MAX_PACKET_SIZE_IN_BYTES SAHARA_PACKET_TYPE_COMMAND)"
    by (rule safe_rx [OF c]) (simp add: sahara_area_def)
  show ?thesis
    unfolding process_packet_def
    by (intro sahara.keeps_bnd [OF rx] safe_intros safe_log_packet safe_hello [OF c] safe_end_image_tx [OF c] safe_handler [OF c])
qed

lemma safe_process_packets: "sahara_client E C S J win \<Longrightarrow> keeps (safe E C S J win B) (boot_sahara_process_packets E)"
proof -
  assume c: "sahara_client E C S J win"
  have "keeps (safe E C S J win B) (process_packets_loop E n)" for n
    by (induction n) (unfold process_packets_loop.simps, (intro safe_intros safe_process_packet [OF c]; assumption)+)
  then show ?thesis unfolding boot_sahara_process_packets_def by (intro sahara.keeps_thn safe_set_state)
qed

lemma safe_clear_image_info: "keeps (safe E C S J win B) (clear_image_info E)"
proof -
  have clear: "keeps (safe E C S J win b) (modify (memory_update (qmemset (bin_image_header E) 0 (ucast (get_bin_header_size E)))))"
    if c: "binary_client E C J win" for b
  proof (rule safe_mem)
    fix m x
    assume "qmemset (bin_image_header E) 0 (ucast (get_bin_header_size E)) m x \<noteq> m x"
    then have "unat (x - bin_image_header E) < unat (ucast (get_bin_header_size E) :: u32)"
      by (subst (asm) qmemset_fill) (auto intro: ccontr simp: mem_write_outside)
    then show "sahara_area E C b x" using c by (simp add: binary_client_def sahara_area_def)
  qed
  have info: "keeps (safe E C S J win b) (modify (\<lambda>s. s\<lparr>sahara_binary_image_info := True, binary_image_id := 0\<rparr>))" for b
    by (rule safe_modify) simp_all
  show ?thesis
    unfolding clear_image_info_def
    by (rule safe_gets) (auto simp: session_def intro!: safe_intros clear info)
qed

lemma safe_init_tables: "keeps (safe E C S J win B) (init_tables E)"
  unfolding init_tables_def
  by (intro safe_intros; rule safe_modify; simp)

lemma safe_init:
  assumes c: "sahara_client E C S J win"
  shows "keeps (safe E C S J win B) (boot_sahara_init E)"
proof -
  have i: "client_fn C J win (bulk_init E)" using c by (simp add: sahara_client_def)
  show ?thesis
    unfolding boot_sahara_init_def
    by (intro sahara.keeps_bnd safe_init_tables safe_clear_image_info safe_call_unit [OF i] safe_intros)
      (rule safe_modify; simp)+
qed

lemma safe_entry:
  assumes c: "sahara_client E C S J win"
  shows "keeps (safe E C S J win B) (boot_sahara_entry E)"
  unfolding boot_sahara_entry_def
  by (intro safe_intros safe_init [OF c] safe_hello [OF c] safe_process_packets [OF c]) (rule safe_modify; simp)

end
