(* ===== verification/Sahara_States.thy ===== *)
theory Sahara_States
  imports Sahara_Safety
begin

text \<open>
  The states of the Sahara protocol: a round of the loop over the packets as a step, the states
  that can be reached from the entry, and their invariant. Memory can be asked for only after
  the client allowed it, and the packet log stays in its array. All kinds of sessions are
  covered, those that load ELF images included.
\<close>

subsection \<open>Sessions as sequences of rounds\<close>

inductive sahara_step :: "('h, 'p) sahara_env_scheme \<Rightarrow> ('h, 'a) sahara_scheme \<Rightarrow> ('h, 'a) sahara_scheme \<Rightarrow> bool" for E where
  round: "\<not> sahara_done s \<Longrightarrow> process_packet E s = (Inr (), t) \<Longrightarrow> sahara_step E s t"

inductive sahara_reach :: "('h, 'p) sahara_env_scheme \<Rightarrow> ('h, 'a) sahara_scheme \<Rightarrow> ('h, 'a) sahara_scheme \<Rightarrow> bool" for E s0 where
  entered: "boot_sahara_init E s0 = (Inr True, s) \<Longrightarrow> boot_sahara_handle_hello E s = (Inr (), t) \<Longrightarrow> sahara_reach E s0 t"
| stepped: "sahara_reach E s0 s \<Longrightarrow> sahara_step E s t \<Longrightarrow> sahara_reach E s0 t"

inductive_cases sahara_stepE: "sahara_step E s t"

text \<open>The loop of the code walks through these states, and ends in one that is done.\<close>

lemma loop_reaches:
  "sahara_reach E s0 s \<Longrightarrow> process_packets_loop E n s = (Inr (), t) \<Longrightarrow> sahara_reach E s0 t \<and> sahara_done t"
proof (induction n arbitrary: s)
  case (Suc n)
  show ?case
  proof (cases "sahara_done s")
    case True
    then show ?thesis using Suc.prems by (simp add: ret_app)
  next
    case False
    with Suc.prems(2) obtain u where u: "process_packet E s = (Inr (), u)" "process_packets_loop E n u = (Inr (), t)"
      by (auto elim: thn_InrE)
    show ?thesis by (rule Suc.IH [OF stepped [OF Suc.prems(1) round [OF False u(1)]] u(2)])
  qed
qed (simp add: fatal_app)

subsection \<open>The invariant\<close>

definition debug_allowed :: "('h, 'p) sahara_env_scheme \<Rightarrow> bool" where
  "debug_allowed E \<longleftrightarrow> (\<exists>M. mem_debug_tbl E = Some M \<and> mem_debug_supported M)"

definition protocol_ok :: "('h, 'p) sahara_env_scheme \<Rightarrow> ('h, 'a) sahara_scheme \<Rightarrow> bool" where
  "protocol_ok E s \<longleftrightarrow> (sahara_state s = SAHARA_STATE_WAIT_MEMORY_READ \<longrightarrow> sahara_mem_debug_enabled s \<and> debug_allowed E) \<and>
     length (sahara_log s) = 100 \<and> sahara_packet_log_num s \<le> 100"

text \<open>
  A computation keeps it; with \<open>e\<close>, it does so at least from states in which memory debugging is
  enabled. Nothing after the initialisation changes that flag.
\<close>

definition keeps_protocol ::
  "bool \<Rightarrow> ('h, 'p) sahara_env_scheme \<Rightarrow> ('h, 'a) sahara_scheme \<Rightarrow> ('h, 'a) sahara_scheme \<Rightarrow> bool" where
  "keeps_protocol e E s t \<longleftrightarrow> sahara_mem_debug_enabled t = sahara_mem_debug_enabled s \<and>
     (protocol_ok E s \<and> (e \<longrightarrow> sahara_mem_debug_enabled s) \<longrightarrow> protocol_ok E t)"

interpretation protocol: frame "keeps_protocol e E" for e and E :: "('h, 'p) sahara_env_scheme"
  by unfold_locales (auto simp: keeps_protocol_def)

abbreviation (input) kept_by :: "bool \<Rightarrow> ('h, 'p) sahara_env_scheme \<Rightarrow> (('h, 'a) sahara_scheme, 'r) boot \<Rightarrow> bool" where
  "kept_by e E m \<equiv> keeps (keeps_protocol e E) m"

lemma kept_modify:
  assumes "\<And>s. sahara_state (f s) = sahara_state s \<or> sahara_state (f s) \<noteq> SAHARA_STATE_WAIT_MEMORY_READ"
    and "\<And>s. sahara_mem_debug_enabled (f s) = sahara_mem_debug_enabled s"
    and "\<And>s. sahara_log (f s) = sahara_log s" and "\<And>s. sahara_packet_log_num (f s) = sahara_packet_log_num s"
  shows "kept_by e E (modify f)"
proof (rule keepsI)
  show "keeps_protocol e E s (final (modify f) s)" for s
    using assms [of s] by (auto simp: keeps_protocol_def protocol_ok_def)
qed

lemma kept_state: "st \<noteq> SAHARA_STATE_WAIT_MEMORY_READ \<Longrightarrow> kept_by e E (set_state st)"
  unfolding set_state_def by (rule kept_modify) simp_all

lemma kept_call: "kept_by e E (client_call f)"
  by (rule keepsI) (auto simp: client_call_def keeps_protocol_def protocol_ok_def split: prod.splits)

lemma kept_log: "kept_by e E (log_entry cmd len d)"
proof (rule keepsI)
  fix s
  have "n < 100 \<Longrightarrow> n + 1 \<le> 100" for n :: u32 by (rule inc_le)
  then show "keeps_protocol e E s (final (log_entry cmd len d) s)"
    by (auto simp: log_entry_def keeps_protocol_def protocol_ok_def Let_def not_le)
qed

lemma kept_pair: "(\<And>a b. keeps R (f a b)) \<Longrightarrow> keeps R (case x of (a, b) \<Rightarrow> f a b)"
  by (cases x) simp

lemma kept_let: "keeps R (f x) \<Longrightarrow> keeps R (let y = x in f y)"
  by simp

lemmas kept_basic = protocol.keeps_bnd protocol.keeps_thn protocol.keeps_whenb keeps_if keeps_option kept_pair kept_let
  protocol.keeps_ret protocol.keeps_fatal protocol.keeps_gets kept_call kept_log

lemma kept_dispatch: "kept_by e E m \<Longrightarrow> kept_by e E (with_dispatch m)"
  unfolding with_dispatch_def by (intro kept_basic)

lemma kept_auth: "(\<And>A. kept_by e E (f A)) \<Longrightarrow> kept_by e E (with_auth E' f)"
  unfolding with_auth_def by (intro kept_basic)

lemma kept_function: "(\<And>g. p = Some g \<Longrightarrow> kept_by e E (f g)) \<Longrightarrow> kept_by e E (with_function p f)"
  unfolding with_function_def by (intro kept_basic)

lemma kept_deliver: "kept_by e E (deliver ev)"
  unfolding deliver_def boot_sahara_rx_cb_def boot_sahara_tx_cb_def
  by (cases ev; simp; rule bulk_event.exhaust [of "the ev"]; simp)
    (intro kept_basic kept_dispatch kept_modify; simp)+

lemma kept_poll: "kept_by e E (poll_until c E' n)"
proof (induction n)
  case (Suc n)
  then show ?case unfolding poll_until.simps by (intro kept_basic kept_dispatch kept_deliver)
qed simp

lemmas kept_intros = kept_basic kept_dispatch kept_auth kept_function kept_deliver kept_poll

lemma kept_log_packet: "kept_by e E (boot_sahara_log_packet_buffer p len d)"
  "kept_by e E (boot_sahara_log_raw_data len d)"
  unfolding boot_sahara_log_packet_buffer_def boot_sahara_log_raw_data_def by (intro kept_intros)+

lemma kept_ssa: "kept_by e E (boot_sahara_ssa_update_rmb_length len st)"
  unfolding boot_sahara_ssa_update_rmb_length_def
  by (rule kept_modify) (simp_all split: boot_ssa_length_update_state.split)

lemma kept_rx: "kept_by e E (boot_sahara_handle_rx E' p len space typ)"
  unfolding boot_sahara_handle_rx_def
  by (intro kept_intros kept_ssa kept_modify) (simp_all split: if_splits)

lemma kept_tx: "kept_by e E (boot_sahara_handle_tx E' p len)"
  unfolding boot_sahara_handle_tx_def
  by (intro kept_intros kept_modify) simp_all

lemma kept_put: "kept_by e E (put_packet E' ws)"
  unfolding put_packet_def by (rule kept_modify) simp_all

lemma kept_send: "kept_by e E (send_packet E')"
  unfolding send_packet_def by (intro kept_intros kept_log_packet kept_tx)

lemma kept_reset: "kept_by e E (boot_sahara_exit E')" "kept_by e E (boot_sahara_reset E')"
  unfolding boot_sahara_reset_def boot_sahara_exit_def by (intro kept_intros kept_modify; simp)+

lemma kept_end: "kept_by e E (boot_sahara_handle_end_image_tx E' status)"
  unfolding boot_sahara_handle_end_image_tx_def
  by (intro kept_intros kept_put kept_send kept_state kept_reset kept_modify) simp_all

lemma kept_read_data: "kept_by e E (boot_sahara_handle_read_data E' i off n)"
  unfolding boot_sahara_handle_read_data_def by (intro kept_intros kept_put kept_send kept_end)

lemma kept_end_or: "kept_by e E m \<Longrightarrow> kept_by e E (end_or E' status m)"
  unfolding end_or_def by (intro kept_intros kept_end)

lemmas kept_packets = kept_intros kept_log_packet kept_ssa kept_rx kept_tx kept_put kept_send kept_reset kept_end kept_read_data kept_end_or

subsection \<open>Images\<close>

lemma kept_on_success: "kept_by e E m \<Longrightarrow> kept_by e E n \<Longrightarrow> kept_by e E (on_success m n)"
  unfolding on_success_def by (intro kept_intros)

lemma kept_segment: "(\<And>seg. kept_by e E (f seg)) \<Longrightarrow> kept_by e E (with_segment E' i f)"
  unfolding with_segment_def by (intro kept_intros)

lemma kept_padded: "(\<And>n. kept_by e E (f n)) \<Longrightarrow> kept_by e E (with_padded_size E' m f)"
  unfolding with_padded_size_def by (intro kept_intros)

lemma kept_skip: "kept_by e E (skip_loop E' n left)"
proof (induction n arbitrary: left)
  case (Suc n)
  then show ?case unfolding skip_loop.simps by (intro kept_packets)
qed simp

lemma kept_receive_loop: "kept_by e E (receive_loop E' n off left space dest chunk)"
proof (induction n arbitrary: off left space dest chunk)
  case (Suc n)
  have mark: "kept_by e E (modify (\<lambda>s. if sahara_auth_elf s \<and> sahara_parallel_init s
      then s\<lparr>sahara_parallel_hash := True, sahara_parallel_buf := p, sahara_parallel_size := k\<rparr> else s))" for p k
    by (rule kept_modify) simp_all
  show ?case unfolding receive_loop.simps by (intro kept_packets mark Suc.IH)
qed simp

lemma kept_receive_data: "kept_by e E (boot_sahara_receive_data E' off n space dest)"
  unfolding boot_sahara_receive_data_def boot_sahara_skip_data_in_optmize_load_def
  by (intro kept_packets kept_on_success kept_skip kept_receive_loop kept_modify) simp_all

lemmas kept_images = kept_packets kept_on_success kept_segment kept_padded kept_receive_data

lemma kept_timeout: "kept_by e E (reset_on_timeout E' status)"
  unfolding reset_on_timeout_def by (intro kept_images kept_state) simp

lemma kept_binary: "kept_by e E (boot_sahara_receive_image_binary E')"
  unfolding boot_sahara_receive_image_binary_def receive_binary_def
  by (intro kept_images kept_timeout kept_state kept_modify) simp_all

lemma kept_verify_hdr: "kept_by e E (boot_sahara_verify_elf_hdr E')"
proof -
  have "kept_by e E (verify_start_loop E' h is)" for h "is" by (induction "is") (auto intro!: kept_images)
  then show ?thesis
    unfolding boot_sahara_verify_elf_hdr_def boot_sahara_elf_verify_start_addr_def
    by (intro kept_images kept_modify) simp_all
qed

lemma kept_zero_rest: "kept_by e E (zero_segment_rest seg status)"
  unfolding zero_segment_rest_def by (intro kept_images kept_modify) simp_all

lemma kept_segment_step: "kept_by e E (elf_segment_step E' k i)"
  unfolding elf_segment_step_def receive_segment_def receive_segment_data_def
  by (intro kept_images kept_zero_rest kept_modify) simp_all

lemma kept_segments: "kept_by e E (receive_segments E' k)"
proof -
  have "kept_by e E (elf_segments_loop E' k is status)" for "is" status
    by (induction "is" arbitrary: status) (unfold elf_segments_loop.simps, (intro kept_images kept_segment_step; assumption)+)
  then show ?thesis
    unfolding receive_segments_def boot_sahara_populate_elf_meta_info_def
    by (intro kept_images kept_modify) simp_all
qed

lemma kept_elf: "kept_by e E (boot_sahara_receive_image_elf E')"
proof -
  have auth: "kept_by e E (authenticate_elf E' p)" for p
    unfolding authenticate_elf_def by (intro kept_images kept_verify_hdr kept_modify) simp_all
  have flush: "kept_by e E (flush_loop E' n)" for n
  proof (induction n)
    case (Suc n)
    have left: "kept_by e E (modify (\<lambda>s. s\<lparr>remaining_elf_segments_data := remaining_elf_segments_data s - k\<rparr>))" for k
      by (rule kept_modify) simp_all
    show ?case unfolding flush_loop.simps by (intro kept_images left Suc.IH)
  qed simp
  have "kept_by e E (receive_elf E')"
    unfolding receive_elf_def receive_program_headers_def receive_hash_segment_def
    by (intro kept_images auth kept_segments kept_state kept_modify) simp_all
  then show ?thesis
    unfolding boot_sahara_receive_image_elf_def by (intro kept_images kept_timeout flush)
qed

lemma kept_receive_image: "kept_by e E (boot_sahara_receive_image E')"
  unfolding boot_sahara_receive_image_def end_reception_def
  by (intro kept_images kept_binary kept_elf kept_modify) simp_all


subsection \<open>The handlers\<close>

lemma kept_field: "kept_by e E (field32 E' off)" "kept_by e E (field64 E' off)"
  by (simp_all add: field32_def field64_def)

lemma kept_with_packet: "kept_by e E m \<Longrightarrow> kept_by e E (with_packet E' len n m)"
  unfolding with_packet_def by (intro kept_packets kept_field)

lemma kept_debug: "(\<And>M. mem_debug_tbl E' = Some M \<Longrightarrow> kept_by e E (f M)) \<Longrightarrow> kept_by e E (with_debug E' f)"
  unfolding with_debug_def by (rule kept_function)

lemmas kept_handlers = kept_packets kept_field kept_with_packet kept_debug kept_receive_image

lemma kept_hello: "kept_by e E (boot_sahara_handle_hello E')"
proof -
  have "kept_by e E (hello_loop E' n)" for n
  proof (induction n)
    case (Suc n)
    then show ?case unfolding hello_loop.simps by (intro kept_handlers)
  qed simp
  then show ?thesis unfolding boot_sahara_handle_hello_def by (intro kept_handlers kept_state) simp_all
qed

text \<open>The only place that lets the host ask for memory; it needs both permissions.\<close>

lemma kept_memory_debug:
  assumes "debug_allowed E"
  shows "kept_by True E (boot_sahara_handle_memory_debug E')"
proof -
  have wait: "kept_by True E (set_state SAHARA_STATE_WAIT_MEMORY_READ)"
    unfolding set_state_def by (rule keepsI) (use assms in \<open>simp add: keeps_protocol_def protocol_ok_def\<close>)
  show ?thesis
    unfolding boot_sahara_handle_memory_debug_def
    by (intro kept_handlers wait kept_modify) simp_all
qed

lemma kept_enter_mode: "kept_by e E (enter_mode E)"
proof -
  have debug: "keeps_protocol e E s (final (with_debug E (\<lambda>M.
           if \<not> mem_debug_supported M then boot_sahara_handle_end_image_tx E SAHARA_NAK_MEMORY_DEBUG_NOT_SUPPORTED
           else boot_sahara_handle_memory_debug E)) s)" if "sahara_mem_debug_enabled s" for s
  proof -
    have "kept_by True E (with_debug E (\<lambda>M.
           if \<not> mem_debug_supported M then boot_sahara_handle_end_image_tx E SAHARA_NAK_MEMORY_DEBUG_NOT_SUPPORTED
           else boot_sahara_handle_memory_debug E))"
      by (intro kept_handlers kept_memory_debug) (auto simp: debug_allowed_def)
    from keepsD [OF this, of s] that show ?thesis by (simp add: keeps_protocol_def)
  qed
  have ready: "kept_by e E (boot_sahara_handle_cmd_ready E)"
    unfolding boot_sahara_handle_cmd_ready_def by (intro kept_handlers kept_state) simp
  show ?thesis
  proof (rule keepsI)
    show "keeps_protocol e E s (final (enter_mode E) s)" for s
      using debug [of s] keepsD [OF ready, of s]
        keepsD [OF kept_end [where e = e and E = E and E' = E and status = SAHARA_NAK_MEMORY_DEBUG_NOT_SUPPORTED], of s]
        keepsD [OF kept_receive_image [where e = e and E = E and E' = E], of s]
      by (simp add: enter_mode_def)
  qed
qed

lemma kept_hello_resp: "kept_by e E (boot_sahara_handle_hello_resp E len)"
proof -
  have "kept_by e E (case v of Inl status \<Rightarrow> boot_sahara_handle_end_image_tx E status
     | Inr m \<Rightarrow> thn (case m of None \<Rightarrow> ret () | Some mode' \<Rightarrow> modify (sahara_mode_update (\<lambda>_. mode'))) (enter_mode E))"
    for v :: "u32 + u32 option"
    by (cases v) (auto intro!: kept_handlers kept_enter_mode kept_modify)
  then show ?thesis unfolding boot_sahara_handle_hello_resp_def by (intro kept_handlers)
qed

lemma kept_done: "kept_by e E (boot_sahara_handle_done E' len)"
proof -
  have "kept_by e E (done_resp_loop E' n)" for n
  proof (induction n)
    case (Suc n)
    then show ?case unfolding done_resp_loop.simps by (intro kept_handlers kept_state) simp_all
  qed simp
  then show ?thesis
    unfolding boot_sahara_handle_done_def boot_sahara_handle_done_resp_def by (intro kept_handlers kept_modify) simp_all
qed

lemma kept_restricted: "keeps (keeps_protocol e E :: ('h, 'a) sahara_scheme \<Rightarrow> _) (restricted_loop E' M addr left)"
proof (induction "unat left" arbitrary: addr left rule: less_induct)
  case less
  let ?sz = "if left > SAHARA_MAX_MEMORY_DATA_SIZE_IN_BYTES then SAHARA_MAX_MEMORY_DATA_SIZE_IN_BYTES else left"
  have rest: "keeps (keeps_protocol e E :: ('h, 'a) sahara_scheme \<Rightarrow> _) (restricted_loop E' M (addr + ?sz) (left - ?sz))" if "left \<noteq> 0"
  proof (rule less)
    have "?sz \<noteq> 0" "?sz \<le> left" using that by (auto split: if_splits)
    then show "unat (left - ?sz) < unat left" by (rule unat_minus_less)
  qed
  have buf: "kept_by e E (modify (sahara_mem_debug_buffer_update f))" for f by (rule kept_modify) simp_all
  show ?case unfolding restricted_loop.simps [of E' M addr left] Let_def by (intro kept_handlers buf rest)
qed

lemma kept_memory_read: "kept_by e E (boot_sahara_handle_memory_read E' len)"
  unfolding boot_sahara_handle_memory_read_def by (intro kept_handlers kept_restricted)

lemma kept_commands: "kept_by e E (boot_sahara_handle_cmd_exec E' len)" "kept_by e E (boot_sahara_handle_cmd_exec_data E' len)"
  "kept_by e E (boot_sahara_handle_cmd_switch_mode E' len)"
  "kept_by e E (boot_sahara_handle_reset E' len)" "kept_by e E (boot_sahara_handle_memory_64bits_read E' len)"
  unfolding boot_sahara_handle_cmd_exec_def boot_sahara_handle_cmd_exec_resp_def boot_sahara_handle_cmd_exec_data_def
    boot_sahara_handle_cmd_switch_mode_def boot_sahara_handle_reset_def boot_sahara_handle_reset_resp_def
    boot_sahara_handle_memory_64bits_read_def
  by (intro kept_handlers kept_state kept_modify; simp)+

lemma kept_handler: "packet_handler E cmd st len = Some m \<Longrightarrow> kept_by e E m"
  unfolding packet_handler_def
  by (auto split: if_splits intro: kept_hello_resp kept_done kept_memory_read kept_commands)

lemma kept_process_packet: "kept_by e E (process_packet E)"
  unfolding process_packet_def by (intro kept_handlers kept_handler kept_hello; assumption)

subsection \<open>The states that can be reached\<close>

lemma init_ok:
  assumes "boot_sahara_init E s0 = (Inr True, s)" and "length (sahara_log s0) = 100" and "sahara_packet_log_num s0 \<le> 100"
  shows "protocol_ok E s"
  using assms
  by (auto simp: boot_sahara_init_def init_tables_def clear_image_info_def client_call_def protocol_ok_def bnd_app thn_app ret_app
      whenb_def Let_def split: prod.splits sum.splits if_splits)

text \<open>
  (C9) Whatever the host sends, every state that a session can reach has the packet log inside
  its array, and waits for requests of memory only if the client has a memory debug table, the
  table was found complete, and it supports memory dumps.
\<close>

theorem sahara_reachable_ok:
  assumes "sahara_reach E s0 s" and "length (sahara_log s0) = 100" and "sahara_packet_log_num s0 \<le> 100"
  shows "(sahara_state s = SAHARA_STATE_WAIT_MEMORY_READ \<longrightarrow> sahara_mem_debug_enabled s \<and>
       (\<exists>M. mem_debug_tbl E = Some M \<and> mem_debug_supported M)) \<and>
     length (sahara_log s) = 100 \<and> sahara_packet_log_num s \<le> 100"
proof -
  have "protocol_ok E s"
    using assms(1)
  proof (induction rule: sahara_reach.induct)
    case (entered s t)
    then show ?case
      using init_ok [OF entered(1) assms(2,3)] keepsD [OF kept_hello [where e = False and E = E and E' = E], of s] by (simp add: keeps_protocol_def)
  next
    case (stepped s t)
    then show ?case
      using keepsD [OF kept_process_packet [where e = False and E = E], of s] by (auto elim!: sahara_stepE simp: keeps_protocol_def)
  qed
  then show ?thesis by (simp add: protocol_ok_def debug_allowed_def)
qed

text \<open>
  The entry of the protocol, when it returns after a session, does so from a state that is
  reachable and done, with the protocol set back to its initial state.
\<close>

lemma boot_sahara_entry_ends_done:
  assumes "boot_sahara_entry E s0 = (Inr True, t)"
  shows "\<exists>s. sahara_reach E s0 s \<and> sahara_done s \<and> sahara_state t = SAHARA_STATE_ENTRY \<and> sahara_done t \<and>
    memory t = memory s \<and> transmitted t = transmitted s"
proof -
  obtain s1 s2 s where "boot_sahara_init E s0 = (Inr True, s1)" and "boot_sahara_handle_hello E s1 = (Inr (), s2)"
    and loop: "process_packets_loop E (rounds E) s2 = (Inr (), s)"
    and t: "t = s\<lparr>sahara_state := SAHARA_STATE_ENTRY, sahara_auth_tbl := False, sahara_auth_elf := False, sahara_auth_bin := False\<rparr>"
    using assms
    by (auto simp: boot_sahara_entry_def boot_sahara_process_packets_def set_state_def bnd_app thn_app ret_app
        split: prod.splits sum.splits if_splits)
  then have "sahara_reach E s0 s2" by (blast intro: entered)
  with loop have "sahara_reach E s0 s \<and> sahara_done s" by (blast dest: loop_reaches)
  then show ?thesis using t by auto
qed


subsection \<open>After an error\<close>

text \<open>
  Waiting for the driver, receiving and logging change neither the state nor the status for the
  caller nor what has been sent.
\<close>

definition idle :: "('h, 'a) sahara_scheme \<Rightarrow> ('h, 'a) sahara_scheme \<Rightarrow> bool" where
  "idle s t \<longleftrightarrow> sahara_state t = sahara_state s \<and> transmitted t = transmitted s \<and> sahara_if_status t = sahara_if_status s"

interpretation idle: frame "idle :: ('h, 'a) sahara_scheme \<Rightarrow> _"
  by unfold_locales (auto simp: idle_def)

lemma idle_modify: "(\<And>s. idle s (f s)) \<Longrightarrow> keeps idle (modify f)"
  by (rule idle.keeps_modify)

lemma idle_call: "keeps idle (client_call f)"
  by (rule keepsI) (auto simp: client_call_def idle_def split: prod.splits)

lemma idle_log: "keeps idle (log_entry cmd len d)"
  unfolding log_entry_def by (rule idle_modify) (simp add: idle_def Let_def)

lemmas idle_basic = idle.keeps_bnd idle.keeps_thn idle.keeps_whenb keeps_if keeps_option kept_pair kept_let
  idle.keeps_ret idle.keeps_fatal idle.keeps_gets idle_call idle_log

lemma idle_dispatch: "keeps idle m \<Longrightarrow> keeps idle (with_dispatch m)"
  unfolding with_dispatch_def by (intro idle_basic)

lemma idle_auth: "(\<And>A. keeps idle (f A)) \<Longrightarrow> keeps idle (with_auth E f)"
  unfolding with_auth_def by (intro idle_basic)

lemma idle_deliver: "keeps idle (deliver ev)"
  unfolding deliver_def boot_sahara_rx_cb_def boot_sahara_tx_cb_def
  by (cases ev; simp; rule bulk_event.exhaust [of "the ev"]; simp)
    (intro idle_basic idle_dispatch idle_modify; simp add: idle_def)+

lemma idle_poll: "keeps idle (poll_until c E n)"
proof (induction n)
  case (Suc n)
  then show ?case unfolding poll_until.simps by (intro idle_basic idle_dispatch idle_deliver)
qed simp

lemma idle_log_packet: "keeps idle (boot_sahara_log_packet_buffer p len d)"
  unfolding boot_sahara_log_packet_buffer_def by (intro idle_basic)

lemma idle_ssa: "keeps idle (boot_sahara_ssa_update_rmb_length len st)"
  unfolding boot_sahara_ssa_update_rmb_length_def
  by (rule idle_modify) (simp add: idle_def split: boot_ssa_length_update_state.split)

lemma idle_rx: "keeps idle (boot_sahara_handle_rx E p len space typ)"
  unfolding boot_sahara_handle_rx_def
  by (intro idle_basic idle_dispatch idle_deliver idle_poll idle_ssa idle_auth idle_modify) (simp_all add: idle_def)

lemma tx_run:
  assumes "boot_sahara_handle_tx E q n s = (Inr x, t)"
  shows "sahara_state t = sahara_state s" and "transmitted t = (q, n) # transmitted s" and "sahara_if_status t = sahara_if_status s"
proof -
  let ?wait = "thn (bnd (client_call (\<lambda>(m, h). case tx_bulk E q n (m, h) of (ev, h') \<Rightarrow> (ev, m, h'))) deliver)
        (thn (poll_until sahara_tx_complete E (rounds E)) (gets (\<lambda>s. (sahara_tx_bytes_read s, sahara_tx_err_code s))))"
  let ?s = "transmitted_update ((#) (q, n))
      (s\<lparr>sahara_tx_bytes_read := 0, sahara_tx_err_code := BULK_SUCCESS, sahara_tx_complete := False\<rparr>)"
  have k: "keeps idle ?wait" by (intro idle_basic idle_deliver idle_poll)
  have "?wait ?s = (Inr x, t)"
    using assms by (simp add: boot_sahara_handle_tx_def with_dispatch_def fatal_app split: if_splits)
  then have "idle ?s t" using keepsD [OF k, of ?s] by simp
  then show "sahara_state t = sahara_state s" "transmitted t = (q, n) # transmitted s"
    "sahara_if_status t = sahara_if_status s" by (simp_all add: idle_def)
qed

lemma send_run:
  assumes "send_packet E s = (Inr x, t)"
  shows "sahara_state t = sahara_state s \<and> sahara_if_status t = sahara_if_status s \<and>
    transmitted t = (sahara_packet_buffer E, load32 (sahara_packet_buffer E + 4) (memory s)) # transmitted s"
proof -
  let ?p = "sahara_packet_buffer E" and ?n = "load32 (sahara_packet_buffer E + 4) (memory s)"
  obtain u where u: "boot_sahara_log_packet_buffer ?p ?n SAHARA_PACKET_TRANSMIT s = (Inr (), u)"
    by (simp add: boot_sahara_log_packet_buffer_def log_entry_def)
  have i: "idle s u" using keepsD [OF idle_log_packet [of ?p ?n SAHARA_PACKET_TRANSMIT], of s] u by simp
  obtain y v where tx: "boot_sahara_handle_tx E ?p ?n u = (Inr y, v)" and t: "t = v"
    using assms u by (auto simp: send_packet_def bnd_app thn_app ret_app split: prod.splits sum.splits)
  show ?thesis using tx_run [OF tx] i t by (simp add: idle_def)
qed

lemma reset_not_Inr: "boot_sahara_reset E s \<noteq> (Inr x, t)"
  by (simp add: boot_sahara_reset_def thn_app fatal_app split: prod.split sum.split)

lemma end_image_tx_run:
  assumes "status \<noteq> SAHARA_STATUS_SUCCESS" and "boot_sahara_handle_end_image_tx E status s = (Inr (), t)"
  shows "sahara_state t = SAHARA_STATE_WAIT_RESET \<and> sahara_if_status t = status \<and>
    transmitted t = (sahara_packet_buffer E, 16) # transmitted s"
proof -
  let ?p = "sahara_packet_buffer E"
  let ?s = "(memory_update (mem_write ?p (words_of [SAHARA_END_IMAGE_TX_ID, 16, expected_image s, status])) s)\<lparr>sahara_if_status := status\<rparr>"
  obtain len err complete u where send: "send_packet E ?s = (Inr (len, err, complete), u)"
    and rest: "(let tx = tx_status err complete
       in thn (whenb (status \<noteq> SAHARA_STATUS_SUCCESS \<or> tx \<noteq> SAHARA_STATUS_SUCCESS) (set_state SAHARA_STATE_WAIT_RESET))
            (whenb (tx \<noteq> SAHARA_STATUS_SUCCESS)
              (thn (modify (sahara_if_status_update (\<lambda>_. tx))) (boot_sahara_reset E)))) u = (Inr (), t)"
    using assms(2) by (auto simp: boot_sahara_handle_end_image_tx_def put_packet_def elim!: bnd_InrE)
  have "tx_status err complete = SAHARA_STATUS_SUCCESS"
  proof (rule ccontr)
    assume "tx_status err complete \<noteq> SAHARA_STATUS_SUCCESS"
    then show False using rest by (auto simp: Let_def set_state_def whenb_def reset_not_Inr)
  qed
  then have "t = u\<lparr>sahara_state := SAHARA_STATE_WAIT_RESET\<rparr>" using rest assms(1) by (simp add: Let_def set_state_def whenb_def ret_app)
  moreover have "load32 (?p + 4) (memory ?s) = 16" using load32_words [of "[expected_image s, status]"] by simp
  ultimately show ?thesis using send_run [OF send] by simp
qed


lemma handle_reset_run:
  assumes "boot_sahara_handle_reset E len s = (Inr (), t)"
  shows "sahara_state t = SAHARA_STATE_WAIT_RESET \<and> transmitted t = (sahara_packet_buffer E, 16) # transmitted s"
proof -
  have "boot_sahara_handle_reset_resp E s \<noteq> (Inr (), t)"
    by (simp add: boot_sahara_handle_reset_resp_def thn_app reset_not_Inr put_packet_def split: prod.split sum.split)
  then have "boot_sahara_handle_end_image_tx E SAHARA_NAK_INVALID_PACKET_SIZE s = (Inr (), t)"
    using assms by (simp add: boot_sahara_handle_reset_def with_packet_def field32_def split: if_splits)
  then show ?thesis using end_image_tx_run [of SAHARA_NAK_INVALID_PACKET_SIZE E s t] by simp
qed

lemma wait_reset_step:
  assumes step: "sahara_step E s t" and s: "sahara_state s = SAHARA_STATE_WAIT_RESET"
  shows "sahara_state t = SAHARA_STATE_WAIT_RESET \<and>
    (transmitted t = transmitted s \<or> transmitted t = (sahara_packet_buffer E, 16) # transmitted s)"
proof -
  let ?p = "sahara_packet_buffer E"
  let ?handle = "\<lambda>len. thn (boot_sahara_log_packet_buffer ?p len SAHARA_PACKET_RECEIVE)
       (bnd (gets (\<lambda>s. (ucast (memory s ?p), sahara_state s))) (\<lambda>(cmd, st).
         case packet_handler E cmd st len of
           Some handle \<Rightarrow> handle
         | None \<Rightarrow> whenb (st \<noteq> SAHARA_STATE_WAIT_HELLO_RESP) (boot_sahara_handle_end_image_tx E SAHARA_NAK_INVALID_CMD)))"
  from step obtain len err u v where rx: "boot_sahara_handle_rx E ?p SAHARA_MAX_PACKET_SIZE_IN_BYTES
        SAHARA_MAX_PACKET_SIZE_IN_BYTES SAHARA_PACKET_TYPE_COMMAND s = (Inr (len, err), u)"
    and handle: "whenb (len > 0) (?handle len) u = (Inr (), v)"
    and greet: "bnd (gets sahara_state) (\<lambda>st. whenb (st = SAHARA_STATE_WAIT_HELLO_RESP) (boot_sahara_handle_hello E)) v = (Inr (), t)"
    unfolding process_packet_def by (auto elim!: sahara_stepE bnd_InrE thn_InrE simp: process_packet_def)
  have "idle s (final (boot_sahara_handle_rx E ?p SAHARA_MAX_PACKET_SIZE_IN_BYTES
      SAHARA_MAX_PACKET_SIZE_IN_BYTES SAHARA_PACKET_TYPE_COMMAND) s)" by (rule keepsD) (rule idle_rx)
  then have u: "sahara_state u = SAHARA_STATE_WAIT_RESET" "transmitted u = transmitted s"
    using rx s by (simp_all add: idle_def)
  have v: "sahara_state v = SAHARA_STATE_WAIT_RESET \<and>
      (transmitted v = transmitted u \<or> transmitted v = (?p, 16) # transmitted u)"
  proof (cases "len > 0")
    case False
    then show ?thesis using handle u by (simp add: ret_app)
  next
    case True
    obtain l where l: "boot_sahara_log_packet_buffer ?p len SAHARA_PACKET_RECEIVE u = (Inr (), l)"
      by (simp add: boot_sahara_log_packet_buffer_def log_entry_def)
    have i: "sahara_state l = SAHARA_STATE_WAIT_RESET" "transmitted l = transmitted u"
      using keepsD [OF idle_log_packet [of ?p len SAHARA_PACKET_RECEIVE], of u] l u by (simp_all add: idle_def)
    let ?cmd = "ucast (memory l ?p) :: u32"
    have run: "(case packet_handler E ?cmd SAHARA_STATE_WAIT_RESET len of Some handle \<Rightarrow> handle
         | None \<Rightarrow> boot_sahara_handle_end_image_tx E SAHARA_NAK_INVALID_CMD) l = (Inr (), v)"
      using handle True i by (simp add: thn_app l split: option.splits)
    show ?thesis
    proof (cases "?cmd = SAHARA_RESET_ID")
      case True
      then have "boot_sahara_handle_reset E len l = (Inr (), v)" using run by (simp add: packet_handler_def)
      from handle_reset_run [OF this] show ?thesis using i by simp
    next
      case False
      then have "boot_sahara_handle_end_image_tx E SAHARA_NAK_INVALID_CMD l = (Inr (), v)"
        using run by (simp add: packet_handler_def)
      then show ?thesis using end_image_tx_run [of SAHARA_NAK_INVALID_CMD E l v] i by simp
    qed
  qed
  then have "t = v" using greet by (simp add: ret_app)
  then show ?thesis using v u by simp
qed


subsection \<open>An instance\<close>

text \<open>
  The static variables as the image starts with them, and a client without images whose driver
  completes every transfer at once. The host sends packets of eight bytes that are left as they
  are in the buffer.
\<close>

definition sahara_at_start :: "'h \<Rightarrow> 'h sahara" where
  "sahara_at_start h =
     \<lparr>memory = (\<lambda>_. 0), hw = h, transmitted = [], sahara_if_status = 0, sahara_if_mode = SAHARA_MODE_MEMORY_DEBUG,
      sahara_dispatch_tbl = False, sahara_auth_tbl = False, sahara_state = SAHARA_STATE_ENTRY, sahara_done = False,
      sahara_mode = 0, expected_image = 0, expected_image_type = SAHARA_IMAGE_UNKNOWN, image_rx_complete = False,
      is_secure = False, sahara_binary_image_info = False, binary_image_id = 0, elf_image_id = 0,
      sahara_cmd_exec_client_command = 0, sahara_cmd_exec_data_length = 0, sahara_cmd_exec_data = 0,
      sahara_mem_debug_buffer = 0, sahara_mem_debug_enabled = False,
      sahara_log = replicate 100 \<lparr>log_command = 0, log_state = SAHARA_STATE_ENTRY, log_length = 0,
        log_direction = SAHARA_PACKET_TRANSMIT, log_num = 0\<rparr>,
      sahara_packet_log_num = 0, sahara_packet_log_num_total = 0,
      sahara_rx_bytes_read = 0, sahara_rx_err_code = 0, sahara_rx_complete = False,
      sahara_tx_bytes_read = 0, sahara_tx_err_code = 0, sahara_tx_complete = False,
      sahara_auth_elf = False, sahara_auth_bin = False, sahara_is_ehdr_phdr_hash_success = False,
      sahara_parallel_init = False, sahara_parallel_hash = False, sahara_parallel_buf = 0, sahara_parallel_size = 0,
      sahara_ssa_enabled = False, sahara_ssa_is_rx_for_elf_segments = False, sahara_shared_seg_found = False,
      delayed_length_update = 0, last_loaded_segment_end_offset = 0, sahara_start_of_segment_load = False,
      remaining_elf_segments_data = 0, elf_hash_table = 0, elf_shared_seg_index = 0, elf_entry_address = 0,
      elf_total_segments_size = 0\<rparr>"

definition sample_client :: "unit sahara_env" where
  "sample_client =
     \<lparr>sahara_packet_buffer = 0x85E40000, rounds = 1, dispatch_complete = True, mem_debug_complete = True, auth_tbl = None,
      mem_debug_tbl = None, bulk_init = (\<lambda>(m, h). (BULK_SUCCESS, m, h)), bulk_shutdown = (\<lambda>h. h),
      bulk_poll = (\<lambda>(m, h). (None, m, h)), rx_bulk = (\<lambda>p n typ (m, h). (Some (Rx_event 8 BULK_SUCCESS), m, h)),
      tx_bulk = (\<lambda>p n (m, h). (Some (Tx_event n BULK_SUCCESS), h)),
      get_max_packet_size = 512, get_max_raw_data_size = 0x100000, valid_address_range = (\<lambda>_ _ _. False),
      exec_cmd = (\<lambda>cmd (m, h). ((0, 0, 0), m, h)), auth_enabled = False, get_bin_header_size = 40,
      get_bin_image_id = None, get_bin_image_dest = None, get_bin_image_size = (\<lambda>_ _. 0), get_bin_image_src = None,
      image_load_post_proc = (\<lambda>(m, h). (0, m, h)), skip_image_load = (\<lambda>_. False), get_hash_segment_buffer = 0,
      elf_optimized_segment_load = False, preprocess_header = None, get_orig_hash_index = None,
      bin_image_header = 0, elf_image_header = 0, prog_headers = 0\<rparr>"

lemma sample_rounds: "rounds sample_client = Suc 0"
  by (simp add: sample_client_def)

lemma sample_client_fields:
  "sahara_packet_buffer sample_client = 0x85E40000"
  "tx_bulk sample_client = (\<lambda>p n (m, h). (Some (Tx_event n BULK_SUCCESS), h))"
  "rx_bulk sample_client = (\<lambda>p n typ (m, h). (Some (Rx_event 8 BULK_SUCCESS), m, h))"
  by (simp_all add: sample_client_def)

lemma sample_tx:
  assumes "sahara_dispatch_tbl s"
  shows "\<exists>t. boot_sahara_handle_tx sample_client p n s = (Inr (n, 0), t) \<and> memory t = memory s \<and> sahara_dispatch_tbl t"
  using assms
  by (simp add: boot_sahara_handle_tx_def sample_rounds sample_client_fields with_dispatch_def client_call_def deliver_def
      boot_sahara_tx_cb_def bnd_app thn_app ret_app)

lemma sample_send:
  assumes "sahara_dispatch_tbl s"
  shows "\<exists>t. send_packet sample_client s = (Inr (load32 (0x85E40000 + 4) (memory s), 0, True), t) \<and> sahara_dispatch_tbl t"
proof -
  let ?n = "load32 (0x85E40000 + 4) (memory s)"
  obtain u where u: "boot_sahara_log_packet_buffer 0x85E40000 ?n SAHARA_PACKET_TRANSMIT s = (Inr (), u)" "memory u = memory s"
    "sahara_dispatch_tbl u"
    using assms by (simp add: boot_sahara_log_packet_buffer_def log_entry_def Let_def)
  from sample_tx [OF u(3), of "0x85E40000" ?n] u show ?thesis
    by (auto simp: send_packet_def sample_client_fields bnd_app thn_app ret_app)
qed

lemma sample_hello:
  assumes "sahara_dispatch_tbl s"
  shows "\<exists>t. boot_sahara_handle_hello sample_client s = (Inr (), t)"
proof -
  obtain u where u: "put_packet sample_client [SAHARA_HELLO_ID, 48, SAHARA_VERSION_MAJOR, SAHARA_VERSION_MAJOR_SUPPORTED,
            SAHARA_MAX_PACKET_SIZE_IN_BYTES, sahara_mode s, 0, 0, 0, 0, 0, 0] s = (Inr (), u)" "sahara_dispatch_tbl u"
    using assms by (simp add: put_packet_def)
  from sample_send [OF u(2)] u show ?thesis
    by (auto simp: boot_sahara_handle_hello_def sample_rounds bnd_app thn_app ret_app set_state_def)
qed

lemma sample_end_image:
  assumes "sahara_dispatch_tbl s"
  shows "\<exists>t. boot_sahara_handle_end_image_tx sample_client status s = (Inr (), t)"
proof -
  obtain u where u: "put_packet sample_client [SAHARA_END_IMAGE_TX_ID, 16, expected_image s, status] s = (Inr (), u)" "sahara_dispatch_tbl u"
    using assms by (simp add: put_packet_def)
  have v: "sahara_dispatch_tbl (u\<lparr>sahara_if_status := status\<rparr>)" using u(2) by simp
  from sample_send [OF v] u show ?thesis
    by (auto simp: boot_sahara_handle_end_image_tx_def bnd_app thn_app ret_app set_state_def Let_def tx_status_def whenb_def)
qed

lemma sample_init:
  "\<exists>s. boot_sahara_init sample_client (sahara_at_start ()) = (Inr True, s) \<and> sahara_dispatch_tbl s"
  by (simp add: boot_sahara_init_def init_tables_def clear_image_info_def client_call_def sample_client_def sahara_at_start_def
      bnd_app thn_app ret_app whenb_def)

lemma sample_round:
  assumes "sahara_dispatch_tbl s" and "sahara_state s = SAHARA_STATE_WAIT_RESET" and "memory s = (\<lambda>_. 0)" and "\<not> sahara_parallel_hash s"
  shows "\<exists>t. process_packet sample_client s = (Inr (), t)"
proof -
  obtain u where u: "boot_sahara_handle_rx sample_client 0x85E40000 SAHARA_MAX_PACKET_SIZE_IN_BYTES
        SAHARA_MAX_PACKET_SIZE_IN_BYTES SAHARA_PACKET_TYPE_COMMAND s = (Inr (8, 0), u)"
    "sahara_dispatch_tbl u" "sahara_state u = SAHARA_STATE_WAIT_RESET" "memory u = (\<lambda>_. 0)"
    using assms
    by (simp add: boot_sahara_handle_rx_def rx_request_def sample_client_def with_dispatch_def client_call_def deliver_def
      boot_sahara_rx_cb_def boot_sahara_ssa_update_rmb_length_def bnd_app thn_app ret_app)
  obtain v where v: "boot_sahara_log_packet_buffer 0x85E40000 8 SAHARA_PACKET_RECEIVE u = (Inr (), v)"
    "sahara_dispatch_tbl v" "sahara_state v = SAHARA_STATE_WAIT_RESET" "memory v = (\<lambda>_. 0)"
    using u by (simp add: boot_sahara_log_packet_buffer_def log_entry_def Let_def)
  obtain t where t: "boot_sahara_handle_end_image_tx sample_client SAHARA_NAK_INVALID_CMD v = (Inr (), t)"
    using sample_end_image [OF v(2)] by blast
  then have "sahara_state t = SAHARA_STATE_WAIT_RESET" using end_image_tx_run [of SAHARA_NAK_INVALID_CMD sample_client v t] by simp
  with t u v show ?thesis
    by (auto simp: process_packet_def sample_client_fields packet_handler_def bnd_app thn_app ret_app)
qed

lemma sahara_reachable_ok_witness:
  "\<exists>s. sahara_reach sample_client (sahara_at_start ()) s \<and> sahara_state s \<noteq> SAHARA_STATE_WAIT_MEMORY_READ \<and>
    length (sahara_log s) = 100 \<and> sahara_packet_log_num s \<le> 100"
proof -
  obtain s t where "boot_sahara_init sample_client (sahara_at_start ()) = (Inr True, s)"
      and "boot_sahara_handle_hello sample_client s = (Inr (), t)"
    using sample_init sample_hello by blast
  then have "sahara_reach sample_client (sahara_at_start ()) t" by (rule entered)
  moreover have "mem_debug_tbl sample_client = None" by (simp add: sample_client_def)
  moreover have "length (sahara_log (sahara_at_start ())) = 100" "sahara_packet_log_num (sahara_at_start ()) \<le> 100"
    by (simp_all add: sahara_at_start_def)
  ultimately show ?thesis using sahara_reachable_ok [of sample_client "sahara_at_start ()" t] by auto
qed

text \<open>An error before the session, and a packet that is not known after it.\<close>

definition sample_failed :: "unit sahara" where
  "sample_failed = (sahara_at_start ())\<lparr>sahara_dispatch_tbl := True, sahara_state := SAHARA_STATE_WAIT_RESET\<rparr>"



end
