(* ===== verification/Mem_Debug.thy ===== *)
theory Mem_Debug
  imports Boot_Monad
begin

text \<open>
  The table of the memory regions a dump may contain (boot\_dload\_debug.c) and how it is
  filled on this target (boot\_dload\_debug\_target.c, boot\_minidump.c): the fixed regions, the
  DDR in parts of two gigabytes, and the regions that software registers for a small dump. The
  arrays of the files are lists here. What drivers put into the small static buffers whose
  addresses are registered is not modelled; the calls that clear or encrypt regions are kept as
  a trace.
\<close>

abbreviation (input) "NUM_REGIONS \<equiv> (300 :: u32)"
abbreviation (input) "DLOAD_DEBUG_STRLEN_BYTES \<equiv> (20 :: nat)"
abbreviation (input) "SIZEOF_DLOAD_DEBUG_TYPE \<equiv> (64 :: u64)"
abbreviation (input) "SCRIPT_BUF_SIZE \<equiv> (32768 :: int)"
abbreviation (input) "SV_MEMORY_SIZE_LIMIT \<equiv> (0x8000000 :: u64)"
abbreviation (input) "DDR_DUMP_REMAP_BASE \<equiv> (0xC0000000 :: u64)"
abbreviation (input) "BL_ERR_RAM_DUMP_FAIL \<equiv> (0x0060 :: u32)"
abbreviation (input) "SBL_DLOAD_MODE_BIT_MASK \<equiv> (0x10 :: u32)"
abbreviation (input) "SBL_MINIDUMP_MODE_BIT_MASK \<equiv> (0x20 :: u32)"
abbreviation (input) "SHARED_IMEM_BASE \<equiv> (0x146BF000 :: u64)"
abbreviation (input) "SHARED_IMEM_SIZE \<equiv> (0x1000 :: u64)"
abbreviation (input) "SCL_pIMEM_BASE \<equiv> (0x1C000000 :: u64)"
abbreviation (input) "SCL_DDR_TRAINING_DATA_BUF_SIZE \<equiv> (0x6000 :: u64)"
abbreviation (input) "MAX_NUM_OF_SS \<equiv> (10 :: nat)"
abbreviation (input) "MD_REGION_NAME_LENGTH \<equiv> (16 :: nat)"
abbreviation (input) "MD_REGION_VALID \<equiv> (0x56414C49 :: u32)"
abbreviation (input) "MD_SS_ENCR_REQ \<equiv> (0x00594553 :: u32)"
abbreviation (input) "MD_SS_ENCR_DONE \<equiv> (0x444F4E45 :: u32)"
abbreviation (input) "MD_SS_ENABLED \<equiv> (0x454E424C :: u32)"

datatype dload_save_pref_type = OPTIONAL_DEF_NO_SAVE | OPTIONAL_DEF_SAVE | MANDATORY

definition pref_code :: "dload_save_pref_type \<Rightarrow> u64" where
  "pref_code p = (case p of OPTIONAL_DEF_NO_SAVE \<Rightarrow> 0 | OPTIONAL_DEF_SAVE \<Rightarrow> 1 | MANDATORY \<Rightarrow> 2)"

record dload_debug_type =
  save_pref :: u64
  mem_base :: u64
  region_length :: u64
  desc :: string
  filename :: string

record dload_restricted_region =
  restricted_base :: u64
  restricted_length :: u64

record memory_region =
  region_base :: u32
  region_size :: u32
  region_desc :: string
  region_filename :: string

text \<open>The calls that protect the content of regions: the key set-up, clearing and encryption.\<close>

datatype md_call = Crypto_init | Clear_region u64 u64 | Encrypt_region u64 u64 u32

record dload =
  dload_debug_info :: "dload_debug_type list"
  real_num_regions :: u32
  dload_restricted_regions :: "dload_restricted_region list"
  num_restricted_regions :: u32
  region_table_fixed_length :: bool
  cmm_script :: string
  dload_flag :: u32
  start_index_default :: u32
  protection :: "md_call list"

definition empty_region :: dload_debug_type where
  "empty_region = \<lparr>save_pref = 0, mem_base = 0, region_length = 0, desc = [], filename = []\<rparr>"

subsection \<open>The table\<close>

definition dload_debug_add_region ::
  "dload_save_pref_type \<Rightarrow> u64 \<Rightarrow> u64 \<Rightarrow> string \<Rightarrow> string \<Rightarrow> (dload, bool) boot" where
  "dload_debug_add_region pref base len dsc fname =
     bnd (gets real_num_regions) (\<lambda>i.
       if length dsc < DLOAD_DEBUG_STRLEN_BYTES \<and> length fname < DLOAD_DEBUG_STRLEN_BYTES \<and> i < NUM_REGIONS then
         thn (modify (\<lambda>d. d\<lparr>dload_debug_info := (dload_debug_info d)[unat i := \<lparr>save_pref = pref_code pref,
                mem_base = base AND NOT 3, region_length = len AND NOT 3, desc = dsc, filename = fname\<rparr>],
              real_num_regions := i + 1\<rparr>)) (ret True)
       else ret False)"

definition dload_debug_add_restricted_region :: "u64 \<Rightarrow> u64 \<Rightarrow> (dload, unit) boot" where
  "dload_debug_add_restricted_region base len =
     bnd (gets num_restricted_regions) (\<lambda>i.
       whenb (i < NUM_REGIONS)
         (modify (\<lambda>d. d\<lparr>dload_restricted_regions := (dload_restricted_regions d)[unat i :=
              \<lparr>restricted_base = base AND NOT 3, restricted_length = len AND NOT 3\<rparr>],
            num_restricted_regions := i + 1\<rparr>)))"

definition dload_mem_debug_len :: "dload \<Rightarrow> u32" where
  "dload_mem_debug_len d =
     (if region_table_fixed_length d then real_num_regions d * 64
      else sum_list (map (\<lambda>r. 8 + 8 + 8 + (of_nat (length (desc r)) + 1) + (of_nat (length (filename r)) + 1))
             (take (unat (real_num_regions d)) (dload_debug_info d))))"

text \<open>The test of a range against one entry, with the end of the entry as the code computes it.\<close>

definition within_entry :: "u64 \<Rightarrow> u64 \<Rightarrow> u64 \<Rightarrow> u64 \<Rightarrow> bool" where
  "within_entry base input_end_addr start len \<longleftrightarrow> base \<ge> start \<and> input_end_addr \<le> start + len - 1"

definition dload_mem_debug_verify_addr :: "u64 \<Rightarrow> dload \<Rightarrow> u64 \<Rightarrow> u64 \<Rightarrow> bool" where
  "dload_mem_debug_verify_addr info_addr d base len =
     (let input_end_addr = base + len - 1
      in if len = 0 \<or> input_end_addr < base then False
         else if within_entry base input_end_addr info_addr (SIZEOF_DLOAD_DEBUG_TYPE * ucast NUM_REGIONS) then True
         else list_ex (\<lambda>r. within_entry base input_end_addr (mem_base r) (region_length r))
                (take (unat (real_num_regions d)) (dload_debug_info d)))"

definition dload_mem_debug_is_restricted_addr :: "dload \<Rightarrow> u64 \<Rightarrow> u64 \<Rightarrow> bool" where
  "dload_mem_debug_is_restricted_addr d base len =
     (let input_end_addr = base + len - 1
      in if len = 0 \<or> input_end_addr < base then False
         else list_ex (\<lambda>r. within_entry base input_end_addr (restricted_base r) (restricted_length r))
                (take (unat (num_restricted_regions d)) (dload_restricted_regions d)))"

definition dload_mem_debug_is_remap_needed :: "dload \<Rightarrow> u64 \<Rightarrow> u64 \<Rightarrow> bool" where
  "dload_mem_debug_is_remap_needed d base len =
     (let input_end_addr = base + len - 1
      in if len = 0 \<or> input_end_addr < base then False
         else list_ex (\<lambda>r. within_entry base input_end_addr (mem_base r) (region_length r) \<and>
                  region_length r > SV_MEMORY_SIZE_LIMIT \<and> base > DDR_DUMP_REMAP_BASE)
                (take (unat (real_num_regions d)) (dload_debug_info d)))"

text \<open>The entries are read by an index of 8 bits.\<close>

definition dload_entry :: "dload \<Rightarrow> u8 \<Rightarrow> dload_debug_type option" where
  "dload_entry d i = (if ucast i < real_num_regions d then Some (dload_debug_info d ! unat i) else None)"

definition dload_mem_debug_save_pref :: "dload \<Rightarrow> u8 \<Rightarrow> u8" where
  "dload_mem_debug_save_pref d i = (case dload_entry d i of Some r \<Rightarrow> ucast (save_pref r) | None \<Rightarrow> 0)"

definition dload_mem_debug_mem_base :: "dload \<Rightarrow> u8 \<Rightarrow> u64" where
  "dload_mem_debug_mem_base d i = (case dload_entry d i of Some r \<Rightarrow> mem_base r | None \<Rightarrow> 0)"

definition dload_mem_debug_mem_length :: "dload \<Rightarrow> u8 \<Rightarrow> u64" where
  "dload_mem_debug_mem_length d i = (case dload_entry d i of Some r \<Rightarrow> region_length r | None \<Rightarrow> 0)"

definition dload_mem_debug_desc :: "dload \<Rightarrow> u8 \<Rightarrow> string option" where
  "dload_mem_debug_desc d i = map_option desc (dload_entry d i)"

definition dload_mem_debug_filename :: "dload \<Rightarrow> u8 \<Rightarrow> string option" where
  "dload_mem_debug_filename d i = map_option filename (dload_entry d i)"

subsection \<open>Numbers as text\<close>

fun digits_of :: "nat \<Rightarrow> nat \<Rightarrow> nat list" where
  "digits_of base n = (if base < 2 \<or> n < base then [n] else digits_of base (n div base) @ [n mod base])"

declare digits_of.simps [simp del]

definition digit_char :: "nat \<Rightarrow> char" where
  "digit_char k = (if k > 9 then char_of (k - 10 + 97) else char_of (k + 48))"

definition dec :: "nat \<Rightarrow> string" where
  "dec n = map digit_char (digits_of 10 n)"

definition hex :: "nat \<Rightarrow> string" where
  "hex n = map digit_char (digits_of 16 n)"

text \<open>
  \<^verbatim>\<open>snprintf\<close> to a buffer of the given size, \<^verbatim>\<open>strlcpy\<close> and \<^verbatim>\<open>strlcat\<close> leave a text of at most
  one character less.
\<close>

definition snprintf :: "nat \<Rightarrow> string \<Rightarrow> string" where
  "snprintf n txt = take (n - 1) txt"

definition strlcat :: "string \<Rightarrow> string \<Rightarrow> nat \<Rightarrow> string" where
  "strlcat dst src n = (if length dst \<ge> n then dst else dst @ take (n - 1 - length dst) src)"

subsection \<open>The board and the other parts of the boot loader\<close>

datatype smem_mem_type = SMEM_HW_SW_BUILD_ID | SMEM_IMAGE_VERSION_TABLE

record md_ss_region =
  region_name :: string
  seq_num :: u32
  md_valid :: u32
  region_base_address :: u64
  md_region_size :: u64

record md_ss_toc =
  md_ss_toc_init :: u32
  md_ss_enable_status :: u32
  encryption_status :: u32
  encryption_required :: u32
  ss_region_count :: u32
  md_ss_smem_regions_baseptr :: u64

record dload_env =
  dload_debug_info_addr :: u64
  cmm_script_addr :: u64
  mob_sw_rev :: string
  saved_cookie :: u32
  ddr_info :: "(u64 \<times> u64) list"
  training_data_listed :: bool
  ddr_training_data_dump :: u64
  pmic_power_on :: u64
  pmic_pon_history :: u64
  reset_status_register :: u64
  aoss_cc_fsm_status_register :: u64
  aoss_cc_fsm_ctrl_register :: u64
  pimem_size :: "u32 option"
  smem_get_addr :: "smem_mem_type \<Rightarrow> (u64 \<times> u32) option"
  auth_is_enabled :: bool
  oem_key :: bool
  md_global_toc :: "md_ss_toc list option"
  smem_region_at :: "u64 \<Rightarrow> md_ss_region"
  dload_rsa_encr_key :: u64
  dload_aes_key_iv :: u64
  dload_aes_key_mac :: u64

definition low32 :: "u64 \<Rightarrow> u64" where
  "low32 a = ucast (ucast a :: u32)"

definition verified_region :: "u64 \<Rightarrow> u64 \<Rightarrow> string \<Rightarrow> string \<Rightarrow> (dload, unit) boot" where
  "verified_region base len dsc fname =
     bnd (dload_debug_add_region OPTIONAL_DEF_SAVE base len dsc fname) (\<lambda>ok.
       bl_verify ok (bl_err BL_ERR_RAM_DUMP_FAIL BL_ERROR_GROUP_BOOT))"

subsection \<open>The regions of this target\<close>

definition memory_region_table :: "memory_region list" where
  "memory_region_table =
     [\<lparr>region_base = 0x14680000, region_size = 0x40000, region_desc = ''OCIMEM'', region_filename = ''OCIMEM.BIN''\<rparr>,
      \<lparr>region_base = 0x0B000000, region_size = 0x18000, region_desc = ''AOP Code RAM region'', region_filename = ''CODERAM.BIN''\<rparr>,
      \<lparr>region_base = 0x0B0E0000, region_size = 0x8000, region_desc = ''AOP Data RAM region'', region_filename = ''DATARAM.BIN''\<rparr>] @
     map (\<lambda>k. \<lparr>region_base = 0x0C300000 + 0x10000 * of_nat k, region_size = 0x400,
        region_desc = ''AOP MSGRAM'' @ dec k @ '' region'', region_filename = ''MSGRAM'' @ dec k @ ''.BIN''\<rparr>) [0..<16] @
     [\<lparr>region_base = 0x09060000, region_size = 0x10000, region_desc = ''SHRM MEM region'', region_filename = ''SHRM_MEM.BIN''\<rparr>,
      \<lparr>region_base = 0x01028000, region_size = 0x18000, region_desc = ''DCC SRAM region'', region_filename = ''DCC_SRAM.BIN''\<rparr>,
      \<lparr>region_base = 0x01023000, region_size = 0x1000, region_desc = ''DCC CFG region'', region_filename = ''DCC_CFG.BIN''\<rparr>,
      \<lparr>region_base = 0x80000000, region_size = 0x1F0, region_desc = ''CD STRCT region'', region_filename = ''CD_STRCT.BIN''\<rparr>,
      \<lparr>region_base = 0x800001F0, region_size = 0x100000, region_desc = ''CD BTDDR region'', region_filename = ''CD_BTDDR.BIN''\<rparr>,
      \<lparr>region_base = 0x801001F0, region_size = 0x180000, region_desc = ''CD BTIMM region'', region_filename = ''CD_BTIMM.BIN''\<rparr>,
      \<lparr>region_base = 0x802801F0, region_size = 0x1000, region_desc = ''CD SHIMM region'', region_filename = ''CD_SHIMM.BIN''\<rparr>]"

definition ipa_memory_region_table :: "memory_region list" where
  "ipa_memory_region_table =
     [\<lparr>region_base = 0x01EA0000, region_size = 0x9F00, region_desc = ''IPA IRAM region'', region_filename = ''IPA_IU.BIN''\<rparr>,
      \<lparr>region_base = 0x01E50000, region_size = 0x4B20, region_desc = ''IPA SRAM region'', region_filename = ''IPA_SRAM.BIN''\<rparr>,
      \<lparr>region_base = 0x01E60000, region_size = 0xB9B0, region_desc = ''IPA HRAM region'', region_filename = ''IPA_HRAM.BIN''\<rparr>,
      \<lparr>region_base = 0x01EC2000, region_size = 0x100, region_desc = ''IPA MBOX region'', region_filename = ''IPA_MBOX.BIN''\<rparr>,
      \<lparr>region_base = 0x01E06000, region_size = 0x1500, region_desc = ''IPA GSI  region'', region_filename = ''IPA_GSI.BIN''\<rparr>,
      \<lparr>region_base = 0x01E81000, region_size = 0x300, region_desc = ''IPA SEQ region'', region_filename = ''IPA_SEQ.BIN''\<rparr>]"

text \<open>The arrays end at an entry whose base is 0.\<close>

fun add_table :: "memory_region list \<Rightarrow> bool \<Rightarrow> (dload, bool) boot" where
  "add_table [] status = ret status"
| "add_table (r # rs) status =
     (if region_base r = 0 then ret status
      else bnd (dload_debug_add_region OPTIONAL_DEF_SAVE (ucast (region_base r)) (ucast (region_size r)) (region_desc r) (region_filename r))
        (\<lambda>ok. if \<not> ok then ret False else add_table rs True))"

definition dload_mem_debug_is_device_retail_unlocked :: bool where
  "dload_mem_debug_is_device_retail_unlocked = False"

definition dload_add_ipa_memory_regions :: "(dload, unit) boot" where
  "dload_add_ipa_memory_regions =
     for_each ipa_memory_region_table
       (\<lambda>r. verified_region (ucast (region_base r)) (ucast (region_size r)) (region_desc r) (region_filename r))"

definition dload_add_pmic_info :: "dload_env \<Rightarrow> bool \<Rightarrow> (dload, unit) boot" where
  "dload_add_pmic_info E is_md_enabled =
     thn (verified_region (low32 (pmic_power_on E)) 8 ''Pmic PON stat''
           (snprintf DLOAD_DEBUG_STRLEN_BYTES (if is_md_enabled then ''MD_PMIC_PON.BIN'' else ''PMIC_PON.BIN'')))
      (verified_region (low32 (pmic_pon_history E)) 204 ''PM PON HIST ''
           (snprintf DLOAD_DEBUG_STRLEN_BYTES (if is_md_enabled then ''MD_PMON_HIS.BIN'' else ''PMON_HIS.BIN'')))"

definition dload_add_reset_status :: "dload_env \<Rightarrow> bool \<Rightarrow> (dload, unit) boot" where
  "dload_add_reset_status E is_md_enabled =
     verified_region (low32 (reset_status_register E)) 4 ''Reset Status Region''
       (snprintf DLOAD_DEBUG_STRLEN_BYTES (if is_md_enabled then ''MD_RST_STAT.BIN'' else ''RST_STAT.BIN''))"

definition dload_add_ddr_training_data :: "dload_env \<Rightarrow> (dload, unit) boot" where
  "dload_add_ddr_training_data E =
     whenb (training_data_listed E)
       (verified_region (low32 (ddr_training_data_dump E)) SCL_DDR_TRAINING_DATA_BUF_SIZE ''DDR Training Data'' ''DDR_DATA.BIN'')"

definition dload_add_pimem_region :: "dload_env \<Rightarrow> (dload, unit) boot" where
  "dload_add_pimem_region E =
     (case pimem_size E of None \<Rightarrow> ret ()
      | Some size_in_mb \<Rightarrow> verified_region SCL_pIMEM_BASE (ucast (push_bit 20 size_in_mb)) ''PIMEM region'' ''PIMEM.BIN'')"

definition dload_add_aoss_cc_regs :: "dload_env \<Rightarrow> (dload, unit) boot" where
  "dload_add_aoss_cc_regs E =
     thn (verified_region (low32 (aoss_cc_fsm_status_register E)) 4 ''Aoss rst fsm stat'' ''FSM_STS.BIN'')
      (verified_region (low32 (aoss_cc_fsm_ctrl_register E)) 4 ''Aoss rst fsm ctrl'' ''FSM_CTRL.BIN'')"

text \<open>One chip select of the DDR, in parts of at most two gigabytes.\<close>

definition ddr_part :: "u64 \<Rightarrow> u64" where
  "ddr_part sz = (if sz \<ge> 0x80000000 then 0x80000000 else sz)"

lemma ddr_part_le: "ddr_part sz \<le> sz" "ddr_part sz \<le> 0x80000000"
  by (simp_all add: ddr_part_def not_le less_imp_le)

lemma ddr_part_less: "sz - ddr_part sz \<noteq> 0 \<Longrightarrow> unat (sz - ddr_part sz) < unat sz"
  using unat_minus_less [of "ddr_part sz" sz] ddr_part_le [of sz] by (auto simp: ddr_part_def)

function ddr_parts_loop :: "nat \<Rightarrow> u64 \<Rightarrow> u64 \<Rightarrow> u64 \<Rightarrow> (dload, unit) boot" where
  "ddr_parts_loop index start_addr sz file_cnt =
     thn (verified_region (start_addr + 0x80000000 * file_cnt) (ddr_part sz)
           (snprintf DLOAD_DEBUG_STRLEN_BYTES ('' DDR CS'' @ dec index @ '' part'' @ dec (unat (ucast file_cnt :: u32)) @ '' Memory''))
           (snprintf DLOAD_DEBUG_STRLEN_BYTES (''DDRCS'' @ dec index @ ''_'' @ dec (unat (ucast file_cnt :: u32)) @ ''.BIN'')))
       (if sz - ddr_part sz = 0 then ret () else ddr_parts_loop index start_addr (sz - ddr_part sz) (file_cnt + 1))"
  by pat_completeness auto
termination
  by (relation "measure (\<lambda>(index, start_addr, sz, file_cnt). unat sz)") (simp_all add: ddr_part_less)

declare ddr_parts_loop.simps [simp del]

definition dload_add_ddr :: "dload_env \<Rightarrow> (dload, unit) boot" where
  "dload_add_ddr E =
     for_each [0..<length (ddr_info E)] (\<lambda>i. case ddr_info E ! i of (cs_addr, ramsize) \<Rightarrow> ddr_parts_loop i cs_addr (push_bit 20 ramsize) 0)"

subsection \<open>The regions of a small dump\<close>

text \<open>The bound of the DDR, the sum of its parts from the first chip select on.\<close>

definition ddr_end_addr :: "dload_env \<Rightarrow> u64" where
  "ddr_end_addr E = (case ddr_info E of [] \<Rightarrow> 0 | c # _ \<Rightarrow> fst c + sum_list (map (push_bit 20 \<circ> snd) (ddr_info E)))"

definition md_is_valid_smem_entry :: "dload_env \<Rightarrow> u64 \<Rightarrow> u64 \<Rightarrow> bool" where
  "md_is_valid_smem_entry E base sz \<longleftrightarrow>
     base > 0 \<and> base < ddr_end_addr E \<and> sz \<noteq> 0 \<and> base + sz < ddr_end_addr E"

definition add_one_region_to_dump :: "md_ss_region \<Rightarrow> (dload, unit) boot" where
  "add_one_region_to_dump r =
     (let name = strlcat ''md_'' (region_name r) MD_REGION_NAME_LENGTH;
          name' = (if seq_num r > 0 \<and> seq_num r < 10000 then strlcat name (dec (unat (seq_num r))) MD_REGION_NAME_LENGTH else name);
          fname = strlcat name' ''.BIN'' DLOAD_DEBUG_STRLEN_BYTES
      in bnd (dload_debug_add_region OPTIONAL_DEF_SAVE (region_base_address r) (md_region_size r) name' fname) (\<lambda>_. ret ()))"

text \<open>The regions between two indices, as the functions that protect them read them.\<close>

definition protected_regions :: "dload \<Rightarrow> u32 \<Rightarrow> u32 \<Rightarrow> (u64 \<times> u64 \<times> u32) list" where
  "protected_regions d start_index num_regions =
     map (\<lambda>i. (dload_mem_debug_mem_base d (of_nat i), dload_mem_debug_mem_length d (of_nat i), of_nat i))
       [unat start_index..<unat num_regions]"

definition dload_debug_check_oem_key :: "dload_env \<Rightarrow> u32 \<Rightarrow> u32 \<Rightarrow> (dload, unit) boot" where
  "dload_debug_check_oem_key E start_index num_regions =
     whenb (\<not> oem_key E) (modify (\<lambda>d. d\<lparr>protection := protection d @
       map (\<lambda>(base, len, i). Clear_region base len) (protected_regions d start_index num_regions)\<rparr>))"

definition dload_debug_encr_all_regions :: "u32 \<Rightarrow> u32 \<Rightarrow> (dload, unit) boot" where
  "dload_debug_encr_all_regions start_index num_regions =
     modify (\<lambda>d. d\<lparr>protection := protection d @
       map (\<lambda>(base, len, i). Encrypt_region base len i) (protected_regions d start_index num_regions)\<rparr>)"

definition dload_debug_crypto_init :: "(dload, unit) boot" where
  "dload_debug_crypto_init = modify (\<lambda>d. d\<lparr>protection := protection d @ [Crypto_init]\<rparr>)"

definition md_subsystem_regions :: "dload_env \<Rightarrow> md_ss_toc \<Rightarrow> (dload, unit) boot" where
  "md_subsystem_regions E ss =
     for_each [0..<unat (ss_region_count ss)] (\<lambda>k.
       let r = smem_region_at E (md_ss_smem_regions_baseptr ss + 40 * of_nat k)
       in whenb (md_valid r = MD_REGION_VALID \<and> md_is_valid_smem_entry E (region_base_address r) (md_region_size r))
            (add_one_region_to_dump r))"

definition md_subsystem :: "dload_env \<Rightarrow> md_ss_toc \<Rightarrow> (dload, unit) boot" where
  "md_subsystem E ss =
     (if md_ss_toc_init ss = 0 then ret ()
      else if md_ss_enable_status ss = MD_SS_ENABLED \<and> encryption_required ss = MD_SS_ENCR_REQ then
        bnd (gets real_num_regions) (\<lambda>start_index.
        thn (md_subsystem_regions E ss)
        (whenb (auth_is_enabled E)
          (bnd (gets real_num_regions) (\<lambda>n.
            thn (dload_debug_check_oem_key E start_index n) (dload_debug_encr_all_regions start_index n)))))
      else if md_ss_enable_status ss = MD_SS_ENABLED \<and>
        (auth_is_enabled E \<and> encryption_status ss = MD_SS_ENCR_DONE \<or> \<not> auth_is_enabled E) then
        md_subsystem_regions E ss
      else ret ())"

definition add_minidump_regions :: "dload_env \<Rightarrow> (dload, unit) boot" where
  "add_minidump_regions E =
     (case md_global_toc E of None \<Rightarrow> ret ()
      | Some toc \<Rightarrow> thn (whenb (auth_is_enabled E) dload_debug_crypto_init)
          (for_each (take MAX_NUM_OF_SS toc) (md_subsystem E)))"

definition add_default_smem_entries :: "dload_env \<Rightarrow> (dload, unit) boot" where
  "add_default_smem_entries E =
     for_each [(SMEM_HW_SW_BUILD_ID, ''MD_SMEMINFO.BIN''), (SMEM_IMAGE_VERSION_TABLE, ''MD_SMEM_VER.BIN'')] (\<lambda>(smem_id, fname).
       case smem_get_addr E smem_id of None \<Rightarrow> ret ()
       | Some (addr, sz) \<Rightarrow> bnd (dload_debug_add_region OPTIONAL_DEF_SAVE (low32 addr) (ucast sz) ''SMEM info'' fname) (\<lambda>_. ret ()))"

definition dload_add_minidump_regions :: "dload_env \<Rightarrow> (dload, unit) boot" where
  "dload_add_minidump_regions E =
     thn (add_minidump_regions E)
     (thn (modify (\<lambda>d. d\<lparr>start_index_default := real_num_regions d\<rparr>))
     (thn (add_default_smem_entries E)
     (thn (dload_add_pmic_info E True)
     (thn (dload_add_reset_status E True)
      (bnd (dload_debug_add_region OPTIONAL_DEF_SAVE SHARED_IMEM_BASE SHARED_IMEM_SIZE ''Shared IMEM'' ''MD_SHRDIMEM.BIN'') (\<lambda>_. ret ()))))))"

text \<open>The three buffers the encryption fills, as its file registers them.\<close>

definition cil_md_add_unencr_regions :: "dload_env \<Rightarrow> (dload, unit) boot" where
  "cil_md_add_unencr_regions E =
     for_each (takeWhile (\<lambda>(addr, sz, dsc, fname). (ucast addr :: u32) \<noteq> 0)
       [(dload_rsa_encr_key E, 256, ''Encrypted AES Key'', ''md_encr_key_aes.BIN''),
        (dload_aes_key_iv E, 300 * 256, ''IV key region'', ''md_encr_key_iv.BIN''),
        (dload_aes_key_mac E, 300 * 256, ''MAC region'', ''md_encr_key_mac.BIN'')])
       (\<lambda>(addr, sz, dsc, fname). bnd (dload_debug_add_region OPTIONAL_DEF_SAVE (low32 addr) sz dsc fname) (\<lambda>_. ret ()))"

subsection \<open>Filling the table\<close>

definition dload_mem_debug_target_init :: "dload_env \<Rightarrow> (dload, unit) boot" where
  "dload_mem_debug_target_init E =
     thn (modify (\<lambda>d. d\<lparr>region_table_fixed_length := True, dload_flag := saved_cookie E\<rparr>))
     (thn (whenb (saved_cookie E AND SBL_DLOAD_MODE_BIT_MASK \<noteq> 0)
        (thn (bnd (add_table (if dload_mem_debug_is_device_retail_unlocked then [] else memory_region_table) False) (\<lambda>ok.
                bl_verify ok (bl_err BL_ERR_RAM_DUMP_FAIL BL_ERROR_GROUP_BOOT)))
        (thn dload_add_ipa_memory_regions
        (thn (dload_add_pmic_info E False)
        (thn (dload_add_reset_status E False)
        (thn (dload_add_ddr_training_data E)
        (thn (dload_add_pimem_region E)
        (thn (dload_add_aoss_cc_regs E) (dload_add_ddr E)))))))))
      (whenb (saved_cookie E AND SBL_MINIDUMP_MODE_BIT_MASK \<noteq> 0) (dload_add_minidump_regions E)))"

definition dload_mem_debug_post_target_init :: "dload_env \<Rightarrow> (dload, unit) boot" where
  "dload_mem_debug_post_target_init E =
     bnd (gets (\<lambda>d. (dload_flag d, start_index_default d, real_num_regions d))) (\<lambda>(flag, start, n).
       whenb (flag AND SBL_MINIDUMP_MODE_BIT_MASK \<noteq> 0 \<and> auth_is_enabled E)
         (thn (dload_debug_check_oem_key E start n) (thn (dload_debug_encr_all_regions start n) (cil_md_add_unencr_regions E))))"

text \<open>
  A line of the script: what fits of it is written, and the space left shrinks by its length.
  The line with the time is for builds with either of two macros, which this one does not set.
\<close>

definition script_line :: "string \<Rightarrow> string \<times> int \<Rightarrow> string \<times> int" where
  "script_line txt st = (case st of (script, bufsize) \<Rightarrow>
     (if bufsize > 0 then script @ take (nat bufsize - 1) txt else script, bufsize - int (length txt)))"

definition newline :: string where
  "newline = [CHR 0x0A]"

definition cmm_region :: "dload_debug_type \<Rightarrow> string" where
  "cmm_region r = ''if OS.FILE('' @ filename r @ '')'' @ newline @ ''('' @ newline @
     ''  d.load.binary '' @ filename r @ '' 0x'' @ hex (unat (mem_base r)) @ '' /noclear'' @ newline @ '')'' @ newline"

definition cmm_text :: "dload_env \<Rightarrow> dload \<Rightarrow> string" where
  "cmm_text E d = fst (script_line (newline @ newline @ newline)
     (fold (\<lambda>r. script_line (cmm_region r)) (take (unat (real_num_regions d)) (dload_debug_info d))
       (script_line (''; Build ID: '' @ mob_sw_rev E @ newline) ([], SCRIPT_BUF_SIZE))))"

definition dload_mem_debug_init :: "dload_env \<Rightarrow> (dload, unit) boot" where
  "dload_mem_debug_init E =
     thn (modify (\<lambda>d. d\<lparr>real_num_regions := 0, dload_debug_info := replicate 300 empty_region, region_table_fixed_length := False\<rparr>))
     (thn (dload_mem_debug_target_init E)
     (thn (modify (\<lambda>d. d\<lparr>cmm_script := cmm_text E d\<rparr>))
     (bnd (gets (\<lambda>d. of_nat (length (cmm_script d)))) (\<lambda>len.
     bnd (dload_debug_add_region MANDATORY (cmm_script_addr E) len ''CMM Script'' ''load.cmm'') (\<lambda>_.
       dload_mem_debug_post_target_init E)))))"


subsection \<open>The invariant of the table\<close>

text \<open>
  The table has its 300 entries, of which the used ones satisfy \<open>P\<close>. A computation keeps this
  from whatever state it starts; it registers no restricted region and does not turn a full dump
  into a small one.
\<close>

definition dump_table_ok :: "(dload_debug_type \<Rightarrow> bool) \<Rightarrow> dload \<Rightarrow> bool" where
  "dump_table_ok P d \<longleftrightarrow> length (dload_debug_info d) = 300 \<and> real_num_regions d \<le> NUM_REGIONS \<and>
     (\<forall>r \<in> set (take (unat (real_num_regions d)) (dload_debug_info d)). P r)"

definition dump_table_rel :: "(dload_debug_type \<Rightarrow> bool) \<Rightarrow> dload \<Rightarrow> dload \<Rightarrow> bool" where
  "dump_table_rel P d d' \<longleftrightarrow> num_restricted_regions d' = num_restricted_regions d \<and> (dump_table_ok P d \<longrightarrow> dump_table_ok P d') \<and>
     (dload_flag d AND SBL_MINIDUMP_MODE_BIT_MASK = 0 \<longrightarrow> dload_flag d' AND SBL_MINIDUMP_MODE_BIT_MASK = 0) \<and>
     (length (cmm_script d) \<le> 32767 \<longrightarrow> length (cmm_script d') \<le> 32767)"

interpretation dump_table: frame "dump_table_rel P" for P
  by unfold_locales (auto simp: dump_table_rel_def)

lemmas dump_table_intros = dump_table.keeps_bnd dump_table.keeps_thn dump_table.keeps_whenb dump_table.keeps_for_each dump_table.keeps_ret dump_table.keeps_gets
  dump_table.keeps_bl_verify keeps_if keeps_option

lemma used_after:
  fixes n :: u32
  assumes "unat n < length xs" and "n < 300"
  shows "take (unat (n + 1)) (xs[unat n := x]) = take (unat n) xs @ [x]"
proof -
  have "unat (n + 1) = Suc (unat n)" using assms(2) by (simp add: unat_word_ariths word_less_nat_alt)
  then show ?thesis using assms by (simp add: take_Suc_conv_app_nth)
qed

lemma add_region_used:
  assumes "length (dload_debug_info d) = 300" and "real_num_regions d < NUM_REGIONS" and "length dsc < 20" and "length fname < 20"
  shows "\<exists>d'. dload_debug_add_region pref base len dsc fname d = (Inr True, d') \<and>
    num_restricted_regions d' = num_restricted_regions d \<and> dload_flag d' = dload_flag d \<and> cmm_script d' = cmm_script d \<and>
    length (dload_debug_info d') = 300 \<and>
    real_num_regions d' = real_num_regions d + 1 \<and> take (unat (real_num_regions d')) (dload_debug_info d') =
      take (unat (real_num_regions d)) (dload_debug_info d) @
      [\<lparr>save_pref = pref_code pref, mem_base = base AND NOT 3, region_length = len AND NOT 3, desc = dsc, filename = fname\<rparr>]"
proof -
  have "unat (real_num_regions d) < length (dload_debug_info d)" using assms(1,2) by (simp add: word_less_nat_alt)
  from used_after [OF this assms(2)] show ?thesis
    using assms by (simp add: dload_debug_add_region_def ret_app)
qed

lemma add_region_keeps:
  assumes P: "\<And>pref. P \<lparr>save_pref = pref, mem_base = base AND NOT 3, region_length = len AND NOT 3, desc = dsc, filename = fname\<rparr>"
  shows "keeps (dump_table_rel P) (dload_debug_add_region pref base len dsc fname)"
proof (rule keepsI)
  fix d
  show "dump_table_rel P d (final (dload_debug_add_region pref base len dsc fname) d)"
  proof (cases "dump_table_ok P d \<and> real_num_regions d < NUM_REGIONS \<and> length dsc < 20 \<and> length fname < 20")
    case True
    then show ?thesis
      using add_region_used [of d dsc fname pref base len] P [of "pref_code pref"] inc_le [of "real_num_regions d" 300]
      by (auto simp: dump_table_rel_def dump_table_ok_def)
  qed (auto simp: dump_table_rel_def dload_debug_add_region_def ret_app)
qed

lemma verified_region_keeps:
  "(\<And>pref. P \<lparr>save_pref = pref, mem_base = base AND NOT 3, region_length = len AND NOT 3, desc = dsc, filename = fname\<rparr>) \<Longrightarrow>
    keeps (dump_table_rel P) (verified_region base len dsc fname)"
  unfolding verified_region_def by (intro dump_table_intros add_region_keeps)


subsection \<open>What the test of a range accepts\<close>

lemma last_byte:
  fixes base len :: u64
  assumes "len \<noteq> 0"
  shows "base \<le> base + len - 1 \<longleftrightarrow> unat base + unat len \<le> 2 ^ 64"
    and "unat base + unat len \<le> 2 ^ 64 \<Longrightarrow> unat (base + len - 1) = unat base + unat len - 1"
proof -
  have len: "unat (len - 1) = unat len - 1" "0 < unat len" using assms unat_gt_0 [of len] by (simp_all add: unat_minus_one)
  have e: "base + len - 1 = base + (len - 1)" by simp
  show "base \<le> base + len - 1 \<longleftrightarrow> unat base + unat len \<le> 2 ^ 64"
    unfolding e no_wrap_iff len(1) using len(2) by linarith
  then show "unat (base + len - 1) = unat base + unat len - 1" if "unat base + unat len \<le> 2 ^ 64"
    using that unat_add_nowrap [of base "len - 1"] len unfolding e by simp
qed

definition entry_ok :: "dload_debug_type \<Rightarrow> bool" where
  "entry_ok r \<longleftrightarrow> region_length r \<noteq> 0 \<and> unat (mem_base r) + unat (region_length r) \<le> 2 ^ 64"

lemma within_entry_iff:
  assumes "len \<noteq> 0" and "unat base + unat len \<le> 2 ^ 64" and "l \<noteq> 0" and "unat start + unat l \<le> 2 ^ 64"
  shows "within_entry base (base + len - 1) start l \<longleftrightarrow> unat start \<le> unat base \<and> unat base + unat len \<le> unat start + unat l"
proof -
  have "0 < unat len" "0 < unat l" using assms(1,3) by (simp_all add: unat_gt_0)
  then show ?thesis
    unfolding within_entry_def word_le_nat_alt last_byte(2) [OF assms(1,2)] last_byte(2) [OF assms(3,4)] by linarith
qed

text \<open>An entry whose end wraps accepts nothing, unless it is empty and at address 0.\<close>

lemma within_entry_bytes:
  assumes "within_entry base (base + len - 1) start l" and "len \<noteq> 0" and "base \<le> base + len - 1" and "l \<noteq> 0 \<or> start \<noteq> 0"
    and "unat (x - base) < unat len"
  shows "in_range start l x"
proof -
  have w: "unat base + unat len \<le> 2 ^ 64" using assms(2,3) last_byte(1) by blast
  have le: "start \<le> start + l - 1" using assms(1,3) unfolding within_entry_def by (meson order_trans)
  have l: "l \<noteq> 0"
  proof
    assume "l = 0"
    then have "start \<noteq> 0" "start \<le> start - 1" using assms(4) le by simp_all
    then show False using unat_minus_one [of start] unat_gt_0 [of start] by (simp add: word_le_nat_alt) 
  qed
  have w': "unat start + unat l \<le> 2 ^ 64" using le last_byte(1) [OF l] by blast
  have s: "unat start \<le> unat base" and e: "unat base + unat len \<le> unat start + unat l"
    using assms(1) within_entry_iff [OF assms(2) w l w'] by blast+
  have d: "unat (base - start) = unat base - unat start" using s by (simp add: unat_sub word_le_nat_alt)
  have "unat (x - base) + unat (base - start) < 2 ^ 64"
    using assms(5) s e w' unat64_lt [of start] unfolding d by linarith
  then have "unat (x - base + (base - start)) = unat (x - base) + unat (base - start)"
    using unat_add_nowrap no_wrap_iff by blast
  moreover have "x - base + (base - start) = x - start" by simp
  ultimately have "unat (x - start) = unat (x - base) + (unat base - unat start)" by (simp only: d)
  then show ?thesis using assms(5) s e unfolding in_range_def by linarith
qed

lemma info_area: "unat (SIZEOF_DLOAD_DEBUG_TYPE * ucast NUM_REGIONS) = 19200" "SIZEOF_DLOAD_DEBUG_TYPE * ucast NUM_REGIONS \<noteq> 0"
  by simp_all

text \<open>
  (C17) A range is approved for a dump exactly when it is not empty, does not wrap, and lies in
  the table itself or in a single registered region; for tables without empty and wrapping
  regions.
\<close>

theorem dload_mem_debug_verify_addr_exact:
  assumes "dump_table_ok entry_ok d" and "unat info + 19200 \<le> 2 ^ 64"
  shows "dload_mem_debug_verify_addr info d base len \<longleftrightarrow> len \<noteq> 0 \<and> unat base + unat len \<le> 2 ^ 64 \<and>
    (unat info \<le> unat base \<and> unat base + unat len \<le> unat info + 19200 \<or>
     (\<exists>r \<in> set (take (unat (real_num_regions d)) (dload_debug_info d)).
        unat (mem_base r) \<le> unat base \<and> unat base + unat len \<le> unat (mem_base r) + unat (region_length r)))"
proof (cases "len \<noteq> 0 \<and> unat base + unat len \<le> 2 ^ 64")
  case True
  then have n: "\<not> base + len - 1 < base" using last_byte(1) [of len base] by simp
  have i: "within_entry base (base + len - 1) info (SIZEOF_DLOAD_DEBUG_TYPE * ucast NUM_REGIONS) \<longleftrightarrow>
      unat info \<le> unat base \<and> unat base + unat len \<le> unat info + 19200"
    using within_entry_iff [of len base "SIZEOF_DLOAD_DEBUG_TYPE * ucast NUM_REGIONS" info] True assms(2)
    by (simp only: info_area) simp
  have e: "within_entry base (base + len - 1) (mem_base r) (region_length r) \<longleftrightarrow>
      unat (mem_base r) \<le> unat base \<and> unat base + unat len \<le> unat (mem_base r) + unat (region_length r)"
    if "r \<in> set (take (unat (real_num_regions d)) (dload_debug_info d))" for r
    using that assms(1) True unfolding dump_table_ok_def entry_ok_def by (intro within_entry_iff) auto
  show ?thesis
    unfolding dload_mem_debug_verify_addr_def Let_def i list_ex_iff using True n e by auto
next
  case False
  then have "len = 0 \<or> base + len - 1 < base" using last_byte(1) [of len base] not_less by blast
  then show ?thesis using False unfolding dload_mem_debug_verify_addr_def Let_def by auto
qed

definition sample_region :: "u64 \<Rightarrow> u64 \<Rightarrow> dload_debug_type" where
  "sample_region base len = \<lparr>save_pref = 1, mem_base = base, region_length = len, desc = ''OCIMEM'', filename = ''OCIMEM.BIN''\<rparr>"

definition sample_dload :: "nat \<Rightarrow> dload" where
  "sample_dload n =
     \<lparr>dload_debug_info = replicate n (sample_region 0x14680000 0x40000) @ replicate (300 - n) empty_region, real_num_regions = of_nat n,
      dload_restricted_regions = [], num_restricted_regions = 0, region_table_fixed_length = True, cmm_script = [],
      dload_flag = 0, start_index_default = 0, protection = []\<rparr>"

lemma sample_dload_ok: "n \<le> 300 \<Longrightarrow> dump_table_ok entry_ok (sample_dload n)"
proof -
  assume n: "n \<le> 300"
  then have "unat (of_nat n :: u32) = n" by (simp add: unat_of_nat)
  then show ?thesis
    using n by (simp add: sample_dload_def dump_table_ok_def word_le_nat_alt) (simp add: entry_ok_def sample_region_def)
qed

lemma dload_mem_debug_verify_addr_exact_witness:
  "dload_mem_debug_verify_addr 0x14840000 (sample_dload 1) 0x14681000 0x1000 \<and>
   \<not> dload_mem_debug_verify_addr 0x14840000 (sample_dload 1) 0x14681000 0x40000"
proof -
  have one: "take (unat (real_num_regions (sample_dload 1))) (dload_debug_info (sample_dload 1)) = [sample_region 0x14680000 0x40000]"
    by (simp add: sample_dload_def)
  have "dload_mem_debug_verify_addr 0x14840000 (sample_dload 1) 0x14681000 0x1000"
    by (rule dload_mem_debug_verify_addr_exact [OF sample_dload_ok [of 1], THEN iffD2]) (simp_all only: one, simp_all add: sample_region_def)
  moreover have "\<not> dload_mem_debug_verify_addr 0x14840000 (sample_dload 1) 0x14681000 0x40000"
    using dload_mem_debug_verify_addr_exact [where d = "sample_dload 1" and info = "0x14840000" and base = "0x14681000" and len = "0x40000", OF sample_dload_ok]
    by (simp only: one) (simp add: sample_region_def)
  ultimately show ?thesis by simp
qed

text \<open>In particular no byte outside the table and the registered regions is approved.\<close>

lemma verified_bytes:
  assumes "dload_mem_debug_verify_addr info d base len" and "unat (x - base) < unat len" and "info \<noteq> 0"
    and "\<And>r. r \<in> set (take (unat (real_num_regions d)) (dload_debug_info d)) \<Longrightarrow> region_length r \<noteq> 0 \<or> mem_base r \<noteq> 0"
  shows "unat (x - info) < 19200 \<or> (\<exists>r \<in> set (take (unat (real_num_regions d)) (dload_debug_info d)). in_range (mem_base r) (region_length r) x)"
proof -
  have c: "len \<noteq> 0" "base \<le> base + len - 1" using assms(1) by (auto simp: dload_mem_debug_verify_addr_def Let_def split: if_splits)
  consider "within_entry base (base + len - 1) info (SIZEOF_DLOAD_DEBUG_TYPE * ucast NUM_REGIONS)"
    | r where "r \<in> set (take (unat (real_num_regions d)) (dload_debug_info d))" "within_entry base (base + len - 1) (mem_base r) (region_length r)"
    using assms(1) by (auto simp: dload_mem_debug_verify_addr_def Let_def list_ex_iff split: if_splits)
  then show ?thesis
  proof cases
    case 1
    from within_entry_bytes [OF this c _ assms(2)] assms(3) show ?thesis by (simp add: in_range_def)
  next
    case 2
    then show ?thesis using within_entry_bytes [OF 2(2) c assms(4) [OF 2(1)] assms(2)] by blast
  qed
qed


subsection \<open>The parts of the DDR\<close>

definition word_aligned :: "u64 \<Rightarrow> bool" where
  "word_aligned a \<longleftrightarrow> take_bit 2 a = 0"

lemma and_not_3: "word_aligned a \<Longrightarrow> a AND NOT 3 = a"
proof -
  assume "word_aligned a"
  then have z: "\<not> bit a n" if "n < 2" for n
    using that unfolding word_aligned_def by (metis bit_take_bit_iff bit_0_eq bot_apply bot_bool_def)
  have "a AND NOT (mask 2) = a" by (rule bit_word_eqI) (auto simp: bit_simps z intro: ccontr)
  then show ?thesis by (simp add: mask_eq_exp_minus_1)
qed

lemmas and_m4 = and_not_3 [simplified]

lemma word_aligned_iff: "word_aligned a \<longleftrightarrow> unat a mod 4 = 0"
  unfolding word_aligned_def
  by (metis numeral_2_eq_2 power_numeral unat_0 unsigned_eq_0_iff unsigned_take_bit_eq take_bit_eq_mod num_double numeral_times_numeral power2_eq_square)

lemma word_aligned_add: "word_aligned a \<Longrightarrow> word_aligned b \<Longrightarrow> word_aligned (a + b)"
  unfolding word_aligned_iff by (simp add: unat_word_ariths mod_mod_cancel) presburger

lemma word_aligned_diff: "word_aligned a \<Longrightarrow> word_aligned b \<Longrightarrow> word_aligned (a - b)"
proof -
  assume a: "word_aligned a" "word_aligned b"
  have "unat a = (unat (a - b) + unat b) mod 2 ^ 64" using unat_word_ariths(1) [of "a - b" b] by simp
  then have "unat a mod 4 = (unat (a - b) + unat b) mod 4" by (simp add: mod_mod_cancel)
  then have "(unat (a - b) mod 4 + unat b mod 4) mod 4 = 0" using a(1) unfolding word_aligned_iff by (simp add: mod_add_eq)
  then show ?thesis using a(2) unfolding word_aligned_iff by simp
qed

lemma word_aligned_part: "word_aligned sz \<Longrightarrow> word_aligned (ddr_part sz)"
  by (simp add: ddr_part_def word_aligned_iff)

lemma word_aligned_MB: "word_aligned (push_bit 20 r)"
  by (simp add: word_aligned_def take_bit_push_bit)

text \<open>The parts as they follow from each other.\<close>

function ddr_parts :: "u64 \<Rightarrow> u64 \<Rightarrow> (u64 \<times> u64) list" where
  "ddr_parts start sz =
     (start, ddr_part sz) # (if sz - ddr_part sz = 0 then [] else ddr_parts (start + ddr_part sz) (sz - ddr_part sz))"
  by pat_completeness auto
termination
  by (relation "measure (\<lambda>(start, sz). unat sz)") (simp_all add: ddr_part_less)

declare ddr_parts.simps [simp del]

lemma length_ddr_parts: "length (ddr_parts start sz) \<le> unat sz div 2147483648 + 1"
proof (induction start sz rule: ddr_parts.induct)
  case (1 start sz)
  show ?case
  proof (cases "sz - ddr_part sz = 0")
    case False
    then have p: "ddr_part sz = 0x80000000" "0x80000000 \<le> sz" by (auto simp: ddr_part_def split: if_splits)
    then have "unat (sz - ddr_part sz) = unat sz - 2147483648" "2147483648 \<le> unat sz" by (simp_all add: unat_sub word_le_nat_alt)
    then show ?thesis using 1 [OF False] by (subst ddr_parts.simps) (simp add: False le_div_geq del: right_minus_eq)
  qed (subst ddr_parts.simps, simp)
qed

lemma ddr_parts_size: "(a, l) \<in> set (ddr_parts start sz) \<Longrightarrow> l \<le> 0x80000000"
proof (induction start sz rule: ddr_parts.induct)
  case (1 start sz)
  then show ?case
    using ddr_part_le(2) [of sz] by (subst (asm) (2) ddr_parts.simps) (cases "sz - ddr_part sz = 0", auto simp del: right_minus_eq)
qed

lemma split_range:
  fixes start sz part x :: u64
  assumes "part \<le> sz"
  shows "in_range start sz x \<longleftrightarrow> in_range start part x \<or> in_range (start + part) (sz - part) x"
proof -
  have d: "unat (sz - part) = unat sz - unat part" "unat part \<le> unat sz" using assms by (simp_all add: unat_sub word_le_nat_alt)
  have e: "x - (start + part) = (x - start) - part" by simp
  show ?thesis
  proof (cases "part \<le> x - start")
    case True
    then have "unat ((x - start) - part) = unat (x - start) - unat part" by (rule unat_sub)
    then show ?thesis using True d unfolding in_range_def e by (auto simp: word_le_nat_alt)
  next
    case False
    then have "unat (x - start) < unat part" by (simp add: word_le_nat_alt not_le)
    then show ?thesis using d unfolding in_range_def by auto
  qed
qed

lemma ddr_parts_cover: "(\<exists>(a, l) \<in> set (ddr_parts start sz). in_range a l x) \<longleftrightarrow> in_range start sz x"
proof (induction start sz rule: ddr_parts.induct)
  case (1 start sz)
  have s: "in_range start sz x \<longleftrightarrow> in_range start (ddr_part sz) x \<or> in_range (start + ddr_part sz) (sz - ddr_part sz) x"
    by (rule split_range) (rule ddr_part_le)
  show ?case
  proof (cases "sz - ddr_part sz = 0")
    case True
    then have "ddr_parts start sz = [(start, ddr_part sz)]" by (subst ddr_parts.simps) simp
    then show ?thesis using s True by (simp add: in_range_def)
  next
    case False
    then have "ddr_parts start sz = (start, ddr_part sz) # ddr_parts (start + ddr_part sz) (sz - ddr_part sz)"
      by (subst ddr_parts.simps) simp
    then show ?thesis using s 1 [OF False] by simp
  qed
qed

definition used_ranges :: "dload \<Rightarrow> (u64 \<times> u64) list" where
  "used_ranges d = map (\<lambda>r. (mem_base r, region_length r)) (take (unat (real_num_regions d)) (dload_debug_info d))"

lemma verified_region_run:
  assumes "length (dload_debug_info d) = 300" and "real_num_regions d < NUM_REGIONS" and "length dsc < 20" and "length fname < 20"
    and "word_aligned base" and "word_aligned len"
  obtains d' where "verified_region base len dsc fname d = (Inr (), d')" and "length (dload_debug_info d') = 300"
    and "real_num_regions d' = real_num_regions d + 1" and "used_ranges d' = used_ranges d @ [(base, len)]"
  using add_region_used [OF assms(1-4), of OPTIONAL_DEF_SAVE base len] assms(5,6)
  by (auto simp: verified_region_def bnd_app ret_app used_ranges_def and_m4)

lemma length_snprintf: "length (snprintf 20 txt) < 20"
  by (simp add: snprintf_def)

lemma ddr_parts_loop_run:
  assumes "length (dload_debug_info d) = 300"
    and "unat (real_num_regions d) + length (ddr_parts (start + 0x80000000 * k) sz) \<le> 300"
    and "word_aligned (start + 0x80000000 * k)" and "word_aligned sz"
  shows "\<exists>d'. ddr_parts_loop i start sz k d = (Inr (), d') \<and> used_ranges d' = used_ranges d @ ddr_parts (start + 0x80000000 * k) sz"
  using assms
proof (induction i start sz k arbitrary: d rule: ddr_parts_loop.induct)
  case (1 i start sz k)
  let ?a = "start + 0x80000000 * k"
  note al = word_aligned_part [OF 1(5)]
  have n: "real_num_regions d < NUM_REGIONS" using 1(3) by (subst (asm) ddr_parts.simps) (simp add: word_less_nat_alt)
  obtain d1 where run: "verified_region ?a (ddr_part sz)
        (snprintf DLOAD_DEBUG_STRLEN_BYTES ('' DDR CS'' @ dec i @ '' part'' @ dec (unat (ucast k :: u32)) @ '' Memory''))
        (snprintf DLOAD_DEBUG_STRLEN_BYTES (''DDRCS'' @ dec i @ ''_'' @ dec (unat (ucast k :: u32)) @ ''.BIN'')) d = (Inr (), d1)"
      and d1: "length (dload_debug_info d1) = 300" "real_num_regions d1 = real_num_regions d + 1"
        "used_ranges d1 = used_ranges d @ [(?a, ddr_part sz)]"
    by (rule verified_region_run [OF 1(2) n length_snprintf length_snprintf 1(4) al])
  have loop: "ddr_parts_loop i start sz k d =
      (if sz - ddr_part sz = 0 then ret () else ddr_parts_loop i start (sz - ddr_part sz) (k + 1)) d1"
    by (subst ddr_parts_loop.simps, subst thn_Inr, rule run) simp
  show ?case
  proof (cases "sz - ddr_part sz = 0")
    case True
    then have "ddr_parts ?a sz = [(?a, ddr_part sz)]" by (subst ddr_parts.simps) simp
    then show ?thesis using loop True d1(3) by (simp add: ret_app)
  next
    case False
    then have p: "ddr_part sz = 0x80000000" by (auto simp: ddr_part_def split: if_splits)
    have step: "?a + ddr_part sz = start + 0x80000000 * (k + 1)" unfolding p by (simp add: algebra_simps)
    have m: "unat (real_num_regions d1) = Suc (unat (real_num_regions d))"
      using n d1(2) by (simp add: unat_word_ariths word_less_nat_alt)
    have parts: "ddr_parts ?a sz = (?a, ddr_part sz) # ddr_parts (start + 0x80000000 * (k + 1)) (sz - ddr_part sz)"
      using False by (subst ddr_parts.simps) (simp add: step del: right_minus_eq)
    have "unat (real_num_regions d1) + length (ddr_parts (start + 0x80000000 * (k + 1)) (sz - ddr_part sz)) \<le> 300"
      using 1(3) m unfolding parts by simp
    moreover have "word_aligned (start + 0x80000000 * (k + 1))" using word_aligned_add [OF 1(4) al] unfolding step .
    ultimately obtain d2 where "ddr_parts_loop i start (sz - ddr_part sz) (k + 1) d1 = (Inr (), d2)"
        "used_ranges d2 = used_ranges d1 @ ddr_parts (start + 0x80000000 * (k + 1)) (sz - ddr_part sz)"
      using 1(1) [OF False d1(1)] word_aligned_diff [OF 1(5) al] by blast
    then show ?thesis unfolding parts using loop False d1(3) by simp
  qed
qed

text \<open>
  (C18) The DDR behind a chip select is registered in full and nothing else with it, in parts of
  at most two gigabytes, whenever the table has room for them.
\<close>

theorem ddr_parts_loop_covers:
  assumes "length (dload_debug_info d) = 300" and "word_aligned cs_addr"
    and "unat (real_num_regions d) + unat (push_bit 20 ramsize) div 2147483648 + 1 \<le> 300"
  shows "\<exists>d' new. ddr_parts_loop i cs_addr (push_bit 20 ramsize) 0 d = (Inr (), d') \<and> used_ranges d' = used_ranges d @ new \<and>
    (\<forall>(a, l) \<in> set new. l \<le> 0x80000000) \<and> (\<forall>x. (\<exists>(a, l) \<in> set new. in_range a l x) \<longleftrightarrow> in_range cs_addr (push_bit 20 ramsize) x)"
proof -
  let ?sz = "push_bit 20 ramsize"
  have "unat (real_num_regions d) + length (ddr_parts (cs_addr + 0x80000000 * 0) ?sz) \<le> 300"
    using assms(3) length_ddr_parts [of cs_addr ?sz] by simp
  then obtain d' where "ddr_parts_loop i cs_addr ?sz 0 d = (Inr (), d')" "used_ranges d' = used_ranges d @ ddr_parts cs_addr ?sz"
    using ddr_parts_loop_run [OF assms(1), of cs_addr 0 ?sz i] assms(2) word_aligned_MB by auto
  then show ?thesis using ddr_parts_size [of _ _ cs_addr ?sz] ddr_parts_cover [of cs_addr ?sz] by blast
qed

lemma ddr_parts_loop_covers_witness:
  "\<exists>d' new. ddr_parts_loop 0 0x80000000 (push_bit 20 6144) 0 (sample_dload 25) = (Inr (), d') \<and>
    used_ranges d' = used_ranges (sample_dload 25) @ new \<and> (\<forall>(a, l) \<in> set new. l \<le> 0x80000000) \<and>
    (\<forall>x. (\<exists>(a, l) \<in> set new. in_range a l x) \<longleftrightarrow> in_range 0x80000000 (push_bit 20 6144) x)"
  by (rule ddr_parts_loop_covers) (simp_all add: sample_dload_def word_aligned_iff push_bit_eq_mult)


subsection \<open>Regions that software registers\<close>

lemma strlcat_length: "length dst < n \<Longrightarrow> length (strlcat dst src n) < n"
  by (auto simp: strlcat_def)

lemma add_one_region_run:
  assumes "dump_table_ok (\<lambda>_. True) d" and "real_num_regions d < NUM_REGIONS"
  obtains d' where "add_one_region_to_dump r d = (Inr (), d')" and "dump_table_ok (\<lambda>_. True) d'"
    and "used_ranges d' = used_ranges d @ [(region_base_address r AND NOT 3, md_region_size r AND NOT 3)]"
proof -
  let ?name = "strlcat ''md_'' (region_name r) 16"
  let ?name' = "if seq_num r > 0 \<and> seq_num r < 10000 then strlcat ?name (dec (unat (seq_num r))) 16 else ?name"
  have a: "length ?name < 16" by (rule strlcat_length) simp
  then have n: "length ?name' < 16" using strlcat_length by simp
  then have f: "length (strlcat ?name' ''.BIN'' 20) < 20" by (intro strlcat_length) simp
  have info: "length (dload_debug_info d) = 300" using assms(1) by (simp add: dump_table_ok_def)
  have n': "length ?name' < 20" using n by linarith
  from add_region_used [OF info assms(2) n' f, of OPTIONAL_DEF_SAVE "region_base_address r" "md_region_size r"]
  obtain d' where run: "dload_debug_add_region OPTIONAL_DEF_SAVE (region_base_address r) (md_region_size r) ?name' (strlcat ?name' ''.BIN'' 20) d = (Inr True, d')"
    and d': "length (dload_debug_info d') = 300" "real_num_regions d' = real_num_regions d + 1"
      "used_ranges d' = used_ranges d @ [(region_base_address r AND NOT 3, md_region_size r AND NOT 3)]"
    by (auto simp: used_ranges_def)
  have "add_one_region_to_dump r d = (Inr (), d')"
    unfolding add_one_region_to_dump_def Let_def by (subst bnd_Inr, rule run) (simp add: ret_app)
  moreover have "dump_table_ok (\<lambda>_. True) d'" using d' assms(2) inc_le [of "real_num_regions d" 300] by (simp add: dump_table_ok_def)
  ultimately show thesis using d'(3) by (rule that)
qed

text \<open>
  (C30) A descriptor of one to three bytes at address 1, 2 or 3 passes the checks made on the
  regions of a small dump. It is registered as the empty region at address 0, whose last address
  wraps to the end of memory, so that afterwards every range is approved.
\<close>

theorem tiny_minidump_region_opens_memory:
  assumes "dump_table_ok (\<lambda>_. True) d" and "real_num_regions d < NUM_REGIONS"
    and "region_base_address r \<in> {1, 2, 3}" and "md_region_size r \<in> {1, 2, 3}" and "ddr_end_addr E > 6"
  shows "md_is_valid_smem_entry E (region_base_address r) (md_region_size r) \<and>
    (\<exists>d'. add_one_region_to_dump r d = (Inr (), d') \<and>
      (\<forall>info base len. len \<noteq> 0 \<and> base \<le> base + len - 1 \<longrightarrow> dload_mem_debug_verify_addr info d' base len))"
proof
  have "region_base_address r + md_region_size r \<le> 6" using assms(3,4) by auto
  moreover have "region_base_address r \<le> 3" "0 < region_base_address r" "md_region_size r \<noteq> 0" using assms(3,4) by auto
  ultimately show "md_is_valid_smem_entry E (region_base_address r) (md_region_size r)"
    using assms(5) unfolding md_is_valid_smem_entry_def word_less_nat_alt word_le_nat_alt by simp
  have z: "region_base_address r AND NOT 3 = 0" "md_region_size r AND NOT 3 = 0" using assms(3,4) by auto
  obtain d' where run: "add_one_region_to_dump r d = (Inr (), d')" and u: "used_ranges d' = used_ranges d @ [(0, 0)]"
    using add_one_region_run [OF assms(1,2), of r] unfolding z by blast
  have "(0, 0) \<in> set (used_ranges d')" unfolding u by simp
  then obtain e where e: "e \<in> set (take (unat (real_num_regions d')) (dload_debug_info d'))" "mem_base e = 0" "region_length e = 0"
    by (auto simp: used_ranges_def)
  have "within_entry base last (mem_base e) (region_length e)" for base last by (simp add: within_entry_def e)
  then have "dload_mem_debug_verify_addr info d' base len" if "len \<noteq> 0" "base \<le> base + len - 1" for info base len
    using that e(1) unfolding dload_mem_debug_verify_addr_def Let_def list_ex_iff by auto
  with run show "\<exists>d'. add_one_region_to_dump r d = (Inr (), d') \<and>
      (\<forall>info base len. len \<noteq> 0 \<and> base \<le> base + len - 1 \<longrightarrow> dload_mem_debug_verify_addr info d' base len)" by blast
qed

definition sample_descriptor :: "u64 \<Rightarrow> u64 \<Rightarrow> md_ss_region" where
  "sample_descriptor base sz =
     \<lparr>region_name = ''KMSGBUF'', seq_num = 0, md_valid = MD_REGION_VALID, region_base_address = base, md_region_size = sz\<rparr>"

definition sample_board :: dload_env where
  "sample_board =
     \<lparr>dload_debug_info_addr = 0x85E00000, cmm_script_addr = 0x85E10000, mob_sw_rev = ''SM8250'', saved_cookie = 0x10,
      ddr_info = [(0x80000000, 6144)], training_data_listed = False, ddr_training_data_dump = 0x85E20000,
      pmic_power_on = 0x85E21000, pmic_pon_history = 0x85E22000, reset_status_register = 0x85E23000,
      aoss_cc_fsm_status_register = 0x85E24000, aoss_cc_fsm_ctrl_register = 0x85E25000, pimem_size = None,
      smem_get_addr = (\<lambda>_. None), auth_is_enabled = False, oem_key = False, md_global_toc = None,
      smem_region_at = (\<lambda>_. sample_descriptor 0 0), dload_rsa_encr_key = 0x85E26000,
      dload_aes_key_iv = 0x85E27000, dload_aes_key_mac = 0x85E2A000\<rparr>"

lemma sample_dload_table: "n \<le> 300 \<Longrightarrow> dump_table_ok (\<lambda>_. True) (sample_dload n)"
  using sample_dload_ok [of n] by (simp add: dump_table_ok_def)

lemma sample_ddr_end: "ddr_end_addr sample_board = 0x200000000"
  by (simp add: sample_board_def ddr_end_addr_def push_bit_eq_mult)

lemma tiny_minidump_region_opens_memory_witness:
  "md_is_valid_smem_entry sample_board 1 2 \<and>
    (\<exists>d'. add_one_region_to_dump (sample_descriptor 1 2) (sample_dload 25) = (Inr (), d') \<and>
      (\<forall>info base len. len \<noteq> 0 \<and> base \<le> base + len - 1 \<longrightarrow> dload_mem_debug_verify_addr info d' base len))"
  using tiny_minidump_region_opens_memory [of "sample_dload 25" "sample_descriptor 1 2" sample_board]
  by (simp add: sample_dload_table sample_ddr_end) (simp add: sample_dload_def sample_descriptor_def)

text \<open>
  (C37) The regions are read for encryption by an 8-bit index: from the 257th on, the one
  encrypted is another one, 256 places earlier.
\<close>

theorem encryption_index_wraps:
  assumes "256 \<le> i" and "i < unat n" and "n \<le> NUM_REGIONS" and "n = real_num_regions d" and "unat start \<le> i"
  shows "protected_regions d start n ! (i - unat start) =
    (mem_base (dload_debug_info d ! (i - 256)), region_length (dload_debug_info d ! (i - 256)), of_nat i)"
proof -
  have n: "unat n \<le> 300" using assms(3) by (simp add: word_le_nat_alt)
  have "i - 256 < 256" "i < 512" using assms(1,2) n by simp_all
  then have u: "unat (of_nat i :: u8) = i - 256" using assms(1) by (simp add: unat_of_nat mod_if)
  have "i - 256 < 4294967296" using assms(2) n by simp
  then have "unat (ucast (of_nat i :: u8) :: u32) = i - 256" using u by (simp add: unsigned_ucast_eq take_bit_eq_mod)
  then have "ucast (of_nat i :: u8) < real_num_regions d" using assms n by (simp add: word_less_nat_alt)
  then have "dload_entry d (of_nat i) = Some (dload_debug_info d ! (i - 256))" by (simp add: dload_entry_def u)
  moreover have "protected_regions d start n ! (i - unat start) =
      (dload_mem_debug_mem_base d (of_nat i), dload_mem_debug_mem_length d (of_nat i), of_nat i)"
  proof -
    have "[unat start..<unat n] ! (i - unat start) = i" using assms(2,5) by (subst nth_upt) simp_all
    then show ?thesis using assms(2,5) by (simp add: protected_regions_def)
  qed
  ultimately show ?thesis by (simp add: dload_mem_debug_mem_base_def dload_mem_debug_mem_length_def)
qed

lemma encryption_index_wraps_witness:
  "protected_regions (sample_dload 300) 0 300 ! 256 =
    (mem_base (dload_debug_info (sample_dload 300) ! 0), region_length (dload_debug_info (sample_dload 300) ! 0), 256)"
proof -
  have n: "300 = real_num_regions (sample_dload 300)" unfolding sample_dload_def dload.select_convs by simp
  show ?thesis
    by (rule encryption_index_wraps [of 256 300 "sample_dload 300" 0, OF _ _ _ n, unfolded unsigned_0 diff_zero diff_self_eq_0 of_nat_numeral]) simp_all
qed


subsection \<open>The areas of a full dump\<close>

text \<open>
  The memory a full dump may contain: the fixed regions, the registers and data copied to
  static buffers, the DDR, and the script. A base and a length are rounded down to words.
\<close>

definition dump_areas :: "dload_env \<Rightarrow> (u64 \<times> u64) list" where
  "dump_areas E =
     map (\<lambda>r. (ucast (region_base r), ucast (region_size r))) (memory_region_table @ ipa_memory_region_table) @
     [(low32 (pmic_power_on E), 8), (low32 (pmic_pon_history E), 204), (low32 (reset_status_register E), 4),
      (low32 (ddr_training_data_dump E), SCL_DDR_TRAINING_DATA_BUF_SIZE), (low32 (aoss_cc_fsm_status_register E), 4),
      (low32 (aoss_cc_fsm_ctrl_register E), 4), (cmm_script_addr E, 32768)] @
     (case pimem_size E of None \<Rightarrow> [] | Some mb \<Rightarrow> [(SCL_pIMEM_BASE, ucast (push_bit 20 mb))]) @
     map (\<lambda>(cs_addr, ramsize). (cs_addr, push_bit 20 ramsize)) (ddr_info E)"

definition in_area :: "u64 \<times> u64 \<Rightarrow> u64 \<Rightarrow> bool" where
  "in_area a x \<longleftrightarrow> in_range (fst a AND NOT 3) (snd a AND NOT 3) x"

definition in_dump :: "dload_env \<Rightarrow> u64 \<Rightarrow> bool" where
  "in_dump E x \<longleftrightarrow> (\<exists>a \<in> set (dump_areas E). in_area a x)"

text \<open>An entry that registers nothing else, and is not the empty region at address 0.\<close>

definition dump_entry :: "dload_env \<Rightarrow> dload_debug_type \<Rightarrow> bool" where
  "dump_entry E r \<longleftrightarrow> (region_length r \<noteq> 0 \<or> mem_base r \<noteq> 0) \<and> (\<forall>x. in_range (mem_base r) (region_length r) x \<longrightarrow> in_dump E x)"

text \<open>The chip selects and the script have addresses that are multiples of 4 and not 0.\<close>

definition board_ok :: "dload_env \<Rightarrow> bool" where
  "board_ok E \<longleftrightarrow> (\<forall>(cs_addr, ramsize) \<in> set (ddr_info E). word_aligned cs_addr \<and> cs_addr \<noteq> 0 \<and>
       unat cs_addr + unat (push_bit 20 ramsize) < 2 ^ 64) \<and>
     word_aligned (cmm_script_addr E) \<and> cmm_script_addr E \<noteq> 0"

lemma area_entry:
  "a \<in> set (dump_areas E) \<Longrightarrow> fst a AND NOT 3 \<noteq> 0 \<or> snd a AND NOT 3 \<noteq> 0 \<Longrightarrow>
   dump_entry E \<lparr>save_pref = pref, mem_base = fst a AND NOT 3, region_length = snd a AND NOT 3, desc = dsc, filename = fname\<rparr>"
  by (auto simp: dump_entry_def in_dump_def in_area_def)

lemma fixed_region_keeps:
  "(base, len) \<in> set (dump_areas E) \<Longrightarrow> base AND NOT 3 \<noteq> 0 \<or> len AND NOT 3 \<noteq> 0 \<Longrightarrow>
   keeps (dump_table_rel (dump_entry E)) (verified_region base len dsc fname)"
  using area_entry [of "(base, len)" E] by (intro verified_region_keeps) simp

lemma mono_range: "unat n \<le> unat m \<Longrightarrow> in_range a n x \<Longrightarrow> in_range a m x"
  by (simp add: in_range_def)

lemma ddr_loop_keeps:
  assumes "\<And>x. in_range (start + 0x80000000 * k) sz x \<Longrightarrow> in_dump E x" and "word_aligned (start + 0x80000000 * k)" and "word_aligned sz"
    and "unat (start + 0x80000000 * k) + unat sz < 2 ^ 64" and "start + 0x80000000 * k \<noteq> 0"
  shows "keeps (dump_table_rel (dump_entry E)) (ddr_parts_loop i start sz k)"
  using assms
proof (induction i start sz k rule: ddr_parts_loop.induct)
  case (1 i start sz k)
  let ?a = "start + 0x80000000 * k"
  have p: "unat (ddr_part sz) \<le> unat sz" using ddr_part_le(1) [of sz] by (simp add: word_le_nat_alt)
  have entry: "keeps (dump_table_rel (dump_entry E)) (verified_region ?a (ddr_part sz) dsc fname)" for dsc fname
    using 1(2,6) mono_range [OF p] word_aligned_part [OF 1(4)] 1(3)
    by (intro verified_region_keeps) (simp add: dump_entry_def and_m4)
  have rest: "keeps (dump_table_rel (dump_entry E)) (ddr_parts_loop i start (sz - ddr_part sz) (k + 1))" if n: "sz - ddr_part sz \<noteq> 0"
  proof (rule 1(1) [OF n])
    have p: "ddr_part sz = 0x80000000" using n by (auto simp: ddr_part_def split: if_splits)
    have step: "start + 0x80000000 * (k + 1) = ?a + ddr_part sz" unfolding p by (simp add: algebra_simps)
    have d: "unat (sz - ddr_part sz) = unat sz - unat (ddr_part sz)" "unat (ddr_part sz) \<le> unat sz"
      using ddr_part_le(1) [of sz] by (simp_all add: unat_sub word_le_nat_alt)
    have a: "unat (?a + ddr_part sz) = unat ?a + unat (ddr_part sz)"
      using 1(5) d(2) by (intro unat_add_nowrap) (simp add: no_wrap_iff)
    show "in_dump E x" if "in_range (start + 0x80000000 * (k + 1)) (sz - ddr_part sz) x" for x
      using that 1(2) split_range [OF ddr_part_le(1)] unfolding step by blast
    show "word_aligned (start + 0x80000000 * (k + 1))" unfolding step by (intro word_aligned_add word_aligned_part 1(3,4))
    show "word_aligned (sz - ddr_part sz)" by (intro word_aligned_diff word_aligned_part 1(4))
    show "unat (start + 0x80000000 * (k + 1)) + unat (sz - ddr_part sz) < 2 ^ 64" unfolding step a using d 1(5) by linarith
    have "0 < unat (ddr_part sz)" unfolding p by simp
    then have "0 < unat (?a + ddr_part sz)" using a by linarith
    then show "start + 0x80000000 * (k + 1) \<noteq> 0" unfolding step by (metis less_irrefl unat_0)
  qed
  show ?case by (subst ddr_parts_loop.simps) (intro dump_table_intros entry rest)
qed


lemma ddr_keeps:
  assumes "board_ok E"
  shows "keeps (dump_table_rel (dump_entry E)) (dload_add_ddr E)"
proof -
  have "keeps (dump_table_rel (dump_entry E)) (ddr_parts_loop i cs (push_bit 20 ram) 0)" if "(cs, ram) \<in> set (ddr_info E)" for i cs ram
  proof (rule ddr_loop_keeps)
    have cs: "word_aligned cs" "cs \<noteq> 0" "unat cs + unat (push_bit 20 ram) < 2 ^ 64" using assms that by (auto simp: board_ok_def)
    then show "word_aligned (cs + 0x80000000 * 0)" "cs + 0x80000000 * 0 \<noteq> 0" "unat (cs + 0x80000000 * 0) + unat (push_bit 20 ram) < 2 ^ 64"
      by simp_all
    show "word_aligned (push_bit 20 ram)" by (rule word_aligned_MB)
    have "(cs, push_bit 20 ram) \<in> set (dump_areas E)" using that by (auto simp: dump_areas_def)
    moreover have "in_area (cs, push_bit 20 ram) x" if "in_range cs (push_bit 20 ram) x" for x
      using that cs(1) word_aligned_MB [of ram] by (simp add: in_area_def and_m4)
    ultimately show "in_dump E x" if "in_range (cs + 0x80000000 * 0) (push_bit 20 ram) x" for x
      using that unfolding in_dump_def by auto
  qed
  then show ?thesis
    unfolding dload_add_ddr_def by (intro dump_table_intros) (auto split: prod.split dest: nth_mem)
qed

lemma tables_in_areas:
  assumes "r \<in> set (memory_region_table @ ipa_memory_region_table)"
  shows "(ucast (region_base r), ucast (region_size r)) \<in> set (dump_areas E)"
  using assms unfolding dump_areas_def by auto

lemma tables_not_empty:
  "\<forall>r \<in> set (memory_region_table @ ipa_memory_region_table). (ucast (region_base r) :: u64) AND NOT 3 \<noteq> 0"
  by (simp add: memory_region_table_def ipa_memory_region_table_def upt_rec)

lemma add_table_keeps:
  "(\<forall>r \<in> set rs. (ucast (region_base r), ucast (region_size r)) \<in> set (dump_areas E) \<and> (ucast (region_base r) :: u64) AND NOT 3 \<noteq> 0) \<Longrightarrow>
   keeps (dump_table_rel (dump_entry E)) (add_table rs status)"
proof (induction rs arbitrary: status)
  case (Cons r rs)
  then have r: "(ucast (region_base r), ucast (region_size r)) \<in> set (dump_areas E)" "(ucast (region_base r) :: u64) AND NOT 3 \<noteq> 0" by auto
  have "keeps (dump_table_rel (dump_entry E)) (dload_debug_add_region pref (ucast (region_base r)) (ucast (region_size r)) dsc fname)" for pref dsc fname
    using area_entry [OF r(1)] r(2) by (intro add_region_keeps) simp
  then show ?case using Cons by (auto intro!: dump_table_intros)
qed simp

text \<open>The whole target initialisation of a full dump registers only these areas.\<close>

lemma target_init_keeps:
  assumes b: "board_ok E" and full: "saved_cookie E AND SBL_MINIDUMP_MODE_BIT_MASK = 0"
  shows "keeps (dump_table_rel (dump_entry E)) (dload_mem_debug_target_init E)"
proof -
  note areas = fixed_region_keeps [of _ _ E]
  have start: "keeps (dump_table_rel (dump_entry E)) (modify (\<lambda>d. d\<lparr>region_table_fixed_length := True, dload_flag := saved_cookie E\<rparr>))"
    by (rule keepsI) (simp add: dump_table_rel_def dump_table_ok_def full)
  have table: "keeps (dump_table_rel (dump_entry E)) (add_table (if dload_mem_debug_is_device_retail_unlocked then [] else memory_region_table) False)"
    by (rule add_table_keeps) (use tables_in_areas tables_not_empty in \<open>auto simp: dload_mem_debug_is_device_retail_unlocked_def\<close>)
  have ipa: "keeps (dump_table_rel (dump_entry E)) dload_add_ipa_memory_regions"
    unfolding dload_add_ipa_memory_regions_def
    by (intro dump_table_intros areas) (use tables_in_areas tables_not_empty in auto)
  have pmic: "keeps (dump_table_rel (dump_entry E)) (dload_add_pmic_info E md)" for md
    unfolding dload_add_pmic_info_def by (intro dump_table_intros areas) (simp_all add: dump_areas_def)
  have reset: "keeps (dump_table_rel (dump_entry E)) (dload_add_reset_status E md)" for md
    unfolding dload_add_reset_status_def by (intro dump_table_intros areas) (simp_all add: dump_areas_def)
  have training: "keeps (dump_table_rel (dump_entry E)) (dload_add_ddr_training_data E)"
    unfolding dload_add_ddr_training_data_def by (intro dump_table_intros areas) (simp_all add: dump_areas_def)
  have pimem: "keeps (dump_table_rel (dump_entry E)) (dload_add_pimem_region E)"
    unfolding dload_add_pimem_region_def by (intro dump_table_intros areas) (simp_all add: dump_areas_def)
  have aoss: "keeps (dump_table_rel (dump_entry E)) (dload_add_aoss_cc_regs E)"
    unfolding dload_add_aoss_cc_regs_def by (intro dump_table_intros areas) (simp_all add: dump_areas_def)
  show ?thesis
    unfolding dload_mem_debug_target_init_def using full
    by (intro dump_table_intros start table ipa pmic reset training pimem aoss ddr_keeps [OF b]) simp_all
qed


lemma script_line_fits:
  fixes st :: "string \<times> int"
  assumes "length (fst st) \<le> 32767" and "snd st > 0 \<longrightarrow> int (length (fst st)) + snd st \<le> 32768"
  shows "length (fst (script_line txt st)) \<le> 32767 \<and>
    (snd (script_line txt st) > 0 \<longrightarrow> int (length (fst (script_line txt st))) + snd (script_line txt st) \<le> 32768)"
  using assms by (auto simp: script_line_def split: prod.split)

lemma script_lines_fit:
  assumes "length (fst st) \<le> 32767" and "snd st > 0 \<longrightarrow> int (length (fst st)) + snd st \<le> 32768"
  shows "length (fst (fold (\<lambda>r. script_line (cmm_region r)) rs st)) \<le> 32767 \<and>
    (snd (fold (\<lambda>r. script_line (cmm_region r)) rs st) > 0 \<longrightarrow>
      int (length (fst (fold (\<lambda>r. script_line (cmm_region r)) rs st))) + snd (fold (\<lambda>r. script_line (cmm_region r)) rs st) \<le> 32768)"
  using assms
proof (induction rs arbitrary: st)
  case (Cons r rs)
  show ?case unfolding fold_Cons comp_apply by (rule Cons.IH) (use script_line_fits [OF Cons.prems] in blast)+
qed simp

lemma cmm_text_fits: "length (cmm_text E d) \<le> 32767"
proof -
  let ?a = "script_line (''; Build ID: '' @ mob_sw_rev E @ newline) ([], SCRIPT_BUF_SIZE)"
  let ?b = "fold (\<lambda>r. script_line (cmm_region r)) (take (unat (real_num_regions d)) (dload_debug_info d)) ?a"
  have a: "length (fst ?a) \<le> 32767 \<and> (snd ?a > 0 \<longrightarrow> int (length (fst ?a)) + snd ?a \<le> 32768)"
    by (rule script_line_fits) simp_all
  have b: "length (fst ?b) \<le> 32767 \<and> (snd ?b > 0 \<longrightarrow> int (length (fst ?b)) + snd ?b \<le> 32768)"
    by (rule script_lines_fit) (use a in blast)+
  show ?thesis unfolding cmm_text_def using script_line_fits [of ?b] b by blast
qed

text \<open>
  After the initialisation the table holds areas of a full dump only, whatever it held before.
\<close>

lemma mem_debug_init_table:
  assumes b: "board_ok E" and full: "saved_cookie E AND SBL_MINIDUMP_MODE_BIT_MASK = 0" and d: "dload_flag d AND SBL_MINIDUMP_MODE_BIT_MASK = 0"
  shows "dump_table_rel (dump_entry E) (d\<lparr>real_num_regions := 0, dload_debug_info := replicate 300 empty_region\<rparr>) (final (dload_mem_debug_init E) d)"
proof -
  have script: "keeps (dump_table_rel (dump_entry E)) (modify (\<lambda>d. d\<lparr>cmm_script := cmm_text E d\<rparr>))"
    by (rule keepsI) (simp add: dump_table_rel_def dump_table_ok_def cmm_text_fits)
  have entry: "keeps (dump_table_rel (dump_entry E)) (dload_debug_add_region MANDATORY (cmm_script_addr E) len ''CMM Script'' ''load.cmm'')"
    if "unat len \<le> 32767" for len
  proof (rule add_region_keeps)
    fix pref
    have a: "cmm_script_addr E AND NOT 3 = cmm_script_addr E" "cmm_script_addr E \<noteq> 0" using b by (simp_all add: board_ok_def and_m4)
    have "unat (len AND NOT 3) \<le> unat len" using word_and_le2 [of len "NOT 3"] by (simp only: word_le_nat_alt)
    then have n: "unat (len AND NOT 3) \<le> unat (32768 :: u64)" using that by simp
    have "in_area (cmm_script_addr E, 32768) x" if "in_range (cmm_script_addr E) (len AND NOT 3) x" for x
      using mono_range [OF n that] a(1) by (simp add: in_area_def)
    moreover have "(cmm_script_addr E, 32768) \<in> set (dump_areas E)" by (simp add: dump_areas_def)
    ultimately show "dump_entry E \<lparr>save_pref = pref, mem_base = cmm_script_addr E AND NOT 3, region_length = len AND NOT 3,
        desc = ''CMM Script'', filename = ''load.cmm''\<rparr>"
      using a unfolding dump_entry_def in_dump_def by auto
  qed
  let ?d0 = "d\<lparr>real_num_regions := 0, dload_debug_info := replicate 300 empty_region, region_table_fixed_length := False\<rparr>"
  let ?rest = "thn (modify (\<lambda>d. d\<lparr>cmm_script := cmm_text E d\<rparr>)) (bnd (gets (\<lambda>d. of_nat (length (cmm_script d)))) (\<lambda>len.
     bnd (dload_debug_add_region MANDATORY (cmm_script_addr E) len ''CMM Script'' ''load.cmm'') (\<lambda>_. dload_mem_debug_post_target_init E)))"
  have rest: "dump_table_rel (dump_entry E) t (final ?rest t)" if "dload_flag t AND SBL_MINIDUMP_MODE_BIT_MASK = 0" for t
  proof -
    let ?t = "t\<lparr>cmm_script := cmm_text E t\<rparr>"
    let ?len = "of_nat (length (cmm_text E t)) :: u64"
    have len: "unat ?len \<le> 32767" using cmm_text_fits [of E t] by (simp add: unat_of_nat)
    obtain r u where u: "dload_debug_add_region MANDATORY (cmm_script_addr E) ?len ''CMM Script'' ''load.cmm'' ?t = (r, u)" by fastforce
    have tu: "dump_table_rel (dump_entry E) ?t u" using keepsD [OF entry [OF len], of ?t] u by simp
    then have "dload_flag u AND SBL_MINIDUMP_MODE_BIT_MASK = 0" using that by (simp add: dump_table_rel_def)
    then have "final (dload_mem_debug_post_target_init E) u = u" by (simp add: dload_mem_debug_post_target_init_def ret_app)
    then have "final ?rest t = u" using u by (cases r) (simp_all add: bnd_app)
    moreover have "dump_table_rel (dump_entry E) t ?t" by (simp add: dump_table_rel_def dump_table_ok_def cmm_text_fits)
    ultimately show ?thesis using dump_table.rel_trans tu by blast
  qed
  obtain r t where t: "dload_mem_debug_target_init E ?d0 = (r, t)" by fastforce
  then have dt: "dump_table_rel (dump_entry E) ?d0 t" using keepsD [OF target_init_keeps [OF b full], of ?d0] by simp
  then have "dload_flag t AND SBL_MINIDUMP_MODE_BIT_MASK = 0" using d by (simp add: dump_table_rel_def)
  then have "dump_table_rel (dump_entry E) ?d0 (final (thn (dload_mem_debug_target_init E) ?rest) ?d0)"
    using dt dump_table.rel_trans [OF dt rest] t by (cases r) (simp_all add: thn_app)
  then show ?thesis unfolding dload_mem_debug_init_def by (simp add: dump_table_rel_def dump_table_ok_def)
qed

end
