(* ===== verification/Ram_Dump.thy ===== *)
theory Ram_Dump
  imports Mem_Debug Sahara_States
begin

text \<open>
  The client of the Sahara protocol in the memory dump image (sbl1\_sahara.c) and the session
  that image opens (XBLRamDump.c). The state of the client is the table of regions together with
  the state of the USB driver, which is a parameter. The functions that authenticate an image
  are a parameter as well: the session expects no image, so that none of them runs.
\<close>

abbreviation (input) "SAHARA_EXEC_CMD_SERIAL_NUM_READ \<equiv> (1 :: u32)"
abbreviation (input) "SAHARA_NAK_EXEC_CMD_UNSUPPORTED \<equiv> (0x1F :: u32)"
abbreviation (input) "RAMFS1_IMG \<equiv> (16 :: u32)"
abbreviation (input) "RAMFS2_IMG \<equiv> (17 :: u32)"
abbreviation (input) "BACKUP_RAMFS_IMG \<equiv> (20 :: u32)"
abbreviation (input) "ACDB_IMG \<equiv> (29 :: u32)"

record 'u ram_dump =
  dump :: dload
  usb :: 'u

record 'u ram_env = dload_env +
  packet_buffer_addr :: u64
  sbl_sahara_mem_debug_buffer :: u64
  sahara_cmd_exec_data_resp_buf :: u64
  serial_num :: u32
  auth_requested :: bool
  pbl_is_auth_enabled :: bool
  bin_header_ptr :: u64
  elf_header_addr :: u64
  elf_prog_headers_ptr :: u64
  hash_segment_buffer_addr :: u64
  loader_whitelists :: whl_state
  memory_dump_allowed :: bool
  wait_rounds :: nat
  sbl_sahara_auth_tbl :: "'u ram_dump boot_sahara_auth_tbl"
  qusb_al_bulk_init :: "mem \<times> 'u \<Rightarrow> mem \<times> 'u"
  usb_al_bulk_shutdown :: "'u \<Rightarrow> 'u"
  usb_al_bulk_poll :: "mem \<times> 'u \<Rightarrow> bulk_event option \<times> mem \<times> 'u"
  usb_al_bulk_receive :: "u64 \<Rightarrow> u32 \<Rightarrow> mem \<times> 'u \<Rightarrow> bulk_event option \<times> mem \<times> 'u"
  usb_al_bulk_transmit :: "u64 \<Rightarrow> u32 \<Rightarrow> mem \<times> 'u \<Rightarrow> bulk_event option \<times> 'u"
  usb_al_bulk_get_max_packet_size :: u32
  usb_al_bulk_get_max_raw_data_size :: u32

subsection \<open>The memory debug table\<close>

text \<open>An entry of the table as the host reads it: five fields without padding, 64 bytes.\<close>

definition text_bytes :: "nat \<Rightarrow> string \<Rightarrow> bytes" where
  "text_bytes n txt = take n (map (\<lambda>c. of_nat (of_char c)) txt @ replicate n 0)"

definition region_bytes :: "dload_debug_type \<Rightarrow> bytes" where
  "region_bytes r = le_bytes 8 (unat (save_pref r)) @ le_bytes 8 (unat (mem_base r)) @ le_bytes 8 (unat (region_length r)) @
     text_bytes 20 (desc r) @ text_bytes 20 (filename r)"

text \<open>The table and the script in memory.\<close>

definition table_image :: "('u, 'p) ram_env_scheme \<Rightarrow> dload \<Rightarrow> mem \<Rightarrow> mem" where
  "table_image E d m = mem_write (dload_debug_info_addr E) (concat (map region_bytes (dload_debug_info d)))
     (mem_write (cmm_script_addr E) (map (\<lambda>c. of_nat (of_char c)) (cmm_script d) @ [0]) m)"

definition ram_mem_debug_init :: "('u, 'p) ram_env_scheme \<Rightarrow> mem \<times> 'u ram_dump \<Rightarrow> fault option \<times> mem \<times> 'u ram_dump" where
  "ram_mem_debug_init E = (\<lambda>(m, h). case dload_mem_debug_init (dload_env.truncate E) (dump h) of (r, d) \<Rightarrow>
     ((case r of Inl f \<Rightarrow> Some f | Inr _ \<Rightarrow> None), table_image E d m, h\<lparr>dump := d\<rparr>))"

definition sbl_sahara_mem_debug_copy_restricted ::
  "('u, 'p) ram_env_scheme \<Rightarrow> u64 \<Rightarrow> u64 \<Rightarrow> mem \<times> 'u ram_dump \<Rightarrow> u64 \<times> mem \<times> 'u ram_dump" where
  "sbl_sahara_mem_debug_copy_restricted E addr len = (\<lambda>(m, h).
     if addr > 0 \<and> len \<le> ucast SAHARA_MAX_MEMORY_DATA_SIZE_IN_BYTES
     then (sbl_sahara_mem_debug_buffer E, qmemcpy (sbl_sahara_mem_debug_buffer E) addr (ucast len) m, h)
     else (0, m, h))"

definition sbl_sahara_mem_debug_tbl :: "('u, 'p) ram_env_scheme \<Rightarrow> 'u ram_dump boot_sahara_mem_debug_tbl" where
  "sbl_sahara_mem_debug_tbl E =
     \<lparr>mem_debug_supported = memory_dump_allowed E,
      mem_debug_init = ram_mem_debug_init E,
      mem_debug_table_addr = dload_debug_info_addr E,
      mem_debug_table_len = (\<lambda>(m, h). dload_mem_debug_len (dump h)),
      mem_debug_verify_addr = (\<lambda>base len (m, h). dload_mem_debug_verify_addr (dload_debug_info_addr E) (dump h) base len),
      mem_debug_is_restricted_addr = (\<lambda>base len (m, h). dload_mem_debug_is_restricted_addr (dump h) base len),
      mem_debug_copy_restricted = sbl_sahara_mem_debug_copy_restricted E\<rparr>"

subsection \<open>The dispatch table\<close>

definition sbl_sahara_exec_cmd ::
  "('u, 'p) ram_env_scheme \<Rightarrow> u32 \<Rightarrow> mem \<times> 'u ram_dump \<Rightarrow> (u64 \<times> u32 \<times> u32) \<times> mem \<times> 'u ram_dump" where
  "sbl_sahara_exec_cmd E client_command = (\<lambda>(m, h).
     if client_command = SAHARA_EXEC_CMD_SERIAL_NUM_READ
     then ((sahara_cmd_exec_data_resp_buf E, 4, SAHARA_STATUS_SUCCESS),
           mem_write (sahara_cmd_exec_data_resp_buf E) (le_bytes 4 (unat (serial_num E))) m, h)
     else ((sahara_cmd_exec_data_resp_buf E, 0, SAHARA_NAK_EXEC_CMD_UNSUPPORTED), m, h))"

definition sbl_sahara_is_auth_enabled :: "('u, 'p) ram_env_scheme \<Rightarrow> bool" where
  "sbl_sahara_is_auth_enabled E = (if auth_requested E then pbl_is_auth_enabled E else False)"

definition sbl_sahara_get_bin_image_size :: "u64 \<Rightarrow> mem \<Rightarrow> u64" where
  "sbl_sahara_get_bin_image_size header m = ucast (load32 (header + 16) m)"

definition sbl_sahara_skip_image_load :: "u32 \<Rightarrow> bool" where
  "sbl_sahara_skip_image_load img = (img \<in> {RAMFS1_IMG, RAMFS2_IMG, BACKUP_RAMFS_IMG, ACDB_IMG})"

definition whitelist_accepts :: "('u, 'p) ram_env_scheme \<Rightarrow> u64 \<Rightarrow> u64 \<Rightarrow> u32 \<Rightarrow> bool" where
  "whitelist_accepts E a n typ = (fst (boot_whitelist_address_range_check a n typ (loader_whitelists E)) = Inr True)"

definition ram_sahara_env :: "('u, 'p) ram_env_scheme \<Rightarrow> 'u ram_dump sahara_env" where
  "ram_sahara_env E =
     \<lparr>sahara_packet_buffer = packet_buffer_addr E,
      rounds = wait_rounds E,
      dispatch_complete = True,
      mem_debug_complete = True,
      auth_tbl = Some (sbl_sahara_auth_tbl E),
      mem_debug_tbl = Some (sbl_sahara_mem_debug_tbl E),
      bulk_init = (\<lambda>(m, h). case qusb_al_bulk_init E (m, usb h) of (m', u) \<Rightarrow> (BULK_SUCCESS, m', h\<lparr>usb := u\<rparr>)),
      bulk_shutdown = (\<lambda>h. h\<lparr>usb := usb_al_bulk_shutdown E (usb h)\<rparr>),
      bulk_poll = (\<lambda>(m, h). case usb_al_bulk_poll E (m, usb h) of (ev, m', u) \<Rightarrow> (ev, m', h\<lparr>usb := u\<rparr>)),
      rx_bulk = (\<lambda>p n typ (m, h). case usb_al_bulk_receive E p n (m, usb h) of (ev, m', u) \<Rightarrow> (ev, m', h\<lparr>usb := u\<rparr>)),
      tx_bulk = (\<lambda>p n (m, h). case usb_al_bulk_transmit E p n (m, usb h) of (ev, u) \<Rightarrow> (ev, h\<lparr>usb := u\<rparr>)),
      get_max_packet_size = usb_al_bulk_get_max_packet_size E,
      get_max_raw_data_size = usb_al_bulk_get_max_raw_data_size E,
      valid_address_range = whitelist_accepts E,
      exec_cmd = sbl_sahara_exec_cmd E,
      auth_enabled = sbl_sahara_is_auth_enabled E,
      get_bin_header_size = of_nat SIZEOF_MI_HEADER,
      get_bin_image_id = None,
      get_bin_image_dest = None,
      get_bin_image_size = sbl_sahara_get_bin_image_size,
      get_bin_image_src = None,
      image_load_post_proc = (\<lambda>(m, h). (SAHARA_STATUS_SUCCESS, m, h)),
      skip_image_load = sbl_sahara_skip_image_load,
      get_hash_segment_buffer = hash_segment_buffer_addr E,
      elf_optimized_segment_load = False,
      preprocess_header = None,
      get_orig_hash_index = None,
      bin_image_header = bin_header_ptr E,
      elf_image_header = elf_header_addr E,
      prog_headers = elf_prog_headers_ptr E\<rparr>"

text \<open>The session of the memory dump image, after the dumps to storage.\<close>

definition ram_dump_session :: "('u, 'p) ram_env_scheme \<Rightarrow> (('u ram_dump, 'a) sahara_scheme, unit) boot" where
  "ram_dump_session E =
     thn (modify (\<lambda>s. s\<lparr>sahara_if_mode := SAHARA_MODE_MEMORY_DEBUG\<rparr>))
      (bnd (boot_sahara_entry (ram_sahara_env E)) (\<lambda>_. ret ()))"


subsection \<open>The contract of the driver and of the layout\<close>

text \<open>
  What the documentation of the USB driver promises: it writes only to the buffer it was given
  for a reception, at the latest until the next transmission. \<open>w u\<close> is where it may still write.
\<close>

definition usb_ok :: "('u, 'p) ram_env_scheme \<Rightarrow> ('u \<Rightarrow> u64 \<Rightarrow> bool) \<Rightarrow> bool" where
  "usb_ok E w \<longleftrightarrow>
     (\<forall>p n m u ev m' u'. usb_al_bulk_receive E p n (m, u) = (ev, m', u') \<longrightarrow>
        (\<forall>x. w u' x \<or> m' x \<noteq> m x \<longrightarrow> unat (x - p) < unat n)) \<and>
     (\<forall>p n m u ev u'. usb_al_bulk_transmit E p n (m, u) = (ev, u') \<longrightarrow> (\<forall>x. \<not> w u' x)) \<and>
     (\<forall>m u ev m' u'. usb_al_bulk_poll E (m, u) = (ev, m', u') \<longrightarrow> (\<forall>x. w u' x \<or> m' x \<noteq> m x \<longrightarrow> w u x)) \<and>
     (\<forall>u x. w (usb_al_bulk_shutdown E u) x \<longrightarrow> w u x) \<and>
     (\<forall>m u m' u'. qusb_al_bulk_init E (m, u) = (m', u') \<longrightarrow> m' = m \<and> (\<forall>x. w u' x \<longrightarrow> w u x))"

text \<open>The buffers of the client: the table, the script and the response of a command.\<close>

definition client_data :: "('u, 'p) ram_env_scheme \<Rightarrow> u64 \<Rightarrow> bool" where
  "client_data E x \<longleftrightarrow> unat (x - dload_debug_info_addr E) < 19200 \<or> unat (x - cmm_script_addr E) < 32768 \<or>
     unat (x - sahara_cmd_exec_data_resp_buf E) < 4 \<or> unat (x - sbl_sahara_mem_debug_buffer E) < 4096"

definition layout_ok :: "('u, 'p) ram_env_scheme \<Rightarrow> bool" where
  "layout_ok E \<longleftrightarrow> board_ok (dload_env.truncate E) \<and> dload_debug_info_addr E \<noteq> 0 \<and>
     (\<forall>x. client_data E x \<longrightarrow> \<not> unat (x - packet_buffer_addr E) < 1024)"

text \<open>The bytes that may leave the device.\<close>

definition may_leave :: "('u, 'p) ram_env_scheme \<Rightarrow> u64 \<Rightarrow> bool" where
  "may_leave E x \<longleftrightarrow> in_dump (dload_env.truncate E) x \<or> unat (x - dload_debug_info_addr E) < 19200 \<or>
     unat (x - sahara_cmd_exec_data_resp_buf E) < 4 \<or> unat (x - packet_buffer_addr E) < 48"

definition leaves :: "('u, 'p) ram_env_scheme \<Rightarrow> u64 \<Rightarrow> u32 \<Rightarrow> bool" where
  "leaves E a n \<longleftrightarrow> (\<forall>x. unat (x - a) < unat n \<longrightarrow> may_leave E x)"

definition client_ok :: "('u, 'p) ram_env_scheme \<Rightarrow> 'u ram_dump \<Rightarrow> bool" where
  "client_ok E h \<longleftrightarrow> dump_table_ok (dump_entry (dload_env.truncate E)) (dump h) \<and>
     dload_flag (dump h) AND SBL_MINIDUMP_MODE_BIT_MASK = 0 \<and> num_restricted_regions (dump h) = 0 \<and>
     length (cmm_script (dump h)) \<le> 32767"

lemma text_bytes_length [simp]: "length (text_bytes n txt) = n"
  by (simp add: text_bytes_def)

lemma region_bytes_length [simp]: "length (region_bytes r) = 64"
  by (simp add: region_bytes_def)

lemma length_region_table: "length (concat (map region_bytes rs)) = 64 * length rs"
  by (induction rs) simp_all

lemma ram_packet: "sahara_packet_buffer (ram_sahara_env E) = packet_buffer_addr E"
  by (simp add: ram_sahara_env_def)

lemma client_ok_usb [simp]: "client_ok E (h\<lparr>usb := u\<rparr>) = client_ok E h"
  by (simp add: client_ok_def)

lemma ram_driver:
  assumes "usb_ok E w"
  shows "driver_ok (ram_sahara_env E) (client_ok E) (\<lambda>h. w (usb h))"
proof -
  have rx: "unat (x - p) < unat n" if "usb_al_bulk_receive E p n (m, u) = (ev, m', u')" "w u' x \<or> m' x \<noteq> m x" for p n m u ev m' u' x
    using assms [unfolded usb_ok_def, THEN conjunct1] that by blast
  have tx: "\<not> w u' x" if "usb_al_bulk_transmit E p n (m, u) = (ev, u')" for p n m u ev u' x
    using assms [unfolded usb_ok_def, THEN conjunct2, THEN conjunct1] that by blast
  have poll: "w u x" if "usb_al_bulk_poll E (m, u) = (ev, m', u')" "w u' x \<or> m' x \<noteq> m x" for m u ev m' u' x
    using assms [unfolded usb_ok_def, THEN conjunct2, THEN conjunct2, THEN conjunct1] that by blast
  have shutdown: "w u x" if "w (usb_al_bulk_shutdown E u) x" for u x
    using assms [unfolded usb_ok_def, THEN conjunct2, THEN conjunct2, THEN conjunct2, THEN conjunct1] that by blast
  note usb = rx tx poll shutdown
  show ?thesis
    unfolding driver_ok_def ram_sahara_env_def
    by (simp split: prod.splits) (auto dest: usb)
qed

lemma ram_init_final:
  assumes "layout_ok E" and "saved_cookie E AND SBL_MINIDUMP_MODE_BIT_MASK = 0" and "client_ok E h"
    and "dload_mem_debug_init (dload_env.truncate E) (dump h) = (r, d)"
  shows "client_ok E (h\<lparr>dump := d\<rparr>)"
proof -
  let ?d0 = "(dump h)\<lparr>real_num_regions := 0, dload_debug_info := replicate 300 empty_region\<rparr>"
  have "dump_table_rel (dump_entry (dload_env.truncate E)) ?d0 d"
    using mem_debug_init_table [of "dload_env.truncate E" "dump h"] assms
    by (simp add: layout_ok_def client_ok_def dload_env.truncate_def)
  then show ?thesis
    using assms(3) by (simp add: dump_table_rel_def dump_table_ok_def client_ok_def)
qed


lemma table_image_outside:
  assumes "table_image E d m x \<noteq> m x" and "client_ok E (h\<lparr>dump := d\<rparr>)"
  shows "client_data E x"
proof -
  have "length (dload_debug_info d) = 300" "length (cmm_script d) \<le> 32767"
    using assms(2) by (simp_all add: client_ok_def dump_table_ok_def)
  then have "length (concat (map region_bytes (dload_debug_info d))) = 19200"
      "length (map (\<lambda>c. of_nat (of_char c) :: u8) (cmm_script d) @ [0]) \<le> 32768"
    by (simp_all add: length_region_table)
  moreover have "unat (x - dload_debug_info_addr E) < length (concat (map region_bytes (dload_debug_info d))) \<or>
      unat (x - cmm_script_addr E) < length (map (\<lambda>c. of_nat (of_char c) :: u8) (cmm_script d) @ [0])"
  proof (rule ccontr)
    assume "\<not> ?thesis"
    then have "table_image E d m x = m x" unfolding table_image_def by (simp only: de_Morgan_disj mem_write_outside not_False_eq_True)
    with assms(1) show False by simp
  qed
  ultimately show ?thesis unfolding client_data_def by linarith
qed

lemma ram_debug_client:
  assumes l: "layout_ok E" and full: "saved_cookie E AND SBL_MINIDUMP_MODE_BIT_MASK = 0"
  shows "debug_client (client_data E) (leaves E) (client_ok E) (\<lambda>h. w (usb h)) (sbl_sahara_mem_debug_tbl E)"
proof -
  have init: "client_fn (client_data E) (client_ok E) (\<lambda>h. w (usb h)) (ram_mem_debug_init E)"
    unfolding client_fn_def ram_mem_debug_init_def
    by (auto split: prod.splits dest: ram_init_final [OF l full]) (metis ram_init_final [OF l full] table_image_outside)
  have copy: "client_fn (client_data E) (client_ok E) (\<lambda>h. w (usb h)) (sbl_sahara_mem_debug_copy_restricted E a n)" for a n
  proof -
    have "client_data E x" if "n \<le> 0x1000" "qmemcpy (sbl_sahara_mem_debug_buffer E) a (ucast n) m x \<noteq> m x" for m x
    proof -
      have "unat n \<le> 4096" using that(1) by (simp add: word_le_nat_alt)
      then have "unat (ucast n :: u32) \<le> 4096" by (simp add: unat_ucast_64_32)
      moreover have "unat (x - sbl_sahara_mem_debug_buffer E) < unat (ucast n :: u32)" using that(2) qmemcpy_outside by blast
      ultimately show ?thesis by (simp add: client_data_def)
    qed
    then show ?thesis
      unfolding client_fn_def sbl_sahara_mem_debug_copy_restricted_def by (auto split: if_splits)
  qed
  have verified: "leaves E a (ucast n)" if h: "client_ok E h" and v: "dload_mem_debug_verify_addr (dload_debug_info_addr E) (dump h) a n" for a n h
  proof (unfold leaves_def, intro allI impI)
    fix x
    assume "unat (x - a) < unat (ucast n :: u32)"
    then have x: "unat (x - a) < unat n" using mod_less_eq_dividend [of "unat n" 4294967296] by (simp add: unat_ucast_64_32)
    have entries: "dump_entry (dload_env.truncate E) r" if "r \<in> set (take (unat (real_num_regions (dump h))) (dload_debug_info (dump h)))" for r
      using h that by (simp add: client_ok_def dump_table_ok_def)
    have "dload_debug_info_addr E \<noteq> 0" using l by (simp add: layout_ok_def)
    from verified_bytes [OF v x this] entries have
      "unat (x - dload_debug_info_addr E) < 19200 \<or> (\<exists>r \<in> set (take (unat (real_num_regions (dump h))) (dload_debug_info (dump h))).
         in_range (mem_base r) (region_length r) x)" by (auto simp: dump_entry_def)
    then show "may_leave E x" using entries unfolding may_leave_def dump_entry_def by blast
  qed
  have "\<not> dload_mem_debug_is_restricted_addr (dump h) a n" if "client_ok E h" for a n h
    using that by (simp add: client_ok_def dload_mem_debug_is_restricted_addr_def Let_def)
  then show ?thesis
    unfolding debug_client_def sbl_sahara_mem_debug_tbl_def using init copy verified by simp
qed

lemma ram_sahara_client:
  assumes l: "layout_ok E" and full: "saved_cookie E AND SBL_MINIDUMP_MODE_BIT_MASK = 0" and u: "usb_ok E w"
  shows "sahara_client (ram_sahara_env E) (client_data E) (leaves E) (client_ok E) (\<lambda>h. w (usb h))"
proof -
  let ?E = "ram_sahara_env E"
  have qusb: "m' = m \<and> (\<forall>x. w u' x \<longrightarrow> w v x)" if "qusb_al_bulk_init E (m, v) = (m', u')" for m v m' u'
    using u [unfolded usb_ok_def, THEN conjunct2, THEN conjunct2, THEN conjunct2, THEN conjunct2] that by blast
  have bulk: "client_fn (client_data E) (client_ok E) (\<lambda>h. w (usb h)) (bulk_init ?E)"
    unfolding client_fn_def ram_sahara_env_def by (simp split: prod.splits) (auto dest!: qusb)
  have post: "client_fn (client_data E) (client_ok E) (\<lambda>h. w (usb h)) (image_load_post_proc ?E)"
    by (simp add: client_fn_def ram_sahara_env_def)
  have resp: "client_data E x" if "mem_write (sahara_cmd_exec_data_resp_buf E) (le_bytes 4 k) m x \<noteq> m x" for k m x
    using that mem_write_outside [of x "sahara_cmd_exec_data_resp_buf E" "le_bytes 4 k" m] by (auto simp: client_data_def)
  have exec: "client_fn (client_data E) (client_ok E) (\<lambda>h. w (usb h)) (exec_cmd ?E cmd)" for cmd
    using resp by (auto simp: client_fn_def ram_sahara_env_def sbl_sahara_exec_cmd_def split: if_splits)
  have S: "leaves E (fst (fst (exec_cmd ?E cmd (m, h)))) (fst (snd (fst (exec_cmd ?E cmd (m, h)))))" for cmd m h
    by (simp add: ram_sahara_env_def sbl_sahara_exec_cmd_def leaves_def may_leave_def)
  have packet: "leaves E (packet_buffer_addr E) n" if "n \<le> 48" for n
  proof -
    have "unat n \<le> 48" using that by (simp add: word_le_nat_alt)
    then show ?thesis by (auto simp: leaves_def may_leave_def)
  qed
  show ?thesis
    unfolding sahara_client_def
    using ram_driver [OF u] bulk post exec S packet ram_debug_client [OF l full, of w] l
    by (simp add: layout_ok_def) (simp add: ram_sahara_env_def)
qed


subsection \<open>An instance\<close>

text \<open>A board with a driver that completes every transfer and writes nothing.\<close>

definition no_authentication :: "'h boot_sahara_auth_tbl" where
  "no_authentication =
     \<lparr>init_hash = (\<lambda>(m, h). (False, m, h)), update_hash = (\<lambda>_ _ (m, h). (False, m, h)), finalize_hash = (\<lambda>(m, h). (0, m, h)),
      compare_hash = (\<lambda>_ _ (m, h). (False, m, h)), compute_hash_offsets = (\<lambda>_ _ _ (m, h). (None, m, h)),
      authenticate = (\<lambda>_ (m, h). (False, m, h))\<rparr>"

definition sample_ram :: "unit ram_env" where
  "sample_ram = dload_env.extend sample_board
     \<lparr>packet_buffer_addr = 0x85E40000, sbl_sahara_mem_debug_buffer = 0x85E30000, sahara_cmd_exec_data_resp_buf = 0x85E50000,
      serial_num = 0x12345678, auth_requested = False, pbl_is_auth_enabled = False, bin_header_ptr = 0x85E51000,
      elf_header_addr = 0x85E52000, elf_prog_headers_ptr = 0x85E53000, hash_segment_buffer_addr = 0x85E54000,
      loader_whitelists = \<lparr>memory = (\<lambda>_. 0), curr_image_whitelst_tbl = \<lparr>num_valid_entries = 0, entries = []\<rparr>,
        hdr_meta_whitelst_tbl = \<lparr>num_valid_entries = 0, entries = []\<rparr>\<rparr>,
      memory_dump_allowed = True, wait_rounds = 8, sbl_sahara_auth_tbl = no_authentication,
      qusb_al_bulk_init = (\<lambda>(m, u). (m, u)), usb_al_bulk_shutdown = (\<lambda>u. u), usb_al_bulk_poll = (\<lambda>(m, u). (None, m, u)),
      usb_al_bulk_receive = (\<lambda>p n (m, u). (Some (Rx_event 8 BULK_SUCCESS), m, u)),
      usb_al_bulk_transmit = (\<lambda>p n (m, u). (Some (Tx_event n BULK_SUCCESS), u)),
      usb_al_bulk_get_max_packet_size = 512, usb_al_bulk_get_max_raw_data_size = 0x100000\<rparr>"

definition sample_session :: "unit ram_dump sahara" where
  "sample_session = sahara_at_start \<lparr>dump = sample_dload 0, usb = ()\<rparr>"

lemma sample_truncate: "dload_env.truncate sample_ram = sample_board"
  by (simp add: sample_ram_def dload_env.defs sample_board_def)

lemma sample_addresses:
  "dload_debug_info_addr sample_ram = 0x85E00000" "cmm_script_addr sample_ram = 0x85E10000"
  "packet_buffer_addr sample_ram = 0x85E40000" "sahara_cmd_exec_data_resp_buf sample_ram = 0x85E50000"
  "sbl_sahara_mem_debug_buffer sample_ram = 0x85E30000"
  by (simp_all add: sample_ram_def dload_env.defs sample_board_def)

lemma sample_apart:
  fixes a b x :: u64
  assumes "unat a + n \<le> unat b \<or> unat b + k \<le> unat a" and "unat a + n \<le> 2 ^ 64" and "unat b + k \<le> 2 ^ 64"
    and "unat (x - a) < n"
  shows "\<not> unat (x - b) < k"
proof
  assume k: "unat (x - b) < k"
  have "unat x = unat a + unat (x - a)" using unat_add_lem [of a "x - a"] assms(2,4) by simp
  moreover have "unat x = unat b + unat (x - b)" using unat_add_lem [of b "x - b"] assms(3) k by simp
  ultimately show False using assms(1,4) k by linarith
qed

lemma sample_layout: "layout_ok sample_ram"
proof -
  have "\<not> unat (x - 0x85E40000) < 1024" if "client_data sample_ram x" for x
    using that unfolding client_data_def sample_addresses by (elim disjE; intro sample_apart [where b = "0x85E40000" and k = 1024]) auto
  moreover have "board_ok sample_board"
    by (simp add: board_ok_def sample_board_def word_aligned_iff push_bit_eq_mult)
  ultimately show ?thesis by (simp add: layout_ok_def sample_truncate sample_addresses)
qed

lemma sample_usb: "usb_ok sample_ram (\<lambda>_ _. False)"
  by (simp add: usb_ok_def sample_ram_def dload_env.defs)

lemma sample_start:
  "client_ok sample_ram (hw sample_session)" "expected_image_type sample_session = SAHARA_IMAGE_UNKNOWN"
  "\<not> sahara_parallel_init sample_session" "\<not> sahara_parallel_hash sample_session"
  "sahara_cmd_exec_data_length sample_session = 0" "transmitted sample_session = []"
  by (simp_all add: sample_session_def sahara_at_start_def client_ok_def dump_table_ok_def sample_dload_def)


end
