(* ===== verification/Spec2Isabelle.thy ===== *)
theory Spec2Isabelle
  imports Sbl1_Config Sbl1_Mmu Coldplug_Terminates Sahara_States Ram_Dump
begin

text \<open>
  A verification library for the loader of the Qualcomm XBL boot firmware
  (src/QcomPkg/XBLLoader, with the libraries it is linked from under src/QcomPkg/Library and
  the configuration of the SM8250 under src/QcomPkg/SocPkg). The loader runs from internal
  memory: it sets up page tables, reads images from flash through the coldplug library, checks
  them with the secure monitor, and hands over to the secure environment. After a crash the
  memory dump image (src/QcomPkg/XBLRamDump, SocPkg/Library/XBLRamDumpLib) takes its place: it
  fills a table of memory regions and lets a host read them over USB by the Sahara protocol.
  This theory imports all others.

  \<^bold>\<open>How the parts interact.\<close> \<^verbatim>\<open>boot_config_process_bl\<close> walks the configuration table
  (boot\_config.c, sbl1\_config.c). For every image it installs the whitelist of the image
  (boot\_whitelist\_prot.c) and calls the ELF loader (boot\_elf\_loader.c). The loader reads
  headers and segments with \<^verbatim>\<open>boot_flash_trans_read\<close> (boot\_flash\_trans\_if.h), which asks the
  whitelists before it lets the transport read the bytes of a partition
  (boot\_flash\_trans\_sdcc.c, boot\_flash\_dev\_sdcc.c, boot\_sdcc\_coldplug.c) through the
  coldplug library (coldplug\_api.c), whose partitions the GPT and MBR parsers found and whose
  blocks the UFS, SD or null devices deliver. Headers and hashes go to the secure monitor
  (boot\_authenticator.c, boot\_extern\_sec\_img\_interface.c). What was loaded is recorded in the
  interface to the secure environment (boot\_sbl\_qsee\_interface.c), from which the hand-over
  takes the entry point. Before all this \<^verbatim>\<open>sbl1_populate_initial_mem_map\<close> (sbl1\_mc.c) maps memory
  with the page table library (boot\_page\_table.c). \<^verbatim>\<open>XBLRamDumpMain\<close> calls \<^verbatim>\<open>boot_sahara_entry\<close>
  (boot\_sahara.c), which greets the host and answers its packets through the tables of
  functions in sbl1\_sahara.c; a request for memory is checked against the regions that
  \<^verbatim>\<open>dload_mem_debug_init\<close> registered (boot\_dload\_debug.c, boot\_dload\_debug\_target.c,
  boot\_minidump.c).

  \<^bold>\<open>How the code is modelled.\<close> A C function is a computation of type \<open>('s, 'a) boot\<close>
  (Boot\_Monad): from a state to a value or a fault, with the state it stops in. \<^verbatim>\<open>BL_VERIFY\<close> and
  \<^verbatim>\<open>BL_ERR_FATAL\<close> end in the fault with their error code, since the error handler does not
  return; undefined behaviour of C is a fault of its own. Integers are words of the width of the
  C type, memory is a function from 64-bit addresses to bytes, and packed structures are read
  at the offsets of their fields. The states are records that extend each other in the order
  of the layers: memory, whitelists, the pools of the coldplug library, flash, authentication,
  hashing, the loader, the configuration. What is not code of the repository, or is hardware,
  is a parameter: the block drivers, the secure monitor, the cryptographic engine, the
  allocators and the addresses the linker fixes are the fields of a \<open>platform\<close> record, which
  the boards of the higher layers extend; what is relied on of them is a named predicate
  (such as \<open>board_media\<close>, \<open>machine\<close> or the contract of the engine), which every witness shows to
  be satisfiable by concrete functions.
\<close>

text \<open>
  \<^bold>\<open>The theories.\<close>

  \<^item> Prelude: the C integer types, ranges of addresses, little-endian byte strings, collections
    of facts. Boot\_Monad: the computations and the locale of frames (a reflexive and transitive
    relation that every way of composing computations keeps), interpreted on memory frames.
  \<^item> Boot\_Util (boot\_util.c): memory, \<^verbatim>\<open>qmemset\<close> against a byte fill, byte access through words,
    string length and bit count with their termination.
  \<^item> Whitelist (boot\_whitelist\_prot.c): both tables; a locale states what the two groups of
    operations share and is interpreted on both; the check is inclusion in an active range, and
    every sequence of calls keeps the tables well-formed.
  \<^item> Coldplug\_Device, Coldplug\_Bdev, Coldplug\_Pcache, Coldplug\_Mbr, Crc32, Coldplug\_Gpt,
    Coldplug\_Api (Library/ColdplugLib/src): the pools and their links, the back ends, the block
    cache and its coherence, the parsers on arbitrary media, and the interface: a read or write
    through a handle stays in its partition, and what is written is read back. A handle that
    outlives its partition dereferences a null pointer.
  \<^item> Sdcc, Sdcc\_Read (boot\_sdcc\_coldplug.c): images in partitions; reading bytes at any offset
    through whole blocks delivers exactly the bytes of the medium.
  \<^item> Flash (boot\_flash*.c): transports and the whitelisted read, which changes nothing outside
    the allowed ranges whatever it is asked for.
  \<^item> Secure\_Img, Boot\_Hash (boot\_authenticator.c, boot\_extern\_sec\_img\_interface.c,
    boot\_hash\_buffer.c, boot\_hash.c): the calls into the secure monitor and the hash log.
  \<^item> Elf\_Loader, Elf\_Safety, Elf\_Correct (boot\_elf\_loader.c): the loader; that it is memory-safe
    for every image (a frame of the whole loader), that it refines the placement of the selected
    segments in order, and that it cannot load images of self-authenticating subsystems.
  \<^item> Qsee\_Interface, Arch\_Determination, Boot\_Config, Sbl1\_Config (boot\_sbl\_qsee\_interface.c,
    boot\_arch\_determination.c, boot\_config.c, boot\_mc.c, sbl1\_config.c): the table of loaded
    images, the architecture of an image, the configuration logic (an image is entered only
    after it was loaded and authenticated, in this order), and the configuration of this
    loader: no whitelist reaches its memory, so no image can overwrite it.
  \<^item> Page\_Table, Page\_Table\_Walk, Page\_Table\_Map, Page\_Table\_Lists (boot\_page\_table.c): the tables
    in memory, the walk of the processor as their meaning, the invariant that they form a tree
    apart from the free pools, and that mapping, splitting and removing do to the translation
    what they should. Sbl1\_Mmu (sbl1\_mc.c): the initial memory map; no address is writable and
    executable.
  \<^item> Sahara\_Io, Sahara\_Image, Sahara (boot\_sahara.c): transfers and the packet log, the reception
    of binary and ELF images, and the handlers of the packets with the loop over them.
    Sahara\_Safety: a frame of the whole protocol, relative to what a client's functions may
    write and send: memory changes only in the buffers, and only what the client allows is sent.
    Sahara\_States: sessions as a step relation, its invariant, and that after an error nothing
    but error packets is sent.
  \<^item> Mem\_Debug (boot\_dload\_debug.c, boot\_dload\_debug\_target.c, boot\_minidump.c): the table of
    regions; the check of a range is inclusion in one of them, a full dump registers only its
    areas, and the regions software registers can make the check accept everything.
    Ram\_Dump (sbl1\_sahara.c, XBLRamDump.c): the client and its session, in which nothing but the
    areas of the dump, the table, command responses and protocol packets leaves the device.

  \<^bold>\<open>Loops and bounds.\<close> Loops over arrays and counters recurse on the number of steps left and
  are total. The chain of extended boot records is bounded by the partition limit of a unit, as
  in the code. \<^verbatim>\<open>boot_strlen\<close>, which runs for ever without a terminator, is a partial function
  whose result is \<open>None\<close> then; its theorem shows that it returns on terminated strings. Two loops
  carry fuel: the one that skips unused GPT entries has one step more than entries are left, the
  one over the primary records of an MBR one step more than there are records. Coldplug\_Terminates
  shows that the parse of a unit never exhausts them, on any medium: each step lowers the
  number of entries or raises the index of the record. The Sahara protocol waits for the host
  and the driver as long as they take; its loops carry the fuel \<open>rounds\<close> (\<open>wait_rounds\<close> of the
  client), and what is shown holds for every number of rounds.
\<close>

text \<open>
  \<^bold>\<open>Not modelled.\<close> Most of the repository is not the loader: the vendored EDK2 packages (MdePkg,
  MdeModulePkg, ArmPkg, NetworkPkg, ShellPkg and others), the UEFI core and its drivers
  (QcomPkg/Drivers, Application, QcomModulePkg), C libraries (MuslLib, Zlib), test applications
  and host tools, and generated register headers. Of the loader, the wrappers of the clock, power,
  pin, temperature and external memory drivers (boot\_extern\_*.c) only pass calls on; the log,
  the profiler and the UART have no effect on what is loaded; the error handler does not return.
  Of the memory dump image, the dumps to storage, the display, the ciphers of the small dump
  (their calls are kept as a trace), the contents of the static buffers of registers, and the
  authentication functions of sbl1\_sahara.c (a parameter) are left out. Concurrency does not
  arise: the loader runs on one core without interrupts. Cache maintenance and barriers have no
  effect in a model with one memory.
\<close>

end
